(* ===== verification/Prelude.thy ===== *)
theory Prelude
  imports Main "HOL-Library.List_Lexorder" "HOL-Library.Char_ord"
begin

text \<open>
  Shared vocabulary of the development: the fallible results of the code
  (\<open>Result<T, E>\<close> is \<open>'e + 'a\<close>, the error on the left, and the \<open>?\<close> operator is
  \<open>and_then\<close>), the collections of rewrite rules that the component theories extend, and
  the operations of the Rust standard library on text that the source uses. A Rust
  \<open>&str\<close> or \<open>&[u8]\<close> is an Isabelle \<open>string\<close>, one character per byte of the UTF-8 text.
\<close>

named_theorems res_simps \<open>unfolding of the result monad\<close>
named_theorems text_simps \<open>evaluation of the text operations\<close>
named_theorems vault_simps \<open>operations of the vault on its tables\<close>

section \<open>Results\<close>

definition and_then :: "'e + 'a \<Rightarrow> ('a \<Rightarrow> 'e + 'b) \<Rightarrow> 'e + 'b" where
  "and_then r f = (case r of Inl e \<Rightarrow> Inl e | Inr v \<Rightarrow> f v)"

definition ok_or :: "'e \<Rightarrow> 'a option \<Rightarrow> 'e + 'a" where
  "ok_or e x = (case x of None \<Rightarrow> Inl e | Some v \<Rightarrow> Inr v)"

definition is_ok :: "'e + 'a \<Rightarrow> bool" where
  "is_ok r = (case r of Inl _ \<Rightarrow> False | Inr _ \<Rightarrow> True)"

definition require :: "'e \<Rightarrow> bool \<Rightarrow> 'e + unit" where
  "require e b = (if b then Inr () else Inl e)"

lemma and_then_simps [simp, res_simps]:
  "and_then (Inl e) f = Inl e" "and_then (Inr v) f = f v"
  by (simp_all add: and_then_def)

lemma and_then_eq_Inr:
  "and_then r f = Inr y \<longleftrightarrow> (\<exists>v. r = Inr v \<and> f v = Inr y)"
  by (cases r) simp_all

lemma and_then_eq_Inl:
  "and_then r f = Inl e \<longleftrightarrow> r = Inl e \<or> (\<exists>v. r = Inr v \<and> f v = Inl e)"
  by (cases r) simp_all

lemma ok_or_simps [simp, res_simps]:
  "ok_or e None = Inl e" "ok_or e (Some v) = Inr v"
  by (simp_all add: ok_or_def)

lemma ok_or_eq_Inr [simp]: "ok_or e x = Inr v \<longleftrightarrow> x = Some v"
  by (cases x) simp_all

lemma is_ok_simps [simp, res_simps]: "is_ok (Inr v)" "\<not> is_ok (Inl e)"
  by (simp_all add: is_ok_def)

lemma require_simps [simp, res_simps]:
  "require e True = Inr ()" "require e False = Inl e"
  by (simp_all add: require_def)

lemma require_eq_Inr [simp]: "require e b = Inr u \<longleftrightarrow> b"
  by (simp add: require_def)

lemma require_eq_Inl [simp]: "require e b = Inl e' \<longleftrightarrow> \<not> b \<and> e' = e"
  by (auto simp: require_def)

section \<open>Stored names\<close>

text \<open>
  The contract of every enum that the code stores as text: \<open>as_str\<close> and \<open>parse\<close> of the
  source. A component that stores a value relies on the first law when it reads the value
  back, and on the second one when it concludes from a stored text what the value was.
\<close>

locale stored_name =
  fixes to_text :: "'a \<Rightarrow> string"
    and parse :: "string \<Rightarrow> 'e + 'a"
  assumes parse_to_text [simp]: "parse (to_text v) = Inr v"
    and parse_sound: "parse s = Inr v \<Longrightarrow> s = to_text v"
begin

lemma parse_iff: "parse s = Inr v \<longleftrightarrow> s = to_text v"
  using parse_sound by auto

lemma to_text_inject [simp]: "to_text a = to_text b \<longleftrightarrow> a = b"
  by (metis parse_to_text sum.inject(2))

lemma parse_fails_iff: "(\<exists>e. parse s = Inl e) \<longleftrightarrow> s \<notin> range to_text"
  by (cases "parse s") (auto simp: parse_iff)

end

section \<open>Lists\<close>

text \<open>\<open>Iterator::find\<close>, \<open>find_map\<close> and \<open>position\<close>, and \<open>Vec::get\<close>.\<close>

fun find_map :: "('a \<Rightarrow> 'b option) \<Rightarrow> 'a list \<Rightarrow> 'b option" where
  "find_map f [] = None"
| "find_map f (x # xs) = (case f x of Some y \<Rightarrow> Some y | None \<Rightarrow> find_map f xs)"

fun position :: "('a \<Rightarrow> bool) \<Rightarrow> 'a list \<Rightarrow> nat option" where
  "position p [] = None"
| "position p (x # xs) = (if p x then Some 0 else map_option Suc (position p xs))"

definition get :: "'a list \<Rightarrow> nat \<Rightarrow> 'a option" where
  "get xs i = (if i < length xs then Some (xs ! i) else None)"

lemma get_simps [simp]:
  "get [] i = None" "get (x # xs) 0 = Some x" "get (x # xs) (Suc i) = get xs i"
  by (simp_all add: get_def)

lemma get_Some: "get xs i = Some x \<longleftrightarrow> i < length xs \<and> xs ! i = x"
  by (auto simp: get_def)

lemma get_None: "get xs i = None \<longleftrightarrow> length xs \<le> i"
  by (auto simp: get_def)

lemma find_map_None: "find_map f xs = None \<longleftrightarrow> (\<forall>x\<in>set xs. f x = None)"
  by (induction xs) (auto split: option.splits)

lemma find_map_Some:
  "find_map f xs = Some y \<Longrightarrow> \<exists>x\<in>set xs. f x = Some y"
  by (induction xs) (auto split: option.splits)

lemma position_None: "position p xs = None \<longleftrightarrow> (\<forall>x\<in>set xs. \<not> p x)"
  by (induction xs) auto

lemma position_Some:
  "position p xs = Some i \<longleftrightarrow> i < length xs \<and> p (xs ! i) \<and> (\<forall>j<i. \<not> p (xs ! j))"
proof (induction xs arbitrary: i)
  case (Cons x xs)
  show ?case
    by (cases i) (auto simp: Cons.IH nth_Cons less_Suc_eq_0_disj split: nat.splits)
qed simp

lemma find_Some_set: "List.find p xs = Some x \<Longrightarrow> x \<in> set xs \<and> p x"
  by (auto simp: find_Some_iff)

text \<open>\<open>Vec::sort\<close> and then \<open>dedup\<close>.\<close>

definition sort_dedup :: "'a::linorder list \<Rightarrow> 'a list" where
  "sort_dedup xs = remdups_adj (sort xs)"

lemma set_sort_dedup [simp]: "set (sort_dedup xs) = set xs"
  by (simp add: sort_dedup_def)

lemma sorted_sort_dedup [simp]: "sorted (sort_dedup xs)"
  by (simp add: sort_dedup_def)

lemma distinct_remdups_adj_sorted: "sorted xs \<Longrightarrow> distinct (remdups_adj xs)"
  by (induction xs rule: remdups_adj.induct) auto

lemma distinct_sort_dedup [simp]: "distinct (sort_dedup xs)"
  by (simp add: sort_dedup_def distinct_remdups_adj_sorted)

section \<open>Tables with a unique key\<close>

text \<open>
  The contract of \<open>INSERT .. ON CONFLICT .. DO UPDATE\<close> on a table with a unique key: the
  row of the key becomes what the statement computes from the row that was there, every
  other row stays.
\<close>

locale upsert_table =
  fixes lookup :: "'t \<Rightarrow> 'k \<Rightarrow> 'r option"
    and upsert :: "'t \<Rightarrow> 'k \<Rightarrow> ('r option \<Rightarrow> 'r) \<Rightarrow> 't"
    and keeps :: "'k \<Rightarrow> ('r option \<Rightarrow> 'r) \<Rightarrow> bool"
  assumes lookup_upsert:
    "keeps k f \<Longrightarrow> lookup (upsert t k f) k' = (if k' = k then Some (f (lookup t k)) else lookup t k')"
begin

lemma lookup_upsert_same: "keeps k f \<Longrightarrow> lookup (upsert t k f) k = Some (f (lookup t k))"
  by (simp add: lookup_upsert)

lemma lookup_upsert_other: "keeps k f \<Longrightarrow> k' \<noteq> k \<Longrightarrow> lookup (upsert t k f) k' = lookup t k'"
  by (simp add: lookup_upsert)

lemma upsert_twice:
  "keeps k f \<Longrightarrow> keeps k g \<Longrightarrow> keeps k (\<lambda>r. g (Some (f r))) \<Longrightarrow>
     lookup (upsert (upsert t k f) k g) = lookup (upsert t k (\<lambda>r. g (Some (f r))))"
  by (auto simp: lookup_upsert)

lemma upsert_commute:
  "keeps k f \<Longrightarrow> keeps l g \<Longrightarrow> k \<noteq> l \<Longrightarrow>
     lookup (upsert (upsert t k f) l g) = lookup (upsert (upsert t l g) k f)"
  by (auto simp: lookup_upsert)

end

text \<open>A table read in row order.\<close>

definition find_row :: "('r \<Rightarrow> 'k) \<Rightarrow> 'r list \<Rightarrow> 'k \<Rightarrow> 'r option" where
  "find_row key rows k = List.find (\<lambda>r. key r = k) rows"

fun upsert_row :: "('r \<Rightarrow> 'k) \<Rightarrow> 'r list \<Rightarrow> 'k \<Rightarrow> ('r option \<Rightarrow> 'r) \<Rightarrow> 'r list" where
  "upsert_row key [] k f = [f None]"
| "upsert_row key (r # rs) k f =
     (if key r = k then f (Some r) # rs else r # upsert_row key rs k f)"

definition keeps_key :: "('r \<Rightarrow> 'k) \<Rightarrow> 'k \<Rightarrow> ('r option \<Rightarrow> 'r) \<Rightarrow> bool" where
  "keeps_key key k f \<longleftrightarrow> key (f None) = k \<and> (\<forall>r. key r = k \<longrightarrow> key (f (Some r)) = k)"

interpretation rows: upsert_table "find_row key" "upsert_row key" "keeps_key key"
  for key :: "'r \<Rightarrow> 'k"
proof
  fix k k' :: 'k and f :: "'r option \<Rightarrow> 'r" and t :: "'r list"
  assume "keeps_key key k f"
  then show "find_row key (upsert_row key t k f) k'
      = (if k' = k then Some (f (find_row key t k)) else find_row key t k')"
    by (induction t) (auto simp: find_row_def keeps_key_def)
qed

lemma find_row_Some: "find_row key rows k = Some r \<Longrightarrow> r \<in> set rows \<and> key r = k"
  by (auto simp: find_row_def find_Some_iff)

lemma set_upsert_row:
  "set (upsert_row key rows k f) \<subseteq> insert (f (find_row key rows k)) (set rows)"
  by (induction rows) (auto simp: find_row_def)

lemma map_key_upsert_row:
  "keeps_key key k f \<Longrightarrow> map key (upsert_row key rows k f) =
     (if find_row key rows k = None then map key rows @ [k] else map key rows)"
  by (induction rows) (auto simp: keeps_key_def find_row_def)

lemma map_upsert_row_other:
  "(\<And>r. g (f (Some r)) = g r) \<Longrightarrow> map g (upsert_row key rows k f) =
     (if find_row key rows k = None then map g rows @ [g (f None)] else map g rows)"
  by (induction rows) (auto simp: find_row_def)

lemma find_row_None: "find_row key rows k = None \<longleftrightarrow> k \<notin> set (map key rows)"
  by (auto simp: find_row_def find_None_iff)

section \<open>Text\<close>

definition byte :: "char \<Rightarrow> nat" where
  "byte c = of_char c"

definition quote :: "string \<Rightarrow> string" where
  "quote s = CHR 0x22 # s @ [CHR 0x22]"

definition starts_with :: "'a list \<Rightarrow> 'a list \<Rightarrow> bool" where
  "starts_with s p \<longleftrightarrow> take (length p) s = p"

definition ends_with :: "'a list \<Rightarrow> 'a list \<Rightarrow> bool" where
  "ends_with s p \<longleftrightarrow> length p \<le> length s \<and> drop (length s - length p) s = p"

definition strip_prefix :: "'a list \<Rightarrow> 'a list \<Rightarrow> 'a list option" where
  "strip_prefix s p = (if starts_with s p then Some (drop (length p) s) else None)"

definition strip_suffix :: "'a list \<Rightarrow> 'a list \<Rightarrow> 'a list option" where
  "strip_suffix s p = (if ends_with s p then Some (take (length s - length p) s) else None)"

text \<open>\<open>str::split(c)\<close>: always at least one part.\<close>

fun split_on :: "'a \<Rightarrow> 'a list \<Rightarrow> 'a list list" where
  "split_on c [] = [[]]"
| "split_on c (x # xs) =
     (if x = c then [] # split_on c xs
      else (case split_on c xs of [] \<Rightarrow> [[x]] | p # ps \<Rightarrow> (x # p) # ps))"

text \<open>\<open>str::split_once(c)\<close>, \<open>str::find\<close> of a text, \<open>str::contains\<close> of a text.\<close>

fun split_once :: "'a \<Rightarrow> 'a list \<Rightarrow> ('a list \<times> 'a list) option" where
  "split_once c [] = None"
| "split_once c (x # xs) =
     (if x = c then Some ([], xs) else map_option (\<lambda>(a, b). (x # a, b)) (split_once c xs))"

fun find_sub :: "'a list \<Rightarrow> 'a list \<Rightarrow> nat option" where
  "find_sub [] p = (if p = [] then Some 0 else None)"
| "find_sub (x # xs) p =
     (if starts_with (x # xs) p then Some 0 else map_option Suc (find_sub xs p))"

definition contains_sub :: "'a list \<Rightarrow> 'a list \<Rightarrow> bool" where
  "contains_sub s p \<longleftrightarrow> find_sub s p \<noteq> None"

fun join_with :: "'a list \<Rightarrow> 'a list list \<Rightarrow> 'a list" where
  "join_with sep [] = []"
| "join_with sep [x] = x"
| "join_with sep (x # y # ys) = x @ sep @ join_with sep (y # ys)"

lemma starts_with_append [simp]: "starts_with (p @ s) p"
  by (simp add: starts_with_def)

lemma starts_with_Nil [simp]: "starts_with s []"
  by (simp add: starts_with_def)

lemma starts_with_iff: "starts_with s p \<longleftrightarrow> (\<exists>r. s = p @ r)"
  by (metis append_take_drop_id starts_with_append starts_with_def)

lemma ends_with_append [simp]: "ends_with (s @ p) p"
  by (simp add: ends_with_def)

lemma ends_with_iff: "ends_with s p \<longleftrightarrow> (\<exists>r. s = r @ p)"
  by (metis append_take_drop_id ends_with_append ends_with_def)

lemma strip_prefix_Some: "strip_prefix s p = Some r \<longleftrightarrow> s = p @ r"
  by (auto simp: strip_prefix_def starts_with_iff)

lemma strip_suffix_Some: "strip_suffix s p = Some r \<longleftrightarrow> s = r @ p"
  by (auto simp: strip_suffix_def ends_with_iff)

lemma split_once_Some:
  "split_once c s = Some (a, b) \<longleftrightarrow> s = a @ c # b \<and> c \<notin> set a"
proof (induction s arbitrary: a b)
  case (Cons x s)
  then show ?case by (cases a) auto
qed simp

lemma split_once_None: "split_once c s = None \<longleftrightarrow> c \<notin> set s"
  by (induction s) auto

lemma split_on_ne [simp]: "split_on c s \<noteq> []"
  by (induction s) (auto split: list.splits)

lemma find_sub_Some:
  "find_sub s p = Some i \<Longrightarrow> i \<le> length s \<and> starts_with (drop i s) p"
proof (induction s arbitrary: i)
  case (Cons x s)
  then show ?case by (cases i) (auto split: if_splits)
qed (auto split: if_splits)

text \<open>A text that is a part of another one.\<close>

lemma contains_Nil: "contains_sub [] v \<longleftrightarrow> v = []"
  by (simp add: contains_sub_def)

lemma contains_Cons:
  "contains_sub (c # cs) v \<longleftrightarrow> starts_with (c # cs) v \<or> contains_sub cs v"
  by (simp add: contains_sub_def)

lemma starts_with_Cons: "starts_with (c # cs) v \<longleftrightarrow> v = [] \<or> (\<exists>v'. v = c # v' \<and> starts_with cs v')"
  by (cases v) (auto simp: starts_with_iff)

lemma contains_empty [simp]: "contains_sub s []"
  by (cases s) (simp_all add: contains_Nil contains_Cons)

lemma starts_with_contains: "starts_with s v \<Longrightarrow> contains_sub s v"
  by (cases s) (simp_all add: contains_Cons, simp add: starts_with_def contains_Nil)

lemma contains_append_free:
  assumes "c \<notin> set v" and "contains_sub (a @ c # b) v"
  shows "contains_sub a v \<or> contains_sub b v"
  using assms(2)
proof (induction a)
  case Nil
  then show ?case
    using assms(1) by (auto simp: contains_Cons starts_with_Cons)
next
  case (Cons x xs)
  have split: "starts_with (ys @ c # b) w \<Longrightarrow> c \<notin> set w \<Longrightarrow> starts_with ys w" for ys w
    by (induction ys arbitrary: w) (auto simp: starts_with_Cons)
  show ?case
    using Cons split [of "x # xs" v] assms(1) by (auto simp: contains_Cons)
qed

lemma contains_append_left: "contains_sub a v \<Longrightarrow> contains_sub (a @ b) v"
proof (induction a)
  case Nil
  then show ?case by (simp add: contains_Nil)
next
  case (Cons x xs)
  have "starts_with ys w \<Longrightarrow> starts_with (ys @ b) w" for ys w
    by (auto simp: starts_with_iff)
  then show ?case using Cons by (fastforce simp: contains_Cons)
qed

lemma contains_append_right: "contains_sub b v \<Longrightarrow> contains_sub (a @ b) v"
  by (induction a) (auto simp: contains_Cons)

lemma contains_take: "contains_sub (take n s) v \<Longrightarrow> contains_sub s v"
  using contains_append_left [of "take n s" v "drop n s"] by simp

lemma contains_drop: "contains_sub (drop n s) v \<Longrightarrow> contains_sub s v"
  using contains_append_right [of "drop n s" v "take n s"] by simp

lemma contains_sub_iff: "contains_sub s v \<longleftrightarrow> (\<exists>a b. s = a @ v @ b)"
proof
  show "contains_sub s v \<Longrightarrow> \<exists>a b. s = a @ v @ b"
    by (auto simp: contains_sub_def dest!: find_sub_Some simp: starts_with_iff)
      (metis append_take_drop_id)
  show "\<exists>a b. s = a @ v @ b \<Longrightarrow> contains_sub s v"
    by (auto intro: contains_append_right [OF starts_with_contains])
qed

lemma position_cong: "(\<And>x. x \<in> set xs \<Longrightarrow> p x = q x) \<Longrightarrow> position p xs = position q xs"
  by (induction xs) auto

lemma position_map: "position p (map f xs) = position (\<lambda>x. p (f x)) xs"
  by (induction xs) auto

subsection \<open>Characters of UTF-8 text\<close>

definition char_len :: "char \<Rightarrow> nat" where
  "char_len c =
     (if byte c < 0xC0 then 1 else if byte c < 0xE0 then 2
      else if byte c < 0xF0 then 3 else 4)"

function chars :: "string \<Rightarrow> string list" where
  "chars [] = []"
| "chars (c # cs) = take (char_len c) (c # cs) # chars (drop (char_len c) (c # cs))"
  by pat_completeness auto
termination
  by (relation "measure length") (auto simp: char_len_def)

definition is_whitespace :: "string \<Rightarrow> bool" where
  "is_whitespace c \<longleftrightarrow> (case map byte c of
       [a] \<Rightarrow> (9 \<le> a \<and> a \<le> 13) \<or> a = 32
     | [a, b] \<Rightarrow> a = 0xC2 \<and> (b = 0x85 \<or> b = 0xA0)
     | [a, b, d] \<Rightarrow> (a = 0xE1 \<and> b = 0x9A \<and> d = 0x80)
         \<or> (a = 0xE2 \<and> b = 0x80 \<and> ((0x80 \<le> d \<and> d \<le> 0x8A) \<or> d = 0xA8 \<or> d = 0xA9 \<or> d = 0xAF))
         \<or> (a = 0xE2 \<and> b = 0x81 \<and> d = 0x9F)
         \<or> (a = 0xE3 \<and> b = 0x80 \<and> d = 0x80)
     | _ \<Rightarrow> False)"

definition is_control :: "string \<Rightarrow> bool" where
  "is_control c \<longleftrightarrow> (case map byte c of
       [a] \<Rightarrow> a < 32 \<or> a = 127
     | [a, b] \<Rightarrow> a = 0xC2 \<and> 0x80 \<le> b \<and> b < 0xA0
     | _ \<Rightarrow> False)"

definition trim_start :: "string \<Rightarrow> string" where
  "trim_start s = concat (dropWhile is_whitespace (chars s))"

definition trim_end :: "string \<Rightarrow> string" where
  "trim_end s = concat (rev (dropWhile is_whitespace (rev (chars s))))"

definition trim :: "string \<Rightarrow> string" where
  "trim s = concat (rev (dropWhile is_whitespace (rev (dropWhile is_whitespace (chars s)))))"

definition trim_end_matches :: "char \<Rightarrow> string \<Rightarrow> string" where
  "trim_end_matches c s = rev (dropWhile ((=) c) (rev s))"

lemma concat_chars [simp]: "concat (chars s) = s"
  by (induction s rule: chars.induct) (auto simp: append_take_drop_id)

lemma length_concat_dropWhile_le:
  "length (concat (dropWhile p xs)) \<le> length (concat xs)"
  by (induction xs) auto

lemma length_trim_le: "length (trim s) \<le> length s"
proof -
  have "length (concat (rev (dropWhile p (rev ys)))) \<le> length (concat ys)"
    for p and ys :: "string list"
  proof -
    have "length (concat (rev zs)) = length (concat zs)" for zs :: "string list"
      by (induction zs) auto
    then show ?thesis
      by (metis length_concat_dropWhile_le rev_rev_ident)
  qed
  then show ?thesis
    by (metis concat_chars length_concat_dropWhile_le order_trans trim_def)
qed

subsection \<open>Trimmed text\<close>

text \<open>Pieces of UTF-8 text: only the last one may be cut.\<close>

fun char_pieces :: "string list \<Rightarrow> bool" where
  "char_pieces [] = True"
| "char_pieces (p # ps) = (p \<noteq> [] \<and> length p \<le> char_len (hd p)
     \<and> (ps \<noteq> [] \<longrightarrow> length p = char_len (hd p)) \<and> char_pieces ps)"

lemma char_len_pos [simp]: "0 < char_len c"
  by (simp add: char_len_def)

lemma pieces_chars: "char_pieces (chars s)"
proof (induction s rule: chars.induct)
  case (2 c cs)
  obtain k where k: "char_len c = Suc k" using char_len_pos [of c] by (cases "char_len c") auto
  have "chars (drop k cs) \<noteq> [] \<Longrightarrow> k < length cs" by (metis chars.simps(1) drop_all not_le)
  then show ?case using 2 by (auto simp: k)
qed simp

lemma chars_concat: "char_pieces ps \<Longrightarrow> chars (concat ps) = ps"
proof (induction ps)
  case (Cons p ps)
  then obtain c cs where p: "p = c # cs" by (cases p) auto
  show ?case
  proof (cases "ps = []")
    case True
    then show ?thesis using Cons.prems by (simp add: p)
  next
    case False
    then have "char_len c = length p" using Cons.prems by (simp add: p)
    then have "take (char_len c) (c # cs @ concat ps) = p" "drop (char_len c) (c # cs @ concat ps) = concat ps"
      by (simp_all add: p)
    then show ?thesis using Cons by (simp add: p)
  qed
qed simp

lemma pieces_append: "char_pieces (xs @ ys) \<Longrightarrow> char_pieces xs \<and> char_pieces ys"
  by (induction xs) auto

definition strip :: "('a \<Rightarrow> bool) \<Rightarrow> 'a list \<Rightarrow> 'a list" where
  "strip p xs = rev (dropWhile p (rev (dropWhile p xs)))"

lemma strip_split: "\<exists>as bs. xs = as @ strip p xs @ bs"
proof -
  have "xs = takeWhile p xs @ dropWhile p xs" by simp
  moreover have "dropWhile p xs = strip p xs @ rev (takeWhile p (rev (dropWhile p xs)))"
    unfolding strip_def by (metis rev_append rev_rev_ident takeWhile_dropWhile_id)
  ultimately show ?thesis by metis
qed

lemma hd_strip: "strip p xs \<noteq> [] \<Longrightarrow> \<not> p (hd (strip p xs)) \<and> \<not> p (last (strip p xs))"
proof -
  assume n: "strip p xs \<noteq> []"
  obtain r where "dropWhile p xs = strip p xs @ r"
    unfolding strip_def by (metis rev_append rev_rev_ident takeWhile_dropWhile_id)
  then have "hd (dropWhile p xs) = hd (strip p xs)" "dropWhile p xs \<noteq> []" using n by auto
  then have "\<not> p (hd (strip p xs))" using hd_dropWhile by metis
  moreover have "\<not> p (last (strip p xs))"
    using n hd_dropWhile [of p "rev (dropWhile p xs)"] by (simp add: strip_def last_rev)
  ultimately show ?thesis ..
qed

lemma strip_id: "xs = [] \<or> \<not> p (hd xs) \<and> \<not> p (last xs) \<Longrightarrow> strip p xs = xs"
proof (cases "xs = []")
  case False
  assume "xs = [] \<or> \<not> p (hd xs) \<and> \<not> p (last xs)"
  then have "dropWhile p xs = xs" "dropWhile p (rev xs) = rev xs"
    using False by (simp_all add: dropWhile_eq_self_iff hd_rev)
  then show ?thesis by (simp add: strip_def)
qed (simp add: strip_def)

lemma strip_strip [simp]: "strip p (strip p xs) = strip p xs"
  using hd_strip by (intro strip_id) blast

lemma trim_strip: "trim s = concat (strip is_whitespace (chars s))"
  by (simp add: trim_def strip_def)

lemma trim_trim [simp]: "trim (trim s) = trim s"
proof -
  obtain as bs where "chars s = as @ strip is_whitespace (chars s) @ bs" using strip_split by blast
  then have "char_pieces (strip is_whitespace (chars s))" using pieces_chars [of s] pieces_append by metis
  then show ?thesis by (simp add: trim_strip chars_concat)
qed

subsection \<open>ASCII classes\<close>

definition is_ascii_upper :: "char \<Rightarrow> bool" where
  "is_ascii_upper c \<longleftrightarrow> 65 \<le> byte c \<and> byte c \<le> 90"

definition is_ascii_lower :: "char \<Rightarrow> bool" where
  "is_ascii_lower c \<longleftrightarrow> 97 \<le> byte c \<and> byte c \<le> 122"

definition is_ascii_digit :: "char \<Rightarrow> bool" where
  "is_ascii_digit c \<longleftrightarrow> 48 \<le> byte c \<and> byte c \<le> 57"

definition is_ascii_alphanumeric :: "char \<Rightarrow> bool" where
  "is_ascii_alphanumeric c \<longleftrightarrow> is_ascii_upper c \<or> is_ascii_lower c \<or> is_ascii_digit c"

definition is_ascii_hexdigit :: "char \<Rightarrow> bool" where
  "is_ascii_hexdigit c \<longleftrightarrow>
     is_ascii_digit c \<or> (65 \<le> byte c \<and> byte c \<le> 70) \<or> (97 \<le> byte c \<and> byte c \<le> 102)"

definition ascii_lower :: "char \<Rightarrow> char" where
  "ascii_lower c = (if is_ascii_upper c then char_of (byte c + 32) else c)"

definition to_ascii_lowercase :: "string \<Rightarrow> string" where
  "to_ascii_lowercase = map ascii_lower"

definition eq_ignore_ascii_case :: "string \<Rightarrow> string \<Rightarrow> bool" where
  "eq_ignore_ascii_case a b \<longleftrightarrow> to_ascii_lowercase a = to_ascii_lowercase b"

lemma byte_less [simp]: "byte c < 256"
  by (simp add: byte_def)

lemma byte_char_of [simp]: "byte (char_of n) = n mod 256"
  by (simp add: byte_def)

lemma byte_inject [simp]: "byte a = byte b \<longleftrightarrow> a = b"
  by (simp add: byte_def)

lemma ascii_lower_idem [simp]: "ascii_lower (ascii_lower c) = ascii_lower c"
  by (auto simp: ascii_lower_def is_ascii_upper_def)

lemma to_ascii_lowercase_idem [simp]:
  "to_ascii_lowercase (to_ascii_lowercase s) = to_ascii_lowercase s"
  by (simp add: to_ascii_lowercase_def comp_def)

lemma length_to_ascii_lowercase [simp]: "length (to_ascii_lowercase s) = length s"
  by (simp add: to_ascii_lowercase_def)

subsection \<open>Numbers as text and code points\<close>

definition digit :: "nat \<Rightarrow> char" where
  "digit n = char_of (48 + n mod 10)"

fun show_nat :: "nat \<Rightarrow> string" where
  "show_nat n = (if n < 10 then [digit n] else show_nat (n div 10) @ [digit n])"

declare show_nat.simps [simp del]

definition show_int :: "int \<Rightarrow> string" where
  "show_int i = (if i < 0 then ''-'' @ show_nat (nat (- i)) else show_nat (nat i))"

definition code_point :: "string \<Rightarrow> nat" where
  "code_point c = (case map byte c of
       [a] \<Rightarrow> a
     | [a, b] \<Rightarrow> (a - 0xC0) * 64 + (b - 0x80)
     | [a, b, d] \<Rightarrow> (a - 0xE0) * 4096 + (b - 0x80) * 64 + (d - 0x80)
     | [a, b, d, e] \<Rightarrow> (a - 0xF0) * 262144 + (b - 0x80) * 4096 + (d - 0x80) * 64 + (e - 0x80)
     | _ \<Rightarrow> 0)"

lemma show_nat_ne [simp]: "show_nat n \<noteq> []"
  by (subst show_nat.simps) simp

text \<open>
  \<open>to_lowercase\<close> for comparison with ASCII texts: outside ASCII the Kelvin sign is the only
  letter whose lowercase form is an ASCII text, and the capital I with a dot the only one whose
  form has an ASCII letter in it; the other letters stay as they are.
\<close>

definition lower_char :: "string \<Rightarrow> string" where
  "lower_char c =
     (if map byte c = [0xE2, 0x84, 0xAA] then ''k''
      else if map byte c = [0xC4, 0xB0] then [CHR ''i'', CHR 0xCC, CHR 0x87]
      else map ascii_lower c)"

definition to_lowercase :: "string \<Rightarrow> string" where
  "to_lowercase s = concat (map lower_char (chars s))"

text \<open>\<open>split_whitespace\<close>.\<close>

fun words_of :: "string \<Rightarrow> string list \<Rightarrow> string list" where
  "words_of w [] = (if w = [] then [] else [w])"
| "words_of w (c # cs) =
     (if is_whitespace c then (if w = [] then words_of [] cs else w # words_of [] cs)
      else words_of (w @ c) cs)"

definition split_whitespace :: "string \<Rightarrow> string list" where
  "split_whitespace s = words_of [] (chars s)"

text \<open>\<open>std::str::from_utf8\<close>: the well-formed byte sequences of Unicode, and \<open>get(i..j)\<close>.\<close>

definition tail_byte :: "char \<Rightarrow> bool" where
  "tail_byte c \<longleftrightarrow> 0x80 \<le> byte c \<and> byte c < 0xC0"

definition utf8_char :: "char list \<Rightarrow> bool" where
  "utf8_char s \<longleftrightarrow>
     (case map byte s of
        [a] \<Rightarrow> a < 0x80
      | [a, b] \<Rightarrow> 0xC2 \<le> a \<and> a < 0xE0
      | [a, b, d] \<Rightarrow> 0xE0 \<le> a \<and> a < 0xF0 \<and> (a = 0xE0 \<longrightarrow> 0xA0 \<le> b) \<and> (a = 0xED \<longrightarrow> b < 0xA0)
      | [a, b, d, e] \<Rightarrow> 0xF0 \<le> a \<and> a < 0xF5 \<and> (a = 0xF0 \<longrightarrow> 0x90 \<le> b) \<and> (a = 0xF4 \<longrightarrow> b < 0x90)
      | _ \<Rightarrow> False)
     \<and> list_all tail_byte (tl s)"

definition valid_utf8 :: "string \<Rightarrow> bool" where
  "valid_utf8 s \<longleftrightarrow> list_all utf8_char (chars s)"

definition get_range :: "string \<Rightarrow> nat \<Rightarrow> nat \<Rightarrow> string option" where
  "get_range s i j =
     (if i \<le> j \<and> j \<le> length s \<and> (i = length s \<or> \<not> tail_byte (s ! i))
         \<and> (j = length s \<or> \<not> tail_byte (s ! j))
      then Some (take (j - i) (drop i s)) else None)"

lemma utf8_char_piece: "utf8_char c \<Longrightarrow> c \<noteq> [] \<and> length c = char_len (hd c)"
  by (cases c) (auto simp: utf8_char_def char_len_def split: list.splits)

lemma pieces_utf8: "list_all utf8_char cs \<Longrightarrow> char_pieces cs"
  by (induction cs) (auto dest: utf8_char_piece)

lemma chars_append: "valid_utf8 a \<Longrightarrow> valid_utf8 b \<Longrightarrow> chars (a @ b) = chars a @ chars b"
  using chars_concat [of "chars a @ chars b"] pieces_utf8 [of "chars a @ chars b"]
  by (simp add: valid_utf8_def)

lemma valid_utf8_append: "valid_utf8 a \<Longrightarrow> valid_utf8 b \<Longrightarrow> valid_utf8 (a @ b)"
  using chars_append [of a b] by (simp add: valid_utf8_def)

lemma valid_utf8_ascii: "list_all (\<lambda>c. byte c < 0x80) s \<Longrightarrow> valid_utf8 s"
  by (induction s) (auto simp: valid_utf8_def utf8_char_def char_len_def)

text \<open>Digits of a number in a text: \<open>parse\<close> and \<open>from_str_radix\<close> accept one leading plus.\<close>

definition hex_digit :: "char \<Rightarrow> nat option" where
  "hex_digit c =
     (if is_ascii_digit c then Some (byte c - 48)
      else if 97 \<le> byte c \<and> byte c \<le> 102 then Some (byte c - 87)
      else if 65 \<le> byte c \<and> byte c \<le> 70 then Some (byte c - 55)
      else None)"

fun digits_value :: "nat \<Rightarrow> nat \<Rightarrow> string \<Rightarrow> nat option" where
  "digits_value base acc [] = Some acc"
| "digits_value base acc (c # cs) = (case hex_digit c of
       None \<Rightarrow> None
     | Some d \<Rightarrow> if d < base then digits_value base (acc * base + d) cs else None)"

definition parse_number :: "nat \<Rightarrow> nat \<Rightarrow> string \<Rightarrow> nat option" where
  "parse_number base limit s =
     (let ds = (case s of c # cs \<Rightarrow> if c = CHR ''+'' \<and> cs \<noteq> [] then cs else s | [] \<Rightarrow> [])
      in if ds = [] then None
         else Option.bind (digits_value base 0 ds) (\<lambda>n. if n \<le> limit then Some n else None))"

end
