(* ===== verification/Vault.thy ===== *)
theory Vault
  imports Prelude
begin

text \<open>
  The part of the unlocked vault database that decides what an agent may use: the rows of
  the tables \<open>item\<close>, \<open>agent\<close>, \<open>declaration\<close>, \<open>declaration_source\<close>, \<open>item_policy\<close>,
  \<open>agent_exception\<close>, \<open>exec_grant\<close>, \<open>grant_rule\<close>, \<open>access_request\<close> (agent, item and state),
  \<open>remembered_pattern\<close> (agent and key), \<open>owner_answer\<close> and \<open>item_event\<close>
  (src/src/vault/agents.rs, schema18.rs, history.rs), the checks that every operation of
  the vault starts with, and the change history. A column keeps the type that SQLite
  stores: names of enum values are texts, so reading a row can fail with \<open>Storage\<close>.
  A table with a primary key is a map, a table read in row order is a list, oldest row
  first. Failures of SQLite itself (a full disk, a busy file) are not modelled: a
  transaction that passes its checks commits.
\<close>

section \<open>Errors and checked numbers\<close>

datatype verr = Locked | AlreadyExists | NotFound | Conflict | InvalidInput
  | WrongKeyOrCorrupt | UnsupportedSchema | Busy | Io | Storage | Expired | Damaged
  | OtherVault

text \<open>A \<open>u64\<close> of the interface as the \<open>i64\<close> key of a row, and back.\<close>

definition i64_max :: nat where
  "i64_max = 9223372036854775807"

definition to_sql_id :: "nat \<Rightarrow> verr + int" where
  "to_sql_id i =
     (if i = 0 then Inl InvalidInput
      else if i \<le> i64_max then Inr (int i) else Inl InvalidInput)"

definition to_public_id :: "int \<Rightarrow> verr + nat" where
  "to_public_id i = (if i < 1 then Inl Storage else Inr (nat i))"

definition to_sql_time :: "nat \<Rightarrow> verr + int" where
  "to_sql_time t = (if t \<le> i64_max then Inr (int t) else Inl Storage)"

definition from_sql_time :: "int \<Rightarrow> verr + nat" where
  "from_sql_time t = (if t < 0 then Inl Storage else Inr (nat t))"

section \<open>Tables\<close>

record agent_row =
  see_all :: int
  revoked_at :: "int option"
  a_note :: string

record decl_row =
  r_project :: string
  r_environment :: string
  r_risk :: string
  r_scope :: string
  r_reversibility :: string
  r_provider :: string

record exception_row =
  x_agent :: int
  x_item :: int
  x_kind :: string
  x_created :: int

record answer_row =
  w_id :: int
  w_item :: int
  w_key :: string
  w_label :: string
  w_action :: string
  w_scope :: string
  w_created :: int
  w_on :: string
  w_hosts :: "string list option"
  w_codes :: bool
  w_values :: bool

record event_row =
  e_item :: int
  e_at :: int
  e_kind :: string
  e_detail :: string

record vault =
  unlocked :: bool
  v_items :: "int list"
  v_agents :: "int \<Rightarrow> agent_row option"
  v_declaration :: "int \<Rightarrow> decl_row option"
  v_sources :: "int \<Rightarrow> (string \<times> string \<times> string \<times> string) option"
  v_policy :: "int \<Rightarrow> int option"
  v_exceptions :: "exception_row list"
  v_exec_grants :: "(int \<times> int) list"
  v_grant_rules :: "(int \<times> int) list"
  v_requests :: "(int \<times> int \<times> string) list"
  v_patterns :: "(int \<times> string) list"
  v_answers :: "answer_row list"
  v_next_answer :: int
  v_events :: "event_row list"

definition empty_vault :: "int list \<Rightarrow> vault" where
  "empty_vault is = \<lparr>unlocked = True, v_items = is, v_agents = (\<lambda>_. None),
     v_declaration = (\<lambda>_. None), v_sources = (\<lambda>_. None), v_policy = (\<lambda>_. None),
     v_exceptions = [], v_exec_grants = [], v_grant_rules = [], v_requests = [],
     v_patterns = [], v_answers = [],
     v_next_answer = 1, v_events = []\<rparr>"

text \<open>\<open>conn_ref\<close> and \<open>conn_mut\<close>: a locked vault has no connection.\<close>

definition conn :: "vault \<Rightarrow> verr + unit" where
  "conn v = require Locked (unlocked v)"

definition require_item :: "vault \<Rightarrow> int \<Rightarrow> verr + unit" where
  "require_item v i = require NotFound (i \<in> set (v_items v))"

definition require_active_agent :: "vault \<Rightarrow> int \<Rightarrow> verr + unit" where
  "require_active_agent v a = (case v_agents v a of
       None \<Rightarrow> Inl NotFound
     | Some r \<Rightarrow> (case revoked_at r of None \<Rightarrow> Inr () | Some _ \<Rightarrow> Inl InvalidInput))"

definition checked_text :: "string \<Rightarrow> nat \<Rightarrow> verr + string" where
  "checked_text t m =
     (if t = [] \<or> m < length t \<or> list_ex is_control (chars t) then Inl InvalidInput
      else Inr t)"

section \<open>The change history\<close>

definition MAX_ITEM_EVENTS :: nat where
  "MAX_ITEM_EVENTS = 200"

definition MAX_EVENT_DETAIL_BYTES :: nat where
  "MAX_EVENT_DETAIL_BYTES = 300"

definition is_char_boundary :: "string \<Rightarrow> nat \<Rightarrow> bool" where
  "is_char_boundary s i \<longleftrightarrow>
     i = 0 \<or> i = length s \<or> (i < length s \<and> \<not> (0x80 \<le> byte (s ! i) \<and> byte (s ! i) < 0xC0))"

fun floor_boundary :: "string \<Rightarrow> nat \<Rightarrow> nat" where
  "floor_boundary s 0 = 0"
| "floor_boundary s (Suc n) =
     (if is_char_boundary s (Suc n) then Suc n else floor_boundary s n)"

definition cut :: "string \<Rightarrow> string" where
  "cut t = (if length t \<le> MAX_EVENT_DETAIL_BYTES then t
            else take (floor_boundary t MAX_EVENT_DETAIL_BYTES) t)"

fun drop_matching :: "nat \<Rightarrow> ('a \<Rightarrow> bool) \<Rightarrow> 'a list \<Rightarrow> 'a list" where
  "drop_matching n p [] = []"
| "drop_matching 0 p xs = xs"
| "drop_matching (Suc n) p (x # xs) =
     (if p x then drop_matching n p xs else x # drop_matching (Suc n) p xs)"

text \<open>
  The rows of an item that the limit counts. \<open>LIKE\<close> of SQLite ignores the case of ASCII
  letters.
\<close>

definition prunable :: "int \<Rightarrow> event_row \<Rightarrow> bool" where
  "prunable item e \<longleftrightarrow> e_item e = item
     \<and> \<not> (e_kind e = ''created''
          \<and> starts_with (to_ascii_lowercase (e_detail e)) ''apassy:conflict-origin:v1:'')"

definition record_event :: "int \<Rightarrow> string \<Rightarrow> string \<Rightarrow> int \<Rightarrow> event_row list \<Rightarrow> event_row list" where
  "record_event item kind detail now evs =
     (let evs' = evs @ [\<lparr>e_item = item, e_at = now, e_kind = kind, e_detail = cut detail\<rparr>]
      in drop_matching (length (filter (prunable item) evs') - MAX_ITEM_EVENTS)
           (prunable item) evs')"

section \<open>Lemmas\<close>

lemma to_sql_id_Inr: "to_sql_id i = Inr k \<longleftrightarrow> 0 < i \<and> i \<le> i64_max \<and> k = int i"
  by (auto simp: to_sql_id_def)

lemma to_sql_id_Inl: "to_sql_id i = Inl e \<longleftrightarrow> e = InvalidInput \<and> (i = 0 \<or> i64_max < i)"
  by (auto simp: to_sql_id_def)

lemma to_public_id_to_sql_id: "to_sql_id i = Inr k \<Longrightarrow> to_public_id k = Inr i"
  by (auto simp: to_sql_id_Inr to_public_id_def)

lemma conn_Inr [simp]: "conn v = Inr u \<longleftrightarrow> unlocked v"
  by (simp add: conn_def)

lemma conn_Inl [simp]: "conn v = Inl e \<longleftrightarrow> \<not> unlocked v \<and> e = Locked"
  by (simp add: conn_def)

lemma require_item_Inr [simp]: "require_item v i = Inr u \<longleftrightarrow> i \<in> set (v_items v)"
  by (simp add: require_item_def)

lemma require_active_agent_Inr:
  "require_active_agent v a = Inr u \<longleftrightarrow>
     (\<exists>r. v_agents v a = Some r \<and> revoked_at r = None)"
  by (auto simp: require_active_agent_def split: option.splits)

lemma length_filter_drop_matching:
  "length (filter p (drop_matching n p xs)) = length (filter p xs) - n"
  by (induction n p xs rule: drop_matching.induct) auto

lemma filter_drop_matching_other:
  "(\<And>x. p x \<Longrightarrow> \<not> q x) \<Longrightarrow> filter q (drop_matching n p xs) = filter q xs"
  by (induction n p xs rule: drop_matching.induct) auto

lemma set_drop_matching: "set (drop_matching n p xs) \<subseteq> set xs"
  by (induction n p xs rule: drop_matching.induct) auto

lemma drop_matching_0 [simp]: "drop_matching 0 p xs = xs"
  by (cases xs) simp_all

lemma drop_matching_snoc:
  "n < length (filter p (xs @ [x])) \<Longrightarrow> drop_matching n p (xs @ [x]) = drop_matching n p xs @ [x]"
  by (induction n p xs rule: drop_matching.induct) (auto split: if_splits)

lemma floor_boundary_le: "floor_boundary s n \<le> n"
  by (induction n) auto

lemma floor_boundary_boundary: "is_char_boundary s (floor_boundary s n)"
  by (induction n) (auto simp: is_char_boundary_def)

lemma length_cut: "length (cut t) \<le> MAX_EVENT_DETAIL_BYTES"
  using floor_boundary_le [of t MAX_EVENT_DETAIL_BYTES] by (auto simp: cut_def)

text \<open>
  The history keeps at most \<open>MAX_ITEM_EVENTS\<close> counted rows of an item, always the new
  one, and every row of the other items and every stable conflict origin.
\<close>

lemma record_event_bound:
  "length (filter (prunable item) (record_event item kind detail now evs)) \<le> MAX_ITEM_EVENTS"
  by (simp add: record_event_def Let_def length_filter_drop_matching)

lemma record_event_keeps:
  "filter (\<lambda>e. \<not> prunable item e) (record_event item kind detail now evs) =
   filter (\<lambda>e. \<not> prunable item e)
     (evs @ [\<lparr>e_item = item, e_at = now, e_kind = kind, e_detail = cut detail\<rparr>])"
  by (simp add: record_event_def Let_def filter_drop_matching_other del: filter_append)

lemma record_event_last:
  assumes "kind \<noteq> ''created''"
  shows "last (record_event item kind detail now evs) =
    \<lparr>e_item = item, e_at = now, e_kind = kind, e_detail = cut detail\<rparr>"
proof -
  let ?e = "\<lparr>e_item = item, e_at = now, e_kind = kind, e_detail = cut detail\<rparr>"
  have "prunable item ?e"
    using assms by (simp add: prunable_def)
  then have "length (filter (prunable item) (evs @ [?e])) - MAX_ITEM_EVENTS
      < length (filter (prunable item) (evs @ [?e]))"
    by (simp add: MAX_ITEM_EVENTS_def)
  then show ?thesis
    by (simp add: record_event_def Let_def drop_matching_snoc del: filter_append)
qed

end
