(* ===== verification/Policy.thy ===== *)
theory Policy
  imports Vault
begin

text \<open>
  The declaration of a credential and the source of each of its values: the four ordered
  enums and \<open>Declaration\<close> of src/src/vault/agents.rs, the defaults of
  src/src/vault/providers.rs, and the whole of src/src/vault/policy.rs ("Always ask", the
  sources, and the environment that the owner sets).
\<close>

section \<open>The declaration enums\<close>

datatype environment = Local | Development | Staging | Production

fun environment_str :: "environment \<Rightarrow> string" where
  "environment_str Local = ''local''"
| "environment_str Development = ''development''"
| "environment_str Staging = ''staging''"
| "environment_str Production = ''production''"

definition environment_parse :: "string \<Rightarrow> verr + environment" where
  "environment_parse s =
     (if s = ''local'' then Inr Local
      else if s = ''development'' then Inr Development
      else if s = ''staging'' then Inr Staging
      else if s = ''production'' then Inr Production
      else Inl InvalidInput)"

fun environment_rank :: "environment \<Rightarrow> nat" where
  "environment_rank Local = 0"
| "environment_rank Development = 1"
| "environment_rank Staging = 2"
| "environment_rank Production = 3"

instantiation environment :: linorder
begin
definition less_eq_environment :: "environment \<Rightarrow> environment \<Rightarrow> bool" where
  "a \<le> b \<longleftrightarrow> environment_rank a \<le> environment_rank b"
definition less_environment :: "environment \<Rightarrow> environment \<Rightarrow> bool" where
  "a < b \<longleftrightarrow> environment_rank a < environment_rank b"
instance
proof
  fix a b :: environment
  show "a \<le> b \<Longrightarrow> b \<le> a \<Longrightarrow> a = b"
    by (cases a; cases b) (simp_all add: less_eq_environment_def)
qed (auto simp: less_eq_environment_def less_environment_def)
end

interpretation environment_name: stored_name environment_str environment_parse
proof
  fix v s
  show "environment_parse (environment_str v) = Inr v"
    by (cases v) (simp_all add: environment_parse_def)
  show "environment_parse s = Inr v \<Longrightarrow> s = environment_str v"
    by (auto simp: environment_parse_def split: if_splits)
qed

datatype risk_level = Low | Medium | High

fun risk_level_str :: "risk_level \<Rightarrow> string" where
  "risk_level_str Low = ''low''"
| "risk_level_str Medium = ''medium''"
| "risk_level_str High = ''high''"

definition risk_level_parse :: "string \<Rightarrow> verr + risk_level" where
  "risk_level_parse s =
     (if s = ''low'' then Inr Low
      else if s = ''medium'' then Inr Medium
      else if s = ''high'' then Inr High
      else Inl InvalidInput)"

fun risk_level_rank :: "risk_level \<Rightarrow> nat" where
  "risk_level_rank Low = 0"
| "risk_level_rank Medium = 1"
| "risk_level_rank High = 2"

instantiation risk_level :: linorder
begin
definition less_eq_risk_level :: "risk_level \<Rightarrow> risk_level \<Rightarrow> bool" where
  "a \<le> b \<longleftrightarrow> risk_level_rank a \<le> risk_level_rank b"
definition less_risk_level :: "risk_level \<Rightarrow> risk_level \<Rightarrow> bool" where
  "a < b \<longleftrightarrow> risk_level_rank a < risk_level_rank b"
instance
proof
  fix a b :: risk_level
  show "a \<le> b \<Longrightarrow> b \<le> a \<Longrightarrow> a = b"
    by (cases a; cases b) (simp_all add: less_eq_risk_level_def)
qed (auto simp: less_eq_risk_level_def less_risk_level_def)
end

interpretation risk_level_name: stored_name risk_level_str risk_level_parse
proof
  fix v s
  show "risk_level_parse (risk_level_str v) = Inr v"
    by (cases v) (simp_all add: risk_level_parse_def)
  show "risk_level_parse s = Inr v \<Longrightarrow> s = risk_level_str v"
    by (auto simp: risk_level_parse_def split: if_splits)
qed

datatype scope = ReadOnly | ReadWrite | Admin

fun scope_str :: "scope \<Rightarrow> string" where
  "scope_str ReadOnly = ''read-only''"
| "scope_str ReadWrite = ''read-write''"
| "scope_str Admin = ''admin''"

definition scope_parse :: "string \<Rightarrow> verr + scope" where
  "scope_parse s =
     (if s = ''read-only'' then Inr ReadOnly
      else if s = ''read-write'' then Inr ReadWrite
      else if s = ''admin'' then Inr Admin
      else Inl InvalidInput)"

fun scope_rank :: "scope \<Rightarrow> nat" where
  "scope_rank ReadOnly = 0"
| "scope_rank ReadWrite = 1"
| "scope_rank Admin = 2"

instantiation scope :: linorder
begin
definition less_eq_scope :: "scope \<Rightarrow> scope \<Rightarrow> bool" where
  "a \<le> b \<longleftrightarrow> scope_rank a \<le> scope_rank b"
definition less_scope :: "scope \<Rightarrow> scope \<Rightarrow> bool" where
  "a < b \<longleftrightarrow> scope_rank a < scope_rank b"
instance
proof
  fix a b :: scope
  show "a \<le> b \<Longrightarrow> b \<le> a \<Longrightarrow> a = b"
    by (cases a; cases b) (simp_all add: less_eq_scope_def)
qed (auto simp: less_eq_scope_def less_scope_def)
end

interpretation scope_name: stored_name scope_str scope_parse
proof
  fix v s
  show "scope_parse (scope_str v) = Inr v"
    by (cases v) (simp_all add: scope_parse_def)
  show "scope_parse s = Inr v \<Longrightarrow> s = scope_str v"
    by (auto simp: scope_parse_def split: if_splits)
qed

datatype reversibility = Reversible | Partial | Irreversible

fun reversibility_str :: "reversibility \<Rightarrow> string" where
  "reversibility_str Reversible = ''reversible''"
| "reversibility_str Partial = ''partial''"
| "reversibility_str Irreversible = ''irreversible''"

definition reversibility_parse :: "string \<Rightarrow> verr + reversibility" where
  "reversibility_parse s =
     (if s = ''reversible'' then Inr Reversible
      else if s = ''partial'' then Inr Partial
      else if s = ''irreversible'' then Inr Irreversible
      else Inl InvalidInput)"

fun reversibility_rank :: "reversibility \<Rightarrow> nat" where
  "reversibility_rank Reversible = 0"
| "reversibility_rank Partial = 1"
| "reversibility_rank Irreversible = 2"

instantiation reversibility :: linorder
begin
definition less_eq_reversibility :: "reversibility \<Rightarrow> reversibility \<Rightarrow> bool" where
  "a \<le> b \<longleftrightarrow> reversibility_rank a \<le> reversibility_rank b"
definition less_reversibility :: "reversibility \<Rightarrow> reversibility \<Rightarrow> bool" where
  "a < b \<longleftrightarrow> reversibility_rank a < reversibility_rank b"
instance
proof
  fix a b :: reversibility
  show "a \<le> b \<Longrightarrow> b \<le> a \<Longrightarrow> a = b"
    by (cases a; cases b) (simp_all add: less_eq_reversibility_def)
qed (auto simp: less_eq_reversibility_def less_reversibility_def)
end

interpretation reversibility_name: stored_name reversibility_str reversibility_parse
proof
  fix v s
  show "reversibility_parse (reversibility_str v) = Inr v"
    by (cases v) (simp_all add: reversibility_parse_def)
  show "reversibility_parse s = Inr v \<Longrightarrow> s = reversibility_str v"
    by (auto simp: reversibility_parse_def split: if_splits)
qed

lemmas enum_orders =
  less_eq_environment_def less_environment_def less_eq_risk_level_def less_risk_level_def
  less_eq_scope_def less_scope_def less_eq_reversibility_def less_reversibility_def

lemmas enum_parse_Inr =
  environment_name.parse_iff risk_level_name.parse_iff scope_name.parse_iff
  reversibility_name.parse_iff

section \<open>The declaration\<close>

record cred_declaration =
  d_project :: string
  d_environment :: environment
  d_risk :: risk_level
  d_scope :: scope
  d_reversibility :: reversibility

definition history_detail :: "cred_declaration \<Rightarrow> string option \<Rightarrow> string" where
  "history_detail d provider =
     environment_str (d_environment d) @ '', '' @ risk_level_str (d_risk d) @ '' risk, ''
     @ scope_str (d_scope d) @ '', '' @ reversibility_str (d_reversibility d)
     @ (case provider of
          Some p \<Rightarrow> if p = [] then [] else '', provider '' @ p
        | None \<Rightarrow> [])"

definition is_production :: "cred_declaration \<Rightarrow> bool" where
  "is_production d \<longleftrightarrow> d_environment d = Production"

definition is_sensitive :: "cred_declaration \<Rightarrow> bool" where
  "is_sensitive d \<longleftrightarrow> d_environment d = Production \<or> d_risk d = High
     \<or> d_reversibility d = Irreversible"

definition DEFAULT_ENVIRONMENT :: environment where
  "DEFAULT_ENVIRONMENT = Production"

definition DEFAULT_RISK :: risk_level where
  "DEFAULT_RISK = High"

definition DEFAULT_SCOPE :: scope where
  "DEFAULT_SCOPE = Admin"

definition DEFAULT_REVERSIBILITY :: reversibility where
  "DEFAULT_REVERSIBILITY = Irreversible"

definition DEVELOPMENT_RISK :: risk_level where
  "DEVELOPMENT_RISK = Medium"

definition DEVELOPMENT_REVERSIBILITY :: reversibility where
  "DEVELOPMENT_REVERSIBILITY = Reversible"

lemmas declaration_defaults =
  DEFAULT_ENVIRONMENT_def DEFAULT_RISK_def DEFAULT_SCOPE_def DEFAULT_REVERSIBILITY_def
  DEVELOPMENT_RISK_def DEVELOPMENT_REVERSIBILITY_def

section \<open>The source of each value\<close>

datatype declaration_source = Owner | Signal | Usage | Default

fun declaration_source_str :: "declaration_source \<Rightarrow> string" where
  "declaration_source_str Owner = ''owner''"
| "declaration_source_str Signal = ''signal''"
| "declaration_source_str Usage = ''usage''"
| "declaration_source_str Default = ''default''"

definition declaration_source_parse :: "string \<Rightarrow> declaration_source option" where
  "declaration_source_parse s =
     (if s = ''owner'' then Some Owner
      else if s = ''signal'' then Some Signal
      else if s = ''usage'' then Some Usage
      else if s = ''default'' then Some Default
      else None)"

record declaration_sources =
  s_environment :: declaration_source
  s_risk :: declaration_source
  s_scope :: declaration_source
  s_reversibility :: declaration_source

definition default_sources :: declaration_sources where
  "default_sources = \<lparr>s_environment = Owner, s_risk = Owner, s_scope = Owner,
     s_reversibility = Owner\<rparr>"

definition owner_development :: "declaration_sources \<Rightarrow> cred_declaration \<Rightarrow> bool" where
  "owner_development s d \<longleftrightarrow> s_environment s = Owner \<and> d_environment d \<le> Development"

definition judged :: "declaration_sources \<Rightarrow> cred_declaration \<Rightarrow> cred_declaration" where
  "judged s d =
     (if owner_development s d then
        let d1 = (if s_risk s = Default
                  then d\<lparr>d_risk := min (d_risk d) DEVELOPMENT_RISK\<rparr> else d)
        in if s_reversibility s = Default
           then d1\<lparr>d_reversibility := min (d_reversibility d1) DEVELOPMENT_REVERSIBILITY\<rparr>
           else d1
      else d)"

definition weak :: "declaration_sources \<Rightarrow> cred_declaration option \<Rightarrow> bool" where
  "weak s d \<longleftrightarrow> s_environment s = Default
     \<or> (s_risk s = Default \<and> \<not> (case d of None \<Rightarrow> False | Some d' \<Rightarrow> owner_development s d'))"

section \<open>Always ask\<close>

definition always_ask :: "vault \<Rightarrow> nat \<Rightarrow> verr + bool" where
  "always_ask v item_id =
     and_then (to_sql_id item_id) (\<lambda>item.
     and_then (conn v) (\<lambda>_.
     and_then (require_item v item) (\<lambda>_.
     Inr (v_policy v item = Some 1))))"

definition set_always_ask :: "vault \<Rightarrow> nat \<Rightarrow> bool \<Rightarrow> verr + vault" where
  "set_always_ask v item_id on =
     and_then (to_sql_id item_id) (\<lambda>item.
     and_then (always_ask v item_id) (\<lambda>current.
     if current = on then Inr v
     else and_then (require_item v item) (\<lambda>_.
       Inr (if on then v\<lparr>v_policy := (v_policy v)(item \<mapsto> 1)\<rparr>
            else v\<lparr>v_policy := (v_policy v)(item := None)\<rparr>))))"

section \<open>The stored sources\<close>

definition source_of :: "string \<Rightarrow> verr + declaration_source" where
  "source_of t = ok_or Storage (declaration_source_parse t)"

definition parse_sources ::
    "string \<times> string \<times> string \<times> string \<Rightarrow> verr + declaration_sources" where
  "parse_sources row = (case row of (a, b, c, d) \<Rightarrow>
     and_then (source_of a) (\<lambda>e.
     and_then (source_of b) (\<lambda>r.
     and_then (source_of c) (\<lambda>s.
     and_then (source_of d) (\<lambda>w.
     Inr \<lparr>s_environment = e, s_risk = r, s_scope = s, s_reversibility = w\<rparr>)))))"

definition sources_row :: "declaration_sources \<Rightarrow> string \<times> string \<times> string \<times> string" where
  "sources_row s = (declaration_source_str (s_environment s),
     declaration_source_str (s_risk s), declaration_source_str (s_scope s),
     declaration_source_str (s_reversibility s))"

definition declaration_sources_of :: "vault \<Rightarrow> nat \<Rightarrow> verr + declaration_sources" where
  "declaration_sources_of v item_id =
     and_then (to_sql_id item_id) (\<lambda>item.
     and_then (conn v) (\<lambda>_.
     and_then (require_item v item) (\<lambda>_.
     case v_sources v item of
       None \<Rightarrow> Inr default_sources
     | Some row \<Rightarrow> parse_sources row)))"

text \<open>The write of both callers: sources that are all from the owner have no row.\<close>

definition put_sources :: "vault \<Rightarrow> int \<Rightarrow> declaration_sources \<Rightarrow> vault" where
  "put_sources v item s =
     (if s = default_sources then v\<lparr>v_sources := (v_sources v)(item := None)\<rparr>
      else v\<lparr>v_sources := (v_sources v)(item \<mapsto> sources_row s)\<rparr>)"

definition set_declaration_sources ::
    "vault \<Rightarrow> nat \<Rightarrow> declaration_sources \<Rightarrow> verr + vault" where
  "set_declaration_sources v item_id s =
     and_then (to_sql_id item_id) (\<lambda>item.
     and_then (declaration_sources_of v item_id) (\<lambda>current.
     if current = s then Inr v
     else and_then (require_item v item) (\<lambda>_. Inr (put_sources v item s))))"

section \<open>The stored declaration\<close>

definition MAX_PROJECT_BYTES :: nat where
  "MAX_PROJECT_BYTES = 64"

definition storage :: "verr + 'a \<Rightarrow> verr + 'a" where
  "storage r = (case r of Inl _ \<Rightarrow> Inl Storage | Inr x \<Rightarrow> Inr x)"

definition declaration_of :: "vault \<Rightarrow> nat \<Rightarrow> verr + cred_declaration option" where
  "declaration_of v item_id =
     and_then (to_sql_id item_id) (\<lambda>item.
     and_then (conn v) (\<lambda>_.
     case v_declaration v item of
       None \<Rightarrow> Inr None
     | Some row \<Rightarrow>
         and_then (storage (environment_parse (r_environment row))) (\<lambda>e.
         and_then (storage (risk_level_parse (r_risk row))) (\<lambda>r.
         and_then (storage (scope_parse (r_scope row))) (\<lambda>s.
         and_then (storage (reversibility_parse (r_reversibility row))) (\<lambda>w.
         Inr (Some \<lparr>d_project = r_project row, d_environment = e, d_risk = r,
                    d_scope = s, d_reversibility = w\<rparr>)))))))"

definition declaration_row :: "cred_declaration \<Rightarrow> string \<Rightarrow> decl_row" where
  "declaration_row d provider = \<lparr>r_project = d_project d,
     r_environment = environment_str (d_environment d), r_risk = risk_level_str (d_risk d),
     r_scope = scope_str (d_scope d),
     r_reversibility = reversibility_str (d_reversibility d), r_provider = provider\<rparr>"

definition set_declaration :: "int \<Rightarrow> vault \<Rightarrow> nat \<Rightarrow> cred_declaration \<Rightarrow> verr + vault" where
  "set_declaration now v item_id d =
     and_then (to_sql_id item_id) (\<lambda>item.
     and_then (checked_text (trim (d_project d)) MAX_PROJECT_BYTES) (\<lambda>project.
     and_then (conn v) (\<lambda>_.
     and_then (require_item v item) (\<lambda>_.
     let provider = (case v_declaration v item of None \<Rightarrow> [] | Some row \<Rightarrow> r_provider row)
     in Inr (v\<lparr>v_declaration := (v_declaration v)
                  (item \<mapsto> declaration_row (d\<lparr>d_project := project\<rparr>) provider),
               v_events := record_event item ''declaration'' (history_detail d None) now
                             (v_events v)\<rparr>)))))"

section \<open>The environment that the owner sets\<close>

text \<open>The declaration before the new sources are applied, with its provider.\<close>

definition relabeled_declaration ::
    "decl_row option \<Rightarrow> environment \<Rightarrow> verr + (cred_declaration \<times> string)" where
  "relabeled_declaration stored e = (case stored of
       Some row \<Rightarrow>
         and_then (storage (risk_level_parse (r_risk row))) (\<lambda>r.
         and_then (storage (scope_parse (r_scope row))) (\<lambda>s.
         and_then (storage (reversibility_parse (r_reversibility row))) (\<lambda>w.
         Inr (\<lparr>d_project = r_project row, d_environment = e, d_risk = r, d_scope = s,
               d_reversibility = w\<rparr>, r_provider row))))
     | None \<Rightarrow>
         Inr (\<lparr>d_project = [], d_environment = e, d_risk = DEFAULT_RISK,
               d_scope = DEFAULT_SCOPE, d_reversibility = DEFAULT_REVERSIBILITY\<rparr>, []))"

definition sources_before :: "vault \<Rightarrow> int \<Rightarrow> bool \<Rightarrow> verr + declaration_sources" where
  "sources_before v item has_row =
     (if has_row then
        (case v_sources v item of
           Some row \<Rightarrow> parse_sources row
         | None \<Rightarrow> Inr default_sources)
      else Inr \<lparr>s_environment = Owner, s_risk = Default, s_scope = Default,
                s_reversibility = Default\<rparr>)"

text \<open>Each default value follows the environment that the owner set.\<close>

definition follow_environment :: "declaration_sources \<Rightarrow> cred_declaration \<Rightarrow> cred_declaration" where
  "follow_environment s d =
     (if owner_development s d then judged s d
      else let d1 = (if s_risk s = Default then d\<lparr>d_risk := DEFAULT_RISK\<rparr> else d)
           in if s_reversibility s = Default
              then d1\<lparr>d_reversibility := DEFAULT_REVERSIBILITY\<rparr> else d1)"

text \<open>The upsert: an existing row keeps its project, scope and provider.\<close>

definition upsert_declaration :: "vault \<Rightarrow> int \<Rightarrow> cred_declaration \<Rightarrow> string \<Rightarrow> vault" where
  "upsert_declaration v item d provider =
     v\<lparr>v_declaration := (v_declaration v)(item \<mapsto> (case v_declaration v item of
          None \<Rightarrow> declaration_row d provider
        | Some row \<Rightarrow> row\<lparr>r_environment := environment_str (d_environment d),
             r_risk := risk_level_str (d_risk d),
             r_reversibility := reversibility_str (d_reversibility d)\<rparr>))\<rparr>"

definition set_declaration_environment ::
    "int \<Rightarrow> vault \<Rightarrow> nat \<Rightarrow> environment \<Rightarrow> verr + vault" where
  "set_declaration_environment now v item_id e =
     and_then (to_sql_id item_id) (\<lambda>item.
     and_then (conn v) (\<lambda>_.
     and_then (require_item v item) (\<lambda>_.
     let stored = v_declaration v item;
         has_row = (stored \<noteq> None);
         same_environment = (case stored of None \<Rightarrow> False
                             | Some row \<Rightarrow> r_environment row = environment_str e)
     in and_then (relabeled_declaration stored e) (\<lambda>(declaration, provider).
        and_then (sources_before v item has_row) (\<lambda>before.
        let labeled = (s_environment before = Owner);
            sources = before\<lparr>s_environment := Owner\<rparr>;
            declaration' = follow_environment sources declaration
        in if has_row \<and> same_environment \<and> labeled
              \<and> (d_risk declaration, d_reversibility declaration)
                = (d_risk declaration', d_reversibility declaration')
           then Inr v
           else let v1 = upsert_declaration v item declaration' provider;
                    v2 = put_sources v1 item sources
                in Inr (v2\<lparr>v_events := record_event item ''declaration''
                     (history_detail declaration' (Some provider)) now (v_events v2)\<rparr>))))))"

section \<open>Lemmas\<close>

lemma storage_Inr [simp]: "storage r = Inr x \<longleftrightarrow> r = Inr x"
  by (cases r) (simp_all add: storage_def)

lemma storage_simps [simp]: "storage (Inr x) = Inr x" "storage (Inl e) = Inl Storage"
  by (simp_all add: storage_def)

interpretation source_name: stored_name declaration_source_str source_of
proof
  fix v s
  show "source_of (declaration_source_str v) = Inr v"
    by (cases v) (simp_all add: source_of_def declaration_source_parse_def)
  show "source_of s = Inr v \<Longrightarrow> s = declaration_source_str v"
    by (auto simp: source_of_def declaration_source_parse_def split: if_splits)
qed

lemma parse_sources_row [simp]: "parse_sources (sources_row s) = Inr s"
  by (simp add: parse_sources_def sources_row_def)

lemma min_Reversible [simp]: "min r Reversible = Reversible"
  by (cases r) (simp_all add: less_eq_reversibility_def min_def)

lemma owner_development_update [simp]:
  "owner_development s (d\<lparr>d_risk := r\<rparr>) = owner_development s d"
  "owner_development s (d\<lparr>d_reversibility := w\<rparr>) = owner_development s d"
  by (simp_all add: owner_development_def)

lemma owner_development_cong:
  "d_environment d = d_environment d' \<Longrightarrow> owner_development s d = owner_development s d'"
  by (simp add: owner_development_def)

lemma judged_fields [simp]:
  "d_project (judged s d) = d_project d" "d_environment (judged s d) = d_environment d"
  "d_scope (judged s d) = d_scope d"
  "d_risk (judged s d) =
     (if owner_development s d \<and> s_risk s = Default then min (d_risk d) DEVELOPMENT_RISK
      else d_risk d)"
  "d_reversibility (judged s d) =
     (if owner_development s d \<and> s_reversibility s = Default then Reversible
      else d_reversibility d)"
  by (simp_all add: judged_def Let_def DEVELOPMENT_REVERSIBILITY_def)

lemma follow_environment_fields [simp]:
  "d_project (follow_environment s d) = d_project d"
  "d_environment (follow_environment s d) = d_environment d"
  "d_scope (follow_environment s d) = d_scope d"
  "d_risk (follow_environment s d) =
     (if s_risk s = Default
      then if owner_development s d then min (d_risk d) DEVELOPMENT_RISK else DEFAULT_RISK
      else d_risk d)"
  "d_reversibility (follow_environment s d) =
     (if s_reversibility s = Default
      then if owner_development s d then Reversible else DEFAULT_REVERSIBILITY
      else d_reversibility d)"
  by (simp_all add: follow_environment_def Let_def)

lemma owner_development_judged [simp]:
  "owner_development s (judged s d) = owner_development s d"
  "owner_development s (follow_environment s d) = owner_development s d"
  by (simp_all add: owner_development_def)

lemma judged_idem [simp]: "judged s (judged s d) = judged s d"
  by (rule cred_declaration.equality) simp_all

lemma follow_environment_idem [simp]:
  "follow_environment s (follow_environment s d) = follow_environment s d"
  by (rule cred_declaration.equality) simp_all

lemma judged_follow_environment [simp]:
  "judged s (follow_environment s d) = follow_environment s d"
  by (rule cred_declaration.equality) simp_all

lemma put_sources_simps [simp, vault_simps]:
  "unlocked (put_sources v i s) = unlocked v"
  "v_items (put_sources v i s) = v_items v"
  "v_declaration (put_sources v i s) = v_declaration v"
  "v_events (put_sources v i s) = v_events v"
  "v_policy (put_sources v i s) = v_policy v"
  "v_answers (put_sources v i s) = v_answers v"
  "v_exceptions (put_sources v i s) = v_exceptions v"
  "j \<noteq> i \<Longrightarrow> v_sources (put_sources v i s) j = v_sources v j"
  by (simp_all add: put_sources_def)

text \<open>Reading the sources after the write gives the sources, whichever form they took.\<close>

lemma sources_read_back [simp, vault_simps]:
  "(case v_sources (put_sources v i s) i of None \<Rightarrow> Inr default_sources
    | Some row \<Rightarrow> parse_sources row) = Inr s"
  by (simp add: put_sources_def)

lemma upsert_declaration_simps [simp, vault_simps]:
  "unlocked (upsert_declaration v i d p) = unlocked v"
  "v_items (upsert_declaration v i d p) = v_items v"
  "v_sources (upsert_declaration v i d p) = v_sources v"
  "v_events (upsert_declaration v i d p) = v_events v"
  "v_policy (upsert_declaration v i d p) = v_policy v"
  "v_answers (upsert_declaration v i d p) = v_answers v"
  "v_exceptions (upsert_declaration v i d p) = v_exceptions v"
  "j \<noteq> i \<Longrightarrow> v_declaration (upsert_declaration v i d p) j = v_declaration v j"
  by (simp_all add: upsert_declaration_def)

text \<open>The row after the upsert holds exactly the declaration that the update computed.\<close>

lemma upsert_declaration_row:
  assumes "relabeled_declaration (v_declaration v i) e = Inr (d, p)"
    and "d_project d' = d_project d" "d_scope d' = d_scope d"
  shows "v_declaration (upsert_declaration v i d' p) i = Some (declaration_row d' p)"
proof (cases "v_declaration v i")
  case None
  then show ?thesis by (simp add: upsert_declaration_def)
next
  case (Some row)
  then have "r_project row = d_project d" "r_provider row = p" "r_scope row = scope_str (d_scope d)"
    using assms(1)
    by (auto simp: relabeled_declaration_def and_then_eq_Inr enum_parse_Inr)
  then show ?thesis
    using Some assms(2,3) by (simp add: upsert_declaration_def declaration_row_def)
qed

lemma relabeled_row [simp]:
  "relabeled_declaration (Some (declaration_row d p)) e = Inr (d\<lparr>d_environment := e\<rparr>, p)"
  by (simp add: relabeled_declaration_def declaration_row_def)

lemma relabeled_environment:
  "relabeled_declaration st e = Inr (d, p) \<Longrightarrow> d_environment d = e"
  by (auto simp: relabeled_declaration_def and_then_eq_Inr split: option.splits)

lemma declaration_of_row:
  assumes "v_declaration v (int i) = Some (declaration_row d p)"
    and "0 < i" "i \<le> i64_max" "unlocked v"
  shows "declaration_of v i = Inr (Some d)"
  using assms by (simp add: declaration_of_def to_sql_id_def declaration_row_def conn_def)

text \<open>
  What a successful \<open>set_declaration_environment\<close> leaves in the tables: either nothing
  changed because the row already followed the environment, or both rows of the item are
  the ones of the update.
\<close>

lemma set_declaration_environment_cases:
  assumes "set_declaration_environment now v i e = Inr v'"
  obtains d p b where "0 < i" "i \<le> i64_max" "unlocked v" "int i \<in> set (v_items v)"
    "relabeled_declaration (v_declaration v (int i)) e = Inr (d, p)"
    "sources_before v (int i) (v_declaration v (int i) \<noteq> None) = Inr b"
    "(v' = v \<and> v_declaration v (int i) \<noteq> None \<and> s_environment b = Owner
        \<and> r_environment (the (v_declaration v (int i))) = environment_str e
        \<and> follow_environment (b\<lparr>s_environment := Owner\<rparr>) d = d)
     \<or> v' = (put_sources (upsert_declaration v (int i)
                (follow_environment (b\<lparr>s_environment := Owner\<rparr>) d) p) (int i)
                (b\<lparr>s_environment := Owner\<rparr>))
          \<lparr>v_events := record_event (int i) ''declaration''
             (history_detail (follow_environment (b\<lparr>s_environment := Owner\<rparr>) d) (Some p))
             now (v_events v)\<rparr>"
proof -
  from assms obtain d p b where
    *: "0 < i" "i \<le> i64_max" "unlocked v" "int i \<in> set (v_items v)"
    "relabeled_declaration (v_declaration v (int i)) e = Inr (d, p)"
    "sources_before v (int i) (v_declaration v (int i) \<noteq> None) = Inr b"
    unfolding set_declaration_environment_def Let_def and_then_eq_Inr to_sql_id_Inr
    by (auto split: prod.splits simp: and_then_eq_Inr)
  let ?s = "b\<lparr>s_environment := Owner\<rparr>"
  let ?f = "follow_environment ?s d"
  have f: "d_risk d = d_risk ?f \<Longrightarrow> d_reversibility d = d_reversibility ?f \<Longrightarrow> ?f = d"
    by (rule cred_declaration.equality) simp_all
  from assms * f show ?thesis
    unfolding set_declaration_environment_def Let_def
    by (intro that [OF *])
       (auto simp: to_sql_id_def conn_def require_item_def
         simp del: follow_environment_fields split: if_splits option.splits)
qed

text \<open>What a label leaves, shared by the callers.\<close>

lemma set_declaration_environment_effect:
  assumes "set_declaration_environment now v i e = Inr v'"
  shows "\<exists>d s. declaration_of v' i = Inr (Some d) \<and> declaration_sources_of v' i = Inr s
    \<and> d_environment d = e \<and> s_environment s = Owner \<and> follow_environment s d = d
    \<and> judged s d = d
    \<and> (\<forall>d0. declaration_of v i = Inr (Some d0) \<longrightarrow>
         d_project d = d_project d0 \<and> d_scope d = d_scope d0
         \<and> (s_risk s = Default \<or> d_risk d = d_risk d0)
         \<and> (s_reversibility s = Default \<or> d_reversibility d = d_reversibility d0))
    \<and> (\<forall>j. j \<noteq> int i \<longrightarrow> v_declaration v' j = v_declaration v j \<and> v_sources v' j = v_sources v j)
    \<and> v_items v' = v_items v \<and> v_policy v' = v_policy v \<and> v_answers v' = v_answers v
    \<and> v_exceptions v' = v_exceptions v"
proof -
  from assms obtain d p b where
    b: "0 < i" "i \<le> i64_max" "unlocked v" "int i \<in> set (v_items v)"
    and rel: "relabeled_declaration (v_declaration v (int i)) e = Inr (d, p)"
    and sb: "sources_before v (int i) (v_declaration v (int i) \<noteq> None) = Inr b"
    and v': "(v' = v \<and> v_declaration v (int i) \<noteq> None \<and> s_environment b = Owner
        \<and> r_environment (the (v_declaration v (int i))) = environment_str e
        \<and> follow_environment (b\<lparr>s_environment := Owner\<rparr>) d = d)
     \<or> v' = (put_sources (upsert_declaration v (int i)
                (follow_environment (b\<lparr>s_environment := Owner\<rparr>) d) p) (int i)
                (b\<lparr>s_environment := Owner\<rparr>))
          \<lparr>v_events := record_event (int i) ''declaration''
             (history_detail (follow_environment (b\<lparr>s_environment := Owner\<rparr>) d) (Some p))
             now (v_events v)\<rparr>"
    by (rule set_declaration_environment_cases)
  let ?s = "b\<lparr>s_environment := Owner\<rparr>"
  let ?d = "follow_environment ?s d"
  have old: "\<forall>d0. declaration_of v i = Inr (Some d0) \<longrightarrow>
      d_project d = d_project d0 \<and> d_scope d = d_scope d0 \<and> d_risk d = d_risk d0
      \<and> d_reversibility d = d_reversibility d0"
    using rel b by (auto simp: declaration_of_def relabeled_declaration_def and_then_eq_Inr
      to_sql_id_Inr enum_parse_Inr split: option.splits)
  have e: "d_environment d = e"
    using rel by (rule relabeled_environment)
  from v' have "declaration_of v' i = Inr (Some ?d) \<and> declaration_sources_of v' i = Inr ?s
    \<and> (\<forall>j. j \<noteq> int i \<longrightarrow> v_declaration v' j = v_declaration v j \<and> v_sources v' j = v_sources v j)
    \<and> v_items v' = v_items v \<and> v_policy v' = v_policy v \<and> v_answers v' = v_answers v
    \<and> v_exceptions v' = v_exceptions v"
  proof
    assume *: "v' = v \<and> v_declaration v (int i) \<noteq> None \<and> s_environment b = Owner
        \<and> r_environment (the (v_declaration v (int i))) = environment_str e
        \<and> follow_environment ?s d = d"
    then obtain row where row: "v_declaration v (int i) = Some row" by blast
    have "?s = b"
      using * by (intro declaration_sources.equality) simp_all
    moreover have "declaration_of v i = Inr (Some d)"
      using * row rel b e by (auto simp: declaration_of_def relabeled_declaration_def
        and_then_eq_Inr to_sql_id_Inr enum_parse_Inr)
    moreover have "declaration_sources_of v i = Inr b"
      using row sb b by (auto simp: declaration_sources_of_def and_then_eq_Inr to_sql_id_Inr
        sources_before_def split: option.splits)
    ultimately show ?thesis
      using * by simp
  next
    assume *: "v' = (put_sources (upsert_declaration v (int i) ?d p) (int i) ?s)
          \<lparr>v_events := record_event (int i) ''declaration'' (history_detail ?d (Some p))
             now (v_events v)\<rparr>"
    have "v_declaration v' (int i) = Some (declaration_row ?d p)"
      using upsert_declaration_row [OF rel, of ?d] * by simp
    then show ?thesis
      using * b sb by (simp add: declaration_of_row declaration_sources_of_def to_sql_id_def
        conn_def require_item_def)
  qed
  then show ?thesis
    using old e by (intro exI [of _ ?d] exI [of _ ?s]) auto
qed


section \<open>Properties\<close>

text \<open>The declaration that the bouncer judges differs from the stored one only for a
  credential that the owner labelled development or local, and there only in a risk or a
  reversibility whose source is the default: such a value is at most the development
  default. Project, environment and scope never change, no value becomes more severe, a
  value from the owner, a signal or usage stays, and judging twice changes nothing more.\<close>

theorem judged_lowers_only_defaults:
  "d_project (judged s d) = d_project d \<and> d_environment (judged s d) = d_environment d
   \<and> d_scope (judged s d) = d_scope d
   \<and> d_risk (judged s d) =
       (if owner_development s d \<and> s_risk s = Default then min (d_risk d) Medium else d_risk d)
   \<and> d_reversibility (judged s d) =
       (if owner_development s d \<and> s_reversibility s = Default then Reversible
        else d_reversibility d)
   \<and> judged s (judged s d) = judged s d
   \<and> (is_sensitive (judged s d) \<longleftrightarrow> d_environment d = Production
        \<or> (d_risk d = High \<and> \<not> (owner_development s d \<and> s_risk s = Default))
        \<or> (d_reversibility d = Irreversible
            \<and> \<not> (owner_development s d \<and> s_reversibility s = Default)))"
proof -
  have "min r Medium \<noteq> High" for r
    by (cases r) (simp_all add: less_eq_risk_level_def min_def)
  moreover have "owner_development s d \<Longrightarrow> d_environment d \<noteq> Production"
    by (auto simp: owner_development_def less_eq_environment_def)
  ultimately have "is_sensitive (judged s d) \<longleftrightarrow> d_environment d = Production
        \<or> (d_risk d = High \<and> \<not> (owner_development s d \<and> s_risk s = Default))
        \<or> (d_reversibility d = Irreversible
            \<and> \<not> (owner_development s d \<and> s_reversibility s = Default))"
    by (cases "owner_development s d"; cases "s_risk s = Default";
        cases "s_reversibility s = Default")
       (auto simp: is_sensitive_def declaration_defaults)
  then show ?thesis
    by (simp add: declaration_defaults)
qed

text \<open>When the owner sets the environment of a credential, reading the declaration back
  gives that environment with the owner as its source; every value with the source
  default follows it (so judging the stored declaration changes nothing); a risk or a
  reversibility with another source keeps its stored value; and the rows of every other
  credential stay.\<close>

theorem set_declaration_environment_read_back:
  assumes "set_declaration_environment now v i e = Inr v'"
  shows "\<exists>d s. declaration_of v' i = Inr (Some d) \<and> declaration_sources_of v' i = Inr s
    \<and> d_environment d = e \<and> s_environment s = Owner \<and> follow_environment s d = d
    \<and> judged s d = d
    \<and> (\<forall>d0. declaration_of v i = Inr (Some d0) \<longrightarrow>
         d_project d = d_project d0 \<and> d_scope d = d_scope d0
         \<and> (s_risk s = Default \<or> d_risk d = d_risk d0)
         \<and> (s_reversibility s = Default \<or> d_reversibility d = d_reversibility d0))
    \<and> (\<forall>j. j \<noteq> int i \<longrightarrow> v_declaration v' j = v_declaration v j \<and> v_sources v' j = v_sources v j)
    \<and> v_items v' = v_items v \<and> v_policy v' = v_policy v \<and> v_answers v' = v_answers v
    \<and> v_exceptions v' = v_exceptions v"
  using set_declaration_environment_effect [OF assms] .

lemma relabel_fresh: "is_ok (set_declaration_environment now (empty_vault [1]) 1 e)"
  by (simp add: set_declaration_environment_def to_sql_id_def i64_max_def conn_def
    require_item_def empty_vault_def relabeled_declaration_def sources_before_def Let_def)

lemma set_declaration_environment_read_back_witness:
  "\<exists>v'. set_declaration_environment 5 (empty_vault [1]) 1 Development = Inr v'
     \<and> (\<exists>d s. declaration_of v' 1 = Inr (Some d) \<and> declaration_sources_of v' 1 = Inr s
          \<and> d_environment d = Development \<and> d_risk d = Medium \<and> \<not> is_sensitive d)"
proof -
  have "is_ok (set_declaration_environment 5 (empty_vault [1]) 1 Development)"
    by (rule relabel_fresh)
  then obtain v' where v': "set_declaration_environment 5 (empty_vault [1]) 1 Development = Inr v'"
    by (cases "set_declaration_environment 5 (empty_vault [1]) 1 Development") simp_all
  note set_declaration_environment_read_back [OF v']
  moreover have "declaration_of v' 1 = Inr (Some \<lparr>d_project = [], d_environment = Development,
      d_risk = Medium, d_scope = Admin, d_reversibility = Reversible\<rparr>)"
    using v' by (auto simp: set_declaration_environment_def to_sql_id_def i64_max_def conn_def
      require_item_def empty_vault_def relabeled_declaration_def sources_before_def Let_def
      declaration_of_def upsert_declaration_def declaration_row_def put_sources_def
      default_sources_def follow_environment_def judged_def owner_development_def
      declaration_defaults enum_orders min_def environment_parse_def risk_level_parse_def
      scope_parse_def reversibility_parse_def)
  ultimately show ?thesis
    using v' by (auto simp: is_sensitive_def)
qed

text \<open>Labelling is idempotent: after the owner set an environment, setting the same
  environment again succeeds, changes no table and adds no event to the history, whatever
  the stored declaration and sources were before the first label.\<close>

theorem set_declaration_environment_idempotent:
  assumes "set_declaration_environment now v i e = Inr v'"
  shows "set_declaration_environment now' v' i e = Inr v'"
proof -
  from assms obtain d p b where
    b: "0 < i" "i \<le> i64_max" "unlocked v" "int i \<in> set (v_items v)"
    and rel: "relabeled_declaration (v_declaration v (int i)) e = Inr (d, p)"
    and sb: "sources_before v (int i) (v_declaration v (int i) \<noteq> None) = Inr b"
    and v': "(v' = v \<and> v_declaration v (int i) \<noteq> None \<and> s_environment b = Owner
        \<and> r_environment (the (v_declaration v (int i))) = environment_str e
        \<and> follow_environment (b\<lparr>s_environment := Owner\<rparr>) d = d)
     \<or> v' = (put_sources (upsert_declaration v (int i)
                (follow_environment (b\<lparr>s_environment := Owner\<rparr>) d) p) (int i)
                (b\<lparr>s_environment := Owner\<rparr>))
          \<lparr>v_events := record_event (int i) ''declaration''
             (history_detail (follow_environment (b\<lparr>s_environment := Owner\<rparr>) d) (Some p))
             now (v_events v)\<rparr>"
    by (rule set_declaration_environment_cases)
  let ?s = "b\<lparr>s_environment := Owner\<rparr>"
  let ?d = "follow_environment ?s d"
  from v' show ?thesis
  proof
    assume *: "v' = v \<and> v_declaration v (int i) \<noteq> None \<and> s_environment b = Owner
        \<and> r_environment (the (v_declaration v (int i))) = environment_str e
        \<and> follow_environment ?s d = d"
    then show ?thesis
      using b rel sb
      by (auto simp: set_declaration_environment_def to_sql_id_def conn_def require_item_def Let_def
        simp del: follow_environment_fields)
  next
    assume *: "v' = (put_sources (upsert_declaration v (int i) ?d p) (int i) ?s)
          \<lparr>v_events := record_event (int i) ''declaration'' (history_detail ?d (Some p))
             now (v_events v)\<rparr>"
    have row: "v_declaration v' (int i) = Some (declaration_row ?d p)"
      using upsert_declaration_row [OF rel, of ?d] * by simp
    have "d_environment ?d = e"
      using relabeled_environment [OF rel] by simp
    then have "?d\<lparr>d_environment := e\<rparr> = ?d"
      by (intro cred_declaration.equality) (simp_all del: follow_environment_fields)
    moreover have "sources_before v' (int i) True = Inr ?s"
      using * by (simp add: sources_before_def)
    moreover have "r_environment (declaration_row ?d p) = environment_str e"
      using relabeled_environment [OF rel] by (simp add: declaration_row_def)
    ultimately show ?thesis
      using b row * by (simp add: set_declaration_environment_def to_sql_id_def conn_def
        require_item_def Let_def del: follow_environment_fields)
  qed
qed

lemma set_declaration_environment_idempotent_witness:
  "\<exists>v'. set_declaration_environment 5 (empty_vault [1]) 1 Staging = Inr v'
     \<and> set_declaration_environment 9 v' 1 Staging = Inr v' \<and> v' \<noteq> empty_vault [1]"
proof -
  have "is_ok (set_declaration_environment 5 (empty_vault [1]) 1 Staging)"
    by (rule relabel_fresh)
  then obtain v' where v': "set_declaration_environment 5 (empty_vault [1]) 1 Staging = Inr v'"
    by (cases "set_declaration_environment 5 (empty_vault [1]) 1 Staging") simp_all
  moreover have "v_declaration v' 1 \<noteq> None"
    using v' by (auto simp: set_declaration_environment_def to_sql_id_def i64_max_def conn_def
      require_item_def empty_vault_def relabeled_declaration_def sources_before_def Let_def
      upsert_declaration_def)
  ultimately show ?thesis
    using set_declaration_environment_idempotent [OF v', of 9] by (auto simp: empty_vault_def)
qed

text \<open>"Always ask" is stored exactly: after a successful set, reading it gives the new
  value, for every other credential the flag and its row stay, no other table changes, and
  setting the value it already has leaves the vault as it was (so its revision and its
  sync content stay the same). Every failure names the first check that fails, in the
  order of the code: the identifier, the lock, the missing credential.\<close>

theorem set_always_ask_exact:
  "(case set_always_ask v i on of
      Inr v' \<Rightarrow> always_ask v' i = Inr on
        \<and> (\<forall>j. j \<noteq> i \<longrightarrow> always_ask v' j = always_ask v j)
        \<and> v' = v\<lparr>v_policy := v_policy v'\<rparr>
        \<and> (always_ask v i = Inr on \<longrightarrow> v' = v)
    | Inl e \<Rightarrow> always_ask v i = Inl e
        \<and> e = (if i = 0 \<or> i64_max < i then InvalidInput
               else if \<not> unlocked v then Locked else NotFound))"
proof (cases "set_always_ask v i on")
  case (Inl e)
  then show ?thesis
    by (auto simp: set_always_ask_def always_ask_def and_then_eq_Inl to_sql_id_def conn_def
      require_item_def require_def split: if_splits)
next
  case (Inr v')
  then show ?thesis
    by (auto simp: set_always_ask_def always_ask_def and_then_eq_Inr to_sql_id_Inr conn_def
      require_item_def to_sql_id_def and_then_def split: if_splits sum.splits)
qed

lemma set_always_ask_exact_witness:
  "always_ask (empty_vault [1, 2]) 1 = Inr False \<and>
   (case set_always_ask (empty_vault [1, 2]) 1 True of
      Inr v' \<Rightarrow> always_ask v' 1 = Inr True \<and> always_ask v' 2 = always_ask (empty_vault [1, 2]) 2
    | Inl e \<Rightarrow> False)"
proof -
  have "is_ok (set_always_ask (empty_vault [1, 2]) 1 True)"
    by (simp add: set_always_ask_def always_ask_def to_sql_id_def i64_max_def conn_def
      require_item_def empty_vault_def)
  then obtain v' where v': "set_always_ask (empty_vault [1, 2]) 1 True = Inr v'"
    by (cases "set_always_ask (empty_vault [1, 2]) 1 True") simp_all
  have "always_ask (empty_vault [1, 2]) 1 = Inr False"
    by (simp add: always_ask_def to_sql_id_def i64_max_def conn_def require_item_def
      empty_vault_def)
  with v' show ?thesis
    using set_always_ask_exact [of "empty_vault [1, 2]" 1 True] by simp
qed

end
