(* ===== verification/Exceptions.thy ===== *)
theory Exceptions
  imports Vault
begin

text \<open>
  The exceptions of one agent for one item (src/src/vault/exceptions.rs): the stored rows,
  the view that the broker and the catalog read once per agent, and the operations that
  add and remove an exception. \<open>BTreeSet<u64>\<close> is a set of numbers.
\<close>

section \<open>Kinds, standings and the view\<close>

definition ONLY_MARKER_ITEM :: nat where
  "ONLY_MARKER_ITEM = 0"

definition MAX_AGENT_NOTE_BYTES :: nat where
  "MAX_AGENT_NOTE_BYTES = 500"

datatype exception_kind = Never | AlwaysAsk | Only

fun exception_kind_str :: "exception_kind \<Rightarrow> string" where
  "exception_kind_str Never = ''never''"
| "exception_kind_str AlwaysAsk = ''always_ask''"
| "exception_kind_str Only = ''only''"

definition exception_kind_parse :: "string \<Rightarrow> exception_kind option" where
  "exception_kind_parse s =
     (if s = ''never'' then Some Never
      else if s = ''always_ask'' then Some AlwaysAsk
      else if s = ''only'' then Some Only
      else None)"

definition kind_of :: "string \<Rightarrow> verr + exception_kind" where
  "kind_of s = ok_or Storage (exception_kind_parse s)"

datatype standing = StNormal | StAlwaysAsk | StNever

record agent_exception =
  ae_agent :: nat
  ae_item :: nat
  ae_kind :: exception_kind
  ae_created :: nat

record agent_view =
  restricted :: bool
  listed :: "nat set"
  never :: "nat set"
  view_always_ask :: "nat set"

definition empty_view :: agent_view where
  "empty_view = \<lparr>restricted = False, listed = {}, never = {}, view_always_ask = {}\<rparr>"

definition visible :: "agent_view \<Rightarrow> nat \<Rightarrow> bool" where
  "visible w item \<longleftrightarrow> item \<noteq> ONLY_MARKER_ITEM \<and> item \<notin> never w
     \<and> (\<not> restricted w \<or> item \<in> listed w)"

definition standing_of :: "agent_view \<Rightarrow> nat \<Rightarrow> standing" where
  "standing_of w item =
     (if \<not> visible w item then StNever
      else if item \<in> view_always_ask w then StAlwaysAsk
      else StNormal)"

section \<open>Reading the view\<close>

definition u64_of :: "int \<Rightarrow> verr + nat" where
  "u64_of i = (if i < 0 then Inl Storage else Inr (nat i))"

fun add_rows :: "exception_row list \<Rightarrow> agent_view \<Rightarrow> verr + agent_view" where
  "add_rows [] w = Inr w"
| "add_rows (r # rs) w =
     and_then (u64_of (x_item r)) (\<lambda>item.
     and_then (kind_of (x_kind r)) (\<lambda>k.
     add_rows rs (case k of
         Never \<Rightarrow> w\<lparr>never := insert item (never w)\<rparr>
       | AlwaysAsk \<Rightarrow> w\<lparr>view_always_ask := insert item (view_always_ask w)\<rparr>
       | Only \<Rightarrow> (let w' = w\<lparr>restricted := True\<rparr>
                  in if item \<noteq> ONLY_MARKER_ITEM then w'\<lparr>listed := insert item (listed w')\<rparr>
                     else w'))))"

fun add_granted :: "int list \<Rightarrow> agent_view \<Rightarrow> verr + agent_view" where
  "add_granted [] w = Inr w"
| "add_granted (i # is) w =
     and_then (u64_of i) (\<lambda>item. add_granted is (w\<lparr>listed := insert item (listed w)\<rparr>))"

definition granted_items :: "vault \<Rightarrow> int \<Rightarrow> int list" where
  "granted_items v agent =
     remdups (map snd (filter (\<lambda>g. fst g = agent) (v_exec_grants v @ v_grant_rules v)))"

definition view_in :: "vault \<Rightarrow> int \<Rightarrow> verr + agent_view" where
  "view_in v agent = (case v_agents v agent of
       None \<Rightarrow> Inr (empty_view\<lparr>restricted := True\<rparr>)
     | Some row \<Rightarrow>
         if revoked_at row \<noteq> None then Inr (empty_view\<lparr>restricted := True\<rparr>)
         else and_then (add_rows (filter (\<lambda>r. x_agent r = agent) (v_exceptions v))
                          (empty_view\<lparr>restricted := see_all row \<noteq> 1\<rparr>)) (\<lambda>w.
              if restricted w then add_granted (granted_items v agent) w else Inr w))"

definition agent_view_of :: "vault \<Rightarrow> nat \<Rightarrow> verr + agent_view" where
  "agent_view_of v agent_id =
     and_then (conn v) (\<lambda>_. and_then (to_sql_id agent_id) (\<lambda>agent. view_in v agent))"

definition agent_item_standing :: "vault \<Rightarrow> nat \<Rightarrow> nat \<Rightarrow> verr + standing" where
  "agent_item_standing v agent_id item_id =
     and_then (agent_view_of v agent_id) (\<lambda>w. Inr (standing_of w item_id))"

definition visible_items_for_agent :: "vault \<Rightarrow> nat \<Rightarrow> verr + nat set option" where
  "visible_items_for_agent v agent_id =
     and_then (agent_view_of v agent_id) (\<lambda>w.
     Inr (if restricted w then Some (Set.filter (visible w) (listed w)) else None))"

section \<open>Writing exceptions\<close>

text \<open>\<open>INSERT OR IGNORE\<close> with the primary key (agent, item, kind).\<close>

definition insert_exception :: "vault \<Rightarrow> int \<Rightarrow> int \<Rightarrow> string \<Rightarrow> int \<Rightarrow> vault" where
  "insert_exception v agent item kind at =
     (if list_ex (\<lambda>r. x_agent r = agent \<and> x_item r = item \<and> x_kind r = kind) (v_exceptions v)
      then v
      else v\<lparr>v_exceptions := v_exceptions v @
             [\<lparr>x_agent = agent, x_item = item, x_kind = kind, x_created = at\<rparr>]\<rparr>)"

definition restrict_in :: "nat \<Rightarrow> vault \<Rightarrow> int \<Rightarrow> verr + vault" where
  "restrict_in now v agent =
     and_then (to_sql_time now) (\<lambda>at.
     Inr (insert_exception v agent (int ONLY_MARKER_ITEM) ''only'' at))"

definition unrestrict_in :: "vault \<Rightarrow> int \<Rightarrow> vault" where
  "unrestrict_in v agent =
     v\<lparr>v_exceptions := filter (\<lambda>r. \<not> (x_agent r = agent \<and> x_kind r = ''only'')) (v_exceptions v)\<rparr>"

definition add_agent_exception ::
    "nat \<Rightarrow> vault \<Rightarrow> nat \<Rightarrow> nat \<Rightarrow> exception_kind \<Rightarrow> verr + vault" where
  "add_agent_exception now v agent_id item_id kind =
     (if item_id = ONLY_MARKER_ITEM then Inl InvalidInput
      else
        and_then (to_sql_id agent_id) (\<lambda>agent.
        and_then (to_sql_id item_id) (\<lambda>item.
        and_then (conn v) (\<lambda>_.
        and_then (require_active_agent v agent) (\<lambda>_.
        and_then (require_item v item) (\<lambda>_.
        and_then (if kind = Only then restrict_in now v agent else Inr v) (\<lambda>v1.
        and_then (to_sql_time now) (\<lambda>at.
        Inr (insert_exception v1 agent item (exception_kind_str kind) at)))))))))"

definition remove_agent_exception ::
    "vault \<Rightarrow> nat \<Rightarrow> nat \<Rightarrow> exception_kind \<Rightarrow> verr + (bool \<times> vault)" where
  "remove_agent_exception v agent_id item_id kind =
     (if kind = Only \<and> item_id = ONLY_MARKER_ITEM then Inl InvalidInput
      else
        and_then (to_sql_id agent_id) (\<lambda>agent.
        and_then (to_sql_id item_id) (\<lambda>item.
        and_then (conn v) (\<lambda>_.
        let hit = (\<lambda>r. x_agent r = agent \<and> x_item r = item \<and> x_kind r = exception_kind_str kind)
        in Inr (list_ex hit (v_exceptions v),
                v\<lparr>v_exceptions := filter (\<lambda>r. \<not> hit r) (v_exceptions v)\<rparr>)))))"

section \<open>Listing exceptions and the note\<close>

definition exception_of :: "exception_row \<Rightarrow> verr + agent_exception" where
  "exception_of r =
     and_then (to_public_id (x_agent r)) (\<lambda>a.
     and_then (u64_of (x_item r)) (\<lambda>i.
     and_then (kind_of (x_kind r)) (\<lambda>k.
     and_then (from_sql_time (x_created r)) (\<lambda>t.
     Inr \<lparr>ae_agent = a, ae_item = i, ae_kind = k, ae_created = t\<rparr>))))"

fun exceptions_of :: "exception_row list \<Rightarrow> verr + agent_exception list" where
  "exceptions_of [] = Inr []"
| "exceptions_of (r # rs) =
     and_then (exception_of r) (\<lambda>e. and_then (exceptions_of rs) (\<lambda>es. Inr (e # es)))"

definition agent_exceptions :: "vault \<Rightarrow> nat \<Rightarrow> verr + agent_exception list" where
  "agent_exceptions v agent_id =
     and_then (to_sql_id agent_id) (\<lambda>agent.
     and_then (conn v) (\<lambda>_.
     exceptions_of (sort_key (\<lambda>r. x_item r) (sort_key x_kind
       (filter (\<lambda>r. x_agent r = agent \<and> x_item r \<noteq> 0) (v_exceptions v))))))"

definition item_exceptions :: "vault \<Rightarrow> nat \<Rightarrow> verr + agent_exception list" where
  "item_exceptions v item_id =
     (if item_id = ONLY_MARKER_ITEM then Inr []
      else
        and_then (to_sql_id item_id) (\<lambda>item.
        and_then (conn v) (\<lambda>_.
        exceptions_of (sort_key (\<lambda>r. x_agent r) (sort_key x_kind
          (filter (\<lambda>r. x_item r = item) (v_exceptions v)))))))"

definition agent_note :: "vault \<Rightarrow> nat \<Rightarrow> verr + string" where
  "agent_note v agent_id =
     and_then (to_sql_id agent_id) (\<lambda>agent.
     and_then (conn v) (\<lambda>_.
     ok_or NotFound (map_option a_note (v_agents v agent))))"

definition clean_note :: "string \<Rightarrow> string" where
  "clean_note t = trim (concat (map (\<lambda>c. if is_control c then '' '' else c) (chars t)))"

definition set_agent_note :: "vault \<Rightarrow> nat \<Rightarrow> string \<Rightarrow> verr + vault" where
  "set_agent_note v agent_id t =
     and_then (to_sql_id agent_id) (\<lambda>agent.
     if MAX_AGENT_NOTE_BYTES < length (clean_note t) then Inl InvalidInput
     else
       and_then (conn v) (\<lambda>_.
       and_then (require_active_agent v agent) (\<lambda>_.
       Inr (v\<lparr>v_agents := (v_agents v)
                (agent := map_option (\<lambda>r. r\<lparr>a_note := clean_note t\<rparr>) (v_agents v agent))\<rparr>))))"

section \<open>Revoking an agent\<close>

definition revoke_agent :: "nat \<Rightarrow> vault \<Rightarrow> nat \<Rightarrow> verr + vault" where
  "revoke_agent now v agent_id =
     and_then (to_sql_id agent_id) (\<lambda>agent.
     and_then (to_sql_time now) (\<lambda>at.
     and_then (conn v) (\<lambda>_.
     case v_agents v agent of
       None \<Rightarrow> Inl NotFound
     | Some row \<Rightarrow>
         let revoked = (if revoked_at row = None then row\<lparr>revoked_at := Some at\<rparr> else row)
         in Inr (v\<lparr>v_agents := (v_agents v)(agent \<mapsto> revoked\<lparr>see_all := 0\<rparr>),
              v_grant_rules := filter (\<lambda>g. fst g \<noteq> agent) (v_grant_rules v),
              v_exec_grants := filter (\<lambda>g. fst g \<noteq> agent) (v_exec_grants v),
              v_requests := filter (\<lambda>r. fst r \<noteq> agent) (v_requests v),
              v_patterns := filter (\<lambda>r. fst r \<noteq> agent) (v_patterns v)\<rparr>))))"

section \<open>What the rows mean\<close>

interpretation kind_name: stored_name exception_kind_str kind_of
proof
  fix v s
  show "kind_of (exception_kind_str v) = Inr v"
    by (cases v) (simp_all add: kind_of_def exception_kind_parse_def)
  show "kind_of s = Inr v \<Longrightarrow> s = exception_kind_str v"
    by (auto simp: kind_of_def exception_kind_parse_def split: if_splits)
qed

text \<open>
  What the schema promises of the rows: an item number that is not negative and the name
  of a kind. Every operation keeps it.
\<close>

definition row_ok :: "exception_row \<Rightarrow> bool" where
  "row_ok r \<longleftrightarrow> 0 \<le> x_item r \<and> is_ok (kind_of (x_kind r))"

definition exceptions_ok :: "vault \<Rightarrow> bool" where
  "exceptions_ok v \<longleftrightarrow> list_all row_ok (v_exceptions v)
     \<and> list_all (\<lambda>g. 0 \<le> snd g) (v_exec_grants v)
     \<and> list_all (\<lambda>g. 0 \<le> snd g) (v_grant_rules v)"

definition has_row :: "vault \<Rightarrow> nat \<Rightarrow> nat \<Rightarrow> exception_kind \<Rightarrow> bool" where
  "has_row v a i k \<longleftrightarrow> list_ex (\<lambda>r. x_agent r = int a \<and> x_item r = int i
     \<and> x_kind r = exception_kind_str k) (v_exceptions v)"

definition has_grant :: "vault \<Rightarrow> nat \<Rightarrow> nat \<Rightarrow> bool" where
  "has_grant v a i \<longleftrightarrow> list_ex (\<lambda>g. g = (int a, int i)) (v_exec_grants v @ v_grant_rules v)"

definition limited :: "vault \<Rightarrow> nat \<Rightarrow> bool" where
  "limited v a \<longleftrightarrow> (case v_agents v (int a) of
       None \<Rightarrow> True
     | Some row \<Rightarrow> see_all row \<noteq> 1
         \<or> list_ex (\<lambda>r. x_agent r = int a \<and> x_kind r = ''only'') (v_exceptions v))"

definition active :: "vault \<Rightarrow> nat \<Rightarrow> bool" where
  "active v a \<longleftrightarrow> (case v_agents v (int a) of
       None \<Rightarrow> False | Some row \<Rightarrow> revoked_at row = None)"

text \<open>The policy of ADR 0025 3f, stated on the rows.\<close>

definition standing_spec :: "vault \<Rightarrow> nat \<Rightarrow> nat \<Rightarrow> standing" where
  "standing_spec v a i =
     (if i = 0 \<or> \<not> active v a \<or> has_row v a i Never
         \<or> (limited v a \<and> \<not> has_row v a i Only \<and> \<not> has_grant v a i) then StNever
      else if has_row v a i AlwaysAsk then StAlwaysAsk
      else StNormal)"

fun strictness :: "standing \<Rightarrow> nat" where
  "strictness StNormal = 0"
| "strictness StAlwaysAsk = 1"
| "strictness StNever = 2"

lemma row_okE:
  assumes "row_ok r"
  obtains i k where "x_item r = int i" "x_kind r = exception_kind_str k"
proof -
  from assms obtain k where "kind_of (x_kind r) = Inr k"
    by (cases "kind_of (x_kind r)") (simp_all add: row_ok_def)
  moreover have "x_item r = int (nat (x_item r))"
    using assms by (simp add: row_ok_def)
  ultimately show ?thesis
    by (intro that [of "nat (x_item r)" k]) (simp_all add: kind_name.parse_iff)
qed

lemma exception_kind_str_eqs [simp]:
  "exception_kind_str k = ''never'' \<longleftrightarrow> k = Never"
  "exception_kind_str k = ''always_ask'' \<longleftrightarrow> k = AlwaysAsk"
  "exception_kind_str k = ''only'' \<longleftrightarrow> k = Only"
  by (cases k; simp)+

lemma add_rows_ok:
  assumes "list_all row_ok rs"
  shows "add_rows rs w = Inr \<lparr>
      restricted = (restricted w \<or> (\<exists>r\<in>set rs. x_kind r = ''only'')),
      listed = listed w \<union> {i. i \<noteq> 0 \<and> (\<exists>r\<in>set rs. x_kind r = ''only'' \<and> x_item r = int i)},
      never = never w \<union> {i. \<exists>r\<in>set rs. x_kind r = ''never'' \<and> x_item r = int i},
      view_always_ask = view_always_ask w
        \<union> {i. \<exists>r\<in>set rs. x_kind r = ''always_ask'' \<and> x_item r = int i}\<rparr>"
  using assms
proof (induction rs arbitrary: w)
  case Nil
  show ?case by simp
next
  case (Cons r rs)
  from Cons.prems obtain i k where r: "x_item r = int i" "x_kind r = exception_kind_str k"
    by (auto elim: row_okE)
  show ?case
    using Cons r
    by (cases k) (auto simp: u64_of_def Let_def ONLY_MARKER_ITEM_def
      simp del: exception_kind_str.simps)
qed

lemma add_granted_ok:
  "list_all (\<lambda>i. 0 \<le> i) is \<Longrightarrow>
     add_granted is w = Inr (w\<lparr>listed := listed w \<union> {i. int i \<in> set is}\<rparr>)"
proof (induction "is" arbitrary: w)
  case (Cons a "is")
  from Cons.prems obtain n where a: "a = int n"
    by (auto elim: nonneg_int_cases)
  have "insert n (listed w \<union> {i. int i \<in> set is}) = listed w \<union> {i. int i \<in> set (a # is)}"
    by (auto simp: a)
  then show ?case
    using Cons a by (simp add: u64_of_def)
qed simp

lemma view_in_ok:
  assumes "exceptions_ok v" "v_agents v (int a) = Some row" "revoked_at row = None"
  shows "view_in v (int a) = Inr \<lparr>
      restricted = limited v a,
      listed = {i. i \<noteq> 0 \<and> has_row v a i Only} \<union> (if limited v a then {i. has_grant v a i} else {}),
      never = {i. has_row v a i Never},
      view_always_ask = {i. has_row v a i AlwaysAsk}\<rparr>"
proof -
  let ?rs = "filter (\<lambda>r. x_agent r = int a) (v_exceptions v)"
  have rows: "list_all row_ok ?rs"
    using assms(1) by (auto simp: exceptions_ok_def list_all_iff)
  have grants: "list_all (\<lambda>i. 0 \<le> i) (granted_items v (int a))"
    using assms(1) by (auto simp: exceptions_ok_def list_all_iff granted_items_def)
  have "i \<in> {i. int i \<in> set (granted_items v (int a))} \<longleftrightarrow> has_grant v a i" for i
    by (force simp: granted_items_def has_grant_def list_ex_iff image_iff)
  then show ?thesis
    using assms(2,3)
    by (auto simp: view_in_def add_rows_ok [OF rows] add_granted_ok [OF grants] empty_view_def
      limited_def has_row_def list_ex_iff)
qed

lemma insert_exception_simps [simp, vault_simps]:
  "unlocked (insert_exception v a i k t) = unlocked v"
  "v_items (insert_exception v a i k t) = v_items v"
  "v_agents (insert_exception v a i k t) = v_agents v"
  "v_exec_grants (insert_exception v a i k t) = v_exec_grants v"
  "v_grant_rules (insert_exception v a i k t) = v_grant_rules v"
  by (simp_all add: insert_exception_def)

lemma has_grant_insert [simp]: "has_grant (insert_exception v a i k t) = has_grant v"
  by (auto simp: has_grant_def fun_eq_iff)

lemma active_insert [simp]: "active (insert_exception v a i k t) = active v"
  by (auto simp: active_def fun_eq_iff)

lemma has_row_insert [simp]:
  "has_row (insert_exception v (int a) (int i) (exception_kind_str k) t) b j l
     \<longleftrightarrow> has_row v b j l \<or> (b = a \<and> j = i \<and> l = k)"
  by (auto simp: insert_exception_def has_row_def list_ex_iff)

lemma limited_insert [simp]:
  "limited (insert_exception v (int a) (int i) (exception_kind_str k) t) b
     \<longleftrightarrow> limited v b \<or> (b = a \<and> k = Only)"
  by (cases k) (auto simp: insert_exception_def limited_def list_ex_iff split: option.splits)

lemma exceptions_ok_insert:
  "exceptions_ok v \<Longrightarrow> 0 \<le> i \<Longrightarrow> exceptions_ok (insert_exception v a i (exception_kind_str k) t)"
  by (auto simp: exceptions_ok_def insert_exception_def row_ok_def simp del: exception_kind_str.simps)

text \<open>A successful \<open>add_agent_exception\<close> is one or two row inserts.\<close>

lemma add_agent_exception_Inr:
  assumes "add_agent_exception now v a i k = Inr v'"
  shows "i \<noteq> 0 \<and> i \<le> i64_max \<and> 0 < a \<and> a \<le> i64_max \<and> unlocked v \<and> active v a
    \<and> int i \<in> set (v_items v) \<and> now \<le> i64_max
    \<and> v' = (if k = Only
        then insert_exception (insert_exception v (int a) (int 0) (exception_kind_str Only) (int now))
               (int a) (int i) (exception_kind_str k) (int now)
        else insert_exception v (int a) (int i) (exception_kind_str k) (int now))"
  using assms
  by (auto simp: add_agent_exception_def and_then_eq_Inr to_sql_id_Inr restrict_in_def
    to_sql_time_def require_active_agent_Inr active_def ONLY_MARKER_ITEM_def split: if_splits)

section \<open>Properties\<close>

text \<open>C12: The view that the code builds row by row decides exactly the stated policy: for an
  unlocked vault whose rows have the form that the schema promises, the standing of an
  agent for an item is "never" for the marker, for an unknown or revoked agent, for a
  "never" row, and for a restricted agent without an "only" row or a grant for the item;
  else "always ask" when such a row exists; else "normal".\<close>

theorem agent_item_standing_spec:
  assumes "exceptions_ok v" "unlocked v" "0 < a" "a \<le> i64_max"
  shows "agent_item_standing v a i = Inr (standing_spec v a i)"
proof -
  have id: "to_sql_id a = Inr (int a)"
    using assms by (simp add: to_sql_id_def)
  show ?thesis
  proof (cases "active v a")
    case True
    then obtain row where "v_agents v (int a) = Some row" "revoked_at row = None"
      by (auto simp: active_def split: option.splits)
    then show ?thesis
      using assms True id
      by (auto simp: agent_item_standing_def agent_view_of_def conn_def view_in_ok standing_of_def
        visible_def standing_spec_def ONLY_MARKER_ITEM_def)
  next
    case False
    then have "view_in v (int a) = Inr (empty_view\<lparr>restricted := True\<rparr>)"
      by (auto simp: active_def view_in_def split: option.splits)
    then show ?thesis
      using assms False id
      by (simp add: agent_item_standing_def agent_view_of_def conn_def standing_of_def
        visible_def standing_spec_def empty_view_def)
  qed
qed

text \<open>A vault with two items and the agent 7, which sees everything but item 1.\<close>

definition demo_vault :: vault where
  "demo_vault = (empty_vault [1, 2])
     \<lparr>v_agents := [7 \<mapsto> \<lparr>see_all = 1, revoked_at = None, a_note = []\<rparr>],
      v_exceptions := [\<lparr>x_agent = 7, x_item = 1, x_kind = ''never'', x_created = 3\<rparr>,
                       \<lparr>x_agent = 7, x_item = 2, x_kind = ''always_ask'', x_created = 3\<rparr>]\<rparr>"

lemma demo_vault_ok: "exceptions_ok demo_vault" "unlocked demo_vault" "active demo_vault 7"
  by (simp_all add: demo_vault_def empty_vault_def exceptions_ok_def row_ok_def kind_of_def
    exception_kind_parse_def active_def)

lemma agent_item_standing_spec_witness:
  "agent_item_standing demo_vault 7 1 = Inr StNever
   \<and> agent_item_standing demo_vault 7 2 = Inr StAlwaysAsk
   \<and> agent_item_standing demo_vault 8 2 = Inr StNever"
  using agent_item_standing_spec [OF demo_vault_ok(1,2), of 7 1]
    agent_item_standing_spec [OF demo_vault_ok(1,2), of 7 2]
    agent_item_standing_spec [OF demo_vault_ok(1,2), of 8 2]
  by (simp add: i64_max_def standing_spec_def active_def has_row_def limited_def demo_vault_def
    empty_vault_def)

text \<open>Adding "never" or "always ask" only takes authority away: no agent gets a less strict
  standing for any item, every standing of the other agents and of the other items stays,
  the named agent gets "never" (or at least "always ask") for the item, and the rows keep
  their form. Adding the first item to the "only" list leaves the agent exactly its listed
  and granted items.\<close>

theorem add_agent_exception_stricter:
  assumes "add_agent_exception now v a i k = Inr v'" "exceptions_ok v"
  shows "exceptions_ok v'
    \<and> (\<forall>b j. (b \<noteq> a \<or> (j \<noteq> i \<and> k \<noteq> Only)) \<longrightarrow> standing_spec v' b j = standing_spec v b j)
    \<and> (case k of
         Never \<Rightarrow> standing_spec v' a i = StNever
       | AlwaysAsk \<Rightarrow> 1 \<le> strictness (standing_spec v' a i)
           \<and> strictness (standing_spec v a i) \<le> strictness (standing_spec v' a i)
       | Only \<Rightarrow> limited v' a
           \<and> (standing_spec v' a i \<noteq> StNever \<longleftrightarrow> \<not> has_row v a i Never)
           \<and> (\<forall>j. j \<noteq> i \<longrightarrow> strictness (standing_spec v a j) \<le> strictness (standing_spec v' a j)
                \<and> (standing_spec v' a j \<noteq> StNever \<longrightarrow> has_row v a j Only \<or> has_grant v a j)))"
proof -
  note v' = add_agent_exception_Inr [OF assms(1)]
  have ok: "exceptions_ok v'"
    using v' assms(2) by (auto intro: exceptions_ok_insert simp del: exception_kind_str.simps)
  show ?thesis
    using ok v'
    by (cases k) (auto simp: standing_spec_def simp del: exception_kind_str.simps of_nat_0)
qed

lemma add_agent_exception_stricter_witness:
  "\<exists>v'. add_agent_exception 4 demo_vault 7 2 Never = Inr v' \<and> exceptions_ok v'
     \<and> standing_spec demo_vault 7 2 = StAlwaysAsk \<and> standing_spec v' 7 2 = StNever"
proof -
  have "is_ok (add_agent_exception 4 demo_vault 7 2 Never)"
    by (simp add: add_agent_exception_def ONLY_MARKER_ITEM_def to_sql_id_def i64_max_def
      to_sql_time_def conn_def require_active_agent_def require_item_def demo_vault_def
      empty_vault_def)
  then obtain v' where v': "add_agent_exception 4 demo_vault 7 2 Never = Inr v'"
    by (cases "add_agent_exception 4 demo_vault 7 2 Never") simp_all
  have "standing_spec demo_vault 7 2 = StAlwaysAsk"
    by (simp add: standing_spec_def active_def has_row_def limited_def demo_vault_def
      empty_vault_def)
  with v' add_agent_exception_stricter [OF v' demo_vault_ok(1)] show ?thesis
    by auto
qed

text \<open>Revoking an agent ends its authority: whatever it could do before, afterwards its
  standing is "never" for every item, it has no grant, no open request and no remembered
  pattern; every other agent keeps its standing for every item.\<close>

theorem revoke_agent_ends_authority:
  assumes "revoke_agent now v a = Inr v'"
  shows "(\<forall>i. standing_spec v' a i = StNever)
    \<and> (\<forall>i. \<not> has_grant v' a i) \<and> list_all (\<lambda>r. fst r \<noteq> int a) (v_requests v')
    \<and> list_all (\<lambda>r. fst r \<noteq> int a) (v_patterns v')
    \<and> (\<forall>b i. b \<noteq> a \<longrightarrow> standing_spec v' b i = standing_spec v b i)"
proof -
  from assms obtain row where "v_agents v (int a) = Some row"
    and v': "v' = v\<lparr>v_agents := (v_agents v)(int a \<mapsto>
         (if revoked_at row = None then row\<lparr>revoked_at := Some (int now)\<rparr> else row)\<lparr>see_all := 0\<rparr>),
       v_grant_rules := filter (\<lambda>g. fst g \<noteq> int a) (v_grant_rules v),
       v_exec_grants := filter (\<lambda>g. fst g \<noteq> int a) (v_exec_grants v),
       v_requests := filter (\<lambda>r. fst r \<noteq> int a) (v_requests v),
       v_patterns := filter (\<lambda>r. fst r \<noteq> int a) (v_patterns v)\<rparr>"
    by (auto simp: revoke_agent_def and_then_eq_Inr to_sql_id_Inr to_sql_time_def Let_def
      split: option.splits if_splits)
  have "\<not> active v' a"
    by (auto simp: active_def v')
  moreover have "standing_spec v' b i = standing_spec v b i" if "b \<noteq> a" for b i
  proof -
    have "has_grant v' b i = has_grant v b i" "has_row v' b i = has_row v b i"
      "active v' b = active v b"
      using that by (auto simp: has_grant_def has_row_def active_def list_ex_iff v' fun_eq_iff)
    moreover have "limited v' b = limited v b"
      using that by (cases "v_agents v (int b)") (simp_all add: limited_def v')
    ultimately show ?thesis by (simp add: standing_spec_def)
  qed
  ultimately show ?thesis
    by (auto simp: standing_spec_def has_grant_def list_ex_iff list_all_iff v')
qed

lemma revoke_agent_ends_authority_witness:
  "\<exists>v'. revoke_agent 9 demo_vault 7 = Inr v' \<and> standing_spec demo_vault 7 2 = StAlwaysAsk
     \<and> standing_spec v' 7 2 = StNever"
proof -
  have "is_ok (revoke_agent 9 demo_vault 7)"
    by (simp add: revoke_agent_def to_sql_id_def i64_max_def to_sql_time_def conn_def demo_vault_def
      empty_vault_def Let_def)
  then obtain v' where v': "revoke_agent 9 demo_vault 7 = Inr v'"
    by (cases "revoke_agent 9 demo_vault 7") simp_all
  have "standing_spec demo_vault 7 2 = StAlwaysAsk"
    by (simp add: standing_spec_def active_def has_row_def limited_def demo_vault_def
      empty_vault_def)
  with v' revoke_agent_ends_authority [OF v'] show ?thesis by auto
qed

end
