(* ===== verification/Answers.thy ===== *)
theory Answers
  imports Vault
begin

text \<open>
  The remembered answers of the owner (src/src/vault/answers.rs) and the kinds of action
  that they name (src/src/broker/action_kind.rs). The \<open>hosts\<close> column is a JSON array of
  texts; a row holds the list that it decodes to, or \<open>None\<close> for a text that does not
  decode, which the code reports as \<open>Storage\<close>.
\<close>

section \<open>Kinds of action\<close>

datatype action_kind = Read | Change | Deploy | Delete

fun action_kind_str :: "action_kind \<Rightarrow> string" where
  "action_kind_str Read = ''read''"
| "action_kind_str Change = ''change''"
| "action_kind_str Deploy = ''deploy''"
| "action_kind_str Delete = ''delete''"

definition action_kind_parse :: "string \<Rightarrow> action_kind option" where
  "action_kind_parse s =
     (if s = ''read'' then Some Read
      else if s = ''change'' then Some Change
      else if s = ''deploy'' then Some Deploy
      else if s = ''delete'' then Some Delete
      else None)"

fun rank :: "action_kind \<Rightarrow> nat" where
  "rank Read = 0"
| "rank Change = 1"
| "rank Deploy = 2"
| "rank Delete = 3"

definition more_dangerous :: "action_kind \<Rightarrow> action_kind \<Rightarrow> action_kind" where
  "more_dangerous a b = (if rank a < rank b then b else a)"

fun action_words :: "action_kind \<Rightarrow> string" where
  "action_words Read = ''reading''"
| "action_words Change = ''changes''"
| "action_words Deploy = ''deploys''"
| "action_words Delete = ''deleting or irreversible actions''"

section \<open>Answers\<close>

definition MAX_PROJECT_KEY_BYTES :: nat where "MAX_PROJECT_KEY_BYTES = 4096"
definition MAX_PROJECT_LABEL_BYTES :: nat where "MAX_PROJECT_LABEL_BYTES = 256"
definition MAX_ANSWERED_ON_BYTES :: nat where "MAX_ANSWERED_ON_BYTES = 64"
definition MAX_ANSWER_HOSTS :: nat where "MAX_ANSWER_HOSTS = 64"
definition MAX_HOST_BYTES :: nat where "MAX_HOST_BYTES = 253"

record project_ref =
  p_key :: string
  p_label :: string

datatype answer_scope = ProjectScope | ProductionScope

fun answer_scope_str :: "answer_scope \<Rightarrow> string" where
  "answer_scope_str ProjectScope = ''project''"
| "answer_scope_str ProductionScope = ''production''"

definition answer_scope_parse :: "string \<Rightarrow> verr + answer_scope" where
  "answer_scope_parse s =
     (if s = ''project'' then Inr ProjectScope
      else if s = ''production'' then Inr ProductionScope
      else Inl Storage)"

record owner_answer =
  o_id :: nat
  o_item :: nat
  o_project :: project_ref
  o_action :: action_kind
  o_scope :: answer_scope
  o_created :: nat
  o_on :: string
  o_hosts :: "string list"
  o_codes :: bool
  o_values :: bool

section \<open>Hosts\<close>

definition host_char :: "char \<Rightarrow> bool" where
  "host_char c \<longleftrightarrow> is_ascii_alphanumeric c \<or> c \<in> set ''.-_:*''"

definition normal_host :: "string \<Rightarrow> string option" where
  "normal_host h =
     (let h1 = to_ascii_lowercase (trim h);
          h2 = (case strip_prefix h1 ''['' of None \<Rightarrow> h1
                | Some rest \<Rightarrow> hd (split_on (CHR '']'') rest));
          h3 = (if count_list h2 (CHR '':'') = 1 then hd (split_on (CHR '':'') h2) else h2);
          h4 = trim_end_matches (CHR ''.'') h3
      in if h4 \<noteq> [] \<and> length h4 \<le> MAX_HOST_BYTES \<and> list_all host_char h4
         then Some h4 else None)"

definition normal_hosts :: "string list \<Rightarrow> string list" where
  "normal_hosts hs = take MAX_ANSWER_HOSTS (sort_dedup (List.map_filter normal_host hs))"

definition checked :: "string \<Rightarrow> nat \<Rightarrow> verr + string" where
  "checked t m =
     (let t' = trim t
      in if t' = [] \<or> m < length t' \<or> list_ex is_control (chars t') then Inl InvalidInput
         else Inr t')"

section \<open>Storing and reading answers\<close>

definition forget_all :: "vault \<Rightarrow> vault" where
  "forget_all v = v\<lparr>v_answers := []\<rparr>"

text \<open>The unique key of the table: item, project key, kind of action, scope.\<close>

definition answer_key :: "answer_row \<Rightarrow> int \<times> string \<times> string \<times> string" where
  "answer_key r = (w_item r, w_key r, w_action r, w_scope r)"

definition parse_hosts :: "string list option \<Rightarrow> verr + string list" where
  "parse_hosts h = ok_or Storage h"

text \<open>The hosts that an earlier row adds: none when either answer includes codes.\<close>

definition known_hosts_of :: "bool \<Rightarrow> answer_row option \<Rightarrow> verr + string list" where
  "known_hosts_of codes known =
     (if \<not> codes \<and> (case known of None \<Rightarrow> True | Some r \<Rightarrow> \<not> w_codes r)
      then (case known of None \<Rightarrow> Inr [] | Some r \<Rightarrow> parse_hosts (w_hosts r))
      else Inr [])"

definition store_answer ::
    "nat \<Rightarrow> vault \<Rightarrow> nat \<Rightarrow> project_ref \<Rightarrow> action_kind \<Rightarrow> answer_scope \<Rightarrow> string \<Rightarrow>
     string list \<Rightarrow> bool \<Rightarrow> bool \<Rightarrow> verr + (nat \<times> vault)" where
  "store_answer now v item_id project action scope answered_on hosts codes values_too =
     and_then (to_sql_id item_id) (\<lambda>item.
     and_then (checked (p_key project) MAX_PROJECT_KEY_BYTES) (\<lambda>key.
     and_then (checked (p_label project) MAX_PROJECT_LABEL_BYTES) (\<lambda>label.
     and_then (checked answered_on MAX_ANSWERED_ON_BYTES) (\<lambda>on.
     and_then (to_sql_time now) (\<lambda>at.
     and_then (conn v) (\<lambda>_.
     and_then (require_item v item) (\<lambda>_.
     let k = (item, key, action_kind_str action, answer_scope_str scope);
         known = find_row answer_key (v_answers v) k
     in and_then (known_hosts_of codes known) (\<lambda>old.
        let all = normal_hosts (old @ hosts);
            row = (\<lambda>r. case r of
                Some x \<Rightarrow> x\<lparr>w_label := label, w_hosts := Some all, w_codes := codes,
                            w_values := values_too\<rparr>
              | None \<Rightarrow> \<lparr>w_id = v_next_answer v, w_item = item, w_key = key, w_label = label,
                   w_action = action_kind_str action, w_scope = answer_scope_str scope,
                   w_created = at, w_on = on, w_hosts = Some all, w_codes = codes,
                   w_values = values_too\<rparr>);
            rows = upsert_row answer_key (v_answers v) k row
        in and_then (case find_row answer_key rows k of
                       None \<Rightarrow> Inl Storage | Some r \<Rightarrow> to_public_id (w_id r)) (\<lambda>i.
           Inr (i, v\<lparr>v_answers := rows,
                     v_next_answer := (if known = None then v_next_answer v + 1
                                       else v_next_answer v)\<rparr>))))))))))"

definition remember_answer ::
    "nat \<Rightarrow> vault \<Rightarrow> nat \<Rightarrow> project_ref \<Rightarrow> action_kind \<Rightarrow> string \<Rightarrow> string list \<Rightarrow>
     verr + (nat \<times> vault)" where
  "remember_answer now v item_id project action answered_on hosts =
     store_answer now v item_id project action ProjectScope answered_on hosts False True"

definition allow_production ::
    "nat \<Rightarrow> vault \<Rightarrow> nat \<Rightarrow> project_ref \<Rightarrow> action_kind \<Rightarrow> string \<Rightarrow> string list \<Rightarrow>
     verr + (nat \<times> vault)" where
  "allow_production now v item_id project action answered_on hosts =
     store_answer now v item_id project action ProductionScope answered_on hosts False True"

definition parse_answer :: "answer_row \<Rightarrow> verr + owner_answer" where
  "parse_answer r =
     and_then (to_public_id (w_id r)) (\<lambda>i.
     and_then (to_public_id (w_item r)) (\<lambda>item.
     and_then (ok_or Storage (action_kind_parse (w_action r))) (\<lambda>action.
     and_then (answer_scope_parse (w_scope r)) (\<lambda>scope.
     and_then (from_sql_time (w_created r)) (\<lambda>t.
     and_then (parse_hosts (w_hosts r)) (\<lambda>hs.
     Inr \<lparr>o_id = i, o_item = item,
          o_project = \<lparr>p_key = w_key r, p_label = w_label r\<rparr>, o_action = action,
          o_scope = scope, o_created = t, o_on = w_on r, o_hosts = hs, o_codes = w_codes r,
          o_values = w_values r\<rparr>))))))"

definition answer_for ::
    "vault \<Rightarrow> nat \<Rightarrow> string \<Rightarrow> action_kind \<Rightarrow> answer_scope \<Rightarrow> verr + owner_answer option" where
  "answer_for v item_id key action scope =
     and_then (to_sql_id item_id) (\<lambda>item.
     and_then (conn v) (\<lambda>_.
     case find_row answer_key (v_answers v)
            (item, key, action_kind_str action, answer_scope_str scope) of
       None \<Rightarrow> Inr None
     | Some r \<Rightarrow> and_then (parse_answer r) (\<lambda>a. Inr (Some a))))"

fun parse_answers :: "answer_row list \<Rightarrow> verr + owner_answer list" where
  "parse_answers [] = Inr []"
| "parse_answers (r # rs) =
     and_then (parse_answer r) (\<lambda>a. and_then (parse_answers rs) (\<lambda>as. Inr (a # as)))"

definition answers_for_item :: "vault \<Rightarrow> nat \<Rightarrow> verr + owner_answer list" where
  "answers_for_item v item_id =
     and_then (to_sql_id item_id) (\<lambda>item.
     and_then (conn v) (\<lambda>_.
     parse_answers (rev (sort_key w_id (filter (\<lambda>r. w_item r = item) (v_answers v))))))"

definition remove_answer :: "vault \<Rightarrow> nat \<Rightarrow> verr + (bool \<times> vault)" where
  "remove_answer v i =
     and_then (to_sql_id i) (\<lambda>k.
     and_then (conn v) (\<lambda>_.
     Inr (list_ex (\<lambda>r. w_id r = k) (v_answers v),
          v\<lparr>v_answers := filter (\<lambda>r. w_id r \<noteq> k) (v_answers v)\<rparr>)))"

section \<open>Lemmas\<close>

interpretation action_name: stored_name action_kind_str "\<lambda>s. ok_or Storage (action_kind_parse s)"
proof
  fix v s
  show "ok_or Storage (action_kind_parse (action_kind_str v)) = Inr v"
    by (cases v) (simp_all add: action_kind_parse_def)
  show "ok_or Storage (action_kind_parse s) = Inr v \<Longrightarrow> s = action_kind_str v"
    by (auto simp: action_kind_parse_def split: if_splits)
qed

interpretation scope_name: stored_name answer_scope_str answer_scope_parse
proof
  fix v s
  show "answer_scope_parse (answer_scope_str v) = Inr v"
    by (cases v) (simp_all add: answer_scope_parse_def)
  show "answer_scope_parse s = Inr v \<Longrightarrow> s = answer_scope_str v"
    by (auto simp: answer_scope_parse_def split: if_splits)
qed

lemma more_dangerous_rank: "rank (more_dangerous a b) = max (rank a) (rank b)"
  by (simp add: more_dangerous_def)

lemma rank_inject [simp]: "rank a = rank b \<longleftrightarrow> a = b"
  by (cases a; cases b) simp_all

text \<open>The rules combine kinds in any order.\<close>

lemma more_dangerous_semilattice:
  "more_dangerous a b = more_dangerous b a"
  "more_dangerous (more_dangerous a b) c = more_dangerous a (more_dangerous b c)"
  "more_dangerous a a = a"
  unfolding rank_inject [symmetric] more_dangerous_rank by simp_all

lemma checked_Inr: "checked t m = Inr t' \<Longrightarrow> t' = trim t \<and> t' \<noteq> [] \<and> length t' \<le> m"
  by (auto simp: checked_def Let_def split: if_splits)

definition answers_ok :: "vault \<Rightarrow> bool" where
  "answers_ok v \<longleftrightarrow> distinct (map answer_key (v_answers v))
     \<and> distinct (map w_id (v_answers v))
     \<and> list_all (\<lambda>r. 1 \<le> w_id r \<and> w_id r < v_next_answer v \<and> is_ok (parse_answer r)) (v_answers v)
     \<and> 1 \<le> v_next_answer v"

lemma answer_key_find:
  "find_row answer_key rows (i, k, a, s) = Some r \<Longrightarrow>
     w_item r = i \<and> w_key r = k \<and> w_action r = a \<and> w_scope r = s"
  by (auto dest: find_row_Some simp: answer_key_def)

text \<open>The row that \<open>store_answer\<close> leaves for its key, from the row that was there.\<close>

definition stored_row ::
    "vault \<Rightarrow> int \<Rightarrow> string \<Rightarrow> string \<Rightarrow> action_kind \<Rightarrow> answer_scope \<Rightarrow> string \<Rightarrow> int \<Rightarrow>
     string list \<Rightarrow> bool \<Rightarrow> bool \<Rightarrow> answer_row option \<Rightarrow> answer_row" where
  "stored_row v item key label action scope on at all codes vals r = (case r of
       Some x \<Rightarrow> x\<lparr>w_label := label, w_hosts := Some all, w_codes := codes, w_values := vals\<rparr>
     | None \<Rightarrow> \<lparr>w_id = v_next_answer v, w_item = item, w_key = key, w_label = label,
          w_action = action_kind_str action, w_scope = answer_scope_str scope,
          w_created = at, w_on = on, w_hosts = Some all, w_codes = codes, w_values = vals\<rparr>)"

lemma store_answer_cases:
  assumes "store_answer now v i p action scope on hosts codes vals = Inr (n, v')"
  obtains key label on' old where
    "0 < i" "i \<le> i64_max" "now \<le> i64_max" "unlocked v" "int i \<in> set (v_items v)"
    "key = trim (p_key p)"
    "known_hosts_of codes (find_row answer_key (v_answers v)
       (int i, key, action_kind_str action, answer_scope_str scope)) = Inr old"
    "v' = v\<lparr>v_answers := upsert_row answer_key (v_answers v)
         (int i, key, action_kind_str action, answer_scope_str scope)
         (stored_row v (int i) key label action scope on' (int now) (normal_hosts (old @ hosts))
            codes vals),
       v_next_answer := (if find_row answer_key (v_answers v)
         (int i, key, action_kind_str action, answer_scope_str scope) = None
         then v_next_answer v + 1 else v_next_answer v)\<rparr>"
    "case find_row answer_key (v_answers v')
       (int i, key, action_kind_str action, answer_scope_str scope) of
       None \<Rightarrow> False | Some r \<Rightarrow> to_public_id (w_id r) = Inr n"
proof -
  from assms obtain key label on' old where
    *: "0 < i" "i \<le> i64_max" "unlocked v" "int i \<in> set (v_items v)"
    "checked (p_key p) MAX_PROJECT_KEY_BYTES = Inr key" "to_sql_time now = Inr (int now)"
    "known_hosts_of codes (find_row answer_key (v_answers v)
       (int i, key, action_kind_str action, answer_scope_str scope)) = Inr old"
    "checked (p_label p) MAX_PROJECT_LABEL_BYTES = Inr label"
    "checked on MAX_ANSWERED_ON_BYTES = Inr on'"
    by (auto simp: store_answer_def Let_def and_then_eq_Inr to_sql_id_Inr to_sql_time_def
        split: if_splits)
  moreover have "now \<le> i64_max" "key = trim (p_key p)"
    using * by (auto simp: to_sql_time_def dest: checked_Inr split: if_splits)
  moreover have "to_sql_id i = Inr (int i)" "conn v = Inr ()" "require_item v (int i) = Inr ()"
    using * by (simp_all add: to_sql_id_Inr)
  ultimately show ?thesis
    using assms
    by (intro that [of key old label on'])
      (auto simp: store_answer_def Let_def stored_row_def [abs_def] and_then_eq_Inr
        cong: option.case_cong split: option.splits)
qed

lemma stored_row_key:
  "keeps_key answer_key (item, key, action_kind_str a, answer_scope_str s)
     (stored_row v item key l a s on at all c d)"
  by (auto simp: keeps_key_def stored_row_def answer_key_def)

lemma parse_answer_stored:
  assumes "answers_ok v" "to_sql_id i = Inr item" "to_sql_time now = Inr at"
    and "r = find_row answer_key (v_answers v) (item, key, action_kind_str a, answer_scope_str s)"
  shows "\<exists>id t w. parse_answer (stored_row v item key l a s on at all c d r)
      = Inr \<lparr>o_id = id, o_item = i, o_project = \<lparr>p_key = key, p_label = l\<rparr>, o_action = a,
             o_scope = s, o_created = t, o_on = w, o_hosts = all, o_codes = c, o_values = d\<rparr>
    \<and> to_public_id (w_id (stored_row v item key l a s on at all c d r)) = Inr id"
proof (cases r)
  case None
  have "int i = item" "0 < i"
    using assms(2) by (auto simp: to_sql_id_Inr)
  then show ?thesis
    using None assms by (auto simp: parse_answer_def stored_row_def answers_ok_def to_public_id_def
      to_sql_time_def from_sql_time_def parse_hosts_def split: if_splits)
next
  case (Some x)
  then have x: "x \<in> set (v_answers v)" "answer_key x = (item, key, action_kind_str a, answer_scope_str s)"
    using assms(4) by (auto dest: find_row_Some sym)
  then have "is_ok (parse_answer x)"
    using assms(1) by (auto simp: answers_ok_def list_all_iff)
  then obtain y where y: "parse_answer x = Inr y"
    by (cases "parse_answer x") simp_all
  have i: "to_public_id item = Inr i"
    using assms(2) by (rule to_public_id_to_sql_id)
  obtain id t where "to_public_id (w_id x) = Inr id" "from_sql_time (w_created x) = Inr t"
    using y by (auto simp: parse_answer_def and_then_eq_Inr)
  then show ?thesis
    using x i Some
    by (auto simp: parse_answer_def stored_row_def answer_key_def parse_hosts_def)
qed

lemma answers_ok_upsert:
  assumes ok: "answers_ok v" and i: "to_sql_id i = Inr item" and t: "to_sql_time now = Inr at"
    and k: "k = (item, key, action_kind_str a, answer_scope_str s)"
  shows "answers_ok (v\<lparr>v_answers := upsert_row answer_key (v_answers v) k
           (stored_row v item key l a s on at all c d),
         v_next_answer := (if find_row answer_key (v_answers v) k = None
           then v_next_answer v + 1 else v_next_answer v)\<rparr>)"
proof -
  let ?f = "stored_row v item key l a s on at all c d"
  let ?rows = "upsert_row answer_key (v_answers v) k ?f"
  let ?r = "find_row answer_key (v_answers v) k"
  have keys: "map answer_key ?rows =
      (if ?r = None then map answer_key (v_answers v) @ [k] else map answer_key (v_answers v))"
    unfolding k by (rule map_key_upsert_row [OF stored_row_key])
  have ids: "map w_id ?rows =
      (if ?r = None then map w_id (v_answers v) @ [v_next_answer v] else map w_id (v_answers v))"
    using map_upsert_row_other [of w_id ?f answer_key "v_answers v" k]
    by (simp add: stored_row_def)
  have "is_ok (parse_answer (?f ?r))"
    unfolding k using parse_answer_stored [OF ok i t refl] by (metis is_ok_simps(1))
  moreover have "set ?rows \<subseteq> insert (?f ?r) (set (v_answers v))"
    by (rule set_upsert_row)
  ultimately have parse: "\<forall>r\<in>set ?rows. is_ok (parse_answer r)"
    using ok by (auto simp: answers_ok_def list_all_iff)
  have "\<forall>n\<in>set (map w_id ?rows). 1 \<le> n \<and>
      n < (if ?r = None then v_next_answer v + 1 else v_next_answer v)"
    using ok unfolding ids by (auto simp: answers_ok_def list_all_iff)
  moreover have "distinct (map answer_key ?rows)"
    using ok unfolding keys by (simp add: answers_ok_def find_row_None)
  moreover have "distinct (map w_id ?rows)"
    using ok unfolding ids by (auto simp: answers_ok_def list_all_iff)
  ultimately show ?thesis
    using ok parse by (auto simp: answers_ok_def list_all_iff)
qed

lemma answer_for_other:
  assumes "v' = v\<lparr>v_answers := upsert_row answer_key (v_answers v) k f, v_next_answer := n\<rparr>"
    and "keeps_key answer_key k f"
    and "(int j, key, action_kind_str a, answer_scope_str s) \<noteq> k"
  shows "answer_for v' j key a s = answer_for v j key a s"
  using assms
  by (cases "to_sql_id j")
     (auto simp: answer_for_def to_sql_id_def conn_def rows.lookup_upsert_other split: if_splits)

text \<open>What a successful \<open>store_answer\<close> leaves for its own key.\<close>

lemma store_answer_found:
  assumes "answers_ok v"
    and "store_answer now v i p action scope on hosts codes vals = Inr (n, v')"
  shows "answers_ok v'
    \<and> (\<exists>a old. answer_for v' i (trim (p_key p)) action scope = Inr (Some a)
       \<and> known_hosts_of codes (find_row answer_key (v_answers v)
           (int i, trim (p_key p), action_kind_str action, answer_scope_str scope)) = Inr old
       \<and> o_id a = n \<and> o_item a = i \<and> p_key (o_project a) = trim (p_key p)
       \<and> o_action a = action \<and> o_scope a = scope \<and> o_codes a = codes \<and> o_values a = vals
       \<and> o_hosts a = normal_hosts (old @ hosts))"
proof -
  from assms(2) obtain key label on' old where
    c: "0 < i" "i \<le> i64_max" "now \<le> i64_max" "unlocked v" "int i \<in> set (v_items v)"
    "key = trim (p_key p)"
    "known_hosts_of codes (find_row answer_key (v_answers v)
       (int i, key, action_kind_str action, answer_scope_str scope)) = Inr old"
    and v': "v' = v\<lparr>v_answers := upsert_row answer_key (v_answers v)
         (int i, key, action_kind_str action, answer_scope_str scope)
         (stored_row v (int i) key label action scope on' (int now) (normal_hosts (old @ hosts))
            codes vals),
       v_next_answer := (if find_row answer_key (v_answers v)
         (int i, key, action_kind_str action, answer_scope_str scope) = None
         then v_next_answer v + 1 else v_next_answer v)\<rparr>"
    and n: "case find_row answer_key (v_answers v')
       (int i, key, action_kind_str action, answer_scope_str scope) of
       None \<Rightarrow> False | Some r \<Rightarrow> to_public_id (w_id r) = Inr n"
    by (rule store_answer_cases)
  let ?k = "(int i, key, action_kind_str action, answer_scope_str scope)"
  let ?f = "stored_row v (int i) key label action scope on' (int now)
      (normal_hosts (old @ hosts)) codes vals"
  have ids: "to_sql_id i = Inr (int i)" "to_sql_time now = Inr (int now)"
    using c by (simp_all add: to_sql_id_def to_sql_time_def)
  have found: "find_row answer_key (v_answers v') ?k = Some (?f (find_row answer_key (v_answers v) ?k))"
    using v' by (simp add: rows.lookup_upsert_same stored_row_key)
  obtain id t w where row: "parse_answer (?f (find_row answer_key (v_answers v) ?k))
      = Inr \<lparr>o_id = id, o_item = i, o_project = \<lparr>p_key = key, p_label = label\<rparr>,
             o_action = action, o_scope = scope, o_created = t, o_on = w,
             o_hosts = normal_hosts (old @ hosts), o_codes = codes, o_values = vals\<rparr>"
    "to_public_id (w_id (?f (find_row answer_key (v_answers v) ?k))) = Inr id"
    using parse_answer_stored [OF assms(1) ids, of "find_row answer_key (v_answers v) ?k"] by blast
  have "answers_ok v'"
    unfolding v' by (rule answers_ok_upsert [OF assms(1) ids]) simp
  moreover have "answer_for v' i key action scope = Inr (Some \<lparr>o_id = n, o_item = i,
      o_project = \<lparr>p_key = key, p_label = label\<rparr>, o_action = action, o_scope = scope,
      o_created = t, o_on = w, o_hosts = normal_hosts (old @ hosts), o_codes = codes,
      o_values = vals\<rparr>)"
    using found row n c v' by (simp add: answer_for_def ids conn_def)
  ultimately show ?thesis
    using c by auto
qed

text \<open>And for every other key.\<close>

lemma store_answer_other:
  assumes "store_answer now v i p action scope on hosts codes vals = Inr (n, v')"
    and "(j, key, b, s) \<noteq> (i, trim (p_key p), action, scope)"
  shows "answer_for v' j key b s = answer_for v j key b s"
proof -
  from assms(1) obtain key' label on' old where "key' = trim (p_key p)"
    and v': "v' = v\<lparr>v_answers := upsert_row answer_key (v_answers v)
         (int i, key', action_kind_str action, answer_scope_str scope)
         (stored_row v (int i) key' label action scope on' (int now) (normal_hosts (old @ hosts))
            codes vals),
       v_next_answer := (if find_row answer_key (v_answers v)
         (int i, key', action_kind_str action, answer_scope_str scope) = None
         then v_next_answer v + 1 else v_next_answer v)\<rparr>"
    by (rule store_answer_cases)
  show ?thesis
    by (rule answer_for_other [OF v' stored_row_key]) (use assms(2) \<open>key' = _\<close> in auto)
qed

text \<open>A row that an answer reads back to.\<close>

lemma answer_for_row:
  "answer_for v i key a s = Inr (Some x) \<Longrightarrow>
     \<exists>r. find_row answer_key (v_answers v) (int i, key, action_kind_str a, answer_scope_str s) = Some r
       \<and> o_codes x = w_codes r \<and> w_hosts r = Some (o_hosts x)"
  by (auto simp: answer_for_def parse_answer_def parse_hosts_def and_then_eq_Inr to_sql_id_Inr
    split: option.splits)

section \<open>Properties\<close>

text \<open>C14: A stored answer reads back exactly: under the trimmed project key, the same kind of
  action and the same scope, \<open>answer_for\<close> returns it with the flags that were stored and
  with the normal form of its hosts (joined with those of the earlier answer only when
  neither includes codes); every other combination of item, project, action and scope
  answers as before; the table keeps its unique keys and identifiers.\<close>

theorem store_answer_read_back:
  assumes "answers_ok v"
    and "store_answer now v i p action scope on hosts codes vals = Inr (n, v')"
  shows "answers_ok v' \<and>
    (\<exists>a old. answer_for v' i (trim (p_key p)) action scope = Inr (Some a)
       \<and> known_hosts_of codes (find_row answer_key (v_answers v)
           (int i, trim (p_key p), action_kind_str action, answer_scope_str scope)) = Inr old
       \<and> o_id a = n \<and> o_item a = i \<and> p_key (o_project a) = trim (p_key p)
       \<and> o_action a = action \<and> o_scope a = scope \<and> o_codes a = codes \<and> o_values a = vals
       \<and> o_hosts a = normal_hosts (old @ hosts))
    \<and> (\<forall>j key b s. (j, key, b, s) \<noteq> (i, trim (p_key p), action, scope)
          \<longrightarrow> answer_for v' j key b s = answer_for v j key b s)"
  using store_answer_found [OF assms] store_answer_other [OF assms(2)] by blast

text \<open>The vault of the examples: item 1, no answer yet.\<close>

definition shop :: project_ref where
  "shop = \<lparr>p_key = ''/w/shop'', p_label = ''shop''\<rparr>"

lemma empty_answers_ok [simp]: "answers_ok (empty_vault is)"
  by (simp add: answers_ok_def empty_vault_def)

lemma store_shop_ok:
  "is_ok (store_answer 5 (empty_vault [1]) 1 shop Change ProjectScope ''mac'' hosts c d)"
  by (simp add: store_answer_def shop_def to_sql_id_def i64_max_def to_sql_time_def conn_def
    require_item_def empty_vault_def checked_def trim_def is_whitespace_def is_control_def
    char_len_def byte_def Let_def MAX_PROJECT_KEY_BYTES_def MAX_PROJECT_LABEL_BYTES_def
    MAX_ANSWERED_ON_BYTES_def known_hosts_of_def find_row_def answer_key_def to_public_id_def
    chars.simps)

lemma trim_shop: "trim ''/w/shop'' = ''/w/shop''"
  by (simp add: trim_def is_whitespace_def char_len_def byte_def chars.simps)

lemma store_answer_read_back_witness:
  "\<exists>n v' a. store_answer 5 (empty_vault [1]) 1 shop Change ProjectScope ''mac''
       [''API.Example.com:443''] False True = Inr (n, v')
     \<and> answer_for v' 1 ''/w/shop'' Change ProjectScope = Inr (Some a)
     \<and> o_hosts a = [''api.example.com''] \<and> answers_ok v'"
proof -
  obtain n v' where v': "store_answer 5 (empty_vault [1]) 1 shop Change ProjectScope ''mac''
      [''API.Example.com:443''] False True = Inr (n, v')"
    using store_shop_ok [of "[''API.Example.com:443'']" False True]
    by (cases "store_answer 5 (empty_vault [1]) 1 shop Change ProjectScope ''mac''
      [''API.Example.com:443''] False True") auto
  have hosts: "normal_hosts [''API.Example.com:443''] = [''api.example.com'']"
    by code_simp
  from store_answer_read_back [OF empty_answers_ok v'] hosts v' show ?thesis
    by (auto simp: shop_def trim_shop known_hosts_of_def empty_vault_def find_row_def)
qed

text \<open>C15: Code authority never spreads: the hosts of an answer that includes one-time codes are
  exactly the hosts of the run that the owner saw, and an answer without codes that
  replaces one with codes loses both the codes and every host that the earlier answer
  had. Only an answer without codes on top of one without codes adds hosts, and then it
  keeps none but the old and the new ones.\<close>

theorem code_answers_replace_hosts:
  assumes "answers_ok v"
    and "store_answer now v i p action scope on hosts codes vals = Inr (n, v')"
  shows "\<exists>a. answer_for v' i (trim (p_key p)) action scope = Inr (Some a) \<and> o_codes a = codes
    \<and> (case answer_for v i (trim (p_key p)) action scope of
         Inr (Some b) \<Rightarrow>
           if codes \<or> o_codes b then o_hosts a = normal_hosts hosts
           else o_hosts a = normal_hosts (o_hosts b @ hosts)
       | _ \<Rightarrow> o_hosts a = normal_hosts hosts)
    \<and> length (o_hosts a) \<le> MAX_ANSWER_HOSTS \<and> sorted (o_hosts a) \<and> distinct (o_hosts a)"
proof -
  let ?key = "trim (p_key p)"
  from store_answer_found [OF assms] obtain a old where
    a: "answer_for v' i ?key action scope = Inr (Some a)" "o_codes a = codes"
    "o_hosts a = normal_hosts (old @ hosts)"
    and old: "known_hosts_of codes (find_row answer_key (v_answers v)
       (int i, ?key, action_kind_str action, answer_scope_str scope)) = Inr old"
    by blast
  have "unlocked v" "to_sql_id i = Inr (int i)"
    using assms(2) by (auto simp: store_answer_def and_then_eq_Inr to_sql_id_Inr Let_def)
  then have old_none: "find_row answer_key (v_answers v)
      (int i, ?key, action_kind_str action, answer_scope_str scope) = None"
    if "answer_for v i ?key action scope = Inr None"
    using that by (auto simp: answer_for_def and_then_eq_Inr split: option.splits)
  have no_err: False if "answer_for v i ?key action scope = Inl e" for e
  proof -
    from that \<open>unlocked v\<close> \<open>to_sql_id i = _\<close> obtain r where
      r: "r \<in> set (v_answers v)" "parse_answer r = Inl e"
      by (auto simp: answer_for_def and_then_eq_Inl split: option.splits dest: find_row_Some)
    with assms(1) show False
      by (auto simp: answers_ok_def list_all_iff)
  qed
  have "sorted (o_hosts a)" "distinct (o_hosts a)" "length (o_hosts a) \<le> MAX_ANSWER_HOSTS"
    unfolding a by (simp_all add: normal_hosts_def sorted_wrt_take)
  then show ?thesis
    using a old old_none no_err
    by (cases "answer_for v i ?key action scope")
      (auto simp: known_hosts_of_def parse_hosts_def dest!: answer_for_row
        split: option.splits if_splits)
qed

lemma code_answers_replace_hosts_witness:
  "\<exists>n v' a. store_answer 5 (empty_vault [1]) 1 shop Change ProjectScope ''mac''
       [''api.example.com''] True True = Inr (n, v')
     \<and> answer_for v' 1 (trim ''/w/shop'') Change ProjectScope = Inr (Some a) \<and> o_codes a
     \<and> o_hosts a = [''api.example.com'']"
proof -
  obtain n v' where v': "store_answer 5 (empty_vault [1]) 1 shop Change ProjectScope ''mac''
      [''api.example.com''] True True = Inr (n, v')"
    using store_shop_ok [of "[''api.example.com'']" True True]
    by (cases "store_answer 5 (empty_vault [1]) 1 shop Change ProjectScope ''mac''
      [''api.example.com''] True True") auto
  have "normal_hosts [''api.example.com''] = [''api.example.com'']"
    by code_simp
  moreover have "answer_for (empty_vault [1]) 1 (trim ''/w/shop'') Change ProjectScope = Inr None"
    by (simp add: answer_for_def to_sql_id_def i64_max_def conn_def empty_vault_def find_row_def)
  ultimately show ?thesis
    using code_answers_replace_hosts [OF empty_answers_ok v'] v' by (auto simp: shop_def)
qed

text \<open>The project key is stored without the blanks around it, but looked up as it is: for a
  project whose key begins or ends in a blank, storing an answer never changes what is
  found for that project, and the answer counts for the project whose key is the trimmed
  text.\<close>

theorem answer_key_is_trimmed:
  assumes "answers_ok v" "trim (p_key p) \<noteq> p_key p"
    and "store_answer now v i p action scope on hosts codes vals = Inr (n, v')"
  shows "answer_for v' i (p_key p) action scope = answer_for v i (p_key p) action scope
    \<and> (\<exists>a. answer_for v' i (trim (p_key p)) action scope = Inr (Some a))"
  using store_answer_found [OF assms(1,3)] store_answer_other [OF assms(3)] assms(2) by auto

lemma answer_key_is_trimmed_witness:
  "\<exists>n v'. store_answer 5 (empty_vault [1]) 1 \<lparr>p_key = ''/w/shop '', p_label = ''shop''\<rparr>
       Change ProjectScope ''mac'' [] False True = Inr (n, v')
     \<and> answer_for v' 1 ''/w/shop '' Change ProjectScope
         = answer_for (empty_vault [1]) 1 ''/w/shop '' Change ProjectScope
     \<and> (\<exists>a. answer_for v' 1 ''/w/shop'' Change ProjectScope = Inr (Some a))"
proof -
  let ?p = "\<lparr>p_key = ''/w/shop '', p_label = ''shop''\<rparr>"
  have t: "trim ''/w/shop '' = ''/w/shop''"
    by (simp add: trim_def is_whitespace_def char_len_def byte_def chars.simps)
  have "is_ok (store_answer 5 (empty_vault [1]) 1 ?p Change ProjectScope ''mac'' [] False True)"
    by (simp add: store_answer_def to_sql_id_def i64_max_def to_sql_time_def conn_def
      require_item_def empty_vault_def checked_def trim_def is_whitespace_def is_control_def
      char_len_def byte_def Let_def MAX_PROJECT_KEY_BYTES_def MAX_PROJECT_LABEL_BYTES_def
      MAX_ANSWERED_ON_BYTES_def known_hosts_of_def find_row_def answer_key_def to_public_id_def
      chars.simps)
  then obtain n v' where v': "store_answer 5 (empty_vault [1]) 1 ?p Change ProjectScope ''mac''
      [] False True = Inr (n, v')"
    by (cases "store_answer 5 (empty_vault [1]) 1 ?p Change ProjectScope ''mac'' [] False True")
      auto
  from answer_key_is_trimmed [OF empty_answers_ok _ v'] t v' show ?thesis
    by (auto simp: t)
qed

end
