(* ===== verification/Route.thy ===== *)
theory Route
  imports Policy Exceptions Answers
begin

text \<open>
  The decision order of a run up to the model step (src/src/broker/run.rs): the facts of
  each item, the hard rules, the route of a local and of a cloud run, the answers that a
  question can take, the classification that the owner gives, and what the remembered
  answers say about a run. \<open>None\<close> of an \<open>option\<close> result is a panic of the code (an index
  outside a vector); the lemmas show that none happens for the vectors that \<open>check\<close>
  builds. The model gate is a function from the number of earlier calls to its result,
  because it can start a server.
\<close>

section \<open>Data\<close>

record project =
  pr_key :: string
  pr_label :: string
  pr_root :: string

record analysis =
  flags :: "string list"
  known_safe :: bool
  known_command :: bool
  known_write :: bool

definition DB_HOST_FLAG :: string where
  "DB_HOST_FLAG = ''db_host_from_command''"

definition FLAG_UNVERIFIED :: string where
  "FLAG_UNVERIFIED = ''hook_unverified''"

definition FLAG_AMBIGUOUS :: string where
  "FLAG_AMBIGUOUS = ''hook_ambiguous''"

datatype reason_kind = ROther | RMissingTask | RLowTaskMatch | RModelUnavailable
  | RModelTimeout | RHookFlags | RHookUnverified | RHookAmbiguous | RNotProject | RAlwaysAsk
  | RProduction | RForeignHost | RForeignProject | RMissingDeclaration | RUnfitAnswer
  | ROneTimeCode | RModelUnsure | RAccessCheck | RConnector | RBrowserFill | RCloudAgent
  | RModelAllowed | RRememberedAnswer | RRememberedPattern

datatype env_delivery = DeliverValue | DeliverPlaceholder "string list"

record env_binding =
  b_item :: nat
  b_env_name :: string
  b_field :: string
  b_delivery :: env_delivery

record provider_hosts =
  ph_env_name :: string
  ph_hosts :: "string list"

record item_facts =
  f_name :: string
  f_includes_code :: bool
  f_standing :: standing
  f_always_ask :: bool
  f_weak_source :: bool
  f_production :: bool
  f_unconfirmed :: bool
  f_foreign_project :: "string option"
  f_known_hosts :: "string list"

definition asks_always :: "item_facts \<Rightarrow> bool" where
  "asks_always f \<longleftrightarrow> f_always_ask f \<or> f_standing f = StAlwaysAsk"

record item_authorization =
  z_binding :: env_binding
  z_code_field :: "string option"
  z_includes_value :: bool
  z_revision :: nat
  z_declaration :: "cred_declaration option"
  z_sources :: declaration_sources
  z_provider :: "string option"
  z_standing :: standing
  z_always_ask :: bool
  z_host_field :: "string option"

record checked_run =
  k_agent :: nat
  k_epoch :: string
  k_vault_file :: string
  k_cwd :: string
  k_project :: "project option"
  k_project_dir :: string
  k_relative_dir :: string
  k_env_names :: "string list"
  k_placeholder_names :: "string list"
  k_declarations :: "cred_declaration option list"
  k_provider_hosts :: "provider_hosts list"
  k_authorization :: "item_authorization list"
  k_facts :: "item_facts list"

definition rechecked ::
    "checked_run \<Rightarrow> item_authorization list \<times> string \<times> project option \<times> provider_hosts list" where
  "rechecked c = (k_authorization c, k_cwd c, k_project c, k_provider_hosts c)"

record known =
  kn_answer :: "bool list"
  kn_unfit :: "string option list"

datatype route_choice = Ask string reason_kind | Answer | Pattern | Model

record run_facts =
  rf_analysis :: analysis
  rf_has_user_request :: bool
  rf_pattern :: bool
  rf_action :: action_kind
  rf_hosts :: "string list"
  rf_remote_brain :: bool

section \<open>The model gate\<close>

record readiness =
  r_known :: "(string + unit) option"
  r_calls :: nat

definition new_readiness :: readiness where
  "new_readiness = \<lparr>r_known = None, r_calls = 0\<rparr>"

definition ready_get :: "(nat \<Rightarrow> string + unit) \<Rightarrow> readiness \<Rightarrow> (string + unit) \<times> readiness" where
  "ready_get check r =
     (let r' = (case r_known r of
                  None \<Rightarrow> \<lparr>r_known = Some (check (r_calls r)), r_calls = r_calls r + 1\<rparr>
                | Some _ \<Rightarrow> r)
      in (case r_known r' of Some x \<Rightarrow> x | None \<Rightarrow> Inl ''not checked'', r'))"

section \<open>Hosts\<close>

definition host_matches :: "string \<Rightarrow> string \<Rightarrow> bool" where
  "host_matches host known \<longleftrightarrow> host = known
     \<or> (case strip_prefix known ''*.'' of
          None \<Rightarrow> False | Some domain \<Rightarrow> ends_with host (CHR ''.'' # domain))"

definition hosts_within :: "string list \<Rightarrow> string list \<Rightarrow> bool" where
  "hosts_within hosts allowed \<longleftrightarrow>
     list_all (\<lambda>host. list_ex (host_matches host) allowed) hosts"

definition knows_host :: "item_facts \<Rightarrow> string \<Rightarrow> bool" where
  "knows_host f host \<longleftrightarrow> list_ex (host_matches host) (f_known_hosts f)"

definition uncovered_host :: "item_facts list \<Rightarrow> string list \<Rightarrow> (string \<times> item_facts) option" where
  "uncovered_host fs hosts =
     find_map (\<lambda>host. map_option (Pair host) (List.find (\<lambda>f. \<not> knows_host f host) fs)) hosts"

definition db_host_from_command :: "analysis \<Rightarrow> bool" where
  "db_host_from_command a \<longleftrightarrow> list_ex ((=) DB_HOST_FLAG) (flags a)"

definition foreign_db_host :: "checked_run \<Rightarrow> run_facts \<Rightarrow> (string \<times> string) option" where
  "foreign_db_host c run =
     (if \<not> db_host_from_command (rf_analysis run) then None
      else map_option (\<lambda>(host, f). (host, f_name f)) (uncovered_host (k_facts c) (rf_hosts run)))"

text \<open>The step of \<open>run\<close> before routing: hosts that every item knows settle the database flag.\<close>

definition settle_db_host :: "item_facts list \<Rightarrow> string list \<Rightarrow> analysis \<Rightarrow> analysis" where
  "settle_db_host fs hosts a =
     (if db_host_from_command a \<and> uncovered_host fs hosts = None
      then a\<lparr>flags := filter (\<lambda>f. f \<noteq> DB_HOST_FLAG) (flags a)\<rparr> else a)"

section \<open>The hard rules\<close>

definition production_and_read_only :: "checked_run \<Rightarrow> nat \<Rightarrow> bool \<times> bool" where
  "production_and_read_only c index =
     (let declaration = Option.bind (get (k_declarations c) index) id;
          production = (case get (k_facts c) index of None \<Rightarrow> False | Some f \<Rightarrow> f_production f)
            \<or> (case declaration of None \<Rightarrow> False | Some d \<Rightarrow> is_production d);
          read_only = (case declaration of None \<Rightarrow> False | Some d \<Rightarrow> d_scope d = ReadOnly)
      in (production, read_only))"

definition flag_rules :: "run_facts \<Rightarrow> (string \<times> reason_kind) list" where
  "flag_rules run =
     (let fl = flags (rf_analysis run)
      in if fl = [] then []
         else [(''Rule flags: '' @ join_with '', '' fl @ ''.'',
                if FLAG_UNVERIFIED \<in> set fl then RHookUnverified
                else if FLAG_AMBIGUOUS \<in> set fl then RHookAmbiguous
                else RHookFlags)])"

definition task_rules :: "run_facts \<Rightarrow> (string \<times> reason_kind) list" where
  "task_rules run =
     (if rf_has_user_request run then []
      else [(''The agent did not send the user request.'', RMissingTask)])"

definition db_rules :: "checked_run \<Rightarrow> run_facts \<Rightarrow> (string \<times> reason_kind) list" where
  "db_rules c run = (case foreign_db_host c run of
       None \<Rightarrow> []
     | Some (host, name) \<Rightarrow>
         [(''The command connects to the database host '' @ host @ '', which is not a host of ''
           @ quote name @ ''.'', RForeignHost)])"

definition answered :: "known \<Rightarrow> nat \<Rightarrow> bool" where
  "answered known index = (case get (kn_answer known) index of None \<Rightarrow> False | Some b \<Rightarrow> b)"

definition unfit_of :: "known \<Rightarrow> nat \<Rightarrow> string option" where
  "unfit_of known index = Option.bind (get (kn_unfit known) index) id"

definition declared_production :: "checked_run \<Rightarrow> nat \<Rightarrow> bool" where
  "declared_production c index =
     (case Option.bind (get (k_declarations c) index) id of
        None \<Rightarrow> False | Some d \<Rightarrow> is_production d)"

definition code_rules ::
    "checked_run \<Rightarrow> known \<Rightarrow> nat \<Rightarrow> item_facts \<Rightarrow> (string \<times> reason_kind) list" where
  "code_rules c known index f =
     (if f_includes_code f
         \<and> (f_production f \<or> declared_production c index \<or> \<not> answered known index)
      then [(quote (f_name f) @ '' includes a one-time code: only an explicit owner project ''
             @ ''answer covering codes can skip this question.'', ROneTimeCode)]
      else [])"

definition production_rules ::
    "checked_run \<Rightarrow> run_facts \<Rightarrow> known \<Rightarrow> string \<Rightarrow> nat \<Rightarrow> item_facts \<Rightarrow> (string \<times> reason_kind) list" where
  "production_rules c run known place index f =
     (let (production, read_only) = production_and_read_only c index
      in if production \<and> read_only \<and> rf_remote_brain run then
           [(quote (f_name f) @ '' is a production credential and the bouncer brain runs on ''
             @ ''another host: you approve each run in '' @ place @ '': ''
             @ action_words (rf_action run) @ ''.'', RProduction)]
         else if production \<and> \<not> read_only then
           [(quote (f_name f) @ '' is a production credential with write or admin scope: ''
             @ ''you approve each run in '' @ place @ '': '' @ action_words (rf_action run) @ ''.''
             @ (case unfit_of known index of
                  None \<Rightarrow> []
                | Some u \<Rightarrow> '' The allowance does not cover this run: '' @ u @ ''.''),
             RProduction)]
         else [])"

definition always_ask_rules :: "item_facts \<Rightarrow> (string \<times> reason_kind) list" where
  "always_ask_rules f =
     (if f_standing f = StAlwaysAsk
      then [(quote (f_name f) @ '' is set to always ask for this agent.'', RAlwaysAsk)]
      else if f_always_ask f
      then [(quote (f_name f) @ '' is set to always ask.'', RAlwaysAsk)]
      else [])"

definition item_rules ::
    "checked_run \<Rightarrow> run_facts \<Rightarrow> known \<Rightarrow> string \<Rightarrow> nat \<times> item_facts \<Rightarrow> (string \<times> reason_kind) list" where
  "item_rules c run known place = (\<lambda>(index, f).
     code_rules c known index f @ production_rules c run known place index f
     @ always_ask_rules f)"

definition hard_rules ::
    "checked_run \<Rightarrow> run_facts \<Rightarrow> known \<Rightarrow> string \<Rightarrow> (string \<times> reason_kind) list" where
  "hard_rules c run known place =
     flag_rules run @ task_rules run @ db_rules c run
     @ concat (map (item_rules c run known place) (List.enumerate 0 (k_facts c)))"

section \<open>The route\<close>

definition place_of :: "checked_run \<Rightarrow> string" where
  "place_of c = (case k_project c of None \<Rightarrow> ''this folder'' | Some p \<Rightarrow> quote (pr_label p))"

definition production_declared :: "checked_run \<Rightarrow> bool" where
  "production_declared c \<longleftrightarrow>
     list_ex (\<lambda>d. case d of None \<Rightarrow> False | Some x \<Rightarrow> is_production x) (k_declarations c)"

definition unfit_question :: "checked_run \<Rightarrow> run_facts \<Rightarrow> known \<Rightarrow> route_choice option" where
  "unfit_question c run known =
     find_map (\<lambda>(index, f). map_option (\<lambda>u.
         Ask (''Your answer for '' @ quote (f_name f) @ '' in '' @ place_of c @ '' for ''
              @ action_words (rf_action run) @ '' does not cover this run: '' @ u @ ''.'')
             RUnfitAnswer) (unfit_of known index))
       (List.enumerate 0 (k_facts c))"

definition host_question :: "checked_run \<Rightarrow> run_facts \<Rightarrow> known \<Rightarrow> route_choice option" where
  "host_question c run known =
     find_map (\<lambda>(index, f).
         if answered known index then None
         else map_option (\<lambda>host.
           Ask (''The command goes to another host, '' @ host @ '', which is not a host of ''
                @ quote (f_name f)
                @ ''. You decide whether it may use this credential there.'') RForeignHost)
             (List.find (\<lambda>host. \<not> knows_host f host) (rf_hosts run)))
       (List.enumerate 0 (k_facts c))"

definition project_question :: "checked_run \<Rightarrow> known \<Rightarrow> route_choice option" where
  "project_question c known =
     find_map (\<lambda>(index, f). case f_foreign_project f of
           None \<Rightarrow> None
         | Some declared \<Rightarrow>
             if answered known index then None
             else Some (Ask (quote (f_name f) @ '' is declared for the project ''
                  @ quote declared @ '', not for '' @ place_of c @ ''.'') RForeignProject))
       (List.enumerate 0 (k_facts c))"

text \<open>The order after the hard rules, the gate and the missing declarations.\<close>

definition route_known :: "checked_run \<Rightarrow> run_facts \<Rightarrow> known \<Rightarrow> route_choice" where
  "route_known c run known =
     (if \<not> production_declared c \<and> kn_answer known \<noteq> [] \<and> list_all id (kn_answer known)
      then Answer
      else case unfit_question c run known of Some r \<Rightarrow> r
      | None \<Rightarrow> (case host_question c run known of Some r \<Rightarrow> r
      | None \<Rightarrow> (case project_question c known of Some r \<Rightarrow> r
      | None \<Rightarrow> if rf_pattern run \<and> \<not> production_declared c then Pattern else Model)))"

definition route ::
    "checked_run \<Rightarrow> run_facts \<Rightarrow> known \<Rightarrow> (nat \<Rightarrow> string + unit) \<Rightarrow> readiness \<Rightarrow>
     (route_choice \<times> readiness) option" where
  "route c run known check ready =
     (case hard_rules c run known (place_of c) of
        (note, reason) # why \<Rightarrow>
          Some (Ask (join_with '' '' (map fst ((note, reason) # why))) reason, ready)
      | [] \<Rightarrow>
          (case ready_get check ready of
             (Inl reason, ready') \<Rightarrow>
               Some (Ask (''No bouncer runs, so each run waits for you: '' @ reason)
                 RModelUnavailable, ready')
           | (Inr _, ready') \<Rightarrow>
               if k_project c = None then
                 Some (Ask (''The folder is not a project (the root, the home folder, or a ''
                   @ ''parent of it), so Apassy remembers nothing there.'') RNotProject, ready')
               else (case position (\<lambda>d. d = None) (k_declarations c) of
                   Some index \<Rightarrow>
                     map_option (\<lambda>f.
                       (Ask (quote (f_name f) @ '' has no declaration.'') RMissingDeclaration,
                        ready')) (get (k_facts c) index)
                 | None \<Rightarrow> Some (route_known c run known, ready'))))"

definition CLOUD_ASK :: string where
  "CLOUD_ASK = ''A cloud agent asks to run this through the node of this Mac. Every cloud run ''
     @ ''waits for you, and Apassy remembers nothing for it.''"

definition CLOUD_PLACE :: string where
  "CLOUD_PLACE = ''the cloud''"

definition cloud_route :: "checked_run \<Rightarrow> run_facts \<Rightarrow> known \<Rightarrow> route_choice" where
  "cloud_route c run known =
     Ask (CLOUD_ASK @ concat (map (\<lambda>(note, _). '' '' @ note) (hard_rules c run known CLOUD_PLACE)))
       RCloudAgent"

section \<open>The answers that a question can take\<close>

datatype answer_kind = Once | InProject action_kind | ProductionAnswer action_kind
  | NeverForAgent | AlwaysAskForAgent | Disconnect | CorrectEnvironment

text \<open>The inner \<open>None\<close> is "not found", the outer one an index outside \<open>declarations\<close>.\<close>

definition item_unconfirmed :: "checked_run \<Rightarrow> nat \<Rightarrow> bool option" where
  "item_unconfirmed c index =
     (case get (k_facts c) index of
        None \<Rightarrow> None
      | Some f \<Rightarrow> if f_unconfirmed f then Some True
                  else map_option (\<lambda>d. d = None) (get (k_declarations c) index))"

fun find_unconfirmed :: "checked_run \<Rightarrow> nat list \<Rightarrow> nat option option" where
  "find_unconfirmed c [] = Some None"
| "find_unconfirmed c (i # is) =
     (case item_unconfirmed c i of
        None \<Rightarrow> None
      | Some True \<Rightarrow> Some (Some i)
      | Some False \<Rightarrow> find_unconfirmed c is)"

definition first_unconfirmed :: "checked_run \<Rightarrow> nat option option" where
  "first_unconfirmed c = find_unconfirmed c [0..<length (k_facts c)]"

definition sure_of_action :: "checked_run \<Rightarrow> run_facts \<Rightarrow> action_kind option \<Rightarrow> bool" where
  "sure_of_action c run certain \<longleftrightarrow> certain = Some (rf_action run)
     \<or> list_all (\<lambda>f. \<not> f_production f \<and> \<not> f_unconfirmed f) (k_facts c)"

definition can_remember_now :: "checked_run \<Rightarrow> run_facts \<Rightarrow> action_kind option \<Rightarrow> bool" where
  "can_remember_now c run certain \<longleftrightarrow>
     k_project c \<noteq> None \<and> rf_has_user_request run
     \<and> list_all (\<lambda>d. d \<noteq> None) (k_declarations c) \<and> flags (rf_analysis run) = []
     \<and> foreign_db_host c run = None \<and> list_all (\<lambda>f. \<not> f_always_ask f) (k_facts c)
     \<and> sure_of_action c run certain"

definition production_asks :: "checked_run \<Rightarrow> run_facts \<Rightarrow> bool" where
  "production_asks c run \<longleftrightarrow> list_ex (\<lambda>index.
     let (production, read_only) = production_and_read_only c index
     in production \<and> (\<not> read_only \<or> rf_remote_brain run)) [0..<length (k_facts c)]"

definition valid_answers ::
    "checked_run \<Rightarrow> run_facts \<Rightarrow> action_kind option \<Rightarrow> bool \<Rightarrow> (nat \<Rightarrow> string + unit) \<Rightarrow>
     readiness \<Rightarrow> (answer_kind list \<times> readiness) option" where
  "valid_answers c run certain production_waiting check ready =
     (let (can_remember, ready') =
            (if can_remember_now c run certain
             then (case ready_get check ready of (r, ready') \<Rightarrow> (is_ok r, ready'))
             else (False, ready));
          asks = production_asks c run;
          saves_nothing = (asks \<and> list_all f_production (k_facts c));
          remembered =
            (if can_remember \<and> \<not> production_waiting \<and> \<not> saves_nothing
             then [InProject (rf_action run)]
             else if can_remember \<and> production_waiting \<and> \<not> asks
             then [ProductionAnswer (rf_action run)]
             else [])
      in case first_unconfirmed c of
           None \<Rightarrow> None
         | Some i \<Rightarrow> Some ([Once, NeverForAgent, AlwaysAskForAgent, Disconnect] @ remembered
             @ (if i = None then [] else [CorrectEnvironment]), ready'))"

section \<open>The classification of the owner\<close>

definition classified_index :: "checked_run \<Rightarrow> nat list \<Rightarrow> nat \<Rightarrow> nat option option" where
  "classified_index c items item_id =
     (case position (\<lambda>i. i = item_id) items of
        None \<Rightarrow> Some None
      | Some index \<Rightarrow>
          map_option (\<lambda>first. if first = Some index then Some index else None)
            (first_unconfirmed c))"

definition save_classification ::
    "int \<Rightarrow> vault \<Rightarrow> checked_run \<Rightarrow> nat list \<Rightarrow> environment \<times> nat \<Rightarrow> (bool \<times> vault) option" where
  "save_classification now v c items = (\<lambda>(e, item_id).
     map_option (\<lambda>found. case found of
         None \<Rightarrow> (False, v)
       | Some index \<Rightarrow>
           (case set_declaration_environment now v (items ! index) e of
              Inl _ \<Rightarrow> (False, v)
            | Inr v' \<Rightarrow> (True, v')))
       (classified_index c items item_id))"

section \<open>What the owner said before\<close>

definition known_nothing :: "nat \<Rightarrow> known" where
  "known_nothing n = \<lparr>kn_answer = replicate n False, kn_unfit = replicate n None\<rparr>"

definition scope_for :: "item_facts \<Rightarrow> answer_scope" where
  "scope_for f = (if f_production f then ProductionScope else ProjectScope)"

text \<open>Why an answer does not fit; the outer \<open>None\<close> is an index outside \<open>authorization\<close>.\<close>

definition unfit_reason ::
    "checked_run \<Rightarrow> nat \<Rightarrow> item_facts \<Rightarrow> action_kind \<Rightarrow> action_kind option \<Rightarrow> string list \<Rightarrow>
     owner_answer \<Rightarrow> string option option" where
  "unfit_reason c index f action certain hosts a =
     map_option (\<lambda>z.
       if z_includes_value z \<and> \<not> o_values a
       then Some ''the earlier answer covers codes only, not the stored secret''
       else if f_includes_code f \<and> \<not> o_codes a
       then Some ''the earlier answer does not include one-time codes''
       else if (f_production f \<or> f_unconfirmed f) \<and> certain \<noteq> Some action
       then Some ''the rules are not certain of the kind of action''
       else if \<not> hosts_within hosts (o_hosts a @ f_known_hosts f)
       then Some ''the command goes to another host''
       else None) (get (k_authorization c) index)"

definition read_answer ::
    "vault \<Rightarrow> nat \<Rightarrow> string \<Rightarrow> action_kind \<Rightarrow> answer_scope \<Rightarrow> owner_answer option" where
  "read_answer v item key action scope =
     (case answer_for v item key action scope of Inl _ \<Rightarrow> None | Inr a \<Rightarrow> a)"

definition item_state ::
    "vault \<Rightarrow> checked_run \<Rightarrow> project \<Rightarrow> action_kind \<Rightarrow> action_kind option \<Rightarrow> string list \<Rightarrow>
     nat \<Rightarrow> nat \<Rightarrow> item_facts \<Rightarrow> (bool \<times> string option) option" where
  "item_state v c p action certain hosts index item f =
     (case read_answer v item (pr_key p) action (scope_for f) of
        None \<Rightarrow> Some (False, None)
      | Some a \<Rightarrow> map_option (\<lambda>u. (u = None, u)) (unfit_reason c index f action certain hosts a))"

fun known_items ::
    "vault \<Rightarrow> checked_run \<Rightarrow> project \<Rightarrow> action_kind \<Rightarrow> action_kind option \<Rightarrow> string list \<Rightarrow>
     nat \<Rightarrow> (nat \<times> item_facts) list \<Rightarrow> known option" where
  "known_items v c p action certain hosts index [] = Some \<lparr>kn_answer = [], kn_unfit = []\<rparr>"
| "known_items v c p action certain hosts index ((item, f) # rest) =
     (case item_state v c p action certain hosts index item f of
        None \<Rightarrow> None
      | Some (fits, u) \<Rightarrow>
          map_option (\<lambda>k. \<lparr>kn_answer = fits # kn_answer k, kn_unfit = u # kn_unfit k\<rparr>)
            (known_items v c p action certain hosts (index + 1) rest))"

definition known_state ::
    "vault \<Rightarrow> nat list \<Rightarrow> checked_run \<Rightarrow> action_kind \<Rightarrow> action_kind option \<Rightarrow> string list \<Rightarrow>
     known option" where
  "known_state v items c action certain hosts =
     (case k_project c of
        None \<Rightarrow> Some (known_nothing (length items))
      | Some p \<Rightarrow> known_items v c p action certain hosts 0 (zip items (k_facts c)))"

section \<open>Saving an answer\<close>

definition ANSWERED_ON_MAC :: string where
  "ANSWERED_ON_MAC = ''this Mac''"

record answer_choice =
  ch_project :: project
  ch_action :: action_kind
  ch_production :: bool

text \<open>The write for one item: \<open>None\<close> is a panic, an inner \<open>None\<close> an item that is skipped.\<close>

definition save_item ::
    "nat \<Rightarrow> vault \<Rightarrow> checked_run \<Rightarrow> answer_choice \<Rightarrow> project_ref \<Rightarrow> string \<Rightarrow> string list \<Rightarrow>
     nat \<Rightarrow> nat \<Rightarrow> item_facts \<Rightarrow> (verr + (nat \<times> vault)) option option" where
  "save_item now v c choice p on hosts index item f =
     (let covered = hosts @ f_known_hosts f
      in if f_production f then
           if \<not> ch_production choice then Some None
           else if f_includes_code f then
             map_option (\<lambda>z. Some (store_answer now v item p (ch_action choice) ProductionScope on
                 covered True (z_includes_value z))) (get (k_authorization c) index)
           else Some (Some (allow_production now v item p (ch_action choice) on covered))
         else if f_includes_code f then
           map_option (\<lambda>z. Some (store_answer now v item p (ch_action choice) ProjectScope on
               covered True (z_includes_value z))) (get (k_authorization c) index)
         else Some (Some (remember_answer now v item p (ch_action choice) on covered)))"

fun save_items ::
    "nat \<Rightarrow> vault \<Rightarrow> checked_run \<Rightarrow> answer_choice \<Rightarrow> project_ref \<Rightarrow> string \<Rightarrow> string list \<Rightarrow>
     nat \<Rightarrow> (nat \<times> item_facts) list \<Rightarrow> (nat \<times> vault) option" where
  "save_items now v c choice p on hosts index [] = Some (0, v)"
| "save_items now v c choice p on hosts index ((item, f) # rest) =
     (case save_item now v c choice p on hosts index item f of
        None \<Rightarrow> None
      | Some (Some (Inr (_, v'))) \<Rightarrow>
          map_option (\<lambda>(n, w). (n + 1, w))
            (save_items now v' c choice p on hosts (index + 1) rest)
      | Some _ \<Rightarrow> save_items now v c choice p on hosts (index + 1) rest)"

definition save_answer ::
    "nat \<Rightarrow> vault \<Rightarrow> checked_run \<Rightarrow> nat list \<Rightarrow> answer_choice \<Rightarrow> string \<Rightarrow> string list \<Rightarrow>
     (string + (nat \<times> vault)) option" where
  "save_answer now v c items choice answered_on hosts =
     (if k_project c \<noteq> Some (ch_project choice)
      then Some (Inl (''The project changed while Apassy checked this run. Nothing was saved. ''
             @ ''The command did not run.''))
      else map_option Inr
        (save_items now v c choice
           \<lparr>p_key = pr_key (ch_project choice), p_label = pr_label (ch_project choice)\<rparr>
           (if answered_on = [] then ANSWERED_ON_MAC else answered_on) hosts 0
           (zip items (k_facts c))))"

section \<open>The facts of an item\<close>

definition project_words :: "string \<Rightarrow> string" where
  "project_words t = map ascii_lower (filter is_ascii_alphanumeric t)"

text \<open>\<open>Path::file_name\<close>: the last normal component.\<close>

definition file_name :: "string \<Rightarrow> string option" where
  "file_name path =
     (let parts = filter (\<lambda>p. p \<noteq> [] \<and> p \<noteq> ''.'') (split_on (CHR ''/'') path)
      in if parts = [] \<or> last parts = ''..'' then None else Some (last parts))"

text \<open>\<open>canonical\<close> is the file system: the canonical path of an existing directory.\<close>

definition foreign_project ::
    "(string \<Rightarrow> string option) \<Rightarrow> string \<Rightarrow> project option \<Rightarrow> string option" where
  "foreign_project canonical declared_text project_opt =
     (let declared = trim declared_text
      in case project_opt of
           None \<Rightarrow> None
         | Some p \<Rightarrow>
             if declared = [] then None
             else if starts_with declared ''/'' then
               (let fits = (case canonical declared of
                              None \<Rightarrow> False | Some dir \<Rightarrow> dir = pr_root p \<or> dir = pr_key p)
                in if fits then None else Some declared)
             else
               (let wanted = project_words declared;
                    root_name = (case file_name (pr_root p) of None \<Rightarrow> [] | Some n \<Rightarrow> n);
                    fits = (wanted \<noteq> [] \<and>
                      list_ex (\<lambda>name. project_words name = wanted) [pr_label p, root_name])
                in if fits then None else Some declared))"

definition facts_of ::
    "(string \<Rightarrow> string option) \<Rightarrow> string \<Rightarrow> bool \<Rightarrow> standing \<Rightarrow> bool \<Rightarrow> cred_declaration option \<Rightarrow>
     declaration_sources \<Rightarrow> project option \<Rightarrow> string list \<Rightarrow> string option \<Rightarrow> item_facts" where
  "facts_of canonical title includes_code st always declaration sources project_opt hosts host_field =
     (let is_prod = (case declaration of None \<Rightarrow> False | Some d \<Rightarrow> is_production d);
          unconfirmed = (is_prod \<and> s_environment sources = Default)
      in \<lparr>f_name = (if includes_code then title @ '' (includes one-time code)'' else title),
          f_includes_code = includes_code, f_standing = st, f_always_ask = always,
          f_weak_source = weak sources declaration,
          f_production = (is_prod \<and> \<not> unconfirmed), f_unconfirmed = unconfirmed,
          f_foreign_project = Option.bind declaration
            (\<lambda>d. foreign_project canonical (d_project d) project_opt),
          f_known_hosts = sort_dedup (hosts @ (case host_field of None \<Rightarrow> [] | Some h \<Rightarrow> [h]))\<rparr>)"

section \<open>Lemmas\<close>

definition checked_ok :: "checked_run \<Rightarrow> bool" where
  "checked_ok c \<longleftrightarrow> length (k_declarations c) = length (k_facts c)
     \<and> length (k_authorization c) = length (k_facts c)"

definition known_ok :: "checked_run \<Rightarrow> known \<Rightarrow> bool" where
  "known_ok c k \<longleftrightarrow> length (kn_answer k) = length (k_facts c)
     \<and> length (kn_unfit k) = length (k_facts c)
     \<and> list_all (\<lambda>i. \<not> (answered k i \<and> unfit_of k i \<noteq> None)) [0..<length (k_facts c)]"

definition is_ask :: "route_choice \<Rightarrow> bool" where
  "is_ask r = (case r of Ask _ _ \<Rightarrow> True | _ \<Rightarrow> False)"

lemma is_ask_simps [simp]:
  "is_ask (Ask s k)" "\<not> is_ask Answer" "\<not> is_ask Pattern" "\<not> is_ask Model"
  by (simp_all add: is_ask_def)

lemma enumerate_mem: "(i, x) \<in> set (List.enumerate 0 xs) \<longleftrightarrow> i < length xs \<and> xs ! i = x"
  by (auto simp: in_set_enumerate_eq)

lemma find_map_enumerate_None:
  "find_map (\<lambda>(i, x). g i x) (List.enumerate 0 xs) = None
     \<longleftrightarrow> (\<forall>i<length xs. g i (xs ! i) = None)"
  by (simp add: find_map_None Ball_def split_paired_All enumerate_mem)

lemma find_map_Ask:
  assumes "find_map g xs = Some r" "\<And>x r. x \<in> set xs \<Longrightarrow> g x = Some r \<Longrightarrow> is_ask r"
  shows "is_ask r"
  using find_map_Some [OF assms(1)] assms(2) by blast

lemma question_is_ask:
  "unfit_question c run known = Some r \<Longrightarrow> is_ask r"
  "host_question c run known = Some r \<Longrightarrow> is_ask r"
  "project_question c known = Some r \<Longrightarrow> is_ask r"
  unfolding unfit_question_def host_question_def project_question_def
  by (auto elim!: find_map_Ask split: option.splits if_splits)

lemma unfit_question_None:
  "unfit_question c run known = None \<longleftrightarrow> (\<forall>i<length (k_facts c). unfit_of known i = None)"
  by (simp add: unfit_question_def find_map_enumerate_None)

lemma host_question_None:
  "host_question c run known = None \<longleftrightarrow>
     (\<forall>i<length (k_facts c). answered known i
        \<or> (\<forall>h\<in>set (rf_hosts run). knows_host (k_facts c ! i) h))"
  by (auto simp: host_question_def find_map_enumerate_None find_None_iff)

lemma project_question_None:
  "project_question c known = None \<longleftrightarrow>
     (\<forall>i<length (k_facts c). answered known i \<or> f_foreign_project (k_facts c ! i) = None)"
  by (auto simp: project_question_def find_map_enumerate_None split: option.splits if_splits)

lemma hard_rules_Nil:
  "hard_rules c run known place = [] \<longleftrightarrow>
     flags (rf_analysis run) = [] \<and> rf_has_user_request run \<and> foreign_db_host c run = None
     \<and> (\<forall>i<length (k_facts c). item_rules c run known place (i, k_facts c ! i) = [])"
  by (auto simp: hard_rules_def flag_rules_def task_rules_def db_rules_def Let_def enumerate_mem
    split: option.splits)

lemma no_flags_no_db: "flags (rf_analysis run) = [] \<Longrightarrow> foreign_db_host c run = None"
  by (simp add: foreign_db_host_def db_host_from_command_def)

text \<open>The declared and the remembered facts of one item, as the policy states them.\<close>

definition production_item :: "checked_run \<Rightarrow> nat \<Rightarrow> bool" where
  "production_item c i \<longleftrightarrow> fst (production_and_read_only c i)"

definition read_only_item :: "checked_run \<Rightarrow> nat \<Rightarrow> bool" where
  "read_only_item c i \<longleftrightarrow> snd (production_and_read_only c i)"

lemma production_item_iff:
  "i < length (k_facts c) \<Longrightarrow>
     production_item c i \<longleftrightarrow> f_production (k_facts c ! i) \<or> declared_production c i"
  by (simp add: production_item_def production_and_read_only_def declared_production_def Let_def
    get_def split: option.splits)

lemma item_rules_Nil:
  assumes "i < length (k_facts c)"
  shows "item_rules c run known place (i, k_facts c ! i) = [] \<longleftrightarrow>
     \<not> asks_always (k_facts c ! i)
     \<and> (production_item c i \<longrightarrow> read_only_item c i \<and> \<not> rf_remote_brain run)
     \<and> (f_includes_code (k_facts c ! i) \<longrightarrow> answered known i \<and> \<not> production_item c i)"
  using production_item_iff [OF assms]
  by (cases "production_and_read_only c i")
    (auto simp: item_rules_def code_rules_def production_rules_def always_ask_rules_def
      asks_always_def production_item_def read_only_item_def)

section \<open>The policy of a start without the owner\<close>

definition item_clear :: "checked_run \<Rightarrow> run_facts \<Rightarrow> known \<Rightarrow> nat \<Rightarrow> bool" where
  "item_clear c run known i \<longleftrightarrow>
     (let f = k_facts c ! i; yes = answered known i
      in \<not> asks_always f
       \<and> (production_item c i \<longrightarrow> read_only_item c i \<and> \<not> rf_remote_brain run)
       \<and> (f_includes_code f \<longrightarrow> yes \<and> \<not> production_item c i)
       \<and> unfit_of known i = None
       \<and> (yes \<or> list_all (knows_host f) (rf_hosts run))
       \<and> (yes \<or> f_foreign_project f = None))"

definition may_start ::
    "checked_run \<Rightarrow> run_facts \<Rightarrow> known \<Rightarrow> (string + unit) \<Rightarrow> bool" where
  "may_start c run known gate \<longleftrightarrow>
     flags (rf_analysis run) = [] \<and> rf_has_user_request run \<and> is_ok gate
     \<and> k_project c \<noteq> None \<and> list_all (\<lambda>d. d \<noteq> None) (k_declarations c)
     \<and> list_all (item_clear c run known) [0..<length (k_facts c)]"

lemma all_answered:
  assumes "known_ok c known" "list_all id (kn_answer known)" "i < length (k_facts c)"
  shows "answered known i \<and> unfit_of known i = None"
proof -
  have "answered known i"
    using assms by (simp add: known_ok_def answered_def get_def list_all_length)
  then show ?thesis
    using assms by (auto simp: known_ok_def list_all_iff)
qed

lemma route_known_asks:
  assumes "known_ok c known"
  shows "is_ask (route_known c run known) \<longleftrightarrow>
    \<not> (\<forall>i<length (k_facts c). unfit_of known i = None
       \<and> (answered known i \<or> list_all (knows_host (k_facts c ! i)) (rf_hosts run))
       \<and> (answered known i \<or> f_foreign_project (k_facts c ! i) = None))"
proof (cases "\<not> production_declared c \<and> kn_answer known \<noteq> [] \<and> list_all id (kn_answer known)")
  case True
  then show ?thesis
    using all_answered [OF assms] by (auto simp: route_known_def)
next
  case False
  then have *: "route_known c run known =
      (case unfit_question c run known of Some r \<Rightarrow> r
      | None \<Rightarrow> (case host_question c run known of Some r \<Rightarrow> r
      | None \<Rightarrow> (case project_question c known of Some r \<Rightarrow> r
      | None \<Rightarrow> if rf_pattern run \<and> \<not> production_declared c then Pattern else Model)))"
    by (simp only: route_known_def if_False)
  have "is_ask (route_known c run known) \<longleftrightarrow>
      \<not> (unfit_question c run known = None \<and> host_question c run known = None
         \<and> project_question c known = None)"
    unfolding *
    by (simp add: question_is_ask split: option.split)
  then show ?thesis
    unfolding unfit_question_None host_question_None project_question_None list_all_iff by metis
qed

lemma ready_get_result:
  "r_known ready = None \<Longrightarrow> ready_get check ready =
     (check (r_calls ready), \<lparr>r_known = Some (check (r_calls ready)), r_calls = Suc (r_calls ready)\<rparr>)"
  by (simp add: ready_get_def Let_def)

lemma ready_get_known: "r_known ready = Some x \<Longrightarrow> ready_get check ready = (x, ready)"
  by (simp add: ready_get_def Let_def)

lemma route_eq:
  assumes "checked_ok c" and fresh: "r_known ready = None"
  shows "route c run known check ready =
    (if hard_rules c run known (place_of c) \<noteq> []
     then Some (Ask (join_with '' '' (map fst (hard_rules c run known (place_of c))))
                  (snd (hd (hard_rules c run known (place_of c)))), ready)
     else case check (r_calls ready) of
       Inl reason \<Rightarrow> Some (Ask (''No bouncer runs, so each run waits for you: '' @ reason)
                  RModelUnavailable, snd (ready_get check ready))
     | Inr _ \<Rightarrow>
        if k_project c = None
        then Some (Ask (''The folder is not a project (the root, the home folder, or a ''
                   @ ''parent of it), so Apassy remembers nothing there.'') RNotProject,
                snd (ready_get check ready))
        else case position (\<lambda>d. d = None) (k_declarations c) of
            Some i \<Rightarrow> Some (Ask (quote (f_name (k_facts c ! i)) @ '' has no declaration.'')
                        RMissingDeclaration, snd (ready_get check ready))
          | None \<Rightarrow> Some (route_known c run known, snd (ready_get check ready)))"
proof -
  have "i < length (k_facts c)" if "position (\<lambda>d. d = None) (k_declarations c) = Some i" for i
    using that assms(1) by (simp add: position_Some checked_ok_def)
  then show ?thesis
    using fresh
    by (cases "hard_rules c run known (place_of c)"; cases "check (r_calls ready)";
        cases "position (\<lambda>d. d = None) (k_declarations c)")
       (auto simp: route_def ready_get_result get_def)
qed

lemma route_total:
  assumes "checked_ok c" "r_known ready = None"
  shows "\<exists>r ready'. route c run known check ready = Some (r, ready')"
  unfolding route_eq [OF assms] by (simp split: sum.split option.split)

lemma valid_answers_total:
  "first_unconfirmed c = Some i \<Longrightarrow>
     \<exists>answers r. valid_answers c run certain waiting check ready = Some (answers, r)"
  by (simp add: valid_answers_def Let_def split: prod.split)

lemma route_cases_start:
  assumes "checked_ok c" "known_ok c known" "r_known ready = None"
    and "may_start c run known (check (r_calls ready))"
  shows "\<exists>ready'. route c run known check ready =
    Some (if \<not> production_declared c \<and> k_facts c \<noteq> [] \<and> list_all id (kn_answer known) then Answer
          else if rf_pattern run \<and> \<not> production_declared c then Pattern
          else Model, ready')"
proof -
  have "item_rules c run known (place_of c) (i, k_facts c ! i) = []" if "i < length (k_facts c)" for i
    unfolding item_rules_Nil [OF that]
    using assms(4) that by (auto simp: may_start_def item_clear_def list_all_iff Let_def)
  then have "hard_rules c run known (place_of c) = []"
    using assms(4) no_flags_no_db by (simp add: hard_rules_Nil may_start_def)
  moreover have "position (\<lambda>d. d = None) (k_declarations c) = None"
    using assms(4) by (auto simp: may_start_def list_all_iff position_None)
  moreover have "kn_answer known \<noteq> [] \<longleftrightarrow> k_facts c \<noteq> []"
    using assms(2) by (auto simp: known_ok_def)
  moreover have "unfit_question c run known = None" "host_question c run known = None"
    "project_question c known = None"
    using assms(4)
    unfolding unfit_question_None host_question_None project_question_None
    by (auto simp: may_start_def item_clear_def list_all_iff Let_def)
  moreover obtain u where "check (r_calls ready) = Inr u" "k_project c \<noteq> None"
    using assms(4) by (cases "check (r_calls ready)") (auto simp: may_start_def)
  ultimately show ?thesis
    unfolding route_eq [OF assms(1,3)] by (simp add: route_known_def)
qed

section \<open>Properties\<close>

text \<open>C1: The decision order is exactly the stated policy: for the vectors that the check builds
  and for consistent remembered answers, the route never panics, and it lets the run go on
  without the owner (by a remembered answer, a remembered pattern or the model step) if
  and only if no rule flag is raised, the agent sent the user request, the model gate
  answers, the folder is a project, every item is declared, and every item is clear: it
  does not always ask, a production item is read-only and judged by a local brain, an item
  with a one-time code is covered by an answer and is not production, no earlier answer is
  unfit, and every destination host and the project belong to the item or are covered by
  an answer for that very item.\<close>

theorem route_starts_iff_policy:
  assumes "checked_ok c" "known_ok c known" "r_known ready = None"
  shows "\<exists>r ready'. route c run known check ready = Some (r, ready')
    \<and> (\<not> is_ask r \<longleftrightarrow> may_start c run known (check (r_calls ready)))"
proof -
  have items: "list_all (item_clear c run known) [0..<length (k_facts c)] \<longleftrightarrow>
     (\<forall>i<length (k_facts c). item_rules c run known (place_of c) (i, k_facts c ! i) = [])
     \<and> \<not> is_ask (route_known c run known)"
    unfolding route_known_asks [OF assms(2)] list_all_iff
    by (auto simp: item_rules_Nil item_clear_def Let_def list_all_iff)
  have hard: "hard_rules c run known (place_of c) = [] \<longleftrightarrow> flags (rf_analysis run) = []
     \<and> rf_has_user_request run
     \<and> (\<forall>i<length (k_facts c). item_rules c run known (place_of c) (i, k_facts c ! i) = [])"
    using no_flags_no_db by (auto simp: hard_rules_Nil)
  have decl: "position (\<lambda>d. d = None) (k_declarations c) = None \<longleftrightarrow>
      list_all (\<lambda>d. d \<noteq> None) (k_declarations c)"
    unfolding position_None list_all_iff by blast
  show ?thesis
    unfolding route_eq [OF assms(1,3)] may_start_def items decl [symmetric]
    by (cases "hard_rules c run known (place_of c) = []"; cases "check (r_calls ready)";
        cases "position (\<lambda>d. d = None) (k_declarations c)")
       (auto simp: hard)
qed

text \<open>The run of the examples: one development item of the project "shop" with the known host
  api.example.com, and a command that goes there.\<close>

definition demo_declaration :: cred_declaration where
  "demo_declaration = \<lparr>d_project = ''shop'', d_environment = Development, d_risk = Medium,
     d_scope = ReadWrite, d_reversibility = Reversible\<rparr>"

definition demo_authorization :: item_authorization where
  "demo_authorization = \<lparr>z_binding = \<lparr>b_item = 1, b_env_name = ''API_KEY'', b_field = ''key'',
       b_delivery = DeliverValue\<rparr>,
     z_code_field = None, z_includes_value = True, z_revision = 1,
     z_declaration = Some demo_declaration, z_sources = default_sources, z_provider = None,
     z_standing = StNormal, z_always_ask = False, z_host_field = None\<rparr>"

definition demo_facts :: item_facts where
  "demo_facts = \<lparr>f_name = ''Shop API'', f_includes_code = False, f_standing = StNormal,
     f_always_ask = False, f_weak_source = False, f_production = False, f_unconfirmed = False,
     f_foreign_project = None, f_known_hosts = [''api.example.com'']\<rparr>"

definition demo_checked :: checked_run where
  "demo_checked = \<lparr>k_agent = 7, k_epoch = [], k_vault_file = ''/v'', k_cwd = ''/w/shop'',
     k_project = Some \<lparr>pr_key = ''/w/shop'', pr_label = ''shop'', pr_root = ''/w/shop''\<rparr>,
     k_project_dir = ''/w/shop'', k_relative_dir = ''.'', k_env_names = [''API_KEY''],
     k_placeholder_names = [], k_declarations = [Some demo_declaration],
     k_provider_hosts = [], k_authorization = [demo_authorization], k_facts = [demo_facts]\<rparr>"

definition demo_run :: run_facts where
  "demo_run = \<lparr>rf_analysis = \<lparr>flags = [], known_safe = False, known_command = True,
       known_write = False\<rparr>,
     rf_has_user_request = True, rf_pattern = False, rf_action = Change,
     rf_hosts = [''api.example.com''], rf_remote_brain = False\<rparr>"

definition demo_known :: known where
  "demo_known = \<lparr>kn_answer = [False], kn_unfit = [None]\<rparr>"

lemmas demo_defs = demo_checked_def demo_run_def demo_known_def demo_facts_def
  demo_declaration_def demo_authorization_def

lemma demo_ok [simp]: "checked_ok demo_checked" "known_ok demo_checked demo_known"
  by (simp_all add: checked_ok_def known_ok_def answered_def unfit_of_def demo_defs)

lemma demo_may_start: "may_start demo_checked demo_run demo_known (Inr ())"
  by (simp add: may_start_def item_clear_def Let_def asks_always_def production_item_def
    production_and_read_only_def is_production_def answered_def unfit_of_def knows_host_def
    host_matches_def demo_defs)

lemma route_starts_iff_policy_witness:
  "\<exists>r ready'. route demo_checked demo_run demo_known (\<lambda>_. Inr ()) new_readiness = Some (r, ready')
     \<and> \<not> is_ask r"
  using route_starts_iff_policy [of demo_checked demo_known new_readiness demo_run "\<lambda>_. Inr ()"]
    demo_may_start by (auto simp: new_readiness_def)

text \<open>Which way a run starts without the owner: by a remembered answer exactly when every item
  has a fitting answer and none is declared production; else by a remembered pattern
  exactly when a pattern matches and none is declared production; else the model step
  decides.\<close>

theorem route_kind:
  assumes "checked_ok c" "known_ok c known" "r_known ready = None"
    and "may_start c run known (check (r_calls ready))"
  shows "\<exists>ready'. route c run known check ready =
    Some (if \<not> production_declared c \<and> k_facts c \<noteq> [] \<and> list_all id (kn_answer known) then Answer
          else if rf_pattern run \<and> \<not> production_declared c then Pattern
          else Model, ready')"
  using route_cases_start [of c known ready run check] assms by blast

lemma route_kind_witness:
  "\<exists>ready'. route demo_checked demo_run demo_known (\<lambda>_. Inr ()) new_readiness = Some (Model, ready')"
  using route_kind [of demo_checked demo_known new_readiness demo_run "\<lambda>_. Inr ()"] demo_may_start
  by (simp add: new_readiness_def production_declared_def is_production_def) (simp add: demo_defs is_production_def)

text \<open>C7: A production credential with write or admin scope (and every production credential when
  the brain runs on another host), an item that always asks, and an item with a one-time
  code that no answer covers: each of them alone sends the run to the owner, whatever is
  remembered, whatever pattern matches and without asking the model gate, and the card
  names the rule of the item.\<close>

theorem sensitive_item_asks_before_the_gate:
  assumes "i < length (k_facts c)"
    and "(production_item c i \<and> (\<not> read_only_item c i \<or> rf_remote_brain run))
      \<or> asks_always (k_facts c ! i)
      \<or> (f_includes_code (k_facts c ! i) \<and> (production_item c i \<or> \<not> answered known i))"
  shows "\<exists>note reason rules. route c run known check ready = Some (Ask note reason, ready)
    \<and> note = join_with '' '' (map fst rules)
    \<and> item_rules c run known (place_of c) (i, k_facts c ! i) \<noteq> []
    \<and> set (item_rules c run known (place_of c) (i, k_facts c ! i)) \<subseteq> set rules"
proof -
  let ?rules = "hard_rules c run known (place_of c)"
  have item: "item_rules c run known (place_of c) (i, k_facts c ! i) \<noteq> []"
    using assms(2) unfolding item_rules_Nil [OF assms(1)] by blast
  have mem: "(i, k_facts c ! i) \<in> set (List.enumerate 0 (k_facts c))"
    using assms(1) by (simp add: enumerate_mem)
  have sub: "set (item_rules c run known (place_of c) (i, k_facts c ! i)) \<subseteq> set ?rules"
    using mem unfolding hard_rules_def by fastforce
  with item obtain n k rest where rules: "?rules = (n, k) # rest"
    by (cases ?rules) auto
  then have "route c run known check ready
      = Some (Ask (join_with '' '' (map fst ?rules)) k, ready)"
    by (simp add: route_def)
  with item sub show ?thesis by blast
qed

definition production_checked :: checked_run where
  "production_checked = demo_checked
     \<lparr>k_declarations := [Some (demo_declaration\<lparr>d_environment := Production\<rparr>)],
      k_facts := [demo_facts\<lparr>f_production := True\<rparr>]\<rparr>"

lemma sensitive_item_asks_before_the_gate_witness:
  "\<exists>note reason. route production_checked demo_run \<lparr>kn_answer = [True], kn_unfit = [None]\<rparr>
      (\<lambda>_. Inr ()) new_readiness = Some (Ask note reason, new_readiness)"
  using sensitive_item_asks_before_the_gate
    [of 0 production_checked demo_run "\<lparr>kn_answer = [True], kn_unfit = [None]\<rparr>" "\<lambda>_. Inr ()"
      new_readiness]
  by (simp add: production_checked_def production_item_def read_only_item_def
    production_and_read_only_def is_production_def demo_defs) blast

text \<open>The model gate, which can start a server, is asked at most once for a request: after
  the route and then the list of valid answers, in the order of the code, there was at
  most one call, and none when a hard rule asked and nothing could be remembered.\<close>

theorem gate_called_at_most_once:
  assumes "route c run known check new_readiness = Some (r, r1)"
    and "valid_answers c run certain waiting check r1 = Some (answers, r2)"
  shows "r_calls r2 \<le> 1
    \<and> (hard_rules c run known (place_of c) \<noteq> [] \<and> \<not> can_remember_now c run certain
        \<longrightarrow> r_calls r2 = 0)"
proof -
  have r1: "r1 = new_readiness \<or> r1 = \<lparr>r_known = Some (check 0), r_calls = 1\<rparr>"
    and hard: "hard_rules c run known (place_of c) \<noteq> [] \<Longrightarrow> r1 = new_readiness"
    using assms(1)
    by (auto simp: route_def ready_get_def new_readiness_def Let_def
      split: list.splits sum.splits option.splits if_splits)
  have r2: "r2 = (if can_remember_now c run certain then snd (ready_get check r1) else r1)"
    using assms(2)
    by (auto simp: valid_answers_def Let_def split: option.splits prod.splits if_splits)
  show ?thesis
    using r1 hard r2 by (auto simp: new_readiness_def ready_get_def Let_def)
qed

lemma gate_called_at_most_once_witness:
  "\<exists>r r1 answers r2. route demo_checked demo_run demo_known (\<lambda>_. Inr ()) new_readiness = Some (r, r1)
     \<and> valid_answers demo_checked demo_run None False (\<lambda>_. Inr ()) r1 = Some (answers, r2)
     \<and> r_calls r2 \<le> 1"
proof -
  obtain r r1 where r: "route demo_checked demo_run demo_known (\<lambda>_. Inr ()) new_readiness = Some (r, r1)"
    using route_total [of demo_checked new_readiness demo_run demo_known "\<lambda>_. Inr ()"]
    by (auto simp: new_readiness_def)
  have "first_unconfirmed demo_checked = Some None"
    by (simp add: first_unconfirmed_def item_unconfirmed_def demo_defs)
  then obtain answers r2 where
    "valid_answers demo_checked demo_run None False (\<lambda>_. Inr ()) r1 = Some (answers, r2)"
    using valid_answers_total by blast
  with r gate_called_at_most_once [OF r this] show ?thesis by blast
qed

end
