(* ===== verification/Memory.thy ===== *)
theory Memory
  imports Route
begin

text \<open>
  What a remembered answer does to the next run: the lemmas about \<open>known_state\<close> and
  \<open>save_answer\<close> of src/src/broker/run.rs over the answers of src/src/vault/answers.rs, and
  the properties that span the vault and the route.
\<close>

section \<open>What the stored answers say\<close>

lemma known_items_nth:
  "known_items v c p a cert hosts n xs = Some k \<Longrightarrow>
     length (kn_answer k) = length xs \<and> length (kn_unfit k) = length xs
     \<and> (\<forall>j<length xs. item_state v c p a cert hosts (n + j) (fst (xs ! j)) (snd (xs ! j))
          = Some (kn_answer k ! j, kn_unfit k ! j))"
proof (induction v c p a cert hosts n xs arbitrary: k rule: known_items.induct)
  case (2 v c p a cert hosts index item f rest)
  then show ?case
    by (auto split: option.splits simp: nth_Cons' less_Suc_eq_0_disj)
qed simp

lemma item_state_total:
  "index < length (k_authorization c) \<Longrightarrow>
     item_state v c p a cert hosts index item f \<noteq> None"
  by (cases "read_answer v item (pr_key p) a (scope_for f)")
    (simp_all add: item_state_def unfit_reason_def get_def)

lemma known_items_total:
  "n + length xs \<le> length (k_authorization c) \<Longrightarrow>
     \<exists>k. known_items v c p a cert hosts n xs = Some k"
proof (induction v c p a cert hosts n xs rule: known_items.induct)
  case (2 v c p a cert hosts index item f rest)
  then obtain fu where "item_state v c p a cert hosts index item f = Some fu"
    using item_state_total [of index c v p a cert hosts item f] by auto
  with 2 show ?case by (cases fu) auto
qed simp

lemma unfit_reason_fits:
  "get (k_authorization c) i = Some z \<Longrightarrow>
     unfit_reason c i f action cert hosts a = Some u \<Longrightarrow>
     u = None \<longleftrightarrow> (z_includes_value z \<longrightarrow> o_values a) \<and> (f_includes_code f \<longrightarrow> o_codes a)
       \<and> (f_production f \<or> f_unconfirmed f \<longrightarrow> cert = Some action)
       \<and> hosts_within hosts (o_hosts a @ f_known_hosts f)"
  by (auto simp: unfit_reason_def split: if_splits)

text \<open>A stored answer fits a run of an item: the test of the code, as one predicate.\<close>

definition answer_fits ::
    "vault \<Rightarrow> nat list \<Rightarrow> checked_run \<Rightarrow> project \<Rightarrow> action_kind \<Rightarrow> action_kind option \<Rightarrow>
     string list \<Rightarrow> nat \<Rightarrow> bool" where
  "answer_fits v items c p action cert hosts i =
     (let f = k_facts c ! i; z = k_authorization c ! i
      in case read_answer v (items ! i) (pr_key p) action (scope_for f) of
           None \<Rightarrow> False
         | Some a \<Rightarrow> (\<not> z_includes_value z \<or> o_values a) \<and> (\<not> f_includes_code f \<or> o_codes a)
             \<and> (\<not> (f_production f \<or> f_unconfirmed f) \<or> cert = Some action)
             \<and> hosts_within hosts (o_hosts a @ f_known_hosts f))"

lemma known_state_cases:
  assumes "checked_ok c" "length items = length (k_facts c)" "k_project c = Some p"
  shows "\<exists>k. known_state v items c action cert hosts = Some k \<and> known_ok c k
     \<and> (\<forall>i<length items. answered k i = answer_fits v items c p action cert hosts i)"
proof -
  let ?xs = "zip items (k_facts c)"
  have "\<exists>k. known_items v c p action cert hosts 0 ?xs = Some k"
    by (rule known_items_total) (use assms in \<open>simp add: checked_ok_def\<close>)
  then obtain k where k: "known_items v c p action cert hosts 0 ?xs = Some k" ..
  note nth = known_items_nth [OF k]
  have step: "answered k i = answer_fits v items c p action cert hosts i
      \<and> \<not> (answered k i \<and> unfit_of k i \<noteq> None)" if i: "i < length items" for i
  proof -
    have st: "item_state v c p action cert hosts i (items ! i) (k_facts c ! i)
        = Some (kn_answer k ! i, kn_unfit k ! i)"
      using nth i assms by simp
    have g: "answered k i = kn_answer k ! i" "unfit_of k i = kn_unfit k ! i"
      using nth i assms by (simp_all add: answered_def unfit_of_def get_def)
    have z: "get (k_authorization c) i = Some (k_authorization c ! i)"
      using i assms by (simp add: get_def checked_ok_def)
    show ?thesis
    proof (cases "read_answer v (items ! i) (pr_key p) action (scope_for (k_facts c ! i))")
      case None
      then show ?thesis
        using st by (simp add: item_state_def answer_fits_def g)
    next
      case (Some a)
      with st obtain u where u: "unfit_reason c i (k_facts c ! i) action cert hosts a = Some u"
        "kn_answer k ! i = (u = None)" "kn_unfit k ! i = u"
        by (auto simp: item_state_def)
      have "answer_fits v items c p action cert hosts i \<longleftrightarrow> u = None"
        unfolding unfit_reason_fits [OF z u(1)] using Some
        by (auto simp: answer_fits_def Let_def)
      with u show ?thesis by (cases u) (simp_all add: g)
    qed
  qed
  have "known_ok c k"
    using nth step assms by (auto simp: known_ok_def list_all_iff)
  then show ?thesis
    using k step assms by (auto simp: known_state_def)
qed

section \<open>What a save leaves\<close>

text \<open>The answer that covers an item after its save.\<close>

definition saved_for ::
    "vault \<Rightarrow> checked_run \<Rightarrow> project \<Rightarrow> action_kind \<Rightarrow> string list \<Rightarrow> nat \<Rightarrow> nat \<Rightarrow> item_facts \<Rightarrow> bool" where
  "saved_for w c p action hosts index item f \<longleftrightarrow>
     (\<exists>a old. answer_for w item (pr_key p) action (scope_for f) = Inr (Some a)
       \<and> o_hosts a = normal_hosts (old @ hosts @ f_known_hosts f)
       \<and> (f_includes_code f \<longrightarrow> o_codes a)
       \<and> (\<forall>z. get (k_authorization c) index = Some z \<longrightarrow> z_includes_value z \<longrightarrow> o_values a))"

lemma save_item_stores:
  assumes "save_item now v c choice pr on hosts index item f = Some (Some (Inr (n, w)))"
    and "answers_ok v" "pr = \<lparr>p_key = pr_key p, p_label = l\<rparr>" "trim (pr_key p) = pr_key p"
    and "ch_action choice = action"
  shows "answers_ok w \<and> saved_for w c p action hosts index item f
    \<and> (\<forall>j key b s. j \<noteq> item \<longrightarrow> answer_for w j key b s = answer_for v j key b s)"
proof -
  have pk: "trim (p_key pr) = pr_key p"
    using assms(3,4) by simp
  obtain codes vals where
    st: "store_answer now v item pr action (scope_for f) on (hosts @ f_known_hosts f) codes vals
       = Inr (n, w)"
    and flags: "f_includes_code f \<longrightarrow> codes"
      "\<And>z. get (k_authorization c) index = Some z \<Longrightarrow> z_includes_value z \<Longrightarrow> vals"
    using assms(1,5)
    by (auto simp: save_item_def Let_def allow_production_def remember_answer_def scope_for_def
      split: if_splits)
  from store_answer_found [OF assms(2) st] obtain a old where
    ok: "answers_ok w" and a: "answer_for w item (pr_key p) action (scope_for f) = Inr (Some a)"
    "o_hosts a = normal_hosts (old @ hosts @ f_known_hosts f)" "o_codes a = codes"
    "o_values a = vals"
    unfolding pk by blast
  have "saved_for w c p action hosts index item f"
    unfolding saved_for_def using a flags by blast
  moreover have "\<forall>j key b s. j \<noteq> item \<longrightarrow> answer_for w j key b s = answer_for v j key b s"
    using store_answer_other [OF st] by blast
  ultimately show ?thesis
    using ok by blast
qed

lemma save_items_bound:
  "save_items now v c choice pr on hosts n xs = Some (m, w) \<Longrightarrow> m \<le> length xs"
proof (induction now v c choice pr on hosts n xs arbitrary: m w rule: save_items.induct)
  case (2 now v c choice p on hosts index item f rest)
  then show ?case
    by (fastforce split: option.splits sum.splits)
qed simp

lemma save_items_stores:
  assumes "save_items now v c choice pr on hosts n xs = Some (length xs, w)"
    and "answers_ok v" "pr = \<lparr>p_key = pr_key p, p_label = l\<rparr>" "trim (pr_key p) = pr_key p"
    and "ch_action choice = action" "distinct (map fst xs)"
  shows "(\<forall>j<length xs. saved_for w c p action hosts (n + j) (fst (xs ! j)) (snd (xs ! j)))
    \<and> (\<forall>i key b s. i \<notin> set (map fst xs) \<longrightarrow> answer_for w i key b s = answer_for v i key b s)"
  using assms
proof (induction xs arbitrary: v n)
  case Nil
  then show ?case by simp
next
  case (Cons x xs)
  obtain item f where x: "x = (item, f)" by (cases x)
  from Cons.prems(1) x obtain k v1 where
    one: "save_item now v c choice pr on hosts n item f = Some (Some (Inr (k, v1)))"
    and rest: "save_items now v1 c choice pr on hosts (n + 1) xs = Some (length xs, w)"
    by (auto split: option.splits sum.splits dest: save_items_bound)
  note first = save_item_stores [OF one Cons.prems(2-5)]
  have IH: "(\<forall>j<length xs. saved_for w c p action hosts (n + 1 + j) (fst (xs ! j)) (snd (xs ! j)))
    \<and> (\<forall>i key b s. i \<notin> set (map fst xs) \<longrightarrow> answer_for w i key b s = answer_for v1 i key b s)"
    using Cons.IH [OF rest] first Cons.prems by auto
  have "saved_for w c p action hosts n item f"
    using first IH Cons.prems(6) x unfolding saved_for_def by auto
  then show ?case
    using IH first x by (auto simp: nth_Cons' less_Suc_eq_0_disj)
qed

lemma normal_hosts_mem:
  assumes "h \<in> set hs" "normal_host h = Some h" "length (normal_hosts hs) < MAX_ANSWER_HOSTS"
  shows "h \<in> set (normal_hosts hs)"
proof -
  have "h \<in> set (List.map_filter normal_host hs)"
    using assms(1,2) by (force simp: map_filter_def)
  moreover have "normal_hosts hs = sort_dedup (List.map_filter normal_host hs)"
    using assms(3) by (simp add: normal_hosts_def)
  ultimately show ?thesis by simp
qed

section \<open>The first unconfirmed item\<close>

lemma item_unconfirmed_total:
  "checked_ok c \<Longrightarrow> i < length (k_facts c) \<Longrightarrow> \<exists>b. item_unconfirmed c i = Some b"
  by (cases "f_unconfirmed (k_facts c ! i)")
    (auto simp: item_unconfirmed_def checked_ok_def get_def)

lemma find_unconfirmed_Some:
  assumes "\<And>i. i \<in> set is \<Longrightarrow> \<exists>b. item_unconfirmed c i = Some b"
  shows "find_unconfirmed c is = Some (List.find (\<lambda>i. item_unconfirmed c i = Some True) is)"
  using assms
proof (induction "is")
  case (Cons i "is")
  then obtain b where "item_unconfirmed c i = Some b" by auto
  with Cons show ?case by (cases b) auto
qed simp

lemma first_unconfirmed_Some:
  assumes "checked_ok c"
  shows "\<exists>r. first_unconfirmed c = Some r \<and> (\<forall>i. r = Some i \<longrightarrow>
     i < length (k_facts c) \<and> item_unconfirmed c i = Some True
     \<and> (\<forall>j<i. item_unconfirmed c j = Some False))"
proof -
  have tot: "\<exists>b. item_unconfirmed c i = Some b" if "i < length (k_facts c)" for i
    using item_unconfirmed_total [OF assms that] .
  have "first_unconfirmed c
      = Some (List.find (\<lambda>i. item_unconfirmed c i = Some True) [0..<length (k_facts c)])"
    unfolding first_unconfirmed_def by (rule find_unconfirmed_Some) (use tot in auto)
  moreover have "item_unconfirmed c j = Some False" if "j < i" "i < length (k_facts c)"
    "item_unconfirmed c j \<noteq> Some True" for i j
    using tot [of j] that by auto
  ultimately show ?thesis
    by (auto simp: find_Some_iff)
qed

section \<open>Properties\<close>

text \<open>C5: Remembered authority is exact: for the vectors that the check builds, \<open>known_state\<close>
  never panics, its result is consistent, and an item counts as answered if and only if
  the vault holds an answer for this very item, the key of this project, this kind of
  action and the scope of the item (production or project) that covers the stored value and
  the one-time code that the run needs, whose kind the rules are certain of when the item
  is production, and whose hosts with the known hosts of the item hold every destination
  host. Without a project nothing is remembered.\<close>

theorem known_state_exact:
  assumes "checked_ok c" "length items = length (k_facts c)"
  shows "\<exists>k. known_state v items c action cert hosts = Some k \<and> known_ok c k
    \<and> (\<forall>i<length items. answered k i \<longleftrightarrow> (case k_project c of
         None \<Rightarrow> False
       | Some p \<Rightarrow> answer_fits v items c p action cert hosts i))"
proof (cases "k_project c")
  case None
  then show ?thesis
    using assms by (auto simp: known_state_def known_nothing_def known_ok_def answered_def
      unfit_of_def get_def list_all_iff)
next
  case (Some p)
  then show ?thesis
    using known_state_cases [OF assms Some] by simp
qed

definition remembered_vault :: vault where
  "remembered_vault = (empty_vault [1])\<lparr>v_answers := [\<lparr>w_id = 1, w_item = 1, w_key = ''/w/shop'',
     w_label = ''shop'', w_action = ''change'', w_scope = ''project'', w_created = 5,
     w_on = ''mac'', w_hosts = Some [''api.example.com''], w_codes = False, w_values = True\<rparr>],
     v_next_answer := 2\<rparr>"

lemma known_state_exact_witness:
  "\<exists>k. known_state remembered_vault [1] demo_checked Change None [''api.example.com''] = Some k
     \<and> answered k 0"
proof -
  have "answer_fits remembered_vault [1] demo_checked
      \<lparr>pr_key = ''/w/shop'', pr_label = ''shop'', pr_root = ''/w/shop''\<rparr> Change None
      [''api.example.com''] 0"
    by (simp add: answer_fits_def Let_def read_answer_def answer_for_def to_sql_id_def i64_max_def
      conn_def remembered_vault_def empty_vault_def find_row_def answer_key_def scope_for_def
      parse_answer_def to_public_id_def action_kind_parse_def answer_scope_parse_def
      from_sql_time_def parse_hosts_def hosts_within_def host_matches_def demo_defs)
  moreover have "k_project demo_checked =
      Some \<lparr>pr_key = ''/w/shop'', pr_label = ''shop'', pr_root = ''/w/shop''\<rparr>"
    "length (k_facts demo_checked) = 1"
    by (simp_all add: demo_checked_def)
  ultimately show ?thesis
    using known_state_exact [of demo_checked "[1]" remembered_vault Change None
        "[''api.example.com'']"] by auto
qed

text \<open>C9: A remembered answer takes effect: when "allow in project" is offered for a question and
  the save stores an answer for every item, then the next run of the same command (the
  same checked facts and hosts) starts by the remembered answer, without the owner and
  without the model step, as long as the gate lets it through. The command may have any kind of
  action. The items are not production, each has a confirmed destination and none is set to ask
  always for this agent; the destination hosts are in normal form and no stored answer reached the
  limit of hosts; and the key of the project has no blank at either end: the save trims the key and
  the lookup does not, so for a project folder whose path ends in a blank the answer is never
  found.\<close>

theorem remembered_answer_takes_effect:
  assumes ok: "checked_ok c" "length items = length (k_facts c)" "distinct items" "items \<noteq> []"
      "answers_ok v" "k_project c = Some p" "trim (pr_key p) = pr_key p"
    and offer: "valid_answers c run cert False check ra = Some (offers, rb)"
      "InProject (rf_action run) \<in> set offers"
    and plain: "\<forall>i<length (k_facts c). \<not> production_item c i \<and> \<not> f_unconfirmed (k_facts c ! i)
      \<and> f_standing (k_facts c ! i) \<noteq> StAlwaysAsk"
    and save: "save_answer now v c items
        \<lparr>ch_project = p, ch_action = rf_action run, ch_production = False\<rparr> on (rf_hosts run)
      = Some (Inr (length items, w))"
    and hosts: "\<forall>h\<in>set (rf_hosts run). normal_host h = Some h"
      "\<forall>i<length items. \<forall>a. read_answer w (items ! i) (pr_key p) (rf_action run)
         (scope_for (k_facts c ! i)) = Some a \<longrightarrow> length (o_hosts a) < MAX_ANSWER_HOSTS"
    and gate: "is_ok (check' 0)"
  shows "\<exists>k ready. known_state w items c (rf_action run) cert (rf_hosts run) = Some k
    \<and> route c run k check' new_readiness = Some (Answer, ready)"
proof -
  let ?pr = "\<lparr>p_key = pr_key p, p_label = pr_label p\<rparr>"
  let ?ch = "\<lparr>ch_project = p, ch_action = rf_action run, ch_production = False\<rparr>"
  obtain on' where items: "save_items now v c ?ch ?pr on' (rf_hosts run) 0 (zip items (k_facts c))
      = Some (length (zip items (k_facts c)), w)"
    using save ok(2,6) by (auto simp: save_answer_def split: if_splits)
  have saved: "saved_for w c p (rf_action run) (rf_hosts run) i (items ! i) (k_facts c ! i)"
    if "i < length items" for i
    using save_items_stores [OF items ok(5), of p "pr_label p" "rf_action run"] ok that by simp
  have can: "can_remember_now c run cert"
    using offer by (auto simp: valid_answers_def Let_def split: if_splits prod.splits option.splits)
  have fits: "answer_fits w items c p (rf_action run) cert (rf_hosts run) i" if i: "i < length items" for i
  proof -
    from saved [OF i] obtain a old where
      a: "answer_for w (items ! i) (pr_key p) (rf_action run) (scope_for (k_facts c ! i)) = Inr (Some a)"
      "o_hosts a = normal_hosts (old @ rf_hosts run @ f_known_hosts (k_facts c ! i))"
      "f_includes_code (k_facts c ! i) \<longrightarrow> o_codes a"
      "z_includes_value (k_authorization c ! i) \<longrightarrow> o_values a"
      using i ok(1,2) by (auto simp: saved_for_def get_def checked_ok_def)
    then have r: "read_answer w (items ! i) (pr_key p) (rf_action run) (scope_for (k_facts c ! i)) = Some a"
      by (simp add: read_answer_def)
    with hosts(2) i a(2) have "length (normal_hosts (old @ rf_hosts run @ f_known_hosts (k_facts c ! i)))
        < MAX_ANSWER_HOSTS" by metis
    then have "h \<in> set (o_hosts a)" if "h \<in> set (rf_hosts run)" for h
      using that hosts(1) unfolding a(2) by (intro normal_hosts_mem) auto
    then have "hosts_within (rf_hosts run) (o_hosts a @ f_known_hosts (k_facts c ! i))"
      by (force simp: hosts_within_def list_all_iff list_ex_iff host_matches_def)
    moreover have "\<not> f_production (k_facts c ! i)" "\<not> f_unconfirmed (k_facts c ! i)"
      using plain i ok(2) production_item_iff [of i c] by auto
    ultimately show ?thesis
      using a r by (simp add: answer_fits_def Let_def)
  qed
  obtain k where k: "known_state w items c (rf_action run) cert (rf_hosts run) = Some k"
    "known_ok c k" "\<forall>i<length items. answered k i"
    using known_state_cases [OF ok(1,2,6), of w "rf_action run" cert "rf_hosts run"] fits by auto
  have "item_clear c run k i" if "i < length (k_facts c)" for i
    using that k(2,3) plain can ok(2)
    by (auto simp: item_clear_def Let_def asks_always_def can_remember_now_def known_ok_def
      list_all_iff)
  then have may: "may_start c run k (check' 0)"
    using can gate by (auto simp: may_start_def can_remember_now_def list_all_iff)
  have "\<not> production_declared c"
    using plain ok(1) production_item_iff [of _ c]
    by (auto simp: production_declared_def list_ex_length declared_production_def get_def
      checked_ok_def split: option.splits)
  moreover have "list_all id (kn_answer k)" "k_facts c \<noteq> []"
    using k(2,3) ok(2,4) by (auto simp: known_ok_def list_all_length answered_def get_def)
  ultimately show ?thesis
    using k(1) route_cases_start [OF ok(1) k(2), of new_readiness run check'] may
    by (simp add: new_readiness_def)
qed

lemma store_shop_here:
  "is_ok (store_answer 5 (empty_vault [1]) 1 shop Change ProjectScope ''this Mac'' hosts c d)"
  by (simp add: store_answer_def shop_def to_sql_id_def i64_max_def to_sql_time_def conn_def
    require_item_def empty_vault_def checked_def trim_def is_whitespace_def is_control_def
    char_len_def byte_def Let_def MAX_PROJECT_KEY_BYTES_def MAX_PROJECT_LABEL_BYTES_def
    MAX_ANSWERED_ON_BYTES_def known_hosts_of_def find_row_def answer_key_def to_public_id_def
    chars.simps)

lemma remembered_answer_takes_effect_witness:
  "\<exists>w k ready. known_state w [1] demo_checked Change None [''api.example.com''] = Some k
     \<and> route demo_checked demo_run k (\<lambda>_. Inr ()) new_readiness = Some (Answer, ready)"
proof -
  let ?p = "\<lparr>pr_key = ''/w/shop'', pr_label = ''shop'', pr_root = ''/w/shop''\<rparr>"
  let ?h = "[''api.example.com'', ''api.example.com'']"
  obtain n w where st: "store_answer 5 (empty_vault [1]) 1 shop Change ProjectScope ''this Mac''
      ?h False True = Inr (n, w)"
    using store_shop_here [of ?h False True]
    by (cases "store_answer 5 (empty_vault [1]) 1 shop Change ProjectScope ''this Mac'' ?h False True")
      auto
  have nh: "normal_hosts ?h = [''api.example.com'']" "normal_host ''api.example.com'' = Some ''api.example.com''"
    by code_simp+
  have save: "save_answer 5 (empty_vault [1]) demo_checked [1]
      \<lparr>ch_project = ?p, ch_action = Change, ch_production = False\<rparr> [] [''api.example.com'']
      = Some (Inr (1, w))"
    using st by (simp add: save_answer_def save_item_def Let_def remember_answer_def
      ANSWERED_ON_MAC_def shop_def demo_defs)
  have offer: "valid_answers demo_checked demo_run None False (\<lambda>_. Inr ()) new_readiness
      = Some ([Once, NeverForAgent, AlwaysAskForAgent, Disconnect, InProject Change],
          \<lparr>r_known = Some (Inr ()), r_calls = 1\<rparr>)"
    by (simp add: valid_answers_def can_remember_now_def sure_of_action_def foreign_db_host_def
      db_host_from_command_def ready_get_def new_readiness_def Let_def production_asks_def
      production_and_read_only_def is_production_def first_unconfirmed_def item_unconfirmed_def
      demo_defs)
  have small: "length (o_hosts a) < MAX_ANSWER_HOSTS"
    if "read_answer w 1 ''/w/shop'' Change ProjectScope = Some a" for a
    using store_answer_found [OF empty_answers_ok st] that nh
    by (auto simp: shop_def trim_shop known_hosts_of_def empty_vault_def find_row_def
      read_answer_def MAX_ANSWER_HOSTS_def)
  have facts: "k_project demo_checked = Some ?p" "length (k_facts demo_checked) = 1"
    "k_facts demo_checked ! 0 = demo_facts" "rf_action demo_run = Change"
    "rf_hosts demo_run = [''api.example.com'']" "scope_for demo_facts = ProjectScope"
    by (simp_all add: demo_checked_def demo_run_def demo_facts_def scope_for_def)
  have plain: "\<not> production_item demo_checked 0 \<and> \<not> f_unconfirmed demo_facts
      \<and> f_standing demo_facts \<noteq> StAlwaysAsk"
    by (simp add: production_item_def production_and_read_only_def is_production_def demo_defs)
  have "\<exists>k ready. known_state w [1] demo_checked (rf_action demo_run) None (rf_hosts demo_run) = Some k
    \<and> route demo_checked demo_run k (\<lambda>_. Inr ()) new_readiness = Some (Answer, ready)"
    by (rule remembered_answer_takes_effect [where v = "empty_vault [1]" and p = ?p
          and check = "\<lambda>_. Inr ()" and now = 5 and on = "[]" and ra = new_readiness and w = w
          and offers = "[Once, NeverForAgent, AlwaysAskForAgent, Disconnect, InProject Change]"
          and rb = "\<lparr>r_known = Some (Inr ()), r_calls = 1\<rparr>"])
      (use facts plain offer save small nh in \<open>simp_all add: trim_shop less_Suc_eq\<close>)
  then show ?thesis
    using facts by auto
qed

text \<open>Labelling a credential from a question changes only that credential: "allow as dev" or
  "allow as prod" is saved only for the item that the owner check named, and only when it is
  the first unconfirmed item of the run (its production value is only a default, or it has
  no declaration); then its declaration has the environment from the owner, and no row of
  any other credential changes. In every other case the vault stays as it was.\<close>

theorem classification_labels_one_item:
  assumes "checked_ok c" "length items = length (k_facts c)"
  shows "save_classification now v c items (e, item) = Some (False, v)
    \<or> (\<exists>v'. save_classification now v c items (e, item) = Some (True, v')
        \<and> (\<exists>i<length items. items ! i = item \<and> item_unconfirmed c i = Some True
             \<and> (\<forall>j<i. item_unconfirmed c j = Some False \<and> items ! j \<noteq> item))
        \<and> (\<exists>d s. declaration_of v' item = Inr (Some d) \<and> d_environment d = e
             \<and> declaration_sources_of v' item = Inr s \<and> s_environment s = Owner)
        \<and> (\<forall>j. j \<noteq> int item \<longrightarrow> v_declaration v' j = v_declaration v j \<and> v_sources v' j = v_sources v j)
        \<and> v_answers v' = v_answers v \<and> v_exceptions v' = v_exceptions v
        \<and> v_policy v' = v_policy v)"
proof -
  obtain r where r: "first_unconfirmed c = Some r" and ri: "\<And>i. r = Some i \<Longrightarrow>
     i < length (k_facts c) \<and> item_unconfirmed c i = Some True
     \<and> (\<forall>j<i. item_unconfirmed c j = Some False)"
    using first_unconfirmed_Some [OF assms(1)] by auto
  have none: "save_classification now v c items (e, item) = Some (False, v)"
    if "classified_index c items item = Some None"
    using that by (simp add: save_classification_def)
  show ?thesis
  proof (cases "position (\<lambda>i. i = item) items")
    case None
    then show ?thesis
      using none by (simp add: classified_index_def)
  next
    case (Some i)
    then have i: "i < length items" "items ! i = item" "\<forall>j<i. items ! j \<noteq> item"
      by (auto simp: position_Some)
    show ?thesis
    proof (cases "r = Some i")
      case False
      then have "classified_index c items item = Some None"
        using Some r by (simp add: classified_index_def)
      then show ?thesis using none by simp
    next
      case True
      then have "classified_index c items item = Some (Some i)"
        using Some r by (simp add: classified_index_def)
      then have *: "save_classification now v c items (e, item) =
          (case set_declaration_environment now v item e of
             Inl _ \<Rightarrow> Some (False, v) | Inr v' \<Rightarrow> Some (True, v'))"
        using i by (simp add: save_classification_def split: sum.split)
      show ?thesis
      proof (cases "set_declaration_environment now v item e")
        case (Inl x)
        then show ?thesis using * by simp
      next
        case (Inr v')
        from set_declaration_environment_effect [OF Inr] show ?thesis
          using * Inr i ri [OF True] by auto
      qed
    qed
  qed
qed

definition unlabelled_checked :: checked_run where
  "unlabelled_checked = demo_checked\<lparr>k_facts := [demo_facts\<lparr>f_unconfirmed := True\<rparr>]\<rparr>"

lemma classification_labels_one_item_witness:
  "\<exists>v' d. save_classification 5 (empty_vault [1]) unlabelled_checked [1] (Development, 1)
       = Some (True, v')
     \<and> declaration_of v' 1 = Inr (Some d) \<and> d_environment d = Development"
proof -
  have ok: "checked_ok unlabelled_checked" "length [1::nat] = length (k_facts unlabelled_checked)"
    by (simp_all add: checked_ok_def unlabelled_checked_def demo_checked_def)
  have "first_unconfirmed unlabelled_checked = Some (Some 0)"
    by (simp add: first_unconfirmed_def item_unconfirmed_def unlabelled_checked_def demo_checked_def)
  then have "classified_index unlabelled_checked [1] 1 = Some (Some 0)"
    by (simp add: classified_index_def)
  then have "save_classification 5 (empty_vault [1]) unlabelled_checked [1] (Development, 1)
      \<noteq> Some (False, empty_vault [1])"
    using relabel_fresh [of 5 Development]
    by (auto simp: save_classification_def split: sum.splits)
  then show ?thesis
    using classification_labels_one_item [OF ok, of 5 "empty_vault [1]" Development 1] by auto
qed

end
