(* ===== verification/Approvals.thy ===== *)
theory Approvals
  imports Route
begin

text \<open>
  The approval queue (src/src/broker/approvals.rs) and the owner proofs that it takes
  (src/src/broker/approvals/owner_auth.rs). The queue state is a record; every public
  operation takes the queue lock once, so it is one function on the state. The call that
  waits (\<open>wait\<close>) is split where it releases the lock: \<open>wait_start\<close> puts or joins the
  question, \<open>wait_poll\<close> is one turn of its loop, and \<open>wait_invalid\<close> is the branch after
  \<open>still_valid\<close> returned false. Times are milliseconds. A 32-byte session or baseline is a
  string. \<open>BTreeMap\<close> is an association list in key order where the code iterates over it
  and a map elsewhere.
\<close>

section \<open>What waits\<close>

record question_item =
  qi_item :: nat
  qi_name :: string
  qi_production :: bool
  qi_unconfirmed :: bool
  qi_always_ask :: bool

record question_info =
  qn_reason :: reason_kind
  qn_id :: nat
  qn_item_ids :: "nat list"
  qn_project :: "project option"
  qn_action :: action_kind
  qn_production :: bool
  qn_why :: string
  qn_items :: "question_item list"
  qn_valid_answers :: "answer_kind list"

record remember_offer =
  ro_pattern :: string
  ro_approvals :: nat
  ro_needed :: nat

record pending_run =
  pn_id :: nat
  pn_agent :: string
  pn_command :: "string list"
  pn_cwd :: string
  pn_env_names :: "string list"
  pn_purpose :: string
  pn_risk :: string
  pn_user_request :: string
  pn_request_source :: string
  pn_agent_request :: string
  pn_remember :: "remember_offer option"
  pn_question :: question_info

definition classifiable_item :: "question_info \<Rightarrow> question_item option" where
  "classifiable_item q = List.find qi_unconfirmed (qn_items q)"

definition unconfirmed_after_classification :: "question_info \<Rightarrow> nat" where
  "unconfirmed_after_classification q = length (filter qi_unconfirmed (qn_items q)) - 1"

record evaluation_confirmation =
  ec_item :: nat
  ec_revision :: nat
  ec_environment :: environment
  ec_risk :: risk_level
  ec_hosts :: "string list"

record evaluation_item =
  ei_name :: string
  ei_confirmation :: evaluation_confirmation

record evaluation_offer =
  eo_agent :: nat
  eo_project :: project
  eo_action :: action_kind
  eo_items :: "evaluation_item list"
  eo_command_binding :: "string option"

record evaluation_choice =
  ev_offer :: evaluation_offer
  ev_confirmations :: "evaluation_confirmation list"

record first_use_item =
  fi_item :: nat
  fi_name :: string
  fi_declaration :: "cred_declaration option"

record first_use_offer =
  fo_agent :: nat
  fo_folder :: string
  fo_items :: "first_use_item list"

text \<open>The form that Apassy suggested is only recorded; its text form stands for it.\<close>

record first_use_declaration =
  fd_item :: nat
  fd_declaration :: cred_declaration
  fd_provider :: "string option"
  fd_suggested :: "string option"

record grant_choice =
  gc_folder :: string
  gc_declarations :: "first_use_declaration list"

section \<open>Owner proofs\<close>

datatype check_method = TouchId | Passphrase | Companion | Remote

text \<open>The actions that the queue takes; \<open>OtherAction\<close> stands for every other action.\<close>

datatype owner_action =
    ApproveRun pending_run
  | ClassifyRemoteRun pending_run environment
  | QuestionDevelopment nat nat
  | ApproveAndRememberRun pending_run
  | ApproveAndEvaluate pending_run evaluation_offer "evaluation_confirmation list"
  | ApproveAndGrantRun pending_run first_use_offer "first_use_declaration list"
  | ApproveInProjectRun pending_run project action_kind
  | AllowProductionRun pending_run project action_kind
  | OtherAction string

fun action_run :: "owner_action \<Rightarrow> pending_run option" where
  "action_run (ApproveRun r) = Some r"
| "action_run (ApproveAndRememberRun r) = Some r"
| "action_run (ApproveAndEvaluate r _ _) = Some r"
| "action_run (ApproveAndGrantRun r _ _) = Some r"
| "action_run (ApproveInProjectRun r _ _) = Some r"
| "action_run (AllowProductionRun r _ _) = Some r"
| "action_run _ = None"

definition PROOF_LIFETIME :: nat where
  "PROOF_LIFETIME = 60000"

record owner_proof =
  op_action :: owner_action
  op_method :: check_method
  op_epoch :: string
  op_issued :: nat
  op_window :: "nat option"
  op_local_generation :: "(nat \<times> nat) option"

text \<open>What an operation reads of the world: the clock, the owner windows and the folders.\<close>

record world =
  w_now :: nat
  w_window_valid :: "nat \<Rightarrow> bool"
  w_window_generation :: "nat \<Rightarrow> nat"
  w_broad :: "string \<Rightarrow> bool"

datatype proof_refusal = WrongAction | OtherSession | StaleProof

definition is_fresh :: "world \<Rightarrow> owner_proof \<Rightarrow> bool" where
  "is_fresh w p \<longleftrightarrow> w_now w - op_issued p \<le> PROOF_LIFETIME
     \<and> (case op_window p of None \<Rightarrow> True | Some x \<Rightarrow> w_window_valid w x)
     \<and> (case op_local_generation p of None \<Rightarrow> True
        | Some (x, g) \<Rightarrow> w_window_generation w x = g)"

definition check_proof ::
    "world \<Rightarrow> owner_proof \<Rightarrow> owner_action \<Rightarrow> string \<Rightarrow> proof_refusal + unit" where
  "check_proof w p expected epoch =
     (if op_action p \<noteq> expected then Inl WrongAction
      else if op_epoch p \<noteq> epoch then Inl OtherSession
      else if \<not> is_fresh w p then Inl StaleProof
      else Inr ())"

section \<open>Decisions and the queue state\<close>

datatype qanswer = QApprove | QApproveAndRemember | QApproveAndGrant | QApproveInProject
  | QAllowProduction | QDeny

datatype approval_outcome = Approved | ApprovedAndRemembered | ApprovedAndGranted | Denied
  | TimedOut | Invalidated

datatype approval_refusal = NotAnApproval | Stale | NotWaiting | Changed | NothingToRemember
  | NothingToEvaluate | NothingToGrant | DeclarationsDoNotMatch | NoProject | NotProduction
  | ProductionNeedsAllowance

datatype question_refusal = QuestionBusy | Superseded

datatype stricter_answer = StricterNever | StricterAlwaysAsk | StricterDisconnect

record run_end =
  re_id :: nat
  re_outcome :: approval_outcome
  re_method :: "check_method option"

record settled =
  st_refusal_comment :: "string option"
  st_classification :: "environment option"
  st_classified_item :: "nat option"
  st_outcome :: approval_outcome
  st_method :: "check_method option"
  st_grant :: "grant_choice option"
  st_answer :: "answer_choice option"
  st_evaluation :: "evaluation_choice option"
  st_attached :: bool
  st_answered_on :: "string option"

definition ended_settled :: "approval_outcome \<Rightarrow> settled" where
  "ended_settled outcome = \<lparr>st_refusal_comment = None, st_classification = None,
     st_classified_item = None, st_outcome = outcome, st_method = None, st_grant = None,
     st_answer = None, st_evaluation = None, st_attached = False, st_answered_on = None\<rparr>"

record decision =
  de_refusal_comment :: "string option"
  de_classification :: "(environment \<times> nat) option"
  de_answer :: qanswer
  de_method :: "check_method option"
  de_grant :: "grant_choice option"
  de_remember :: "answer_choice option"
  de_evaluation :: "evaluation_choice option"
  de_answered_on :: "string option"

record question =
  qu_agent :: nat
  qu_session :: string
  qu_template :: pending_run
  qu_baseline :: string
  qu_deadline :: nat
  qu_turn :: nat

record asker =
  as_agent :: nat
  as_session :: string
  as_baseline :: string

record queue =
  q_next_id :: nat
  q_generation :: nat
  q_closed :: bool
  q_pending :: "pending_run list"
  q_offers :: "nat \<Rightarrow> first_use_offer option"
  q_evaluation_offers :: "nat \<Rightarrow> evaluation_offer option"
  q_questions :: "(nat \<times> question) list"
  q_replaced :: "nat list"
  q_decisions :: "nat \<Rightarrow> decision option"
  q_waiting_since :: "nat \<Rightarrow> nat option"
  q_ended :: "run_end list"
  q_answer_devices :: "nat \<Rightarrow> string option"

text \<open>\<open>new\<close>: a random start of 48 bits.\<close>

definition new_queue :: "nat \<Rightarrow> queue" where
  "new_queue seed = \<lparr>q_next_id = seed div 65536, q_generation = 0, q_closed = False,
     q_pending = [], q_offers = (\<lambda>_. None), q_evaluation_offers = (\<lambda>_. None),
     q_questions = [], q_replaced = [], q_decisions = (\<lambda>_. None),
     q_waiting_since = (\<lambda>_. None), q_ended = [], q_answer_devices = (\<lambda>_. None)\<rparr>"

definition template_of :: "pending_run \<Rightarrow> pending_run" where
  "template_of r = r\<lparr>pn_id := 0, pn_risk := [], pn_remember := None,
     pn_question := (pn_question r)\<lparr>qn_id := 0, qn_why := [], qn_reason := ROther\<rparr>\<rparr>"

definition waiting_run :: "queue \<Rightarrow> nat \<Rightarrow> pending_run option" where
  "waiting_run q i = List.find (\<lambda>r. pn_id r = i) (q_pending q)"

text \<open>A map in key order: insertion keeps the order, an existing key is overwritten.\<close>

fun bt_insert :: "nat \<Rightarrow> 'v \<Rightarrow> (nat \<times> 'v) list \<Rightarrow> (nat \<times> 'v) list" where
  "bt_insert k v [] = [(k, v)]"
| "bt_insert k v ((l, w) # m) =
     (if k < l then (k, v) # (l, w) # m
      else if k = l then (k, v) # m
      else (l, w) # bt_insert k v m)"

definition bt_remove :: "nat \<Rightarrow> (nat \<times> 'v) list \<Rightarrow> (nat \<times> 'v) list" where
  "bt_remove k m = filter (\<lambda>(l, _). l \<noteq> k) m"

definition wrapping_add64 :: "nat \<Rightarrow> nat \<Rightarrow> nat" where
  "wrapping_add64 a b = (a + b) mod 18446744073709551616"

section \<open>How a run ends\<close>

definition MAX_ENDED :: nat where
  "MAX_ENDED = 256"

fun outcome_of :: "qanswer \<Rightarrow> approval_outcome" where
  "outcome_of QApprove = Approved"
| "outcome_of QApproveInProject = Approved"
| "outcome_of QAllowProduction = Approved"
| "outcome_of QApproveAndRemember = ApprovedAndRemembered"
| "outcome_of QApproveAndGrant = ApprovedAndGranted"
| "outcome_of QDeny = Denied"

definition note_end :: "nat \<Rightarrow> approval_outcome \<Rightarrow> check_method option \<Rightarrow> queue \<Rightarrow> queue" where
  "note_end i outcome method q =
     (if waiting_run q i = None then q
      else q\<lparr>q_ended := (if MAX_ENDED \<le> length (q_ended q) then tl (q_ended q) else q_ended q)
               @ [\<lparr>re_id = i, re_outcome = outcome, re_method = method\<rparr>]\<rparr>)"

text \<open>The removals that \<open>settle\<close> and \<open>forget\<close> share.\<close>

definition remove_waiting :: "nat \<Rightarrow> queue \<Rightarrow> queue" where
  "remove_waiting i q = q
     \<lparr>q_answer_devices := (q_answer_devices q)(i := None),
      q_pending := filter (\<lambda>r. pn_id r \<noteq> i) (q_pending q),
      q_waiting_since := (q_waiting_since q)(i := None),
      q_offers := (q_offers q)(i := None),
      q_evaluation_offers := (q_evaluation_offers q)(i := None),
      q_questions := bt_remove i (q_questions q)\<rparr>"

definition settle ::
    "nat \<Rightarrow> qanswer \<Rightarrow> check_method option \<Rightarrow> grant_choice option \<Rightarrow> answer_choice option \<Rightarrow>
     evaluation_choice option \<Rightarrow> queue \<Rightarrow> queue" where
  "settle i answer method grant remember evaluation q =
     (let q1 = note_end i (outcome_of answer) method q;
          on = q_answer_devices q1 i;
          q2 = remove_waiting i q1
      in q2\<lparr>q_decisions := (q_decisions q2)(i \<mapsto>
           \<lparr>de_refusal_comment = None, de_classification = None, de_answer = answer,
            de_method = method, de_grant = grant, de_remember = remember,
            de_evaluation = evaluation, de_answered_on = on\<rparr>)\<rparr>)"

definition forget :: "nat \<Rightarrow> approval_outcome \<Rightarrow> queue \<Rightarrow> queue" where
  "forget i outcome q = remove_waiting i (note_end i outcome None q)"

definition invalidate_all :: "queue \<Rightarrow> queue" where
  "invalidate_all q =
     (let q1 = q\<lparr>q_generation := wrapping_add64 (q_generation q) 1\<rparr>;
          q2 = fold (\<lambda>i. note_end i Invalidated None) (map pn_id (q_pending q1)) q1
      in q2\<lparr>q_pending := [], q_waiting_since := (\<lambda>_. None), q_offers := (\<lambda>_. None),
            q_evaluation_offers := (\<lambda>_. None), q_questions := [],
            q_decisions := (\<lambda>_. None), q_answer_devices := (\<lambda>_. None)\<rparr>)"

definition close_queue :: "queue \<Rightarrow> queue" where
  "close_queue q = invalidate_all (q\<lparr>q_closed := True\<rparr>)"

definition take_ended :: "queue \<Rightarrow> run_end list \<times> queue" where
  "take_ended q = (q_ended q, q\<lparr>q_ended := []\<rparr>)"

definition note_answer_device :: "nat \<Rightarrow> string \<Rightarrow> queue \<Rightarrow> queue" where
  "note_answer_device i device q =
     (if waiting_run q i = None then q
      else q\<lparr>q_answer_devices := (q_answer_devices q)(i \<mapsto> device)\<rparr>)"

definition forget_answer_device :: "nat \<Rightarrow> queue \<Rightarrow> queue" where
  "forget_answer_device i q = q\<lparr>q_answer_devices := (q_answer_devices q)(i := None)\<rparr>"

definition pending_with_age :: "world \<Rightarrow> queue \<Rightarrow> (pending_run \<times> nat) list" where
  "pending_with_age w q = map (\<lambda>r. (r, case q_waiting_since q (pn_id r) of
       None \<Rightarrow> 0 | Some since \<Rightarrow> w_now w - since)) (q_pending q)"

section \<open>Approving\<close>

definition answer_choice_of ::
    "pending_run \<Rightarrow> project \<Rightarrow> action_kind \<Rightarrow> bool \<Rightarrow> approval_refusal + answer_choice" where
  "answer_choice_of waiting project_asked action production =
     (let q = pn_question waiting;
          offered = (if production then ProductionAnswer action else InProject action)
      in if qn_item_ids q = [] \<or> qn_project q \<noteq> Some project_asked \<or> qn_action q \<noteq> action
         then Inl NoProject
         else if production \<and> \<not> qn_production q then Inl NotProduction
         else if \<not> production \<and> qn_production q then Inl ProductionNeedsAllowance
         else if offered \<notin> set (qn_valid_answers q) then Inl NoProject
         else Inr \<lparr>ch_project = project_asked, ch_action = action, ch_production = production\<rparr>)"

definition grant_choice_of ::
    "world \<Rightarrow> first_use_offer option \<Rightarrow> first_use_offer \<Rightarrow> first_use_declaration list \<Rightarrow>
     approval_refusal + grant_choice" where
  "grant_choice_of w waiting confirmed declarations =
     (case waiting of
        None \<Rightarrow> Inl NothingToGrant
      | Some offer \<Rightarrow>
          if offer \<noteq> confirmed then Inl Changed
          else if w_broad w (fo_folder offer) then Inl NothingToGrant
          else if sort (map fd_item declarations)
                  \<noteq> sort (map fi_item (filter (\<lambda>i. fi_declaration i = None) (fo_items offer)))
          then Inl DeclarationsDoNotMatch
          else Inr \<lparr>gc_folder = fo_folder offer, gc_declarations = declarations\<rparr>)"

definition offered_confirmations :: "evaluation_offer \<Rightarrow> (nat \<times> evaluation_confirmation) list" where
  "offered_confirmations offer =
     map (\<lambda>i. (ec_item (ei_confirmation i), ei_confirmation i)) (eo_items offer)"

fun confirmations_match ::
    "(nat \<times> evaluation_confirmation) list \<Rightarrow> nat list \<Rightarrow> evaluation_confirmation list \<Rightarrow> bool" where
  "confirmations_match expected seen [] \<longleftrightarrow> True"
| "confirmations_match expected seen (c # cs) \<longleftrightarrow>
     (case map_of expected (ec_item c) of
        None \<Rightarrow> False
      | Some offered \<Rightarrow>
          ec_item c \<notin> set seen \<and> ec_revision c = ec_revision offered
          \<and> ec_hosts c = ec_hosts offered
          \<and> confirmations_match expected (ec_item c # seen) cs)"

definition evaluation_choice_of ::
    "pending_run \<Rightarrow> nat \<Rightarrow> evaluation_offer option \<Rightarrow> evaluation_offer \<Rightarrow>
     evaluation_confirmation list \<Rightarrow> approval_refusal + evaluation_choice" where
  "evaluation_choice_of run agent_id waiting confirmed confirmations =
     (case waiting of
        None \<Rightarrow> Inl NothingToEvaluate
      | Some offer \<Rightarrow>
          let expected = offered_confirmations offer;
              q = pn_question run
          in if offer \<noteq> confirmed \<or> eo_agent offer \<noteq> agent_id
                \<or> qn_project q \<noteq> Some (eo_project offer) \<or> qn_action q \<noteq> eo_action offer
                \<or> eo_items offer = [] then Inl Changed
             else if \<not> distinct (map fst expected) \<or> \<not> distinct (qn_item_ids q)
                \<or> set (map fst expected) \<noteq> set (qn_item_ids q)
                \<or> length confirmations \<noteq> length expected then Inl Changed
             else if \<not> confirmations_match expected [] confirmations then Inl Changed
             else Inr \<lparr>ev_offer = offer, ev_confirmations = confirmations\<rparr>)"

fun answer_of_action :: "owner_action \<Rightarrow> qanswer" where
  "answer_of_action (ApproveAndRememberRun _) = QApproveAndRemember"
| "answer_of_action (ApproveAndGrantRun _ _ _) = QApproveAndGrant"
| "answer_of_action (ApproveInProjectRun _ _ _) = QApproveInProject"
| "answer_of_action (AllowProductionRun _ _ _) = QAllowProduction"
| "answer_of_action _ = QApprove"

text \<open>An optional part of an answer: absent unless the action has it.\<close>

definition optional_part :: "('e + 'a) option \<Rightarrow> 'e + 'a option" where
  "optional_part x = (case x of
       None \<Rightarrow> Inr None | Some (Inl e) \<Rightarrow> Inl e | Some (Inr v) \<Rightarrow> Inr (Some v))"

definition remember_part ::
    "pending_run \<Rightarrow> owner_action \<Rightarrow> (approval_refusal + answer_choice) option" where
  "remember_part waiting a = (case a of
       ApproveInProjectRun _ p action \<Rightarrow> Some (answer_choice_of waiting p action False)
     | AllowProductionRun _ p action \<Rightarrow> Some (answer_choice_of waiting p action True)
     | _ \<Rightarrow> None)"

definition grant_part ::
    "world \<Rightarrow> queue \<Rightarrow> nat \<Rightarrow> owner_action \<Rightarrow> (approval_refusal + grant_choice) option" where
  "grant_part w q i a = (case a of
       ApproveAndGrantRun _ offer declarations \<Rightarrow>
         Some (grant_choice_of w (q_offers q i) offer declarations)
     | _ \<Rightarrow> None)"

definition evaluation_part ::
    "world \<Rightarrow> queue \<Rightarrow> pending_run \<Rightarrow> owner_proof \<Rightarrow> (approval_refusal + evaluation_choice) option" where
  "evaluation_part w q waiting p = (case op_action p of
       ApproveAndEvaluate confirmed offer confirmations \<Rightarrow>
         Some (and_then (ok_or NothingToEvaluate (map_of (q_questions q) (pn_id confirmed))) (\<lambda>qu.
           case check_proof w p (op_action p) (qu_session qu) of
             Inl _ \<Rightarrow> Inl Changed
           | Inr _ \<Rightarrow> evaluation_choice_of waiting (qu_agent qu)
                        (q_evaluation_offers q (pn_id confirmed)) offer confirmations))
     | _ \<Rightarrow> None)"

definition approve :: "world \<Rightarrow> owner_proof \<Rightarrow> queue \<Rightarrow> approval_refusal + queue" where
  "approve w p q =
     (case action_run (op_action p) of
        None \<Rightarrow> Inl NotAnApproval
      | Some confirmed \<Rightarrow>
          let i = pn_id confirmed; answer = answer_of_action (op_action p)
          in if \<not> is_fresh w p then Inl Stale
             else if (case map_of (q_questions q) i of
                        None \<Rightarrow> False
                      | Some qu \<Rightarrow> \<not> is_ok (check_proof w p (op_action p) (qu_session qu)))
             then Inl Changed
             else (case waiting_run q i of
                 None \<Rightarrow> Inl NotWaiting
               | Some waiting \<Rightarrow>
                   if waiting \<noteq> confirmed then Inl Changed
                   else if answer = QApproveAndRemember \<and> pn_remember waiting = None
                   then Inl NothingToRemember
                   else
                     and_then (optional_part (remember_part waiting (op_action p))) (\<lambda>remember.
                     and_then (optional_part (grant_part w q i (op_action p))) (\<lambda>grant.
                     and_then (optional_part (evaluation_part w q waiting p)) (\<lambda>evaluation.
                     Inr (settle i answer (Some (op_method p)) grant remember evaluation q))))))"

section \<open>Denying\<close>

definition refusal_comment :: "string \<Rightarrow> string" where
  "refusal_comment t =
     trim (concat (take 500 (filter (\<lambda>c. \<not> is_control c
        \<and> map byte c \<noteq> [0xE2, 0x80, 0xA8] \<and> map byte c \<noteq> [0xE2, 0x80, 0xA9]) (chars t))))"

definition deny :: "nat \<Rightarrow> queue \<Rightarrow> bool \<times> queue" where
  "deny i q =
     (if waiting_run q i = None then (False, q)
      else (True, settle i QDeny None None None None q))"

definition deny_with_comment :: "nat \<Rightarrow> string \<Rightarrow> queue \<Rightarrow> bool \<times> queue" where
  "deny_with_comment i comment q =
     (if waiting_run q i = None then (False, q)
      else let q' = settle i QDeny None None None None q
           in (True, q'\<lparr>q_decisions := (q_decisions q')(i :=
                 map_option (\<lambda>d. d\<lparr>de_refusal_comment := Some (refusal_comment comment)\<rparr>)
                   (q_decisions q' i))\<rparr>))"

definition classify_and_approve ::
    "world \<Rightarrow> pending_run \<Rightarrow> environment \<Rightarrow> nat \<Rightarrow> owner_proof \<Rightarrow> queue \<Rightarrow> bool \<times> queue" where
  "classify_and_approve w run e item p q =
     (let expected = (case op_action p of
            ClassifyRemoteRun _ _ \<Rightarrow> ClassifyRemoteRun run e
          | _ \<Rightarrow> QuestionDevelopment (pn_id run) item);
          qu = map_of (q_questions q) (pn_id run)
      in if (case qu of None \<Rightarrow> True | Some x \<Rightarrow> \<not> is_ok (check_proof w p expected (qu_session x)))
            \<or> (case classifiable_item (pn_question run) of
                 None \<Rightarrow> True | Some it \<Rightarrow> qi_item it \<noteq> item)
            \<or> (e \<noteq> Development \<and> e \<noteq> Production)
            \<or> run \<notin> set (q_pending q)
            \<or> (case qu of None \<Rightarrow> True | Some x \<Rightarrow> \<not> w_now w < qu_deadline x)
         then (False, q)
         else let q' = settle (pn_id run) QApprove (Some (op_method p)) None None None q
              in (True, q'\<lparr>q_decisions := (q_decisions q')(pn_id run :=
                    map_option (\<lambda>d. d\<lparr>de_classification := Some (e, item)\<rparr>)
                      (q_decisions q' (pn_id run)))\<rparr>))"

text \<open>\<open>with_pending_development\<close>: the correction runs only while its exact question waits.\<close>

definition pending_development :: "world \<Rightarrow> pending_run \<Rightarrow> nat \<Rightarrow> queue \<Rightarrow> bool" where
  "pending_development w confirmed item q =
     (case waiting_run q (pn_id confirmed) of
        None \<Rightarrow> False
      | Some waiting \<Rightarrow>
          waiting = confirmed \<and> item \<in> set (qn_item_ids (pn_question waiting))
          \<and> CorrectEnvironment \<in> set (qn_valid_answers (pn_question waiting))
          \<and> (case classifiable_item (pn_question waiting) of
               None \<Rightarrow> False | Some it \<Rightarrow> qi_item it = item)
          \<and> (case map_of (q_questions q) (pn_id confirmed) of
               None \<Rightarrow> False | Some x \<Rightarrow> w_now w < qu_deadline x))"

text \<open>\<open>try_for_each\<close>: each exception commits by itself, the first error stops.\<close>

fun add_exceptions ::
    "nat \<Rightarrow> nat \<Rightarrow> exception_kind \<Rightarrow> nat list \<Rightarrow> vault \<Rightarrow> (verr + unit) \<times> vault" where
  "add_exceptions now agent kind [] v = (Inr (), v)"
| "add_exceptions now agent kind (i # is) v =
     (case add_agent_exception now v agent i kind of
        Inl e \<Rightarrow> (Inl e, v)
      | Inr v' \<Rightarrow> add_exceptions now agent kind is v')"

definition deny_stricter ::
    "nat \<Rightarrow> nat \<Rightarrow> stricter_answer \<Rightarrow> vault \<Rightarrow> queue \<Rightarrow> (verr + bool) \<times> vault \<times> queue" where
  "deny_stricter now i stricter v q =
     (case waiting_run q i of
        None \<Rightarrow> (Inr False, v, q)
      | Some run \<Rightarrow>
          (case map_of (q_questions q) i of
             None \<Rightarrow> (Inl InvalidInput, v, q)
           | Some qu \<Rightarrow>
               let (changed, v') = (case stricter of
                     StricterDisconnect \<Rightarrow>
                       (case revoke_agent now v (qu_agent qu) of
                          Inl e \<Rightarrow> (Inl e, v) | Inr v' \<Rightarrow> (Inr (), v'))
                   | StricterNever \<Rightarrow>
                       add_exceptions now (qu_agent qu) Never (qn_item_ids (pn_question run)) v
                   | StricterAlwaysAsk \<Rightarrow>
                       add_exceptions now (qu_agent qu) AlwaysAsk (qn_item_ids (pn_question run)) v)
               in (and_then changed (\<lambda>_. Inr True), v', settle i QDeny None None None None q)))"

section \<open>Waiting\<close>

text \<open>A call between two turns of its loop.\<close>

record waiter =
  wt_id :: nat
  wt_turn :: nat
  wt_deadline :: nat
  wt_generation :: nat
  wt_asks :: bool
  wt_attached :: bool

type_synonym wait_result = "question_refusal + settled"

datatype wait_state = Returned wait_result | Waits waiter

text \<open>What a call finds of a question of its agent: nothing, one to join, one to replace, or
  another one that makes it busy.\<close>

datatype found = FoundNone | FoundJoin nat question | FoundReplace nat | FoundBusy

definition find_question ::
    "asker option \<Rightarrow> first_use_offer option \<Rightarrow> evaluation_offer option \<Rightarrow> pending_run \<Rightarrow> queue \<Rightarrow> found" where
  "find_question asker_opt offer evaluation template q =
     (case asker_opt of
        None \<Rightarrow> FoundNone
      | Some a \<Rightarrow>
          (case List.find (\<lambda>(i, qu). qu_agent qu = as_agent a) (q_questions q) of
             None \<Rightarrow> FoundNone
           | Some (i, qu) \<Rightarrow>
               if offer = None \<and> qu_session qu = as_session a \<and> qu_template qu = template then
                 (if qu_baseline qu = as_baseline a \<and> q_evaluation_offers q i = evaluation
                  then FoundJoin i qu else FoundReplace i)
               else FoundBusy))"

definition enqueue ::
    "nat \<Rightarrow> pending_run \<Rightarrow> first_use_offer option \<Rightarrow> evaluation_offer option \<Rightarrow> asker option \<Rightarrow>
     nat \<Rightarrow> queue \<Rightarrow> waiter \<times> queue" where
  "enqueue now run offer evaluation asker_opt timeout q =
     (let i = wrapping_add64 (q_next_id q) 1;
          deadline = now + timeout;
          run' = run\<lparr>pn_id := i, pn_question := (pn_question run)\<lparr>qn_id := i\<rparr>\<rparr>
      in (\<lparr>wt_id = i, wt_turn = 0, wt_deadline = deadline, wt_generation = q_generation q,
           wt_asks = (asker_opt \<noteq> None), wt_attached = False\<rparr>,
          q\<lparr>q_next_id := i, q_pending := q_pending q @ [run'],
            q_waiting_since := (q_waiting_since q)(i \<mapsto> now),
            q_offers := (case offer of None \<Rightarrow> q_offers q | Some f \<Rightarrow> (q_offers q)(i \<mapsto> f)),
            q_evaluation_offers := (case evaluation of None \<Rightarrow> q_evaluation_offers q
                                    | Some f \<Rightarrow> (q_evaluation_offers q)(i \<mapsto> f)),
            q_questions := (case asker_opt of None \<Rightarrow> q_questions q
               | Some a \<Rightarrow> bt_insert i \<lparr>qu_agent = as_agent a, qu_session = as_session a,
                    qu_template = template_of run, qu_baseline = as_baseline a,
                    qu_deadline = deadline, qu_turn = 0\<rparr> (q_questions q))\<rparr>))"

definition wait_start ::
    "nat \<Rightarrow> bool \<Rightarrow> pending_run \<Rightarrow> first_use_offer option \<Rightarrow> evaluation_offer option \<Rightarrow>
     asker option \<Rightarrow> nat \<Rightarrow> queue \<Rightarrow> wait_state \<times> queue" where
  "wait_start now cancelled run offer evaluation asker_opt timeout q =
     (if q_closed q \<or> cancelled then (Returned (Inr (ended_settled Invalidated)), q)
      else (case find_question asker_opt offer evaluation (template_of run) q of
          FoundBusy \<Rightarrow> (Returned (Inl QuestionBusy), q)
        | FoundJoin i qu \<Rightarrow>
            let turn = wrapping_add64 (qu_turn qu) 1
            in (Waits \<lparr>wt_id = i, wt_turn = turn, wt_deadline = qu_deadline qu,
                  wt_generation = q_generation q, wt_asks = True, wt_attached = True\<rparr>,
                q\<lparr>q_questions := bt_insert i (qu\<lparr>qu_turn := turn\<rparr>) (q_questions q)\<rparr>)
        | FoundReplace old \<Rightarrow>
            let q1 = forget old Invalidated q;
                q2 = q1\<lparr>q_replaced := List.insert old (q_replaced q1)\<rparr>
            in (case enqueue now run offer evaluation asker_opt timeout q2 of
                  (wt, q3) \<Rightarrow> (Waits wt, q3))
        | FoundNone \<Rightarrow>
            (case enqueue now run offer evaluation asker_opt timeout q of
               (wt, q') \<Rightarrow> (Waits wt, q'))))"

definition is_superseded :: "waiter \<Rightarrow> queue \<Rightarrow> bool" where
  "is_superseded wt q \<longleftrightarrow> wt_asks wt
     \<and> (case map_of (q_questions q) (wt_id wt) of
          None \<Rightarrow> False | Some qu \<Rightarrow> qu_turn qu \<noteq> wt_turn wt)"

definition settled_of :: "bool \<Rightarrow> decision \<Rightarrow> settled" where
  "settled_of attached d = \<lparr>st_refusal_comment = de_refusal_comment d,
     st_classification = map_option fst (de_classification d),
     st_classified_item = map_option snd (de_classification d),
     st_outcome = outcome_of (de_answer d), st_method = de_method d, st_grant = de_grant d,
     st_answer = de_remember d, st_evaluation = de_evaluation d, st_attached = attached,
     st_answered_on = de_answered_on d\<rparr>"

definition drop_replaced :: "nat \<Rightarrow> queue \<Rightarrow> queue" where
  "drop_replaced i q = q\<lparr>q_replaced := filter (\<lambda>j. j \<noteq> i) (q_replaced q)\<rparr>"

definition drop_decision :: "nat \<Rightarrow> queue \<Rightarrow> queue" where
  "drop_decision i q = q\<lparr>q_decisions := (q_decisions q)(i := None)\<rparr>"

definition end_invalid :: "nat \<Rightarrow> queue \<Rightarrow> wait_result \<times> queue" where
  "end_invalid i q = (Inr (ended_settled Invalidated), drop_decision i (forget i Invalidated q))"

text \<open>One turn of the loop up to the sleep; \<open>None\<close> sleeps.\<close>

definition wait_poll :: "nat \<Rightarrow> bool \<Rightarrow> waiter \<Rightarrow> queue \<Rightarrow> wait_result option \<times> queue" where
  "wait_poll now cancelled wt q =
     (let i = wt_id wt
      in if i \<in> set (q_replaced q) then (Some (Inl Superseded), drop_replaced i q)
         else if q_generation q \<noteq> wt_generation wt \<or> cancelled then
           (case end_invalid i q of (r, q') \<Rightarrow> (Some r, q'))
         else if is_superseded wt q then (Some (Inl Superseded), q)
         else (case q_decisions q i of
             Some d \<Rightarrow> (Some (Inr (settled_of (wt_attached wt) d)), drop_decision i q)
           | None \<Rightarrow>
               if waiting_run q i = None then (Some (Inr (ended_settled Invalidated)), q)
               else if wt_deadline wt \<le> now then
                 (Some (Inr ((ended_settled TimedOut)\<lparr>st_attached := wt_attached wt\<rparr>)),
                  forget i TimedOut q)
               else (None, q)))"

text \<open>The branch after \<open>still_valid\<close> returned false.\<close>

definition wait_invalid :: "waiter \<Rightarrow> queue \<Rightarrow> wait_result \<times> queue" where
  "wait_invalid wt q =
     (let i = wt_id wt
      in if i \<in> set (q_replaced q) then (Inl Superseded, drop_replaced i q)
         else if is_superseded wt q then (Inl Superseded, q)
         else end_invalid i q)"

end
