(* ===== verification/QueueSafety.thy ===== *)
theory QueueSafety
  imports Approvals "HOL-Library.Multiset"
begin

text \<open>
  The safety of the approval queue: the invariant of its state over every sequence of its
  operations, and what an approval and an answer can do. \<open>qstep\<close> has one rule for each
  public operation and for each part of a waiting call, for any arguments, so it covers
  every interleaving of the owner, the relay worker and any number of waiting calls.
\<close>

section \<open>The invariant\<close>

definition pending_ids :: "queue \<Rightarrow> nat set" where
  "pending_ids q = set (map pn_id (q_pending q))"

definition questions_ok :: "queue \<Rightarrow> bool" where
  "questions_ok q \<longleftrightarrow> sorted_wrt (<) (map fst (q_questions q))
     \<and> set (map fst (q_questions q)) \<subseteq> pending_ids q
     \<and> distinct (map (qu_agent \<circ> snd) (q_questions q))"

definition side_tables_ok :: "queue \<Rightarrow> bool" where
  "side_tables_ok q \<longleftrightarrow> dom (q_offers q) \<subseteq> pending_ids q
     \<and> dom (q_evaluation_offers q) \<subseteq> pending_ids q
     \<and> dom (q_waiting_since q) \<subseteq> pending_ids q
     \<and> dom (q_answer_devices q) \<subseteq> pending_ids q"

definition ids_ok :: "queue \<Rightarrow> bool" where
  "ids_ok q \<longleftrightarrow> distinct (map pn_id (q_pending q))
     \<and> (\<forall>i\<in>pending_ids q. i \<le> q_next_id q)
     \<and> (\<forall>i\<in>dom (q_decisions q). i \<le> q_next_id q)
     \<and> (\<forall>i\<in>set (q_replaced q). i \<le> q_next_id q)
     \<and> pending_ids q \<inter> dom (q_decisions q) = {}
     \<and> pending_ids q \<inter> set (q_replaced q) = {}
     \<and> dom (q_decisions q) \<inter> set (q_replaced q) = {}"

definition queue_ok :: "queue \<Rightarrow> bool" where
  "queue_ok q \<longleftrightarrow> ids_ok q \<and> questions_ok q \<and> side_tables_ok q \<and> length (q_ended q) \<le> MAX_ENDED"

section \<open>The tables of the queue\<close>

interpretation bt: upsert_table map_of "\<lambda>m k f. bt_insert k (f (map_of m k)) m" "\<lambda>_ _. True"
proof
  fix k k' :: nat and f :: "'v option \<Rightarrow> 'v" and t :: "(nat \<times> 'v) list"
  have "map_of (bt_insert k v t) k' = (if k' = k then Some v else map_of t k')" for v
    by (induction k v t rule: bt_insert.induct) auto
  then show "map_of (bt_insert k (f (map_of t k)) t) k'
      = (if k' = k then Some (f (map_of t k)) else map_of t k')"
    by simp
qed

lemma map_of_bt_insert [simp]:
  "map_of (bt_insert k v m) k' = (if k' = k then Some v else map_of m k')"
  using bt.lookup_upsert [of k "\<lambda>_. v" m k'] by simp

lemma set_bt_insert: "set (bt_insert k v m) \<subseteq> insert (k, v) (set m)"
  by (induction k v m rule: bt_insert.induct) auto

lemma fst_bt_insert: "fst ` set (bt_insert k v m) = insert k (fst ` set m)"
  by (induction k v m rule: bt_insert.induct) auto

lemma sorted_bt_insert:
  "sorted_wrt (<) (map fst m) \<Longrightarrow> sorted_wrt (<) (map fst (bt_insert k v m))"
  by (induction k v m rule: bt_insert.induct) (auto simp: fst_bt_insert)

lemma map_of_bt_remove [simp]: "map_of (bt_remove k m) k' = (if k' = k then None else map_of m k')"
  by (induction m) (auto simp: bt_remove_def)

lemma set_bt_remove: "set (bt_remove k m) = {x \<in> set m. fst x \<noteq> k}"
  by (auto simp: bt_remove_def)

lemma map_filter_sublist: "sorted_wrt P (map f m) \<Longrightarrow> sorted_wrt P (map f (filter Q m))"
  by (induction m) auto

lemma distinct_map_filter_sub: "distinct (map f m) \<Longrightarrow> distinct (map f (filter Q m))"
  by (induction m) auto

lemma agents_bt_insert_new:
  "distinct (map (f \<circ> snd) m) \<Longrightarrow> (\<forall>x\<in>set m. f (snd x) \<noteq> f v) \<Longrightarrow> k \<notin> fst ` set m \<Longrightarrow>
     distinct (map (f \<circ> snd) (bt_insert k v m))"
proof (induction k v m rule: bt_insert.induct)
  case (2 k v l w m)
  then show ?case using set_bt_insert [of k v m] by force
qed simp

lemma agents_bt_insert_same:
  "map_of m k = Some w \<Longrightarrow> f v = f w \<Longrightarrow> sorted_wrt (<) (map fst m) \<Longrightarrow>
     map (f \<circ> snd) (bt_insert k v m) = map (f \<circ> snd) m"
proof (induction k v m rule: bt_insert.induct)
  case (2 k v l u m)
  have "l < k" if "map_of m k = Some w"
    using that 2 by (force dest: map_of_SomeD)
  with 2 show ?case by (auto split: if_splits)
qed simp

lemma waiting_run_None: "waiting_run q i = None \<longleftrightarrow> i \<notin> pending_ids q"
  by (auto simp: waiting_run_def find_None_iff pending_ids_def)

lemma waiting_run_Some: "waiting_run q i = Some r \<Longrightarrow> r \<in> set (q_pending q) \<and> pn_id r = i"
  by (auto simp: waiting_run_def find_Some_iff)

lemma waiting_run_unique:
  "ids_ok q \<Longrightarrow> r \<in> set (q_pending q) \<Longrightarrow> waiting_run q (pn_id r) = Some r"
  by (cases "waiting_run q (pn_id r)")
    (auto simp: waiting_run_None pending_ids_def ids_ok_def distinct_map inj_on_def
      dest!: waiting_run_Some)

section \<open>One lemma per building block\<close>

lemma note_end_simps [simp]:
  "q_next_id (note_end i o' m q) = q_next_id q"
  "q_generation (note_end i o' m q) = q_generation q"
  "q_closed (note_end i o' m q) = q_closed q"
  "q_pending (note_end i o' m q) = q_pending q"
  "q_offers (note_end i o' m q) = q_offers q"
  "q_evaluation_offers (note_end i o' m q) = q_evaluation_offers q"
  "q_questions (note_end i o' m q) = q_questions q"
  "q_replaced (note_end i o' m q) = q_replaced q"
  "q_decisions (note_end i o' m q) = q_decisions q"
  "q_waiting_since (note_end i o' m q) = q_waiting_since q"
  "q_answer_devices (note_end i o' m q) = q_answer_devices q"
  "pending_ids (note_end i o' m q) = pending_ids q"
  by (simp_all add: note_end_def pending_ids_def)

lemma note_end_length:
  "length (q_ended q) \<le> MAX_ENDED \<Longrightarrow> length (q_ended (note_end i o' m q)) \<le> MAX_ENDED"
  by (auto simp: note_end_def MAX_ENDED_def)

lemma queue_ok_note_end: "queue_ok q \<Longrightarrow> queue_ok (note_end i o' m q)"
  by (simp add: queue_ok_def ids_ok_def questions_ok_def side_tables_ok_def note_end_length)

lemma pending_ids_remove: "pending_ids (remove_waiting i q) = pending_ids q - {i}"
  by (auto simp: pending_ids_def remove_waiting_def)

lemma remove_waiting_simps [simp]:
  "q_next_id (remove_waiting i q) = q_next_id q"
  "q_generation (remove_waiting i q) = q_generation q"
  "q_closed (remove_waiting i q) = q_closed q"
  "q_replaced (remove_waiting i q) = q_replaced q"
  "q_decisions (remove_waiting i q) = q_decisions q"
  "q_ended (remove_waiting i q) = q_ended q"
  "q_questions (remove_waiting i q) = bt_remove i (q_questions q)"
  by (simp_all add: remove_waiting_def)

lemma queue_ok_remove: "queue_ok q \<Longrightarrow> queue_ok (remove_waiting i q)"
  unfolding queue_ok_def ids_ok_def questions_ok_def side_tables_ok_def pending_ids_remove
  by (auto simp: remove_waiting_def bt_remove_def map_filter_sublist distinct_map_filter_sub
      comp_def dom_def split: if_splits)

lemma queue_ok_forget: "queue_ok q \<Longrightarrow> queue_ok (forget i o' q)"
  by (simp add: forget_def queue_ok_remove queue_ok_note_end)

lemma queue_ok_decide:
  "queue_ok q \<Longrightarrow> i \<notin> pending_ids q \<Longrightarrow> i \<notin> set (q_replaced q) \<Longrightarrow> i \<le> q_next_id q \<Longrightarrow>
     queue_ok (q\<lparr>q_decisions := (q_decisions q)(i \<mapsto> d)\<rparr>)"
  by (auto simp: queue_ok_def ids_ok_def questions_ok_def side_tables_ok_def pending_ids_def)

lemma settle_eq:
  "settle i a m g r e q =
     (let q2 = remove_waiting i (note_end i (outcome_of a) m q)
      in q2\<lparr>q_decisions := (q_decisions q)(i \<mapsto>
           \<lparr>de_refusal_comment = None, de_classification = None, de_answer = a, de_method = m,
            de_grant = g, de_remember = r, de_evaluation = e,
            de_answered_on = q_answer_devices q i\<rparr>)\<rparr>)"
  by (simp add: settle_def Let_def)

lemma queue_ok_settle:
  assumes "queue_ok q" "i \<in> pending_ids q"
  shows "queue_ok (settle i a m g r e q)"
proof -
  let ?q = "remove_waiting i (note_end i (outcome_of a) m q)"
  have "queue_ok ?q"
    using assms by (simp add: queue_ok_remove queue_ok_note_end)
  moreover have "i \<notin> pending_ids ?q" "i \<notin> set (q_replaced ?q)" "i \<le> q_next_id ?q"
    using assms by (auto simp: pending_ids_remove queue_ok_def ids_ok_def)
  ultimately show ?thesis
    using queue_ok_decide [of ?q i] by (simp add: settle_eq Let_def)
qed

lemma queue_ok_update_decision:
  "queue_ok q \<Longrightarrow> q_decisions q i \<noteq> None \<Longrightarrow> queue_ok (q\<lparr>q_decisions := (q_decisions q)(i := map_option f (q_decisions q i))\<rparr>)"
  by (auto simp: queue_ok_def ids_ok_def questions_ok_def side_tables_ok_def pending_ids_def)

lemma queue_ok_drop_decision: "queue_ok q \<Longrightarrow> queue_ok (drop_decision i q)"
  by (auto simp: queue_ok_def ids_ok_def questions_ok_def side_tables_ok_def pending_ids_def
    drop_decision_def dom_def)

lemma queue_ok_drop_replaced: "queue_ok q \<Longrightarrow> queue_ok (drop_replaced i q)"
  by (auto simp: queue_ok_def ids_ok_def questions_ok_def side_tables_ok_def pending_ids_def
    drop_replaced_def)

lemma fold_note_end:
  "q_next_id (fold (\<lambda>i. note_end i o' m) is q) = q_next_id q
   \<and> q_generation (fold (\<lambda>i. note_end i o' m) is q) = q_generation q
   \<and> q_closed (fold (\<lambda>i. note_end i o' m) is q) = q_closed q
   \<and> q_replaced (fold (\<lambda>i. note_end i o' m) is q) = q_replaced q
   \<and> (length (q_ended q) \<le> MAX_ENDED \<longrightarrow>
        length (q_ended (fold (\<lambda>i. note_end i o' m) is q)) \<le> MAX_ENDED)"
  by (induction "is" arbitrary: q) (simp_all add: note_end_length)

lemma invalidate_all_simps [simp]:
  "q_pending (invalidate_all q) = []" "q_decisions (invalidate_all q) = (\<lambda>_. None)"
  "q_questions (invalidate_all q) = []" "q_next_id (invalidate_all q) = q_next_id q"
  "q_replaced (invalidate_all q) = q_replaced q" "q_closed (invalidate_all q) = q_closed q"
  "q_generation (invalidate_all q) = wrapping_add64 (q_generation q) 1"
  by (simp_all add: invalidate_all_def Let_def fold_note_end)

lemma queue_ok_invalidate: "queue_ok q \<Longrightarrow> queue_ok (invalidate_all q)"
  by (auto simp: queue_ok_def ids_ok_def questions_ok_def side_tables_ok_def pending_ids_def
      invalidate_all_def Let_def fold_note_end)

lemma queue_ok_close: "queue_ok q \<Longrightarrow> queue_ok (close_queue q)"
  unfolding close_queue_def
  by (rule queue_ok_invalidate)
    (simp add: queue_ok_def ids_ok_def questions_ok_def side_tables_ok_def pending_ids_def)

section \<open>Starting to wait\<close>

lemma enqueue_simps:
  assumes "enqueue now run offer evaluation a timeout q = (wt, q')"
  shows "q_next_id q' = wrapping_add64 (q_next_id q) 1"
    "wt_id wt = wrapping_add64 (q_next_id q) 1" "wt_generation wt = q_generation q"
    "q_generation q' = q_generation q" "q_decisions q' = q_decisions q"
    "q_replaced q' = q_replaced q" "q_ended q' = q_ended q"
    "pending_ids q' = insert (wrapping_add64 (q_next_id q) 1) (pending_ids q)"
    "q_closed q' = q_closed q"
  using assms by (auto simp: enqueue_def Let_def pending_ids_def)

text \<open>The agent of a new question has no question yet.\<close>

definition no_question :: "asker option \<Rightarrow> queue \<Rightarrow> bool" where
  "no_question a q \<longleftrightarrow> (case a of None \<Rightarrow> True
     | Some x \<Rightarrow> list_all (\<lambda>(_, qu). qu_agent qu \<noteq> as_agent x) (q_questions q))"

lemma queue_ok_enqueue:
  assumes ok: "queue_ok q" and new: "no_question a q" "q_next_id q < 18446744073709551615"
    and eq: "enqueue now run offer evaluation a timeout q = (wt, q')"
  shows "queue_ok q'"
proof -
  let ?i = "Suc (q_next_id q)"
  have i: "wrapping_add64 (q_next_id q) 1 = ?i"
    using new by (simp add: wrapping_add64_def)
  have fresh: "?i \<notin> pending_ids q" "?i \<notin> dom (q_decisions q)" "?i \<notin> set (q_replaced q)"
    using ok unfolding queue_ok_def ids_ok_def by (meson Suc_n_not_le_n)+
  have nq: "?i \<notin> fst ` set (q_questions q)"
    using ok fresh by (auto simp: queue_ok_def questions_ok_def)
  note simps = enqueue_simps [OF eq, unfolded i]
  have pend: "map pn_id (q_pending q') = map pn_id (q_pending q) @ [?i]"
    using eq by (auto simp: enqueue_def Let_def i [simplified])
  have "ids_ok q'"
    using ok fresh unfolding queue_ok_def ids_ok_def simps pend
    by (auto simp: pending_ids_def intro: le_SucI)
  moreover have "dom (q_offers q') \<subseteq> insert ?i (dom (q_offers q))"
    "dom (q_evaluation_offers q') \<subseteq> insert ?i (dom (q_evaluation_offers q))"
    "dom (q_waiting_since q') \<subseteq> insert ?i (dom (q_waiting_since q))"
    "dom (q_answer_devices q') \<subseteq> dom (q_answer_devices q)"
    using eq by (auto simp: enqueue_def Let_def i [simplified] split: option.splits)
  then have "side_tables_ok q'"
    using ok unfolding queue_ok_def side_tables_ok_def simps by (intro conjI) (meson order_trans insert_mono subset_insertI)+
  moreover have "questions_ok q'"
  proof (cases a)
    case None
    then have "q_questions q' = q_questions q"
      using eq by (auto simp: enqueue_def Let_def)
    then show ?thesis
      using ok unfolding queue_ok_def questions_ok_def simps by auto
  next
    case (Some x)
    then obtain qu where qs: "q_questions q' = bt_insert ?i qu (q_questions q)"
      and ag: "qu_agent qu = as_agent x"
      using eq by (auto simp: enqueue_def Let_def i [simplified])
    have "distinct (map (qu_agent \<circ> snd) (bt_insert ?i qu (q_questions q)))"
      by (rule agents_bt_insert_new)
        (use ok nq new(1) Some ag in \<open>auto simp: queue_ok_def questions_ok_def no_question_def list_all_iff\<close>)
    then show ?thesis
      using ok unfolding queue_ok_def questions_ok_def simps qs
      by (auto simp: sorted_bt_insert fst_bt_insert)
  qed
  ultimately show ?thesis
    using ok unfolding queue_ok_def simps by blast
qed

lemma find_agent_question:
  "find_question a offer evaluation t q = FoundNone \<Longrightarrow> no_question a q"
  by (auto simp: find_question_def no_question_def find_None_iff list_all_iff
    split: option.splits if_splits)

lemma find_question_at:
  assumes "find_question a offer evaluation t q = r" "r = FoundJoin i qu \<or> r = FoundReplace i"
  shows "\<exists>x qu'. a = Some x \<and> (i, qu') \<in> set (q_questions q) \<and> qu_agent qu' = as_agent x
     \<and> offer = None \<and> qu_session qu' = as_session x \<and> qu_template qu' = t
     \<and> (r = FoundJoin i qu \<longrightarrow> qu' = qu \<and> qu_baseline qu = as_baseline x
          \<and> q_evaluation_offers q i = evaluation)"
  using assms
  by (auto simp: find_question_def find_Some_iff split: option.splits if_splits dest: nth_mem)
     (metis nth_mem)+

lemma no_question_forget:
  assumes "queue_ok q" "(i, qu) \<in> set (q_questions q)" "qu_agent qu = as_agent x"
  shows "no_question (Some x) (forget i o' q)"
proof -
  have "qu_agent (snd y) \<noteq> as_agent x" if "y \<in> set (q_questions q)" "fst y \<noteq> i" for y
  proof
    assume "qu_agent (snd y) = as_agent x"
    then have "y = (i, qu)"
      using assms that by (force simp: queue_ok_def questions_ok_def distinct_map inj_on_def)
    with that show False by simp
  qed
  then show ?thesis
    by (force simp: no_question_def forget_def list_all_iff set_bt_remove)
qed

lemma queue_ok_mark_replaced:
  "queue_ok q \<Longrightarrow> i \<notin> pending_ids q \<Longrightarrow> q_decisions q i = None \<Longrightarrow> i \<le> q_next_id q \<Longrightarrow>
     queue_ok (q\<lparr>q_replaced := List.insert i (q_replaced q)\<rparr>)"
  by (auto simp: queue_ok_def ids_ok_def questions_ok_def side_tables_ok_def pending_ids_def)

lemma queue_ok_join:
  assumes "queue_ok q" "map_of (q_questions q) i = Some qu" "qu_agent qu' = qu_agent qu"
  shows "queue_ok (q\<lparr>q_questions := bt_insert i qu' (q_questions q)\<rparr>)"
proof -
  have "map (qu_agent \<circ> snd) (bt_insert i qu' (q_questions q)) = map (qu_agent \<circ> snd) (q_questions q)"
    using assms by (intro agents_bt_insert_same) (auto simp: queue_ok_def questions_ok_def)
  moreover have "i \<in> pending_ids q"
    using assms by (force simp: queue_ok_def questions_ok_def dest: map_of_SomeD)
  ultimately show ?thesis
    using assms(1) by (auto simp: queue_ok_def ids_ok_def questions_ok_def side_tables_ok_def
        pending_ids_def sorted_bt_insert fst_bt_insert)
qed

lemma question_lookup:
  "queue_ok q \<Longrightarrow> (i, qu) \<in> set (q_questions q) \<Longrightarrow> map_of (q_questions q) i = Some qu"
  by (auto simp: queue_ok_def questions_ok_def strict_sorted_iff)

lemma question_pending:
  "queue_ok q \<Longrightarrow> (i, qu) \<in> set (q_questions q) \<Longrightarrow> i \<in> pending_ids q"
  by (force simp: queue_ok_def questions_ok_def)

lemma replaced_state:
  assumes "queue_ok q" "i \<in> pending_ids q"
  shows "queue_ok ((forget i Invalidated q)\<lparr>q_replaced :=
     List.insert i (q_replaced (forget i Invalidated q))\<rparr>)"
proof (rule queue_ok_mark_replaced)
  show "queue_ok (forget i Invalidated q)"
    using assms by (simp add: queue_ok_forget)
  show "i \<notin> pending_ids (forget i Invalidated q)"
    by (simp add: forget_def pending_ids_remove)
  show "q_decisions (forget i Invalidated q) i = None" "i \<le> q_next_id (forget i Invalidated q)"
    using assms by (auto simp: forget_def queue_ok_def ids_ok_def)
qed

lemma queue_ok_wait_start:
  assumes ok: "queue_ok q" and room: "q_next_id q < 18446744073709551615"
    and st: "wait_start now cancelled run offer evaluation a timeout q = (s, q')"
  shows "queue_ok q'"
proof (cases "find_question a offer evaluation (template_of run) q")
  case FoundNone
  then show ?thesis
    using st ok room queue_ok_enqueue [OF ok find_agent_question [OF FoundNone] room]
    by (auto simp: wait_start_def split: if_splits prod.splits)
next
  case (FoundJoin i qu)
  then have "map_of (q_questions q) i = Some qu"
    using find_question_at [OF FoundJoin] question_lookup [OF ok] by auto
  then show ?thesis
    using st ok FoundJoin queue_ok_join [OF ok, of i qu "qu\<lparr>qu_turn := wrapping_add64 (qu_turn qu) 1\<rparr>"]
    by (auto simp: wait_start_def Let_def split: if_splits)
next
  case (FoundReplace old)
  obtain x qu where x: "a = Some x" "(old, qu) \<in> set (q_questions q)" "qu_agent qu = as_agent x"
    using find_question_at [OF FoundReplace] by auto
  let ?q = "(forget old Invalidated q)\<lparr>q_replaced :=
     List.insert old (q_replaced (forget old Invalidated q))\<rparr>"
  have "queue_ok ?q"
    using replaced_state [OF ok] question_pending [OF ok x(2)] by blast
  moreover have "no_question a ?q"
    using no_question_forget [OF ok x(2,3)] x(1) by (simp add: no_question_def)
  moreover have "q_next_id ?q < 18446744073709551615"
    using room by (simp add: forget_def)
  ultimately show ?thesis
    using st ok FoundReplace queue_ok_enqueue [of ?q a]
    by (auto simp: wait_start_def Let_def split: if_splits prod.splits)
next
  case FoundBusy
  then show ?thesis
    using st ok by (auto simp: wait_start_def split: if_splits)
qed

lemma queue_ok_end_invalid: "queue_ok q \<Longrightarrow> queue_ok (snd (end_invalid i q))"
  by (simp add: end_invalid_def queue_ok_forget queue_ok_drop_decision)

lemma queue_ok_wait_poll: "queue_ok q \<Longrightarrow> queue_ok (snd (wait_poll now cancelled wt q))"
  by (auto simp: wait_poll_def Let_def queue_ok_drop_replaced queue_ok_drop_decision
      queue_ok_forget queue_ok_end_invalid split: option.splits prod.splits)
     (metis queue_ok_end_invalid snd_conv)+

lemma queue_ok_wait_invalid: "queue_ok q \<Longrightarrow> queue_ok (snd (wait_invalid wt q))"
  by (simp add: wait_invalid_def Let_def queue_ok_drop_replaced queue_ok_end_invalid)

section \<open>The owner operations\<close>

text \<open>What a successful approval is: one settle of the run exactly as the proof names it.\<close>

lemma approve_cases:
  assumes "approve w p q = Inr q'"
  obtains run remember grant evaluation where
    "action_run (op_action p) = Some run" "is_fresh w p" "waiting_run q (pn_id run) = Some run"
    "\<And>qu. map_of (q_questions q) (pn_id run) = Some qu \<Longrightarrow> op_epoch p = qu_session qu"
    "optional_part (remember_part run (op_action p)) = Inr remember"
    "optional_part (grant_part w q (pn_id run) (op_action p)) = Inr grant"
    "optional_part (evaluation_part w q run p) = Inr evaluation"
    "answer_of_action (op_action p) = QApproveAndRemember \<Longrightarrow> pn_remember run \<noteq> None"
    "q' = settle (pn_id run) (answer_of_action (op_action p)) (Some (op_method p)) grant remember
            evaluation q"
proof -
  from assms obtain run where run: "action_run (op_action p) = Some run"
    by (auto simp: approve_def split: option.splits)
  from assms run have fresh: "is_fresh w p"
    by (auto simp: approve_def Let_def split: if_splits)
  have session: "op_epoch p = qu_session qu" if "map_of (q_questions q) (pn_id run) = Some qu" for qu
    using assms run that by (auto simp: approve_def Let_def check_proof_def split: if_splits)
  from assms run fresh obtain waiting where
    waiting: "waiting_run q (pn_id run) = Some waiting"
    by (auto simp: approve_def Let_def split: if_splits option.splits)
  with assms run fresh have same: "waiting = run"
    by (auto simp: approve_def Let_def split: if_splits)
  from assms run fresh waiting same obtain remember grant evaluation where
    "optional_part (remember_part run (op_action p)) = Inr remember"
    "optional_part (grant_part w q (pn_id run) (op_action p)) = Inr grant"
    "optional_part (evaluation_part w q run p) = Inr evaluation"
    "answer_of_action (op_action p) = QApproveAndRemember \<Longrightarrow> pn_remember run \<noteq> None"
    "q' = settle (pn_id run) (answer_of_action (op_action p)) (Some (op_method p)) grant remember
            evaluation q"
    by (auto simp: approve_def Let_def and_then_eq_Inr split: if_splits)
  with that [OF run fresh _ session] waiting same show ?thesis
    by blast
qed

lemma queue_ok_approve: "queue_ok q \<Longrightarrow> approve w p q = Inr q' \<Longrightarrow> queue_ok q'"
  by (elim approve_cases) (metis queue_ok_settle waiting_run_None option.distinct(1))

lemma queue_ok_deny: "queue_ok q \<Longrightarrow> queue_ok (snd (deny i q))"
  by (simp add: deny_def queue_ok_settle waiting_run_None)

lemma settle_decision: "q_decisions (settle i a m g r e q) i \<noteq> None"
  by (simp add: settle_eq Let_def)

lemma queue_ok_deny_with_comment: "queue_ok q \<Longrightarrow> queue_ok (snd (deny_with_comment i c q))"
  by (simp add: deny_with_comment_def Let_def waiting_run_None queue_ok_update_decision
    queue_ok_settle settle_decision)

lemma queue_ok_classify: "queue_ok q \<Longrightarrow> queue_ok (snd (classify_and_approve w run e item p q))"
  by (auto simp: classify_and_approve_def Let_def pending_ids_def
    intro!: queue_ok_update_decision queue_ok_settle settle_decision)

lemma queue_ok_deny_stricter: "queue_ok q \<Longrightarrow> queue_ok (snd (snd (deny_stricter now i s v q)))"
  by (auto simp: deny_stricter_def Let_def waiting_run_None queue_ok_settle
    split: option.splits prod.splits) (metis option.distinct(1) queue_ok_settle waiting_run_None)

lemma queue_ok_device:
  "queue_ok q \<Longrightarrow> queue_ok (note_answer_device i d q)"
  "queue_ok q \<Longrightarrow> queue_ok (forget_answer_device i q)"
  "queue_ok q \<Longrightarrow> queue_ok (snd (take_ended q))"
proof -
  assume ok: "queue_ok q"
  have "i \<in> pending_ids q" if "waiting_run q i \<noteq> None"
    using that by (simp add: waiting_run_None)
  then show "queue_ok (note_answer_device i d q)"
    using ok unfolding queue_ok_def ids_ok_def questions_ok_def side_tables_ok_def
    by (auto simp: note_answer_device_def pending_ids_def split: if_splits)
  show "queue_ok (forget_answer_device i q)" "queue_ok (snd (take_ended q))"
    using ok unfolding queue_ok_def ids_ok_def questions_ok_def side_tables_ok_def
    by (auto simp: forget_answer_device_def take_ended_def pending_ids_def MAX_ENDED_def split: if_splits)
qed

section \<open>Every sequence of operations\<close>

inductive qstep :: "queue \<Rightarrow> queue \<Rightarrow> bool" where
  start: "q_next_id q < 18446744073709551615 \<Longrightarrow>
    wait_start now cancelled run offer evaluation a timeout q = (s, q') \<Longrightarrow> qstep q q'"
| poll: "wait_poll now cancelled wt q = (r, q') \<Longrightarrow> qstep q q'"
| invalid: "wait_invalid wt q = (r', q') \<Longrightarrow> qstep q q'"
| approve: "approve w p q = Inr q' \<Longrightarrow> qstep q q'"
| deny: "deny i q = (b, q') \<Longrightarrow> qstep q q'"
| deny_comment: "deny_with_comment i c q = (b, q') \<Longrightarrow> qstep q q'"
| classify: "classify_and_approve w run' e item p q = (b, q') \<Longrightarrow> qstep q q'"
| stricter: "deny_stricter now i st v q = (rv, v', q') \<Longrightarrow> qstep q q'"
| device: "qstep q (note_answer_device i d q)"
| no_device: "qstep q (forget_answer_device i q)"
| take: "take_ended q = (es, q') \<Longrightarrow> qstep q q'"
| invalidate: "q_generation q < 18446744073709551615 \<Longrightarrow> qstep q (invalidate_all q)"
| close: "q_generation q < 18446744073709551615 \<Longrightarrow> qstep q (close_queue q)"

definition qreach :: "queue \<Rightarrow> queue \<Rightarrow> bool" where
  "qreach = rtranclp qstep"

lemma qreach_induct [consumes 1, case_names refl step]:
  assumes "qreach q q'" "P q" "\<And>q1 q2. P q1 \<Longrightarrow> qstep q1 q2 \<Longrightarrow> P q2"
  shows "P q'"
  using assms(1) unfolding qreach_def by induction (use assms(2,3) in auto)

lemma queue_ok_step:
  assumes "queue_ok q" "qstep q q'"
  shows "queue_ok q'"
  using assms(2,1)
proof cases
  case start
  then show ?thesis using assms(1) queue_ok_wait_start by blast
next
  case poll
  then show ?thesis using assms(1) queue_ok_wait_poll by (metis snd_conv)
next
  case invalid
  then show ?thesis using assms(1) queue_ok_wait_invalid by (metis snd_conv)
next
  case approve
  then show ?thesis using assms(1) queue_ok_approve by blast
next
  case deny
  then show ?thesis using assms(1) queue_ok_deny by (metis snd_conv)
next
  case deny_comment
  then show ?thesis using assms(1) queue_ok_deny_with_comment by (metis snd_conv)
next
  case classify
  then show ?thesis using assms(1) queue_ok_classify by (metis snd_conv)
next
  case stricter
  then show ?thesis using assms(1) queue_ok_deny_stricter by (metis snd_conv)
next
  case take
  then show ?thesis using assms(1) queue_ok_device(3) by (metis snd_conv)
qed (simp_all add: assms(1) queue_ok_device queue_ok_invalidate queue_ok_close)

lemma queue_ok_new: "queue_ok (new_queue seed)"
  by (simp add: new_queue_def queue_ok_def ids_ok_def questions_ok_def side_tables_ok_def
    pending_ids_def)

lemma queue_ok_reach:
  assumes "qreach q q'" "queue_ok q"
  shows "queue_ok q'"
  using assms by (induction rule: qreach_induct) (auto intro: queue_ok_step)

section \<open>An identifier that ended stays ended\<close>

definition dead :: "nat \<Rightarrow> queue \<Rightarrow> bool" where
  "dead i q \<longleftrightarrow> i \<le> q_next_id q \<and> i \<notin> pending_ids q \<and> q_decisions q i = None"

lemma dead_forget: "dead i q \<Longrightarrow> dead i (forget j o' q)"
  by (auto simp: dead_def forget_def pending_ids_remove)

lemma dead_enqueue:
  assumes "dead i q" "q_next_id q < 18446744073709551615"
    "enqueue now run offer evaluation a timeout q = (wt, q')"
  shows "dead i q'"
  using assms enqueue_simps [OF assms(3)] by (simp add: dead_def wrapping_add64_def)

lemma dead_settle: "dead i q \<Longrightarrow> j \<in> pending_ids q \<Longrightarrow> dead i (settle j a m g r e q)"
  by (auto simp: dead_def settle_eq Let_def) (auto simp: pending_ids_def remove_waiting_def)

lemma dead_update_decision:
  "dead i q \<Longrightarrow> dead i (q\<lparr>q_decisions := (q_decisions q)(j := map_option f (q_decisions q j))\<rparr>)"
  by (auto simp: dead_def pending_ids_def)

lemma dead_same:
  "dead i q \<Longrightarrow> q_next_id q' = q_next_id q \<Longrightarrow> q_pending q' = q_pending q \<Longrightarrow>
     q_decisions q' = q_decisions q \<Longrightarrow> dead i q'"
  by (simp add: dead_def pending_ids_def)

lemma dead_drop_decision: "dead i q \<Longrightarrow> dead i (drop_decision j q)"
  by (auto simp: dead_def drop_decision_def pending_ids_def)

lemma dead_wait_start:
  assumes "dead i q" "q_next_id q < 18446744073709551615"
    "wait_start now cancelled run offer evaluation a timeout q = (s, q')"
  shows "dead i q'"
proof (cases "find_question a offer evaluation (template_of run) q")
  case (FoundReplace old)
  let ?q = "(forget old Invalidated q)\<lparr>q_replaced :=
     List.insert old (q_replaced (forget old Invalidated q))\<rparr>"
  have "dead i ?q"
    by (rule dead_same [OF dead_forget [OF assms(1)]]) simp_all
  moreover have "q_next_id ?q < 18446744073709551615"
    using assms(2) by (simp add: forget_def)
  ultimately show ?thesis
    using assms FoundReplace dead_enqueue [of i ?q]
    by (auto simp: wait_start_def Let_def split: if_splits prod.splits)
next
  case (FoundJoin j qu)
  then show ?thesis
    using assms by (auto simp: wait_start_def Let_def dead_def pending_ids_def split: if_splits)
qed (use assms in \<open>auto simp: wait_start_def split: if_splits prod.splits intro: dead_enqueue\<close>)

lemma dead_wait_poll: "dead i q \<Longrightarrow> dead i (snd (wait_poll now cancelled wt q))"
  by (simp add: wait_poll_def Let_def end_invalid_def dead_forget dead_drop_decision
      dead_same drop_replaced_def split: option.splits)

lemma dead_wait_invalid: "dead i q \<Longrightarrow> dead i (snd (wait_invalid wt q))"
  by (simp add: wait_invalid_def Let_def end_invalid_def dead_forget dead_drop_decision
      dead_same drop_replaced_def)

lemma dead_step:
  assumes "dead i q" "qstep q q'"
  shows "dead i q'"
  using assms(2,1)
proof cases
  case start
  then show ?thesis using assms(1) dead_wait_start by blast
next
  case poll
  then show ?thesis using assms(1) dead_wait_poll by (metis snd_conv)
next
  case invalid
  then show ?thesis using assms(1) dead_wait_invalid by (metis snd_conv)
next
  case (approve w p)
  then show ?thesis
    using assms(1) by (elim approve_cases) (metis dead_settle waiting_run_None option.distinct(1))
next
  case (deny j b)
  then show ?thesis
    using assms(1) by (auto simp: deny_def waiting_run_None dead_settle split: if_splits)
next
  case (deny_comment j c b)
  then show ?thesis
    using assms(1) by (auto simp: deny_with_comment_def Let_def waiting_run_None dead_settle
      dead_update_decision split: if_splits)
next
  case (classify w run e item p b)
  then show ?thesis
    using assms(1) by (auto simp: classify_and_approve_def Let_def pending_ids_def
      intro!: dead_update_decision dead_settle split: if_splits)
next
  case (stricter now j st v rv v')
  then show ?thesis
    using assms(1) by (auto simp: deny_stricter_def Let_def split: option.splits prod.splits)
      (metis dead_settle option.distinct(1) waiting_run_None)
next
  case (device j d)
  then show ?thesis
    using assms(1) by (simp add: note_answer_device_def dead_same)
next
  case (no_device j)
  then show ?thesis
    using assms(1) by (simp add: forget_answer_device_def dead_same)
next
  case (take es)
  then show ?thesis
    using assms(1) by (auto simp: take_ended_def intro: dead_same)
next
  case invalidate
  then show ?thesis
    using assms(1) by (simp add: dead_def pending_ids_def)
next
  case close
  then show ?thesis
    using assms(1) by (simp add: dead_def pending_ids_def close_queue_def)
qed

lemma dead_reach:
  assumes "qreach q q'" "dead i q"
  shows "dead i q'"
  using assms by (induction rule: qreach_induct) (auto intro: dead_step)

section \<open>The generation only grows\<close>

lemma generation_simps [simp]:
  "q_generation (forget i o' q) = q_generation q"
  "q_generation (settle i a m g r e q) = q_generation q"
  "q_generation (drop_decision i q) = q_generation q"
  "q_generation (drop_replaced i q) = q_generation q"
  by (simp_all add: forget_def settle_eq Let_def drop_decision_def drop_replaced_def)

lemma generation_wait_start:
  "wait_start now cancelled run offer evaluation a timeout q = (s, q') \<Longrightarrow>
     q_generation q' = q_generation q"
  by (auto simp: wait_start_def Let_def enqueue_def split: if_splits found.splits)

lemma generation_poll: "q_generation (snd (wait_poll now cancelled wt q)) = q_generation q"
  by (simp add: wait_poll_def Let_def end_invalid_def split: option.split)

lemma generation_invalid: "q_generation (snd (wait_invalid wt q)) = q_generation q"
  by (simp add: wait_invalid_def Let_def end_invalid_def)

lemma generation_step:
  assumes "qstep q q'"
  shows "q_generation q \<le> q_generation q'"
  using assms
proof cases
  case start
  then show ?thesis using generation_wait_start by fastforce
next
  case poll
  then show ?thesis using generation_poll by (metis order_refl snd_conv)
next
  case invalid
  then show ?thesis using generation_invalid by (metis order_refl snd_conv)
next
  case (approve w p)
  then show ?thesis by (elim approve_cases) simp
qed (auto simp: deny_def deny_with_comment_def classify_and_approve_def deny_stricter_def
    note_answer_device_def forget_answer_device_def take_ended_def close_queue_def
    wrapping_add64_def Let_def split: if_splits option.splits prod.splits)

lemma generation_reach: "qreach q q' \<Longrightarrow> q_generation q \<le> q_generation q'"
  by (induction rule: qreach_induct) (auto dest: generation_step)

section \<open>Results\<close>

text \<open>A result that lets the run go on.\<close>

fun starts_run :: "wait_result \<Rightarrow> bool" where
  "starts_run (Inl r) = False"
| "starts_run (Inr s) = (st_outcome s \<in> {Approved, ApprovedAndRemembered, ApprovedAndGranted})"

lemma ended_settled_outcome [simp]: "st_outcome (ended_settled outcome) = outcome"
  by (simp add: ended_settled_def)

lemma starts_run_ended [simp]:
  "\<not> starts_run (Inr (ended_settled Invalidated))"
  "\<not> starts_run (Inr ((ended_settled TimedOut)\<lparr>st_attached := b\<rparr>))"
  by (simp_all add: ended_settled_def)

lemma poll_starts_run:
  assumes "wait_poll now cancelled wt q = (Some r, q')" "starts_run r"
  shows "\<exists>d. q_decisions q (wt_id wt) = Some d \<and> r = Inr (settled_of (wt_attached wt) d)
    \<and> q' = drop_decision (wt_id wt) q \<and> wt_id wt \<notin> set (q_replaced q)
    \<and> q_generation q = wt_generation wt \<and> \<not> cancelled \<and> \<not> is_superseded wt q"
  using assms
  by (auto simp: wait_poll_def Let_def end_invalid_def split: if_splits option.splits)

lemma invalid_never_starts: "wait_invalid wt q = (r, q') \<Longrightarrow> \<not> starts_run r"
  by (auto simp: wait_invalid_def Let_def end_invalid_def split: if_splits)

section \<open>Properties\<close>

text \<open>C11: In every state that any sequence of operations reaches from a new queue, the queue is
  well formed: identifiers are unique and never reused, an agent has at most one waiting
  question, every offer, question, age and answer device belongs to a run that waits, no
  run has a decision while it waits, and at most 256 ends are kept.\<close>

theorem queue_invariant:
  assumes "qreach (new_queue seed) q"
  shows "queue_ok q
    \<and> (\<forall>i j x y. map_of (q_questions q) i = Some x \<longrightarrow> map_of (q_questions q) j = Some y \<longrightarrow>
         qu_agent x = qu_agent y \<longrightarrow> i = j)"
proof -
  have ok: "queue_ok q"
    using queue_ok_reach [OF assms queue_ok_new] .
  have "i = j" if "map_of (q_questions q) i = Some x" "map_of (q_questions q) j = Some y"
    "qu_agent x = qu_agent y" for i j x y
    using ok that by (force simp: queue_ok_def questions_ok_def distinct_map inj_on_def
      dest!: map_of_SomeD)
  with ok show ?thesis by blast
qed

text \<open>C3: One answer starts at most one run: when a waiting call takes an approval of a question,
  no call ever takes an approval of this question again, neither another call that joined it
  nor a later one, whatever the owner, the agent and the other calls do afterwards.\<close>

theorem approval_taken_once:
  assumes "qreach (new_queue seed) q"
    and "wait_poll now cancelled wt q = (Some r, q1)" "starts_run r"
    and "qreach q1 q2" "wt_id wt' = wt_id wt"
    and "wait_poll now' cancelled' wt' q2 = (Some r', q3) \<or> wait_invalid wt' q2 = (r', q3)"
  shows "\<not> starts_run r'"
proof -
  have ok: "queue_ok q"
    using queue_ok_reach [OF assms(1) queue_ok_new] .
  obtain d where d: "q_decisions q (wt_id wt) = Some d" "q1 = drop_decision (wt_id wt) q"
    using poll_starts_run [OF assms(2,3)] by blast
  have "dead (wt_id wt) q1"
    using ok d by (auto simp: dead_def drop_decision_def queue_ok_def ids_ok_def pending_ids_def)
  then have "dead (wt_id wt) q2"
    using dead_reach [OF assms(4)] by blast
  then have "q_decisions q2 (wt_id wt') = None"
    using assms(5) by (simp add: dead_def)
  then show ?thesis
    using assms(6) poll_starts_run invalid_never_starts by fastforce
qed

text \<open>C8: Locking the vault ends every open answer: after \<open>invalidate_all\<close> (also as a part of
  \<open>close\<close>), a call that began to wait before never gets an approval, not even one that the
  owner had given already, whatever happens later.\<close>

theorem invalidate_all_revokes:
  assumes "wt_generation wt \<le> q_generation q" "q_generation q < 18446744073709551615"
    and "qreach (invalidate_all q) q'"
    and "wait_poll now cancelled wt q' = (Some r, q'')"
  shows "\<not> starts_run r"
proof
  assume "starts_run r"
  then have "q_generation q' = wt_generation wt"
    using poll_starts_run [OF assms(4)] by blast
  moreover have "q_generation q < q_generation q'"
    using generation_reach [OF assms(3)] assms(2) by (simp add: wrapping_add64_def)
  ultimately show False
    using assms(1) by simp
qed

text \<open>What a checked part of an answer is: the offer that waits is the offer that the owner
  confirmed, and the parts that the owner may fill in fit it.\<close>

lemma confirmations_match_offered:
  assumes "confirmations_match expected seen cs"
  shows "distinct (map ec_item cs) \<and> set seen \<inter> set (map ec_item cs) = {}
    \<and> (\<forall>c \<in> set cs. \<exists>d. map_of expected (ec_item c) = Some d \<and> ec_revision c = ec_revision d
          \<and> ec_hosts c = ec_hosts d)"
  using assms
  by (induction expected seen cs rule: confirmations_match.induct)
     (auto split: option.splits)

lemma grant_choice_of_Inr:
  assumes "grant_choice_of w waiting confirmed ds = Inr g"
  shows "waiting = Some confirmed \<and> \<not> w_broad w (fo_folder confirmed)
    \<and> g = \<lparr>gc_folder = fo_folder confirmed, gc_declarations = ds\<rparr>
    \<and> mset (map fd_item ds)
       = mset (map fi_item (filter (\<lambda>i. fi_declaration i = None) (fo_items confirmed)))"
proof -
  have "sort (map fd_item ds)
      = sort (map fi_item (filter (\<lambda>i. fi_declaration i = None) (fo_items confirmed)))"
    "waiting = Some confirmed" "\<not> w_broad w (fo_folder confirmed)"
    "g = \<lparr>gc_folder = fo_folder confirmed, gc_declarations = ds\<rparr>"
    using assms by (auto simp: grant_choice_of_def split: option.splits if_splits)
  then show ?thesis
    by (metis mset_sort)
qed

lemma evaluation_choice_of_Inr:
  assumes "evaluation_choice_of run agent waiting confirmed cs = Inr v"
  shows "waiting = Some confirmed \<and> v = \<lparr>ev_offer = confirmed, ev_confirmations = cs\<rparr>
    \<and> eo_agent confirmed = agent \<and> qn_project (pn_question run) = Some (eo_project confirmed)
    \<and> qn_action (pn_question run) = eo_action confirmed
    \<and> mset (map ec_item cs) = mset (qn_item_ids (pn_question run))
    \<and> (\<forall>c \<in> set cs. \<exists>i \<in> set (eo_items confirmed). ec_item (ei_confirmation i) = ec_item c
          \<and> ec_revision (ei_confirmation i) = ec_revision c
          \<and> ec_hosts (ei_confirmation i) = ec_hosts c)"
proof -
  let ?ex = "offered_confirmations confirmed"
  from assms have w: "waiting = Some confirmed" "v = \<lparr>ev_offer = confirmed, ev_confirmations = cs\<rparr>"
    "eo_agent confirmed = agent" "qn_project (pn_question run) = Some (eo_project confirmed)"
    "qn_action (pn_question run) = eo_action confirmed" "confirmations_match ?ex [] cs"
    "distinct (map fst ?ex)" "distinct (qn_item_ids (pn_question run))"
    "set (map fst ?ex) = set (qn_item_ids (pn_question run))" "length cs = length ?ex"
    by (auto simp: evaluation_choice_of_def Let_def split: option.splits if_splits)
  note m = confirmations_match_offered [OF w(6)]
  have offered: "\<exists>i \<in> set (eo_items confirmed). ec_item (ei_confirmation i) = k \<and> ei_confirmation i = d"
    if "map_of ?ex k = Some d" for k d
    using map_of_SomeD [OF that] by (auto simp: offered_confirmations_def)
  have "set (map ec_item cs) \<subseteq> set (map fst ?ex)"
    using m by (force dest: map_of_SomeD)
  moreover have "card (set (map ec_item cs)) = card (set (map fst ?ex))"
    using m w(7,10) by (metis distinct_card length_map)
  ultimately have "set (map ec_item cs) = set (map fst ?ex)"
    by (intro card_subset_eq) simp_all
  with m w(8,9) have "mset (map ec_item cs) = mset (qn_item_ids (pn_question run))"
    by (intro iffD1 [OF set_eq_iff_mset_eq_distinct]) simp_all
  moreover have "\<exists>i \<in> set (eo_items confirmed). ec_item (ei_confirmation i) = ec_item c
      \<and> ec_revision (ei_confirmation i) = ec_revision c \<and> ec_hosts (ei_confirmation i) = ec_hosts c"
    if "c \<in> set cs" for c
    using m that offered by metis
  ultimately show ?thesis
    using w by blast
qed

lemma optional_part_Inr:
  "optional_part x = Inr y \<longleftrightarrow> (case y of None \<Rightarrow> x = None | Some v \<Rightarrow> x = Some (Inr v))"
  by (auto simp: optional_part_def split: option.splits sum.splits)

text \<open>The three optional parts of an approval, read off the action that the owner confirmed.\<close>

lemma remember_part_of:
  assumes "optional_part (remember_part run a) = Inr remember"
  shows "case a of
      ApproveInProjectRun _ project action \<Rightarrow>
        remember = Some \<lparr>ch_project = project, ch_action = action, ch_production = False\<rparr>
        \<and> qn_item_ids (pn_question run) \<noteq> []
        \<and> qn_project (pn_question run) = Some project \<and> qn_action (pn_question run) = action
        \<and> \<not> qn_production (pn_question run)
        \<and> InProject action \<in> set (qn_valid_answers (pn_question run))
    | AllowProductionRun _ project action \<Rightarrow>
        remember = Some \<lparr>ch_project = project, ch_action = action, ch_production = True\<rparr>
        \<and> qn_item_ids (pn_question run) \<noteq> []
        \<and> qn_project (pn_question run) = Some project \<and> qn_action (pn_question run) = action
        \<and> qn_production (pn_question run)
        \<and> ProductionAnswer action \<in> set (qn_valid_answers (pn_question run))
    | _ \<Rightarrow> remember = None"
  using assms
  by (cases a) (auto simp: remember_part_def optional_part_def answer_choice_of_def Let_def
    split: if_splits)

lemma grant_part_of:
  assumes "optional_part (grant_part w q i a) = Inr grant"
  shows "case a of
      ApproveAndGrantRun _ offer declarations \<Rightarrow>
        q_offers q i = Some offer \<and> \<not> w_broad w (fo_folder offer)
        \<and> grant = Some \<lparr>gc_folder = fo_folder offer, gc_declarations = declarations\<rparr>
        \<and> mset (map fd_item declarations)
           = mset (map fi_item (filter (\<lambda>x. fi_declaration x = None) (fo_items offer)))
    | _ \<Rightarrow> grant = None"
  using assms
  by (cases a) (auto simp: grant_part_def optional_part_Inr split: option.splits
    dest!: grant_choice_of_Inr)

lemma evaluation_part_of:
  assumes "optional_part (evaluation_part w q run p) = Inr evaluation"
    "action_run (op_action p) = Some run"
  shows "case op_action p of
      ApproveAndEvaluate _ offer confirmations \<Rightarrow>
        q_evaluation_offers q (pn_id run) = Some offer
        \<and> evaluation = Some \<lparr>ev_offer = offer, ev_confirmations = confirmations\<rparr>
        \<and> (\<exists>qu. map_of (q_questions q) (pn_id run) = Some qu \<and> qu_agent qu = eo_agent offer)
        \<and> qn_project (pn_question run) = Some (eo_project offer)
        \<and> qn_action (pn_question run) = eo_action offer
        \<and> mset (map ec_item confirmations) = mset (qn_item_ids (pn_question run))
        \<and> (\<forall>c \<in> set confirmations. \<exists>x \<in> set (eo_items offer).
              ec_item (ei_confirmation x) = ec_item c \<and> ec_revision (ei_confirmation x) = ec_revision c
              \<and> ec_hosts (ei_confirmation x) = ec_hosts c)
    | _ \<Rightarrow> evaluation = None"
  using assms
  by (cases "op_action p") (auto simp: evaluation_part_def optional_part_Inr ok_or_def
    split: option.splits sum.splits dest!: evaluation_choice_of_Inr)

text \<open>C4: An approval is exact: when the queue takes a proof, the proof is fresh and of the session
  of the question, the run that it names waits now with exactly the content that the owner
  confirmed, this run gets the decision and stops waiting, and every other run and decision
  stays. The parts of the decision are those that the owner confirmed and no others. A remembered
  answer names the project and the kind of action of the question and was offered there; a
  production question takes only the production allowance and only such a question takes it;
  "approve and remember" needs a pattern offer. A folder grant is for the folder of the very offer
  that waits, which is not a broad folder, with one declaration for each item that has none and for
  no other. An evaluation is for the very offer that waits, of the agent, the project and the kind
  of action of the question, with one confirmation for each item of the question and for no other,
  each with the revision and the hosts that were offered.\<close>

theorem approval_is_exact:
  assumes "approve w p q = Inr q'" "queue_ok q"
  shows "\<exists>run d. action_run (op_action p) = Some run \<and> run \<in> set (q_pending q) \<and> is_fresh w p
    \<and> (\<forall>qu. map_of (q_questions q) (pn_id run) = Some qu \<longrightarrow> op_epoch p = qu_session qu)
    \<and> q_decisions q' (pn_id run) = Some d \<and> de_answer d = answer_of_action (op_action p)
    \<and> de_method d = Some (op_method p)
    \<and> q_pending q' = filter (\<lambda>r. pn_id r \<noteq> pn_id run) (q_pending q)
    \<and> (\<forall>j. j \<noteq> pn_id run \<longrightarrow> q_decisions q' j = q_decisions q j)
    \<and> (case op_action p of
         ApproveInProjectRun _ project action \<Rightarrow>
           de_remember d = Some \<lparr>ch_project = project, ch_action = action, ch_production = False\<rparr>
           \<and> qn_item_ids (pn_question run) \<noteq> []
           \<and> qn_project (pn_question run) = Some project \<and> qn_action (pn_question run) = action
           \<and> \<not> qn_production (pn_question run)
           \<and> InProject action \<in> set (qn_valid_answers (pn_question run))
       | AllowProductionRun _ project action \<Rightarrow>
           de_remember d = Some \<lparr>ch_project = project, ch_action = action, ch_production = True\<rparr>
           \<and> qn_item_ids (pn_question run) \<noteq> []
           \<and> qn_project (pn_question run) = Some project \<and> qn_action (pn_question run) = action
           \<and> qn_production (pn_question run)
           \<and> ProductionAnswer action \<in> set (qn_valid_answers (pn_question run))
       | _ \<Rightarrow> de_remember d = None)
    \<and> (\<forall>r. op_action p = ApproveAndRememberRun r \<longrightarrow> pn_remember run \<noteq> None)
    \<and> (case op_action p of
         ApproveAndGrantRun _ offer declarations \<Rightarrow>
           q_offers q (pn_id run) = Some offer \<and> \<not> w_broad w (fo_folder offer)
           \<and> de_grant d = Some \<lparr>gc_folder = fo_folder offer, gc_declarations = declarations\<rparr>
           \<and> mset (map fd_item declarations)
              = mset (map fi_item (filter (\<lambda>x. fi_declaration x = None) (fo_items offer)))
       | _ \<Rightarrow> de_grant d = None)
    \<and> (case op_action p of
         ApproveAndEvaluate _ offer confirmations \<Rightarrow>
           q_evaluation_offers q (pn_id run) = Some offer
           \<and> de_evaluation d = Some \<lparr>ev_offer = offer, ev_confirmations = confirmations\<rparr>
           \<and> (\<exists>qu. map_of (q_questions q) (pn_id run) = Some qu \<and> qu_agent qu = eo_agent offer)
           \<and> qn_project (pn_question run) = Some (eo_project offer)
           \<and> qn_action (pn_question run) = eo_action offer
           \<and> mset (map ec_item confirmations) = mset (qn_item_ids (pn_question run))
           \<and> (\<forall>c \<in> set confirmations. \<exists>x \<in> set (eo_items offer).
                 ec_item (ei_confirmation x) = ec_item c
                 \<and> ec_revision (ei_confirmation x) = ec_revision c
                 \<and> ec_hosts (ei_confirmation x) = ec_hosts c)
       | _ \<Rightarrow> de_evaluation d = None)"
  using assms(1)
proof (cases rule: approve_cases)
  case (1 run remember grant evaluation)
  let ?d = "\<lparr>de_refusal_comment = None, de_classification = None,
    de_answer = answer_of_action (op_action p), de_method = Some (op_method p), de_grant = grant,
    de_remember = remember, de_evaluation = evaluation,
    de_answered_on = q_answer_devices q (pn_id run)\<rparr>"
  have q': "q_decisions q' = (q_decisions q)(pn_id run \<mapsto> ?d)"
    "q_pending q' = filter (\<lambda>r. pn_id r \<noteq> pn_id run) (q_pending q)"
    using 1 by (simp_all add: settle_eq Let_def remove_waiting_def)
  have "run \<in> set (q_pending q)"
    using 1 waiting_run_Some by blast
  moreover note remember_part_of [OF 1(5)] grant_part_of [OF 1(6)] evaluation_part_of [OF 1(7,1)]
  moreover have "\<forall>r. op_action p = ApproveAndRememberRun r \<longrightarrow> pn_remember run \<noteq> None"
    using 1(8) by auto
  ultimately show ?thesis
    using 1(1-4) q' by (intro exI [of _ run] exI [of _ ?d])
      (simp cong: owner_action.case_cong)
qed

text \<open>The run of the examples: a question of agent 7 about item 1 in the project "shop".\<close>

definition demo_project :: project where
  "demo_project = \<lparr>pr_key = ''/w/shop'', pr_label = ''shop'', pr_root = ''/w/shop''\<rparr>"

definition demo_question :: question_info where
  "demo_question = \<lparr>qn_reason = RMissingTask, qn_id = 0, qn_item_ids = [1],
     qn_project = Some demo_project, qn_action = Change, qn_production = False, qn_why = ''why'',
     qn_items = [\<lparr>qi_item = 1, qi_name = ''Shop API'', qi_production = False,
       qi_unconfirmed = False, qi_always_ask = False\<rparr>],
     qn_valid_answers = [Once, InProject Change]\<rparr>"

definition demo_pending :: "nat \<Rightarrow> pending_run" where
  "demo_pending i = \<lparr>pn_id = i, pn_agent = ''agent'', pn_command = [''deploy''], pn_cwd = ''/w/shop'',
     pn_env_names = [''API_KEY''], pn_purpose = [], pn_risk = [], pn_user_request = ''ship it'',
     pn_request_source = [], pn_agent_request = [], pn_remember = None,
     pn_question = demo_question\<lparr>qn_id := i\<rparr>\<rparr>"

definition demo_asker :: asker where
  "demo_asker = \<lparr>as_agent = 7, as_session = ''s'', as_baseline = ''b''\<rparr>"

definition demo_asked :: queue where
  "demo_asked = snd (wait_start 100 False (demo_pending 0) None None (Some demo_asker) 60000
     (new_queue 0))"

definition demo_world :: world where
  "demo_world = \<lparr>w_now = 200, w_window_valid = (\<lambda>_. True), w_window_generation = (\<lambda>_. 0),
     w_broad = (\<lambda>_. False)\<rparr>"

definition demo_proof :: owner_proof where
  "demo_proof = \<lparr>op_action = ApproveInProjectRun (demo_pending 1) demo_project Change,
     op_method = TouchId, op_epoch = ''s'', op_issued = 150, op_window = None,
     op_local_generation = None\<rparr>"

definition demo_question_row :: question where
  "demo_question_row = \<lparr>qu_agent = 7, qu_session = ''s'',
     qu_template = template_of (demo_pending 0), qu_baseline = ''b'', qu_deadline = 60100,
     qu_turn = 0\<rparr>"

lemma demo_start:
  "wait_start 100 False (demo_pending 0) None None (Some demo_asker) 60000 (new_queue 0)
   = (Waits \<lparr>wt_id = 1, wt_turn = 0, wt_deadline = 60100, wt_generation = 0, wt_asks = True,
        wt_attached = False\<rparr>,
      (new_queue 0)\<lparr>q_next_id := 1, q_pending := [demo_pending 1],
        q_waiting_since := [1 \<mapsto> 100], q_questions := [(1, demo_question_row)]\<rparr>)"
  by (simp add: wait_start_def enqueue_def find_question_def new_queue_def Let_def
    wrapping_add64_def demo_asker_def demo_question_row_def demo_pending_def demo_question_def)

lemma demo_asked_eq:
  "demo_asked = (new_queue 0)\<lparr>q_next_id := 1, q_pending := [demo_pending 1],
     q_waiting_since := [1 \<mapsto> 100], q_questions := [(1, demo_question_row)]\<rparr>"
  by (simp add: demo_asked_def demo_start)

lemma demo_asked_reach: "qreach (new_queue 0) demo_asked"
  unfolding qreach_def demo_asked_def
  by (rule r_into_rtranclp, rule qstep.start [where s = "fst (wait_start 100 False (demo_pending 0)
      None None (Some demo_asker) 60000 (new_queue 0))"]) (simp_all add: new_queue_def)

lemma demo_approved: "\<exists>q'. approve demo_world demo_proof demo_asked = Inr q'"
  by (simp add: approve_def demo_proof_def demo_asked_eq demo_world_def is_fresh_def
    PROOF_LIFETIME_def demo_question_row_def check_proof_def waiting_run_def demo_pending_def
    demo_question_def remember_part_def answer_choice_of_def optional_part_def grant_part_def
    evaluation_part_def Let_def)

lemma approval_is_exact_witness:
  "\<exists>q' d. approve demo_world demo_proof demo_asked = Inr q' \<and> q_decisions q' 1 = Some d
     \<and> de_remember d = Some \<lparr>ch_project = demo_project, ch_action = Change, ch_production = False\<rparr>"
proof -
  obtain q' where q': "approve demo_world demo_proof demo_asked = Inr q'"
    using demo_approved by blast
  have "queue_ok demo_asked"
    using queue_ok_reach [OF demo_asked_reach queue_ok_new] .
  from approval_is_exact [OF q' this] q' show ?thesis
    by (auto simp: demo_proof_def demo_pending_def)
qed

lemma queue_invariant_witness:
  "queue_ok demo_asked \<and> map_of (q_questions demo_asked) 1 \<noteq> None"
  using queue_invariant [OF demo_asked_reach] by (simp add: demo_asked_eq)

text \<open>A call that takes the approval of the example.\<close>

definition demo_waiter :: waiter where
  "demo_waiter = \<lparr>wt_id = 1, wt_turn = 0, wt_deadline = 60100, wt_generation = 0,
     wt_asks = True, wt_attached = False\<rparr>"

lemma demo_answered:
  assumes "approve demo_world demo_proof demo_asked = Inr q'"
  shows "\<exists>r. wait_poll 300 False demo_waiter q' = (Some r, drop_decision 1 q') \<and> starts_run r
    \<and> qreach (new_queue 0) q'"
proof -
  have "qreach (new_queue 0) q'"
    using demo_asked_reach assms qstep.approve unfolding qreach_def
    by (metis rtranclp.rtrancl_into_rtrancl)
  moreover obtain run remember grant evaluation where
    "action_run (op_action demo_proof) = Some run"
    "q' = settle (pn_id run) (answer_of_action (op_action demo_proof)) (Some (op_method demo_proof))
       grant remember evaluation demo_asked"
    using assms by (rule approve_cases) blast
  then have "\<exists>r. wait_poll 300 False demo_waiter q' = (Some r, drop_decision 1 q') \<and> starts_run r"
    by (auto simp: demo_proof_def demo_pending_def settle_eq Let_def wait_poll_def demo_waiter_def
      is_superseded_def demo_asked_eq new_queue_def settled_of_def)
  ultimately show ?thesis by blast
qed

lemma approval_taken_once_witness:
  "\<exists>q r q1 r' q3. qreach (new_queue 0) q \<and> wait_poll 300 False demo_waiter q = (Some r, q1)
     \<and> starts_run r \<and> wait_poll 301 False demo_waiter q1 = (Some r', q3) \<and> \<not> starts_run r'"
proof -
  obtain q where q: "approve demo_world demo_proof demo_asked = Inr q"
    using demo_approved by blast
  obtain r where r: "wait_poll 300 False demo_waiter q = (Some r, drop_decision 1 q)"
    "starts_run r" "qreach (new_queue 0) q"
    using demo_answered [OF q] by blast
  have "\<exists>r' q3. wait_poll 301 False demo_waiter (drop_decision 1 q) = (Some r', q3)"
    using q by (elim approve_cases) (auto simp: demo_proof_def demo_pending_def settle_eq Let_def
      wait_poll_def demo_waiter_def is_superseded_def demo_asked_eq new_queue_def drop_decision_def
      waiting_run_def remove_waiting_def)
  then obtain r' q3 where p: "wait_poll 301 False demo_waiter (drop_decision 1 q) = (Some r', q3)"
    by blast
  have "\<not> starts_run r'"
    by (rule approval_taken_once [OF r(3,1,2) _ _ disjI1 [OF p]]) (simp_all add: qreach_def)
  with r p show ?thesis by blast
qed

lemma invalidate_all_revokes_witness:
  "\<exists>q r q''. approve demo_world demo_proof demo_asked = Inr q
     \<and> wait_poll 300 False demo_waiter (invalidate_all q) = (Some r, q'') \<and> \<not> starts_run r"
proof -
  obtain q where q: "approve demo_world demo_proof demo_asked = Inr q"
    using demo_approved by blast
  have g: "q_generation q = 0"
    using q by (elim approve_cases) (simp add: demo_asked_eq new_queue_def)
  obtain r q'' where p: "wait_poll 300 False demo_waiter (invalidate_all q) = (Some r, q'')"
    by (cases "1 \<in> set (q_replaced q)")
      (auto simp: wait_poll_def Let_def demo_waiter_def g wrapping_add64_def end_invalid_def)
  have "\<not> starts_run r"
    by (rule invalidate_all_revokes [OF _ _ _ p, of q])
      (simp_all add: g demo_waiter_def qreach_def)
  with q p show ?thesis by blast
qed

text \<open>C10: An answer covers the credentials as they were when its question showed: a call joins a
  waiting question only when agent, vault session, request, credential baseline and
  evaluation offer are all the same, and it keeps the deadline. The same request with other
  credentials ends the old question without an answer and asks again; any other request
  of the agent, and a first use, is refused while a question of the agent waits.\<close>

theorem join_is_exact:
  assumes "queue_ok q" "map_of (q_questions q) i = Some qu" "qu_agent qu = as_agent a"
    and "\<not> q_closed q" "q_next_id q < 18446744073709551615"
    and "wait_start now False run offer evaluation (Some a) timeout q = (s, q')"
  shows "if offer = None \<and> qu_session qu = as_session a \<and> qu_template qu = template_of run then
      (if qu_baseline qu = as_baseline a \<and> q_evaluation_offers q i = evaluation
       then \<exists>wt. s = Waits wt \<and> wt_id wt = i \<and> wt_deadline wt = qu_deadline qu \<and> wt_attached wt
              \<and> q_pending q' = q_pending q
              \<and> (\<forall>old. wt_id old = i \<and> wt_asks old \<and> wt_turn old = qu_turn qu
                   \<and> qu_turn qu < 18446744073709551615 \<longrightarrow> is_superseded old q')
       else \<exists>wt. s = Waits wt \<and> wt_id wt \<noteq> i \<and> \<not> wt_attached wt
              \<and> i \<notin> pending_ids q' \<and> q_decisions q' i = None \<and> i \<in> set (q_replaced q'))
    else s = Returned (Inl QuestionBusy) \<and> q' = q"
proof -
  have mem: "(i, qu) \<in> set (q_questions q)"
    using assms(2) by (rule map_of_SomeD)
  have only: "y = (i, qu)" if "y \<in> set (q_questions q)" "qu_agent (snd y) = as_agent a" for y
    using that mem assms(1,3)
    by (force simp: queue_ok_def questions_ok_def distinct_map inj_on_def)
  have find: "List.find (\<lambda>(j, x). qu_agent x = as_agent a) (q_questions q) = Some (i, qu)"
  proof (cases "List.find (\<lambda>(j, x). qu_agent x = as_agent a) (q_questions q)")
    case None
    then show ?thesis using mem assms(3) by (force simp: find_None_iff)
  next
    case (Some y)
    then show ?thesis
      using only [of y] find_Some_set [OF Some] by (cases y) auto
  qed
  have i: "i \<in> pending_ids q" "i \<le> q_next_id q" "q_decisions q i = None"
    using assms(1) question_pending [OF assms(1) mem] by (auto simp: queue_ok_def ids_ok_def)
  let ?same = "offer = None \<and> qu_session qu = as_session a \<and> qu_template qu = template_of run"
  let ?join = "qu_baseline qu = as_baseline a \<and> q_evaluation_offers q i = evaluation"
  have found: "find_question (Some a) offer evaluation (template_of run) q =
      (if ?same then if ?join then FoundJoin i qu else FoundReplace i else FoundBusy)"
    using find by (simp add: find_question_def)
  consider "?same" "?join" | "?same" "\<not> ?join" | "\<not> ?same" by blast
  then show ?thesis
  proof cases
    case 1
    have "find_question (Some a) offer evaluation (template_of run) q = FoundJoin i qu"
      unfolding found using 1 by (simp only: if_P if_True simp_thms)
    then have "wait_start now False run offer evaluation (Some a) timeout q =
        (let turn = wrapping_add64 (qu_turn qu) 1
         in (Waits \<lparr>wt_id = i, wt_turn = turn, wt_deadline = qu_deadline qu,
               wt_generation = q_generation q, wt_asks = True, wt_attached = True\<rparr>,
             q\<lparr>q_questions := bt_insert i (qu\<lparr>qu_turn := turn\<rparr>) (q_questions q)\<rparr>))"
      using assms(4) by (simp add: wait_start_def)
    with assms(6) have sq:
      "s = Waits \<lparr>wt_id = i, wt_turn = wrapping_add64 (qu_turn qu) 1, wt_deadline = qu_deadline qu,
             wt_generation = q_generation q, wt_asks = True, wt_attached = True\<rparr>"
      "q' = q\<lparr>q_questions := bt_insert i (qu\<lparr>qu_turn := wrapping_add64 (qu_turn qu) 1\<rparr>)
              (q_questions q)\<rparr>"
      by (simp_all add: Let_def)
    have "is_superseded old q'" if "wt_id old = i" "wt_asks old" "wt_turn old = qu_turn qu"
      "qu_turn qu < 18446744073709551615" for old
      using that by (simp add: sq(2) is_superseded_def wrapping_add64_def)
    with 1 sq show ?thesis by simp
  next
    case 2
    let ?q = "(forget i Invalidated q)\<lparr>q_replaced :=
       List.insert i (q_replaced (forget i Invalidated q))\<rparr>"
    obtain wt q2 where e: "enqueue now run offer evaluation (Some a) timeout ?q = (wt, q2)"
      by (cases "enqueue now run offer evaluation (Some a) timeout ?q")
    have fr: "find_question (Some a) offer evaluation (template_of run) q = FoundReplace i"
      unfolding found using 2 by (simp only: if_P if_not_P if_False simp_thms)
    have s: "s = Waits wt" "q' = q2"
      using assms(4,6) e by (simp_all add: wait_start_def Let_def fr)
    have att: "\<not> wt_attached wt"
      using e by (auto simp: enqueue_def Let_def)
    have next_id: "wrapping_add64 (q_next_id q) 1 = Suc (q_next_id q)"
      using assms(5) by (simp add: wrapping_add64_def)
    have base: "q_next_id ?q = q_next_id q" "pending_ids ?q = pending_ids q - {i}"
      "q_decisions ?q = q_decisions q" "i \<in> set (q_replaced ?q)"
      by (auto simp: forget_def pending_ids_def remove_waiting_def)
    note e_simps = enqueue_simps [OF e]
    have "wt_id wt = Suc (q_next_id q)"
      using e_simps(2) base(1) next_id by simp
    moreover have "pending_ids q2 = insert (Suc (q_next_id q)) (pending_ids q - {i})"
      using e_simps(8) base(1,2) next_id by simp
    moreover have "q_decisions q2 i = None"
      using e_simps(5) base(3) i(3) by simp
    moreover have "i \<in> set (q_replaced q2)"
      using e_simps(6) base(4) by simp
    ultimately show ?thesis
      using 2 s att i(2) by simp
  next
    case 3
    then show ?thesis
      using found assms(4,6) by (auto simp: wait_start_def)
  qed
qed

lemma join_is_exact_witness:
  "\<exists>s q'. wait_start 150 False (demo_pending 0) None None (Some demo_asker) 60000 demo_asked = (s, q')
     \<and> (\<exists>wt. s = Waits wt \<and> wt_id wt = 1 \<and> wt_attached wt)"
proof -
  obtain s q' where st: "wait_start 150 False (demo_pending 0) None None (Some demo_asker) 60000
      demo_asked = (s, q')"
    by (cases "wait_start 150 False (demo_pending 0) None None (Some demo_asker) 60000 demo_asked")
  have "queue_ok demo_asked"
    using queue_ok_reach [OF demo_asked_reach queue_ok_new] .
  from join_is_exact [OF this _ _ _ _ st, of 1 demo_question_row] st show ?thesis
    by (auto simp: demo_asked_eq new_queue_def demo_question_row_def demo_asker_def)
qed

text \<open>The queue of the example after a second call of the same agent joined the question.\<close>

definition demo_joined :: queue where
  "demo_joined = snd (wait_start 150 False (demo_pending 0) None None (Some demo_asker) 60000
     demo_asked)"

lemma demo_joined_eq:
  "demo_joined = demo_asked\<lparr>q_questions := [(1, demo_question_row\<lparr>qu_turn := 1\<rparr>)]\<rparr>"
  by (simp add: demo_joined_def wait_start_def demo_asked_eq new_queue_def find_question_def
    demo_question_row_def demo_asker_def template_of_def demo_pending_def Let_def
    wrapping_add64_def)

lemma demo_joined_reach: "qreach (new_queue 0) demo_joined"
proof -
  have "qstep demo_asked demo_joined"
    unfolding demo_joined_def
    by (rule qstep.start [where s = "fst (wait_start 150 False (demo_pending 0) None None
      (Some demo_asker) 60000 demo_asked)"]) (simp_all add: demo_asked_eq new_queue_def)
  then show ?thesis
    using demo_asked_reach unfolding qreach_def by (rule rtranclp.rtrancl_into_rtrancl [rotated])
qed

lemma demo_joined_approved: "\<exists>q'. approve demo_world demo_proof demo_joined = Inr q'"
  by (simp add: approve_def demo_proof_def demo_joined_eq demo_asked_eq demo_world_def is_fresh_def
    PROOF_LIFETIME_def demo_question_row_def check_proof_def waiting_run_def demo_pending_def
    demo_question_def remember_part_def answer_choice_of_def optional_part_def grant_part_def
    evaluation_part_def Let_def)

lemma action_approves:
  "action_run k = Some run \<Longrightarrow> outcome_of (answer_of_action k)
     \<in> {Approved, ApprovedAndRemembered, ApprovedAndGranted}"
  by (cases k) auto

text \<open>The newest call does not always get the answer: when the owner answers before the older
  call looks again, the question is gone, so the older call no longer counts as superseded
  and the first call that looks, the older one too, takes the approval; the newer call
  then ends as invalidated.\<close>

theorem older_call_can_take_the_answer:
  assumes "queue_ok q" "approve w p q = Inr q'" "action_run (op_action p) = Some run"
    and "is_superseded old q" "wt_id old = pn_id run" "wt_generation old = q_generation q"
    and "wt_id newer = pn_id run" "wt_generation newer = q_generation q"
  shows "\<exists>r q''. wait_poll now False old q' = (Some r, q'') \<and> starts_run r
    \<and> wait_poll now' False newer q'' = (Some (Inr (ended_settled Invalidated)), q'')"
  using assms(2)
proof (cases rule: approve_cases)
  case (1 run' remember grant evaluation)
  let ?i = "pn_id run"
  have run: "run' = run"
    using 1 assms(3) by simp
  have pend: "?i \<in> pending_ids q"
    using 1 run waiting_run_None [of q ?i] by auto
  then have repl: "?i \<notin> set (q_replaced q')"
    using 1 run assms(1) by (auto simp: settle_eq Let_def queue_ok_def ids_ok_def)
  have q': "q_generation q' = q_generation q" "map_of (q_questions q') ?i = None"
    "\<exists>d. q_decisions q' ?i = Some d \<and> outcome_of (de_answer d) \<in> {Approved, ApprovedAndRemembered, ApprovedAndGranted}"
    "?i \<notin> pending_ids q'"
    using 1 run action_approves [OF assms(3)]
    by (auto simp: settle_eq Let_def pending_ids_def remove_waiting_def)
  then obtain d where d: "q_decisions q' ?i = Some d"
    "outcome_of (de_answer d) \<in> {Approved, ApprovedAndRemembered, ApprovedAndGranted}"
    by blast
  have old: "wait_poll now False old q'
      = (Some (Inr (settled_of (wt_attached old) d)), drop_decision ?i q')"
    using repl q' d assms by (simp add: wait_poll_def Let_def is_superseded_def)
  have "waiting_run (drop_decision ?i q') ?i = None"
    using q'(4) by (simp add: waiting_run_None pending_ids_def drop_decision_def)
  then have "wait_poll now' False newer (drop_decision ?i q')
      = (Some (Inr (ended_settled Invalidated)), drop_decision ?i q')"
    using repl q' d assms
    by (simp add: wait_poll_def Let_def is_superseded_def) (simp add: drop_decision_def)
  with old d show ?thesis
    by (auto simp: settled_of_def)
qed

lemma older_call_can_take_the_answer_witness:
  "\<exists>q q' r q'' newer. approve demo_world demo_proof q = Inr q' \<and> wt_attached newer
     \<and> wait_poll 300 False demo_waiter q' = (Some r, q'') \<and> starts_run r
     \<and> wait_poll 301 False newer q'' = (Some (Inr (ended_settled Invalidated)), q'')"
proof -
  have joined: "is_superseded demo_waiter demo_joined"
    by (simp add: demo_joined_eq is_superseded_def demo_waiter_def demo_asked_eq)
  have ok: "queue_ok demo_joined"
    using queue_ok_reach [OF demo_joined_reach queue_ok_new] .
  obtain q' where q': "approve demo_world demo_proof demo_joined = Inr q'"
    using demo_joined_approved by blast
  let ?newer = "demo_waiter\<lparr>wt_turn := 1, wt_attached := True\<rparr>"
  have "\<exists>r q''. wait_poll 300 False demo_waiter q' = (Some r, q'') \<and> starts_run r
    \<and> wait_poll 301 False ?newer q'' = (Some (Inr (ended_settled Invalidated)), q'')"
    by (rule older_call_can_take_the_answer [OF ok q' _ joined, where run = "demo_pending 1"])
      (simp_all add: demo_proof_def demo_waiter_def demo_pending_def demo_joined_eq demo_asked_eq
        new_queue_def)
  moreover have "wt_attached ?newer" by simp
  ultimately show ?thesis using q' by blast
qed

end
