(* ===== verification/Bouncer.thy ===== *)
theory Bouncer
  imports Route Complex_Main
begin

text \<open>
  The bouncer (src/src/broker/bouncer.rs): what it asks the decision model, how it reads and
  pins the answer, and the policy that turns the answer into "run" or "ask the owner". A
  probability is an \<open>f64\<close> between 0 and 1, so it is the rational number that it stands for;
  the operations of the code on it round to the nearest float (\<open>rnd53\<close>). A parsed JSON
  value is the datatype \<open>json\<close>, as \<open>serde_json\<close> gives it (object keys in order and
  distinct). One attempt to reach the model is an argument.
\<close>

section \<open>Floats\<close>

text \<open>Round to the nearest integer, ties to even.\<close>

definition half_even :: "rat \<Rightarrow> int" where
  "half_even x =
     (let f = \<lfloor>x\<rfloor>; d = x - of_int f
      in if d < 1 / 2 then f else if 1 / 2 < d then f + 1 else if even f then f else f + 1)"

text \<open>The number of binary places of the float next to a number below 128.\<close>

fun places :: "nat \<Rightarrow> nat \<Rightarrow> rat \<Rightarrow> nat" where
  "places 0 n x = n"
| "places (Suc k) n x = (if 2 ^ 52 \<le> x * 2 ^ n then n else places k (Suc n) x)"

definition rnd53 :: "rat \<Rightarrow> rat" where
  "rnd53 x = (if x = 0 then 0 else let n = places 1028 46 x in of_int (half_even (x * 2 ^ n)) / 2 ^ n)"

definition one_minus :: "rat \<Rightarrow> rat" where
  "one_minus p = rnd53 (1 - p)"

text \<open>\<open>{:.0}\<close> of a probability times 100.\<close>

definition pct :: "rat \<Rightarrow> string" where
  "pct p = show_int (half_even (rnd53 (p * 100))) @ ''%''"

datatype float_level = NotANumber | MinusInfinity | PlusInfinity | Finite rat

section \<open>JSON values\<close>

datatype json = JNull | JBool bool | JNum rat | JStr string | JArr "json list"
  | JObj "(string \<times> json) list"

fun jget :: "string \<Rightarrow> json \<Rightarrow> json option" where
  "jget k (JObj m) = map_of m k"
| "jget k _ = None"

fun as_str :: "json \<Rightarrow> string option" where
  "as_str (JStr s) = Some s"
| "as_str _ = None"

fun as_f64 :: "json \<Rightarrow> rat option" where
  "as_f64 (JNum r) = Some r"
| "as_f64 _ = None"

fun is_object :: "json \<Rightarrow> bool" where
  "is_object (JObj _) = True"
| "is_object _ = False"

text \<open>\<open>body[key] = value\<close> of an object in key order.\<close>

fun obj_insert :: "string \<Rightarrow> json \<Rightarrow> (string \<times> json) list \<Rightarrow> (string \<times> json) list" where
  "obj_insert k v [] = [(k, v)]"
| "obj_insert k v ((l, w) # m) =
     (if k < l then (k, v) # (l, w) # m
      else if k = l then (k, v) # m
      else (l, w) # obj_insert k v m)"

fun jset :: "string \<Rightarrow> json \<Rightarrow> json \<Rightarrow> json" where
  "jset k v (JObj m) = JObj (obj_insert k v m)"
| "jset k v j = j"

section \<open>Visible text\<close>

definition is_hidden_char :: "string \<Rightarrow> bool" where
  "is_hidden_char c \<longleftrightarrow> is_control c
     \<or> (let u = code_point c
        in u = 0xAD \<or> (0x600 \<le> u \<and> u \<le> 0x605) \<or> u = 0x61C \<or> u = 0x6DD \<or> u = 0x70F
           \<or> (0x890 \<le> u \<and> u \<le> 0x891) \<or> u = 0x8E2 \<or> u = 0x180E
           \<or> (0x200B \<le> u \<and> u \<le> 0x200F) \<or> (0x202A \<le> u \<and> u \<le> 0x202E)
           \<or> (0x2060 \<le> u \<and> u \<le> 0x206F) \<or> u = 0xFEFF \<or> (0xFFF9 \<le> u \<and> u \<le> 0xFFFB)
           \<or> u = 0x110BD \<or> u = 0x110CD \<or> (0x13430 \<le> u \<and> u \<le> 0x1343F)
           \<or> (0x1BCA0 \<le> u \<and> u \<le> 0x1BCA3) \<or> (0x1D173 \<le> u \<and> u \<le> 0x1D17A)
           \<or> (0xE0000 \<le> u \<and> u \<le> 0xE007F))"

definition strip_hidden :: "string \<Rightarrow> string" where
  "strip_hidden t = concat (filter (\<lambda>c. \<not> is_hidden_char c) (chars t))"

definition note_field :: "string \<Rightarrow> string" where
  "note_field t = concat (take 200 (chars (strip_hidden t)))"

section \<open>Questions\<close>

definition FACTS :: "(string \<times> string) list" where
  "FACTS =
     [(''task_match'', ''Is the shell command a normal step to do what the user asked?''),
      (''writes'', ''Does the shell command change data, files, settings, or state? Reading, listing, testing, and building do not change state.''),
      (''remote'', ''Does the shell command act on a remote server, database, or cloud service?''),
      (''leak'', ''Does the shell command print, encode, save, or send the value of a secret variable?''),
      (''destroy'', ''Does the shell command delete, drop, truncate, reset, or overwrite data?'')]"

definition RULE_FACT :: "string \<times> string" where
  "RULE_FACT = (''rule_break'', ''Does the shell command break the owner rule?'')"

record bouncer_request =
  br_user_request :: string
  br_command :: string
  br_relative_dir :: string
  br_purpose :: string
  br_env_names :: "string list"
  br_instruction :: string
  br_task_provenance :: string

definition facts_for :: "bouncer_request \<Rightarrow> (string \<times> string) list" where
  "facts_for r = (if trim (br_instruction r) = [] then FACTS else FACTS @ [RULE_FACT])"

definition state_text :: "bouncer_request \<Rightarrow> string" where
  "state_text r =
     ''User request: '' @ quote (trim (br_user_request r)) @ ''. Shell command: `''
     @ br_command r @ ''`.''
     @ (if trim (br_purpose r) = [] then []
        else '' Agent's stated purpose: '' @ trim (br_purpose r))
     @ (if trim (br_instruction r) = [] then []
        else '' Owner rule: '' @ trim (br_instruction r))"

definition request_body :: "bouncer_request \<Rightarrow> json" where
  "request_body r =
     JObj [(''questions'', JObj (fold (\<lambda>(name, t). obj_insert name
              (JObj [(''instructions'', JStr t), (''type'', JStr ''noul'')])) (facts_for r) [])),
           (''state'', JStr (state_text r))]"

section \<open>Answers\<close>

record fact =
  ft_name :: string
  ft_probability :: rat

datatype verdict = Scored "fact list" "string option" | Unavailable string

fun fact_of :: "verdict \<Rightarrow> string \<Rightarrow> rat option" where
  "fact_of (Scored fs m) name =
     map_option ft_probability (List.find (\<lambda>f. ft_name f = name) fs)"
| "fact_of (Unavailable _) name = None"

fun verdict_model :: "verdict \<Rightarrow> string option" where
  "verdict_model (Scored fs m) = m"
| "verdict_model (Unavailable _) = None"

fun summary :: "verdict \<Rightarrow> string" where
  "summary (Unavailable reason) = ''Bouncer unavailable: '' @ reason"
| "summary (Scored fs m) =
     (let answers = join_with '', '' (map (\<lambda>f. ft_name f @ '' '' @ pct (ft_probability f)) fs)
      in case m of None \<Rightarrow> answers | Some v \<Rightarrow> answers @ ''. Model: '' @ v)"

definition MAX_MODEL_VERSION :: nat where
  "MAX_MODEL_VERSION = 64"

definition valid_model_version :: "string \<Rightarrow> bool" where
  "valid_model_version t \<longleftrightarrow> t \<noteq> [] \<and> length t \<le> MAX_MODEL_VERSION
     \<and> list_all (\<lambda>c. is_ascii_alphanumeric c \<or> c \<in> set ''._+-'') t"

definition model_version :: "json \<Rightarrow> string option" where
  "model_version v =
     Option.bind (Option.bind (jget ''model'' v) as_str)
       (\<lambda>t. if valid_model_version t then Some t else None)"

definition answer_of :: "json \<Rightarrow> string \<Rightarrow> rat option" where
  "answer_of v name =
     Option.bind (Option.bind (Option.bind (Option.bind (jget ''answers'' v) (jget name))
       (jget ''noul'')) as_f64) (\<lambda>p. if 0 \<le> p \<and> p \<le> 1 then Some p else None)"

fun read_facts :: "json \<Rightarrow> (string \<times> string) list \<Rightarrow> string + fact list" where
  "read_facts v [] = Inr []"
| "read_facts v ((name, _) # asked) =
     (case answer_of v name of
        None \<Rightarrow> Inl (''no valid answer for '' @ name)
      | Some p \<Rightarrow> map_sum id (\<lambda>fs. \<lparr>ft_name = name, ft_probability = p\<rparr> # fs)
                   (read_facts v asked))"

definition answers_in :: "json \<Rightarrow> (string \<times> string) list \<Rightarrow> verdict" where
  "answers_in v asked = (case read_facts v asked of
       Inl reason \<Rightarrow> Unavailable reason
     | Inr fs \<Rightarrow> Scored fs (model_version v))"

section \<open>The client\<close>

definition is_heads_hash :: "string \<Rightarrow> bool" where
  "is_heads_hash t \<longleftrightarrow> length t = 64
     \<and> list_all (\<lambda>c. is_ascii_digit c \<or> (97 \<le> byte c \<and> byte c \<le> 102)) t"

datatype http_failure = Connect | Timeout | Tls | Protocol | TooLarge

datatype send_failure = SendHttp http_failure | NoCredential

record http_response =
  hr_status :: nat
  hr_body :: string

record shadow_pin =
  sp_heads :: string
  sp_model :: string

record bouncer_client =
  cl_url :: string
  cl_timeout_ms :: nat
  cl_expected_model :: "string option"
  cl_expected_heads :: "string option"
  cl_remote :: bool

definition heads_for_wire :: "bouncer_client \<Rightarrow> string + string option" where
  "heads_for_wire c = (case cl_expected_heads c of
       Some heads \<Rightarrow> if is_heads_hash heads then Inr (Some heads)
         else Inl ''the pinned head hash is not valid; nothing was sent''
     | None \<Rightarrow> Inr None)"

definition check_model :: "bouncer_client \<Rightarrow> verdict \<Rightarrow> verdict" where
  "check_model c v = (case (cl_expected_model c, v) of
       (Some expected, Scored fs m) \<Rightarrow>
         if m \<noteq> Some expected
         then Unavailable (''the model at '' @ note_field (cl_url c) @ '' is ''
           @ note_field (case m of None \<Rightarrow> ''unnamed'' | Some x \<Rightarrow> x)
           @ '', not the active version '' @ note_field expected)
         else v
     | _ \<Rightarrow> v)"

definition check_pins :: "bouncer_client \<Rightarrow> verdict \<Rightarrow> json \<Rightarrow> verdict" where
  "check_pins c v answer =
     (let v' = check_model c v
      in case (cl_expected_heads c, v') of
           (Some expected, Scored _ _) \<Rightarrow>
             if Option.bind (jget ''heads'' answer) as_str \<noteq> Some expected
             then Unavailable (''the answer of the model at '' @ note_field (cl_url c)
               @ '' is not from the pinned head set'')
             else v'
         | _ \<Rightarrow> v')"

definition shadow_verdict :: "json \<Rightarrow> shadow_pin \<Rightarrow> (string \<times> string) list \<Rightarrow> verdict" where
  "shadow_verdict answer pin asked =
     (case jget ''shadow'' answer of
        None \<Rightarrow> Unavailable ''the answer has no shadow part''
      | Some shadow \<Rightarrow>
          if \<not> is_object shadow then Unavailable ''the answer has no shadow part''
          else if Option.bind (jget ''heads'' shadow) as_str \<noteq> Some (sp_heads pin)
          then Unavailable ''the shadow part is not from the shadow head set''
          else (case jget ''error'' shadow of
              Some err \<Rightarrow>
                let code = (case as_str err of
                      Some c \<Rightarrow> if c = ''unknown_heads'' \<or> c = ''shadow_failed'' then c
                                else ''another error''
                    | None \<Rightarrow> ''another error'')
                in Unavailable (''the shadow head set failed ('' @ code @ '')'')
            | None \<Rightarrow>
                (case answers_in shadow asked of
                   Scored fs m \<Rightarrow>
                     if m \<noteq> Some (sp_model pin)
                     then Unavailable (''the shadow model is ''
                       @ (case m of None \<Rightarrow> ''unnamed'' | Some x \<Rightarrow> x)
                       @ '', not the shadow version '' @ sp_model pin)
                     else Scored fs m
                 | v \<Rightarrow> v)))"

text \<open>The text of a status other than 200.\<close>

definition status_reason :: "bouncer_client \<Rightarrow> (string \<Rightarrow> json option) \<Rightarrow> http_response \<Rightarrow> string" where
  "status_reason c parse resp =
     (let code = Option.bind (parse (hr_body resp)) (\<lambda>b.
            Option.bind (Option.bind (jget ''detail'' b) (jget ''code'')) as_str)
      in if hr_status resp = 422 \<and> code = Some ''input_too_long''
         then ''the complete request does not fit the model context; the model did not decide''
         else if hr_status resp = 401
         then ''the bouncer brain at '' @ note_field (cl_url c)
                @ '' refused the credential (status 401)''
         else if hr_status resp = 409
         then ''the bouncer brain at '' @ note_field (cl_url c)
                @ '' does not have the pinned head set (status 409)''
         else ''status '' @ show_nat (hr_status resp))"

definition wire_body :: "string option \<Rightarrow> string option \<Rightarrow> bouncer_request \<Rightarrow> json" where
  "wire_body heads shadow_heads r =
     (let b0 = request_body r;
          b1 = (case heads of None \<Rightarrow> b0 | Some h \<Rightarrow> jset ''heads'' (JStr h) b0)
      in case shadow_heads of None \<Rightarrow> b1 | Some h \<Rightarrow> jset ''shadow_heads'' (JStr h) b1)"

text \<open>The first attempt is number 0; only a transport timeout leads to attempt 1.\<close>

definition send_twice ::
    "(nat \<Rightarrow> json \<Rightarrow> send_failure + http_response) \<Rightarrow> json \<Rightarrow> send_failure + http_response" where
  "send_twice attempt body = (case attempt 0 body of
       Inl failure \<Rightarrow> if failure = SendHttp Timeout then attempt 1 body else Inl failure
     | Inr resp \<Rightarrow> Inr resp)"

definition send_reason :: "bouncer_client \<Rightarrow> send_failure \<Rightarrow> string" where
  "send_reason c failure = (case failure of
       SendHttp Timeout \<Rightarrow> ''the model at '' @ cl_url c
         @ '' timed out after two inference attempts (up to ''
         @ show_nat (2 * cl_timeout_ms c) @ '' ms total)''
     | NoCredential \<Rightarrow> ''no credential for the bouncer brain at '' @ note_field (cl_url c)
         @ ''; nothing was sent''
     | SendHttp _ \<Rightarrow> ''no answer from '' @ cl_url c)"

definition evaluate_with_shadow ::
    "bouncer_client \<Rightarrow> (string \<Rightarrow> json option) \<Rightarrow> (nat \<Rightarrow> json \<Rightarrow> send_failure + http_response) \<Rightarrow>
     bouncer_request \<Rightarrow> shadow_pin option \<Rightarrow> verdict \<times> verdict option" where
  "evaluate_with_shadow c parse attempt r shadow =
     (let both = (\<lambda>reason. (Unavailable reason, map_option (\<lambda>_. Unavailable reason) shadow))
      in case heads_for_wire c of
           Inl reason \<Rightarrow> both reason
         | Inr heads \<Rightarrow>
             let shadow_heads = Option.bind shadow
                   (\<lambda>pin. if is_heads_hash (sp_heads pin) then Some (sp_heads pin) else None)
             in case send_twice attempt (wire_body heads shadow_heads r) of
                  Inl failure \<Rightarrow> both (send_reason c failure)
                | Inr resp \<Rightarrow>
                    if hr_status resp \<noteq> 200 then both (status_reason c parse resp)
                    else (case parse (hr_body resp) of
                        None \<Rightarrow> both ''the answer is not JSON''
                      | Some v \<Rightarrow>
                          let asked = facts_for r
                          in (check_pins c (answers_in v asked) v,
                              map_option (\<lambda>pin.
                                if shadow_heads = None
                                then Unavailable ''the shadow head hash is not valid; it was not sent''
                                else shadow_verdict v pin asked) shadow)))"

section \<open>The policy\<close>

text \<open>\<open>0.8\<close> and \<open>0.9\<close> are the floats next to these decimals.\<close>

definition MIN_CONFIDENCE :: rat where
  "MIN_CONFIDENCE = 7205759403792794 / 2 ^ 53"

definition DESTROY_VETO :: rat where
  "DESTROY_VETO = 8106479329266893 / 2 ^ 53"

definition DEFAULT_TASK_MATCH :: rat where
  "DEFAULT_TASK_MATCH = 3 / 4"

definition CALIBRATION_FLOOR :: rat where
  "CALIBRATION_FLOOR = 1 / 2"

definition PATTERN_APPROVALS_NEEDED :: nat where
  "PATTERN_APPROVALS_NEEDED = 3"

record bdecision =
  bd_reason :: reason_kind
  bd_ask_owner :: bool
  bd_confidence :: "rat option"
  bd_note :: string

record decision_context =
  dc_analysis :: analysis
  dc_declarations :: "cred_declaration option list"
  dc_has_user_request :: bool

record learned =
  ln_task_match :: float_level
  ln_pattern :: "string option"

definition declared :: "decision_context \<Rightarrow> cred_declaration list" where
  "declared ctx = List.map_filter id (dc_declarations ctx)"

definition owner_required :: "decision_context \<Rightarrow> string option" where
  "owner_required ctx =
     (if list_ex (\<lambda>d. is_production d \<and> d_scope d \<noteq> ReadOnly) (declared ctx)
      then Some ''Production credential: the owner approves every run with it (ADR 0010).''
      else None)"

fun task_match_level :: "float_level \<Rightarrow> rat" where
  "task_match_level NotANumber = DEFAULT_TASK_MATCH"
| "task_match_level MinusInfinity = CALIBRATION_FLOOR"
| "task_match_level PlusInfinity = MIN_CONFIDENCE"
| "task_match_level (Finite r) =
     (if r < CALIBRATION_FLOOR then CALIBRATION_FLOOR
      else if MIN_CONFIDENCE < r then MIN_CONFIDENCE else r)"

definition before_model :: "decision_context \<Rightarrow> bdecision option" where
  "before_model ctx =
     (let ask = (\<lambda>note. Some \<lparr>bd_reason = ROther, bd_ask_owner = True, bd_confidence = None,
            bd_note = note\<rparr>);
          fl = flags (dc_analysis ctx)
      in case owner_required ctx of
           Some note \<Rightarrow>
             ask (note @ (if fl = [] then [] else '' Rule flags: '' @ join_with '', '' fl @ ''.''))
         | None \<Rightarrow>
             if fl \<noteq> [] then ask (''Rule flags: '' @ join_with '', '' fl)
             else if \<not> dc_has_user_request ctx then ask ''The agent did not send the user request.''
             else if None \<in> set (dc_declarations ctx) then ask ''An item has no declaration.''
             else None)"

definition certain_read :: "verdict \<Rightarrow> analysis \<Rightarrow> bool" where
  "certain_read v a \<longleftrightarrow> (known_safe a \<or> known_command a) \<and> \<not> (\<not> known_safe a \<and> known_write a)
     \<and> (case fact_of v ''writes'' of None \<Rightarrow> False | Some p \<Rightarrow> MIN_CONFIDENCE \<le> one_minus p)"

text \<open>The needed facts: the name, whether it must be true, and the needed certainty.\<close>

definition needed_facts ::
    "verdict \<Rightarrow> decision_context \<Rightarrow> rat \<Rightarrow> bool \<Rightarrow> (string \<times> bool \<times> rat) list" where
  "needed_facts v ctx task_level default_source =
     (let a = dc_analysis ctx;
          sensitive = list_ex is_sensitive (declared ctx);
          production = list_ex is_production (declared ctx)
      in (if production \<or> default_source \<or> (\<not> known_safe a \<and> \<not> certain_read v a)
          then [(''task_match'', True, if default_source then MIN_CONFIDENCE else task_level)]
          else [])
         @ (if production then [(''leak'', False, MIN_CONFIDENCE), (''destroy'', False, MIN_CONFIDENCE)]
            else [])
         @ (if sensitive \<and> \<not> known_safe a then [(''writes'', False, MIN_CONFIDENCE)] else [])
         @ (if fact_of v ''rule_break'' \<noteq> None then [(''rule_break'', False, MIN_CONFIDENCE)]
            else []))"

text \<open>The failed facts in order, whether \<open>task_match\<close> failed, and the lowest certainty.\<close>

fun check_needed ::
    "verdict \<Rightarrow> bool \<Rightarrow> (string \<times> bool \<times> rat) list \<Rightarrow> string list \<times> bool \<times> rat \<Rightarrow>
     string list \<times> bool \<times> rat" where
  "check_needed v kw [] acc = acc"
| "check_needed v kw ((name, want_true, level) # rest) (failed, task_failed, confidence) =
     (let forced = (name = ''writes'' \<and> kw);
          p = (if forced then 1 else case fact_of v name of None \<Rightarrow> 1 / 2 | Some p \<Rightarrow> p);
          support = (if want_true then p else one_minus p);
          confidence' = min confidence support
      in check_needed v kw rest
           (if forced then (failed @ [''writes: a known write''], task_failed, confidence')
            else if support < level then
              (failed @ [name @ '' '' @ (if want_true then [] else ''not '') @ pct support
                 @ '' (needs '' @ pct level @ '')''],
               task_failed \<or> name = ''task_match'', confidence')
            else (failed, task_failed, confidence')))"

definition apply_veto :: "verdict \<Rightarrow> analysis \<Rightarrow> string list \<times> bool \<times> rat \<Rightarrow> string list \<times> bool \<times> rat" where
  "apply_veto v a acc =
     (case acc of (failed, task_failed, confidence) \<Rightarrow>
        if known_safe a then acc
        else (case fact_of v ''destroy'' of
            None \<Rightarrow> acc
          | Some p \<Rightarrow>
              if DESTROY_VETO \<le> p
              then (failed @ [''destroy '' @ pct p], task_failed, min confidence (one_minus p))
              else acc))"

definition unavailable_decision :: "verdict \<Rightarrow> bdecision" where
  "unavailable_decision v =
     \<lparr>bd_reason = (case v of
          Unavailable reason \<Rightarrow> if contains_sub reason ''timed out'' then RModelTimeout
            else RModelUnavailable
        | Scored _ _ \<Rightarrow> RModelUnavailable),
      bd_ask_owner = True, bd_confidence = None, bd_note = summary v\<rparr>"

definition needed_for ::
    "verdict \<Rightarrow> decision_context \<Rightarrow> float_level \<Rightarrow> bool \<Rightarrow> string list \<times> bool \<times> rat" where
  "needed_for v ctx threshold ds = check_needed v
     (\<not> known_safe (dc_analysis ctx) \<and> known_write (dc_analysis ctx))
     (needed_facts v ctx (task_match_level threshold) ds) ([], False, 1)"

text \<open>The end of a note: the answers, a calibrated level, and a default source.\<close>

definition note_end_text :: "verdict \<Rightarrow> float_level \<Rightarrow> bool \<Rightarrow> string" where
  "note_end_text v threshold default_source =
     (let task_level = task_match_level threshold
      in summary v
         @ (if 1 / 2 ^ 52 < \<bar>rnd53 \<bar>task_level - DEFAULT_TASK_MATCH\<bar>\<bar>
            then '' Calibrated task_match level: '' @ pct task_level @ ''.'' else [])
         @ (if default_source
            then '' Classification is unconfirmed or has a default source; task_match needs 80% even for a known safe command or read.''
            else []))"

definition allowed_decision ::
    "verdict \<Rightarrow> decision_context \<Rightarrow> float_level \<Rightarrow> bool \<Rightarrow> rat \<Rightarrow> bdecision" where
  "allowed_decision v ctx threshold ds confidence =
     \<lparr>bd_reason = ROther, bd_ask_owner = False, bd_confidence = Some confidence,
      bd_note = ''Model allowed at '' @ pct confidence @ '' certainty (''
        @ (if list_ex is_sensitive (declared ctx) then ''sensitive credential''
           else ''normal credential'')
        @ (if known_safe (dc_analysis ctx) then '', known safe command'' else []) @ ''). ''
        @ note_end_text v threshold ds\<rparr>"

definition unsure_decision ::
    "verdict \<Rightarrow> float_level \<Rightarrow> bool \<Rightarrow> string list \<Rightarrow> bool \<Rightarrow> rat \<Rightarrow> bdecision" where
  "unsure_decision v threshold ds failed task_failed confidence =
     \<lparr>bd_reason = (if task_failed then RLowTaskMatch else RModelUnsure),
      bd_ask_owner = True, bd_confidence = Some confidence,
      bd_note = ''Below the needed certainty: '' @ join_with '', '' failed @ ''. ''
        @ note_end_text v threshold ds\<rparr>"

definition model_step :: "verdict \<Rightarrow> decision_context \<Rightarrow> float_level \<Rightarrow> bool \<Rightarrow> bdecision" where
  "model_step v ctx threshold ds =
     (case v of
        Unavailable _ \<Rightarrow> unavailable_decision v
      | Scored _ _ \<Rightarrow>
          (case apply_veto v (dc_analysis ctx) (needed_for v ctx threshold ds) of
             (failed, task_failed, confidence) \<Rightarrow>
               if failed = [] then allowed_decision v ctx threshold ds confidence
               else unsure_decision v threshold ds failed task_failed confidence))"

definition decide_learned :: "verdict \<Rightarrow> decision_context \<Rightarrow> learned \<Rightarrow> bdecision" where
  "decide_learned v ctx l =
     (case before_model ctx of
        Some d \<Rightarrow> d
      | None \<Rightarrow>
          (case ln_pattern l of
             Some pattern \<Rightarrow>
               \<lparr>bd_reason = ROther, bd_ask_owner = False, bd_confidence = None,
                bd_note = ''Remembered pattern allowed: '' @ pattern @ ''. The owner approved it ''
                  @ show_nat PATTERN_APPROVALS_NEEDED @ '' times.''\<rparr>
           | None \<Rightarrow> model_step v ctx (ln_task_match l) False))"

definition decide :: "verdict \<Rightarrow> decision_context \<Rightarrow> bdecision" where
  "decide v ctx = decide_learned v ctx
     \<lparr>ln_task_match = Finite DEFAULT_TASK_MATCH, ln_pattern = None\<rparr>"

definition decide_routed :: "verdict \<Rightarrow> decision_context \<Rightarrow> learned \<Rightarrow> bool \<Rightarrow> bdecision" where
  "decide_routed v ctx l default_source = model_step v ctx (ln_task_match l) default_source"

section \<open>The model step of a run\<close>

text \<open>The verdict that a run uses: the model is asked only on the model route.\<close>

definition asked_verdict :: "route_choice \<Rightarrow> verdict option \<Rightarrow> verdict" where
  "asked_verdict r answer = (case (r, answer) of
       (Model, Some v) \<Rightarrow> v | _ \<Rightarrow> Unavailable ''not asked'')"

definition final_route ::
    "route_choice \<Rightarrow> verdict \<Rightarrow> decision_context \<Rightarrow> float_level \<Rightarrow> bool \<Rightarrow> route_choice" where
  "final_route r v ctx threshold default_source =
     (if r = Model then
        let d = decide_routed v ctx \<lparr>ln_task_match = threshold, ln_pattern = None\<rparr> default_source
        in if bd_ask_owner d then Ask (bd_note d) (bd_reason d) else Model
      else r)"

datatype decided_by = ByBouncer | ByOwner | ByAnswer | ByPattern

datatype verdict_kind = Allowed | Asked

fun route_kinds :: "route_choice \<Rightarrow> decided_by \<times> reason_kind \<times> verdict_kind" where
  "route_kinds (Ask _ reason) = (ByOwner, reason, Asked)"
| "route_kinds Model = (ByBouncer, RModelAllowed, Allowed)"
| "route_kinds Answer = (ByAnswer, RRememberedAnswer, Allowed)"
| "route_kinds Pattern = (ByPattern, RRememberedPattern, Allowed)"


section \<open>Rounding is monotone\<close>

lemma half_even_bounds: "\<lfloor>x\<rfloor> \<le> half_even x" "half_even x \<le> \<lfloor>x\<rfloor> + 1"
  by (auto simp: half_even_def Let_def)

lemma half_even_of_int [simp]: "half_even (of_int k) = k"
  by (simp add: half_even_def)

lemma half_even_mono:
  assumes "x \<le> y"
  shows "half_even x \<le> half_even y"
proof (cases "\<lfloor>x\<rfloor> = \<lfloor>y\<rfloor>")
  case True
  then show ?thesis
    using assms by (auto simp: half_even_def Let_def)
next
  case False
  then have "\<lfloor>x\<rfloor> + 1 \<le> \<lfloor>y\<rfloor>"
    using floor_mono [OF assms] by linarith
  then show ?thesis
    using half_even_bounds [of x] half_even_bounds [of y] by linarith
qed

lemma places_spec:
  "n \<le> places k n x" "places k n x \<le> n + k"
  "places k n x < n + k \<Longrightarrow> 2 ^ 52 \<le> x * 2 ^ places k n x"
  "n \<le> j \<Longrightarrow> j < places k n x \<Longrightarrow> x * 2 ^ j < 2 ^ 52"
proof -
  show "n \<le> places k n x"
    by (induction k n x rule: places.induct) (auto simp: Suc_le_eq)
  show "places k n x \<le> n + k"
    by (induction k n x rule: places.induct) auto
  show "places k n x < n + k \<Longrightarrow> 2 ^ 52 \<le> x * 2 ^ places k n x"
    by (induction k n x rule: places.induct) (auto split: if_splits)
  show "n \<le> j \<Longrightarrow> j < places k n x \<Longrightarrow> x * 2 ^ j < 2 ^ 52"
    by (induction k n x rule: places.induct)
      (auto split: if_splits simp: not_le le_eq_less_or_eq Suc_le_eq intro: Suc_lessI)
qed

lemma places_antimono:
  assumes "x \<le> y"
  shows "places k n y \<le> places k n x"
proof (rule ccontr)
  assume "\<not> ?thesis"
  then have less: "places k n x < places k n y" by simp
  then have "2 ^ 52 \<le> x * 2 ^ places k n x"
    using places_spec(2) [of k n y] by (intro places_spec(3)) linarith
  moreover have "y * 2 ^ places k n x < 2 ^ 52"
    using places_spec(1) less by (rule places_spec(4))
  moreover have "x * 2 ^ places k n x \<le> y * 2 ^ places k n x"
    using assms by simp
  ultimately show False by linarith
qed

lemma half_even_le:
  assumes "x \<le> of_int k"
  shows "half_even x \<le> k"
  using half_even_mono [OF assms] by simp

lemma half_even_ge:
  assumes "of_int k \<le> x"
  shows "k \<le> half_even x"
  using half_even_mono [OF assms] by simp

text \<open>The value with n binary places, and the two sides of a change of the places.\<close>

lemma rounded_le:
  assumes "x * 2 ^ n < 2 ^ 52"
  shows "of_int (half_even (x * 2 ^ Suc n)) / 2 ^ Suc n \<le> (2 ^ 52 / 2 ^ n :: rat)"
proof -
  have "half_even (x * 2 ^ Suc n) \<le> 2 ^ 53"
    using assms by (intro half_even_le) simp
  then have "(of_int (half_even (x * 2 ^ Suc n)) :: rat) \<le> of_int (2 ^ 53)"
    by (simp only: of_int_le_iff)
  then show ?thesis
    by (simp add: field_simps)
qed

lemma rounded_ge:
  assumes "2 ^ 52 \<le> y * 2 ^ n"
  shows "(2 ^ 52 / 2 ^ n :: rat) \<le> of_int (half_even (y * 2 ^ n)) / 2 ^ n"
proof -
  have "2 ^ 52 \<le> half_even (y * 2 ^ n)"
    using assms by (intro half_even_ge) simp
  then have "(of_int (2 ^ 52) :: rat) \<le> of_int (half_even (y * 2 ^ n))"
    by (simp only: of_int_le_iff)
  then show ?thesis
    by (simp add: divide_right_mono)
qed

lemma rnd53_nonneg: "0 \<le> x \<Longrightarrow> 0 \<le> rnd53 x"
  using half_even_ge [of 0 "x * 2 ^ places 1028 46 x"] by (simp add: rnd53_def Let_def)

lemma rnd53_mono:
  assumes "0 \<le> x" "x \<le> y"
  shows "rnd53 x \<le> rnd53 y"
proof (cases "x = 0")
  case True
  then show ?thesis using assms rnd53_nonneg [of y] by (simp add: rnd53_def)
next
  case False
  let ?n = "places 1028 46 x" and ?m = "places 1028 46 y"
  have le: "?m \<le> ?n" using places_antimono [OF assms(2)] .
  have eqs: "rnd53 x = of_int (half_even (x * 2 ^ ?n)) / 2 ^ ?n"
    "rnd53 y = of_int (half_even (y * 2 ^ ?m)) / 2 ^ ?m"
    using False assms by (auto simp: rnd53_def Let_def)
  show ?thesis
  proof (cases "?m = ?n")
    case True
    then show ?thesis
      using half_even_mono [of "x * 2 ^ ?n" "y * 2 ^ ?n"] assms(2)
      by (simp add: eqs divide_right_mono)
  next
    case False
    then obtain n where n: "?n = Suc n" "?m \<le> n"
      using le by (cases ?n) auto
    have "46 \<le> n"
      using n places_spec(1) [of 46 1028 y] by linarith
    then have "x * 2 ^ n < 2 ^ 52"
      using n(1) by (intro places_spec(4) [of 46 _ 1028 x]) simp_all
    then have "rnd53 x \<le> 2 ^ 52 / 2 ^ n"
      unfolding eqs(1) n(1) by (rule rounded_le)
    also have "\<dots> \<le> 2 ^ 52 / 2 ^ ?m"
      using n(2) by (intro divide_left_mono) (simp_all add: power_increasing)
    also have "\<dots> \<le> rnd53 y"
    proof -
      have "2 ^ 52 \<le> y * 2 ^ ?m"
        using False le places_spec(2) [of 1028 46 x] by (intro places_spec(3)) linarith
      then show ?thesis unfolding eqs(2) by (rule rounded_ge)
    qed
    finally show ?thesis .
  qed
qed

lemma one_minus_antimono: "p \<le> q \<Longrightarrow> q \<le> 1 \<Longrightarrow> one_minus q \<le> one_minus p"
  by (simp add: one_minus_def rnd53_mono)

lemma one_minus_1 [simp]: "one_minus 1 = 0"
  by (simp add: one_minus_def rnd53_def)


section \<open>The policy of the model step\<close>

text \<open>The probability that the policy uses for a fact: one half when there is none.\<close>

definition prob :: "verdict \<Rightarrow> string \<Rightarrow> rat" where
  "prob v name = (case fact_of v name of None \<Rightarrow> 1 / 2 | Some p \<Rightarrow> p)"

definition unlikely :: "verdict \<Rightarrow> string \<Rightarrow> bool" where
  "unlikely v name \<longleftrightarrow> MIN_CONFIDENCE \<le> one_minus (prob v name)"

text \<open>The stated policy (ADR 0008, policies v5 to v9), rule by rule.\<close>

definition policy_allows :: "verdict \<Rightarrow> decision_context \<Rightarrow> float_level \<Rightarrow> bool \<Rightarrow> bool" where
  "policy_allows v ctx threshold default_source \<longleftrightarrow>
     (let a = dc_analysis ctx;
          production = list_ex is_production (declared ctx);
          sensitive = list_ex is_sensitive (declared ctx)
      in (case v of Scored _ _ \<Rightarrow> True | Unavailable _ \<Rightarrow> False)
       \<and> (if default_source then MIN_CONFIDENCE \<le> prob v ''task_match''
          else if production \<or> (\<not> known_safe a \<and> \<not> certain_read v a)
          then task_match_level threshold \<le> prob v ''task_match'' else True)
       \<and> (if production then unlikely v ''leak'' \<and> unlikely v ''destroy'' else True)
       \<and> (if sensitive \<and> \<not> known_safe a then \<not> known_write a \<and> unlikely v ''writes'' else True)
       \<and> (if fact_of v ''rule_break'' = None then True else unlikely v ''rule_break'')
       \<and> (if known_safe a then True
          else case fact_of v ''destroy'' of None \<Rightarrow> True | Some p \<Rightarrow> p < DESTROY_VETO))"

text \<open>One needed fact holds.\<close>

definition fact_ok :: "verdict \<Rightarrow> bool \<Rightarrow> string \<times> bool \<times> rat \<Rightarrow> bool" where
  "fact_ok v kw n = (case n of (name, want_true, level) \<Rightarrow>
     \<not> (name = ''writes'' \<and> kw)
     \<and> level \<le> (if want_true then prob v name else one_minus (prob v name)))"

text \<open>One step of the check, as a function on its result so far.\<close>

definition needed_step ::
    "verdict \<Rightarrow> bool \<Rightarrow> string \<times> bool \<times> rat \<Rightarrow> string list \<times> bool \<times> rat \<Rightarrow>
     string list \<times> bool \<times> rat" where
  "needed_step v kw n acc = check_needed v kw [n] acc"

lemma check_needed_Cons:
  "check_needed v kw (n # ns) acc = check_needed v kw ns (needed_step v kw n acc)"
  by (cases n; cases acc) (auto simp: needed_step_def Let_def)

lemma needed_step_failed:
  "fst (needed_step v kw n acc) = [] \<longleftrightarrow> fst acc = [] \<and> fact_ok v kw n"
  by (cases n; cases acc) (auto simp: needed_step_def fact_ok_def prob_def Let_def not_less)

lemma needed_step_confidence:
  "fact_ok v kw (name, want, level) \<Longrightarrow> snd (snd (needed_step v kw (name, want, level) acc))
     = min (snd (snd acc)) (if want then prob v name else one_minus (prob v name))"
  by (cases acc) (auto simp: needed_step_def fact_ok_def prob_def Let_def)

lemma check_needed_failed:
  "fst (check_needed v kw ns acc) = [] \<longleftrightarrow> fst acc = [] \<and> list_all (fact_ok v kw) ns"
proof (induction ns arbitrary: acc)
  case Nil
  then show ?case by (cases acc) simp
next
  case (Cons n ns)
  then show ?case
    by (simp add: check_needed_Cons needed_step_failed conj_assoc del: check_needed.simps)
qed

text \<open>The confidence of a run that may go on is the lowest certainty of the needed facts.\<close>

lemma check_needed_confidence:
  assumes "list_all (fact_ok v kw) ns" "list_all (\<lambda>(_, _, level). l \<le> level) ns"
  shows "min (snd (snd acc)) l \<le> snd (snd (check_needed v kw ns acc))
    \<and> snd (snd (check_needed v kw ns acc)) \<le> snd (snd acc)"
  using assms
proof (induction ns arbitrary: acc)
  case Nil
  then show ?case by (cases acc) simp
next
  case (Cons n ns)
  obtain name want level where n: "n = (name, want, level)"
    by (cases n)
  let ?s = "if want then prob v name else one_minus (prob v name)"
  have "snd (snd (needed_step v kw n acc)) = min (snd (snd acc)) ?s" and "l \<le> ?s"
    using Cons.prems needed_step_confidence [of v kw name want level acc]
    by (auto simp: n fact_ok_def)
  then show ?case
    using Cons.IH [of "needed_step v kw n acc"] Cons.prems
    by (auto simp: check_needed_Cons min_def split: if_splits simp del: check_needed.simps)
qed

lemma ask_owner_simps [simp]:
  "bd_ask_owner (unavailable_decision v)"
  "\<not> bd_ask_owner (allowed_decision v ctx threshold ds c)"
  "bd_ask_owner (unsure_decision v threshold ds failed t c)"
  "bd_confidence (allowed_decision v ctx threshold ds c) = Some c"
  by (simp_all add: unavailable_decision_def allowed_decision_def unsure_decision_def)

lemma model_step_Scored:
  "\<not> bd_ask_owner (model_step v ctx threshold ds) \<longleftrightarrow>
     (\<exists>fs m. v = Scored fs m) \<and> fst (apply_veto v (dc_analysis ctx) (needed_for v ctx threshold ds)) = []"
  by (cases v; cases "apply_veto v (dc_analysis ctx) (needed_for v ctx threshold ds)")
    (simp_all add: model_step_def)

lemma apply_veto_failed:
  "fst (apply_veto v a acc) = [] \<longleftrightarrow> fst acc = []
     \<and> (known_safe a \<or> (case fact_of v ''destroy'' of None \<Rightarrow> True | Some p \<Rightarrow> p < DESTROY_VETO))"
  by (cases acc) (auto simp: apply_veto_def split: option.split)

lemma apply_veto_confidence:
  "fst (apply_veto v a acc) = [] \<Longrightarrow> apply_veto v a acc = acc"
  by (cases acc) (auto simp: apply_veto_def split: option.splits if_splits)

lemma needed_for_failed:
  "fst (needed_for v ctx threshold ds) = [] \<longleftrightarrow> list_all (fact_ok v
     (\<not> known_safe (dc_analysis ctx) \<and> known_write (dc_analysis ctx)))
     (needed_facts v ctx (task_match_level threshold) ds)"
  by (simp add: needed_for_def check_needed_failed del: check_needed.simps)

lemma model_step_allows_iff:
  "\<not> bd_ask_owner (model_step v ctx threshold ds) \<longleftrightarrow> policy_allows v ctx threshold ds"
  unfolding model_step_Scored(1) apply_veto_failed needed_for_failed
  by (cases v) (simp_all add: policy_allows_def needed_facts_def fact_ok_def unlikely_def Let_def)

lemma levels:
  "1 / 2 \<le> task_match_level t" "task_match_level t \<le> MIN_CONFIDENCE" "1 / 2 \<le> MIN_CONFIDENCE"
  by (cases t; simp add: CALIBRATION_FLOOR_def MIN_CONFIDENCE_def DEFAULT_TASK_MATCH_def)+

lemma needed_levels:
  "list_all (\<lambda>(_, _, level). 1 / 2 \<le> level) (needed_facts v ctx (task_match_level t) ds)"
  using levels by (simp add: needed_facts_def Let_def)

lemma model_step_confidence:
  assumes "\<not> bd_ask_owner (model_step v ctx threshold ds)"
  shows "\<exists>c. bd_confidence (model_step v ctx threshold ds) = Some c \<and> 1 / 2 \<le> c \<and> c \<le> 1"
proof -
  let ?acc = "needed_for v ctx threshold ds"
  have ok: "fst (apply_veto v (dc_analysis ctx) ?acc) = []" "fst ?acc = []"
    and v: "\<exists>fs m. v = Scored fs m"
    using assms by (simp_all add: model_step_Scored apply_veto_failed)
  have "min 1 (1 / 2) \<le> snd (snd ?acc) \<and> snd (snd ?acc) \<le> 1"
    using check_needed_confidence [OF ok(2) [unfolded needed_for_failed] needed_levels,
        of "([], False, 1)"]
    by (simp add: needed_for_def del: check_needed.simps)
  then show ?thesis
    using v ok apply_veto_confidence [OF ok(1)]
    by (cases ?acc) (auto simp: model_step_def)
qed

section \<open>Properties\<close>

text \<open>C6: The model step is exactly the stated policy: a run goes on if and only if the model
  answered, the task match reaches its level where it is needed, leaks and destruction are
  unlikely for production, a sensitive credential meets no known write, an owner rule is
  not broken and nothing is vetoed. A run that goes on has a certainty of at least one
  half.\<close>

theorem model_step_exact:
  "if policy_allows v ctx threshold ds
   then \<not> bd_ask_owner (model_step v ctx threshold ds)
     \<and> (\<exists>c. bd_confidence (model_step v ctx threshold ds) = Some c \<and> 1 / 2 \<le> c \<and> c \<le> 1)
   else bd_ask_owner (model_step v ctx threshold ds)"
  using model_step_allows_iff [of v ctx threshold ds] model_step_confidence [of v ctx threshold ds]
  by (cases "policy_allows v ctx threshold ds") auto

text \<open>Evidence that is at least as good: the same facts, the task match no less likely and
  every other fact no more likely.\<close>

definition at_least_as_good :: "verdict \<Rightarrow> verdict \<Rightarrow> bool" where
  "at_least_as_good v' v \<longleftrightarrow> (case (v, v') of
       (Scored fs _, Scored fs' _) \<Rightarrow>
         map ft_name fs = map ft_name fs'
         \<and> list_all2 (\<lambda>f f'. 0 \<le> ft_probability f' \<and> ft_probability f' \<le> 1
             \<and> 0 \<le> ft_probability f \<and> ft_probability f \<le> 1
             \<and> (if ft_name f = ''task_match'' then ft_probability f \<le> ft_probability f'
                else ft_probability f' \<le> ft_probability f)) fs fs'
     | _ \<Rightarrow> False)"

lemma find_all2:
  assumes "map ft_name fs = map ft_name fs'" "list_all2 R fs fs'"
  shows "(case List.find (\<lambda>f. ft_name f = n) fs of
      None \<Rightarrow> List.find (\<lambda>f. ft_name f = n) fs' = None
    | Some f \<Rightarrow> \<exists>f'. List.find (\<lambda>f. ft_name f = n) fs' = Some f' \<and> R f f' \<and> ft_name f = n)"
  using assms(2,1)
  by (induction rule: list_all2_induct) (auto split: option.splits)

lemma as_good_facts:
  assumes "at_least_as_good v' v"
  shows "(case fact_of v n of None \<Rightarrow> fact_of v' n = None
    | Some p \<Rightarrow> \<exists>p'. fact_of v' n = Some p' \<and> 0 \<le> p' \<and> p' \<le> 1 \<and> 0 \<le> p \<and> p \<le> 1
        \<and> (if n = ''task_match'' then p \<le> p' else p' \<le> p))"
proof -
  obtain fs m fs' m' where v: "v = Scored fs m" "v' = Scored fs' m'"
    using assms by (auto simp: at_least_as_good_def split: verdict.splits)
  have "map ft_name fs = map ft_name fs'"
    and all: "list_all2 (\<lambda>f f'. 0 \<le> ft_probability f' \<and> ft_probability f' \<le> 1
             \<and> 0 \<le> ft_probability f \<and> ft_probability f \<le> 1
             \<and> (if ft_name f = ''task_match'' then ft_probability f \<le> ft_probability f'
                else ft_probability f' \<le> ft_probability f)) fs fs'"
    using assms by (simp_all add: at_least_as_good_def v)
  from find_all2 [OF this, of n] show ?thesis
    by (auto simp: v split: option.splits)
qed

lemma as_good_prob:
  assumes "at_least_as_good v' v"
  shows "prob v ''task_match'' \<le> prob v' ''task_match''"
    "n \<noteq> ''task_match'' \<Longrightarrow> one_minus (prob v n) \<le> one_minus (prob v' n)"
    "n \<noteq> ''task_match'' \<Longrightarrow> unlikely v n \<Longrightarrow> unlikely v' n"
proof -
  show "prob v ''task_match'' \<le> prob v' ''task_match''"
    using as_good_facts [OF assms, of "''task_match''"] by (auto simp: prob_def split: option.splits)
  show le: "one_minus (prob v n) \<le> one_minus (prob v' n)" if "n \<noteq> ''task_match''"
    using as_good_facts [OF assms, of n] that
    by (auto simp: prob_def intro!: one_minus_antimono split: option.splits)
  show "unlikely v' n" if "n \<noteq> ''task_match''" "unlikely v n"
    using le [OF that(1)] that(2) by (simp add: unlikely_def)
qed

lemma as_good_certain_read:
  "at_least_as_good v' v \<Longrightarrow> certain_read v a \<Longrightarrow> certain_read v' a"
  using as_good_facts [of v' v "''writes''"] as_good_prob(2) [of v' v "''writes''"]
  by (auto simp: certain_read_def prob_def split: option.splits)

text \<open>C13: Better evidence never costs the owner a question: when a run goes on, it also goes on
  with answers that are at least as good (a likelier task match, everything else less
  likely) and with a lower calibrated level; the rounding of the floats does not break this.\<close>

theorem better_evidence_never_asks:
  assumes "at_least_as_good v' v" "task_match_level threshold' \<le> task_match_level threshold"
    and "\<not> bd_ask_owner (model_step v ctx threshold ds)"
  shows "\<not> bd_ask_owner (model_step v' ctx threshold' ds)"
proof -
  note as_good = as_good_prob [OF assms(1)]
  have old: "policy_allows v ctx threshold ds"
    using assms(3) by (simp add: model_step_allows_iff)
  have scored: "case v' of Scored _ _ \<Rightarrow> True | Unavailable _ \<Rightarrow> False"
    using assms(1) by (auto simp: at_least_as_good_def split: verdict.splits)
  have rule: "fact_of v' n = None \<longleftrightarrow> fact_of v n = None" for n
    using as_good_facts [OF assms(1), of n] by (auto split: option.splits)
  have veto: "case fact_of v' ''destroy'' of None \<Rightarrow> True | Some p \<Rightarrow> p < DESTROY_VETO"
    if "case fact_of v ''destroy'' of None \<Rightarrow> True | Some p \<Rightarrow> p < DESTROY_VETO"
    using that as_good_facts [OF assms(1), of "''destroy''"] by (auto split: option.splits)
  have "policy_allows v' ctx threshold' ds"
    using old scored rule veto as_good assms(2) as_good_certain_read [OF assms(1)]
    unfolding policy_allows_def Let_def
    by (auto split: if_splits)
  then show ?thesis by (simp add: model_step_allows_iff)
qed

lemma map_sum_Inr_iff: "map_sum id f x = Inr y \<longleftrightarrow> (\<exists>z. x = Inr z \<and> y = f z)"
  by (cases x) auto

lemma read_facts_Inr:
  "read_facts v asked = Inr fs \<Longrightarrow> map ft_name fs = map fst asked
     \<and> list_all (\<lambda>f. answer_of v (ft_name f) = Some (ft_probability f)) fs"
  by (induction v asked arbitrary: fs rule: read_facts.induct)
    (auto split: option.splits simp: map_sum_Inr_iff)

lemma answers_in_Scored:
  "answers_in v asked = Scored fs m \<longleftrightarrow> read_facts v asked = Inr fs \<and> m = model_version v"
  by (auto simp: answers_in_def split: sum.splits)

lemma check_pins_Scored:
  "check_pins c w v = Scored fs m \<longleftrightarrow> w = Scored fs m
     \<and> (case cl_expected_model c of None \<Rightarrow> True | Some e \<Rightarrow> m = Some e)
     \<and> (case cl_expected_heads c of None \<Rightarrow> True
        | Some e \<Rightarrow> Option.bind (jget ''heads'' v) as_str = Some e)"
  by (cases w) (auto simp: check_pins_def check_model_def Let_def split: option.splits)

text \<open>What a scored verdict of the client rests on.\<close>

definition rests_on ::
    "bouncer_client \<Rightarrow> (string \<Rightarrow> json option) \<Rightarrow> bouncer_request \<Rightarrow> http_response \<Rightarrow>
     fact list \<Rightarrow> string option \<Rightarrow> bool" where
  "rests_on c parse r resp fs m \<longleftrightarrow>
     hr_status resp = 200
     \<and> (case parse (hr_body resp) of
          None \<Rightarrow> False
        | Some v \<Rightarrow>
            map ft_name fs = map fst (facts_for r)
            \<and> list_all (\<lambda>f. answer_of v (ft_name f) = Some (ft_probability f)) fs
            \<and> m = model_version v
            \<and> (case cl_expected_model c of None \<Rightarrow> True | Some e \<Rightarrow> m = Some e)
            \<and> (case cl_expected_heads c of None \<Rightarrow> True
               | Some e \<Rightarrow> is_heads_hash e \<and> Option.bind (jget ''heads'' v) as_str = Some e))"

lemma evaluate_Scored:
  assumes "fst (evaluate_with_shadow c parse attempt r shadow) = Scored fs m"
  shows "\<exists>body resp. (attempt 0 body = Inr resp
      \<or> attempt 0 body = Inl (SendHttp Timeout) \<and> attempt 1 body = Inr resp)
    \<and> rests_on c parse r resp fs m"
proof -
  obtain heads where heads: "heads_for_wire c = Inr heads"
    using assms by (cases "heads_for_wire c") (auto simp: evaluate_with_shadow_def Let_def)
  define shadow_heads where "shadow_heads = Option.bind shadow
    (\<lambda>pin. if is_heads_hash (sp_heads pin) then Some (sp_heads pin) else None)"
  let ?body = "wire_body heads shadow_heads r"
  obtain resp where resp: "send_twice attempt ?body = Inr resp"
    using assms heads by (cases "send_twice attempt ?body")
      (auto simp: evaluate_with_shadow_def Let_def shadow_heads_def)
  obtain v where v: "hr_status resp = 200" "parse (hr_body resp) = Some v"
    "check_pins c (answers_in v (facts_for r)) v = Scored fs m"
    using assms heads resp
    by (auto simp: evaluate_with_shadow_def Let_def shadow_heads_def split: if_splits option.splits)
  have "attempt 0 ?body = Inr resp
      \<or> attempt 0 ?body = Inl (SendHttp Timeout) \<and> attempt 1 ?body = Inr resp"
    using resp by (auto simp: send_twice_def split: sum.splits if_splits)
  moreover have "rests_on c parse r resp fs m"
    using v heads read_facts_Inr [of v "facts_for r" fs]
    by (auto simp: rests_on_def check_pins_Scored answers_in_Scored heads_for_wire_def
      split: option.splits if_splits)
  ultimately show ?thesis by blast
qed

text \<open>C2: A run that goes on by the model rests on a valid answer of the pinned model: an HTTP 200
  of the first attempt, or of the second after a transport timeout, with a probability
  between 0 and 1 for every question, from the pinned model version and head set, and these
  answers satisfy the policy. Whatever fails on the way, the owner is asked.\<close>

theorem model_route_needs_pinned_answer:
  assumes "final_route r (asked_verdict r answer) ctx threshold ds = Model"
    and "answer = map_option
      (\<lambda>c. fst (evaluate_with_shadow c parse attempt request shadow)) client"
  shows "r = Model \<and> (\<exists>c body resp fs m. client = Some c
      \<and> (attempt 0 body = Inr resp
         \<or> attempt 0 body = Inl (SendHttp Timeout) \<and> attempt 1 body = Inr resp)
      \<and> rests_on c parse request resp fs m \<and> policy_allows (Scored fs m) ctx threshold ds)"
proof -
  have r: "r = Model" and ok: "\<not> bd_ask_owner (model_step (asked_verdict r answer) ctx threshold ds)"
    using assms(1) by (auto simp: final_route_def decide_routed_def Let_def split: if_splits)
  have policy: "policy_allows (asked_verdict r answer) ctx threshold ds"
    using ok by (simp add: model_step_allows_iff)
  then obtain fs m where v: "asked_verdict r answer = Scored fs m"
    by (auto simp: policy_allows_def split: verdict.splits)
  then obtain c where c: "client = Some c"
    "fst (evaluate_with_shadow c parse attempt request shadow) = Scored fs m"
    using assms(2) r by (auto simp: asked_verdict_def split: option.splits)
  from evaluate_Scored [OF c(2)] show ?thesis
    using r c(1) policy unfolding v by blast
qed

section \<open>An example\<close>

definition demo_scored :: "rat \<Rightarrow> verdict" where
  "demo_scored p = Scored
     [\<lparr>ft_name = ''task_match'', ft_probability = p\<rparr>,
      \<lparr>ft_name = ''writes'', ft_probability = 1 / 2\<rparr>,
      \<lparr>ft_name = ''remote'', ft_probability = 1 / 2\<rparr>,
      \<lparr>ft_name = ''leak'', ft_probability = 1 / 2\<rparr>,
      \<lparr>ft_name = ''destroy'', ft_probability = 1 / 4\<rparr>] (Some ''base'')"

definition demo_context :: decision_context where
  "demo_context = \<lparr>dc_analysis = \<lparr>flags = [], known_safe = False, known_command = False,
       known_write = True\<rparr>,
     dc_declarations = [Some \<lparr>d_project = ''shop'', d_environment = Development, d_risk = Low,
       d_scope = ReadWrite, d_reversibility = Reversible\<rparr>],
     dc_has_user_request = True\<rparr>"

lemma demo_allowed:
  "3 / 4 \<le> p \<Longrightarrow> policy_allows (demo_scored p) demo_context (Finite (3 / 4)) False"
  by (simp add: policy_allows_def demo_scored_def demo_context_def declared_def is_production_def
    is_sensitive_def Let_def prob_def CALIBRATION_FLOOR_def MIN_CONFIDENCE_def DESTROY_VETO_def
    List.map_filter_def)

lemma better_evidence_never_asks_witness:
  "\<not> bd_ask_owner (model_step (demo_scored (9 / 10)) demo_context (Finite (1 / 2)) False)"
proof (rule better_evidence_never_asks)
  show "\<not> bd_ask_owner (model_step (demo_scored (3 / 4)) demo_context (Finite (3 / 4)) False)"
    using demo_allowed [of "3 / 4"] by (simp add: model_step_allows_iff)
qed (simp_all add: at_least_as_good_def demo_scored_def CALIBRATION_FLOOR_def MIN_CONFIDENCE_def)

definition demo_answer :: json where
  "demo_answer = JObj [(''answers'', JObj (map (\<lambda>(n, p). (n, JObj [(''noul'', JNum p)]))
      [(''task_match'', 9 / 10), (''writes'', 1 / 2), (''remote'', 1 / 2), (''leak'', 1 / 2),
       (''destroy'', 1 / 4)])), (''model'', JStr ''base'')]"

definition demo_client :: bouncer_client where
  "demo_client = \<lparr>cl_url = ''http://127.0.0.1:1'', cl_timeout_ms = 10000,
     cl_expected_model = Some ''base'', cl_expected_heads = None, cl_remote = False\<rparr>"

definition demo_request :: bouncer_request where
  "demo_request = \<lparr>br_user_request = ''deploy'', br_command = ''deploy'', br_relative_dir = ''.'',
     br_purpose = [], br_env_names = [], br_instruction = [], br_task_provenance = []\<rparr>"

text \<open>The first attempt times out, the second answers.\<close>

definition demo_attempt :: "nat \<Rightarrow> json \<Rightarrow> send_failure + http_response" where
  "demo_attempt k _ = (if k = 0 then Inl (SendHttp Timeout)
     else Inr \<lparr>hr_status = 200, hr_body = ''{}''\<rparr>)"

lemma demo_evaluated:
  "fst (evaluate_with_shadow demo_client (\<lambda>_. Some demo_answer) demo_attempt demo_request None)
     = demo_scored (9 / 10)"
  by (simp add: evaluate_with_shadow_def heads_for_wire_def demo_client_def send_twice_def
    demo_attempt_def facts_for_def demo_request_def trim_def FACTS_def answers_in_def answer_of_def
    demo_answer_def check_pins_def check_model_def demo_scored_def model_version_def Let_def
    valid_model_version_def MAX_MODEL_VERSION_def is_ascii_alphanumeric_def byte_def
    is_ascii_upper_def is_ascii_lower_def is_ascii_digit_def)

lemma model_route_needs_pinned_answer_witness:
  "\<exists>body resp fs m. demo_attempt 1 body = Inr resp
     \<and> rests_on demo_client (\<lambda>_. Some demo_answer) demo_request resp fs m
     \<and> policy_allows (Scored fs m) demo_context (Finite (3 / 4)) False"
proof -
  let ?v = "Some (fst (evaluate_with_shadow demo_client (\<lambda>_. Some demo_answer) demo_attempt
    demo_request None))"
  have "final_route Model (asked_verdict Model ?v) demo_context (Finite (3 / 4)) False = Model"
    using demo_allowed [of "9 / 10"]
    by (simp add: final_route_def asked_verdict_def demo_evaluated decide_routed_def Let_def
      model_step_allows_iff [symmetric])
  from model_route_needs_pinned_answer [OF this, of "\<lambda>_. Some demo_answer" demo_attempt
      demo_request None "Some demo_client"]
  show ?thesis by (auto simp: demo_attempt_def)
qed

end
