(* ===== verification/Patterns.thy ===== *)
theory Patterns
  imports Prelude "HOL-Library.Sublist"
begin

text \<open>
  Remembered command patterns (src/src/broker/patterns.rs): the splitting of a shell script
  into words and operators, the generalization of a command into a list of tokens, and the
  text forms. A word of the source loop is a \<open>string\<close> of one character (\<open>chars\<close>). A path is
  absolute and canonical, as the code demands of a \<open>Place\<close>, so it is the list of its
  components. The JSON text of the tokens comes from a library and is an argument.
\<close>

section \<open>Tables\<close>

definition MAX_TEMPLATE_BYTES :: nat where
  "MAX_TEMPLATE_BYTES = 8192"

definition SHELLS :: "string list" where
  "SHELLS = [''sh'', ''bash'', ''zsh'', ''dash'', ''ksh'', ''fish'']"

definition CODE_RUNNERS :: "string list" where
  "CODE_RUNNERS =
     [''sh'', ''bash'', ''zsh'', ''dash'', ''ksh'', ''fish'', ''node'', ''nodejs'', ''deno'', ''bun'',
      ''tsx'', ''ts-node'', ''vite-node'', ''python'', ''python2'', ''python3'', ''pypy'', ''pypy3'',
      ''ruby'', ''perl'', ''php'', ''lua'', ''luajit'', ''osascript'', ''awk'', ''gawk'', ''mawk'',
      ''nawk'', ''jq'', ''yq'', ''psql'', ''mysql'', ''sqlite3'', ''mongosh'', ''mongo'',
      ''redis-cli'', ''eval'', ''source'', ''.'']"

definition FILE_EXTENSIONS :: "string list" where
  "FILE_EXTENSIONS =
     [''md'', ''mdx'', ''txt'', ''rst'', ''json'', ''jsonc'', ''json5'', ''yaml'', ''yml'', ''toml'',
      ''ini'', ''cfg'', ''conf'', ''lock'', ''log'', ''csv'', ''tsv'', ''xml'', ''html'', ''htm'',
      ''css'', ''scss'', ''sass'', ''less'', ''js'', ''jsx'', ''mjs'', ''cjs'', ''ts'', ''tsx'', ''mts'',
      ''cts'', ''vue'', ''svelte'', ''astro'', ''rs'', ''py'', ''rb'', ''go'', ''java'', ''kt'',
      ''swift'', ''c'', ''h'', ''cc'', ''cpp'', ''hpp'', ''m'', ''mm'', ''cs'', ''sql'', ''sh'',
      ''graphql'', ''gql'', ''prisma'', ''proto'', ''png'', ''jpg'', ''jpeg'', ''gif'', ''svg'',
      ''webp'', ''ico'', ''pdf'', ''snap'', ''map'', ''patch'', ''diff'']"

section \<open>Words and pieces\<close>

datatype token = Lit string | TOp string | File | Number | Str | Script "token list"

record place =
  project_dir :: string
  cwd_dir :: string

datatype quoting = Plain | Quoted | Mixed

record word =
  raw :: string
  value_of :: string
  quoting_of :: quoting
  expands :: bool
  attached :: bool

datatype piece = Word word | Op string

definition new_word :: "bool \<Rightarrow> word" where
  "new_word att = \<lparr>raw = [], value_of = [], quoting_of = Plain, expands = False, attached = att\<rparr>"

definition current_word :: "word option \<Rightarrow> bool \<Rightarrow> word" where
  "current_word w after_op = (case w of Some x \<Rightarrow> x | None \<Rightarrow> new_word after_op)"

definition finish :: "word option \<Rightarrow> piece list \<Rightarrow> piece list" where
  "finish w ps = (case w of None \<Rightarrow> ps | Some x \<Rightarrow> ps @ [Word x])"

section \<open>The lexer\<close>

definition newline :: string where
  "newline = [CHR 0x0A]"

definition backslash :: string where
  "backslash = [CHR 0x5C]"

definition dquote :: string where
  "dquote = [CHR 0x22]"

definition squote :: string where
  "squote = [CHR 0x27]"

text \<open>The inside of quotes: the text, whether the shell can change it, and the rest.\<close>

fun quoted_part :: "string \<Rightarrow> string list \<Rightarrow> (string \<times> bool \<times> string list) option" where
  "quoted_part q [] = None"
| "quoted_part q (x # xs) =
     (if x = q then Some ([], False, xs)
      else if q = dquote \<and> x \<in> {''$'', ''!'', backslash} then
        (if x = backslash then
           (case xs of
              [] \<Rightarrow> None
            | y # ys \<Rightarrow> map_option (\<lambda>(p, e, r). (x @ y @ p, True, r)) (quoted_part q ys))
         else map_option (\<lambda>(p, e, r). (x @ p, True, r)) (quoted_part q xs))
      else map_option (\<lambda>(p, e, r). (x @ p, e, r)) (quoted_part q xs))"

definition attach_last :: "piece list \<Rightarrow> piece list" where
  "attach_last ps = (if ps = [] then ps else case last ps of
       Word w \<Rightarrow> butlast ps @ [Word (w\<lparr>attached := True\<rparr>)]
     | Op _ \<Rightarrow> ps)"

definition has_redirect :: "string \<Rightarrow> bool" where
  "has_redirect op \<longleftrightarrow> CHR ''<'' \<in> set op \<or> CHR ''>'' \<in> set op"

definition add_quoted :: "string \<Rightarrow> string \<Rightarrow> bool \<Rightarrow> word \<Rightarrow> word" where
  "add_quoted q part e w = w
     \<lparr>raw := raw w @ q @ part @ q, value_of := value_of w @ part,
      quoting_of := (if quoting_of w = Plain \<and> raw w = [] then Quoted else Mixed),
      expands := expands w \<or> e\<rparr>"

definition add_plain :: "string \<Rightarrow> word \<Rightarrow> word" where
  "add_plain c w = w
     \<lparr>raw := raw w @ c, value_of := value_of w @ c,
      quoting_of := (if quoting_of w = Quoted then Mixed else quoting_of w),
      expands := expands w \<or> c \<in> {''$'', ''*'', ''?'', ''['', '']'', ''{'', ''}'', ''!''}
        \<or> (c = ''~'' \<and> raw w = [])\<rparr>"

definition add_escaped :: "string \<Rightarrow> word \<Rightarrow> word" where
  "add_escaped e w = w
     \<lparr>raw := raw w @ backslash @ e, value_of := value_of w @ e, expands := True\<rparr>"

lemma quoted_part_shorter:
  "quoted_part q xs = Some (p, e, r) \<Longrightarrow> length r < length xs"
proof (induction q xs arbitrary: p e r rule: quoted_part.induct)
  case (2 q x xs)
  then show ?case
    by (fastforce split: if_splits list.splits)
qed simp

definition is_blank :: "string \<Rightarrow> bool" where
  "is_blank c \<longleftrightarrow> c = '' '' \<or> c = [CHR 0x09]"

definition op_char :: "string \<Rightarrow> bool" where
  "op_char c \<longleftrightarrow> c \<in> {''|'', ''&'', '';'', ''<'', ''>'', ''('', '')''}"

definition op_more :: "string \<Rightarrow> bool" where
  "op_more c \<longleftrightarrow> c \<in> {''|'', ''&'', ''<'', ''>''}"

definition quote_char :: "string \<Rightarrow> bool" where
  "quote_char c \<longleftrightarrow> c = squote \<or> c = dquote"

definition starts_comment :: "string \<Rightarrow> word option \<Rightarrow> bool" where
  "starts_comment c w \<longleftrightarrow> c = ''#'' \<and> w = None"

definition ends_with_word :: "piece list \<Rightarrow> bool" where
  "ends_with_word ps \<longleftrightarrow> ps \<noteq> [] \<and> (case last ps of Word _ \<Rightarrow> True | Op _ \<Rightarrow> False)"

text \<open>One turn of the loop: the rest of the script, the pieces, the open word, and whether the
  last piece was an operator with no space after it.\<close>

definition lex_step ::
    "string \<Rightarrow> string list \<Rightarrow> piece list \<Rightarrow> word option \<Rightarrow> bool \<Rightarrow>
     (string list \<times> piece list \<times> word option \<times> bool) option" where
  "lex_step c cs ps w after_op =
     (if is_blank c then Some (cs, finish w ps, None, False)
      else if c = newline then
        let ps' = finish w ps
        in Some (cs, if ends_with_word ps' then ps' @ [Op newline] else ps', None, False)
      else if c = backslash then
        (case cs of
           [] \<Rightarrow> None
         | e # cs' \<Rightarrow>
             if e = newline then Some (cs', finish w ps, None, False)
             else Some (cs', ps, Some (add_escaped e (current_word w after_op)), after_op))
      else if starts_comment c w then Some (dropWhile (\<lambda>x. x \<noteq> newline) cs, ps, w, after_op)
      else if op_char c then
        let ps1 = finish w ps;
            op = c @ concat (takeWhile op_more cs);
            ps2 = (if has_redirect op \<and> w \<noteq> None then attach_last ps1 else ps1)
        in Some (dropWhile op_more cs, ps2 @ [Op op], None,
                 has_redirect op)
      else if quote_char c then
        map_option (\<lambda>(part, e, rest).
            (rest, ps, Some (add_quoted c part e (current_word w after_op)), after_op))
          (quoted_part c cs)
      else Some (cs, ps, Some (add_plain c (current_word w after_op)), after_op))"

lemma lex_step_shorter:
  assumes "lex_step c cs ps w after_op = Some (cs', ps', w', after_op')"
  shows "length cs' \<le> length cs"
  using assms quoted_part_shorter [of c cs]
  by (auto simp: lex_step_def Let_def length_dropWhile_le less_imp_le split: if_splits list.splits)

function lex ::
    "string list \<Rightarrow> piece list \<Rightarrow> word option \<Rightarrow> bool \<Rightarrow> piece list option" where
  "lex [] ps w after_op = Some (finish w ps)"
| "lex (c # cs) ps w after_op = (case lex_step c cs ps w after_op of
       None \<Rightarrow> None
     | Some (cs', ps', w', after_op') \<Rightarrow> lex cs' ps' w' after_op')"
  by pat_completeness auto
termination
  by (relation "measure (\<lambda>(cs, _, _, _). length cs)") (auto dest: lex_step_shorter)

definition split_script :: "string \<Rightarrow> piece list option" where
  "split_script script =
     (if CHR 0x0D \<in> set script \<or> CHR 0x60 \<in> set script \<or> contains_sub script ''$(''
         \<or> contains_sub script ''<<''
      then None else lex (chars script) [] None False)"

section \<open>Kinds of words\<close>

definition base_name :: "string \<Rightarrow> string" where
  "base_name program = to_lowercase (last (split_on CHR ''/'' program))"

definition is_assignment :: "string \<Rightarrow> bool" where
  "is_assignment w = (case split_once CHR ''='' w of
       None \<Rightarrow> False
     | Some (name, _) \<Rightarrow> name \<noteq> []
         \<and> list_all (\<lambda>c. is_ascii_alphanumeric c \<or> c = CHR ''_'') name
         \<and> \<not> is_ascii_digit (hd name))"

definition needs_quotes :: "string \<Rightarrow> bool" where
  "needs_quotes arg \<longleftrightarrow> arg = []
     \<or> list_ex (\<lambda>c. is_whitespace c
         \<or> (length c = 1 \<and> hd c \<in> set (squote @ dquote @ backslash @ ''$`|&;<>()*?[]{}!#~'')))
       (chars arg)"

definition number_part :: "string \<Rightarrow> bool" where
  "number_part p \<longleftrightarrow> 1 \<le> length p \<and> length p \<le> 18 \<and> list_all is_ascii_digit p"

definition is_number :: "string \<Rightarrow> bool" where
  "is_number v = (case split_once CHR ''.'' v of
       None \<Rightarrow> number_part v
     | Some (whole, fraction) \<Rightarrow> number_part whole \<and> number_part fraction)"

definition has_file_extension :: "string \<Rightarrow> bool" where
  "has_file_extension v = (case split_once CHR ''.'' (rev v) of
       None \<Rightarrow> False
     | Some (ext, stem) \<Rightarrow> stem \<noteq> [] \<and> rev ext \<in> set FILE_EXTENSIONS)"

definition looks_like_path :: "string \<Rightarrow> bool" where
  "looks_like_path v \<longleftrightarrow> CHR ''/'' \<in> set v \<or> starts_with v ''.'' \<or> starts_with v ''~''
     \<or> has_file_extension v"

text \<open>\<open>trim_start_matches("./")\<close>.\<close>

fun strip_dots :: "string \<Rightarrow> string" where
  "strip_dots (a # b # v) = (if a = CHR ''.'' \<and> b = CHR ''/'' then strip_dots v else a # b # v)"
| "strip_dots v = v"

definition path_parts :: "string \<Rightarrow> string list" where
  "path_parts v = filter (\<lambda>p. p \<noteq> []) (split_on CHR ''/'' v)"

text \<open>The loop over the components: \<open>None\<close> when \<open>..\<close> leaves the root.\<close>

fun resolve :: "string list \<Rightarrow> string list \<Rightarrow> string list option" where
  "resolve acc [] = Some acc"
| "resolve acc (p # ps) =
     (if p = ''.'' then resolve acc ps
      else if p = ''..'' then (if acc = [] then None else resolve (butlast acc) ps)
      else resolve (acc @ [p]) ps)"

definition file_in_project :: "string \<Rightarrow> place \<Rightarrow> bool" where
  "file_in_project v p =
     (let safe = list_all (\<lambda>c. is_ascii_alphanumeric c \<or> c \<in> set ''._/+,=-'') v;
          parts = path_parts (strip_dots v);
          slash = CHR ''/'' \<in> set v;
          rooted = starts_with v ''/''
      in if \<not> safe \<or> v = [] then False
         else if parts \<noteq> [] \<and> \<not> rooted \<and> hd parts \<noteq> ''.'' \<and> hd parts \<noteq> ''..''
           \<and> CHR ''.'' \<in> set (hd parts) \<and> slash then False
         else if list_ex (\<lambda>x. starts_with x ''.'' \<and> x \<noteq> ''.'' \<and> x \<noteq> ''..'') parts then False
         else if \<not> slash \<and> \<not> has_file_extension v \<and> v \<noteq> ''.'' then False
         else (case resolve [] ((if rooted then [] else path_parts (cwd_dir p)) @ path_parts v) of
             None \<Rightarrow> False
           | Some resolved \<Rightarrow> starts_with resolved (path_parts (project_dir p))))"

section \<open>Generalization\<close>

definition classify :: "word \<Rightarrow> place \<Rightarrow> bool \<Rightarrow> bool \<Rightarrow> token option" where
  "classify w p runs_code files =
     (let v = value_of w
      in if is_number v then Some Number
         else if runs_code then None
         else if looks_like_path v then (if files \<and> file_in_project v p then Some File else None)
         else if quoting_of w = Quoted \<and> v \<noteq> [] \<and> \<not> starts_with v ''-''
             \<and> \<not> contains_sub v ''://'' then Some Str
         else None)"

definition runs_code :: "word list \<Rightarrow> bool" where
  "runs_code ws \<longleftrightarrow> list_ex (\<lambda>w. quoting_of w = Plain \<and> \<not> expands w
     \<and> base_name (value_of w) \<in> set CODE_RUNNERS) ws"

fun simple_words :: "nat \<Rightarrow> place \<Rightarrow> bool \<Rightarrow> bool \<Rightarrow> word list \<Rightarrow> token list" where
  "simple_words pos p code files [] = []"
| "simple_words pos p code files (w # ws) =
     (let assignment = (pos = 0 \<and> is_assignment (value_of w))
      in if assignment \<or> expands w \<or> attached w \<or> quoting_of w = Mixed
         then Lit (raw w) # simple_words
                (if \<not> assignment \<and> value_of w \<noteq> [] then pos + 1 else pos) p code files ws
         else (if pos = 0 \<or> (pos = 1 \<and> \<not> starts_with (value_of w) ''-'') then Lit (raw w)
               else case classify w p code files of None \<Rightarrow> Lit (raw w) | Some t \<Rightarrow> t)
              # simple_words (pos + 1) p code files ws)"

definition generalize_simple :: "word list \<Rightarrow> place \<Rightarrow> bool \<Rightarrow> token list" where
  "generalize_simple ws p files = simple_words 0 p (runs_code ws) files ws"

definition changes_dir :: "word list \<Rightarrow> bool" where
  "changes_dir ws \<longleftrightarrow> list_ex (\<lambda>w. quoting_of w = Plain
     \<and> value_of w \<in> {''cd'', ''pushd'', ''popd''}) ws"

definition redirect_word :: "string \<Rightarrow> word" where
  "redirect_word op = \<lparr>raw = op, value_of = [], quoting_of = Mixed, expands = True,
     attached = True\<rparr>"

fun script_tokens :: "place \<Rightarrow> word list \<Rightarrow> bool \<Rightarrow> piece list \<Rightarrow> token list" where
  "script_tokens p segment files [] =
     generalize_simple segment p (files \<and> \<not> changes_dir segment)"
| "script_tokens p segment files (Word w # ps) = script_tokens p (segment @ [w]) files ps"
| "script_tokens p segment files (Op op # ps) =
     (if has_redirect op then script_tokens p (segment @ [redirect_word op]) files ps
      else let files' = (files \<and> \<not> changes_dir segment)
           in generalize_simple segment p files' @ [TOp op] @ script_tokens p [] files' ps)"

definition generalize_script :: "piece list \<Rightarrow> place \<Rightarrow> token list" where
  "generalize_script ps p = script_tokens p [] True ps"

definition argument_word :: "string \<Rightarrow> word" where
  "argument_word arg = \<lparr>raw = arg, value_of = arg,
     quoting_of = (if needs_quotes arg then Quoted else Plain), expands = False,
     attached = False\<rparr>"

text \<open>The index of \<open>-c\<close> of a shell with a script after it.\<close>

definition script_index :: "string list \<Rightarrow> nat option" where
  "script_index argv =
     (let program = (case argv of [] \<Rightarrow> [] | a # _ \<Rightarrow> base_name a)
      in if program \<in> set SHELLS then
           (case position (\<lambda>a. a = ''-c'' \<or> a = ''-lc'') argv of
              None \<Rightarrow> None
            | Some i \<Rightarrow> if i + 1 < length argv then Some i else None)
         else None)"

definition script_token :: "place \<Rightarrow> string \<Rightarrow> token" where
  "script_token p script = (case split_script script of
       Some pieces \<Rightarrow> Script (generalize_script pieces p)
     | None \<Rightarrow> Lit script)"

definition generalize_argv :: "string list \<Rightarrow> place \<Rightarrow> token list" where
  "generalize_argv argv p = (case script_index argv of
       Some i \<Rightarrow> map Lit (take (i + 1) argv) @ [script_token p (argv ! (i + 1))]
                 @ map Lit (drop (i + 2) argv)
     | None \<Rightarrow> generalize_simple (map argument_word argv) p True)"

definition generalize :: "(token list \<Rightarrow> string) \<Rightarrow> string list \<Rightarrow> place \<Rightarrow> token list option" where
  "generalize encode argv p =
     (let tokens = generalize_argv argv p
      in if length (encode tokens) \<le> MAX_TEMPLATE_BYTES then Some tokens else None)"

section \<open>The text for the owner\<close>

text \<open>\<open>replace('\'', "'\\''")\<close>.\<close>

fun escape_squote :: "string \<Rightarrow> string" where
  "escape_squote [] = []"
| "escape_squote (c # cs) =
     (if [c] = squote then squote @ backslash @ squote @ squote else [c]) @ escape_squote cs"

fun display_token :: "bool \<Rightarrow> token \<Rightarrow> string" where
  "display_token script (Lit t) =
     (if \<not> script \<and> needs_quotes t then squote @ escape_squote t @ squote else t)"
| "display_token script (TOp op) = (if op = newline then '';'' else op)"
| "display_token script File = ''<file>''"
| "display_token script Number = ''<number>''"
| "display_token script Str = ''<string>''"
| "display_token script (Script inner) =
     squote @ join_with '' '' (map (display_token True) inner) @ squote"

definition display :: "token list \<Rightarrow> string" where
  "display tokens = join_with '' '' (map (display_token False) tokens)"

section \<open>What a token says about its word\<close>

definition inert_string :: "word \<Rightarrow> bool" where
  "inert_string w \<longleftrightarrow> quoting_of w = Quoted \<and> value_of w \<noteq> [] \<and> \<not> starts_with (value_of w) ''-''
     \<and> \<not> contains_sub (value_of w) ''://''"

definition token_of_word :: "place \<Rightarrow> bool \<Rightarrow> word \<Rightarrow> token \<Rightarrow> bool" where
  "token_of_word p code w t \<longleftrightarrow> t = Lit (raw w)
     \<or> (\<not> expands w \<and> \<not> attached w
        \<and> (t = Number \<and> is_number (value_of w)
           \<or> \<not> code \<and> (t = File \<and> file_in_project (value_of w) p \<or> t = Str \<and> inert_string w)))"

lemma simple_words_tokens:
  "list_all2 (token_of_word p code) ws (simple_words pos p code files ws)"
proof (induction ws arbitrary: pos)
  case (Cons w ws)
  have "token_of_word p code w t" if "classify w p code files = Some t" "\<not> expands w" "\<not> attached w"
    for t
    using that by (auto simp: classify_def Let_def token_of_word_def inert_string_def split: if_splits)
  then show ?case
    using Cons.IH by (auto simp: Let_def token_of_word_def split: option.splits)
qed simp

lemma simple_words_first:
  "simple_words 0 p code files (w # ws) ! 0 = Lit (raw w)"
  by (auto simp: Let_def)

lemma length_simple_words [simp]: "length (simple_words pos p code files ws) = length ws"
  using simple_words_tokens [of p code ws pos files] by (simp add: list_all2_lengthD)

fun piece_text :: "piece \<Rightarrow> string" where
  "piece_text (Word w) = raw w"
| "piece_text (Op op) = op"

fun token_of_piece :: "place \<Rightarrow> piece \<Rightarrow> token \<Rightarrow> bool" where
  "token_of_piece p (Word w) t \<longleftrightarrow> token_of_word p False w t"
| "token_of_piece p (Op op) t \<longleftrightarrow> t = (if has_redirect op then Lit op else TOp op)"

lemma token_of_word_weaken: "token_of_word p code w t \<Longrightarrow> token_of_word p False w t"
  by (auto simp: token_of_word_def)

lemma generalize_simple_tokens:
  "list_all2 (token_of_piece p) (map Word ws) (generalize_simple ws p files)"
  unfolding generalize_simple_def list_all2_map1
  by (rule list_all2_mono [OF simple_words_tokens]) (auto intro: token_of_word_weaken)

lemma token_of_redirect: "token_of_piece p (Word (redirect_word op)) t \<Longrightarrow> t = Lit op"
  by (simp add: token_of_word_def redirect_word_def)

lemma script_tokens_tokens:
  "list_all2 (token_of_piece p) (map Word seg @ ps) (script_tokens p seg files ps)"
proof (induction p seg files ps rule: script_tokens.induct)
  case (1 p seg files)
  then show ?case by (simp add: generalize_simple_tokens)
next
  case (2 p seg files w ps)
  then show ?case by simp
next
  case (3 p seg files op ps)
  show ?case
  proof (cases "has_redirect op")
    case True
    then have "list_all2 (token_of_piece p) (map Word seg @ Word (redirect_word op) # ps)
        (script_tokens p (seg @ [redirect_word op]) files ps)"
      using 3(1) by simp
    then obtain ts1 t ts2 where ts: "script_tokens p (seg @ [redirect_word op]) files ps = ts1 @ t # ts2"
      "list_all2 (token_of_piece p) (map Word seg) ts1"
      "token_of_piece p (Word (redirect_word op)) t" "list_all2 (token_of_piece p) ps ts2"
      by (auto simp: list_all2_append1 list_all2_Cons1)
    have "token_of_piece p (Op op) t"
      using token_of_redirect [OF ts(3)] True by simp
    then show ?thesis
      using ts True by (simp add: list_all2_appendI)
  next
    case False
    then show ?thesis
      using 3(2) [OF False refl] generalize_simple_tokens [of p seg "files \<and> \<not> changes_dir seg"]
      by (simp add: Let_def list_all2_appendI)
  qed
qed

text \<open>Two words or operators that one token stands for.\<close>

definition inert_pair :: "place \<Rightarrow> word \<Rightarrow> word \<Rightarrow> bool" where
  "inert_pair p w w' \<longleftrightarrow> is_number (value_of w) \<and> is_number (value_of w')
     \<or> file_in_project (value_of w) p \<and> file_in_project (value_of w') p
     \<or> inert_string w \<and> inert_string w'"

definition same_piece :: "place \<Rightarrow> piece \<Rightarrow> piece \<Rightarrow> bool" where
  "same_piece p x y \<longleftrightarrow> piece_text x = piece_text y
     \<or> (case (x, y) of (Word w, Word w') \<Rightarrow> inert_pair p w w' | _ \<Rightarrow> False)"

lemma same_token_same_piece:
  "token_of_piece p x t \<Longrightarrow> token_of_piece p y t \<Longrightarrow> same_piece p x y"
  by (cases x; cases y)
    (auto simp: same_piece_def token_of_word_def inert_pair_def split: if_splits)

lemma same_tokens_all2:
  "list_all2 R xs ts \<Longrightarrow> list_all2 R ys ts \<Longrightarrow> (\<And>x y t. R x t \<Longrightarrow> R y t \<Longrightarrow> S x y) \<Longrightarrow> list_all2 S xs ys"
  by (auto simp: list_all2_conv_all_nth)

lemma same_script:
  assumes "generalize_script ps p = generalize_script qs p"
  shows "list_all2 (same_piece p) ps qs"
proof (rule same_tokens_all2)
  show "list_all2 (token_of_piece p) ps (generalize_script ps p)"
    using script_tokens_tokens [of p "[]" ps True] by (simp add: generalize_script_def)
  show "list_all2 (token_of_piece p) qs (generalize_script ps p)"
    using script_tokens_tokens [of p "[]" qs True] assms by (simp add: generalize_script_def)
qed (rule same_token_same_piece)

section \<open>Argument lists\<close>

lemma chars_ascii: "byte c < 0xC0 \<Longrightarrow> chars (c # cs) = [c] # chars cs"
  by (simp add: char_len_def)

lemma to_lowercase_ascii:
  assumes "byte c < 0xC0"
  shows "to_lowercase (c # cs) = ascii_lower c # to_lowercase cs"
  using assms unfolding to_lowercase_def chars_ascii [OF assms] by (simp add: lower_char_def)

lemma number_part_digit: "number_part v \<Longrightarrow> \<exists>c cs. v = c # cs \<and> is_ascii_digit c"
  by (cases v) (auto simp: number_part_def)

lemma number_text:
  assumes "is_number v"
  shows "\<exists>c cs. v = c # cs \<and> is_ascii_digit c" "CHR ''/'' \<notin> set v"
proof -
  have "number_part p \<Longrightarrow> CHR ''/'' \<notin> set p" for p
    by (auto simp: number_part_def list_all_iff is_ascii_digit_def byte_def)
  then show "\<exists>c cs. v = c # cs \<and> is_ascii_digit c" "CHR ''/'' \<notin> set v"
    using assms number_part_digit
    by (fastforce simp: is_number_def split_once_Some split: option.splits)+
qed

lemma split_on_absent: "c \<notin> set s \<Longrightarrow> split_on c s = [s]"
  by (induction s) auto

lemma number_no_runner:
  assumes "is_number v"
  shows "base_name v \<notin> set CODE_RUNNERS"
proof -
  obtain c cs where c: "v = c # cs" "is_ascii_digit c"
    using number_text(1) [OF assms] by blast
  then have low: "byte c < 0xC0" and same: "ascii_lower c = c"
    by (auto simp: is_ascii_digit_def ascii_lower_def is_ascii_upper_def)
  have "base_name v = c # to_lowercase cs"
    using number_text(2) [OF assms] to_lowercase_ascii [OF low] same c(1)
    by (auto simp: base_name_def split_on_absent)
  then show ?thesis
    using c(2) by (auto simp: CODE_RUNNERS_def is_ascii_digit_def byte_def)
qed

lemma argument_word_simps [simp]:
  "raw (argument_word a) = a" "value_of (argument_word a) = a"
  "\<not> expands (argument_word a)" "\<not> attached (argument_word a)"
  by (simp_all add: argument_word_def)

definition argument_tokens :: "string list \<Rightarrow> place \<Rightarrow> token list" where
  "argument_tokens argv p = generalize_simple (map argument_word argv) p True"

lemma argument_token:
  assumes "i < length argv"
  shows "token_of_word p (runs_code (map argument_word argv)) (argument_word (argv ! i))
    (argument_tokens argv p ! i)"
  using simple_words_tokens [of p "runs_code (map argument_word argv)" "map argument_word argv" 0 True]
    assms
  by (simp add: argument_tokens_def generalize_simple_def list_all2_conv_all_nth)

lemma length_argument_tokens [simp]: "length (argument_tokens argv p) = length argv"
  by (simp add: argument_tokens_def generalize_simple_def)

lemma lit_argument:
  "i < length argv \<Longrightarrow> argument_tokens argv p ! i = Lit x \<longleftrightarrow> argument_tokens argv p ! i = Lit x \<and> argv ! i = x"
  using argument_token [of i argv p] by (auto simp: token_of_word_def)

lemma runs_code_carries_over:
  assumes "argument_tokens a p = argument_tokens b p" "runs_code (map argument_word a)"
  shows "runs_code (map argument_word b)"
proof -
  obtain i where i: "i < length a" "quoting_of (argument_word (a ! i)) = Plain"
    "base_name (a ! i) \<in> set CODE_RUNNERS"
    using assms(2) by (auto simp: runs_code_def list_ex_length)
  have len: "length a = length b"
    using assms(1) length_argument_tokens by metis
  have "argument_tokens a p ! i = Lit (a ! i)"
    using argument_token [OF i(1), of p] i(3) number_no_runner assms(2)
    by (auto simp: token_of_word_def)
  then have "b ! i = a ! i"
    using lit_argument [of i b p "a ! i"] i(1) len assms(1) by simp
  then show ?thesis
    using i len by (auto simp: runs_code_def list_ex_length intro!: exI [of _ i])
qed

lemma first_argument:
  "argv \<noteq> [] \<Longrightarrow> argument_tokens argv p ! 0 = Lit (argv ! 0)"
  by (cases argv) (auto simp: argument_tokens_def generalize_simple_def Let_def)

text \<open>The second word stays as it is unless it starts with a dash.\<close>

lemma second_argument:
  assumes "1 < length argv" "\<not> starts_with (argv ! 1) ''-''"
  shows "argument_tokens argv p ! 1 = Lit (argv ! 1)"
proof -
  obtain x y zs where "argv = x # y # zs"
    using assms(1) by (cases argv; cases "tl argv") auto
  then show ?thesis
    using assms(2) by (auto simp: argument_tokens_def generalize_simple_def Let_def)
qed

section \<open>Shell command lines\<close>

lemma script_index_Some:
  "script_index argv = Some i \<longleftrightarrow> argv \<noteq> [] \<and> base_name (hd argv) \<in> set SHELLS
     \<and> position (\<lambda>a. a = ''-c'' \<or> a = ''-lc'') argv = Some i \<and> i + 1 < length argv"
proof (cases argv)
  case Nil
  then show ?thesis by (simp add: script_index_def SHELLS_def)
next
  case (Cons a as)
  then show ?thesis by (auto simp: script_index_def simp del: position.simps split: option.splits)
qed

lemma shell_tokens:
  assumes "script_index argv = Some i"
  shows "generalize_argv argv p =
    map Lit (take (i + 1) argv) @ [script_token p (argv ! (i + 1))] @ map Lit (drop (i + 2) argv)"
    "length (generalize_argv argv p) = length argv"
    "k < length argv \<Longrightarrow> k \<noteq> i + 1 \<Longrightarrow> generalize_argv argv p ! k = Lit (argv ! k)"
proof -
  have i: "i + 1 < length argv"
    using assms by (simp add: script_index_Some)
  show eq: "generalize_argv argv p =
    map Lit (take (i + 1) argv) @ [script_token p (argv ! (i + 1))] @ map Lit (drop (i + 2) argv)"
    using assms by (simp add: generalize_argv_def)
  show "length (generalize_argv argv p) = length argv"
    using i by (simp add: eq)
  show "generalize_argv argv p ! k = Lit (argv ! k)" if "k < length argv" "k \<noteq> i + 1"
  proof (cases "k < i + 1")
    case True
    then show ?thesis using i by (simp add: eq nth_append)
  next
    case False
    then have "i + 2 \<le> k" using that by linarith
    then obtain d where "k = i + 2 + d" by (auto simp: le_iff_add)
    then show ?thesis using i that by (simp add: eq nth_append nth_Cons' min_def)
  qed
qed

lemma plain_tokens:
  "script_index argv = None \<Longrightarrow> generalize_argv argv p = argument_tokens argv p"
  by (simp add: generalize_argv_def argument_tokens_def)

lemma length_generalize_argv [simp]: "length (generalize_argv argv p) = length argv"
  by (cases "script_index argv") (simp_all add: shell_tokens(2) plain_tokens)

text \<open>A literal of the tokens is the argument itself.\<close>

lemma lit_is_argument:
  assumes "k < length argv" "generalize_argv argv p ! k = Lit x"
    and "case script_index argv of None \<Rightarrow> True | Some i \<Rightarrow> k \<noteq> i + 1"
  shows "argv ! k = x"
proof (cases "script_index argv")
  case None
  then show ?thesis using assms lit_argument [of k argv p x] by (simp add: plain_tokens)
next
  case (Some i)
  then show ?thesis using assms shell_tokens(3) [OF Some, of k p] by simp
qed

lemma position_least:
  "position P xs = Some i \<Longrightarrow> i < length xs \<and> P (xs ! i) \<and> (\<forall>j<i. \<not> P (xs ! j))"
  by (induction xs arbitrary: i) (auto simp: nth_Cons' less_Suc_eq_0_disj split: if_splits)

lemma position_exists:
  "k < length xs \<Longrightarrow> P (xs ! k) \<Longrightarrow> \<exists>i\<le>k. position P xs = Some i"
proof (induction xs arbitrary: k)
  case (Cons x xs)
  then show ?case
    by (cases k) (auto dest!: Cons.IH)
qed simp

lemma same_tokens_same_index:
  assumes "generalize_argv a p = generalize_argv b p" "script_index a = Some i"
  shows "script_index b = Some i"
proof -
  have len: "length a = length b"
    using assms(1) length_generalize_argv by metis
  have i: "a \<noteq> []" "base_name (hd a) \<in> set SHELLS" "i + 1 < length a"
    and least: "a ! i = ''-c'' \<or> a ! i = ''-lc''" "\<forall>j<i. \<not> (a ! j = ''-c'' \<or> a ! j = ''-lc'')"
    using assms(2) position_least [of "\<lambda>a. a = ''-c'' \<or> a = ''-lc''" a i]
    by (auto simp: script_index_Some)
  have lits: "generalize_argv b p ! k = Lit (a ! k)" if "k \<le> i" for k
    using shell_tokens(3) [OF assms(2), of k p] that i(3) assms(1) by simp
  have first: "b \<noteq> []" "b ! 0 = a ! 0"
  proof -
    show "b \<noteq> []" using i(1) len by auto
    then show "b ! 0 = a ! 0"
      using lit_is_argument [of 0 b p "a ! 0"] lits [of 0]
      by (auto split: option.splits)
  qed
  then have shell: "base_name (hd b) \<in> set SHELLS"
    using i by (simp add: hd_conv_nth)
  show ?thesis
  proof (cases "script_index b")
    case None
    then have "b ! i = a ! i"
      using lit_is_argument [of i b p "a ! i"] lits [of i] i(3) len by simp
    then obtain j where "j \<le> i" "position (\<lambda>a. a = ''-c'' \<or> a = ''-lc'') b = Some j"
      using position_exists [of i b "\<lambda>a. a = ''-c'' \<or> a = ''-lc''"] least(1) i(3) len by auto
    then have "script_index b = Some j"
      using first(1) shell i(3) len by (simp add: script_index_Some)
    then show ?thesis using None by simp
  next
    case (Some j)
    then have j: "b ! j = ''-c'' \<or> b ! j = ''-lc''" "\<forall>k<j. \<not> (b ! k = ''-c'' \<or> b ! k = ''-lc'')"
      "j + 1 < length b"
      using position_least [of "\<lambda>a. a = ''-c'' \<or> a = ''-lc''" b j] by (auto simp: script_index_Some)
    have "\<not> j < i"
    proof
      assume "j < i"
      then have "b ! j = a ! j"
        using lit_is_argument [of j b p "a ! j"] lits [of j] j(3) Some by simp
      then show False using j(1) least(2) \<open>j < i\<close> by auto
    qed
    moreover have "\<not> i < j"
    proof
      assume "i < j"
      then have "b ! i = a ! i"
        using lit_is_argument [of i b p "a ! i"] lits [of i] i(3) len Some by simp
      then show False using j(2) least(1) \<open>i < j\<close> by auto
    qed
    ultimately show ?thesis using Some by simp
  qed
qed

lemma same_tokens_no_script:
  "generalize_argv a p = generalize_argv b p \<Longrightarrow> script_index a = None \<Longrightarrow> script_index b = None"
  using same_tokens_same_index [of b p a] by (cases "script_index b") auto

lemma generalize_same:
  assumes "generalize encode a p = Some t" "generalize encode b p = Some t"
  shows "generalize_argv a p = generalize_argv b p"
  using assms by (auto simp: generalize_def Let_def split: if_splits)

section \<open>Properties\<close>

text \<open>C16: A remembered command without a shell script covers only commands that differ in inert
  arguments: the program is the same, the second word too unless it starts with a dash, and
  every other difference is between two numbers, two files of the project or two quoted
  texts; when the command runs code from its arguments, only numbers differ.\<close>

theorem pattern_covers_inert_arguments:
  assumes "generalize encode a p = Some t" "generalize encode b p = Some t"
    and "script_index a = None"
  shows "length a = length b
    \<and> (\<forall>i. i < length a \<longrightarrow> a ! i = b ! i
        \<or> i \<noteq> 0 \<and> (i = 1 \<longrightarrow> starts_with (a ! i) ''-'' \<and> starts_with (b ! i) ''-'')
          \<and> (if runs_code (map argument_word a) then is_number (a ! i) \<and> is_number (b ! i)
             else inert_pair p (argument_word (a ! i)) (argument_word (b ! i))))"
proof -
  have eq: "argument_tokens a p = argument_tokens b p"
    using generalize_same [OF assms(1,2)] assms(3) same_tokens_no_script [of a p b]
    by (simp add: plain_tokens)
  then have len: "length a = length b"
    using length_argument_tokens by metis
  have code: "runs_code (map argument_word a) = runs_code (map argument_word b)"
    using runs_code_carries_over eq by metis
  have "i \<noteq> 0 \<and> (i = 1 \<longrightarrow> starts_with (a ! i) ''-'' \<and> starts_with (b ! i) ''-'')
      \<and> (if runs_code (map argument_word a) then is_number (a ! i) \<and> is_number (b ! i)
         else inert_pair p (argument_word (a ! i)) (argument_word (b ! i)))"
    if i: "i < length a" "a ! i \<noteq> b ! i" for i
  proof -
    have ib: "i < length b" using i(1) len by simp
    have "i \<noteq> 0"
    proof
      assume "i = 0"
      moreover from this have "a \<noteq> []" "b \<noteq> []" using i(1) ib by auto
      ultimately show False
        using i(2) first_argument [of a p] first_argument [of b p] eq by simp
    qed
    moreover have "starts_with (a ! i) ''-'' \<and> starts_with (b ! i) ''-''" if "i = 1"
      using i ib that second_argument [of a p] second_argument [of b p] eq
        lit_argument [of 1 a p "b ! 1"] lit_argument [of 1 b p "a ! 1"] by auto
    moreover have "if runs_code (map argument_word a) then is_number (a ! i) \<and> is_number (b ! i)
         else inert_pair p (argument_word (a ! i)) (argument_word (b ! i))"
      using argument_token [OF i(1), of p] argument_token [OF ib, of p] i(2) eq code
      by (auto simp: token_of_word_def inert_pair_def)
    ultimately show ?thesis by blast
  qed
  with len show ?thesis by blast
qed

text \<open>A remembered shell command line covers only command lines with the same shell words
  around the script and a script that is equal or, piece by piece, the same up to numbers,
  files of the project and quoted texts.\<close>

theorem pattern_covers_inert_scripts:
  assumes "generalize encode a p = Some t" "generalize encode b p = Some t"
    and "script_index a = Some i"
  shows "length a = length b \<and> (\<forall>k. k < length a \<longrightarrow> k \<noteq> i + 1 \<longrightarrow> a ! k = b ! k)
    \<and> (a ! (i + 1) = b ! (i + 1)
       \<or> (\<exists>ps qs. split_script (a ! (i + 1)) = Some ps \<and> split_script (b ! (i + 1)) = Some qs
            \<and> list_all2 (same_piece p) ps qs))"
proof -
  have eq: "generalize_argv a p = generalize_argv b p"
    by (rule generalize_same [OF assms(1,2)])
  have b: "script_index b = Some i"
    by (rule same_tokens_same_index [OF eq assms(3)])
  have len: "length a = length b"
    using eq length_generalize_argv by metis
  have i: "i + 1 < length a"
    using assms(3) by (simp add: script_index_Some)
  have words: "a ! k = b ! k" if "k < length a" "k \<noteq> i + 1" for k
    using shell_tokens(3) [OF assms(3) that, of p] shell_tokens(3) [OF b, of k p] that len eq by simp
  have script: "script_token p (a ! (i + 1)) = script_token p (b ! (i + 1))"
    using i len shell_tokens(1) [OF assms(3), of p] shell_tokens(1) [OF b, of p] eq by simp
  then show ?thesis
    using len words same_script [of _ p]
    by (cases "split_script (a ! (i + 1))"; cases "split_script (b ! (i + 1))")
      (auto simp: script_token_def)
qed

section \<open>The lexer and the source text\<close>

definition word_text :: "word option \<Rightarrow> string" where
  "word_text w = (case w of None \<Rightarrow> [] | Some x \<Rightarrow> raw x)"

definition text_of :: "piece list \<Rightarrow> string" where
  "text_of ps = concat (map piece_text ps)"

lemma text_of_simps [simp]:
  "text_of [] = []" "text_of (ps @ qs) = text_of ps @ text_of qs"
  "text_of (x # ps) = piece_text x @ text_of ps"
  by (simp_all add: text_of_def)

lemma text_finish [simp]: "text_of (finish w ps) = text_of ps @ word_text w"
  by (cases w) (simp_all add: finish_def word_text_def)

lemma text_attach_last [simp]: "text_of (attach_last ps) = text_of ps"
  by (cases ps rule: rev_cases) (auto simp: attach_last_def split: piece.splits)

lemma raw_current [simp]: "raw (current_word w after_op) = word_text w"
  by (cases w) (simp_all add: current_word_def word_text_def new_word_def)

lemma quoted_part_source:
  "quoted_part q xs = Some (part, e, rest) \<Longrightarrow> concat xs = part @ q @ concat rest"
proof (induction q xs arbitrary: part e rest rule: quoted_part.induct)
  case (2 q x xs)
  then show ?case
    by (fastforce split: if_splits list.splits)
qed simp

text \<open>What the lexer appends is a part of what it has not read yet, in order.\<close>

lemma word_text_Some [simp]: "word_text (Some w) = raw w" "word_text None = []"
  by (simp_all add: word_text_def)

lemma raw_adds [simp]:
  "raw (add_plain c w) = raw w @ c" "raw (add_escaped e w) = raw w @ backslash @ e"
  "raw (add_quoted q part e' w) = raw w @ q @ part @ q"
  by (simp_all add: add_plain_def add_escaped_def add_quoted_def)

lemma concat_takeWhile_dropWhile:
  "concat (takeWhile P cs) @ concat (dropWhile P cs) = concat cs"
  by (metis concat_append takeWhile_dropWhile_id)

lemma lex_step_cases:
  assumes "lex_step c cs ps w after_op = Some (cs', ps', w', after_op')"
  shows "(text_of ps' @ word_text w' = text_of ps @ word_text w
      \<and> (cs' = cs \<or> (\<exists>e. cs = e # cs') \<or> cs' = dropWhile (\<lambda>x. x \<noteq> newline) cs))
    \<or> (\<exists>used. text_of ps' @ word_text w' = text_of ps @ word_text w @ used
         \<and> c @ concat cs = used @ concat cs')"
  using assms quoted_part_source [of c cs] unfolding lex_step_def Let_def
  by (auto simp: concat_takeWhile_dropWhile split: if_splits list.splits)

lemma lex_step_source:
  assumes "lex_step c cs ps w after_op = Some (cs', ps', w', after_op')"
  shows "\<exists>mid used. text_of ps' @ word_text w' = text_of ps @ word_text w @ mid
    \<and> c @ concat cs = used @ concat cs' \<and> subseq mid used"
  using lex_step_cases [OF assms]
proof
  assume skip: "text_of ps' @ word_text w' = text_of ps @ word_text w
      \<and> (cs' = cs \<or> (\<exists>e. cs = e # cs') \<or> cs' = dropWhile (\<lambda>x. x \<noteq> newline) cs)"
  have "\<exists>used. concat cs = used @ concat cs'"
  proof -
    have "\<exists>pre. cs = pre @ cs'"
      using skip by (metis append_Cons append_Nil takeWhile_dropWhile_id)
    then show ?thesis by auto
  qed
  then obtain used where "c @ concat cs = (c @ used) @ concat cs'"
    by auto
  with skip show ?thesis
    by (intro exI [of _ "[]"] exI [of _ "c @ used"]) simp
next
  assume "\<exists>used. text_of ps' @ word_text w' = text_of ps @ word_text w @ used
         \<and> c @ concat cs = used @ concat cs'"
  then show ?thesis using subseq_order.refl by blast
qed

lemma lex_source:
  "lex cs ps w after_op = Some res \<Longrightarrow>
     \<exists>more. text_of res = text_of ps @ word_text w @ more \<and> subseq more (concat cs)"
proof (induction cs ps w after_op arbitrary: res rule: lex.induct)
  case (1 ps w after_op)
  then show ?case by auto
next
  case (2 c cs ps w after_op)
  then obtain cs' ps' w' after_op' where step: "lex_step c cs ps w after_op = Some (cs', ps', w', after_op')"
    and rest: "lex cs' ps' w' after_op' = Some res"
    by (auto split: option.splits)
  obtain mid used where mid: "text_of ps' @ word_text w' = text_of ps @ word_text w @ mid"
    "c @ concat cs = used @ concat cs'" "subseq mid used"
    using lex_step_source [OF step] by blast
  obtain more where "text_of res = text_of ps' @ word_text w' @ more" "subseq more (concat cs')"
    using 2(1) [OF step refl refl refl rest] by blast
  then have "text_of res = text_of ps @ word_text w @ mid @ more"
    "subseq (mid @ more) (concat (c # cs))"
    using mid list_emb_append_mono [of "(=)" mid used more "concat cs'"]
    by (metis append_assoc, simp)
  then show ?case by blast
qed

text \<open>The lexer invents nothing: the words and operators of a script, with their quotes and in
  their order, are a subsequence of its source text.\<close>

theorem pieces_come_from_the_source:
  assumes "split_script script = Some ps"
  shows "subseq (concat (map piece_text ps)) script"
proof -
  have "lex (chars script) [] None False = Some ps"
    using assms by (simp add: split_script_def split: if_splits)
  from lex_source [OF this] show ?thesis
    by (auto simp: text_of_def)
qed













section \<open>Joined lines\<close>

definition plain_char :: "char \<Rightarrow> bool" where
  "plain_char c \<longleftrightarrow> is_ascii_alphanumeric c \<or> c \<in> set '' ._/-''"

lemma plain_char_simps:
  assumes "plain_char c"
  shows "byte c < 0x80" "[c] \<noteq> newline" "[c] \<noteq> backslash" "\<not> op_char [c]" "\<not> quote_char [c]"
    "\<not> starts_comment [c] w" "c \<noteq> CHR ''$''" "c \<noteq> CHR ''<''" "c \<noteq> CHR 0x0D" "c \<noteq> CHR 0x60"
  using assms
  by (auto simp: plain_char_def is_ascii_alphanumeric_def is_ascii_upper_def is_ascii_lower_def
    is_ascii_digit_def newline_def backslash_def op_char_def quote_char_def starts_comment_def
    squote_def dquote_def byte_def)

lemma not_plain [simp]:
  "\<not> plain_char (CHR ''$'')" "\<not> plain_char (CHR ''<'')" "\<not> plain_char (CHR 0x0D)"
  "\<not> plain_char (CHR 0x60)"
  using plain_char_simps(7-10) by blast+

lemma plain_blank: "plain_char (CHR '' '')"
  by (simp add: plain_char_def)

lemma chars_plain: "list_all (\<lambda>c. byte c < 0xC0) s \<Longrightarrow> chars s = map (\<lambda>c. [c]) s"
  by (induction s) (simp_all add: chars_ascii del: chars.simps(2))

lemma lex_plain:
  "list_all plain_char x \<Longrightarrow>
     \<exists>ps' w' after'. \<forall>rest. lex (map (\<lambda>c. [c]) x @ rest) ps w after_op = lex rest ps' w' after'"
proof (induction x arbitrary: ps w after_op)
  case (Cons c x)
  have "lex_step [c] cs ps w after_op = (if is_blank [c] then Some (cs, finish w ps, None, False)
      else Some (cs, ps, Some (add_plain [c] (current_word w after_op)), after_op))" for cs
    using plain_char_simps [of c] Cons.prems by (simp add: lex_step_def)
  then have "\<exists>ps' w' after'. \<forall>cs. lex_step [c] cs ps w after_op = Some (cs, ps', w', after')"
    by (cases "is_blank [c]") auto
  then obtain ps1 w1 after1 where "\<forall>cs. lex_step [c] cs ps w after_op = Some (cs, ps1, w1, after1)"
    by blast
  moreover obtain ps2 w2 after2 where
    "\<forall>rest. lex (map (\<lambda>c. [c]) x @ rest) ps1 w1 after1 = lex rest ps2 w2 after2"
    using Cons.IH [of ps1 w1 after1] Cons.prems by auto
  ultimately show ?case by auto
qed auto

lemma lex_joined:
  "lex (backslash # newline # cs) ps w after_op = lex ('' '' # cs) ps w after_op"
  by (simp add: lex_step_def is_blank_def backslash_def newline_def)

lemma contains_sub_first: "contains_sub s (c # t) \<Longrightarrow> c \<in> set s"
  by (auto simp: contains_sub_def starts_with_iff dest!: find_sub_Some)
    (metis in_set_dropD list.set_intros(1))

lemma plain_splits:
  assumes "list_all plain_char x" "list_all plain_char y"
    and "m = backslash @ newline \<or> m = '' ''"
  shows "split_script (x @ m @ y) = lex (map (\<lambda>c. [c]) x @ map (\<lambda>c. [c]) m @ map (\<lambda>c. [c]) y) [] None False"
proof -
  have no: "CHR 0x0D \<notin> set (x @ m @ y)" "CHR 0x60 \<notin> set (x @ m @ y)"
    "CHR ''$'' \<notin> set (x @ m @ y)" "CHR ''<'' \<notin> set (x @ m @ y)"
    using assms not_plain by (auto simp: list_all_iff backslash_def newline_def)
  have "list_all (\<lambda>c. byte c < 0xC0) (x @ m @ y)"
    using assms plain_char_simps(1)
    by (fastforce simp: list_all_iff backslash_def newline_def byte_def)
  then show ?thesis
    using no contains_sub_first [of "x @ m @ y"] by (auto simp: split_script_def chars_plain)
qed

text \<open>A backslash before a line break does not join the lines: the script is read as if a blank
  stood there, so the pattern of the command that the shell joins is the pattern of the
  command with two words.\<close>

theorem line_continuation_is_a_blank:
  assumes "list_all plain_char x" "list_all plain_char y"
  shows "generalize encode [''sh'', ''-c'', x @ backslash @ newline @ y] p
      = generalize encode [''sh'', ''-c'', x @ '' '' @ y] p"
proof -
  have "split_script (x @ (backslash @ newline) @ y) = split_script (x @ '' '' @ y)"
    using lex_plain [OF assms(1), of "[]" None False] lex_joined
    unfolding plain_splits [OF assms disjI1 [OF refl]] plain_splits [OF assms disjI2 [OF refl]]
    by (auto simp: backslash_def newline_def simp del: lex.simps)
  moreover have "split_script (x @ '' '' @ y) \<noteq> None"
  proof -
    have "list_all plain_char (x @ '' '' @ y)"
      using assms plain_blank by simp
    from lex_plain [OF this, of "[]" None False] obtain ps w after_op where
      "lex (map (\<lambda>c. [c]) (x @ '' '' @ y) @ []) [] None False = lex [] ps w after_op"
      by blast
    then show ?thesis
      unfolding plain_splits [OF assms disjI2 [OF refl]] by simp
  qed
  ultimately have "script_token p (x @ backslash @ newline @ y) = script_token p (x @ '' '' @ y)"
    by (auto simp: script_token_def)
  then show ?thesis
    by (simp add: generalize_def generalize_argv_def script_index_def
      base_name_def to_lowercase_def char_len_def byte_def lower_char_def ascii_lower_def
      is_ascii_upper_def SHELLS_def Let_def)
qed

section \<open>Examples\<close>

definition demo_place :: place where
  "demo_place = \<lparr>project_dir = ''/w/app'', cwd_dir = ''/w/app''\<rparr>"

lemma demo_log:
  "generalize (\<lambda>_. []) [''git'', ''log'', ''-n'', ''5''] demo_place
     = Some [Lit ''git'', Lit ''log'', Lit ''-n'', Number]"
  "generalize (\<lambda>_. []) [''git'', ''log'', ''-n'', ''17''] demo_place
     = Some [Lit ''git'', Lit ''log'', Lit ''-n'', Number]"
  by code_simp+

lemma pattern_covers_inert_arguments_witness:
  "length [''git'', ''log'', ''-n'', ''5''] = length [''git'', ''log'', ''-n'', ''17'']
     \<and> is_number ''5'' \<and> script_index [''git'', ''log'', ''-n'', ''5''] = None"
proof -
  have "script_index [''git'', ''log'', ''-n'', ''5''] = None" "is_number ''5''"
    by code_simp+
  with pattern_covers_inert_arguments [OF demo_log this(1)] show ?thesis by simp
qed

lemma demo_script:
  "generalize (\<lambda>_. []) [''sh'', ''-c'', ''cd x; head -n 5 >out''] demo_place
     = Some [Lit ''sh'', Lit ''-c'', Script [Lit ''cd'', Lit ''x'', TOp '';'', Lit ''head'', Lit ''-n'',
         Number, Lit ''>'', Lit ''out'']]"
  "generalize (\<lambda>_. []) [''sh'', ''-c'', ''cd x; head -n 70 >out''] demo_place
     = Some [Lit ''sh'', Lit ''-c'', Script [Lit ''cd'', Lit ''x'', TOp '';'', Lit ''head'', Lit ''-n'',
         Number, Lit ''>'', Lit ''out'']]"
  by code_simp+

lemma pattern_covers_inert_scripts_witness:
  "\<exists>ps qs. split_script ''cd x; head -n 5 >out'' = Some ps
     \<and> split_script ''cd x; head -n 70 >out'' = Some qs \<and> list_all2 (same_piece demo_place) ps qs"
proof -
  have "script_index [''sh'', ''-c'', ''cd x; head -n 5 >out''] = Some 1"
    by code_simp
  from pattern_covers_inert_scripts [OF demo_script this] show ?thesis by simp
qed

lemma pieces_come_from_the_source_witness:
  "\<exists>ps. split_script ''ls  -l # all'' = Some ps
     \<and> concat (map piece_text ps) = ''ls-l'' \<and> subseq ''ls-l'' ''ls  -l # all''"
proof -
  have "map_option (\<lambda>ps. concat (map piece_text ps)) (split_script ''ls  -l # all'') = Some ''ls-l''"
    by code_simp
  then obtain ps where "split_script ''ls  -l # all'' = Some ps" "concat (map piece_text ps) = ''ls-l''"
    by auto
  with pieces_come_from_the_source [of "''ls  -l # all''" ps] show ?thesis by auto
qed




lemma line_continuation_is_a_blank_witness:
  "generalize (\<lambda>_. []) [''sh'', ''-c'', ''git pu'' @ backslash @ newline @ ''sh''] demo_place
     = generalize (\<lambda>_. []) [''sh'', ''-c'', ''git pu sh''] demo_place"
proof -
  have "list_all plain_char ''git pu''" "list_all plain_char ''sh''"
    by code_simp+
  from line_continuation_is_a_blank [OF this] show ?thesis by simp
qed

text \<open>A redirect before the program: its target takes the place of the program, so the word after
  the real program can become a file.\<close>

lemma leading_redirect_takes_the_program_place:
  "generalize (\<lambda>_. []) [''sh'', ''-c'', ''>f cat x.md''] demo_place
     = generalize (\<lambda>_. []) [''sh'', ''-c'', ''>f cat y.md''] demo_place"
  "generalize (\<lambda>_. []) [''sh'', ''-c'', ''cat x.md''] demo_place
     \<noteq> generalize (\<lambda>_. []) [''sh'', ''-c'', ''cat y.md''] demo_place"
  by code_simp+

end
