(* ===== verification/Otp.thy ===== *)
theory Otp
  imports Prelude "HOL-Library.Code_Target_Nat"
begin

text \<open>
  One-time passwords (src/src/otp.rs): the strict parser of a TOTP setting, the code at a
  time, and the rules that name a field a one-time password, with the rule for a stored
  setup key (src/src/vault/access.rs). A key or a MAC is the list of its bytes. HMAC comes
  from a library and is an argument, and so are the Unicode letters outside ASCII.
\<close>

section \<open>Settings\<close>

definition MAX_VALUE_BYTES :: nat where
  "MAX_VALUE_BYTES = 2048"

definition MIN_KEY_BYTES :: nat where
  "MIN_KEY_BYTES = 10"

datatype otp_error = InvalidOtp | Hotp

datatype algorithm = Sha1 | Sha256 | Sha512

record totp =
  t_key :: "nat list"
  t_algorithm :: algorithm
  t_digits :: nat
  t_period :: nat

definition SCHEME :: string where
  "SCHEME = ''otpauth://''"

definition has_uri_prefix :: "string \<Rightarrow> bool" where
  "has_uri_prefix v = (case get_range v 0 (length SCHEME) of
       None \<Rightarrow> False | Some s \<Rightarrow> eq_ignore_ascii_case s SCHEME)"

definition set_once :: "'a option \<Rightarrow> 'a \<Rightarrow> otp_error + 'a option" where
  "set_once slot v = (case slot of Some _ \<Rightarrow> Inl InvalidOtp | None \<Rightarrow> Inr (Some v))"

section \<open>Base32\<close>

text \<open>The value of a symbol; \<open>None\<close> of the inner option is a blank or a dash, which is skipped.\<close>

definition symbol_value :: "char \<Rightarrow> nat option option" where
  "symbol_value c =
     (let b = byte c; u = (if is_ascii_lower c then b - 32 else b)
      in if 65 \<le> u \<and> u \<le> 90 then Some (Some (u - 65))
         else if 50 \<le> u \<and> u \<le> 55 then Some (Some (u - 50 + 26))
         else if c = CHR '' '' \<or> c = CHR ''-'' then Some None
         else None)"

record base32_state =
  b_out :: "nat list"
  b_buffer :: nat
  b_bits :: nat
  b_symbols :: nat

definition base32_step :: "nat \<Rightarrow> base32_state \<Rightarrow> base32_state" where
  "base32_step v s =
     (let buffer = b_buffer s * 32 + v; bits = b_bits s + 5
      in if 8 \<le> bits
         then \<lparr>b_out = b_out s @ [(buffer div 2 ^ (bits - 8)) mod 256],
               b_buffer = buffer mod 2 ^ (bits - 8), b_bits = bits - 8,
               b_symbols = b_symbols s + 1\<rparr>
         else \<lparr>b_out = b_out s, b_buffer = buffer, b_bits = bits, b_symbols = b_symbols s + 1\<rparr>)"

fun base32_loop :: "string \<Rightarrow> base32_state \<Rightarrow> base32_state option" where
  "base32_loop [] s = Some s"
| "base32_loop (c # cs) s = (case symbol_value c of
       None \<Rightarrow> None
     | Some None \<Rightarrow> base32_loop cs s
     | Some (Some v) \<Rightarrow> base32_loop cs (base32_step v s))"

definition base32_start :: base32_state where
  "base32_start = \<lparr>b_out = [], b_buffer = 0, b_bits = 0, b_symbols = 0\<rparr>"

definition base32 :: "string \<Rightarrow> nat list option" where
  "base32 t = (case base32_loop (trim_end_matches CHR ''='' t) base32_start of
       None \<Rightarrow> None
     | Some s \<Rightarrow>
         if b_symbols s mod 8 \<in> {1, 3, 6} then None
         else if MIN_KEY_BYTES \<le> length (b_out s) then Some (b_out s) else None)"

section \<open>The parser\<close>

function percent_bytes :: "string \<Rightarrow> nat \<Rightarrow> string option" where
  "percent_bytes t i =
     (if length t \<le> i then Some []
      else if t ! i = CHR ''%'' then
        Option.bind (Option.bind (get_range t (i + 1) (i + 3)) (parse_number 16 255))
          (\<lambda>b. map_option ((#) (char_of b)) (percent_bytes t (i + 3)))
      else map_option ((#) (if t ! i = CHR ''+'' then CHR '' '' else t ! i)) (percent_bytes t (i + 1)))"
  by pat_completeness auto
termination
  by (relation "measure (\<lambda>(t, i). length t - i)") auto

declare percent_bytes.simps [simp del]

definition percent_decode :: "string \<Rightarrow> string option" where
  "percent_decode t =
     Option.bind (percent_bytes t 0) (\<lambda>out. if valid_utf8 out then Some out else None)"

record otp_slots =
  sl_key :: "nat list option"
  sl_algorithm :: "algorithm option"
  sl_digits :: "nat option"
  sl_period :: "nat option"

definition to_ascii_uppercase :: "string \<Rightarrow> string" where
  "to_ascii_uppercase = map (\<lambda>c. if is_ascii_lower c then char_of (byte c - 32) else c)"

definition algorithm_of :: "string \<Rightarrow> algorithm option" where
  "algorithm_of v =
     (let u = to_ascii_uppercase v
      in if u = ''SHA1'' then Some Sha1 else if u = ''SHA256'' then Some Sha256
         else if u = ''SHA512'' then Some Sha512 else None)"

definition in_range :: "nat \<Rightarrow> nat \<Rightarrow> nat \<Rightarrow> nat option" where
  "in_range lo hi n = (if lo \<le> n \<and> n \<le> hi then Some n else None)"

definition split_pair :: "string \<Rightarrow> string \<times> string" where
  "split_pair pair = (case split_once CHR ''='' pair of None \<Rightarrow> (pair, []) | Some x \<Rightarrow> x)"

definition otp_names :: "string list" where
  "otp_names = [''secret'', ''algorithm'', ''digits'', ''period'']"

definition read_value :: "string \<Rightarrow> string \<Rightarrow> otp_slots \<Rightarrow> otp_error + otp_slots" where
  "read_value name v s =
     (if name = ''secret'' then
        and_then (ok_or InvalidOtp (base32 v)) (\<lambda>k.
        and_then (set_once (sl_key s) k) (\<lambda>x. Inr (s\<lparr>sl_key := x\<rparr>)))
      else if name = ''algorithm'' then
        and_then (ok_or InvalidOtp (algorithm_of v)) (\<lambda>a.
        and_then (set_once (sl_algorithm s) a) (\<lambda>x. Inr (s\<lparr>sl_algorithm := x\<rparr>)))
      else if name = ''digits'' then
        and_then (ok_or InvalidOtp (Option.bind (parse_number 10 4294967295 v) (in_range 6 8)))
          (\<lambda>d. and_then (set_once (sl_digits s) d) (\<lambda>x. Inr (s\<lparr>sl_digits := x\<rparr>)))
      else
        and_then (ok_or InvalidOtp
            (Option.bind (parse_number 10 18446744073709551615 v) (in_range 15 120)))
          (\<lambda>p. and_then (set_once (sl_period s) p) (\<lambda>x. Inr (s\<lparr>sl_period := x\<rparr>))))"

definition read_pair :: "string \<Rightarrow> otp_slots \<Rightarrow> otp_error + otp_slots" where
  "read_pair pair s =
     (let (name0, raw) = split_pair pair; name = to_ascii_lowercase name0
      in if name \<notin> set otp_names then Inr s
         else and_then (ok_or InvalidOtp (percent_decode raw)) (\<lambda>v. read_value name v s))"

fun read_pairs :: "string list \<Rightarrow> otp_slots \<Rightarrow> otp_error + otp_slots" where
  "read_pairs [] s = Inr s"
| "read_pairs (p # ps) s = and_then (read_pair p s) (read_pairs ps)"

definition query_of :: "string \<Rightarrow> string" where
  "query_of rest =
     (let q = (case split_once CHR ''?'' rest of None \<Rightarrow> [] | Some (_, q) \<Rightarrow> q)
      in case split_once CHR ''#'' q of None \<Rightarrow> q | Some (q', _) \<Rightarrow> q')"

definition parse_uri :: "string \<Rightarrow> otp_error + totp" where
  "parse_uri uri =
     (let rest = drop (length SCHEME) uri
      in case position (\<lambda>c. c = CHR ''/'' \<or> c = CHR ''?'') rest of
           None \<Rightarrow> Inl InvalidOtp
         | Some end_at \<Rightarrow>
             let kind = take end_at rest
             in if eq_ignore_ascii_case kind ''hotp'' then Inl Hotp
                else if \<not> eq_ignore_ascii_case kind ''totp'' then Inl InvalidOtp
                else and_then (read_pairs (split_on CHR ''&'' (query_of (drop end_at rest)))
                        \<lparr>sl_key = None, sl_algorithm = None, sl_digits = None, sl_period = None\<rparr>)
                      (\<lambda>s. and_then (ok_or InvalidOtp (sl_key s)) (\<lambda>k.
                        Inr \<lparr>t_key = k,
                          t_algorithm = (case sl_algorithm s of None \<Rightarrow> Sha1 | Some a \<Rightarrow> a),
                          t_digits = (case sl_digits s of None \<Rightarrow> 6 | Some d \<Rightarrow> d),
                          t_period = (case sl_period s of None \<Rightarrow> 30 | Some p \<Rightarrow> p)\<rparr>)))"

definition parse_totp :: "string \<Rightarrow> otp_error + totp" where
  "parse_totp value =
     (let v = trim value
      in if MAX_VALUE_BYTES < length v then Inl InvalidOtp
         else if has_uri_prefix v then parse_uri v
         else and_then (ok_or InvalidOtp (base32 v)) (\<lambda>k.
           Inr \<lparr>t_key = k, t_algorithm = Sha1, t_digits = 6, t_period = 30\<rparr>))"

section \<open>Codes\<close>

definition to_be_bytes :: "nat \<Rightarrow> nat list" where
  "to_be_bytes n = map (\<lambda>i. n div 256 ^ (7 - i) mod 256) [0..<8]"

text \<open>\<open>{code:0width$}\<close>.\<close>

fun padded :: "nat \<Rightarrow> nat \<Rightarrow> string" where
  "padded 0 n = []"
| "padded (Suc w) n = padded w (n div 10) @ [digit n]"

definition truncate_mac :: "nat list \<Rightarrow> nat" where
  "truncate_mac mac =
     (let i = last mac mod 16
      in (mac ! i mod 128) * 16777216 + mac ! (i + 1) * 65536 + mac ! (i + 2) * 256 + mac ! (i + 3))"

definition code_at ::
    "(algorithm \<Rightarrow> nat list \<Rightarrow> nat list \<Rightarrow> nat list) \<Rightarrow> totp \<Rightarrow> nat \<Rightarrow> string \<times> nat" where
  "code_at hmac t unix =
     (let mac = hmac (t_algorithm t) (t_key t) (to_be_bytes (unix div t_period t));
          code = truncate_mac mac mod 10 ^ t_digits t
      in (padded (t_digits t) code, t_period t - unix mod t_period t))"

definition run_code_at ::
    "(algorithm \<Rightarrow> nat list \<Rightarrow> nat list \<Rightarrow> nat list) \<Rightarrow> totp \<Rightarrow> nat \<Rightarrow> string \<times> nat" where
  "run_code_at hmac t unix =
     (let left = t_period t - unix mod t_period t
      in code_at hmac t (if left \<le> 5 then min (unix + left) 18446744073709551615 else unix))"

section \<open>Labels and links\<close>

definition is_alphanumeric :: "(string \<Rightarrow> bool) \<Rightarrow> string \<Rightarrow> bool" where
  "is_alphanumeric letter c \<longleftrightarrow> (case c of [a] \<Rightarrow> is_ascii_alphanumeric a | _ \<Rightarrow> letter c)"

text \<open>What may follow \<open>otp\<close> or \<open>totp\<close>.\<close>

definition otp_suffix :: "string \<Rightarrow> bool" where
  "otp_suffix rest \<longleftrightarrow> rest = []
     \<or> (case strip_prefix rest '' '' of
          None \<Rightarrow> False
        | Some s \<Rightarrow> s \<noteq> []
            \<and> (list_all is_ascii_digit s \<or> (starts_with s ''('' \<and> ends_with s '')'')
               \<or> (starts_with s ''['' \<and> ends_with s '']'')))"

definition one_time_prefixes :: "string list" where
  "one_time_prefixes = [''one-time'', ''one time'',
     ''one'' @ [CHR 0xE2, CHR 0x80, CHR 0x91] @ ''time'']"

definition one_time_rest :: "(string \<Rightarrow> bool) \<Rightarrow> string \<Rightarrow> bool" where
  "one_time_rest letter rest \<longleftrightarrow>
     list_ex (\<lambda>w. case strip_prefix rest w of
          None \<Rightarrow> False
        | Some tail \<Rightarrow> \<not> (case chars tail of [] \<Rightarrow> False | c # _ \<Rightarrow> is_alphanumeric letter c))
       [''password'', ''code'']"

definition is_otp_label :: "(string \<Rightarrow> bool) \<Rightarrow> string \<Rightarrow> bool" where
  "is_otp_label letter label0 =
     (let label = to_lowercase (join_with '' '' (split_whitespace label0))
      in case strip_prefix label ''otp'' of
           Some rest \<Rightarrow> otp_suffix rest
         | None \<Rightarrow>
             (case strip_prefix label ''totp'' of
                Some rest \<Rightarrow> otp_suffix rest
              | None \<Rightarrow>
                  list_ex (\<lambda>prefix.
                    case Option.bind (strip_prefix label prefix) (\<lambda>r. strip_prefix r '' '') of
                      None \<Rightarrow> False | Some rest \<Rightarrow> one_time_rest letter rest) one_time_prefixes))"

definition is_totp_uri :: "string \<Rightarrow> bool" where
  "is_totp_uri value =
     (let v = trim_start value; start = ''otpauth://totp''
      in (case get_range v 0 (length start) of
            None \<Rightarrow> False | Some h \<Rightarrow> eq_ignore_ascii_case h start)
         \<and> (length v \<le> length start \<or> v ! length start \<in> {CHR ''/'', CHR ''?''}))"

fun hex_pairs :: "string \<Rightarrow> string option" where
  "hex_pairs [] = Some []"
| "hex_pairs [c] = None"
| "hex_pairs (a # b # cs) =
     Option.bind (parse_number 16 255 [a, b]) (\<lambda>n. map_option ((#) (char_of n)) (hex_pairs cs))"

definition custom_detail_label :: "string \<Rightarrow> string option" where
  "custom_detail_label name =
     Option.bind (strip_prefix name ''x_'') (\<lambda>hex.
       if hex = [] \<or> length hex mod 2 \<noteq> 0 then None
       else Option.bind (hex_pairs hex) (\<lambda>s. if valid_utf8 s then Some s else None))"

definition is_setup_key_field :: "(string \<Rightarrow> bool) \<Rightarrow> string \<Rightarrow> string \<Rightarrow> bool" where
  "is_setup_key_field letter name value \<longleftrightarrow>
     (case custom_detail_label name of None \<Rightarrow> False | Some label \<Rightarrow> is_otp_label letter label)
     \<or> is_totp_uri value"

section \<open>The parser gives well-formed settings\<close>

definition key_ok :: "nat list \<Rightarrow> bool" where
  "key_ok k \<longleftrightarrow> MIN_KEY_BYTES \<le> length k \<and> (\<forall>b\<in>set k. b < 256)"

definition totp_ok :: "totp \<Rightarrow> bool" where
  "totp_ok t \<longleftrightarrow> key_ok (t_key t) \<and> 6 \<le> t_digits t \<and> t_digits t \<le> 8
     \<and> 15 \<le> t_period t \<and> t_period t \<le> 120"

definition slots_ok :: "otp_slots \<Rightarrow> bool" where
  "slots_ok s \<longleftrightarrow> pred_option key_ok (sl_key s)
     \<and> pred_option (\<lambda>d. 6 \<le> d \<and> d \<le> 8) (sl_digits s)
     \<and> pred_option (\<lambda>p. 15 \<le> p \<and> p \<le> 120) (sl_period s)"

text \<open>The name of a pair, and the slot of a name as used or free.\<close>

definition pair_name :: "string \<Rightarrow> string" where
  "pair_name p = to_ascii_lowercase (fst (split_pair p))"

definition slot_used :: "string \<Rightarrow> otp_slots \<Rightarrow> bool" where
  "slot_used n s \<longleftrightarrow>
     (if n = ''secret'' then sl_key s \<noteq> None
      else if n = ''algorithm'' then sl_algorithm s \<noteq> None
      else if n = ''digits'' then sl_digits s \<noteq> None
      else sl_period s \<noteq> None)"

lemma set_once_Inr [simp]: "set_once slot v = Inr x \<longleftrightarrow> slot = None \<and> x = Some v"
  by (cases slot) (auto simp: set_once_def)

lemma in_range_Some [simp]: "in_range lo hi n = Some m \<longleftrightarrow> lo \<le> n \<and> n \<le> hi \<and> m = n"
  by (auto simp: in_range_def)

definition bytes_ok :: "base32_state \<Rightarrow> bool" where
  "bytes_ok s \<longleftrightarrow> (\<forall>b\<in>set (b_out s). b < 256)"

lemma base32_step_bytes: "bytes_ok s \<Longrightarrow> bytes_ok (base32_step v s)"
  by (auto simp: base32_step_def bytes_ok_def Let_def)

lemma base32_loop_bytes: "base32_loop cs s = Some s' \<Longrightarrow> bytes_ok s \<Longrightarrow> bytes_ok s'"
  by (induction cs s rule: base32_loop.induct)
    (simp_all add: base32_step_bytes split: option.split_asm)

lemma base32_key_ok: "base32 t = Some k \<Longrightarrow> key_ok k"
proof -
  assume "base32 t = Some k"
  then obtain s where "base32_loop (trim_end_matches CHR ''='' t) base32_start = Some s"
    and "k = b_out s" "MIN_KEY_BYTES \<le> length k"
    by (auto simp: base32_def split: option.splits if_splits)
  moreover have "bytes_ok base32_start" by (simp add: bytes_ok_def base32_start_def)
  ultimately show ?thesis
    using base32_loop_bytes by (auto simp: key_ok_def bytes_ok_def)
qed

text \<open>What a read of a name does to the slots, for a list of names.\<close>

definition fills :: "string \<Rightarrow> otp_slots \<Rightarrow> otp_slots \<Rightarrow> bool" where
  "fills n s s' \<longleftrightarrow> \<not> slot_used n s \<and> slot_used n s'
     \<and> list_all (\<lambda>m. m = n \<or> slot_used m s' = slot_used m s) otp_names
     \<and> (slots_ok s \<longrightarrow> slots_ok s')"

lemma read_secret: "read_value ''secret'' v s = Inr s' \<Longrightarrow> fills ''secret'' s s'"
  by (auto simp: read_value_def fills_def slot_used_def slots_ok_def otp_names_def
      and_then_eq_Inr dest: base32_key_ok)

lemma read_algorithm: "read_value ''algorithm'' v s = Inr s' \<Longrightarrow> fills ''algorithm'' s s'"
  by (auto simp: read_value_def fills_def slot_used_def slots_ok_def otp_names_def
      and_then_eq_Inr)

lemma read_digits: "read_value ''digits'' v s = Inr s' \<Longrightarrow> fills ''digits'' s s'"
  by (auto simp: read_value_def fills_def slot_used_def slots_ok_def otp_names_def
      and_then_eq_Inr bind_eq_Some_conv)

lemma read_period: "read_value ''period'' v s = Inr s' \<Longrightarrow> fills ''period'' s s'"
  by (auto simp: read_value_def fills_def slot_used_def slots_ok_def otp_names_def
      and_then_eq_Inr bind_eq_Some_conv)

lemma read_value_fills:
  assumes "n \<in> set otp_names" and r: "read_value n v s = Inr s'"
  shows "fills n s s'"
proof -
  consider "n = ''secret''" | "n = ''algorithm''" | "n = ''digits''" | "n = ''period''"
    using assms(1) unfolding otp_names_def list.set by blast
  then show ?thesis
    by cases (use r read_secret read_algorithm read_digits read_period in \<open>blast+\<close>)
qed

lemma read_pair_cases:
  assumes "read_pair p s = Inr s'"
  shows "if pair_name p \<in> set otp_names then fills (pair_name p) s s' else s' = s"
proof (cases "pair_name p \<in> set otp_names")
  case True
  then obtain v where "read_value (pair_name p) v s = Inr s'"
    using assms
    by (auto simp: read_pair_def pair_name_def Let_def and_then_eq_Inr split: prod.splits)
  with True show ?thesis using read_value_fills by simp
next
  case False
  then show ?thesis
    using assms by (auto simp: read_pair_def pair_name_def Let_def split: prod.splits)
qed

lemma read_pairs_once:
  "read_pairs ps s = Inr s' \<Longrightarrow> n \<in> set otp_names \<Longrightarrow>
     length (filter (\<lambda>p. pair_name p = n) ps) \<le> (if slot_used n s then 0 else 1)"
proof (induction ps arbitrary: s)
  case (Cons p ps)
  then obtain s1 where "read_pair p s = Inr s1" "read_pairs ps s1 = Inr s'"
    by (auto simp: and_then_eq_Inr)
  with Cons.IH [of s1] Cons.prems(2) read_pair_cases [of p s s1] show ?case
    by (auto simp: fills_def list_all_iff split: if_splits)
qed simp

lemma read_pairs_ok: "read_pairs ps s = Inr s' \<Longrightarrow> slots_ok s \<Longrightarrow> slots_ok s'"
proof (induction ps arbitrary: s)
  case (Cons p ps)
  then obtain s1 where "read_pair p s = Inr s1" "read_pairs ps s1 = Inr s'"
    by (auto simp: and_then_eq_Inr)
  with Cons read_pair_cases [of p s s1] show ?case
    by (auto simp: fills_def split: if_splits)
qed simp

text \<open>The pairs of the query of a setting.\<close>

definition uri_pairs :: "string \<Rightarrow> string list" where
  "uri_pairs uri =
     (let rest = drop (length SCHEME) uri
      in case position (\<lambda>c. c = CHR ''/'' \<or> c = CHR ''?'') rest of
           None \<Rightarrow> [] | Some i \<Rightarrow> split_on CHR ''&'' (query_of (drop i rest)))"

lemma parse_uri_strict:
  assumes "parse_uri uri = Inr t"
  shows "totp_ok t \<and> (\<forall>n\<in>set otp_names. length (filter (\<lambda>p. pair_name p = n) (uri_pairs uri)) \<le> 1)"
proof -
  let ?s0 = "\<lparr>sl_key = None, sl_algorithm = None, sl_digits = None, sl_period = None\<rparr>"
  obtain s k where s: "read_pairs (uri_pairs uri) ?s0 = Inr s" "sl_key s = Some k"
    and t: "t = \<lparr>t_key = k,
                 t_algorithm = (case sl_algorithm s of None \<Rightarrow> Sha1 | Some a \<Rightarrow> a),
                 t_digits = (case sl_digits s of None \<Rightarrow> 6 | Some d \<Rightarrow> d),
                 t_period = (case sl_period s of None \<Rightarrow> 30 | Some p \<Rightarrow> p)\<rparr>"
    using assms
    by (auto simp: parse_uri_def uri_pairs_def Let_def and_then_eq_Inr
        split: option.splits if_splits)
  have "slots_ok s" using read_pairs_ok [OF s(1)] by (simp add: slots_ok_def)
  then have "totp_ok t"
    by (auto simp: t totp_ok_def slots_ok_def s(2) split: option.splits)
  moreover have "length (filter (\<lambda>p. pair_name p = n) (uri_pairs uri)) \<le> 1"
    if "n \<in> set otp_names" for n
    using read_pairs_once [OF s(1) that] by (auto split: if_splits)
  ultimately show ?thesis by blast
qed

text \<open>A one-time password setting that the parser accepts is well formed: a key of at
  least ten bytes, six to eight digits and a period of 15 to 120 seconds; and a link that it
  accepts gives the key, the algorithm, the digits and the period at most once each.\<close>

theorem parsed_setting_is_well_formed:
  assumes "parse_totp v = Inr t"
  shows "totp_ok t
    \<and> (has_uri_prefix (trim v) \<longrightarrow>
        (\<forall>n\<in>set otp_names.
          length (filter (\<lambda>p. pair_name p = n) (uri_pairs (trim v))) \<le> 1))"
proof (cases "has_uri_prefix (trim v)")
  case True
  then have "parse_uri (trim v) = Inr t"
    using assms by (simp add: parse_totp_def Let_def split: if_splits)
  from parse_uri_strict [OF this] show ?thesis by blast
next
  case False
  then show ?thesis
    using assms
    by (auto simp: parse_totp_def Let_def and_then_eq_Inr totp_ok_def split: if_splits
        dest: base32_key_ok)
qed

definition demo_uri :: string where
  "demo_uri = ''otpauth://totp/Example:ana?secret=GEZDGNBVGY3TQOJQGEZDGNBVGY3TQOJQ&digits=8&issuer=Example''"

definition demo_totp :: totp where
  "demo_totp = \<lparr>t_key = map byte ''12345678901234567890'', t_algorithm = Sha1, t_digits = 8, t_period = 30\<rparr>"

lemma demo_parse: "parse_totp demo_uri = Inr demo_totp"
  by code_simp

theorem parsed_setting_is_well_formed_witness: "totp_ok demo_totp \<and> has_uri_prefix (trim demo_uri)"
  using parsed_setting_is_well_formed [OF demo_parse] by code_simp

section \<open>Codes are complete and fresh\<close>

lemma digits_value_append:
  "digits_value b acc (xs @ ys) = Option.bind (digits_value b acc xs) (\<lambda>a. digits_value b a ys)"
  by (induction xs arbitrary: acc) (auto split: option.splits)

lemma byte_digit [simp]: "byte (digit n) = 48 + n mod 10"
proof -
  have "n mod 10 < 10" by simp
  then have "48 + n mod 10 < 256" by linarith
  then show ?thesis unfolding digit_def byte_char_of by (rule mod_less)
qed

lemma is_digit_digit [simp]: "is_ascii_digit (digit n)"
  using mod_less_divisor [of 10 n] by (auto simp: is_ascii_digit_def)

lemma hex_digit_digit [simp]: "hex_digit (digit n) = Some (n mod 10)"
  by (simp add: hex_digit_def)

lemma length_padded [simp]: "length (padded w n) = w"
  by (induction w arbitrary: n) auto

lemma padded_digits: "list_all is_ascii_digit (padded w n)"
  by (induction w arbitrary: n) auto

lemma digits_value_padded: "digits_value 10 acc (padded w n) = Some (acc * 10 ^ w + n mod 10 ^ w)"
proof (induction w arbitrary: n)
  case (Suc w)
  have "n mod (10 * 10 ^ w) = 10 * (n div 10 mod 10 ^ w) + n mod 10"
    by (rule mod_mult2_eq)
  then show ?case
    using Suc [of "n div 10"] by (simp add: digits_value_append algebra_simps)
qed simp

lemma parse_number_padded:
  assumes "0 < w" and "10 ^ w \<le> limit"
  shows "parse_number 10 limit (padded w n) = Some (n mod 10 ^ w)"
proof -
  obtain c cs where c: "padded w n = c # cs"
    using assms(1) length_padded [of w n] by (cases "padded w n") auto
  have "is_ascii_digit c" using padded_digits [of w n] by (simp add: c)
  then have "c \<noteq> CHR ''+''" by (auto simp: is_ascii_digit_def byte_def)
  moreover have "n mod 10 ^ w \<le> limit"
    using assms(2) mod_less_divisor [of "10 ^ w" n] by (simp del: mod_less_divisor)
  ultimately show ?thesis
    using digits_value_padded [of 0 w n] by (simp add: parse_number_def c Let_def)
qed

text \<open>
  What the code relies on of HMAC: a MAC of at least 20 bytes, so that the four bytes at the
  offset of its last half byte are there.
\<close>

definition mac_ok :: "(algorithm \<Rightarrow> nat list \<Rightarrow> nat list \<Rightarrow> nat list) \<Rightarrow> bool" where
  "mac_ok hmac \<longleftrightarrow> (\<forall>a k m. 20 \<le> length (hmac a k m))"

lemma mac_offset: "mac_ok hmac \<Longrightarrow> last (hmac a k m) mod 16 + 3 < length (hmac a k m)"
proof -
  assume "mac_ok hmac"
  then have "20 \<le> length (hmac a k m)" by (simp add: mac_ok_def)
  moreover have "last (hmac a k m) mod 16 < 16" by simp
  ultimately show ?thesis by linarith
qed

text \<open>The number a counter stands for, of which a code shows the last digits.\<close>

definition otp_number ::
    "(algorithm \<Rightarrow> nat list \<Rightarrow> nat list \<Rightarrow> nat list) \<Rightarrow> totp \<Rightarrow> nat \<Rightarrow> nat" where
  "otp_number hmac t counter =
     truncate_mac (hmac (t_algorithm t) (t_key t) (to_be_bytes counter))"

lemma code_at_split:
  "code_at hmac t unix =
     (padded (t_digits t) (otp_number hmac t (unix div t_period t) mod 10 ^ t_digits t),
      t_period t - unix mod t_period t)"
  by (simp add: code_at_def otp_number_def Let_def)

lemma next_period:
  fixes p unix :: nat
  assumes "0 < p"
  shows "(unix + (p - unix mod p)) div p = unix div p + 1" "(unix + (p - unix mod p)) mod p = 0"
proof -
  have "unix mod p < p" using assms by simp
  then have e: "unix + (p - unix mod p) = (unix div p + 1) * p"
    using div_mult_mod_eq [of unix p] by (simp add: Groups.add_ac add_mult_distrib; linarith)
  show "(unix + (p - unix mod p)) div p = unix div p + 1" using assms by (simp only: e) simp
  show "(unix + (p - unix mod p)) mod p = 0" by (simp only: e) simp
qed

text \<open>C18: The code a run gets is the number of one period written with exactly the digits of
  the setting: the period of now, or the next one when at most five seconds of this one are
  left; so the run always has more than five seconds, and never more than a period, to use
  it. The bytes the code is made of are inside the MAC.\<close>

theorem run_code_is_fresh:
  assumes "parse_totp v = Inr t" and "mac_ok hmac" and "unix + 120 < 2 ^ 64"
  shows "let (code, left) = run_code_at hmac t unix;
             now_left = t_period t - unix mod t_period t;
             counter = unix div t_period t + (if now_left \<le> 5 then 1 else 0)
         in length code = t_digits t \<and> list_all is_ascii_digit code
            \<and> parse_number 10 (10 ^ 8) code = Some (otp_number hmac t counter mod 10 ^ t_digits t)
            \<and> 5 < left \<and> left \<le> t_period t
            \<and> last (hmac (t_algorithm t) (t_key t) (to_be_bytes counter)) mod 16 + 3
                < length (hmac (t_algorithm t) (t_key t) (to_be_bytes counter))"
proof -
  have ok: "totp_ok t" using assms(1) parse_uri_strict base32_key_ok
    by (auto simp: parse_totp_def Let_def and_then_eq_Inr totp_ok_def split: if_splits)
  let ?p = "t_period t" and ?l = "t_period t - unix mod t_period t"
  have p: "0 < ?p" "?p \<le> 120" and d: "0 < t_digits t" "t_digits t \<le> 8"
    using ok by (auto simp: totp_ok_def)
  have pw: "(10::nat) ^ t_digits t \<le> 10 ^ 8" using d(2) by (rule power_increasing) simp
  have at: "run_code_at hmac t unix = code_at hmac t (if ?l \<le> 5 then unix + ?l else unix)"
    using assms(3) p(2) by (auto simp: run_code_at_def Let_def min_def)
  have "15 \<le> ?p" using ok by (simp add: totp_ok_def)
  then show ?thesis
    unfolding at code_at_split Let_def prod.case
    using next_period [OF p(1), of unix] mac_offset [OF assms(2)] d pw
    by (auto simp: padded_digits parse_number_padded simp del: One_nat_def)
qed

definition demo_hmac :: "algorithm \<Rightarrow> nat list \<Rightarrow> nat list \<Rightarrow> nat list" where
  "demo_hmac a k m = map (\<lambda>i. (i * 37 + last m) mod 256) [0..<20]"

theorem run_code_is_fresh_witness:
  "let (code, left) = run_code_at demo_hmac demo_totp 27
   in length code = 8 \<and> list_all is_ascii_digit code \<and> 5 < left \<and> left \<le> 30"
proof -
  have "mac_ok demo_hmac" by (simp add: mac_ok_def demo_hmac_def)
  from run_code_is_fresh [OF demo_parse this, of 27] show ?thesis
    by (simp add: Let_def demo_totp_def split: prod.splits)
qed

end
