(* ===== verification/PatternTable.thy ===== *)
theory PatternTable
  imports Vault "HOL-Library.Code_Target_Nat"
begin

text \<open>
  Remembered command patterns as the vault keeps them (src/src/vault/learning.rs): the rows
  of the table \<open>remembered_pattern\<close>, the operations of an owner answer on it, and what a
  sequence of operations can make of a pattern. The columns that an operation writes are
  checked before it writes them and read back the same; only the number of approvals can
  grow past what the reader takes, which \<open>pattern_from\<close> keeps.
\<close>

section \<open>Rows\<close>

definition APPROVALS_NEEDED :: nat where
  "APPROVALS_NEEDED = 3"

definition PATTERN_IDLE_DAYS :: nat where
  "PATTERN_IDLE_DAYS = 30"

definition DAY_SECONDS :: nat where
  "DAY_SECONDS = 86400"

definition MAX_PATTERNS :: nat where
  "MAX_PATTERNS = 1000"

definition MAX_BLOCKED_PATTERNS :: nat where
  "MAX_BLOCKED_PATTERNS = 5000"

definition MAX_COMMAND_BYTES :: nat where
  "MAX_COMMAND_BYTES = 8192"

record pattern_key =
  pk_agent :: nat
  pk_project :: string
  pk_items :: "nat list"
  pk_policy :: string
  pk_cwd :: string
  pk_template :: string

datatype pattern_state = Learning nat | Active | Blocked | ExpiredPattern

record pattern_record =
  pt_id :: nat
  pt_key :: pattern_key
  pt_display :: string
  pt_approvals :: nat
  pt_blocked :: bool
  pt_created :: nat
  pt_used :: nat
  pt_uses :: nat

record pattern_table =
  pt_unlocked :: bool
  pt_rows :: "pattern_record list"
  pt_last_id :: nat

definition state_at :: "pattern_record \<Rightarrow> nat \<Rightarrow> pattern_state" where
  "state_at r now =
     (if pt_blocked r then Blocked
      else if PATTERN_IDLE_DAYS * DAY_SECONDS < now - pt_used r then ExpiredPattern
      else if APPROVALS_NEEDED \<le> pt_approvals r then Active
      else Learning (pt_approvals r))"

text \<open>\<open>items_text\<close>: the row holds the items sorted, each once.\<close>

definition stored_key :: "pattern_key \<Rightarrow> pattern_key" where
  "stored_key k = k\<lparr>pk_items := sort_dedup (pk_items k)\<rparr>"

definition pattern_from :: "pattern_record \<Rightarrow> verr + pattern_record" where
  "pattern_from r = (if pt_approvals r < 2 ^ 32 then Inr r else Inl Storage)"

definition table_conn :: "pattern_table \<Rightarrow> verr + unit" where
  "table_conn t = require Locked (pt_unlocked t)"

definition cut_at :: "string \<Rightarrow> nat \<Rightarrow> string" where
  "cut_at s m = (if length s \<le> m then s else take (floor_boundary s m) s)"

definition find_pattern :: "pattern_table \<Rightarrow> pattern_key \<Rightarrow> verr + pattern_record option" where
  "find_pattern t key =
     and_then (to_sql_id (pk_agent key)) (\<lambda>_.
       case find_row pt_key (pt_rows t) (stored_key key) of
         None \<Rightarrow> Inr None
       | Some r \<Rightarrow> and_then (pattern_from r) (\<lambda>r. Inr (Some r)))"

definition pattern_of :: "pattern_table \<Rightarrow> pattern_key \<Rightarrow> verr + pattern_record option" where
  "pattern_of t key = and_then (table_conn t) (\<lambda>_. find_pattern t key)"

definition insert_pattern ::
    "pattern_key \<Rightarrow> string \<Rightarrow> bool \<Rightarrow> nat \<Rightarrow> pattern_table \<Rightarrow> pattern_table" where
  "insert_pattern key display blocked at t =
     t\<lparr>pt_rows := pt_rows t @
         [\<lparr>pt_id = pt_last_id t + 1, pt_key = stored_key key, pt_display = display,
           pt_approvals = (if blocked then 0 else 1), pt_blocked = blocked, pt_created = at,
           pt_used = at, pt_uses = 0\<rparr>],
       pt_last_id := pt_last_id t + 1\<rparr>"

section \<open>Approve and remember\<close>

text \<open>The order of the clean-up: least recently used first, then the lower id.\<close>

definition older :: "pattern_record \<Rightarrow> pattern_record \<Rightarrow> bool" where
  "older a b \<longleftrightarrow> pt_used a < pt_used b \<or> (pt_used a = pt_used b \<and> pt_id a < pt_id b)"

fun oldest :: "pattern_record list \<Rightarrow> pattern_record option" where
  "oldest [] = None"
| "oldest (r # rs) = (case oldest rs of
       None \<Rightarrow> Some r
     | Some s \<Rightarrow> Some (if older s r then s else r))"

definition learns :: "pattern_record \<Rightarrow> bool" where
  "learns r \<longleftrightarrow> \<not> pt_blocked r \<and> pt_approvals r < APPROVALS_NEEDED"

definition make_room :: "nat \<Rightarrow> nat \<Rightarrow> pattern_table \<Rightarrow> pattern_table option" where
  "make_room idle max_patterns t =
     (let rows = filter (\<lambda>r. pt_blocked r \<or> idle \<le> pt_used r) (pt_rows t)
      in if max_patterns \<le> length (filter (\<lambda>r. \<not> pt_blocked r) rows)
         then (case oldest (filter learns rows) of
                 None \<Rightarrow> None
               | Some old \<Rightarrow> Some (t\<lparr>pt_rows := filter (\<lambda>r. pt_id r \<noteq> pt_id old) rows\<rparr>))
         else Some (t\<lparr>pt_rows := rows\<rparr>))"

definition approved_row :: "bool \<Rightarrow> string \<Rightarrow> nat \<Rightarrow> pattern_record \<Rightarrow> pattern_record" where
  "approved_row restart display at r =
     r\<lparr>pt_approvals := (if restart then 1 else pt_approvals r + 1),
       pt_created := (if restart then at else pt_created r),
       pt_uses := (if restart then 0 else pt_uses r),
       pt_used := at, pt_display := display\<rparr>"

definition update_row ::
    "nat \<Rightarrow> (pattern_record \<Rightarrow> pattern_record) \<Rightarrow> pattern_table \<Rightarrow> pattern_table" where
  "update_row i f t = t\<lparr>pt_rows := map (\<lambda>r. if pt_id r = i then f r else r) (pt_rows t)\<rparr>"

text \<open>\<open>commit\<close> after the last read; an error or an early return keeps the table.\<close>

definition read_back ::
    "pattern_key \<Rightarrow> pattern_table \<Rightarrow> verr + pattern_record option \<times> pattern_table" where
  "read_back key t = and_then (find_pattern t key) (\<lambda>p. Inr (p, t))"

definition remember_within ::
    "pattern_key \<Rightarrow> string \<Rightarrow> nat \<Rightarrow> nat \<Rightarrow> pattern_table
      \<Rightarrow> verr + pattern_record option \<times> pattern_table" where
  "remember_within key display now max_patterns t =
     and_then (to_sql_time now) (\<lambda>_.
     and_then (to_sql_time (now - PATTERN_IDLE_DAYS * DAY_SECONDS)) (\<lambda>_.
     and_then (table_conn t) (\<lambda>_.
     and_then (find_pattern t key) (\<lambda>found.
       case found of
         Some r \<Rightarrow>
           if pt_blocked r then Inr (Some r, t)
           else read_back key (update_row (pt_id r)
                  (approved_row (state_at r now = ExpiredPattern)
                    (cut_at display MAX_COMMAND_BYTES) now) t)
       | None \<Rightarrow>
           (case make_room (now - PATTERN_IDLE_DAYS * DAY_SECONDS) max_patterns t of
              None \<Rightarrow> Inr (None, t)
            | Some t' \<Rightarrow>
                read_back key
                  (insert_pattern key (cut_at display MAX_COMMAND_BYTES) False now t'))))))"

definition remember_approval ::
    "pattern_key \<Rightarrow> string \<Rightarrow> nat \<Rightarrow> pattern_table \<Rightarrow> verr + pattern_record option \<times> pattern_table" where
  "remember_approval key display now t = remember_within key display now MAX_PATTERNS t"

section \<open>Denials, uses and removals\<close>

text \<open>The newest \<open>n\<close> blocks stay, and every row that is no block.\<close>

definition keep_newest :: "nat \<Rightarrow> pattern_record list \<Rightarrow> pattern_record list" where
  "keep_newest n rows =
     filter (\<lambda>r. \<not> pt_blocked r \<or> length (filter (\<lambda>s. pt_blocked s \<and> older r s) rows) < n) rows"

definition block_within ::
    "pattern_key \<Rightarrow> string \<Rightarrow> nat \<Rightarrow> nat \<Rightarrow> pattern_table \<Rightarrow> verr + pattern_table" where
  "block_within key display now max_blocked t =
     and_then (to_sql_time now) (\<lambda>_.
     and_then (table_conn t) (\<lambda>_.
     and_then (find_pattern t key) (\<lambda>found.
       Inr (case found of
         Some r \<Rightarrow> update_row (pt_id r) (\<lambda>r. r\<lparr>pt_blocked := True, pt_used := now\<rparr>) t
       | None \<Rightarrow>
           insert_pattern key (cut_at display MAX_COMMAND_BYTES) True now
             (t\<lparr>pt_rows := keep_newest (max_blocked - 1) (pt_rows t)\<rparr>)))))"

definition block_pattern ::
    "pattern_key \<Rightarrow> string \<Rightarrow> nat \<Rightarrow> pattern_table \<Rightarrow> verr + pattern_table" where
  "block_pattern key display now t = block_within key display now MAX_BLOCKED_PATTERNS t"

definition record_pattern_use :: "nat \<Rightarrow> nat \<Rightarrow> pattern_table \<Rightarrow> verr + pattern_table" where
  "record_pattern_use i now t =
     and_then (table_conn t) (\<lambda>_.
     and_then (to_sql_time now) (\<lambda>_.
     and_then (to_sql_id i) (\<lambda>_.
       Inr (t\<lparr>pt_rows := map (\<lambda>r. if pt_id r = i \<and> \<not> pt_blocked r
              then r\<lparr>pt_uses := pt_uses r + 1, pt_used := now\<rparr> else r) (pt_rows t)\<rparr>))))"

definition remove_pattern :: "nat \<Rightarrow> pattern_table \<Rightarrow> verr + pattern_table" where
  "remove_pattern i t =
     and_then (table_conn t) (\<lambda>_.
     and_then (to_sql_id i) (\<lambda>_.
     and_then (require NotFound (i \<in> pt_id ` set (pt_rows t))) (\<lambda>_.
       Inr (t\<lparr>pt_rows := filter (\<lambda>r. pt_id r \<noteq> i) (pt_rows t)\<rparr>))))"

text \<open>The clean-up inside the transactions that revoke an agent, delete an item or restore.\<close>

definition forget_agent :: "nat \<Rightarrow> pattern_table \<Rightarrow> pattern_table" where
  "forget_agent a t = t\<lparr>pt_rows := filter (\<lambda>r. pk_agent (pt_key r) \<noteq> a) (pt_rows t)\<rparr>"

definition forget_item :: "nat \<Rightarrow> pattern_table \<Rightarrow> pattern_table" where
  "forget_item i t = t\<lparr>pt_rows := filter (\<lambda>r. i \<notin> set (pk_items (pt_key r))) (pt_rows t)\<rparr>"

definition forget_all_patterns :: "pattern_table \<Rightarrow> pattern_table" where
  "forget_all_patterns t = t\<lparr>pt_rows := []\<rparr>"

text \<open>The owner list: active and learning patterns first, then the blocks, newest first.\<close>

definition list_before :: "pattern_record \<Rightarrow> pattern_record \<Rightarrow> bool" where
  "list_before a b \<longleftrightarrow> (if pt_blocked a = pt_blocked b then older b a else \<not> pt_blocked a)"

fun insert_listed :: "pattern_record \<Rightarrow> pattern_record list \<Rightarrow> pattern_record list" where
  "insert_listed r [] = [r]"
| "insert_listed r (s # ss) = (if list_before s r then s # insert_listed r ss else r # s # ss)"

fun map_results :: "('a \<Rightarrow> 'e + 'b) \<Rightarrow> 'a list \<Rightarrow> 'e + 'b list" where
  "map_results f [] = Inr []"
| "map_results f (x # xs) = and_then (f x) (\<lambda>y. and_then (map_results f xs) (\<lambda>ys. Inr (y # ys)))"

definition patterns_list :: "pattern_table \<Rightarrow> verr + pattern_record list" where
  "patterns_list t =
     and_then (table_conn t) (\<lambda>_. map_results pattern_from (foldr insert_listed (pt_rows t) []))"

section \<open>Sequences of operations\<close>

datatype pattern_op = Remember pattern_key string nat | Block pattern_key string nat
  | Use nat nat | Remove nat | ForgetAgent nat | ForgetItem nat | ForgetAll

text \<open>An operation that fails leaves the table as it was: its transaction is rolled back.\<close>

definition or_same :: "'t \<Rightarrow> 'e + 't \<Rightarrow> 't" where
  "or_same t r = (case r of Inl _ \<Rightarrow> t | Inr t' \<Rightarrow> t')"

fun apply_op :: "pattern_op \<Rightarrow> pattern_table \<Rightarrow> pattern_table" where
  "apply_op (Remember k d n) t = or_same t (and_then (remember_approval k d n t) (\<lambda>(_, t'). Inr t'))"
| "apply_op (Block k d n) t = or_same t (block_pattern k d n t)"
| "apply_op (Use i n) t = or_same t (record_pattern_use i n t)"
| "apply_op (Remove i) t = or_same t (remove_pattern i t)"
| "apply_op (ForgetAgent a) t = forget_agent a t"
| "apply_op (ForgetItem i) t = forget_item i t"
| "apply_op ForgetAll t = forget_all_patterns t"

definition empty_table :: pattern_table where
  "empty_table = \<lparr>pt_unlocked = True, pt_rows = [], pt_last_id = 0\<rparr>"

fun run_ops :: "pattern_op list \<Rightarrow> pattern_table \<Rightarrow> pattern_table" where
  "run_ops [] t = t"
| "run_ops (op # ops) t = run_ops ops (apply_op op t)"

text \<open>
  The specification: the approvals a pattern earned since its last denial and since its
  agent, one of its items or every pattern was forgotten.
\<close>

fun earned_step :: "pattern_key \<Rightarrow> pattern_op \<Rightarrow> nat \<Rightarrow> nat" where
  "earned_step k (Remember k' d n) e = (if stored_key k' = k then e + 1 else e)"
| "earned_step k (Block k' d n) e = (if stored_key k' = k then 0 else e)"
| "earned_step k (ForgetAgent a) e = (if pk_agent k = a then 0 else e)"
| "earned_step k (ForgetItem i) e = (if i \<in> set (pk_items k) then 0 else e)"
| "earned_step k ForgetAll e = 0"
| "earned_step k op e = e"

definition earned :: "pattern_key \<Rightarrow> pattern_op list \<Rightarrow> nat" where
  "earned key ops = fold (earned_step (stored_key key)) ops 0"

section \<open>The invariant of the table\<close>

definition table_ok :: "pattern_table \<Rightarrow> bool" where
  "table_ok t \<longleftrightarrow> distinct (map pt_key (pt_rows t)) \<and> distinct (map pt_id (pt_rows t))
     \<and> (\<forall>r\<in>set (pt_rows t). pt_id r \<le> pt_last_id t)"

text \<open>
  A row that can allow a run: not blocked, with a number of approvals that the reader takes.
  It never has more approvals than its key earned.
\<close>

definition counts :: "pattern_record \<Rightarrow> bool" where
  "counts r \<longleftrightarrow> \<not> pt_blocked r \<and> pt_approvals r < 2 ^ 32"

definition earned_ok :: "(pattern_key \<Rightarrow> nat) \<Rightarrow> pattern_table \<Rightarrow> bool" where
  "earned_ok e t \<longleftrightarrow> pt_unlocked t
     \<and> (\<forall>r\<in>set (pt_rows t). is_ok (to_sql_id (pk_agent (pt_key r)))
          \<and> (counts r \<longrightarrow> pt_approvals r \<le> e (pt_key r)))"

definition inv :: "(pattern_key \<Rightarrow> nat) \<Rightarrow> pattern_table \<Rightarrow> bool" where
  "inv e t \<longleftrightarrow> table_ok t \<and> earned_ok e t"

lemma table_ok_filter [intro]: "table_ok t \<Longrightarrow> table_ok (t\<lparr>pt_rows := filter p (pt_rows t)\<rparr>)"
  by (auto simp: table_ok_def distinct_map_filter)

lemma table_ok_map:
  assumes "table_ok t" and "\<And>r. pt_id (f r) = pt_id r" and "\<And>r. pt_key (f r) = pt_key r"
  shows "table_ok (t\<lparr>pt_rows := map f (pt_rows t)\<rparr>)"
proof -
  have "pt_id \<circ> f = pt_id" "pt_key \<circ> f = pt_key" using assms by auto
  then show ?thesis using assms by (auto simp: table_ok_def)
qed

lemma table_ok_insert:
  assumes "table_ok t" and "stored_key k \<notin> pt_key ` set (pt_rows t)"
  shows "table_ok (insert_pattern k d b n t)"
  using assms by (fastforce simp: table_ok_def insert_pattern_def)

lemma find_pattern_Inr:
  "find_pattern t k = Inr p \<Longrightarrow> p = find_row pt_key (pt_rows t) (stored_key k)"
  by (auto simp: find_pattern_def and_then_eq_Inr pattern_from_def
      split: option.splits if_splits)

lemma find_pattern_Some:
  assumes "find_pattern t k = Inr (Some r)"
  shows "r \<in> set (pt_rows t)" "pt_key r = stored_key k" "pt_approvals r < 2 ^ 32"
proof -
  have "find_row pt_key (pt_rows t) (stored_key k) = Some r"
    using find_pattern_Inr [OF assms] by simp
  then show "r \<in> set (pt_rows t)" "pt_key r = stored_key k"
    by (auto dest: find_row_Some)
  show "pt_approvals r < 2 ^ 32"
    using assms
    by (auto simp: find_pattern_def and_then_eq_Inr pattern_from_def split: option.splits if_splits)
qed

lemma find_pattern_None:
  "find_pattern t k = Inr None \<Longrightarrow> stored_key k \<notin> pt_key ` set (pt_rows t)"
  using find_row_None [of pt_key "pt_rows t" "stored_key k"] by (auto dest!: find_pattern_Inr)

lemma find_pattern_row:
  assumes "table_ok t" and "r \<in> set (pt_rows t)" and "pt_key r = stored_key k"
  shows "find_row pt_key (pt_rows t) (stored_key k) = Some r"
proof (cases "find_row pt_key (pt_rows t) (stored_key k)")
  case None
  then have "stored_key k \<notin> pt_key ` set (pt_rows t)"
    using find_row_None [of pt_key "pt_rows t" "stored_key k"] by simp
  then show ?thesis using assms by (metis image_eqI)
next
  case (Some s)
  then have "s \<in> set (pt_rows t)" "pt_key s = pt_key r"
    using assms(3) by (auto dest: find_row_Some)
  then show ?thesis
    using assms(1,2) Some by (auto simp: table_ok_def distinct_map dest: inj_onD)
qed

lemma oldest_in: "oldest rs = Some r \<Longrightarrow> r \<in> set rs"
  by (induction rs arbitrary: r) (auto split: option.splits if_splits)

lemma make_room_Some:
  assumes "make_room idle m t = Some t'"
  shows "\<exists>p. t' = t\<lparr>pt_rows := filter p (pt_rows t)\<rparr>
    \<and> (\<forall>r\<in>set (pt_rows t). table_ok t \<longrightarrow> pt_blocked r \<longrightarrow> p r)"
proof (cases "m \<le> length (filter (\<lambda>r. \<not> pt_blocked r)
      (filter (\<lambda>r. pt_blocked r \<or> idle \<le> pt_used r) (pt_rows t)))")
  case True
  then obtain old where
    old: "oldest (filter learns (filter (\<lambda>r. pt_blocked r \<or> idle \<le> pt_used r) (pt_rows t))) = Some old"
    and t': "t' = t\<lparr>pt_rows := filter (\<lambda>r. pt_id r \<noteq> pt_id old)
               (filter (\<lambda>r. pt_blocked r \<or> idle \<le> pt_used r) (pt_rows t))\<rparr>"
    using assms by (auto simp: make_room_def Let_def split: option.splits)
  have o: "old \<in> set (pt_rows t)" "\<not> pt_blocked old"
    using oldest_in [OF old] by (auto simp: learns_def)
  have "pt_id r \<noteq> pt_id old" if "table_ok t" "r \<in> set (pt_rows t)" "pt_blocked r" for r
    using that o by (auto simp: table_ok_def distinct_map dest: inj_onD)
  then show ?thesis
    unfolding t' filter_filter by blast
next
  case False
  then show ?thesis
    using assms by (auto simp: make_room_def Let_def)
qed

lemma inv_filter: "inv e t \<Longrightarrow> inv e (t\<lparr>pt_rows := filter p (pt_rows t)\<rparr>)"
  by (auto simp: inv_def earned_ok_def)

lemma inv_mono: "inv e t \<Longrightarrow> (\<And>r. r \<in> set (pt_rows t) \<Longrightarrow> e (pt_key r) \<le> e' (pt_key r)) \<Longrightarrow> inv e' t"
  by (fastforce simp: inv_def earned_ok_def)

text \<open>What an operation that changes the table did to it.\<close>

lemma remember_shape:
  assumes "remember_within k d n m t = Inr (p, t')"
  obtains (same) "t' = t"
    | (approved) r b c where "r \<in> set (pt_rows t)" "pt_key r = stored_key k" "\<not> pt_blocked r"
        "t' = update_row (pt_id r) (approved_row b c n) t"
    | (added) t1 where "make_room (n - PATTERN_IDLE_DAYS * DAY_SECONDS) m t = Some t1"
        "stored_key k \<notin> pt_key ` set (pt_rows t)"
        "t' = insert_pattern k (cut_at d MAX_COMMAND_BYTES) False n t1"
proof -
  obtain found where f: "find_pattern t k = Inr found"
    using assms by (auto simp: remember_within_def and_then_eq_Inr)
  show thesis
  proof (cases found)
    case None
    then consider "t' = t"
      | t1 where "make_room (n - PATTERN_IDLE_DAYS * DAY_SECONDS) m t = Some t1"
          "t' = insert_pattern k (cut_at d MAX_COMMAND_BYTES) False n t1"
      using assms f
      by (auto simp: remember_within_def and_then_eq_Inr read_back_def split: option.split_asm)
    then show thesis
      using same added find_pattern_None f None by cases auto
  next
    case (Some r)
    then consider "t' = t"
      | "\<not> pt_blocked r" "t' = update_row (pt_id r) (approved_row (state_at r n = ExpiredPattern)
           (cut_at d MAX_COMMAND_BYTES) n) t"
      using assms f
      by (auto simp: remember_within_def and_then_eq_Inr read_back_def split: if_split_asm)
    then show thesis
      using same approved find_pattern_Some [of t k r] f Some by cases auto
  qed
qed

lemma block_shape:
  assumes "block_within k d n m t = Inr t'"
  obtains (blocked) r where "r \<in> set (pt_rows t)" "pt_key r = stored_key k"
        "pt_approvals r < 2 ^ 32"
        "t' = update_row (pt_id r) (\<lambda>r. r\<lparr>pt_blocked := True, pt_used := n\<rparr>) t"
    | (added) "stored_key k \<notin> pt_key ` set (pt_rows t)"
        "t' = insert_pattern k (cut_at d MAX_COMMAND_BYTES) True n
           (t\<lparr>pt_rows := keep_newest (m - 1) (pt_rows t)\<rparr>)"
proof -
  obtain found where f: "find_pattern t k = Inr found"
    using assms by (auto simp: block_within_def and_then_eq_Inr)
  show thesis
  proof (cases found)
    case None
    then show thesis
      using assms f by (intro added find_pattern_None)
        (auto simp: block_within_def and_then_eq_Inr)
  next
    case (Some r)
    then show thesis
      using assms f find_pattern_Some [of t k r] by (intro blocked)
        (auto simp: block_within_def and_then_eq_Inr)
  qed
qed

lemma update_row_simps [simp]:
  "pt_unlocked (update_row i f t) = pt_unlocked t" "pt_last_id (update_row i f t) = pt_last_id t"
  "pt_rows (update_row i f t) = map (\<lambda>r. if pt_id r = i then f r else r) (pt_rows t)"
  by (simp_all add: update_row_def)

lemma table_ok_update:
  assumes "table_ok t" and "\<And>r. pt_id (f r) = pt_id r" and "\<And>r. pt_key (f r) = pt_key r"
  shows "table_ok (update_row i f t)"
  unfolding update_row_def using assms by (intro table_ok_map) auto

lemma approved_row_simps [simp]:
  "pt_id (approved_row b c n r) = pt_id r" "pt_key (approved_row b c n r) = pt_key r"
  "pt_blocked (approved_row b c n r) = pt_blocked r"
  "pt_used (approved_row b c n r) = n"
  by (simp_all add: approved_row_def)

lemma same_id: "table_ok t \<Longrightarrow> r \<in> set (pt_rows t) \<Longrightarrow> s \<in> set (pt_rows t) \<Longrightarrow> pt_id r = pt_id s \<Longrightarrow> r = s"
  by (auto simp: table_ok_def distinct_map dest: inj_onD)

lemma same_key: "table_ok t \<Longrightarrow> r \<in> set (pt_rows t) \<Longrightarrow> s \<in> set (pt_rows t) \<Longrightarrow> pt_key r = pt_key s \<Longrightarrow> r = s"
  by (auto simp: table_ok_def distinct_map dest: inj_onD)

lemma rows_update:
  assumes "table_ok t" and "r \<in> set (pt_rows t)" and "x \<in> set (pt_rows (update_row (pt_id r) f t))"
  shows "x = f r \<or> (x \<in> set (pt_rows t) \<and> pt_id x \<noteq> pt_id r)"
proof -
  obtain y where y: "y \<in> set (pt_rows t)" "x = (if pt_id y = pt_id r then f y else y)"
    using assms(3) by auto
  then show ?thesis
    using same_id [OF assms(1) y(1) assms(2)] by (cases "pt_id y = pt_id r") auto
qed

lemma rows_insert:
  assumes "x \<in> set (pt_rows (insert_pattern k d b n t))"
  shows "x \<in> set (pt_rows t)
    \<or> (pt_key x = stored_key k \<and> pt_approvals x = (if b then 0 else 1) \<and> pt_blocked x = b)"
  using assms by (auto simp: insert_pattern_def)

lemma stored_agent [simp]: "pk_agent (stored_key k) = pk_agent k"
  by (simp add: stored_key_def)

lemma earned_step_remember_ge: "e q \<le> earned_step q (Remember k d n) (e q)"
  by simp

lemma inv_remember:
  assumes i: "inv e t" and r: "remember_within k d n m t = Inr (p, t')"
  shows "inv (\<lambda>q. earned_step q (Remember k d n) (e q)) t'"
proof -
  have id_ok: "is_ok (to_sql_id (pk_agent k))"
    using r by (auto simp: remember_within_def and_then_eq_Inr find_pattern_def)
  have ok: "table_ok t" and un: "pt_unlocked t"
    and e: "\<And>r. r \<in> set (pt_rows t) \<Longrightarrow> is_ok (to_sql_id (pk_agent (pt_key r)))
         \<and> (counts r \<longrightarrow> pt_approvals r \<le> e (pt_key r))"
    using i by (auto simp: inv_def earned_ok_def)
  let ?e = "\<lambda>q. earned_step q (Remember k d n) (e q)"
  from r show ?thesis
  proof (cases rule: remember_shape)
    case same
    show ?thesis unfolding same by (rule inv_mono [OF i]) simp
  next
    case (approved r b c)
    have "table_ok t'" unfolding approved(4) by (rule table_ok_update [OF ok]) simp_all
    moreover have "is_ok (to_sql_id (pk_agent (pt_key x))) \<and> (counts x \<longrightarrow> pt_approvals x \<le> ?e (pt_key x))"
      if x: "x \<in> set (pt_rows t')" for x
      using rows_update [OF ok approved(1) x [unfolded approved(4)]]
    proof
      assume x: "x = approved_row b c n r"
      then show ?thesis
        using e [OF approved(1)] approved(2,3) by (auto simp: counts_def approved_row_def)
    qed (use e [of x] in auto)
    ultimately show ?thesis using un by (auto simp: inv_def earned_ok_def approved(4))
  next
    case (added t1)
    obtain q where t1: "t1 = t\<lparr>pt_rows := filter q (pt_rows t)\<rparr>"
      using make_room_Some [OF added(1)] by blast
    have "table_ok t'"
      unfolding added(3) t1 using ok added(2) by (intro table_ok_insert table_ok_filter) auto
    moreover have "is_ok (to_sql_id (pk_agent (pt_key x))) \<and> (counts x \<longrightarrow> pt_approvals x \<le> ?e (pt_key x))"
      if x: "x \<in> set (pt_rows t')" for x
    proof -
      from rows_insert [OF x [unfolded added(3)]]
      consider "x \<in> set (pt_rows t)" | "pt_key x = stored_key k" "pt_approvals x = 1"
        by (auto simp: t1)
      then show ?thesis
      proof cases
        case 1
        then show ?thesis using e [OF 1] by auto
      qed (simp add: id_ok)
    qed
    ultimately show ?thesis
      using un by (auto simp: inv_def earned_ok_def added(3) t1 insert_pattern_def)
  qed
qed

lemma inv_block:
  assumes i: "inv e t" and r: "block_within k d n m t = Inr t'"
  shows "inv (\<lambda>q. earned_step q (Block k d n) (e q)) t'"
proof -
  have id_ok: "is_ok (to_sql_id (pk_agent k))"
    using r by (auto simp: block_within_def and_then_eq_Inr find_pattern_def)
  have ok: "table_ok t" and un: "pt_unlocked t"
    and e: "\<And>r. r \<in> set (pt_rows t) \<Longrightarrow> is_ok (to_sql_id (pk_agent (pt_key r)))
         \<and> (counts r \<longrightarrow> pt_approvals r \<le> e (pt_key r))"
    using i by (auto simp: inv_def earned_ok_def)
  let ?e = "\<lambda>q. earned_step q (Block k d n) (e q)"
  from r show ?thesis
  proof (cases rule: block_shape)
    case (blocked r)
    have "table_ok t'" unfolding blocked(4) by (rule table_ok_update [OF ok]) simp_all
    moreover have "is_ok (to_sql_id (pk_agent (pt_key x))) \<and> (counts x \<longrightarrow> pt_approvals x \<le> ?e (pt_key x))"
      if x: "x \<in> set (pt_rows t')" for x
      using rows_update [OF ok blocked(1) x [unfolded blocked(4)]]
    proof
      assume x: "x = r\<lparr>pt_blocked := True, pt_used := n\<rparr>"
      then show ?thesis
        using e [OF blocked(1)] by (simp add: counts_def)
    next
      assume x: "x \<in> set (pt_rows t) \<and> pt_id x \<noteq> pt_id r"
      then have "stored_key k \<noteq> pt_key x"
        using same_key [OF ok blocked(1), of x] blocked(2) by auto
      then show ?thesis using e [of x] x by simp
    qed
    ultimately show ?thesis using un by (auto simp: inv_def earned_ok_def blocked(4))
  next
    case added
    have sub: "set (keep_newest (m - 1) (pt_rows t)) \<subseteq> set (pt_rows t)" by (auto simp: keep_newest_def)
    have "table_ok (t\<lparr>pt_rows := keep_newest (m - 1) (pt_rows t)\<rparr>)"
      unfolding keep_newest_def by (rule table_ok_filter [OF ok])
    then have "table_ok t'"
      unfolding added(2) using added(1) sub by (intro table_ok_insert) auto
    moreover have "is_ok (to_sql_id (pk_agent (pt_key x))) \<and> (counts x \<longrightarrow> pt_approvals x \<le> ?e (pt_key x))"
      if x: "x \<in> set (pt_rows t')" for x
    proof -
      from rows_insert [OF x [unfolded added(2)]]
      consider "x \<in> set (pt_rows t)" | "pt_key x = stored_key k" "pt_blocked x"
        using sub by auto
      then show ?thesis
      proof cases
        case 1
        then have "stored_key k \<noteq> pt_key x" using added(1) by auto
        then show ?thesis using e [OF 1] by simp
      qed (simp add: counts_def id_ok)
    qed
    ultimately show ?thesis using un by (auto simp: inv_def earned_ok_def added(2) insert_pattern_def)
  qed
qed

lemma inv_use:
  assumes "inv e t" and "record_pattern_use i n t = Inr t'"
  shows "inv e t'"
  using assms
  by (auto simp: record_pattern_use_def and_then_eq_Inr inv_def earned_ok_def counts_def
      intro!: table_ok_map)

text \<open>A denial that fails although its time fits has no readable row to block.\<close>

lemma block_fails:
  assumes "inv e t" and "n \<le> i64_max" and "block_within k d n m t = Inl err"
    and "r \<in> set (pt_rows t)" and "pt_key r = stored_key k"
  shows "\<not> counts r"
proof -
  have "is_ok (to_sql_id (pk_agent k))" "table_ok t" "pt_unlocked t"
    using assms(1,4,5) by (force simp: inv_def earned_ok_def)+
  moreover have "\<exists>err'. find_pattern t k = Inl err'"
    using assms(2,3) \<open>pt_unlocked t\<close>
    by (cases "find_pattern t k") (auto simp: block_within_def and_then_eq_Inl to_sql_time_def
        table_conn_def)
  ultimately show ?thesis
    using find_pattern_row [OF _ assms(4,5)]
    by (cases "to_sql_id (pk_agent k)")
      (auto simp: find_pattern_def pattern_from_def counts_def is_ok_def split: if_splits)
qed

definition denied_in_time :: "pattern_op \<Rightarrow> bool" where
  "denied_in_time op \<longleftrightarrow> (case op of Block k d n \<Rightarrow> n \<le> i64_max | _ \<Rightarrow> True)"

lemma inv_apply:
  "inv e t \<Longrightarrow> denied_in_time op \<Longrightarrow> inv (\<lambda>q. earned_step q op (e q)) (apply_op op t)"
proof (cases op)
  case (Remember k d n)
  assume i: "inv e t"
  then have "inv (\<lambda>q. earned_step q (Remember k d n) (e q)) t" by (auto elim: inv_mono)
  then show ?thesis
    using inv_remember [OF i]
    by (auto simp: Remember or_same_def remember_approval_def and_then_def split: sum.splits)
next
  case (Block k d n)
  assume i: "inv e t" and "denied_in_time op"
  then have n: "n \<le> i64_max" by (simp add: Block denied_in_time_def)
  show ?thesis
  proof (cases "block_pattern k d n t")
    case (Inr t')
    then show ?thesis using inv_block [OF i] by (simp add: Block or_same_def block_pattern_def)
  next
    case (Inl err)
    then show ?thesis
      using i block_fails [OF i n, of k d MAX_BLOCKED_PATTERNS err]
      by (auto simp: Block or_same_def block_pattern_def inv_def earned_ok_def)
  qed
next
  case (Use i n)
  assume "inv e t"
  then show ?thesis using inv_use by (auto simp: Use or_same_def split: sum.splits)
next
  case (Remove i)
  assume "inv e t"
  then show ?thesis
    by (auto simp: Remove or_same_def remove_pattern_def and_then_eq_Inr inv_filter split: sum.splits)
next
  case (ForgetAgent a)
  assume i: "inv e t"
  show ?thesis
    unfolding ForgetAgent apply_op.simps forget_agent_def
    by (rule inv_mono [OF inv_filter [OF i]]) auto
next
  case (ForgetItem j)
  assume i: "inv e t"
  show ?thesis
    unfolding ForgetItem apply_op.simps forget_item_def
    by (rule inv_mono [OF inv_filter [OF i]]) auto
next
  case ForgetAll
  assume "inv e t"
  then show ?thesis by (simp add: ForgetAll forget_all_patterns_def inv_def table_ok_def earned_ok_def)
qed

lemma inv_run:
  "inv e t \<Longrightarrow> list_all denied_in_time ops
    \<Longrightarrow> inv (\<lambda>q. fold (earned_step q) ops (e q)) (run_ops ops t)"
proof (induction ops arbitrary: e t)
  case (Cons op ops)
  then have "inv (\<lambda>q. earned_step q op (e q)) (apply_op op t)"
    using inv_apply by simp
  from Cons.IH [OF this] Cons.prems(2) show ?case by simp
qed simp

lemma inv_empty: "inv (\<lambda>_. 0) empty_table"
  by (simp add: inv_def table_ok_def earned_ok_def empty_table_def)

text \<open>C19: Whatever the owner, the agents and the vault did before, a pattern that allows a run
  without a prompt earned at least three approvals after its last denial, and after its
  agent, one of its items or all patterns were last forgotten; and it was approved or used
  in the last thirty days.\<close>

theorem active_pattern_earned_it:
  assumes "list_all denied_in_time ops"
    and "pattern_of (run_ops ops empty_table) key = Inr (Some r)"
    and "state_at r now = Active"
  shows "3 \<le> earned key ops \<and> now - pt_used r \<le> 30 * 86400"
proof -
  have f: "find_pattern (run_ops ops empty_table) key = Inr (Some r)"
    using assms(2) by (auto simp: pattern_of_def and_then_eq_Inr)
  have a: "3 \<le> pt_approvals r" "\<not> pt_blocked r" "now - pt_used r \<le> 30 * 86400"
    using assms(3)
    by (auto simp: state_at_def APPROVALS_NEEDED_def PATTERN_IDLE_DAYS_def DAY_SECONDS_def
        split: if_splits)
  have "pt_approvals r \<le> earned key ops"
    using inv_run [OF inv_empty assms(1)] find_pattern_Some [OF f] a(2)
    by (force simp: inv_def earned_ok_def counts_def earned_def)
  then show ?thesis using a by simp
qed

definition demo_key :: pattern_key where
  "demo_key = \<lparr>pk_agent = 1, pk_project = ''/p'', pk_items = [4, 2, 4], pk_policy = ''none'',
     pk_cwd = ''.'', pk_template = ''npm test''\<rparr>"

definition demo_ops :: "pattern_op list" where
  "demo_ops = [Block demo_key ''npm test'' 5, Remove 1, Remember demo_key ''npm test'' 10,
     Remember demo_key ''npm test'' 11, Use 2 12, Remember demo_key ''npm test'' 13]"

definition demo_row :: pattern_record where
  "demo_row = \<lparr>pt_id = 2, pt_key = demo_key\<lparr>pk_items := [2, 4]\<rparr>, pt_display = ''npm test'',
     pt_approvals = 3, pt_blocked = False, pt_created = 10, pt_used = 13, pt_uses = 1\<rparr>"

lemma demo_active:
  "pattern_of (run_ops demo_ops empty_table) demo_key = Inr (Some demo_row)"
  by code_simp

theorem active_pattern_earned_it_witness:
  "state_at demo_row 20 = Active \<and> 3 \<le> earned demo_key demo_ops"
proof -
  have "list_all denied_in_time demo_ops" and a: "state_at demo_row 20 = Active"
    by (simp_all add: demo_ops_def denied_in_time_def i64_max_def state_at_def demo_row_def
        PATTERN_IDLE_DAYS_def DAY_SECONDS_def APPROVALS_NEEDED_def)
  then show ?thesis using active_pattern_earned_it [OF _ demo_active a] by simp
qed

section \<open>A block stays\<close>

definition blocks :: "pattern_table \<Rightarrow> nat" where
  "blocks t = length (filter pt_blocked (pt_rows t))"

text \<open>The operations that may take a block away: those of the owner on this pattern, on its
  agent, on one of its items and on all patterns.\<close>

definition spares :: "pattern_record \<Rightarrow> pattern_op \<Rightarrow> bool" where
  "spares r op \<longleftrightarrow> (case op of
       Remove i \<Rightarrow> i \<noteq> pt_id r
     | ForgetAgent a \<Rightarrow> a \<noteq> pk_agent (pt_key r)
     | ForgetItem i \<Rightarrow> i \<notin> set (pk_items (pt_key r))
     | ForgetAll \<Rightarrow> False
     | _ \<Rightarrow> True)"

definition is_block :: "pattern_op \<Rightarrow> bool" where
  "is_block op \<longleftrightarrow> (case op of Block k d n \<Rightarrow> True | _ \<Rightarrow> False)"

text \<open>A row as a block of its key.\<close>

definition holds_block :: "pattern_record \<Rightarrow> pattern_table \<Rightarrow> bool" where
  "holds_block r t \<longleftrightarrow> table_ok t
     \<and> (\<exists>x\<in>set (pt_rows t). pt_id x = pt_id r \<and> pt_key x = pt_key r \<and> pt_blocked x
          \<and> pt_approvals x = pt_approvals r)"

lemma length_filter_filter: "length (filter q (filter p xs)) \<le> length (filter q xs)"
  by (induction xs) auto

lemma blocks_filter: "blocks (t\<lparr>pt_rows := filter p (pt_rows t)\<rparr>) \<le> blocks t"
  using length_filter_filter by (simp add: blocks_def del: filter_filter)

lemma holds_filter:
  assumes "holds_block r t" and "\<And>x. x \<in> set (pt_rows t) \<Longrightarrow> pt_id x = pt_id r \<Longrightarrow> pt_key x = pt_key r
     \<Longrightarrow> pt_blocked x \<Longrightarrow> p x"
  shows "holds_block r (t\<lparr>pt_rows := filter p (pt_rows t)\<rparr>)"
  using assms by (auto simp: holds_block_def)

lemma holds_map:
  assumes "holds_block r t" and "table_ok t'" and "pt_rows t' = map f (pt_rows t)"
    and "\<And>x. x \<in> set (pt_rows t) \<Longrightarrow> pt_blocked x \<Longrightarrow> pt_id (f x) = pt_id x
           \<and> pt_key (f x) = pt_key x \<and> pt_blocked (f x) \<and> pt_approvals (f x) = pt_approvals x"
  shows "holds_block r t'"
proof -
  obtain x where x: "x \<in> set (pt_rows t)" "pt_id x = pt_id r" "pt_key x = pt_key r" "pt_blocked x"
      "pt_approvals x = pt_approvals r"
    using assms(1) by (auto simp: holds_block_def)
  then show ?thesis
    using assms(2,3) assms(4) [of x] by (auto simp: holds_block_def intro!: bexI [of _ x])
qed

lemma holds_remember:
  assumes h: "holds_block r t" and m: "remember_within k d n m t = Inr (p, t')"
  shows "holds_block r t' \<and> blocks t' \<le> blocks t"
  using m
proof (cases rule: remember_shape)
  case same
  then show ?thesis using h by simp
next
  case (approved s b c)
  have ok: "table_ok t" using h by (simp add: holds_block_def)
  have "table_ok t'" unfolding approved(4) by (rule table_ok_update [OF ok]) simp_all
  moreover have "pt_id x \<noteq> pt_id s" if "x \<in> set (pt_rows t)" "pt_blocked x" for x
    using same_id [OF ok that(1) approved(1)] that(2) approved(3) by auto
  moreover have "blocks t' = blocks t"
    unfolding blocks_def approved(4) update_row_simps filter_map length_map
    by (rule arg_cong [where f = length], rule filter_cong) auto
  ultimately show ?thesis
    using holds_map [OF h, of t' "\<lambda>x. if pt_id x = pt_id s then approved_row b c n x else x"]
    by (simp add: approved(4))
next
  case (added t1)
  have ok: "table_ok t" using h by (simp add: holds_block_def)
  obtain q where t1: "t1 = t\<lparr>pt_rows := filter q (pt_rows t)\<rparr>"
      and q: "\<forall>x\<in>set (pt_rows t). pt_blocked x \<longrightarrow> q x"
    using make_room_Some [OF added(1)] ok by blast
  have "holds_block r t1" unfolding t1 by (rule holds_filter [OF h]) (use q in auto)
  moreover have "table_ok t'"
    unfolding added(3) t1 using ok added(2) by (intro table_ok_insert table_ok_filter) auto
  moreover have "blocks t' = blocks t1" by (simp add: blocks_def added(3) insert_pattern_def)
  ultimately show ?thesis
    using blocks_filter [of q t] by (auto simp: holds_block_def added(3) t1 insert_pattern_def)
qed

lemma holds_block_op:
  assumes h: "holds_block r t" and b: "block_within k d n m t = Inr t'" and m: "blocks t < m"
  shows "holds_block r t' \<and> blocks t' \<le> blocks t + 1"
  using b
proof (cases rule: block_shape)
  case (blocked s)
  have ok: "table_ok t" using h by (simp add: holds_block_def)
  have "table_ok t'" unfolding blocked(4) by (rule table_ok_update [OF ok]) simp_all
  moreover have "blocks t' \<le> blocks t + 1"
  proof -
    let ?f = "\<lambda>x. if pt_id x = pt_id s then x\<lparr>pt_blocked := True, pt_used := n\<rparr> else x"
    have "length (filter pt_blocked (map ?f rows)) \<le> length (filter pt_blocked rows) + 1"
      if "distinct (map pt_id rows)" for rows
      using that
    proof (induction rows)
      case (Cons y ys)
      have "map ?f ys = ys" if "pt_id y = pt_id s"
      proof (rule map_idI)
        fix x assume "x \<in> set ys"
        then have "pt_id x \<noteq> pt_id s" using Cons.prems that by (metis distinct.simps(2) image_eqI
            list.simps(9) set_map)
        then show "?f x = x" by simp
      qed
      then show ?case using Cons by (cases "pt_id y = pt_id s") auto
    qed simp
    from this [of "pt_rows t"] show ?thesis
      using ok unfolding blocks_def blocked(4) update_row_simps table_ok_def by blast
  qed
  ultimately show ?thesis
    using holds_map [OF h, of t'
        "\<lambda>x. if pt_id x = pt_id s then x\<lparr>pt_blocked := True, pt_used := n\<rparr> else x"]
    by (simp add: blocked(4))
next
  case added
  have ok: "table_ok t" using h by (simp add: holds_block_def)
  let ?rows = "keep_newest (m - 1) (pt_rows t)"
  obtain x where x: "x \<in> set (pt_rows t)" "pt_id x = pt_id r" "pt_key x = pt_key r" "pt_blocked x"
      "pt_approvals x = pt_approvals r"
    using h by (auto simp: holds_block_def)
  have "length (filter (\<lambda>s. pt_blocked s \<and> older x s) (pt_rows t)) < length (filter pt_blocked (pt_rows t))"
  proof -
    have "filter (\<lambda>s. pt_blocked s \<and> older x s) (pt_rows t)
        = filter (older x) (filter pt_blocked (pt_rows t))"
      by (simp add: conj_commute)
    moreover have "length (filter (older x) (filter pt_blocked (pt_rows t)))
        < length (filter pt_blocked (pt_rows t))"
      by (rule length_filter_less [of x]) (use x in \<open>auto simp: older_def\<close>)
    ultimately show ?thesis by simp
  qed
  then have "x \<in> set ?rows" using x m by (auto simp: keep_newest_def blocks_def)
  moreover have "table_ok t'"
    unfolding added(2) keep_newest_def using ok added(1)
    by (intro table_ok_insert table_ok_filter) auto
  moreover have "blocks t' \<le> blocks t + 1"
    using blocks_filter [of _ t] by (simp add: added(2) blocks_def insert_pattern_def keep_newest_def)
  ultimately show ?thesis using x by (auto simp: holds_block_def added(2) insert_pattern_def)
qed

lemma holds_op:
  assumes h: "holds_block r t" and s: "spares r op"
    and m: "blocks t < MAX_BLOCKED_PATTERNS \<or> \<not> is_block op"
  shows "holds_block r (apply_op op t)
    \<and> blocks (apply_op op t) \<le> blocks t + (if is_block op then 1 else 0)"
proof (cases op)
  case (Remember k d n)
  show ?thesis
    using holds_remember [OF h] h
    by (auto simp: Remember is_block_def or_same_def remember_approval_def and_then_def
        split: sum.splits)
next
  case (Block k d n)
  then have "blocks t < MAX_BLOCKED_PATTERNS" using m by (simp add: is_block_def)
  then show ?thesis
    using holds_block_op [OF h] h
    by (auto simp: Block is_block_def or_same_def block_pattern_def split: sum.splits)
next
  case (Use i n)
  show ?thesis
  proof (cases "record_pattern_use i n t")
    case (Inr t')
    let ?f = "\<lambda>x. if pt_id x = i \<and> \<not> pt_blocked x
        then x\<lparr>pt_uses := pt_uses x + 1, pt_used := n\<rparr> else x"
    have t': "t' = t\<lparr>pt_rows := map ?f (pt_rows t)\<rparr>"
      using Inr by (auto simp: record_pattern_use_def and_then_eq_Inr)
    have "table_ok t'"
      unfolding t' by (rule table_ok_map) (use h in \<open>auto simp: holds_block_def\<close>)
    then have "holds_block r t'"
      using holds_map [OF h, of t' ?f] by (simp add: t')
    moreover have b: "filter pt_blocked (map ?f xs) = filter pt_blocked xs" for xs
      by (induction xs) auto
    have rows: "pt_rows t' = map ?f (pt_rows t)" by (simp add: t')
    have "blocks t' = blocks t"
      unfolding blocks_def rows b ..
    ultimately show ?thesis by (simp add: Use or_same_def Inr)
  qed (use h in \<open>simp add: Use or_same_def\<close>)
next
  case (Remove i)
  show ?thesis
  proof (cases "remove_pattern i t")
    case (Inr t')
    have t': "t' = t\<lparr>pt_rows := filter (\<lambda>x. pt_id x \<noteq> i) (pt_rows t)\<rparr>"
      using Inr by (auto simp: remove_pattern_def and_then_eq_Inr)
    then show ?thesis
      using holds_filter [OF h, of "\<lambda>x. pt_id x \<noteq> i"] blocks_filter [of "\<lambda>x. pt_id x \<noteq> i" t] s
      by (auto simp: Remove or_same_def Inr spares_def is_block_def)
  qed (use h in \<open>simp add: Remove or_same_def\<close>)
next
  case (ForgetAgent a)
  then show ?thesis
    using holds_filter [OF h, of "\<lambda>x. pk_agent (pt_key x) \<noteq> a"] blocks_filter [of _ t] s
    by (auto simp: forget_agent_def spares_def is_block_def)
next
  case (ForgetItem i)
  then show ?thesis
    using holds_filter [OF h, of "\<lambda>x. i \<notin> set (pk_items (pt_key x))"] blocks_filter [of _ t] s
    by (auto simp: forget_item_def spares_def is_block_def)
qed (use s in \<open>simp add: spares_def\<close>)

lemma holds_run:
  "holds_block r t \<Longrightarrow> list_all (spares r) ops
    \<Longrightarrow> blocks t + length (filter is_block ops) \<le> MAX_BLOCKED_PATTERNS
    \<Longrightarrow> holds_block r (run_ops ops t)"
proof (induction ops arbitrary: t)
  case (Cons op ops)
  have h: "holds_block r (apply_op op t)
      \<and> blocks (apply_op op t) \<le> blocks t + (if is_block op then 1 else 0)"
    using Cons.prems by (intro holds_op) auto
  moreover have "blocks (apply_op op t) + length (filter is_block ops) \<le> MAX_BLOCKED_PATTERNS"
    using Cons.prems(3) h by (auto split: if_splits)
  ultimately show ?case
    using Cons.IH [of "apply_op op t"] Cons.prems(2) by simp
qed simp

lemma unlocked_op: "pt_unlocked (apply_op op t) = pt_unlocked t"
proof (cases op)
  case (Remember k d n)
  have "pt_unlocked t' = pt_unlocked t" if "remember_within k d n m t = Inr (p, t')" for m p t'
    using that by (cases rule: remember_shape)
      (auto dest!: make_room_Some simp: insert_pattern_def)
  then show ?thesis
    by (auto simp: Remember or_same_def remember_approval_def and_then_def split: sum.splits)
next
  case (Block k d n)
  have "pt_unlocked t' = pt_unlocked t" if "block_within k d n m t = Inr t'" for m t'
    using that by (cases rule: block_shape) (auto simp: insert_pattern_def)
  then show ?thesis by (auto simp: Block or_same_def block_pattern_def split: sum.splits)
qed (auto simp: or_same_def record_pattern_use_def remove_pattern_def and_then_def
      forget_agent_def forget_item_def forget_all_patterns_def split: sum.splits)

lemma unlocked_run: "pt_unlocked (run_ops ops t) = pt_unlocked t"
  by (induction ops arbitrary: t) (auto simp: unlocked_op)

text \<open>C20: After the owner denies a request, its pattern asks at every later time, whatever
  happens to other patterns, until the owner removes this pattern, its agent or one of its
  items; as long as the table holds at most 5000 blocks.\<close>

theorem denied_pattern_stays_blocked:
  assumes "list_all denied_in_time ops0"
    and "block_pattern key d n (run_ops ops0 empty_table) = Inr t"
    and "pattern_of t key = Inr (Some r)"
    and "list_all (spares r) ops"
    and "blocks t + length (filter is_block ops) \<le> 5000"
  shows "\<exists>r'. pattern_of (run_ops ops t) key = Inr (Some r') \<and> pt_id r' = pt_id r
    \<and> (\<forall>now. state_at r' now = Blocked)"
proof -
  let ?t0 = "run_ops ops0 empty_table"
  have inv: "inv (\<lambda>q. fold (earned_step q) ops0 0) ?t0"
    by (rule inv_run [OF inv_empty assms(1)])
  have ok: "table_ok t" and un: "pt_unlocked t"
    using inv_block [OF inv] assms(2) by (auto simp: block_pattern_def inv_def earned_ok_def)
  have id_ok: "is_ok (to_sql_id (pk_agent key))" and f: "find_pattern t key = Inr (Some r)"
    using assms(3) by (auto simp: pattern_of_def and_then_eq_Inr find_pattern_def)
  have r: "r \<in> set (pt_rows t)" "pt_key r = stored_key key" "pt_approvals r < 2 ^ 32"
    using find_pattern_Some [OF f] by auto
  have "\<exists>x\<in>set (pt_rows t). pt_key x = stored_key key \<and> pt_blocked x"
    using assms(2) unfolding block_pattern_def
  proof (cases rule: block_shape)
    case (blocked s)
    then show ?thesis
      by (intro bexI [of _ "s\<lparr>pt_blocked := True, pt_used := n\<rparr>"]) force+
  qed (auto simp: insert_pattern_def)
  then have "pt_blocked r" using same_key [OF ok r(1)] r(2) by auto
  then have "holds_block r t" using ok r by (auto simp: holds_block_def)
  then have h: "holds_block r (run_ops ops t)"
    using assms(4,5) by (intro holds_run) (simp_all add: MAX_BLOCKED_PATTERNS_def)
  then obtain x where x: "x \<in> set (pt_rows (run_ops ops t))" "pt_id x = pt_id r"
      "pt_key x = stored_key key" "pt_blocked x" "pt_approvals x < 2 ^ 32"
    using r by (auto simp: holds_block_def)
  have "pattern_of (run_ops ops t) key = Inr (Some x)"
    using id_ok find_pattern_row [of "run_ops ops t" x key] h x un
    by (cases "to_sql_id (pk_agent key)")
      (auto simp: pattern_of_def table_conn_def find_pattern_def pattern_from_def
        unlocked_run holds_block_def is_ok_def)
  then show ?thesis using x by (auto simp: state_at_def)
qed

definition blocked_row :: pattern_record where
  "blocked_row = demo_row\<lparr>pt_blocked := True, pt_used := 14\<rparr>"

definition demo_later :: "pattern_op list" where
  "demo_later = [Remember demo_key ''npm test'' 20, Remember demo_key ''npm test'' 21,
     Use 2 22, Block (demo_key\<lparr>pk_agent := 7\<rparr>) ''npm test'' 23, ForgetAgent 9]"

definition demo_denied :: pattern_table where
  "demo_denied = \<lparr>pt_unlocked = True, pt_rows = [blocked_row], pt_last_id = 2\<rparr>"

lemma demo_denial:
  "block_pattern demo_key ''npm test'' 14 (run_ops demo_ops empty_table) = Inr demo_denied"
  "pattern_of demo_denied demo_key = Inr (Some blocked_row)"
  "list_all (spares blocked_row) demo_later"
  by code_simp+

theorem denied_pattern_stays_blocked_witness:
  "\<exists>r'. pattern_of (run_ops demo_later demo_denied) demo_key = Inr (Some r') \<and> pt_id r' = 2
    \<and> (\<forall>now. state_at r' now = Blocked)"
proof -
  have "list_all denied_in_time demo_ops"
    and "blocks demo_denied + length (filter is_block demo_later) \<le> 5000"
    and i: "pt_id blocked_row = 2"
    by (simp_all add: demo_ops_def denied_in_time_def i64_max_def demo_denied_def blocks_def
        demo_later_def is_block_def blocked_row_def demo_row_def)
  from denied_pattern_stays_blocked [OF this(1) demo_denial this(2)] show ?thesis
    unfolding i .
qed

text \<open>
  The limit takes blocks away: a denial of another pattern removes the oldest block of a
  full table, and its pattern can learn again without the owner.
\<close>

lemma full_table_drops_the_oldest_block:
  assumes "table_ok t" and "r \<in> set (pt_rows t)" and "pt_blocked r"
    and "m \<le> length (filter (\<lambda>s. pt_blocked s \<and> older r s) (pt_rows t)) + 1"
    and "stored_key k \<notin> pt_key ` set (pt_rows t)"
    and "block_within k d n m t = Inr t'"
  shows "pt_key r \<notin> pt_key ` set (pt_rows t')"
  using assms(6)
proof (cases rule: block_shape)
  case (blocked s)
  then have "stored_key k \<in> pt_key ` set (pt_rows t)" by (metis image_eqI)
  then show ?thesis using assms(5) by contradiction
next
  case added
  have "r \<notin> set (keep_newest (m - 1) (pt_rows t))"
    using assms(3,4) by (auto simp: keep_newest_def)
  then have "pt_key r \<notin> pt_key ` set (keep_newest (m - 1) (pt_rows t))"
    using same_key [OF assms(1,2)] by (auto simp: keep_newest_def)
  moreover have "pt_key r \<noteq> stored_key k" using assms(2,5) by (metis image_eqI)
  ultimately show ?thesis by (simp add: added(2) insert_pattern_def)
qed

end
