(* ===== verification/DecisionLog.thy ===== *)
theory DecisionLog
  imports Bouncer Approvals Patterns Otp PatternTable
begin

text \<open>
  The decision log and what the broker learns from it (src/src/vault/learning.rs and
  src/src/broker/learning.rs): the names of the stored enums, the masking of secret values,
  the row of a decision and its way back, the pruning, the day counts, the calibration, and
  the glue that makes an entry from the end of a request and reads the state of its
  pattern. A column that holds JSON text is the value itself: serde_json writes and reads
  it. The letters outside ASCII that \<open>is_setup_key_field\<close> asks about are an argument.
\<close>

section \<open>Stored names\<close>

datatype logged_decision = LogAllow | LogDeny

fun logged_decision_str :: "logged_decision \<Rightarrow> string" where
  "logged_decision_str LogAllow = ''allow''"
| "logged_decision_str LogDeny = ''deny''"

definition logged_decision_parse :: "string \<Rightarrow> verr + logged_decision" where
  "logged_decision_parse s =
     (if s = ''allow'' then Inr LogAllow else if s = ''deny'' then Inr LogDeny else Inl Storage)"

interpretation logged_decision_name: stored_name logged_decision_str logged_decision_parse
proof
  fix v show "logged_decision_parse (logged_decision_str v) = Inr v"
    by (cases v) (simp_all add: logged_decision_parse_def)
next
  fix s v assume "logged_decision_parse s = Inr v"
  then show "s = logged_decision_str v"
    by (auto simp: logged_decision_parse_def split: if_splits)
qed

datatype log_decider = DRule | DModel | DPattern | DOwner | DNoAnswer | DAnswer

fun decider_str :: "log_decider \<Rightarrow> string" where
  "decider_str DRule = ''rule''"
| "decider_str DModel = ''model''"
| "decider_str DPattern = ''pattern''"
| "decider_str DOwner = ''owner''"
| "decider_str DNoAnswer = ''no_answer''"
| "decider_str DAnswer = ''answer''"

definition decider_stored :: "log_decider \<Rightarrow> string" where
  "decider_stored d = (if d = DAnswer then decider_str DOwner else decider_str d)"

definition decider_parse :: "string \<Rightarrow> bool \<Rightarrow> verr + log_decider" where
  "decider_parse s asked =
     (if s = ''rule'' then Inr DRule
      else if s = ''model'' then Inr DModel
      else if s = ''pattern'' then Inr DPattern
      else if s = ''owner'' \<and> asked then Inr DOwner
      else if s = ''owner'' \<or> s = ''answer'' then Inr DAnswer
      else if s = ''no_answer'' then Inr DNoAnswer
      else Inl Storage)"

definition reached_bouncer :: "log_decider \<Rightarrow> bool" where
  "reached_bouncer d \<longleftrightarrow> d \<noteq> DRule"

text \<open>The two columns of a decider say which one it was, when the owner's ones asked.\<close>

lemma decider_roundtrip:
  "d = DOwner \<longrightarrow> asked \<Longrightarrow>
     decider_parse (decider_stored d) (asked \<and> d \<noteq> DAnswer) = Inr d"
  by (cases d) (simp_all add: decider_parse_def decider_stored_def)

datatype request_source = SourceNone | SourceAgent | SourceHost

fun request_source_str :: "request_source \<Rightarrow> string" where
  "request_source_str SourceNone = ''none''"
| "request_source_str SourceAgent = ''agent''"
| "request_source_str SourceHost = ''host''"

definition request_source_parse :: "string \<Rightarrow> verr + request_source" where
  "request_source_parse s =
     (if s = ''none'' then Inr SourceNone else if s = ''agent'' then Inr SourceAgent
      else if s = ''host'' then Inr SourceHost else Inl Storage)"

interpretation request_source_name: stored_name request_source_str request_source_parse
proof
  fix v show "request_source_parse (request_source_str v) = Inr v"
    by (cases v) (simp_all add: request_source_parse_def)
next
  fix s v assume "request_source_parse s = Inr v"
  then show "s = request_source_str v"
    by (auto simp: request_source_parse_def split: if_splits)
qed

datatype request_kind = RunRequest | BrowserFill | Connector

fun request_kind_str :: "request_kind \<Rightarrow> string" where
  "request_kind_str RunRequest = ''run''"
| "request_kind_str BrowserFill = ''browser_fill''"
| "request_kind_str Connector = ''connector''"

definition request_kind_parse :: "string \<Rightarrow> request_kind option" where
  "request_kind_parse s =
     (if s = ''run'' then Some RunRequest else if s = ''browser_fill'' then Some BrowserFill
      else if s = ''connector'' then Some Connector else None)"

interpretation request_kind_name:
  stored_name request_kind_str "\<lambda>s. ok_or Storage (request_kind_parse s)"
proof
  fix v show "ok_or Storage (request_kind_parse (request_kind_str v)) = Inr v"
    by (cases v) (simp_all add: request_kind_parse_def)
next
  fix s v assume "ok_or Storage (request_kind_parse s) = Inr v"
  then show "s = request_kind_str v"
    by (auto simp: request_kind_parse_def split: if_splits)
qed

section \<open>Masking\<close>

definition MIN_MASK_BYTES :: nat where
  "MIN_MASK_BYTES = 4"

definition MASK :: string where
  "MASK = ''[apassy:secret]''"

definition MAX_USER_REQUEST_BYTES :: nat where
  "MAX_USER_REQUEST_BYTES = 2000"

definition MAX_PURPOSE_BYTES :: nat where
  "MAX_PURPOSE_BYTES = 500"

definition MAX_NOTE_BYTES :: nat where
  "MAX_NOTE_BYTES = 1000"

definition MAX_TEXT_BYTES :: nat where
  "MAX_TEXT_BYTES = 2048"

text \<open>A row of \<open>item_field\<close>: item, name, value, secret.\<close>

type_synonym field_row = "int \<times> string \<times> string \<times> int"

definition push_secret :: "(string \<Rightarrow> bool) \<Rightarrow> string list \<Rightarrow> field_row \<Rightarrow> string list" where
  "push_secret letter values f =
     (case f of (item, name, v, secret) \<Rightarrow>
        if (secret = 1 \<or> is_setup_key_field letter name v) \<and> MIN_MASK_BYTES \<le> length v
        then values @ [v] else values)"

text \<open>Longer values first, then the smaller text, each once.\<close>

definition value_before :: "string \<Rightarrow> string \<Rightarrow> bool" where
  "value_before a b \<longleftrightarrow> length b < length a \<or> (length a = length b \<and> a \<le> b)"

fun insert_value :: "string \<Rightarrow> string list \<Rightarrow> string list" where
  "insert_value v [] = [v]"
| "insert_value v (w # ws) = (if value_before v w then v # w # ws else w # insert_value v ws)"

definition sort_values :: "string list \<Rightarrow> string list" where
  "sort_values values = remdups_adj (foldr insert_value values [])"

function replace_sub :: "string \<Rightarrow> string \<Rightarrow> string \<Rightarrow> string" where
  "replace_sub w m [] = []"
| "replace_sub w m (c # cs) =
     (if w \<noteq> [] \<and> starts_with (c # cs) w then m @ replace_sub w m (drop (length w) (c # cs))
      else c # replace_sub w m cs)"
  by pat_completeness auto
termination
  by (relation "measure (\<lambda>(w, m, s). length s)") (auto simp: Suc_le_eq)

fun mask_values :: "string \<Rightarrow> string list \<Rightarrow> string" where
  "mask_values t [] = t"
| "mask_values t (v # vs) = mask_values (if contains_sub t v then replace_sub v MASK t else t) vs"

section \<open>Entries\<close>

record decision_entry =
  le_at :: nat
  le_agent :: nat
  le_agent_name :: string
  le_project_dir :: string
  le_cwd_rel :: string
  le_items :: "nat list"
  le_user_request :: string
  le_source :: request_source
  le_command :: "string list"
  le_purpose :: string
  le_env_names :: "string list"
  le_declarations :: "cred_declaration option list"
  le_rule_flags :: "string list"
  le_known_safe :: bool
  le_model_facts :: "(string \<times> rat) list"
  le_pattern :: string
  le_grant_asks :: bool
  le_asked :: bool
  le_decision :: logged_decision
  le_decided_by :: log_decider
  le_remembered :: bool
  le_policy :: string
  le_note :: string
  le_instruction :: string

definition POLICY_MODEL :: string where
  "POLICY_MODEL = ''; model ''"

definition with_model_version :: "string option \<Rightarrow> decision_entry \<Rightarrow> decision_entry" where
  "with_model_version model e = (case model of
       None \<Rightarrow> e
     | Some v \<Rightarrow>
         if valid_model_version v then e\<lparr>le_policy := le_policy e @ POLICY_MODEL @ v\<rparr> else e)"

text \<open>\<open>rsplit_once\<close>: the text after the last separator.\<close>

fun after_last :: "string \<Rightarrow> string \<Rightarrow> string option" where
  "after_last sep [] = (if sep = [] then Some [] else None)"
| "after_last sep (c # cs) = (case after_last sep cs of
       Some r \<Rightarrow> Some r
     | None \<Rightarrow> strip_prefix (c # cs) sep)"

definition entry_model_version :: "decision_entry \<Rightarrow> string option" where
  "entry_model_version e =
     Option.bind (after_last POLICY_MODEL (le_policy e))
       (\<lambda>v. if valid_model_version v then Some v else None)"

definition entry_fact :: "decision_entry \<Rightarrow> string \<Rightarrow> rat option" where
  "entry_fact e name = map_option snd (List.find (\<lambda>(f, _). f = name) (le_model_facts e))"

definition owner_denied :: "decision_entry \<Rightarrow> bool" where
  "owner_denied e \<longleftrightarrow> le_decided_by e = DOwner \<and> le_decision e = LogDeny"

record decision_meta =
  dm_request :: request_kind
  dm_wait_ms :: "nat option"

definition default_meta :: decision_meta where
  "default_meta = \<lparr>dm_request = RunRequest, dm_wait_ms = None\<rparr>"

section \<open>Rows of the log\<close>

record log_row =
  lr_id :: int
  lr_at :: int
  lr_agent :: int
  lr_agent_name :: string
  lr_project_dir :: string
  lr_cwd_rel :: string
  lr_items :: "nat list"
  lr_user_request :: string
  lr_source :: string
  lr_command :: "string list"
  lr_purpose :: string
  lr_env_names :: "string list"
  lr_declarations :: "json list"
  lr_rule_flags :: "string list"
  lr_known_safe :: bool
  lr_model_facts :: "(string \<times> rat) list"
  lr_pattern :: string
  lr_grant_asks :: bool
  lr_asked :: bool
  lr_decision :: string
  lr_decided_by :: string
  lr_remembered :: bool
  lr_policy :: string
  lr_note :: string
  lr_instruction :: string
  lr_request :: string
  lr_wait_ms :: "int option"

record log_db =
  ld_unlocked :: bool
  ld_fields :: "field_row list"
  ld_rows :: "log_row list"
  ld_last_id :: nat

definition log_conn :: "log_db \<Rightarrow> verr + unit" where
  "log_conn db = require Locked (ld_unlocked db)"

text \<open>A declaration as a JSON object, its names in key order.\<close>

definition declaration_json :: "cred_declaration \<Rightarrow> json" where
  "declaration_json d = JObj
     [(''environment'', JStr (environment_str (d_environment d))),
      (''project'', JStr (d_project d)),
      (''reversibility'', JStr (reversibility_str (d_reversibility d))),
      (''risk'', JStr (risk_level_str (d_risk d))),
      (''scope'', JStr (scope_str (d_scope d)))]"

definition json_text :: "json \<Rightarrow> string \<Rightarrow> verr + string" where
  "json_text v name = ok_or Storage (Option.bind (jget name v) as_str)"

definition declaration_from_json :: "json \<Rightarrow> verr + cred_declaration option" where
  "declaration_from_json v =
     (if v = JNull then Inr None
      else and_then (json_text v ''project'') (\<lambda>p.
           and_then (json_text v ''environment'') (\<lambda>e'. and_then (storage (environment_parse e')) (\<lambda>e.
           and_then (json_text v ''risk'') (\<lambda>r'. and_then (storage (risk_level_parse r')) (\<lambda>r.
           and_then (json_text v ''scope'') (\<lambda>s'. and_then (storage (scope_parse s')) (\<lambda>s.
           and_then (json_text v ''reversibility'') (\<lambda>w'.
           and_then (storage (reversibility_parse w')) (\<lambda>w.
             Inr (Some \<lparr>d_project = p, d_environment = e, d_risk = r, d_scope = s,
               d_reversibility = w\<rparr>)))))))))))"

definition declaration_value :: "cred_declaration option \<Rightarrow> json" where
  "declaration_value d = (case d of None \<Rightarrow> JNull | Some d \<Rightarrow> declaration_json d)"

text \<open>A JSON object from a list of pairs: in key order, the last value of a key.\<close>

definition fact_map :: "(string \<times> rat) list \<Rightarrow> (string \<times> rat) list" where
  "fact_map facts = map (\<lambda>k. (k, the (map_of (rev facts) k))) (sort_dedup (map fst facts))"

definition secret_values :: "(string \<Rightarrow> bool) \<Rightarrow> nat list \<Rightarrow> log_db \<Rightarrow> verr + string list" where
  "secret_values letter items db =
     and_then (log_conn db) (\<lambda>_.
     and_then (map_results to_sql_id items) (\<lambda>is.
       Inr (sort_values (foldl (push_secret letter) []
         (concat (map (\<lambda>i. filter (\<lambda>f. fst f = i) (ld_fields db)) is))))))"

definition all_secret_values :: "(string \<Rightarrow> bool) \<Rightarrow> log_db \<Rightarrow> verr + string list" where
  "all_secret_values letter db =
     and_then (log_conn db) (\<lambda>_. Inr (sort_values (foldl (push_secret letter) [] (ld_fields db))))"

fun mask_command :: "(string \<Rightarrow> string) \<Rightarrow> nat \<Rightarrow> string list \<Rightarrow> string list" where
  "mask_command f used [] = []"
| "mask_command f used (a # as) =
     (let m = f a; used' = used + length m
      in if MAX_COMMAND_BYTES < used' then [''[truncated]''] else m # mask_command f used' as)"

definition MAX_DECISION_ROWS :: nat where
  "MAX_DECISION_ROWS = 10000"

definition MAX_KEPT_DENIALS :: nat where
  "MAX_KEPT_DENIALS = 2000"

definition PRUNE_EVERY :: nat where
  "PRUNE_EVERY = 64"

definition is_owner_denial :: "log_row \<Rightarrow> bool" where
  "is_owner_denial r \<longleftrightarrow> lr_decided_by r = ''owner'' \<and> lr_decision r = ''deny''"

text \<open>Rows stand in the order of their ids; the oldest rows over a limit go.\<close>

definition keep_last :: "nat \<Rightarrow> ('r \<Rightarrow> bool) \<Rightarrow> 'r list \<Rightarrow> 'r list" where
  "keep_last n p rows = drop_matching (length (filter p rows) - n) p rows"

definition prune_decisions :: "nat \<Rightarrow> nat \<Rightarrow> log_row list \<Rightarrow> log_row list" where
  "prune_decisions max_rows max_denials rows =
     keep_last max_denials is_owner_denial (keep_last max_rows (\<lambda>r. \<not> is_owner_denial r) rows)"

definition wait_column :: "decision_entry \<Rightarrow> decision_meta \<Rightarrow> int option" where
  "wait_column e m = (case dm_wait_ms m of
       Some ms \<Rightarrow> if le_asked e \<and> le_decided_by e = DOwner then Some (int (min ms i64_max)) else None
     | None \<Rightarrow> None)"

text \<open>The row of an entry, with \<open>hide text max\<close> for the masked columns.\<close>

definition row_of ::
    "(string \<Rightarrow> nat \<Rightarrow> string) \<Rightarrow> decision_entry \<Rightarrow> decision_meta \<Rightarrow> int \<Rightarrow> int \<Rightarrow> int \<Rightarrow> log_row" where
  "row_of hide e m i tm agent =
     \<lparr>lr_id = i, lr_at = tm, lr_agent = agent,
      lr_agent_name = cut_at (le_agent_name e) MAX_TEXT_BYTES,
      lr_project_dir = cut_at (le_project_dir e) MAX_TEXT_BYTES,
      lr_cwd_rel = cut_at (le_cwd_rel e) MAX_TEXT_BYTES,
      lr_items = le_items e,
      lr_user_request = hide (le_user_request e) MAX_USER_REQUEST_BYTES,
      lr_source = request_source_str (le_source e),
      lr_command = mask_command (\<lambda>a. hide a MAX_COMMAND_BYTES) 0 (le_command e),
      lr_purpose = hide (le_purpose e) MAX_PURPOSE_BYTES,
      lr_env_names = le_env_names e,
      lr_declarations = map declaration_value (le_declarations e),
      lr_rule_flags = le_rule_flags e,
      lr_known_safe = le_known_safe e,
      lr_model_facts = fact_map (le_model_facts e),
      lr_pattern = hide (le_pattern e) MAX_COMMAND_BYTES,
      lr_grant_asks = le_grant_asks e,
      lr_asked = (le_asked e \<and> le_decided_by e \<noteq> DAnswer),
      lr_decision = logged_decision_str (le_decision e),
      lr_decided_by = decider_stored (le_decided_by e),
      lr_remembered = le_remembered e,
      lr_policy = cut_at (le_policy e) MAX_TEXT_BYTES,
      lr_note = hide (le_note e) MAX_NOTE_BYTES,
      lr_instruction = hide (le_instruction e) MAX_TEXT_BYTES,
      lr_request = request_kind_str (dm_request m),
      lr_wait_ms = wait_column e m\<rparr>"

definition record_decision_with ::
    "(string \<Rightarrow> bool) \<Rightarrow> decision_entry \<Rightarrow> decision_meta \<Rightarrow> log_db \<Rightarrow> verr + nat \<times> log_db" where
  "record_decision_with letter e m db =
     and_then (secret_values letter (le_items e) db) (\<lambda>values.
     and_then (to_sql_time (le_at e)) (\<lambda>tm.
     and_then (to_sql_id (le_agent e)) (\<lambda>agent.
       let i = ld_last_id db + 1;
           rows = ld_rows db @
             [row_of (\<lambda>t max. cut_at (mask_values t values) max) e m (int i) tm agent];
           kept = (if i mod PRUNE_EVERY = 0
                   then prune_decisions MAX_DECISION_ROWS MAX_KEPT_DENIALS rows else rows)
       in Inr (i, db\<lparr>ld_rows := kept, ld_last_id := i\<rparr>))))"

definition record_decision ::
    "(string \<Rightarrow> bool) \<Rightarrow> decision_entry \<Rightarrow> log_db \<Rightarrow> verr + nat \<times> log_db" where
  "record_decision letter e db = record_decision_with letter e default_meta db"

section \<open>Reading the log\<close>

record decision_record =
  dr_id :: nat
  dr_entry :: decision_entry

definition decision_from :: "log_row \<Rightarrow> verr + decision_record" where
  "decision_from r =
     and_then (to_public_id (lr_id r)) (\<lambda>i.
     and_then (from_sql_time (lr_at r)) (\<lambda>tm.
     and_then (to_public_id (lr_agent r)) (\<lambda>agent.
     and_then (request_source_parse (lr_source r)) (\<lambda>source.
     and_then (map_results declaration_from_json (lr_declarations r)) (\<lambda>ds.
     and_then (logged_decision_parse (lr_decision r)) (\<lambda>decision.
     and_then (decider_parse (lr_decided_by r) (lr_asked r)) (\<lambda>by.
       Inr \<lparr>dr_id = i, dr_entry =
         \<lparr>le_at = tm, le_agent = agent, le_agent_name = lr_agent_name r,
          le_project_dir = lr_project_dir r, le_cwd_rel = lr_cwd_rel r, le_items = lr_items r,
          le_user_request = lr_user_request r, le_source = source, le_command = lr_command r,
          le_purpose = lr_purpose r, le_env_names = lr_env_names r, le_declarations = ds,
          le_rule_flags = lr_rule_flags r, le_known_safe = lr_known_safe r,
          le_model_facts = lr_model_facts r, le_pattern = lr_pattern r,
          le_grant_asks = lr_grant_asks r, le_asked = lr_asked r, le_decision = decision,
          le_decided_by = by, le_remembered = lr_remembered r, le_policy = lr_policy r,
          le_note = lr_note r, le_instruction = lr_instruction r\<rparr>\<rparr>)))))))"

definition query_decisions ::
    "(log_row list \<Rightarrow> log_row list) \<Rightarrow> log_db \<Rightarrow> verr + decision_record list" where
  "query_decisions select db =
     and_then (log_conn db) (\<lambda>_. map_results decision_from (select (ld_rows db)))"

definition decision_log :: "log_db \<Rightarrow> verr + decision_record list" where
  "decision_log db = query_decisions (sort_key lr_at) db"

definition automatic_decisions :: "nat \<Rightarrow> log_db \<Rightarrow> verr + decision_record list" where
  "automatic_decisions limit db =
     and_then (require InvalidInput (limit \<le> i64_max)) (\<lambda>_.
       query_decisions
         (\<lambda>rows. take limit (rev (filter (\<lambda>r. lr_decided_by r \<in> {''model'', ''pattern''}) rows))) db)"

definition decision_of :: "nat \<Rightarrow> log_db \<Rightarrow> verr + decision_record option" where
  "decision_of i db =
     and_then (to_sql_id i) (\<lambda>k.
     and_then (query_decisions (filter (\<lambda>r. lr_id r = k)) db) (\<lambda>rs.
       Inr (case rs of [] \<Rightarrow> None | r # _ \<Rightarrow> Some r)))"

definition decision_meta_of :: "nat \<Rightarrow> log_db \<Rightarrow> verr + decision_meta option" where
  "decision_meta_of i db =
     and_then (log_conn db) (\<lambda>_.
     and_then (to_sql_id i) (\<lambda>k. case List.find (\<lambda>r. lr_id r = k) (ld_rows db) of
         None \<Rightarrow> Inr None
       | Some r \<Rightarrow>
           and_then (ok_or Storage (request_kind_parse (lr_request r))) (\<lambda>kind.
             case lr_wait_ms r of
               None \<Rightarrow> Inr (Some \<lparr>dm_request = kind, dm_wait_ms = None\<rparr>)
             | Some ms \<Rightarrow>
                 if ms < 0 then Inl Storage
                 else Inr (Some \<lparr>dm_request = kind, dm_wait_ms = Some (nat ms)\<rparr>))))"

section \<open>Counts\<close>

record day_rate =
  dy_day :: nat
  dy_decisions :: nat
  dy_asked :: nat
  dy_by_model :: nat
  dy_by_pattern :: nat
  dy_by_answer :: nat

definition automatic :: "day_rate \<Rightarrow> nat" where
  "automatic d = dy_by_model d + dy_by_pattern d + dy_by_answer d"

definition ran_unasked :: "string list \<Rightarrow> log_row \<Rightarrow> bool" where
  "ran_unasked deciders r \<longleftrightarrow> lr_decision r = ''allow'' \<and> \<not> lr_asked r \<and> lr_decided_by r \<in> set deciders"

definition count_u32 :: "nat \<Rightarrow> verr + nat" where
  "count_u32 n = (if n < 2 ^ 32 then Inr n else Inl Storage)"

definition day_rate_of :: "log_row list \<Rightarrow> int \<Rightarrow> verr + day_rate" where
  "day_rate_of rows day =
     (let of_day = filter (\<lambda>r. lr_at r div 86400 = day) rows;
          count = (\<lambda>p. count_u32 (length (filter p of_day)))
      in and_then (from_sql_time day) (\<lambda>d.
         and_then (count (\<lambda>r. True)) (\<lambda>all.
         and_then (count lr_asked) (\<lambda>asked.
         and_then (count (ran_unasked [''model''])) (\<lambda>by_model.
         and_then (count (ran_unasked [''pattern''])) (\<lambda>by_pattern.
         and_then (count (ran_unasked [''owner'', ''answer''])) (\<lambda>by_answer.
           Inr \<lparr>dy_day = d * DAY_SECONDS, dy_decisions = all, dy_asked = asked,
             dy_by_model = by_model, dy_by_pattern = by_pattern, dy_by_answer = by_answer\<rparr>)))))))"

definition ask_rate_by_day :: "nat \<Rightarrow> log_db \<Rightarrow> verr + day_rate list" where
  "ask_rate_by_day since db =
     and_then (log_conn db) (\<lambda>_.
     and_then (to_sql_time since) (\<lambda>from_at.
       let rows = filter (\<lambda>r. lr_decided_by r \<noteq> ''rule'' \<and> from_at \<le> lr_at r) (ld_rows db)
       in map_results (day_rate_of rows) (sort_dedup (map (\<lambda>r. lr_at r div 86400) rows))))"

record bouncer_counts =
  bc_by_model :: nat
  bc_asked :: nat
  bc_failed :: nat

text \<open>\<open>LIKE 'prefix%'\<close> ignores the case of ASCII letters.\<close>

definition failed_row :: "log_row \<Rightarrow> bool" where
  "failed_row r \<longleftrightarrow> lr_decided_by r = ''no_answer''
     \<or> starts_with (to_ascii_lowercase (lr_note r)) ''bouncer unavailable:''
     \<or> starts_with (to_ascii_lowercase (lr_note r)) ''no bouncer runs,''"

definition bouncer_counts_of :: "nat \<Rightarrow> nat \<Rightarrow> log_db \<Rightarrow> verr + bouncer_counts" where
  "bouncer_counts_of since until db =
     and_then (log_conn db) (\<lambda>_.
     and_then (to_sql_time since) (\<lambda>a. and_then (to_sql_time until) (\<lambda>b.
       let rows = filter (\<lambda>r. a \<le> lr_at r \<and> lr_at r < b) (ld_rows db)
       in Inr \<lparr>bc_by_model = length (filter (ran_unasked [''model'']) rows),
            bc_asked = length (filter lr_asked rows),
            bc_failed = length (filter failed_row rows)\<rparr>)))"

section \<open>Calibration\<close>

definition CALIBRATION_CEILING :: rat where
  "CALIBRATION_CEILING = MIN_CONFIDENCE"

definition MAX_CALIBRATION_ROWS :: nat where
  "MAX_CALIBRATION_ROWS = 100"

record calibration_record =
  ca_id :: nat
  ca_at :: nat
  ca_task_match :: rat
  ca_report :: string

record calibration_db =
  cb_unlocked :: bool
  cb_rows :: "calibration_record list"
  cb_last_id :: nat

fun in_calibration_range :: "float_level \<Rightarrow> rat option" where
  "in_calibration_range (Finite r) =
     (if CALIBRATION_FLOOR \<le> r \<and> r \<le> CALIBRATION_CEILING then Some r else None)"
| "in_calibration_range _ = None"

definition apply_calibration ::
    "float_level \<Rightarrow> string \<Rightarrow> nat \<Rightarrow> calibration_db \<Rightarrow> verr + calibration_db" where
  "apply_calibration level report now db =
     and_then (ok_or InvalidInput (in_calibration_range level)) (\<lambda>r.
     and_then (to_sql_time now) (\<lambda>_.
     and_then (require Locked (cb_unlocked db)) (\<lambda>_.
       Inr (db\<lparr>cb_last_id := cb_last_id db + 1,
         cb_rows := keep_last MAX_CALIBRATION_ROWS (\<lambda>_. True) (cb_rows db @
           [\<lparr>ca_id = cb_last_id db + 1, ca_at = now, ca_task_match = r,
             ca_report = cut_at report MAX_COMMAND_BYTES\<rparr>])\<rparr>))))"

definition calibration_history :: "nat \<Rightarrow> calibration_db \<Rightarrow> verr + calibration_record list" where
  "calibration_history limit db =
     and_then (require InvalidInput (limit \<le> i64_max)) (\<lambda>_.
     and_then (require Locked (cb_unlocked db)) (\<lambda>_.
       Inr (take limit (rev (cb_rows db)))))"

definition calibration :: "calibration_db \<Rightarrow> verr + calibration_record option" where
  "calibration db =
     and_then (calibration_history 1 db) (\<lambda>rs. Inr (case rs of [] \<Rightarrow> None | r # _ \<Rightarrow> Some r))"

section \<open>Learning glue\<close>

record run_scope =
  rs_agent :: nat
  rs_project_dir :: string
  rs_cwd :: string
  rs_cwd_rel :: string
  rs_items :: "nat list"
  rs_declarations :: "cred_declaration option list"
  rs_instruction :: string

record request_pattern =
  rp_key :: pattern_key
  rp_display :: string

definition declaration_text :: "cred_declaration option \<Rightarrow> string" where
  "declaration_text d = (case d of
       None \<Rightarrow> ''none''
     | Some d \<Rightarrow> join_with ''/'' [d_project d, environment_str (d_environment d),
         risk_level_str (d_risk d), scope_str (d_scope d), reversibility_str (d_reversibility d)])"

fun insert_part :: "nat \<times> string \<Rightarrow> (nat \<times> string) list \<Rightarrow> (nat \<times> string) list" where
  "insert_part p [] = [p]"
| "insert_part (i, t) ((j, u) # ps) =
     (if i < j \<or> (i = j \<and> t \<le> u) then (i, t) # (j, u) # ps
      else (j, u) # insert_part (i, t) ps)"

definition pattern_policy :: "run_scope \<Rightarrow> string" where
  "pattern_policy s =
     (let parts = foldr insert_part
            (zip (rs_items s) (map declaration_text (rs_declarations s))) []
      in join_with '';'' (map (\<lambda>(i, t). show_nat i @ ''='' @ t) parts)
         @ ''|'' @ trim (rs_instruction s))"

text \<open>The text of a template is made by serde_json and is an argument.\<close>

definition request_pattern_of ::
    "(token list \<Rightarrow> string) \<Rightarrow> run_scope \<Rightarrow> string list \<Rightarrow> request_pattern option" where
  "request_pattern_of encode s command =
     map_option (\<lambda>tokens.
       \<lparr>rp_key = \<lparr>pk_agent = rs_agent s, pk_project = rs_project_dir s,
          pk_items = sort_dedup (rs_items s), pk_policy = pattern_policy s,
          pk_cwd = rs_cwd_rel s, pk_template = encode tokens\<rparr>,
        rp_display = display tokens\<rparr>)
     (generalize encode command \<lparr>project_dir = rs_project_dir s, cwd_dir = rs_cwd s\<rparr>)"

record learning_state =
  ls_learned :: learned
  ls_active_id :: "nat option"
  ls_approvals :: nat
  ls_blocked :: bool

definition default_learning :: learning_state where
  "default_learning =
     \<lparr>ls_learned = \<lparr>ln_task_match = Finite DEFAULT_TASK_MATCH, ln_pattern = None\<rparr>,
      ls_active_id = None, ls_approvals = 0, ls_blocked = False\<rparr>"

definition offer :: "learning_state \<Rightarrow> request_pattern option \<Rightarrow> decision_context \<Rightarrow> bool
    \<Rightarrow> remember_offer option" where
  "offer st pattern ctx grant_asks = (case pattern of
       None \<Rightarrow> None
     | Some p \<Rightarrow>
         if \<not> grant_asks \<and> \<not> ls_blocked st \<and> before_model ctx = None
         then Some \<lparr>ro_pattern = rp_display p, ro_approvals = ls_approvals st,
                ro_needed = APPROVALS_NEEDED\<rparr>
         else None)"

definition with_calibration :: "calibration_db \<Rightarrow> learning_state \<Rightarrow> learning_state" where
  "with_calibration cal st = (case calibration cal of
       Inr (Some c) \<Rightarrow> st\<lparr>ls_learned := (ls_learned st)\<lparr>ln_task_match := Finite (ca_task_match c)\<rparr>\<rparr>
     | _ \<Rightarrow> st)"

definition with_record :: "pattern_record \<Rightarrow> nat \<Rightarrow> learning_state \<Rightarrow> learning_state" where
  "with_record r now st = (case state_at r now of
       Active \<Rightarrow> st\<lparr>ls_learned := (ls_learned st)\<lparr>ln_pattern := Some (pt_display r)\<rparr>,
                   ls_active_id := Some (pt_id r), ls_approvals := pt_approvals r\<rparr>
     | Learning n \<Rightarrow> st\<lparr>ls_approvals := n\<rparr>
     | Blocked \<Rightarrow> st\<lparr>ls_blocked := True\<rparr>
     | ExpiredPattern \<Rightarrow> st)"

text \<open>The calibration and the patterns are tables of one vault.\<close>

definition learning_lookup ::
    "calibration_db \<Rightarrow> pattern_table \<Rightarrow> request_pattern option \<Rightarrow> nat \<Rightarrow> learning_state" where
  "learning_lookup cal t pattern now =
     (let st = with_calibration cal default_learning
      in case pattern of
           None \<Rightarrow> st
         | Some p \<Rightarrow> (case pattern_of t (rp_key p) of
               Inr (Some r) \<Rightarrow> with_record r now st
             | _ \<Rightarrow> st))"

datatype request_outcome = Automatic bool | RememberedAnswer | OwnerAnswered approval_outcome

fun outcome_columns :: "request_outcome \<Rightarrow> bool \<times> logged_decision \<times> log_decider \<times> bool" where
  "outcome_columns (Automatic by_pattern) =
     (False, LogAllow, if by_pattern then DPattern else DModel, False)"
| "outcome_columns RememberedAnswer = (False, LogAllow, DAnswer, False)"
| "outcome_columns (OwnerAnswered Approved) = (True, LogAllow, DOwner, False)"
| "outcome_columns (OwnerAnswered ApprovedAndGranted) = (True, LogAllow, DOwner, False)"
| "outcome_columns (OwnerAnswered ApprovedAndRemembered) = (True, LogAllow, DOwner, True)"
| "outcome_columns (OwnerAnswered Denied) = (True, LogDeny, DOwner, False)"
| "outcome_columns (OwnerAnswered TimedOut) = (True, LogDeny, DNoAnswer, False)"
| "outcome_columns (OwnerAnswered Invalidated) = (True, LogDeny, DNoAnswer, False)"

record logged_request =
  lq_at :: nat
  lq_agent :: nat
  lq_agent_name :: string
  lq_scope :: run_scope
  lq_user_request :: string
  lq_source :: request_source
  lq_command :: "string list"
  lq_purpose :: string
  lq_env_names :: "string list"
  lq_analysis :: analysis
  lq_verdict :: verdict
  lq_pattern :: "request_pattern option"
  lq_grant_asks :: bool
  lq_thresholds :: float_level

text \<open>\<open>{:.2}\<close> of a level below one.\<close>

definition two_places :: "rat \<Rightarrow> string" where
  "two_places r =
     (let n = nat (half_even (r * 100))
      in show_nat (n div 100) @ ''.'' @ [digit (n mod 100 div 10), digit n])"

definition policy_label :: "float_level \<Rightarrow> string" where
  "policy_label l = ''apassy-bouncer-v9; task_match '' @ two_places (task_match_level l)"

fun facts_in :: "verdict \<Rightarrow> (string \<times> rat) list" where
  "facts_in (Scored fs m) = map (\<lambda>f. (ft_name f, ft_probability f)) fs"
| "facts_in (Unavailable _) = []"

definition request_entry :: "logged_request \<Rightarrow> request_outcome \<Rightarrow> string \<Rightarrow> decision_entry" where
  "request_entry q outcome note =
     (case outcome_columns outcome of (asked, decision, by, remembered) \<Rightarrow>
        with_model_version (verdict_model (lq_verdict q))
          \<lparr>le_at = lq_at q, le_agent = lq_agent q, le_agent_name = lq_agent_name q,
           le_project_dir = rs_project_dir (lq_scope q), le_cwd_rel = rs_cwd_rel (lq_scope q),
           le_items = rs_items (lq_scope q), le_user_request = lq_user_request q,
           le_source = lq_source q, le_command = lq_command q, le_purpose = lq_purpose q,
           le_env_names = lq_env_names q, le_declarations = rs_declarations (lq_scope q),
           le_rule_flags = flags (lq_analysis q), le_known_safe = known_safe (lq_analysis q),
           le_model_facts = facts_in (lq_verdict q),
           le_pattern = (case lq_pattern q of None \<Rightarrow> [] | Some p \<Rightarrow> rp_display p),
           le_grant_asks = lq_grant_asks q, le_asked = asked, le_decision = decision,
           le_decided_by = by, le_remembered = remembered,
           le_policy = policy_label (lq_thresholds q), le_note = note,
           le_instruction = trim (rs_instruction (lq_scope q))\<rparr>)"

record rule_denial =
  rd_at :: nat
  rd_agent :: nat
  rd_agent_name :: string
  rd_items :: "nat list"
  rd_user_request :: string
  rd_source :: request_source
  rd_command :: "string list"
  rd_purpose :: string
  rd_reason :: string

definition denial_entry :: "rule_denial \<Rightarrow> decision_entry" where
  "denial_entry d =
     \<lparr>le_at = rd_at d, le_agent = rd_agent d, le_agent_name = rd_agent_name d,
      le_project_dir = [], le_cwd_rel = [], le_items = rd_items d,
      le_user_request = rd_user_request d, le_source = rd_source d,
      le_command = rd_command d, le_purpose = rd_purpose d, le_env_names = [],
      le_declarations = [], le_rule_flags = [], le_known_safe = False, le_model_facts = [],
      le_pattern = [], le_grant_asks = False, le_asked = False, le_decision = LogDeny,
      le_decided_by = DRule, le_remembered = False,
      le_policy = policy_label (Finite DEFAULT_TASK_MATCH), le_note = rd_reason d,
      le_instruction = []\<rparr>"

text \<open>A record that stores the entry and cannot store the block still keeps the entry.\<close>

definition record_with ::
    "(string \<Rightarrow> bool) \<Rightarrow> decision_entry \<Rightarrow> decision_meta \<Rightarrow> request_pattern option
      \<Rightarrow> log_db \<times> pattern_table \<Rightarrow> (verr + nat) \<times> log_db \<times> pattern_table" where
  "record_with letter e m pattern s =
     (case s of (db, t) \<Rightarrow> case record_decision_with letter e m db of
        Inl err \<Rightarrow> (Inl err, db, t)
      | Inr (i, db') \<Rightarrow> (case pattern of
            Some p \<Rightarrow>
              if owner_denied e
              then (case block_pattern (rp_key p) (rp_display p) (le_at e) t of
                      Inl err \<Rightarrow> (Inl err, db', t)
                    | Inr t' \<Rightarrow> (Inr i, db', t'))
              else (Inr i, db', t)
          | None \<Rightarrow> (Inr i, db', t)))"

definition remember_pattern ::
    "request_pattern \<Rightarrow> nat \<Rightarrow> pattern_table \<Rightarrow> verr + pattern_table" where
  "remember_pattern p now t =
     and_then (remember_approval (rp_key p) (rp_display p) now t) (\<lambda>(_, t'). Inr t')"

definition agent_source :: "string \<Rightarrow> request_source" where
  "agent_source user_request = (if trim user_request = [] then SourceNone else SourceAgent)"

definition resolved_source :: "string \<Rightarrow> string \<Rightarrow> request_source" where
  "resolved_source user_request label =
     (if trim user_request = [] then SourceNone
      else if starts_with label ''from the agent'' \<or> starts_with label ''from the cloud agent''
      then SourceAgent else SourceHost)"

section \<open>A masked text does not show a value\<close>

text \<open>A value that no part of the mask and of the mark of a cut command shows.\<close>

definition maskable :: "string \<Rightarrow> bool" where
  "maskable v \<longleftrightarrow> CHR ''['' \<notin> set v \<and> CHR '']'' \<notin> set v
     \<and> \<not> contains_sub ''apassy:secret'' v \<and> \<not> contains_sub ''truncated'' v"

lemma contains_cut: "contains_sub (cut_at s n) v \<Longrightarrow> contains_sub s v"
  by (auto simp: cut_at_def dest: contains_take split: if_splits)

lemma contains_bracketed:
  assumes "CHR ''['' \<notin> set v" and "CHR '']'' \<notin> set v" and "\<not> contains_sub mid v"
    and "contains_sub (CHR ''['' # mid @ CHR '']'' # r) v"
  shows "contains_sub r v"
proof -
  have ne: "v \<noteq> []" using assms(3) by auto
  have "contains_sub [] v \<or> contains_sub (mid @ CHR '']'' # r) v"
    by (rule contains_append_free [OF assms(1)]) (use assms(4) in simp)
  then have "contains_sub (mid @ CHR '']'' # r) v" using ne by (simp add: contains_Nil)
  from contains_append_free [OF assms(2) this] show ?thesis using assms(3) by blast
qed

definition mask_text :: string where
  "mask_text = ''apassy:secret''"

definition mark_text :: string where
  "mark_text = ''truncated''"

lemma MASK_parts: "MASK = CHR ''['' # mask_text @ [CHR '']'']"
  by (simp add: MASK_def mask_text_def)

lemma mark_parts: "''[truncated]'' = CHR ''['' # mark_text @ CHR '']'' # []"
  by (simp add: mark_text_def)

lemma maskable_iff: "maskable v \<longleftrightarrow> CHR ''['' \<notin> set v \<and> CHR '']'' \<notin> set v
     \<and> \<not> contains_sub mask_text v \<and> \<not> contains_sub mark_text v"
  by (simp add: maskable_def mask_text_def mark_text_def)

lemma contains_mask: "maskable v \<Longrightarrow> contains_sub (MASK @ r) v \<Longrightarrow> contains_sub r v"
  using contains_bracketed [of v mask_text r] by (simp add: MASK_parts maskable_iff)

lemma truncated_shows_no_value: "maskable v \<Longrightarrow> \<not> contains_sub ''[truncated]'' v"
  using contains_bracketed [of v mark_text "[]"] unfolding mark_parts
  by (auto simp: maskable_iff contains_Nil)

lemma replace_prefix:
  "CHR ''['' \<notin> set v \<Longrightarrow> starts_with (replace_sub w MASK s) v \<Longrightarrow> starts_with s v"
proof (induction s arbitrary: v rule: length_induct)
  case (1 s)
  show ?case
  proof (cases s)
    case Nil
    then show ?thesis using 1 by simp
  next
    case (Cons c cs)
    show ?thesis
    proof (cases "w \<noteq> [] \<and> starts_with s w")
      case True
      then have "starts_with (MASK @ replace_sub w MASK (drop (length w) s)) v"
        using 1 Cons by simp
      then have "v = [] \<or> (\<exists>v'. v = CHR ''['' # v')"
        unfolding MASK_parts append_Cons starts_with_Cons by blast
      then have "v = []" using 1(2) by auto
      then show ?thesis by simp
    next
      case False
      then have "starts_with (c # replace_sub w MASK cs) v" using 1 Cons by auto
      then show ?thesis
        unfolding starts_with_Cons Cons
        using 1(1) [rule_format, of cs] 1(2) Cons by auto
    qed
  qed
qed

lemma replace_keeps_out:
  assumes m: "maskable v"
  shows "contains_sub (replace_sub w MASK s) v \<Longrightarrow> contains_sub s v"
proof (induction s rule: length_induct)
  case (1 s)
  have b: "CHR ''['' \<notin> set v" using m by (simp add: maskable_iff)
  show ?case
  proof (cases s)
    case Nil
    then show ?thesis using 1 by simp
  next
    case (Cons c cs)
    show ?thesis
    proof (cases "w \<noteq> [] \<and> starts_with s w")
      case True
      then have "contains_sub (MASK @ replace_sub w MASK (drop (length w) s)) v"
        using 1 Cons by simp
      then have "contains_sub (replace_sub w MASK (drop (length w) s)) v"
        by (rule contains_mask [OF m])
      then have "contains_sub (drop (length w) s) v"
        using 1(1) [rule_format, of "drop (length w) s"] True Cons by (cases w) auto
      then show ?thesis by (rule contains_drop)
    next
      case False
      then have "contains_sub (c # replace_sub w MASK cs) v" using 1 Cons by auto
      then consider "starts_with (c # replace_sub w MASK cs) v" | "contains_sub (replace_sub w MASK cs) v"
        by (auto simp: contains_Cons)
      then show ?thesis
      proof cases
        case 1
        then have "starts_with (c # cs) v"
          using replace_prefix b by (auto simp: starts_with_Cons)
        then show ?thesis using Cons by (simp add: contains_Cons)
      next
        case 2
        then show ?thesis using 1(1) [rule_format, of cs] Cons by (simp add: contains_Cons)
      qed
    qed
  qed
qed

lemma replace_removes:
  assumes m: "maskable v"
  shows "\<not> contains_sub (replace_sub v MASK s) v"
proof (induction s rule: length_induct)
  case (1 s)
  have b: "CHR ''['' \<notin> set v" "v \<noteq> []" using m by (auto simp: maskable_iff)
  show ?case
  proof (cases s)
    case Nil
    then show ?thesis using b by (simp add: contains_Nil)
  next
    case (Cons c cs)
    show ?thesis
    proof (cases "starts_with s v")
      case True
      then have "\<not> contains_sub (replace_sub v MASK (drop (length v) s)) v"
        using 1 [rule_format, of "drop (length v) s"] b Cons by (cases v) auto
      then have "\<not> contains_sub (MASK @ replace_sub v MASK (drop (length v) s)) v"
        using contains_mask [OF m] by blast
      then show ?thesis using True Cons b by simp
    next
      case False
      have "\<not> contains_sub (replace_sub v MASK cs) v" using 1 Cons by simp
      moreover have "\<not> starts_with (c # replace_sub v MASK cs) v"
      proof
        assume "starts_with (c # replace_sub v MASK cs) v"
        then obtain v' where v: "v = c # v'" "starts_with (replace_sub v MASK cs) v'"
          using b(2) unfolding starts_with_Cons by blast
        have "CHR ''['' \<notin> set v'" using b(1) v(1) by (metis list.set_intros(2))
        then have "starts_with cs v'" using v(2) by (rule replace_prefix)
        then have "starts_with s v" unfolding Cons starts_with_Cons using v(1) by blast
        then show False using False by blast
      qed
      ultimately show ?thesis using False Cons by (simp add: contains_Cons)
    qed
  qed
qed

lemma mask_values_keeps_out:
  "maskable v \<Longrightarrow> contains_sub (mask_values t vs) v \<Longrightarrow> contains_sub t v"
  by (induction t vs rule: mask_values.induct) (auto dest: replace_keeps_out split: if_splits)

lemma mask_values_removes:
  "maskable v \<Longrightarrow> v \<in> set vs \<Longrightarrow> \<not> contains_sub (mask_values t vs) v"
proof (induction t vs rule: mask_values.induct)
  case (2 t w ws)
  show ?case
  proof (cases "v \<in> set ws")
    case True
    then show ?thesis using 2 by simp
  next
    case False
    then have "w = v" using 2 by simp
    then show ?thesis
      using mask_values_keeps_out [OF 2(2)] replace_removes [OF 2(2)] by auto
  qed
qed simp

lemma set_insert_value [simp]: "set (insert_value v vs) = insert v (set vs)"
  by (induction vs) auto

lemma set_sort_values [simp]: "set (sort_values vs) = set vs"
proof -
  have "set (foldr insert_value vs []) = set vs" by (induction vs) auto
  then show ?thesis by (simp add: sort_values_def)
qed

lemma push_secrets:
  "set (foldl (push_secret letter) vs fs) = set vs
     \<union> {v. \<exists>i n s. (i, n, v, s) \<in> set fs \<and> (s = 1 \<or> is_setup_key_field letter n v)
            \<and> MIN_MASK_BYTES \<le> length v}"
proof (induction fs arbitrary: vs)
  case (Cons f fs)
  obtain i n v s where "f = (i, n, v, s)" by (metis prod.exhaust)
  then show ?case using Cons by (auto simp: push_secret_def)
qed simp

lemma map_results_Inr:
  "map_results f xs = Inr ys \<longleftrightarrow> list_all2 (\<lambda>x y. f x = Inr y) xs ys"
proof (induction xs arbitrary: ys)
  case (Cons x xs)
  then show ?case by (auto simp: and_then_eq_Inr list_all2_Cons1)
qed auto

lemma secret_values_in:
  assumes "secret_values letter items db = Inr values" and "item \<in> set items"
    and "(int item, name, v, secret) \<in> set (ld_fields db)"
    and "secret = 1 \<or> is_setup_key_field letter name v" and "MIN_MASK_BYTES \<le> length v"
  shows "v \<in> set values"
proof -
  obtain ks where ks: "list_all2 (\<lambda>x y. to_sql_id x = Inr y) items ks"
    and v: "values = sort_values (foldl (push_secret letter) []
        (concat (map (\<lambda>i. filter (\<lambda>f. fst f = i) (ld_fields db)) ks)))"
    using assms(1) by (auto simp: secret_values_def and_then_eq_Inr map_results_Inr)
  have "int item \<in> set ks"
    using ks assms(2) by (auto simp: list_all2_conv_all_nth in_set_conv_nth to_sql_id_Inr)
  then show ?thesis
    using assms(3-5) unfolding v set_sort_values push_secrets by force
qed

lemma keep_last_snoc:
  assumes "0 < n"
  shows "\<exists>ys. keep_last n p (xs @ [x]) = ys @ [x] \<and> set ys \<subseteq> set xs"
proof -
  let ?d = "length (filter p (xs @ [x])) - n"
  show ?thesis
  proof (cases "?d = 0")
    case False
    then have "?d < length (filter p (xs @ [x]))" using assms by linarith
    then show ?thesis
      using drop_matching_snoc [of ?d p xs x] set_drop_matching [of ?d p xs]
      by (simp add: keep_last_def)
  qed (simp add: keep_last_def)
qed

lemma prune_snoc:
  "\<exists>ys. prune_decisions MAX_DECISION_ROWS MAX_KEPT_DENIALS (xs @ [x]) = ys @ [x] \<and> set ys \<subseteq> set xs"
proof -
  obtain ys where ys: "keep_last MAX_DECISION_ROWS (\<lambda>r. \<not> is_owner_denial r) (xs @ [x]) = ys @ [x]"
      "set ys \<subseteq> set xs"
    using keep_last_snoc [of MAX_DECISION_ROWS "\<lambda>r. \<not> is_owner_denial r" xs x]
    by (auto simp: MAX_DECISION_ROWS_def)
  then show ?thesis
    using keep_last_snoc [of MAX_KEPT_DENIALS is_owner_denial ys x]
    by (auto simp: prune_decisions_def MAX_KEPT_DENIALS_def)
qed

lemma record_decision_Inr:
  assumes "record_decision_with letter e m db = Inr (i, db')"
  obtains "values" tm agent ys where "secret_values letter (le_items e) db = Inr values"
    "to_sql_time (le_at e) = Inr tm" "to_sql_id (le_agent e) = Inr agent"
    "i = ld_last_id db + 1" "set ys \<subseteq> set (ld_rows db)"
    "db' = db\<lparr>ld_rows := ys @ [row_of (\<lambda>t max. cut_at (mask_values t values) max) e m (int i) tm agent],
       ld_last_id := i\<rparr>"
proof -
  obtain "values" tm agent where v: "secret_values letter (le_items e) db = Inr values"
    "to_sql_time (le_at e) = Inr tm" "to_sql_id (le_agent e) = Inr agent"
    using assms by (auto simp: record_decision_with_def and_then_eq_Inr)
  let ?x = "row_of (\<lambda>t max. cut_at (mask_values t values) max) e m (int i) tm agent"
  let ?rows = "if i mod PRUNE_EVERY = 0
    then prune_decisions MAX_DECISION_ROWS MAX_KEPT_DENIALS (ld_rows db @ [?x])
    else ld_rows db @ [?x]"
  have "(ld_last_id db + 1, db\<lparr>ld_rows := (if (ld_last_id db + 1) mod PRUNE_EVERY = 0
        then prune_decisions MAX_DECISION_ROWS MAX_KEPT_DENIALS (ld_rows db @
          [row_of (\<lambda>t max. cut_at (mask_values t values) max) e m (int (ld_last_id db + 1)) tm agent])
        else ld_rows db @
          [row_of (\<lambda>t max. cut_at (mask_values t values) max) e m (int (ld_last_id db + 1)) tm agent]),
        ld_last_id := ld_last_id db + 1\<rparr>) = (i, db')"
    using assms unfolding record_decision_with_def v and_then_simps Let_def by (rule sum.inject(2) [THEN iffD1])
  then have i: "i = ld_last_id db + 1" and db': "db' = db\<lparr>ld_rows := ?rows, ld_last_id := i\<rparr>"
    by auto
  obtain ys where ys: "set ys \<subseteq> set (ld_rows db)" "?rows = ys @ [?x]"
    using prune_snoc [of "ld_rows db" ?x] by (cases "i mod PRUNE_EVERY = 0") auto
  show thesis by (rule that [OF v i ys(1)]) (simp only: db' ys(2))
qed

text \<open>The columns that the vault masks.\<close>

definition masked_texts :: "log_row \<Rightarrow> string list" where
  "masked_texts r = [lr_user_request r, lr_purpose r, lr_pattern r, lr_note r, lr_instruction r]
     @ lr_command r"

lemma mask_command_in:
  "a \<in> set (mask_command f used as) \<Longrightarrow> a = ''[truncated]'' \<or> a \<in> f ` set as"
  by (induction f used as rule: mask_command.induct) (auto simp: Let_def split: if_splits)

text \<open>C21: The row that the vault stores for a decision shows no secret value of the items of
  the request, and no old plain setup key: not in the user request, the purpose, the
  pattern, the note, the instruction or an argument of the command. The values are those of
  at least four bytes that the marks of the mask do not spell: without a square bracket, and no part
  of the words apassy:secret and truncated that the marks contain. A value such as "secret" is
  masked too, but the mark itself then has these letters.\<close>

theorem log_row_hides_secrets:
  assumes "record_decision_with letter e m db = Inr (i, db')"
    and "item \<in> set (le_items e)" and "(int item, name, v, secret) \<in> set (ld_fields db)"
    and "secret = 1 \<or> is_setup_key_field letter name v"
    and "4 \<le> length v" and "maskable v"
  shows "lr_id (last (ld_rows db')) = int i
    \<and> (\<forall>t\<in>set (masked_texts (last (ld_rows db'))). \<not> contains_sub t v)"
  using assms(1)
proof (rule record_decision_Inr)
  fix "values" tm agent ys
  assume sv: "secret_values letter (le_items e) db = Inr values"
    and db': "db' = db\<lparr>ld_rows := ys @
      [row_of (\<lambda>t max. cut_at (mask_values t values) max) e m (int i) tm agent], ld_last_id := i\<rparr>"
  have "v \<in> set values"
    using secret_values_in [OF sv assms(2,3,4)] assms(5) by (simp add: MIN_MASK_BYTES_def)
  then have out: "\<not> contains_sub (cut_at (mask_values t values) max) v" for t max
    using mask_values_removes [OF assms(6)] contains_cut by blast
  have "\<not> contains_sub a v"
    if "a \<in> set (mask_command (\<lambda>a. cut_at (mask_values a values) MAX_COMMAND_BYTES) 0 (le_command e))"
    for a
    using mask_command_in [OF that] out truncated_shows_no_value [OF assms(6)] by auto
  then show ?thesis
    by (auto simp: db' row_of_def masked_texts_def out)
qed

section \<open>The stored decision reads back\<close>

definition log_ok :: "log_db \<Rightarrow> bool" where
  "log_ok db \<longleftrightarrow> (\<forall>r\<in>set (ld_rows db). lr_id r \<le> int (ld_last_id db))"

text \<open>What an entry says after its way through the log.\<close>

definition logged_form :: "string list \<Rightarrow> decision_entry \<Rightarrow> decision_entry" where
  "logged_form values e =
     (let hide = (\<lambda>t max. cut_at (mask_values t values) max)
      in e\<lparr>le_agent_name := cut_at (le_agent_name e) MAX_TEXT_BYTES,
           le_project_dir := cut_at (le_project_dir e) MAX_TEXT_BYTES,
           le_cwd_rel := cut_at (le_cwd_rel e) MAX_TEXT_BYTES,
           le_user_request := hide (le_user_request e) MAX_USER_REQUEST_BYTES,
           le_command := mask_command (\<lambda>a. hide a MAX_COMMAND_BYTES) 0 (le_command e),
           le_purpose := hide (le_purpose e) MAX_PURPOSE_BYTES,
           le_model_facts := fact_map (le_model_facts e),
           le_pattern := hide (le_pattern e) MAX_COMMAND_BYTES,
           le_asked := le_asked e \<and> le_decided_by e \<noteq> DAnswer,
           le_policy := cut_at (le_policy e) MAX_TEXT_BYTES,
           le_note := hide (le_note e) MAX_NOTE_BYTES,
           le_instruction := hide (le_instruction e) MAX_TEXT_BYTES\<rparr>)"

lemma declaration_roundtrip: "declaration_from_json (declaration_value d) = Inr d"
proof (cases d)
  case None
  then show ?thesis by (simp add: declaration_value_def declaration_from_json_def)
next
  case (Some x)
  have "jget ''project'' (declaration_json x) = Some (JStr (d_project x))"
    "jget ''environment'' (declaration_json x) = Some (JStr (environment_str (d_environment x)))"
    "jget ''risk'' (declaration_json x) = Some (JStr (risk_level_str (d_risk x)))"
    "jget ''scope'' (declaration_json x) = Some (JStr (scope_str (d_scope x)))"
    "jget ''reversibility'' (declaration_json x) = Some (JStr (reversibility_str (d_reversibility x)))"
    by (simp_all add: declaration_json_def)
  then show ?thesis
    by (simp add: Some declaration_value_def declaration_from_json_def json_text_def storage_def
        declaration_json_def)
qed

lemma declarations_roundtrip: "map_results declaration_from_json (map declaration_value ds) = Inr ds"
  by (induction ds) (simp_all add: declaration_roundtrip)

lemma to_sql_time_back: "to_sql_time t = Inr k \<Longrightarrow> from_sql_time k = Inr t"
  by (auto simp: to_sql_time_def from_sql_time_def split: if_splits)

lemma decision_from_row:
  assumes "to_sql_time (le_at e) = Inr tm" and "to_sql_id (le_agent e) = Inr agent"
    and "le_decided_by e = DOwner \<longrightarrow> le_asked e" and "0 < i"
  shows "decision_from (row_of (\<lambda>t max. cut_at (mask_values t values) max) e m (int i) tm agent)
    = Inr \<lparr>dr_id = i, dr_entry = logged_form values e\<rparr>"
  using to_sql_time_back [OF assms(1)] to_public_id_to_sql_id [OF assms(2)]
    decider_roundtrip [OF assms(3)] assms(4)
  by (simp add: decision_from_def row_of_def declarations_roundtrip logged_form_def to_public_id_def
      Let_def)

text \<open>A decision that the vault stored is read back as it was, with its texts masked and cut
  and the owner's question taken from a remembered answer, and with the request kind and the
  answer time that only an answer of the owner keeps.\<close>

theorem stored_decision_reads_back:
  assumes "log_ok db" and "ld_last_id db < i64_max"
    and "le_decided_by e = DOwner \<longrightarrow> le_asked e"
    and "record_decision_with letter e m db = Inr (i, db')"
    and "secret_values letter (le_items e) db = Inr values"
  shows "decision_of i db' = Inr (Some \<lparr>dr_id = i, dr_entry = logged_form values e\<rparr>)
    \<and> decision_meta_of i db' = Inr (Some \<lparr>dm_request = dm_request m,
        dm_wait_ms = (if le_asked e \<and> le_decided_by e = DOwner
                      then map_option (\<lambda>ms. min ms i64_max) (dm_wait_ms m) else None)\<rparr>)
    \<and> log_ok db'"
  using assms(4)
proof (rule record_decision_Inr)
  fix vals tm agent ys
  assume sv: "secret_values letter (le_items e) db = Inr vals"
    and t: "to_sql_time (le_at e) = Inr tm" "to_sql_id (le_agent e) = Inr agent"
    and i: "i = ld_last_id db + 1" and ys: "set ys \<subseteq> set (ld_rows db)"
    and db': "db' = db\<lparr>ld_rows := ys @
      [row_of (\<lambda>t max. cut_at (mask_values t vals) max) e m (int i) tm agent], ld_last_id := i\<rparr>"
      (is "_ = db\<lparr>ld_rows := ys @ [?row], ld_last_id := i\<rparr>")
  have v: "vals = values" using sv assms(5) by simp
  have un: "log_conn db' = Inr ()"
    using assms(5) by (auto simp: secret_values_def and_then_eq_Inr log_conn_def db')
  have id: "to_sql_id i = Inr (int i)" using i assms(2) by (simp add: to_sql_id_def)
  have old: "lr_id r \<noteq> int i" if "r \<in> set ys" for r
    using that ys assms(1) i by (fastforce simp: log_ok_def)
  have rid: "lr_id ?row = int i" by (simp add: row_of_def)
  have "filter (\<lambda>r. lr_id r = int i) (ld_rows db') = [?row]"
    using old rid by (simp add: db' filter_empty_conv)
  moreover have "List.find (\<lambda>r. lr_id r = int i) (ld_rows db') = Some ?row"
    using old rid by (auto simp: db' find_Some_iff nth_append intro!: exI [of _ "length ys"])
  moreover have "decision_from ?row = Inr \<lparr>dr_id = i, dr_entry = logged_form values e\<rparr>"
    unfolding v using i by (intro decision_from_row [OF t assms(3)]) simp
  moreover have "ok_or Storage (request_kind_parse (lr_request ?row)) = Inr (dm_request m)"
    unfolding row_of_def log_row.simps by (rule request_kind_name.parse_to_text)
  moreover have "lr_wait_ms ?row = wait_column e m" by (simp add: row_of_def)
  moreover have "log_ok db'"
    using assms(1) ys i rid by (fastforce simp: log_ok_def db')
  ultimately show ?thesis
    by (simp add: decision_of_def decision_meta_of_def query_decisions_def un id wait_column_def
        split: option.splits)
qed

section \<open>An example\<close>

definition demo_declared :: cred_declaration where
  "demo_declared = \<lparr>d_project = ''shop'', d_environment = Staging, d_risk = Low,
     d_scope = ReadOnly, d_reversibility = Reversible\<rparr>"

definition demo_entry :: decision_entry where
  "demo_entry = \<lparr>le_at = 100, le_agent = 1, le_agent_name = ''Bot'', le_project_dir = ''/p'',
     le_cwd_rel = ''.'', le_items = [4], le_user_request = ''Send tok-12345 now'',
     le_source = SourceAgent, le_command = [''curl'', ''-H'', ''X: tok-12345''],
     le_purpose = ''test'', le_env_names = [''KEY''], le_declarations = [Some demo_declared, None],
     le_rule_flags = [], le_known_safe = False, le_model_facts = [(''writes'', 1 / 4)],
     le_pattern = [], le_grant_asks = False, le_asked = True, le_decision = LogAllow,
     le_decided_by = DOwner, le_remembered = False, le_policy = ''p'', le_note = [],
     le_instruction = []\<rparr>"

definition demo_meta :: decision_meta where
  "demo_meta = \<lparr>dm_request = RunRequest, dm_wait_ms = Some 2500\<rparr>"

definition demo_log :: log_db where
  "demo_log = \<lparr>ld_unlocked = True, ld_fields = [(4, ''token'', ''tok-12345'', 1)],
     ld_rows = [], ld_last_id = 0\<rparr>"

definition no_letter :: "string \<Rightarrow> bool" where
  "no_letter c \<longleftrightarrow> False"

definition demo_logged :: log_db where
  "demo_logged = (case record_decision_with no_letter demo_entry demo_meta demo_log of
     Inr (i, db) \<Rightarrow> db | Inl e \<Rightarrow> demo_log)"

lemma demo_recorded:
  "record_decision_with no_letter demo_entry demo_meta demo_log = Inr (1, demo_logged)"
  "secret_values no_letter (le_items demo_entry) demo_log = Inr [''tok-12345'']"
  "maskable ''tok-12345''"
  "lr_command (last (ld_rows demo_logged)) = [''curl'', ''-H'', ''X: [apassy:secret]'']"
  by code_simp+

theorem log_row_hides_secrets_witness:
  "list_all (\<lambda>t. \<not> contains_sub t ''tok-12345'') (masked_texts (last (ld_rows demo_logged)))"
  using log_row_hides_secrets [OF demo_recorded(1), of 4 "''token''" "''tok-12345''" 1]
    demo_recorded(3)
  by (simp add: demo_entry_def demo_log_def list_all_iff)

theorem stored_decision_reads_back_witness:
  "decision_of 1 demo_logged
     = Inr (Some \<lparr>dr_id = 1, dr_entry = logged_form [''tok-12345''] demo_entry\<rparr>)
   \<and> decision_meta_of 1 demo_logged = Inr (Some demo_meta)"
proof -
  have "log_ok demo_log" "ld_last_id demo_log < i64_max"
    "le_decided_by demo_entry = DOwner \<longrightarrow> le_asked demo_entry"
    by (simp_all add: log_ok_def demo_log_def i64_max_def demo_entry_def)
  from stored_decision_reads_back [OF this demo_recorded(1,2)] show ?thesis
    by (simp add: demo_entry_def demo_meta_def i64_max_def)
qed

end
