(* ===== verification/SyncClock.thy ===== *)
theory SyncClock
  imports Prelude "HOL-Library.AList" "HOL-Library.Multiset" "HOL-Library.Code_Target_Nat"
begin

text \<open>
  Version vectors of the record sync (src/src/vault/merge.rs): a clock counts the changes of
  each device, \<open>compare_clocks\<close> orders two of them and \<open>joined\<close> has every change of both.
  A clock is the list of its entries in the order of the devices, as a \<open>BTreeMap\<close> holds
  them. The locale is what the merge relies on of a join.
\<close>

section \<open>The contract of a join\<close>

locale join_view =
  fixes ok :: "'a \<Rightarrow> bool"
    and join :: "'a \<Rightarrow> 'a \<Rightarrow> 'a"
    and view :: "'a \<Rightarrow> 'v"
    and jview :: "'v \<Rightarrow> 'v \<Rightarrow> 'v"
  assumes ok_join: "ok a \<Longrightarrow> ok (join a b)"
    and view_join: "ok a \<Longrightarrow> ok b \<Longrightarrow> view (join a b) = jview (view a) (view b)"
    and jview_idem: "jview x x = x"
    and jview_commute: "jview x y = jview y x"
    and jview_assoc: "jview (jview x y) z = jview x (jview y z)"
begin

lemma join_commute: "ok a \<Longrightarrow> ok b \<Longrightarrow> view (join a b) = view (join b a)"
  by (simp add: view_join jview_commute)

lemma join_absorb: "ok a \<Longrightarrow> ok b \<Longrightarrow> view (join (join a b) b) = view (join a b)"
  by (simp add: view_join ok_join jview_assoc jview_idem)

lemma jview_left_commute: "jview x (jview y z) = jview y (jview x z)"
  by (metis jview_assoc jview_commute)

definition join_all :: "'a list \<Rightarrow> 'a \<Rightarrow> 'a" where
  "join_all xs a = fold (\<lambda>x acc. join acc x) xs a"

lemma view_join_all:
  "ok a \<Longrightarrow> list_all ok xs \<Longrightarrow> view (join_all xs a) = fold jview (map view xs) (view a)"
  by (induction xs arbitrary: a) (simp_all add: join_all_def view_join ok_join jview_commute)

lemma fold_jview: "fold jview zs (jview u b) = jview u (fold jview zs b)"
  by (induction zs arbitrary: b) (simp_all, metis jview_left_commute)

lemma fold_jview_mset: "mset xs = mset ys \<Longrightarrow> fold jview xs a = fold jview ys a"
proof -
  assume "mset xs = mset ys"
  then have "fold jview xs = fold jview ys"
    by (intro fold_multiset_equiv) (auto simp: fun_eq_iff jview_left_commute)
  then show ?thesis by simp
qed

text \<open>Copies that take the same updates in any order agree.\<close>

lemma join_all_order:
  "ok a \<Longrightarrow> list_all ok xs \<Longrightarrow> mset xs = mset ys \<Longrightarrow> view (join_all xs a) = view (join_all ys a)"
  by (metis (no_types, lifting) fold_jview_mset list.pred_set mset_map set_mset_mset view_join_all)

text \<open>An update that was taken once changes nothing.\<close>

lemma fold_absorb: "x \<in> set xs \<Longrightarrow> jview x (fold jview xs a) = fold jview xs a"
proof (induction xs arbitrary: a)
  case (Cons y ys)
  show ?case
  proof (cases "x = y")
    case True
    then show ?thesis by (simp add: fold_jview flip: jview_assoc) (simp add: jview_idem)
  next
    case False
    then show ?thesis using Cons by simp
  qed
qed simp

end

section \<open>Clocks\<close>

type_synonym clock = "(string \<times> nat) list"

fun clock_put :: "string \<Rightarrow> nat \<Rightarrow> clock \<Rightarrow> clock" where
  "clock_put d n [] = [(d, n)]"
| "clock_put d n ((e, m) # c) =
     (if d < e then (d, n) # (e, m) # c
      else if d = e then (d, n) # c
      else (e, m) # clock_put d n c)"

definition clock_count :: "clock \<Rightarrow> string \<Rightarrow> nat" where
  "clock_count c d = (case map_of c d of None \<Rightarrow> 0 | Some n \<Rightarrow> n)"

datatype clock_order = SameClock | NewerClock | OlderClock | ConcurrentClocks

definition u64_max :: nat where
  "u64_max = 18446744073709551615"

definition parse_pair :: "string \<Rightarrow> (string \<times> nat) option" where
  "parse_pair pair =
     Option.bind (split_once CHR ''='' pair) (\<lambda>(device, n).
     Option.bind (parse_number 10 u64_max n) (\<lambda>n.
       if device \<noteq> [] then Some (device, n) else None))"

definition parse_clock :: "string \<Rightarrow> clock" where
  "parse_clock text =
     fold (\<lambda>(d, n). clock_put d n) (List.map_filter parse_pair (split_on CHR '';'' text)) []"

definition clock_text :: "clock \<Rightarrow> string" where
  "clock_text c = join_with '';'' (map (\<lambda>(d, n). d @ ''='' @ show_nat n) (filter (\<lambda>(d, n). 0 < n) c))"

definition compare_clocks :: "clock \<Rightarrow> clock \<Rightarrow> clock_order" where
  "compare_clocks a b =
     (let keys = map fst a @ map fst b;
          a_more = list_ex (\<lambda>d. clock_count b d < clock_count a d) keys;
          b_more = list_ex (\<lambda>d. clock_count a d < clock_count b d) keys
      in if \<not> a_more \<and> \<not> b_more then SameClock
         else if a_more \<and> \<not> b_more then NewerClock
         else if \<not> a_more \<and> b_more then OlderClock
         else ConcurrentClocks)"

definition joined :: "clock \<Rightarrow> clock \<Rightarrow> clock" where
  "joined a b = fold (\<lambda>(d, n) out. clock_put d (max (clock_count out d) n) out) b a"

text \<open>The count of a device after one more change; the counter is a \<open>u64\<close>.\<close>

definition counted :: "string \<Rightarrow> clock \<Rightarrow> clock" where
  "counted d c = clock_put d ((clock_count c d + 1) mod 2 ^ 64) c"

section \<open>What the operations do\<close>

definition covers :: "clock \<Rightarrow> clock \<Rightarrow> bool" where
  "covers a b \<longleftrightarrow> (\<forall>d. clock_count b d \<le> clock_count a d)"

lemma map_of_clock_put: "map_of (clock_put d n c) = (map_of c)(d \<mapsto> n)"
  by (induction d n c rule: clock_put.induct) (auto simp: fun_upd_twist)

lemma count_put [simp]: "clock_count (clock_put d n c) e = (if e = d then n else clock_count c e)"
  by (simp add: clock_count_def map_of_clock_put)

lemma count_Nil [simp]: "clock_count [] d = 0"
  by (simp add: clock_count_def)

lemma count_Cons: "clock_count ((e, m) # c) d = (if d = e then m else clock_count c d)"
  by (simp add: clock_count_def)

lemma count_outside: "d \<notin> fst ` set c \<Longrightarrow> clock_count c d = 0"
  by (metis clock_count_def map_of_eq_None_iff option.simps(4))

lemma some_key:
  assumes "clock_count a d < clock_count b d"
  shows "d \<in> fst ` set a \<or> d \<in> fst ` set b"
  using assms count_outside by (metis not_less_zero)

lemma more_iff:
  "list_ex (\<lambda>d. clock_count b d < clock_count a d) (map fst a @ map fst b) \<longleftrightarrow> \<not> covers b a"
proof -
  have "list_ex (\<lambda>d. clock_count b d < clock_count a d) (map fst a @ map fst b)
      \<longleftrightarrow> (\<exists>d. clock_count b d < clock_count a d)"
    using some_key [of b _ a] by (auto simp: list_ex_iff) blast+
  then show ?thesis by (auto simp: covers_def not_le)
qed

lemma more_iff':
  "list_ex (\<lambda>d. clock_count a d < clock_count b d) (map fst a @ map fst b) \<longleftrightarrow> \<not> covers a b"
proof -
  have "list_ex (\<lambda>d. clock_count a d < clock_count b d) (map fst a @ map fst b)
      \<longleftrightarrow> (\<exists>d. clock_count a d < clock_count b d)"
    using some_key [of a _ b] by (auto simp: list_ex_iff) blast+
  then show ?thesis by (auto simp: covers_def not_le)
qed

lemma compare_clocks_spec:
  "compare_clocks a b =
     (if covers a b then (if covers b a then SameClock else NewerClock)
      else if covers b a then OlderClock else ConcurrentClocks)"
  unfolding compare_clocks_def Let_def more_iff more_iff' by auto

lemma covers_refl [simp]: "covers a a"
  by (simp add: covers_def)

lemma covers_trans: "covers a b \<Longrightarrow> covers b c \<Longrightarrow> covers a c"
  unfolding covers_def by (meson le_trans)

lemma covers_both_iff: "covers a b \<and> covers b a \<longleftrightarrow> clock_count a = clock_count b"
  by (auto simp: covers_def fun_eq_iff intro: antisym)

text \<open>Entries of a clock are distinct by device, as in a map.\<close>

definition clock_ok :: "clock \<Rightarrow> bool" where
  "clock_ok c \<longleftrightarrow> sorted_wrt (<) (map fst c)"

lemma set_clock_put: "fst ` set (clock_put d n c) = insert d (fst ` set c)"
  by (induction d n c rule: clock_put.induct) auto

lemma clock_ok_joined_count:
  assumes "clock_ok b"
  shows "clock_count (joined a b) d = max (clock_count a d) (clock_count b d)"
  using assms
proof (induction b arbitrary: a)
  case Nil
  then show ?case by (simp add: joined_def)
next
  case (Cons p b)
  obtain e m where p: "p = (e, m)" by fastforce
  have e: "clock_count b e = 0" using Cons.prems p by (auto simp: clock_ok_def intro: count_outside)
  have "joined a (p # b) = joined (clock_put e (max (clock_count a e) m) a) b"
    by (simp add: joined_def p)
  then have "clock_count (joined a (p # b)) d
      = max (clock_count (clock_put e (max (clock_count a e) m) a) d) (clock_count b d)"
    using Cons p by (simp add: clock_ok_def)
  then show ?case using e by (auto simp: p count_Cons)
qed

lemma clock_ok_put [simp]: "clock_ok c \<Longrightarrow> clock_ok (clock_put d n c)"
proof (induction d n c rule: clock_put.induct)
  case (2 d n e m c)
  have "\<forall>x\<in>set (map fst (clock_put d n c)). x = d \<or> x \<in> set (map fst c)"
    using set_clock_put by auto
  then show ?case using 2 by (force simp: clock_ok_def)
qed (simp add: clock_ok_def)

lemma clock_ok_joined [simp]: "clock_ok a \<Longrightarrow> clock_ok (joined a b)"
proof -
  have "clock_ok (fold (\<lambda>(d, n) out. clock_put d (max (clock_count out d) n) out) b c)" if "clock_ok c" for c
    using that by (induction b arbitrary: c) auto
  then show "clock_ok a \<Longrightarrow> clock_ok (joined a b)" by (simp add: joined_def)
qed

lemma clock_ok_counted [simp]: "clock_ok c \<Longrightarrow> clock_ok (counted d c)"
  by (simp add: counted_def)

lemma clock_ok_parse [simp]: "clock_ok (parse_clock t)"
proof -
  have "clock_ok (fold (\<lambda>(d, n). clock_put d n) xs c)" if "clock_ok c" for xs c
    using that by (induction xs arbitrary: c) auto
  then show ?thesis by (simp add: parse_clock_def clock_ok_def)
qed

lemma covers_joined:
  assumes "clock_ok b"
  shows "covers (joined a b) a" "covers (joined a b) b"
    "covers c (joined a b) \<longleftrightarrow> covers c a \<and> covers c b"
  by (auto simp: covers_def clock_ok_joined_count [OF assms])

text \<open>The join of clocks, seen as counts, meets the contract.\<close>

interpretation clock_join:
  join_view clock_ok joined clock_count "\<lambda>f g d. max (f d) (g d)"
proof
  fix a b assume "clock_ok a" "clock_ok b"
  then show "clock_count (joined a b) = (\<lambda>d. max (clock_count a d) (clock_count b d))"
    by (simp add: clock_ok_joined_count fun_eq_iff)
qed (auto simp: fun_eq_iff max.assoc max.commute)

end
