(* ===== verification/LegacyNames.thy ===== *)
theory LegacyNames
  imports Otp
begin

text \<open>
  The new names of fields with the reserved prefix of passkeys (\<open>legacy_field_renames\<close> and
  \<open>legacy_name\<close> of src/src/vault/passkey.rs). The search for a free name has no bound of its
  own; the lemmas show that it ends, and that the new names are free and distinct.
\<close>

section \<open>Reserved field names of an old copy\<close>

definition PASSKEY_FIELD_PREFIX :: string where
  "PASSKEY_FIELD_PREFIX = ''passkey_''"

definition hex_char :: "nat \<Rightarrow> char" where
  "hex_char n = (if n < 10 then char_of (48 + n) else char_of (87 + n))"

definition to_hex :: "string \<Rightarrow> string" where
  "to_hex s = concat (map (\<lambda>c. [hex_char (byte c div 16), hex_char (byte c mod 16)]) s)"

definition label_candidate :: "string \<Rightarrow> nat \<Rightarrow> string" where
  "label_candidate name n =
     ''x_'' @ to_hex (if n = 1 then name else name @ '' ('' @ show_nat n @ '')'')"

text \<open>\<open>(1..).find\<close>: the search for a number has no bound of its own.\<close>

partial_function (option) first_free :: "nat \<Rightarrow> string list \<Rightarrow> string option" where
  "first_free n taken =
     (if ''legacy_field_'' @ show_nat n \<in> set taken then first_free (n + 1) taken
      else Some (''legacy_field_'' @ show_nat n))"

declare first_free.simps [code]

definition legacy_name :: "string \<Rightarrow> string list \<Rightarrow> string option" where
  "legacy_name name taken =
     (case List.find (\<lambda>n. length (label_candidate name n) \<le> 64 \<and> label_candidate name n \<notin> set taken)
             [1..<10] of
        Some n \<Rightarrow> Some (label_candidate name n)
      | None \<Rightarrow> first_free 1 taken)"

fun plan_renames :: "string list \<Rightarrow> string list \<Rightarrow> (string \<times> string) list option" where
  "plan_renames [] taken = Some []"
| "plan_renames (name # names) taken =
     (if starts_with name PASSKEY_FIELD_PREFIX
      then Option.bind (legacy_name name taken) (\<lambda>new.
             map_option ((#) (name, new)) (plan_renames names (new # taken)))
      else plan_renames names taken)"

definition legacy_field_renames :: "string list \<Rightarrow> (string \<times> string) list option" where
  "legacy_field_renames names = plan_renames names names"

section \<open>Numbers as text\<close>

lemma digit_inj: "digit m = digit n \<longleftrightarrow> m mod 10 = n mod 10"
proof
  assume "digit m = digit n"
  then have "of_char (digit m) = (of_char (digit n) :: nat)" by simp
  then show "m mod 10 = n mod 10" by (simp add: digit_def)
qed (simp add: digit_def)

lemma show_nat_step: "show_nat n = (if n < 10 then [] else show_nat (n div 10)) @ [digit n]"
  by (subst show_nat.simps) simp

lemma show_nat_inj: "show_nat m = show_nat n \<longleftrightarrow> m = n"
proof
  show "show_nat m = show_nat n \<Longrightarrow> m = n"
  proof (induction m arbitrary: n rule: less_induct)
    case (less m)
    have d: "m mod 10 = n mod 10"
      and r: "(if m < 10 then [] else show_nat (m div 10)) = (if n < 10 then [] else show_nat (n div 10))"
      using less.prems show_nat_step [of m] show_nat_step [of n] by (simp_all add: digit_inj)
    have "m div 10 = n div 10"
    proof (cases "m < 10")
      case True
      then have "n < 10" using r show_nat_ne by (metis (full_types))
      then show ?thesis using True by simp
    next
      case False
      then have "\<not> n < 10" using r show_nat_ne by (metis (full_types))
      then show ?thesis using less.IH [of "m div 10" "n div 10"] False r by simp
    qed
    then show ?case using d by (metis div_mult_mod_eq)
  qed
qed simp

lemma length_show_nat: "n < 10 ^ Suc k \<Longrightarrow> length (show_nat n) \<le> Suc k"
proof (induction k arbitrary: n)
  case 0
  then show ?case by (subst show_nat_step) simp
next
  case (Suc k)
  have "n div 10 < 10 ^ Suc k" using Suc.prems by (simp add: less_mult_imp_div_less)
  from Suc.IH [OF this] show ?case by (subst show_nat_step) simp
qed

section \<open>The search for a free name ends\<close>

lemma legacy_field_inj: "''legacy_field_'' @ show_nat m = ''legacy_field_'' @ show_nat n \<longleftrightarrow> m = n"
  by (simp add: show_nat_inj)

text \<open>Among the first numbers, one more than the taken names, one is free.\<close>

lemma some_number_free: "\<exists>i\<le>length taken. ''legacy_field_'' @ show_nat (n + i) \<notin> set taken"
proof (rule ccontr)
  let ?f = "\<lambda>i. ''legacy_field_'' @ show_nat (n + i)"
  assume "\<not> ?thesis"
  then have "?f ` {..length taken} \<subseteq> set taken" by auto
  then have "card (?f ` {..length taken}) \<le> length taken"
    by (meson List.finite_set card_length card_mono le_trans)
  moreover have "inj_on ?f {..length taken}" by (rule inj_onI) (simp add: show_nat_inj)
  ultimately show False by (simp add: card_image)
qed

lemma first_free_reaches:
  "''legacy_field_'' @ show_nat (n + i) \<notin> set taken
    \<Longrightarrow> \<exists>j\<le>i. first_free n taken = Some (''legacy_field_'' @ show_nat (n + j))
        \<and> ''legacy_field_'' @ show_nat (n + j) \<notin> set taken"
proof (induction i arbitrary: n)
  case 0
  then show ?case by (subst first_free.simps) simp
next
  case (Suc i)
  show ?case
  proof (cases "''legacy_field_'' @ show_nat n \<in> set taken")
    case True
    from Suc.IH [of "n + 1"] Suc.prems obtain j where "j \<le> i"
      "first_free (n + 1) taken = Some (''legacy_field_'' @ show_nat (n + 1 + j))"
      "''legacy_field_'' @ show_nat (n + 1 + j) \<notin> set taken"
      by auto
    then show ?thesis
      using True by (intro exI [of _ "Suc j"]) (simp add: first_free.simps [of n])
  next
    case False
    then show ?thesis by (intro exI [of _ 0]) (simp add: first_free.simps [of n])
  qed
qed

lemma first_free_ends:
  obtains j where "j \<le> length taken"
    "first_free n taken = Some (''legacy_field_'' @ show_nat (n + j))"
    "''legacy_field_'' @ show_nat (n + j) \<notin> set taken"
proof -
  obtain i where i: "i \<le> length taken" "''legacy_field_'' @ show_nat (n + i) \<notin> set taken"
    using some_number_free by blast
  from first_free_reaches [OF i(2)] show ?thesis using i(1) that by (meson le_trans)
qed

text \<open>A name as the renaming makes them: not reserved, at most 64 bytes.\<close>

definition new_label :: "string \<Rightarrow> bool" where
  "new_label s \<longleftrightarrow> \<not> starts_with s PASSKEY_FIELD_PREFIX \<and> length s \<le> 64"

lemma legacy_name_ends:
  assumes "length taken < 10 ^ 51 - 1"
  obtains new where "legacy_name name taken = Some new" "new \<notin> set taken" "new_label new"
proof (cases "List.find (\<lambda>n. length (label_candidate name n) \<le> 64
      \<and> label_candidate name n \<notin> set taken) [1..<10]")
  case (Some n)
  then have c: "label_candidate name n \<notin> set taken" "length (label_candidate name n) \<le> 64"
    by (auto simp only: find_Some_iff)
  have "legacy_name name taken = Some (label_candidate name n)"
    unfolding legacy_name_def Some by simp
  then show ?thesis
    using that c
    by (simp add: new_label_def label_candidate_def starts_with_def PASSKEY_FIELD_PREFIX_def)
next
  case None
  obtain j where j: "j \<le> length taken" "first_free 1 taken = Some (''legacy_field_'' @ show_nat (1 + j))"
    "''legacy_field_'' @ show_nat (1 + j) \<notin> set taken"
    by (rule first_free_ends)
  have "1 + j < 10 ^ Suc 50" using assms j(1) by simp
  then have "length (show_nat (1 + j)) \<le> 51" using length_show_nat [of "1 + j" 50] by simp
  then have "new_label (''legacy_field_'' @ show_nat (1 + j))"
    by (simp add: new_label_def starts_with_def PASSKEY_FIELD_PREFIX_def)
  then show ?thesis using that j None by (simp add: legacy_name_def)
qed

lemma plan_renames_ends:
  assumes "length taken + length names < 10 ^ 51 - 1"
  shows "\<exists>rs. plan_renames names taken = Some rs
    \<and> map fst rs = filter (\<lambda>n. starts_with n PASSKEY_FIELD_PREFIX) names
    \<and> distinct (map snd rs) \<and> set (map snd rs) \<inter> set taken = {} \<and> list_all new_label (map snd rs)"
  using assms
proof (induction names arbitrary: taken)
  case (Cons name names)
  show ?case
  proof (cases "starts_with name PASSKEY_FIELD_PREFIX")
    case True
    have "length taken < 10 ^ 51 - 1" using Cons.prems by simp
    then obtain new where new: "legacy_name name taken = Some new" "new \<notin> set taken" "new_label new"
      by (rule legacy_name_ends)
    from Cons.IH [of "new # taken"] Cons.prems obtain rs where
      "plan_renames names (new # taken) = Some rs"
      "map fst rs = filter (\<lambda>n. starts_with n PASSKEY_FIELD_PREFIX) names"
      "distinct (map snd rs)" "set (map snd rs) \<inter> set (new # taken) = {}"
      "list_all new_label (map snd rs)"
      by auto
    then show ?thesis using new True by auto
  next
    case False
    then show ?thesis using Cons.IH [of taken] Cons.prems by simp
  qed
qed simp

text \<open>C25: The renaming of the reserved fields of an old copy ends for every list of field
  names, and gives each reserved name a new one: distinct names that no field of the
  credential has, without the reserved prefix, and of at most 64 bytes.\<close>

theorem legacy_renames_end:
  assumes "length names < 10 ^ 50"
  shows "\<exists>rs. legacy_field_renames names = Some rs
    \<and> map fst rs = filter (\<lambda>n. starts_with n PASSKEY_FIELD_PREFIX) names
    \<and> distinct (map snd rs) \<and> set (map snd rs) \<inter> set names = {}
    \<and> list_all (\<lambda>new. \<not> starts_with new PASSKEY_FIELD_PREFIX \<and> length new \<le> 64) (map snd rs)"
  using plan_renames_ends [of names names] assms
  by (simp add: legacy_field_renames_def new_label_def [abs_def])

theorem legacy_renames_end_witness:
  "\<exists>rs. legacy_field_renames [''passkey_id'', ''user'', ''passkey_id''] = Some rs
    \<and> map fst rs = filter (\<lambda>n. starts_with n PASSKEY_FIELD_PREFIX) [''passkey_id'', ''user'', ''passkey_id'']
    \<and> distinct (map snd rs) \<and> set (map snd rs) \<inter> set [''passkey_id'', ''user'', ''passkey_id''] = {}
    \<and> list_all (\<lambda>new. \<not> starts_with new PASSKEY_FIELD_PREFIX \<and> length new \<le> 64) (map snd rs)"
  by (rule legacy_renames_end) simp

end
