(* ===== verification/SyncMerge.thy ===== *)
theory SyncMerge
  imports SyncClock LegacyNames Vault
begin

text \<open>
  The merge of another copy of the vault (src/src/vault/merge.rs): the synced credentials
  with their versions and clocks, tombstones, stamps, the tables whose rows sync one by
  one, the history events, and the renaming of the reserved fields of an old copy
  (src/src/vault/passkey.rs). A vault is its synced rows and the local rows that the merge
  changes, keyed by the UUID of the credential. A clock is stored as its text; the state
  holds what \<open>parse_clock\<close> reads from it. SHA-256 comes from a library and is an argument:
  the hexadecimal text of the digest of a byte string. The checks of the attached file
  (integrity, columns, digest) come before this model starts.
\<close>

section \<open>Schemas\<close>

definition PASSKEY_SCHEMA_VERSION :: int where
  "PASSKEY_SCHEMA_VERSION = 17"

definition FOLDER_SCHEMA_VERSION :: int where
  "FOLDER_SCHEMA_VERSION = 18"

definition TRUSTED_DEVICE_SCHEMA_VERSION :: int where
  "TRUSTED_DEVICE_SCHEMA_VERSION = 19"

definition SHORT_LIVED_SCHEMA_VERSION :: int where
  "SHORT_LIVED_SCHEMA_VERSION = 32"

definition is_mergeable_schema :: "int \<Rightarrow> bool" where
  "is_mergeable_schema v \<longleftrightarrow> (16 \<le> v \<and> v \<le> 28) \<or> v \<in> {29, 32, 34}"

section \<open>Records\<close>

record short_lived_row =
  sl_kind :: string
  sl_settings :: string
  sl_enabled :: int
  sl_created :: int
  sl_updated :: int

record member_key_row =
  mk_source :: string
  mk_team :: string
  mk_member :: int
  mk_manager :: string
  mk_remote :: string
  mk_created :: int

record mrec =
  mr_uuid :: string
  mr_updated_at :: int
  mr_updated_by :: string
  mr_clock :: clock
  mr_title :: string
  mr_kind :: string
  mr_notes :: string
  mr_tags :: "string list"
  mr_fields :: "(string \<times> string \<times> int) list"
  mr_archived_at :: "int option"
  mr_declaration :: "string list option"
  mr_env :: "(string \<times> string \<times> string option) option"
  mr_destination :: "(string \<times> string) option"
  mr_folder :: "string option"
  mr_always_ask :: bool
  mr_sources :: "string list option"
  mr_shares :: "string list"
  mr_home :: "(string \<times> string) option"
  mr_short_lived :: "short_lived_row option"
  mr_member_key :: "member_key_row option"

type_synonym version = "int \<times> string"

definition version_of :: "mrec \<Rightarrow> version" where
  "version_of r = (mr_updated_at r, mr_updated_by r)"

text \<open>The order of tuples: the time, then the device.\<close>

definition version_less :: "version \<Rightarrow> version \<Rightarrow> bool" where
  "version_less a b \<longleftrightarrow> fst a < fst b \<or> (fst a = fst b \<and> snd a < snd b)"

definition later_version :: "version \<Rightarrow> version \<Rightarrow> version" where
  "later_version a b = (if version_less b a then a else b)"

text \<open>The texts that the content hash takes, each with its length before it.\<close>

definition opt_texts :: "string \<Rightarrow> string list option \<Rightarrow> string list" where
  "opt_texts tag x = (case x of None \<Rightarrow> [''-''] | Some ts \<Rightarrow> tag # ts)"

definition flag_text :: "bool \<Rightarrow> string" where
  "flag_text b = (if b then ''1'' else ''0'')"

definition texts_v18 :: "mrec \<Rightarrow> string list" where
  "texts_v18 r =
     (if mr_folder r \<noteq> None \<or> mr_always_ask r \<or> mr_sources r \<noteq> None \<or> mr_shares r \<noteq> []
      then [''v18''] @ opt_texts ''f'' (map_option (\<lambda>f. [f]) (mr_folder r))
        @ [flag_text (mr_always_ask r)] @ opt_texts ''s'' (mr_sources r)
        @ [show_nat (length (mr_shares r))] @ mr_shares r
      else [])"

definition texts_v32 :: "mrec \<Rightarrow> string list" where
  "texts_v32 r =
     (if mr_short_lived r \<noteq> None \<or> mr_member_key r \<noteq> None
      then [''v32'']
        @ opt_texts ''l'' (map_option (\<lambda>s. [sl_kind s, sl_settings s, show_int (sl_enabled s)])
            (mr_short_lived r))
        @ opt_texts ''k'' (map_option (\<lambda>k. [mk_source k, mk_team k, show_int (mk_member k),
            mk_manager k, mk_remote k]) (mr_member_key r))
      else [])"

definition content_texts :: "mrec \<Rightarrow> string list" where
  "content_texts r =
     [mr_title r, mr_kind r, mr_notes r, show_nat (length (mr_tags r))] @ mr_tags r
     @ [show_nat (length (mr_fields r))]
     @ concat (map (\<lambda>(name, v, secret). [name, v, show_int secret]) (mr_fields r))
     @ [flag_text (mr_archived_at r \<noteq> None)]
     @ opt_texts ''d'' (mr_declaration r)
     @ opt_texts ''e'' (map_option (\<lambda>(name, field, hosts).
          [name, field, case hosts of None \<Rightarrow> [CHR 0x00] | Some h \<Rightarrow> h]) (mr_env r))
     @ opt_texts ''c'' (map_option (\<lambda>(profile, url). [profile, url]) (mr_destination r))
     @ texts_v18 r
     @ (case mr_home r of None \<Rightarrow> [] | Some (shared, home) \<Rightarrow> [''v19'', shared, home])
     @ texts_v32 r"

definition content_hash :: "(string \<Rightarrow> string) \<Rightarrow> mrec \<Rightarrow> string" where
  "content_hash sha r =
     sha (concat (map (\<lambda>t. map char_of (to_be_bytes (length t)) @ t) (content_texts r)))"

definition derived_uuid :: "(string \<Rightarrow> string) \<Rightarrow> string list \<Rightarrow> string" where
  "derived_uuid sha parts =
     take 32 (sha (''apassy-record-v1'' @ concat (map (\<lambda>p. CHR 0x00 # p) parts)))"

section \<open>An old copy in this schema\<close>

text \<open>The record with the planned names, and its variable on the new name.\<close>

fun rename_fields ::
    "(string \<times> string) list \<Rightarrow> (string \<times> string \<times> int) list
      \<Rightarrow> (string \<times> string \<times> string option) option
      \<Rightarrow> (string \<times> string \<times> int) list \<times> (string \<times> string \<times> string option) option" where
  "rename_fields rs [] env = ([], env)"
| "rename_fields rs ((name, v, s) # fs) env =
     (if \<not> starts_with name PASSKEY_FIELD_PREFIX
      then (let (fs', env') = rename_fields rs fs env in ((name, v, s) # fs', env'))
      else (case rs of
          [] \<Rightarrow> (let (fs', env') = rename_fields [] fs env in ((name, v, s) # fs', env'))
        | (old, new) # rs' \<Rightarrow>
            (let env1 = (case env of
                   Some (n, field, hosts) \<Rightarrow> Some (n, if field = old then new else field, hosts)
                 | None \<Rightarrow> None);
                 (fs', env') = rename_fields rs' fs env1
             in ((new, v, s) # fs', env'))))"

definition converted :: "mrec \<Rightarrow> mrec option" where
  "converted r =
     map_option (\<lambda>rs. let (fs, env) = rename_fields rs (mr_fields r) (mr_env r)
        in r\<lparr>mr_fields := fs, mr_env := env\<rparr>)
       (legacy_field_renames (map fst (mr_fields r)))"

definition keep_local_v18 :: "mrec option \<Rightarrow> mrec \<Rightarrow> mrec" where
  "keep_local_v18 ours r = (case ours of
       None \<Rightarrow> r
     | Some o' \<Rightarrow> r\<lparr>mr_folder := mr_folder o', mr_always_ask := mr_always_ask o',
         mr_sources := mr_sources o', mr_shares := mr_shares o'\<rparr>)"

definition keep_local_v19 :: "mrec option \<Rightarrow> mrec \<Rightarrow> mrec" where
  "keep_local_v19 ours r = (case ours of None \<Rightarrow> r | Some o' \<Rightarrow> r\<lparr>mr_home := mr_home o'\<rparr>)"

definition keep_local_v32 :: "mrec option \<Rightarrow> mrec \<Rightarrow> mrec" where
  "keep_local_v32 ours r = (case ours of
       None \<Rightarrow> r
     | Some o' \<Rightarrow> r\<lparr>mr_short_lived := mr_short_lived o', mr_member_key := mr_member_key o'\<rparr>)"

text \<open>A record of the other copy as this schema compares it.\<close>

definition upgraded :: "int \<Rightarrow> mrec option \<Rightarrow> mrec \<Rightarrow> mrec option" where
  "upgraded schema ours r =
     map_option
       ((if schema < SHORT_LIVED_SCHEMA_VERSION then keep_local_v32 ours else id)
        \<circ> (if schema < TRUSTED_DEVICE_SCHEMA_VERSION then keep_local_v19 ours else id)
        \<circ> (if schema < FOLDER_SCHEMA_VERSION then keep_local_v18 ours else id))
       (if schema < PASSKEY_SCHEMA_VERSION then converted r else Some r)"

section \<open>The state of a copy\<close>

record tombstone =
  tb_at :: int
  tb_by :: string
  tb_clock :: clock

record lww_row =
  lw_at :: int
  lw_by :: string
  lw_deleted :: "int option"
  lw_data :: "string list"

record sync_event =
  sv_uuid :: string
  sv_item :: string
  sv_at :: int
  sv_kind :: string
  sv_detail :: string

record sync_db =
  sy_vault_id :: string
  sy_device :: string
  sy_device_name :: string
  sy_peers :: "(string \<times> string \<times> int) list"
  sy_items :: "(string \<times> mrec) list"
  sy_tombs :: "(string \<times> tombstone) list"
  sy_stamps :: "(string \<times> version) list"
  sy_events :: "sync_event list"
  sy_lww :: "string \<Rightarrow> (string \<times> lww_row) list"
  sy_scopes :: "string list"
  sy_exec_grants :: "string list"

record conflict_copy =
  cc_title :: string
  cc_copy_title :: string
  cc_device :: string

record merge_report =
  mp_inserted :: nat
  mp_updated :: nat
  mp_deleted :: nat
  mp_conflicts :: "conflict_copy list"
  mp_skipped :: "string list"
  mp_folders :: nat

definition empty_report :: merge_report where
  "empty_report = \<lparr>mp_inserted = 0, mp_updated = 0, mp_deleted = 0, mp_conflicts = [],
     mp_skipped = [], mp_folders = 0\<rparr>"

definition changed_local :: "merge_report \<Rightarrow> bool" where
  "changed_local p \<longleftrightarrow>
     0 < mp_inserted p + mp_updated p + mp_deleted p + length (mp_conflicts p) + mp_folders p"

definition item_of :: "sync_db \<Rightarrow> string \<Rightarrow> mrec option" where
  "item_of v u = map_of (sy_items v) u"

definition tomb_of :: "sync_db \<Rightarrow> string \<Rightarrow> tombstone option" where
  "tomb_of v u = map_of (sy_tombs v) u"

definition put_item :: "mrec \<Rightarrow> sync_db \<Rightarrow> sync_db" where
  "put_item r v = v\<lparr>sy_items := AList.update (mr_uuid r) r (sy_items v)\<rparr>"

definition set_stamp :: "string \<Rightarrow> version \<Rightarrow> sync_db \<Rightarrow> sync_db" where
  "set_stamp u ver v = v\<lparr>sy_stamps := AList.update u ver (sy_stamps v)\<rparr>"

text \<open>Counting the local changes since the last stamp.\<close>

definition stamp_items :: "string \<Rightarrow> (string \<times> version) list \<Rightarrow> (string \<times> mrec) list
    \<Rightarrow> (string \<times> mrec) list" where
  "stamp_items own stamps items =
     map (\<lambda>(u, r). (u, if map_of stamps u = Some (version_of r) then r
                        else r\<lparr>mr_clock := counted own (mr_clock r)\<rparr>)) items"

definition stamp_tombs :: "string \<Rightarrow> (string \<times> version) list \<Rightarrow> (string \<times> tombstone) list
    \<Rightarrow> (string \<times> tombstone) list" where
  "stamp_tombs own stamps tombs =
     map (\<lambda>(u, t). (u, if map_of stamps u = Some (tb_at t, tb_by t) then t
                        else t\<lparr>tb_clock := counted own (tb_clock t)\<rparr>)) tombs"

definition stamp :: "sync_db \<Rightarrow> sync_db" where
  "stamp v =
     (let items = stamp_items (sy_device v) (sy_stamps v) (sy_items v);
          stamps1 = map (\<lambda>(u, r). (u, version_of r)) (sy_items v)
            @ filter (\<lambda>(u, _). u \<notin> fst ` set (sy_items v)) (sy_stamps v);
          tombs = stamp_tombs (sy_device v) stamps1 (sy_tombs v);
          stamps2 = map (\<lambda>(u, t). (u, (tb_at t, tb_by t))) (sy_tombs v)
            @ filter (\<lambda>(u, _). u \<notin> fst ` set (sy_tombs v)) stamps1
      in v\<lparr>sy_items := items, sy_tombs := tombs,
           sy_stamps := filter (\<lambda>(u, _). u \<in> fst ` set items \<or> u \<in> fst ` set tombs) stamps2\<rparr>)"

section \<open>Writing a record\<close>

definition env_taken :: "string \<Rightarrow> string \<Rightarrow> sync_db \<Rightarrow> bool" where
  "env_taken u name v \<longleftrightarrow> name \<noteq> []
     \<and> list_ex (\<lambda>(u', r). u' \<noteq> u
          \<and> (case mr_env r of Some (n, _) \<Rightarrow> n = name | None \<Rightarrow> False)) (sy_items v)"

text \<open>\<open>write_children\<close>: what the rows of a record hold after it, with the report.\<close>

definition written ::
    "bool \<Rightarrow> string \<Rightarrow> mrec \<Rightarrow> sync_db \<Rightarrow> merge_report \<Rightarrow> mrec \<times> merge_report" where
  "written with_settings u r v rep =
     (if \<not> with_settings
      then (r\<lparr>mr_always_ask := False, mr_sources := None, mr_shares := [], mr_home := None,
              mr_short_lived := None, mr_member_key := None, mr_archived_at := None,
              mr_declaration := None, mr_env := None, mr_destination := None\<rparr>, rep)
      else case mr_env r of
          Some (name, field, hosts) \<Rightarrow>
            if env_taken u name v
            then (r\<lparr>mr_env := None\<rparr>, rep\<lparr>mp_skipped := mp_skipped rep @ [name]\<rparr>)
            else (r, rep)
        | None \<Rightarrow> (r, rep))"

definition insert_record :: "mrec \<Rightarrow> sync_db \<times> merge_report \<Rightarrow> sync_db \<times> merge_report" where
  "insert_record r s =
     (case s of (v, rep) \<Rightarrow>
        let (r', rep') = written True (mr_uuid r) r v rep
        in (set_stamp (mr_uuid r) (version_of r) (put_item r' v), rep'))"

definition replace_record ::
    "mrec \<Rightarrow> mrec \<Rightarrow> clock \<Rightarrow> sync_db \<times> merge_report \<Rightarrow> sync_db \<times> merge_report" where
  "replace_record ours r c s =
     (case s of (v, rep) \<Rightarrow>
        let (r', rep') = written True (mr_uuid ours) r v rep;
            v1 = set_stamp (mr_uuid r) (version_of r)
                   (put_item (r'\<lparr>mr_uuid := mr_uuid ours, mr_clock := c\<rparr>) v)
        in (if mr_env ours \<noteq> None \<and> mr_env r' = None
            then v1\<lparr>sy_exec_grants := filter (\<lambda>u. u \<noteq> mr_uuid ours) (sy_exec_grants v1)\<rparr>
            else v1, rep'))"

definition delete_record :: "string \<Rightarrow> sync_db \<Rightarrow> sync_db" where
  "delete_record u v =
     v\<lparr>sy_items := AList.delete u (sy_items v),
       sy_exec_grants := filter (\<lambda>w. w \<noteq> u) (sy_exec_grants v),
       sy_scopes := filter (\<lambda>w. w \<noteq> u) (sy_scopes v),
       sy_events := filter (\<lambda>e. sv_item e \<noteq> u) (sy_events v)\<rparr>"

section \<open>Conflict copies\<close>

definition MAX_TITLE_BYTES :: nat where
  "MAX_TITLE_BYTES = 128"

fun title_head :: "nat \<Rightarrow> string list \<Rightarrow> string \<Rightarrow> string" where
  "title_head room [] head = head"
| "title_head room (c # cs) head =
     (if room < length head + length c then head else title_head room cs (head @ c))"

text \<open>\<open>pop\<close> removes the last character, until the text fits.\<close>

fun pop_until :: "nat \<Rightarrow> string list \<Rightarrow> string list" where
  "pop_until n [] = []"
| "pop_until n (c # cs) =
     (if n < length (concat (c # cs)) then pop_until n (butlast (c # cs)) else c # cs)"

definition copy_title :: "string \<Rightarrow> string \<Rightarrow> string" where
  "copy_title title device =
     (let suffix = '' (conflict copy, '' @ device @ '')'';
          head = title_head (MAX_TITLE_BYTES - length suffix) (chars title) []
      in concat (pop_until MAX_TITLE_BYTES (chars (trim_end head @ suffix))))"

definition device_label :: "string \<Rightarrow> sync_db \<Rightarrow> string" where
  "device_label d v =
     (if sy_device v = d \<and> sy_device_name v \<noteq> [] then sy_device_name v
      else case map_of (sy_peers v) d of
          Some (name, _) \<Rightarrow> if name \<noteq> [] then name else ''another device''
        | None \<Rightarrow> ''another device'')"

definition CONFLICT_ORIGIN_PREFIX :: string where
  "CONFLICT_ORIGIN_PREFIX = ''apassy:conflict-origin:v1:''"

definition conflict_origin_event_uuid :: "(string \<Rightarrow> string) \<Rightarrow> string \<Rightarrow> string \<Rightarrow> string" where
  "conflict_origin_event_uuid sha copy origin =
     derived_uuid sha [''conflict-origin-v1'', copy, origin]"

definition verified_conflict_origin ::
    "(string \<Rightarrow> string) \<Rightarrow> string \<Rightarrow> string \<Rightarrow> string \<Rightarrow> string option" where
  "verified_conflict_origin sha copy detail event_uuid =
     Option.bind (strip_prefix detail CONFLICT_ORIGIN_PREFIX) (\<lambda>origin.
       if length origin = 32 \<and> list_all is_ascii_hexdigit origin \<and> origin \<noteq> copy
          \<and> event_uuid = conflict_origin_event_uuid sha copy origin
       then Some origin else None)"

definition record_conflict_origin ::
    "(string \<Rightarrow> string) \<Rightarrow> int \<Rightarrow> string \<Rightarrow> string \<Rightarrow> sync_db \<Rightarrow> sync_db" where
  "record_conflict_origin sha now copy origin v =
     (let u = conflict_origin_event_uuid sha copy origin
      in if u \<in> sv_uuid ` set (sy_events v) then v
         else v\<lparr>sy_events := sy_events v @ [\<lparr>sv_uuid = u, sv_item = copy, sv_at = now,
                sv_kind = ''created'', sv_detail = CONFLICT_ORIGIN_PREFIX @ origin\<rparr>]\<rparr>)"

definition conflict_uuid :: "(string \<Rightarrow> string) \<Rightarrow> mrec \<Rightarrow> string" where
  "conflict_uuid sha loser =
     derived_uuid sha [''conflict'', mr_uuid loser, clock_text (mr_clock loser),
       show_int (mr_updated_at loser), mr_updated_by loser]"

definition keep_conflict_copy ::
    "(string \<Rightarrow> string) \<Rightarrow> int \<Rightarrow> mrec \<Rightarrow> sync_db \<times> merge_report \<Rightarrow> sync_db \<times> merge_report" where
  "keep_conflict_copy sha now loser s =
     (case s of (v, rep) \<Rightarrow>
        let device = device_label (mr_updated_by loser) v;
            ct = copy_title (mr_title loser) device;
            rep1 = rep\<lparr>mp_conflicts := mp_conflicts rep @
              [\<lparr>cc_title = mr_title loser, cc_copy_title = ct, cc_device = device\<rparr>]\<rparr>;
            u = conflict_uuid sha loser
        in if item_of v u \<noteq> None
           then (record_conflict_origin sha now u (mr_uuid loser) v, rep1)
           else (let (r', rep2) = written False u loser v rep1;
                     r = r'\<lparr>mr_uuid := u, mr_title := ct, mr_archived_at := Some now\<rparr>
                 in (record_conflict_origin sha now u (mr_uuid loser)
                       (set_stamp u (version_of loser) (put_item r v)), rep2)))"

section \<open>The decision for one credential\<close>

definition add_folders :: "nat \<Rightarrow> merge_report \<Rightarrow> merge_report" where
  "add_folders n rep = rep\<lparr>mp_folders := mp_folders rep + n\<rparr>"

text \<open>"Always ask" and an enabled source survive edits on both sides.\<close>

definition map_item :: "string \<Rightarrow> (mrec \<Rightarrow> mrec) \<Rightarrow> sync_db \<Rightarrow> sync_db" where
  "map_item u f v = (case item_of v u of
       None \<Rightarrow> v | Some r \<Rightarrow> v\<lparr>sy_items := AList.update u (f r) (sy_items v)\<rparr>)"

definition keep_always_ask :: "mrec \<Rightarrow> mrec \<Rightarrow> sync_db \<Rightarrow> sync_db" where
  "keep_always_ask ours theirs v =
     (if mr_always_ask ours \<or> mr_always_ask theirs
      then map_item (mr_uuid ours) (\<lambda>r. r\<lparr>mr_always_ask := True\<rparr>) v else v)"

definition enable :: "short_lived_row \<Rightarrow> short_lived_row" where
  "enable s = s\<lparr>sl_enabled := 1\<rparr>"

definition kept_source ::
    "short_lived_row option \<Rightarrow> short_lived_row option \<Rightarrow> short_lived_row option
      \<Rightarrow> short_lived_row option" where
  "kept_source ours theirs now_there = (case (ours, theirs) of
       (Some a, Some b) \<Rightarrow>
         if sl_kind a = sl_kind b \<and> (sl_enabled a = 1 \<or> sl_enabled b = 1)
         then map_option (\<lambda>s. if sl_kind s = sl_kind a then enable s else s) now_there
         else now_there
     | (Some row, None) \<Rightarrow>
         if sl_enabled row = 1
         then (case now_there of Some s \<Rightarrow> Some (enable s) | None \<Rightarrow> Some (enable row)) else now_there
     | (None, Some row) \<Rightarrow>
         if sl_enabled row = 1
         then (case now_there of Some s \<Rightarrow> Some (enable s) | None \<Rightarrow> Some (enable row)) else now_there
     | (None, None) \<Rightarrow> now_there)"

definition keep_source :: "mrec \<Rightarrow> mrec \<Rightarrow> sync_db \<Rightarrow> sync_db" where
  "keep_source ours theirs v =
     map_item (mr_uuid ours) (\<lambda>r. r\<lparr>mr_short_lived :=
       kept_source (mr_short_lived ours) (mr_short_lived theirs) (mr_short_lived r)\<rparr>) v"

definition count_updated :: "merge_report \<Rightarrow> merge_report" where
  "count_updated rep = rep\<lparr>mp_updated := mp_updated rep + 1\<rparr>"

definition merge_contents ::
    "(string \<Rightarrow> string) \<Rightarrow> int \<Rightarrow> mrec \<Rightarrow> mrec \<Rightarrow> sync_db \<times> merge_report \<Rightarrow> sync_db \<times> merge_report" where
  "merge_contents sha now ours theirs s =
     (let c = joined (mr_clock ours) (mr_clock theirs);
          later = later_version (version_of ours) (version_of theirs)
      in if content_hash sha ours = content_hash sha theirs
         then (set_stamp (mr_uuid ours) later
                 (put_item (ours\<lparr>mr_updated_at := fst later, mr_updated_by := snd later,
                    mr_clock := c\<rparr>) (fst s)), snd s)
         else if version_less (version_of ours) (version_of theirs)
         then (let (v, rep) = replace_record ours theirs c (keep_conflict_copy sha now ours s)
               in (v, count_updated rep))
         else (let (v, rep) = keep_conflict_copy sha now theirs s
               in (put_item (ours\<lparr>mr_clock := c\<rparr>) v, rep)))"

text \<open>Different contents take the bouncer scope of the credential away first.\<close>

definition drop_scope ::
    "(string \<Rightarrow> string) \<Rightarrow> mrec \<Rightarrow> mrec \<Rightarrow> sync_db \<times> merge_report \<Rightarrow> sync_db \<times> merge_report" where
  "drop_scope sha ours theirs s =
     (if content_hash sha ours = content_hash sha theirs then s
      else ((fst s)\<lparr>sy_scopes := filter (\<lambda>u. u \<noteq> mr_uuid ours) (sy_scopes (fst s))\<rparr>, snd s))"

definition merge_concurrent ::
    "(string \<Rightarrow> string) \<Rightarrow> int \<Rightarrow> mrec \<Rightarrow> mrec \<Rightarrow> sync_db \<times> merge_report \<Rightarrow> sync_db \<times> merge_report" where
  "merge_concurrent sha now ours theirs s =
     (let (v, rep) = merge_contents sha now ours theirs (drop_scope sha ours theirs s)
      in (keep_source ours theirs (keep_always_ask ours theirs v), rep))"

definition seen_delete :: "tombstone option \<Rightarrow> clock \<Rightarrow> bool" where
  "seen_delete t c \<longleftrightarrow> (case t of
       None \<Rightarrow> False
     | Some t \<Rightarrow> compare_clocks (tb_clock t) c \<in> {NewerClock, SameClock})"

definition merge_uuid ::
    "(string \<Rightarrow> string) \<Rightarrow> int \<Rightarrow> (string \<Rightarrow> mrec option) \<Rightarrow> (string \<Rightarrow> mrec option)
      \<Rightarrow> (string \<Rightarrow> tombstone option) \<Rightarrow> (string \<Rightarrow> tombstone option) \<Rightarrow> string
      \<Rightarrow> sync_db \<times> merge_report \<Rightarrow> sync_db \<times> merge_report" where
  "merge_uuid sha now local remote ltombs rtombs u s =
     (case (local u, remote u) of
        (None, Some theirs) \<Rightarrow>
          if \<not> seen_delete (ltombs u) (mr_clock theirs) \<and> item_of (fst s) u = None
          then (let (v, rep) = insert_record theirs s
                in (v\<lparr>sy_tombs := AList.delete u (sy_tombs v)\<rparr>,
                    rep\<lparr>mp_inserted := mp_inserted rep + 1\<rparr>))
          else s
      | (Some ours, None) \<Rightarrow>
          if seen_delete (rtombs u) (mr_clock ours)
          then (delete_record u (fst s), (snd s)\<lparr>mp_deleted := mp_deleted (snd s) + 1\<rparr>)
          else s
      | (Some ours, Some theirs) \<Rightarrow>
          (case compare_clocks (mr_clock ours) (mr_clock theirs) of
             OlderClock \<Rightarrow>
               (let (v, rep) = replace_record ours theirs (mr_clock theirs) s
                in (v, count_updated rep))
           | ConcurrentClocks \<Rightarrow> merge_concurrent sha now ours theirs s
           | _ \<Rightarrow> s)
      | (None, None) \<Rightarrow> s)"

section \<open>Rows that sync one by one\<close>

definition row_later :: "lww_row \<Rightarrow> lww_row \<Rightarrow> bool" where
  "row_later a b \<longleftrightarrow> version_less (lw_at b, lw_by b) (lw_at a, lw_by a)"

definition takes_row :: "bool \<Rightarrow> lww_row \<Rightarrow> lww_row \<Rightarrow> bool" where
  "takes_row removal_wins theirs ours \<longleftrightarrow>
     (if removal_wins
      then (lw_deleted theirs \<noteq> None \<and> lw_deleted ours = None)
        \<or> ((lw_deleted theirs = None) = (lw_deleted ours = None) \<and> row_later theirs ours)
      else row_later theirs ours)"

fun merge_rows ::
    "bool \<Rightarrow> (string \<times> lww_row) list \<Rightarrow> (string \<times> lww_row) list \<times> nat
      \<Rightarrow> (string \<times> lww_row) list \<times> nat" where
  "merge_rows w [] s = s"
| "merge_rows w ((k, theirs) # rows) (ours, n) =
     merge_rows w rows
       (case map_of ours k of
          None \<Rightarrow> (ours @ [(k, theirs)], n + 1)
        | Some r \<Rightarrow> if takes_row w theirs r then (AList.update k theirs ours, n + 1) else (ours, n))"

text \<open>The synced tables: the name, the schema that added it, whether a removal wins.\<close>

definition LWW_TABLES :: "(string \<times> int \<times> bool) list" where
  "LWW_TABLES = [(''folder'', FOLDER_SCHEMA_VERSION, False),
     (''shared_vault'', FOLDER_SCHEMA_VERSION, False),
     (''vault_secret'', FOLDER_SCHEMA_VERSION, False),
     (''trusted_device'', TRUSTED_DEVICE_SCHEMA_VERSION, True)]"

definition merge_lww ::
    "int \<Rightarrow> sync_db \<Rightarrow> string \<times> int \<times> bool \<Rightarrow> sync_db \<times> merge_report \<Rightarrow> sync_db \<times> merge_report" where
  "merge_lww schema remote t s =
     (case t of (name, since, removal_wins) \<Rightarrow> case s of (v, rep) \<Rightarrow>
        if schema < since then s
        else (let (rows, n) = merge_rows removal_wins (sy_lww remote name) (sy_lww v name, 0)
              in (v\<lparr>sy_lww := (sy_lww v)(name := rows)\<rparr>, add_folders n rep)))"

section \<open>Devices, tombstones and events\<close>

fun merge_peers :: "(string \<times> string \<times> int) list \<Rightarrow> (string \<times> string \<times> int) list
    \<Rightarrow> (string \<times> string \<times> int) list" where
  "merge_peers [] ours = ours"
| "merge_peers ((d, name, seen) # ps) ours =
     merge_peers ps (case map_of ours d of
         None \<Rightarrow> ours @ [(d, name, seen)]
       | Some (_, old) \<Rightarrow> if old < seen then AList.update d (name, seen) ours else ours)"

definition joined_tombs :: "tombstone \<Rightarrow> tombstone \<Rightarrow> tombstone" where
  "joined_tombs ours theirs =
     (let later = later_version (tb_at ours, tb_by ours) (tb_at theirs, tb_by theirs)
      in \<lparr>tb_at = fst later, tb_by = snd later, tb_clock = joined (tb_clock ours) (tb_clock theirs)\<rparr>)"

definition merge_tomb ::
    "(string \<Rightarrow> tombstone option) \<Rightarrow> string \<times> tombstone \<Rightarrow> sync_db \<Rightarrow> sync_db" where
  "merge_tomb ltombs e v =
     (case e of (u, theirs) \<Rightarrow>
        if item_of v u \<noteq> None then v
        else (let t = (case ltombs u of None \<Rightarrow> theirs | Some ours \<Rightarrow> joined_tombs ours theirs)
              in set_stamp u (tb_at t, tb_by t)
                   (v\<lparr>sy_tombs := AList.update u t (sy_tombs v)\<rparr>)))"

definition SYNCED_EVENT_KINDS :: "string list" where
  "SYNCED_EVENT_KINDS = [''created'', ''tracked'', ''edited'', ''archived'', ''unarchived'',
     ''declaration'', ''variable'', ''variable_removed'', ''connector'', ''connector_removed'',
     ''moved'']"

definition counted_event :: "string \<Rightarrow> sync_event \<Rightarrow> bool" where
  "counted_event item e \<longleftrightarrow> sv_item e = item
     \<and> \<not> (sv_kind e = ''created''
          \<and> starts_with (to_ascii_lowercase (sv_detail e)) CONFLICT_ORIGIN_PREFIX)"

text \<open>The newest events of an item stay: by time, then by row id, which is the list order.\<close>

definition newest_events :: "string \<Rightarrow> sync_event list \<Rightarrow> sync_event list" where
  "newest_events item evs =
     take MAX_ITEM_EVENTS (rev (sort_key sv_at (filter (counted_event item) evs)))"

definition prune_events :: "string \<Rightarrow> sync_event list \<Rightarrow> sync_event list" where
  "prune_events item evs =
     filter (\<lambda>e. \<not> counted_event item e \<or> sv_uuid e \<in> sv_uuid ` set (newest_events item evs)) evs"

definition add_event :: "sync_event \<Rightarrow> sync_db \<times> string list \<Rightarrow> sync_db \<times> string list" where
  "add_event e s =
     (case s of (v, touched) \<Rightarrow>
        if sv_kind e \<notin> set SYNCED_EVENT_KINDS \<or> item_of v (sv_item e) = None
           \<or> sv_uuid e \<in> sv_uuid ` set (sy_events v)
        then s
        else (v\<lparr>sy_events := sy_events v @ [e]\<rparr>, List.insert (sv_item e) touched))"

definition merge_events :: "sync_db \<Rightarrow> sync_db \<Rightarrow> sync_db" where
  "merge_events remote v =
     (let (v1, touched) = fold add_event (sy_events remote) (v, [])
      in v1\<lparr>sy_events := fold prune_events touched (sy_events v1)\<rparr>)"

section \<open>Old conflict copies\<close>

definition conflict_title :: "string \<Rightarrow> bool" where
  "conflict_title t \<longleftrightarrow> (case strip_suffix (to_ascii_lowercase t) '')'' of
       None \<Rightarrow> False | Some h \<Rightarrow> contains_sub h '' (conflict copy, '')"

definition known_origin :: "(string \<Rightarrow> string) \<Rightarrow> sync_db \<Rightarrow> string \<Rightarrow> string option" where
  "known_origin sha v copy =
     find_map (\<lambda>e. if sv_item e = copy \<and> sv_kind e = ''created''
        then verified_conflict_origin sha copy (sv_detail e) (sv_uuid e) else None)
       (rev (sy_events v))"

definition legacy_origin :: "(string \<Rightarrow> string) \<Rightarrow> sync_db \<Rightarrow> string \<times> mrec \<Rightarrow> string option" where
  "legacy_origin sha v e =
     (case e of (copy, r) \<Rightarrow>
        if mr_archived_at r = None \<or> \<not> conflict_title (mr_title r)
           \<or> clock_text (mr_clock r) = [] \<or> mr_updated_by r = []
        then None
        else List.find (\<lambda>origin. origin \<noteq> copy
               \<and> derived_uuid sha [''conflict'', origin, clock_text (mr_clock r),
                   show_int (mr_updated_at r), mr_updated_by r] = copy)
             (sort_dedup (map fst (sy_items v) @ map fst (sy_tombs v))))"

definition conflict_origins :: "(string \<Rightarrow> string) \<Rightarrow> sync_db \<Rightarrow> (string \<times> string) list" where
  "conflict_origins sha v =
     List.map_filter (\<lambda>(u, r).
       map_option (\<lambda>o'. (u, o'))
         (case known_origin sha v u of Some x \<Rightarrow> Some x | None \<Rightarrow> legacy_origin sha v (u, r)))
       (sy_items v)"

definition preserve_legacy_conflict_origins ::
    "(string \<Rightarrow> string) \<Rightarrow> int \<Rightarrow> sync_db \<Rightarrow> sync_db" where
  "preserve_legacy_conflict_origins sha now v =
     fold (\<lambda>(copy, origin). record_conflict_origin sha now copy origin) (conflict_origins sha v) v"

text \<open>\<open>ensure_device\<close> of a vault that has its device row. It is a transaction of its own, so what
  it records stays also when the merge is refused.\<close>

definition ensure_device :: "(string \<Rightarrow> string) \<Rightarrow> int \<Rightarrow> sync_db \<Rightarrow> sync_db" where
  "ensure_device sha now v = preserve_legacy_conflict_origins sha now v"

section \<open>The merge\<close>

definition merge_uuids :: "sync_db \<Rightarrow> sync_db \<Rightarrow> string list" where
  "merge_uuids v remote = sort_dedup (map fst (sy_items v) @ map fst (sy_items remote))"

text \<open>The records of the other copy as the merge compares them; \<open>None\<close> would be a renaming
  that does not end.\<close>

definition remote_records :: "int \<Rightarrow> sync_db \<Rightarrow> sync_db \<Rightarrow> (string \<Rightarrow> mrec option)" where
  "remote_records schema v remote u =
     Option.bind (item_of remote u) (upgraded schema (item_of v u))"

definition merge_items ::
    "(string \<Rightarrow> string) \<Rightarrow> int \<Rightarrow> int \<Rightarrow> sync_db \<Rightarrow> sync_db \<Rightarrow> sync_db \<times> merge_report
      \<Rightarrow> sync_db \<times> merge_report" where
  "merge_items sha now schema remote v s =
     fold (merge_uuid sha now (item_of v) (remote_records schema v remote) (tomb_of v) (tomb_of remote))
       (merge_uuids v remote) s"

definition merge_tombs :: "sync_db \<Rightarrow> sync_db \<Rightarrow> sync_db \<Rightarrow> sync_db" where
  "merge_tombs remote v w =
     (let w1 = fold (merge_tomb (tomb_of v)) (sy_tombs remote) w
      in w1\<lparr>sy_tombs := filter (\<lambda>(u, _). item_of w1 u = None) (sy_tombs w1)\<rparr>)"

definition merge_attached ::
    "(string \<Rightarrow> string) \<Rightarrow> int \<Rightarrow> int \<Rightarrow> sync_db \<Rightarrow> sync_db \<Rightarrow> verr + sync_db \<times> merge_report" where
  "merge_attached sha now schema remote v0 =
     and_then (require UnsupportedSchema (is_mergeable_schema schema)) (\<lambda>_.
     and_then (require OtherVault (sy_vault_id v0 = sy_vault_id remote)) (\<lambda>_.
       let v = stamp (ensure_device sha now v0);
           v1 = v\<lparr>sy_peers := merge_peers (sy_peers remote) (sy_peers v)\<rparr>;
           s1 = fold (merge_lww schema remote) LWW_TABLES (v1, empty_report);
           (v2, rep) = merge_items sha now schema remote v s1;
           v3 = merge_tombs remote v v2
       in Inr (preserve_legacy_conflict_origins sha now (merge_events remote v3), rep)))"

section \<open>What the steps of a merge change\<close>

named_theorems sync_simps \<open>reading the state after an operation of the merge\<close>

lemma item_put [sync_simps]: "item_of (put_item r v) w = (if w = mr_uuid r then Some r else item_of v w)"
  by (simp add: item_of_def put_item_def update_conv')

lemma tomb_put [sync_simps]: "tomb_of (put_item r v) w = tomb_of v w"
  by (simp add: tomb_of_def put_item_def)

lemma item_stamp [sync_simps]: "item_of (set_stamp u x v) w = item_of v w"
  by (simp add: item_of_def set_stamp_def)

lemma tomb_stamp [sync_simps]: "tomb_of (set_stamp u x v) w = tomb_of v w"
  by (simp add: tomb_of_def set_stamp_def)

lemma record_conflict_origin_simps [sync_simps]:
  "item_of (record_conflict_origin sha now a b v) w = item_of v w"
  "tomb_of (record_conflict_origin sha now a b v) w = tomb_of v w"
  "sy_items (record_conflict_origin sha now a b v) = sy_items v"
  by (simp_all add: record_conflict_origin_def item_of_def tomb_of_def Let_def)

lemma delete_record_simps [sync_simps]:
  "item_of (delete_record u v) w = (if w = u then None else item_of v w)"
  "tomb_of (delete_record u v) w = tomb_of v w"
  by (simp_all add: delete_record_def item_of_def tomb_of_def delete_conv')

lemma item_update_simps [sync_simps]:
  "item_of (v\<lparr>sy_tombs := x\<rparr>) w = item_of v w"
  "item_of (v\<lparr>sy_scopes := y\<rparr>) w = item_of v w"
  "item_of (v\<lparr>sy_exec_grants := y\<rparr>) w = item_of v w"
  "item_of (v\<lparr>sy_peers := p\<rparr>) w = item_of v w"
  "item_of (v\<lparr>sy_lww := l\<rparr>) w = item_of v w"
  "item_of (v\<lparr>sy_events := e\<rparr>) w = item_of v w"
  "tomb_of (v\<lparr>sy_scopes := y\<rparr>) w = tomb_of v w"
  "tomb_of (v\<lparr>sy_exec_grants := y\<rparr>) w = tomb_of v w"
  "tomb_of (v\<lparr>sy_peers := p\<rparr>) w = tomb_of v w"
  "tomb_of (v\<lparr>sy_lww := l\<rparr>) w = tomb_of v w"
  "tomb_of (v\<lparr>sy_events := e\<rparr>) w = tomb_of v w"
  "tomb_of (v\<lparr>sy_tombs := AList.delete u (sy_tombs v)\<rparr>) w = (if w = u then None else tomb_of v w)"
  by (simp_all add: item_of_def tomb_of_def delete_conv')

text \<open>The variables that a step left out are added to those before it.\<close>

lemma written_settings:
  "written True u r v rep = (r, rep)
   \<or> (\<exists>x. written True u r v rep = (r\<lparr>mr_env := None\<rparr>, rep\<lparr>mp_skipped := mp_skipped rep @ [x]\<rparr>))"
  by (cases "mr_env r") (auto simp: written_def intro!: exI)

lemma written_cases:
  obtains (plain) "written True u r v rep = (r, rep)"
    | (skipped) x where "written True u r v rep = (r\<lparr>mr_env := None\<rparr>, rep\<lparr>mp_skipped := mp_skipped rep @ [x]\<rparr>)"
  using written_settings by blast

lemma written_copy:
  "\<exists>r'. written False u r v rep = (r', rep)"
  by (simp add: written_def)

lemma insert_record_effect:
  assumes "mp_skipped (snd (insert_record r s)) = []"
  shows "mp_skipped (snd s) = []
    \<and> item_of (fst (insert_record r s)) w = (if w = mr_uuid r then Some r else item_of (fst s) w)
    \<and> tomb_of (fst (insert_record r s)) w = tomb_of (fst s) w"
proof -
  obtain v rep where s: "s = (v, rep)" by fastforce
  show ?thesis
    using assms
    by (cases rule: written_cases [of "mr_uuid r" r v rep])
      (simp_all add: insert_record_def s Let_def sync_simps)
qed

lemma replace_record_effect:
  assumes "mp_skipped (snd (replace_record ours r c s)) = []"
  shows "mp_skipped (snd s) = []
    \<and> item_of (fst (replace_record ours r c s)) w
        = (if w = mr_uuid ours then Some (r\<lparr>mr_uuid := mr_uuid ours, mr_clock := c\<rparr>)
           else item_of (fst s) w)
    \<and> tomb_of (fst (replace_record ours r c s)) w = tomb_of (fst s) w"
proof -
  obtain v rep where s: "s = (v, rep)" by fastforce
  show ?thesis
    using assms
    by (cases rule: written_cases [of "mr_uuid ours" r v rep])
      (simp_all add: replace_record_def s Let_def sync_simps)
qed

lemma keep_conflict_copy_effect:
  "mp_skipped (snd (keep_conflict_copy sha now r s)) = mp_skipped (snd s)
   \<and> (w \<noteq> conflict_uuid sha r \<longrightarrow>
        item_of (fst (keep_conflict_copy sha now r s)) w = item_of (fst s) w)
   \<and> tomb_of (fst (keep_conflict_copy sha now r s)) w = tomb_of (fst s) w"
proof -
  obtain v rep where s: "s = (v, rep)" by fastforce
  let ?rep = "rep\<lparr>mp_conflicts := mp_conflicts rep @ [\<lparr>cc_title = mr_title r,
      cc_copy_title = copy_title (mr_title r) (device_label (mr_updated_by r) v),
      cc_device = device_label (mr_updated_by r) v\<rparr>]\<rparr>"
  obtain r' where "written False (conflict_uuid sha r) r v ?rep = (r', ?rep)"
    using written_copy by blast
  then show ?thesis
    by (simp add: keep_conflict_copy_def s Let_def sync_simps)
qed

lemma map_item_simps [sync_simps]:
  "item_of (map_item u f v) w = (if w = u then map_option f (item_of v u) else item_of v w)"
  "tomb_of (map_item u f v) w = tomb_of v w"
  by (auto simp: map_item_def item_of_def tomb_of_def update_conv' split: option.split)

section \<open>The outcome for one credential\<close>

text \<open>What the merge makes of two concurrent records, without the conflict copy.\<close>

definition settled_base :: "(string \<Rightarrow> string) \<Rightarrow> mrec \<Rightarrow> mrec \<Rightarrow> mrec" where
  "settled_base sha ours theirs =
     (let c = joined (mr_clock ours) (mr_clock theirs);
          later = later_version (version_of ours) (version_of theirs)
      in if content_hash sha ours = content_hash sha theirs
         then ours\<lparr>mr_updated_at := fst later, mr_updated_by := snd later, mr_clock := c\<rparr>
         else if version_less (version_of ours) (version_of theirs)
         then theirs\<lparr>mr_uuid := mr_uuid ours, mr_clock := c\<rparr>
         else ours\<lparr>mr_clock := c\<rparr>)"

definition with_kept :: "mrec \<Rightarrow> mrec \<Rightarrow> mrec \<Rightarrow> mrec" where
  "with_kept ours theirs r =
     (let r1 = (if mr_always_ask ours \<or> mr_always_ask theirs then r\<lparr>mr_always_ask := True\<rparr> else r)
      in r1\<lparr>mr_short_lived :=
           kept_source (mr_short_lived ours) (mr_short_lived theirs) (mr_short_lived r1)\<rparr>)"

definition outcome ::
    "(string \<Rightarrow> string) \<Rightarrow> mrec option \<Rightarrow> mrec option \<Rightarrow> tombstone option \<Rightarrow> tombstone option
      \<Rightarrow> mrec option" where
  "outcome sha ours theirs lt rt = (case (ours, theirs) of
       (None, None) \<Rightarrow> None
     | (None, Some t) \<Rightarrow> if seen_delete lt (mr_clock t) then None else Some t
     | (Some r, None) \<Rightarrow> if seen_delete rt (mr_clock r) then None else Some r
     | (Some r, Some t) \<Rightarrow> (case compare_clocks (mr_clock r) (mr_clock t) of
           OlderClock \<Rightarrow> Some (t\<lparr>mr_uuid := mr_uuid r\<rparr>)
         | ConcurrentClocks \<Rightarrow> Some (with_kept r t (settled_base sha r t))
         | _ \<Rightarrow> Some r))"

lemma uuid_settled [simp]:
  "mr_uuid (settled_base sha ours theirs) = mr_uuid ours"
  by (simp add: settled_base_def Let_def)

text \<open>A step leaves the other credentials alone, except for the conflict copy.\<close>

definition far :: "(string \<Rightarrow> string) \<Rightarrow> mrec \<Rightarrow> mrec \<Rightarrow> string \<Rightarrow> bool" where
  "far sha ours theirs w \<longleftrightarrow> w \<noteq> conflict_uuid sha ours \<and> w \<noteq> conflict_uuid sha theirs"

lemma merge_contents_effect:
  assumes "mp_skipped (snd (merge_contents sha now ours theirs s)) = []"
  shows "mp_skipped (snd s) = []"
    "far sha ours theirs w \<Longrightarrow> item_of (fst (merge_contents sha now ours theirs s)) w
       = (if w = mr_uuid ours then Some (settled_base sha ours theirs) else item_of (fst s) w)"
    "tomb_of (fst (merge_contents sha now ours theirs s)) w = tomb_of (fst s) w"
proof -
  let ?c = "joined (mr_clock ours) (mr_clock theirs)"
  consider (same) "content_hash sha ours = content_hash sha theirs"
    | (theirs) "content_hash sha ours \<noteq> content_hash sha theirs"
        "version_less (version_of ours) (version_of theirs)"
    | (ours) "content_hash sha ours \<noteq> content_hash sha theirs"
        "\<not> version_less (version_of ours) (version_of theirs)"
    by blast
  then have "mp_skipped (snd s) = []
    \<and> (far sha ours theirs w \<longrightarrow> item_of (fst (merge_contents sha now ours theirs s)) w
       = (if w = mr_uuid ours then Some (settled_base sha ours theirs) else item_of (fst s) w))
    \<and> tomb_of (fst (merge_contents sha now ours theirs s)) w = tomb_of (fst s) w"
  proof cases
    case same
    then show ?thesis
      using assms by (simp add: merge_contents_def settled_base_def Let_def sync_simps)
  next
    case theirs
    let ?k = "keep_conflict_copy sha now ours s"
    have e: "merge_contents sha now ours theirs s
        = (fst (replace_record ours theirs ?c ?k), count_updated (snd (replace_record ours theirs ?c ?k)))"
      using theirs by (simp add: merge_contents_def Let_def split: prod.split)
    have "mp_skipped (snd (replace_record ours theirs ?c ?k)) = []"
      using assms by (simp add: e count_updated_def)
    from replace_record_effect [OF this, of w] keep_conflict_copy_effect [of sha now ours s w]
    show ?thesis
      using theirs by (auto simp: e settled_base_def far_def)
  next
    case ours
    let ?k = "keep_conflict_copy sha now theirs s"
    have e: "merge_contents sha now ours theirs s
        = (put_item (ours\<lparr>mr_clock := ?c\<rparr>) (fst ?k), snd ?k)"
      using ours by (simp add: merge_contents_def Let_def split: prod.split)
    from keep_conflict_copy_effect [of sha now theirs s w] show ?thesis
      using ours assms by (auto simp: e settled_base_def far_def sync_simps)
  qed
  then show "mp_skipped (snd s) = []"
    "far sha ours theirs w \<Longrightarrow> item_of (fst (merge_contents sha now ours theirs s)) w
       = (if w = mr_uuid ours then Some (settled_base sha ours theirs) else item_of (fst s) w)"
    "tomb_of (fst (merge_contents sha now ours theirs s)) w = tomb_of (fst s) w"
    by auto
qed

lemma drop_scope_simps [sync_simps]:
  "item_of (fst (drop_scope sha a b s)) w = item_of (fst s) w"
  "tomb_of (fst (drop_scope sha a b s)) w = tomb_of (fst s) w"
  "snd (drop_scope sha a b s) = snd s"
  by (simp_all add: drop_scope_def sync_simps)

lemma merge_contents_other:
  assumes "far sha ours theirs w" and "w \<noteq> mr_uuid ours"
  shows "item_of (fst (merge_contents sha now ours theirs s)) w = item_of (fst s) w
    \<and> tomb_of (fst (merge_contents sha now ours theirs s)) w = tomb_of (fst s) w"
proof -
  have r: "item_of (fst (replace_record ours theirs c t)) w = item_of (fst t) w
      \<and> tomb_of (fst (replace_record ours theirs c t)) w = tomb_of (fst t) w" for c t
    using assms(2) by (simp add: replace_record_def Let_def sync_simps split: prod.split)
  show ?thesis
    using assms keep_conflict_copy_effect [of sha now ours s w]
      keep_conflict_copy_effect [of sha now theirs s w] r
    by (simp add: merge_contents_def Let_def far_def sync_simps split: prod.split)
      (metis fst_conv)
qed

lemma merge_concurrent_effect:
  assumes skip: "mp_skipped (snd (merge_concurrent sha now ours theirs s)) = []"
    and far: "far sha ours theirs w"
  shows "mp_skipped (snd s) = []"
    "item_of (fst (merge_concurrent sha now ours theirs s)) w =
       (if w = mr_uuid ours then Some (with_kept ours theirs (settled_base sha ours theirs))
        else item_of (fst s) w)"
    "tomb_of (fst (merge_concurrent sha now ours theirs s)) w = tomb_of (fst s) w"
proof -
  let ?m = "merge_contents sha now ours theirs (drop_scope sha ours theirs s)"
  have e: "merge_concurrent sha now ours theirs s
      = (keep_source ours theirs (keep_always_ask ours theirs (fst ?m)), snd ?m)"
    by (simp add: merge_concurrent_def split: prod.split)
  have m: "mp_skipped (snd ?m) = []" using skip by (simp add: e)
  show "mp_skipped (snd s) = []"
    using merge_contents_effect(1) [OF m] by (simp add: sync_simps)
  show "item_of (fst (merge_concurrent sha now ours theirs s)) w =
       (if w = mr_uuid ours then Some (with_kept ours theirs (settled_base sha ours theirs))
        else item_of (fst s) w)"
    using merge_contents_effect(2) [OF m far]
    by (cases "w = mr_uuid ours") (simp_all add: e keep_source_def keep_always_ask_def with_kept_def Let_def sync_simps)
  show "tomb_of (fst (merge_concurrent sha now ours theirs s)) w = tomb_of (fst s) w"
    using merge_contents_effect(3) [OF m]
    by (simp add: e keep_source_def keep_always_ask_def sync_simps)
qed

lemma merge_concurrent_other:
  assumes "far sha ours theirs w" and "w \<noteq> mr_uuid ours"
  shows "item_of (fst (merge_concurrent sha now ours theirs s)) w = item_of (fst s) w
    \<and> tomb_of (fst (merge_concurrent sha now ours theirs s)) w = tomb_of (fst s) w"
  using assms merge_contents_other [OF assms, of now "drop_scope sha ours theirs s"]
  by (simp add: merge_concurrent_def keep_source_def keep_always_ask_def sync_simps
      split: prod.split) (metis fst_conv)


section \<open>One credential of the loop\<close>

text \<open>The records of both copies under their UUIDs, and a UUID that no conflict copy takes.\<close>

definition keyed :: "(string \<Rightarrow> mrec option) \<Rightarrow> bool" where
  "keyed f \<longleftrightarrow> (\<forall>u r. f u = Some r \<longrightarrow> mr_uuid r = u)"

definition away ::
    "(string \<Rightarrow> string) \<Rightarrow> (string \<Rightarrow> mrec option) \<Rightarrow> (string \<Rightarrow> mrec option) \<Rightarrow> string \<Rightarrow> bool" where
  "away sha L R w \<longleftrightarrow> (\<forall>u o' t. L u = Some o' \<longrightarrow> R u = Some t \<longrightarrow> far sha o' t w)"

lemma merge_concurrent_skips:
  "mp_skipped (snd (merge_concurrent sha now ours theirs s)) = [] \<Longrightarrow> mp_skipped (snd s) = []"
  using merge_contents_effect(1) [of sha now ours theirs "drop_scope sha ours theirs s"]
  by (simp add: merge_concurrent_def sync_simps split: prod.splits)

lemma merge_uuid_skips:
  assumes skip: "mp_skipped (snd (merge_uuid sha now L R lt rt u s)) = []"
  shows "mp_skipped (snd s) = []"
proof (cases "L u")
  case None
  show ?thesis
  proof (cases "R u")
    case (Some t)
    then show ?thesis
      using skip insert_record_effect [of t s]
      by (cases "insert_record t s") (auto simp: merge_uuid_def None split: if_split_asm)
  qed (use skip in \<open>simp add: merge_uuid_def None\<close>)
next
  case (Some r)
  note L = \<open>L u = Some r\<close>
  show ?thesis
  proof (cases "R u")
    case None
    then show ?thesis using skip by (simp add: merge_uuid_def L split: if_split_asm)
  next
    case (Some t)
    show ?thesis
    proof (cases "compare_clocks (mr_clock r) (mr_clock t)")
      case OlderClock
      then show ?thesis
        using skip replace_record_effect [of r t "mr_clock t" s]
        by (cases "replace_record r t (mr_clock t) s")
          (simp add: merge_uuid_def L Some count_updated_def)
    next
      case ConcurrentClocks
      then show ?thesis
        using skip merge_concurrent_skips by (simp add: merge_uuid_def L Some)
    qed (use skip in \<open>simp_all add: merge_uuid_def L Some\<close>)
  qed
qed

lemma merge_uuid_here:
  assumes k: "keyed L" "keyed R" and a: "away sha L R u"
    and skip: "mp_skipped (snd (merge_uuid sha now L R lt rt u s)) = []"
    and here: "item_of (fst s) u = L u"
  shows "mp_skipped (snd s) = []
    \<and> item_of (fst (merge_uuid sha now L R lt rt u s)) u = outcome sha (L u) (R u) (lt u) (rt u)
    \<and> (outcome sha (L u) (R u) (lt u) (rt u) = None
        \<longrightarrow> tomb_of (fst (merge_uuid sha now L R lt rt u s)) u = tomb_of (fst s) u)"
proof (cases "L u")
  case None
  show ?thesis
  proof (cases "R u")
    case (Some t)
    have t: "mr_uuid t = u" using k(2) Some by (simp add: keyed_def)
    show ?thesis
    proof (cases "seen_delete (lt u) (mr_clock t)")
      case False
      have "mp_skipped (snd (insert_record t s)) = []"
        using skip here False by (simp add: merge_uuid_def None Some split: prod.splits)
      from insert_record_effect [OF this, of u] show ?thesis
        using here False t
        by (cases "insert_record t s") (simp add: merge_uuid_def None Some outcome_def sync_simps)
    next
      case True
      then show ?thesis
        using skip here by (simp add: merge_uuid_def None Some outcome_def)
    qed
  qed (use skip here in \<open>simp add: merge_uuid_def None outcome_def\<close>)
next
  case (Some r)
  have r: "mr_uuid r = u" using k(1) Some by (simp add: keyed_def)
  show ?thesis
  proof (cases "R u")
    case None
    then show ?thesis
      using skip here by (simp add: merge_uuid_def Some outcome_def sync_simps split: if_split_asm)
  next
    case (Some t)
    note L = \<open>L u = Some r\<close>
    have t: "mr_uuid t = u" using k(2) Some by (simp add: keyed_def)
    have f: "far sha r t u" using a L Some by (auto simp: away_def)
    show ?thesis
    proof (cases "compare_clocks (mr_clock r) (mr_clock t)")
      case OlderClock
      have "mp_skipped (snd (replace_record r t (mr_clock t) s)) = []"
        using skip OlderClock
        by (simp add: merge_uuid_def L Some count_updated_def split: prod.splits)
      from replace_record_effect [OF this, of u] show ?thesis
        using OlderClock r
        by (cases "replace_record r t (mr_clock t) s") (simp add: merge_uuid_def L Some outcome_def)
    next
      case ConcurrentClocks
      have "mp_skipped (snd (merge_concurrent sha now r t s)) = []"
        using skip ConcurrentClocks by (simp add: merge_uuid_def L Some)
      from merge_concurrent_effect [OF this f] show ?thesis
        using ConcurrentClocks r by (simp add: merge_uuid_def L Some outcome_def)
    qed (use skip here in \<open>simp_all add: merge_uuid_def L Some outcome_def\<close>)
  qed
qed

text \<open>The same for the credentials of a part of the loop only.\<close>

definition away_in ::
    "(string \<Rightarrow> string) \<Rightarrow> (string \<Rightarrow> mrec option) \<Rightarrow> (string \<Rightarrow> mrec option) \<Rightarrow> string
      \<Rightarrow> string list \<Rightarrow> bool" where
  "away_in sha L R w us \<longleftrightarrow>
     (\<forall>u\<in>set us. \<forall>o' t. L u = Some o' \<longrightarrow> R u = Some t \<longrightarrow> far sha o' t w)"

lemma away_away_in: "away sha L R w \<Longrightarrow> away_in sha L R w us"
  by (auto simp: away_def away_in_def)

lemma merge_uuid_other:
  assumes k: "keyed L" "keyed R" and a: "away_in sha L R w [u]" and "w \<noteq> u"
    and skip: "mp_skipped (snd (merge_uuid sha now L R lt rt u s)) = []"
  shows "mp_skipped (snd s) = []
    \<and> item_of (fst (merge_uuid sha now L R lt rt u s)) w = item_of (fst s) w
    \<and> tomb_of (fst (merge_uuid sha now L R lt rt u s)) w = tomb_of (fst s) w"
proof (cases "L u")
  case None
  show ?thesis
  proof (cases "R u")
    case (Some t)
    have t: "mr_uuid t = u" using k(2) Some by (simp add: keyed_def)
    show ?thesis
    proof (cases "\<not> seen_delete (lt u) (mr_clock t) \<and> item_of (fst s) u = None")
      case True
      have "mp_skipped (snd (insert_record t s)) = []"
        using skip True by (simp add: merge_uuid_def None Some split: prod.splits)
      from insert_record_effect [OF this, of w] show ?thesis
        using True t assms(4)
        by (cases "insert_record t s") (simp add: merge_uuid_def None Some sync_simps)
    next
      case False
      then show ?thesis using skip by (auto simp: merge_uuid_def None Some)
    qed
  qed (use skip in \<open>simp add: merge_uuid_def None\<close>)
next
  case (Some r)
  have r: "mr_uuid r = u" using k(1) Some by (simp add: keyed_def)
  note L = \<open>L u = Some r\<close>
  show ?thesis
  proof (cases "R u")
    case None
    then show ?thesis
      using skip assms(4) by (simp add: merge_uuid_def L sync_simps split: if_split_asm)
  next
    case (Some t)
    have f: "far sha r t w" using a L Some by (auto simp: away_in_def)
    show ?thesis
    proof (cases "compare_clocks (mr_clock r) (mr_clock t)")
      case OlderClock
      have "mp_skipped (snd (replace_record r t (mr_clock t) s)) = []"
        using skip OlderClock
        by (simp add: merge_uuid_def L Some count_updated_def split: prod.splits)
      from replace_record_effect [OF this, of w] show ?thesis
        using OlderClock r assms(4)
        by (cases "replace_record r t (mr_clock t) s") (simp add: merge_uuid_def L Some)
    next
      case ConcurrentClocks
      have "mp_skipped (snd (merge_concurrent sha now r t s)) = []"
        using skip ConcurrentClocks by (simp add: merge_uuid_def L Some)
      from merge_concurrent_effect [OF this f] show ?thesis
        using ConcurrentClocks r assms(4) by (simp add: merge_uuid_def L Some)
    qed (use skip in \<open>simp_all add: merge_uuid_def L Some\<close>)
  qed
qed

lemma merge_fold_other:
  assumes k: "keyed L" "keyed R"
  shows "away_in sha L R w us \<Longrightarrow> w \<notin> set us
    \<Longrightarrow> mp_skipped (snd (fold (merge_uuid sha now L R lt rt) us s)) = []
    \<Longrightarrow> mp_skipped (snd s) = []
      \<and> item_of (fst (fold (merge_uuid sha now L R lt rt) us s)) w = item_of (fst s) w
      \<and> tomb_of (fst (fold (merge_uuid sha now L R lt rt) us s)) w = tomb_of (fst s) w"
proof (induction us arbitrary: s)
  case (Cons u us)
  have "away_in sha L R w [u]" "away_in sha L R w us"
    using Cons.prems(1) by (simp_all add: away_in_def)
  from Cons.IH [OF this(2), of "merge_uuid sha now L R lt rt u s"] Cons.prems
    merge_uuid_other [OF k this(1), of now lt rt s]
  show ?case by auto
qed simp

lemma merge_fold:
  assumes k: "keyed L" "keyed R" and a: "away sha L R u"
    and "distinct us" and "u \<in> set us" and here: "item_of (fst s) u = L u"
    and skip: "mp_skipped (snd (fold (merge_uuid sha now L R lt rt) us s)) = []"
  shows "item_of (fst (fold (merge_uuid sha now L R lt rt) us s)) u = outcome sha (L u) (R u) (lt u) (rt u)
    \<and> (outcome sha (L u) (R u) (lt u) (rt u) = None
        \<longrightarrow> tomb_of (fst (fold (merge_uuid sha now L R lt rt) us s)) u = tomb_of (fst s) u)"
proof -
  obtain xs ys where us: "us = xs @ u # ys" and n: "u \<notin> set xs" "u \<notin> set ys"
    using assms(4,5) by (metis distinct.simps(2) distinct_append not_distinct_conv_prefix split_list_first split_list)
  let ?f = "fold (merge_uuid sha now L R lt rt)"
  let ?s1 = "?f xs s" and ?s2 = "merge_uuid sha now L R lt rt u (?f xs s)"
  have skip2: "mp_skipped (snd ?s2) = []"
    using merge_fold_other [OF k away_away_in [OF a] n(2), of now lt rt ?s2] skip by (simp add: us)
  have rest: "item_of (fst (?f us s)) u = item_of (fst ?s2) u"
    "tomb_of (fst (?f us s)) u = tomb_of (fst ?s2) u"
    using merge_fold_other [OF k away_away_in [OF a] n(2), of now lt rt ?s2] skip by (simp_all add: us)
  have skip1: "mp_skipped (snd ?s1) = []" using merge_uuid_skips [OF skip2] .
  have one: "item_of (fst ?s1) u = L u" "tomb_of (fst ?s1) u = tomb_of (fst s) u"
    using merge_fold_other [OF k away_away_in [OF a] n(1) skip1] here by simp_all
  show ?thesis
    unfolding rest using merge_uuid_here [OF k a skip2 one(1)] one(2) by simp
qed

section \<open>The whole merge at one credential\<close>

definition SCHEMA_VERSION :: int where
  "SCHEMA_VERSION = 34"

text \<open>A well-formed copy: keys are unique, a record stands under its UUID, clocks are maps, and
  no UUID is live and deleted at once.\<close>

definition db_ok :: "sync_db \<Rightarrow> bool" where
  "db_ok v \<longleftrightarrow> distinct (map fst (sy_items v)) \<and> distinct (map fst (sy_tombs v))
     \<and> (\<forall>(u, r)\<in>set (sy_items v). mr_uuid r = u \<and> clock_ok (mr_clock r))
     \<and> (\<forall>(u, t)\<in>set (sy_tombs v). clock_ok (tb_clock t))
     \<and> fst ` set (sy_items v) \<inter> fst ` set (sy_tombs v) = {}"

lemma keyed_db: "db_ok v \<Longrightarrow> keyed (item_of v)"
  by (fastforce simp: keyed_def item_of_def db_ok_def dest: map_of_SomeD)

lemma db_ok_clock: "db_ok v \<Longrightarrow> item_of v u = Some r \<Longrightarrow> clock_ok (mr_clock r)"
  by (fastforce simp: item_of_def db_ok_def dest: map_of_SomeD)

lemma db_ok_tomb: "db_ok v \<Longrightarrow> tomb_of v u = Some t \<Longrightarrow> clock_ok (tb_clock t)"
  by (fastforce simp: tomb_of_def db_ok_def dest: map_of_SomeD)

lemma db_ok_disjoint: "db_ok v \<Longrightarrow> item_of v u \<noteq> None \<Longrightarrow> tomb_of v u = None"
  unfolding db_ok_def item_of_def tomb_of_def map_of_eq_None_iff by blast

lemma map_fst_stamp:
  "map fst (stamp_items own st items) = map fst items"
  "map fst (stamp_tombs own st tombs) = map fst tombs"
  by (simp_all add: stamp_items_def stamp_tombs_def comp_def split_beta)

lemma db_ok_stamp: "db_ok v \<Longrightarrow> db_ok (stamp v)"
proof -
  assume ok: "db_ok v"
  let ?st = "map (\<lambda>(u, r). (u, version_of r)) (sy_items v)
            @ filter (\<lambda>(u, _). u \<notin> fst ` set (sy_items v)) (sy_stamps v)"
  have i: "sy_items (stamp v) = stamp_items (sy_device v) (sy_stamps v) (sy_items v)"
    and t: "sy_tombs (stamp v) = stamp_tombs (sy_device v) ?st (sy_tombs v)"
    by (simp_all add: stamp_def Let_def)
  have fi: "fst ` set (sy_items (stamp v)) = fst ` set (sy_items v)"
    and ft: "fst ` set (sy_tombs (stamp v)) = fst ` set (sy_tombs v)"
    unfolding i t using map_fst_stamp by (metis set_map)+
  have "\<forall>(u, r)\<in>set (sy_items (stamp v)). mr_uuid r = u \<and> clock_ok (mr_clock r)"
    using ok unfolding i db_ok_def by (fastforce simp: stamp_items_def)
  moreover have "\<forall>(u, r)\<in>set (sy_tombs (stamp v)). clock_ok (tb_clock r)"
    using ok unfolding t db_ok_def by (fastforce simp: stamp_tombs_def)
  ultimately show "db_ok (stamp v)"
    using ok unfolding db_ok_def fi ft unfolding i t map_fst_stamp by blast
qed

lemma upgraded_current: "SHORT_LIVED_SCHEMA_VERSION \<le> schema \<Longrightarrow> upgraded schema o' r = Some r"
  by (simp add: upgraded_def SHORT_LIVED_SCHEMA_VERSION_def TRUSTED_DEVICE_SCHEMA_VERSION_def
      FOLDER_SCHEMA_VERSION_def PASSKEY_SCHEMA_VERSION_def)

lemma remote_records_current:
  "SHORT_LIVED_SCHEMA_VERSION \<le> schema \<Longrightarrow> remote_records schema v remote = item_of remote"
proof
  fix u assume "SHORT_LIVED_SCHEMA_VERSION \<le> schema"
  then show "remote_records schema v remote u = item_of remote u"
    by (cases "item_of remote u") (simp_all add: remote_records_def upgraded_current)
qed

lemma merge_lww_effect:
  "mp_skipped (snd (merge_lww schema remote t s)) = mp_skipped (snd s)
   \<and> item_of (fst (merge_lww schema remote t s)) w = item_of (fst s) w
   \<and> tomb_of (fst (merge_lww schema remote t s)) w = tomb_of (fst s) w"
  by (auto simp: merge_lww_def add_folders_def sync_simps split: prod.split)

lemma fold_merge_lww_effect:
  "mp_skipped (snd (fold (merge_lww schema remote) ts s)) = mp_skipped (snd s)
   \<and> item_of (fst (fold (merge_lww schema remote) ts s)) w = item_of (fst s) w
   \<and> tomb_of (fst (fold (merge_lww schema remote) ts s)) w = tomb_of (fst s) w"
  by (induction ts arbitrary: s) (simp_all add: merge_lww_effect)

lemma add_event_effect:
  "item_of (fst (add_event e s)) w = item_of (fst s) w \<and> tomb_of (fst (add_event e s)) w = tomb_of (fst s) w"
  by (cases s) (simp add: add_event_def sync_simps)

lemma merge_events_effect:
  "item_of (merge_events remote v) w = item_of v w" "tomb_of (merge_events remote v) w = tomb_of v w"
proof -
  have "item_of (fst (fold add_event es s)) w = item_of (fst s) w
      \<and> tomb_of (fst (fold add_event es s)) w = tomb_of (fst s) w" for es s
    by (induction es arbitrary: s) (simp_all add: add_event_effect)
  from this [of "sy_events remote" "(v, [])"]
  show "item_of (merge_events remote v) w = item_of v w" "tomb_of (merge_events remote v) w = tomb_of v w"
    by (simp_all add: merge_events_def sync_simps split: prod.split) (metis fst_conv)+
qed

lemma preserve_effect:
  "item_of (preserve_legacy_conflict_origins sha now v) w = item_of v w"
  "tomb_of (preserve_legacy_conflict_origins sha now v) w = tomb_of v w"
proof -
  have "item_of (fold (\<lambda>(a, b). record_conflict_origin sha now a b) es s) w = item_of s w
      \<and> tomb_of (fold (\<lambda>(a, b). record_conflict_origin sha now a b) es s) w = tomb_of s w" for es s
    by (induction es arbitrary: s) (auto simp: sync_simps)
  then show "item_of (preserve_legacy_conflict_origins sha now v) w = item_of v w"
    "tomb_of (preserve_legacy_conflict_origins sha now v) w = tomb_of v w"
    by (simp_all add: preserve_legacy_conflict_origins_def)
qed

lemma preserve_events: "\<exists>es. preserve_legacy_conflict_origins sha now v = v\<lparr>sy_events := es\<rparr>"
proof -
  have "\<exists>es. fold (\<lambda>(a, b). record_conflict_origin sha now a b) os w = w\<lparr>sy_events := es\<rparr>" for os w
  proof (induction os arbitrary: w)
    case Nil
    show ?case by (rule exI [of _ "sy_events w"]) simp
  next
    case (Cons e os)
    obtain a b where e: "e = (a, b)" by fastforce
    obtain es where es: "fold (\<lambda>(a, b). record_conflict_origin sha now a b) os
        (record_conflict_origin sha now a b w) = (record_conflict_origin sha now a b w)\<lparr>sy_events := es\<rparr>"
      using Cons.IH by blast
    have "(record_conflict_origin sha now a b w)\<lparr>sy_events := es\<rparr> = w\<lparr>sy_events := es\<rparr>"
      by (simp add: record_conflict_origin_def Let_def)
    with es e show ?case by auto
  qed
  then show ?thesis by (simp add: preserve_legacy_conflict_origins_def)
qed

text \<open>What the merge records before the stamp changes events only.\<close>

lemma ensure_device_effect:
  "item_of (stamp (ensure_device sha now v)) = item_of (stamp v)"
  "tomb_of (stamp (ensure_device sha now v)) = tomb_of (stamp v)"
  "db_ok (stamp (ensure_device sha now v)) = db_ok (stamp v)"
proof -
  obtain es where es: "ensure_device sha now v = v\<lparr>sy_events := es\<rparr>"
    using preserve_events unfolding ensure_device_def by blast
  have "stamp (v\<lparr>sy_events := es\<rparr>) = (stamp v)\<lparr>sy_events := es\<rparr>"
    by (simp add: stamp_def Let_def)
  then show "item_of (stamp (ensure_device sha now v)) = item_of (stamp v)"
    "tomb_of (stamp (ensure_device sha now v)) = tomb_of (stamp v)"
    "db_ok (stamp (ensure_device sha now v)) = db_ok (stamp v)"
    by (simp_all add: es fun_eq_iff item_of_def tomb_of_def db_ok_def)
qed

text \<open>The tombstone a UUID has after the merge when it is not live.\<close>

definition tomb_outcome :: "tombstone option \<Rightarrow> tombstone option \<Rightarrow> tombstone option" where
  "tomb_outcome ours theirs = (case theirs of
       None \<Rightarrow> ours
     | Some t \<Rightarrow> Some (case ours of None \<Rightarrow> t | Some o' \<Rightarrow> joined_tombs o' t))"

lemma merge_tomb_effect:
  "item_of (merge_tomb lt (u, t) v) w = item_of v w
   \<and> tomb_of (merge_tomb lt (u, t) v) w =
      (if w = u \<and> item_of v u = None
       then Some (case lt u of None \<Rightarrow> t | Some o' \<Rightarrow> joined_tombs o' t) else tomb_of v w)"
  by (auto simp: merge_tomb_def Let_def set_stamp_def item_of_def tomb_of_def update_conv')

lemma fold_merge_tomb:
  "distinct (map fst ts) \<Longrightarrow>
     item_of (fold (merge_tomb lt) ts v) w = item_of v w
     \<and> tomb_of (fold (merge_tomb lt) ts v) w =
        (if item_of v w \<noteq> None then tomb_of v w
         else case map_of ts w of
             None \<Rightarrow> tomb_of v w
           | Some t \<Rightarrow> Some (case lt w of None \<Rightarrow> t | Some o' \<Rightarrow> joined_tombs o' t))"
proof (induction ts arbitrary: v)
  case (Cons e ts)
  obtain u t where e: "e = (u, t)" by fastforce
  have n: "u \<notin> fst ` set ts" using Cons.prems by (simp add: e)
  then have "map_of ts u = None" by (simp add: map_of_eq_None_iff)
  then show ?case
    using Cons.IH [of "merge_tomb lt e v"] Cons.prems merge_tomb_effect [of lt u t v]
    by (auto simp: e split: option.splits)
qed simp

lemma map_of_filter_fst: "map_of (filter (\<lambda>(u, _). P u) al) w = (if P w then map_of al w else None)"
  by (induction al) auto

lemma merge_tombs_effect:
  assumes "distinct (map fst (sy_tombs remote))"
  shows "item_of (merge_tombs remote v w) u = item_of w u"
    "item_of w u \<noteq> None \<Longrightarrow> tomb_of (merge_tombs remote v w) u = None"
    "item_of w u = None \<Longrightarrow> tomb_of w u = tomb_of v u
       \<Longrightarrow> tomb_of (merge_tombs remote v w) u = tomb_outcome (tomb_of v u) (tomb_of remote u)"
proof -
  note f = fold_merge_tomb [OF assms, of "tomb_of v" w]
  show i: "item_of (merge_tombs remote v w) u = item_of w u"
    using f by (simp add: merge_tombs_def Let_def sync_simps)
  have t: "tomb_of (merge_tombs remote v w) u = (if item_of w u = None
      then tomb_of (fold (merge_tomb (tomb_of v)) (sy_tombs remote) w) u else None)"
    using f by (simp add: merge_tombs_def Let_def tomb_of_def map_of_filter_fst)
  show "item_of w u \<noteq> None \<Longrightarrow> tomb_of (merge_tombs remote v w) u = None"
    by (auto simp: t)
  show "item_of w u = None \<Longrightarrow> tomb_of w u = tomb_of v u
       \<Longrightarrow> tomb_of (merge_tombs remote v w) u = tomb_outcome (tomb_of v u) (tomb_of remote u)"
    using f [of u] by (simp add: t tomb_outcome_def tomb_of_def [of remote] split: option.split)
qed

text \<open>The credentials and tombstones after a merge, one UUID at a time.\<close>

lemma merge_attached_effect:
  assumes m: "merge_attached sha now schema remote v0 = Inr (v', rep)"
    and s: "SHORT_LIVED_SCHEMA_VERSION \<le> schema"
    and ok: "db_ok v0" "db_ok remote" and skip: "mp_skipped rep = []"
    and a: "away sha (item_of (stamp v0)) (item_of remote) u"
  defines "out \<equiv> outcome sha (item_of (stamp v0) u) (item_of remote u)
      (tomb_of (stamp v0) u) (tomb_of remote u)"
  shows "item_of v' u = out"
    "tomb_of v' u = (if out = None then tomb_outcome (tomb_of (stamp v0) u) (tomb_of remote u) else None)"
proof -
  let ?v = "stamp (ensure_device sha now v0)"
  note same = ensure_device_effect [of sha now v0, symmetric]
  note a = a [unfolded same] and out_def = out_def [unfolded same]
  let ?L = "item_of ?v" and ?R = "item_of remote" and ?lt = "tomb_of ?v" and ?rt = "tomb_of remote"
  let ?s1 = "fold (merge_lww schema remote) LWW_TABLES
      (?v\<lparr>sy_peers := merge_peers (sy_peers remote) (sy_peers ?v)\<rparr>, empty_report)"
  let ?s2 = "merge_items sha now schema remote ?v ?s1"
  have v': "v' = preserve_legacy_conflict_origins sha now (merge_events remote
        (merge_tombs remote ?v (fst ?s2)))" and rep: "rep = snd ?s2"
    using m by (auto simp: merge_attached_def and_then_eq_Inr Let_def split: prod.splits)
  have okv: "db_ok ?v" using ok(1) unfolding ensure_device_effect by (rule db_ok_stamp)
  have s2: "?s2 = fold (merge_uuid sha now ?L ?R ?lt ?rt) (merge_uuids ?v remote) ?s1"
    by (simp add: merge_items_def remote_records_current [OF s])
  have s1: "item_of (fst ?s1) u = ?L u" "tomb_of (fst ?s1) u = ?lt u"
    using fold_merge_lww_effect [of schema remote LWW_TABLES] by (simp_all add: sync_simps)
  have k: "keyed ?L" "keyed ?R" using keyed_db okv ok(2) by auto
  have d: "distinct (merge_uuids ?v remote)" by (simp add: merge_uuids_def)
  have skip2: "mp_skipped (snd (fold (merge_uuid sha now ?L ?R ?lt ?rt) (merge_uuids ?v remote) ?s1)) = []"
    using skip rep s2 by simp
  have i2: "item_of (fst ?s2) u = out \<and> (out = None \<longrightarrow> tomb_of (fst ?s2) u = ?lt u)"
  proof (cases "u \<in> set (merge_uuids ?v remote)")
    case True
    from merge_fold [OF k a d True s1(1) skip2] show ?thesis
      unfolding s2 out_def s1(2) .
  next
    case False
    then have "?L u = None" "?R u = None"
      by (auto simp: merge_uuids_def item_of_def map_of_eq_None_iff)
    then show ?thesis
      using merge_fold_other [OF k away_away_in [OF a] False skip2] s1 unfolding s2 out_def
      by (simp add: outcome_def)
  qed
  have dt: "distinct (map fst (sy_tombs remote))" using ok(2) by (simp add: db_ok_def)
  show "item_of v' u = out"
    unfolding v' preserve_effect merge_events_effect merge_tombs_effect(1) [OF dt] using i2 by blast
  show "tomb_of v' u = (if out = None then tomb_outcome (tomb_of (stamp v0) u) (?rt u) else None)"
    unfolding same v' preserve_effect merge_events_effect
    using merge_tombs_effect(2,3) [OF dt, of "fst ?s2" u ?v] i2 by auto
qed

end
