(* ===== verification/SyncSafety.thy ===== *)
theory SyncSafety
  imports SyncMerge
begin

text \<open>
  What a merge promises (the model of src/src/vault/merge.rs is in the theory SyncMerge):
  two copies that merge each other agree, no change of either side is forgotten, and the
  contents that lose a conflict stay as an archived copy.
\<close>

section \<open>Two copies that merge each other agree\<close>

text \<open>
  The content of a record: everything but its identity and version; the archive counts as
  on or off, and the times of a source row and of a member key do not count.
\<close>

definition source_content :: "short_lived_row option \<Rightarrow> short_lived_row option" where
  "source_content x = map_option (\<lambda>s. \<lparr>sl_kind = sl_kind s, sl_settings = sl_settings s,
     sl_enabled = sl_enabled s, sl_created = 0, sl_updated = 0\<rparr>) x"

definition content_of :: "mrec \<Rightarrow> mrec" where
  "content_of r =
     \<lparr>mr_uuid = [], mr_updated_at = 0, mr_updated_by = [], mr_clock = [],
      mr_title = mr_title r, mr_kind = mr_kind r, mr_notes = mr_notes r, mr_tags = mr_tags r,
      mr_fields = mr_fields r, mr_archived_at = map_option (\<lambda>_. 0) (mr_archived_at r),
      mr_declaration = mr_declaration r, mr_env = mr_env r, mr_destination = mr_destination r,
      mr_folder = mr_folder r, mr_always_ask = mr_always_ask r, mr_sources = mr_sources r,
      mr_shares = mr_shares r, mr_home = mr_home r,
      mr_short_lived = source_content (mr_short_lived r),
      mr_member_key = map_option (\<lambda>k. k\<lparr>mk_created := 0\<rparr>) (mr_member_key r)\<rparr>"

definition record_view :: "mrec \<Rightarrow> mrec \<times> version \<times> (string \<Rightarrow> nat)" where
  "record_view r = (content_of r, version_of r, clock_count (mr_clock r))"












lemma content_of_ignores [simp]:
  "content_of (r\<lparr>mr_updated_at := a, mr_updated_by := b, mr_clock := c\<rparr>) = content_of r"
  "content_of (r\<lparr>mr_updated_at := a, mr_updated_by := b\<rparr>) = content_of r"
  "content_of (r\<lparr>mr_uuid := u, mr_clock := c\<rparr>) = content_of r"
  "content_of (r\<lparr>mr_clock := c\<rparr>) = content_of r"
  "content_of (r\<lparr>mr_uuid := u\<rparr>) = content_of r"
  "content_of (r\<lparr>mr_uuid := u, mr_updated_at := a, mr_updated_by := b, mr_clock := c\<rparr>) = content_of r"
  by (simp_all add: content_of_def)


lemma record_view_uuid [simp]: "record_view (r\<lparr>mr_uuid := u\<rparr>) = record_view r"
  by (simp add: record_view_def version_of_def)




section \<open>Nothing is forgotten\<close>

text \<open>C23: After a merge that left out no variable, from a copy of schema 32 or later, every version of
  a credential that either copy held is accounted for: the credential is live with a clock that has
  every change of that version, or it is deleted and the tombstone had seen that version. The UUID
  of the credential is not that of a possible conflict copy of a credential that both copies
  have.\<close>

theorem merge_forgets_nothing:
  assumes "merge_attached sha now schema remote v0 = Inr (v', rep)"
    and "SHORT_LIVED_SCHEMA_VERSION \<le> schema" and "db_ok v0" and "db_ok remote"
    and "mp_skipped rep = []" and "away sha (item_of (stamp v0)) (item_of remote) u"
    and r: "item_of (stamp v0) u = Some r \<or> item_of remote u = Some r"
  shows "case item_of v' u of
       Some x \<Rightarrow> covers (mr_clock x) (mr_clock r)
     | None \<Rightarrow> \<exists>t. tomb_of v' u = Some t \<and> covers (tb_clock t) (mr_clock r)"
proof -
  have ok: "db_ok (stamp v0)" using assms(3) by (rule db_ok_stamp)
  note e = merge_attached_effect [OF assms(1-6)]
  have clk: "\<And>x. item_of remote u = Some x \<Longrightarrow> clock_ok (mr_clock x)"
    using db_ok_clock [OF assms(4)] by blast
  have dead: "item_of (stamp v0) u \<noteq> None \<Longrightarrow> tomb_of (stamp v0) u = None"
    "item_of remote u \<noteq> None \<Longrightarrow> tomb_of remote u = None"
    using db_ok_disjoint ok assms(4) by blast+
  have c: "mr_clock (with_kept a b x) = mr_clock x" for a b x
    by (simp add: with_kept_def Let_def)
  have j: "mr_clock (settled_base sha a b) = joined (mr_clock a) (mr_clock b)" for a b
    by (simp add: settled_base_def Let_def)
  show ?thesis
  proof (cases "item_of (stamp v0) u")
    case None
    then have R: "item_of remote u = Some r" using r by simp
    then show ?thesis
      using dead(2) None
      by (cases "tomb_of (stamp v0) u")
        (auto simp: e outcome_def tomb_outcome_def seen_delete_def compare_clocks_spec split: if_splits)
  next
    case (Some a)
    note L = this
    show ?thesis
    proof (cases "item_of remote u")
      case None
      then show ?thesis
        using dead(1) r L
        by (cases "tomb_of remote u")
          (auto simp: e outcome_def tomb_outcome_def seen_delete_def compare_clocks_spec split: if_splits)
    next
      case (Some b)
      then show ?thesis
        using r L clk [OF Some]
        by (auto simp: e outcome_def compare_clocks_spec c j covers_joined)
    qed
  qed
qed

section \<open>The loser of a conflict stays\<close>

definition same_data :: "mrec \<Rightarrow> mrec \<Rightarrow> bool" where
  "same_data r x \<longleftrightarrow> mr_kind x = mr_kind r \<and> mr_notes x = mr_notes r \<and> mr_tags x = mr_tags r
     \<and> mr_fields x = mr_fields r \<and> mr_folder x = mr_folder r"

definition archived_copy :: "int \<Rightarrow> mrec \<Rightarrow> mrec \<Rightarrow> bool" where
  "archived_copy now r x \<longleftrightarrow> same_data r x \<and> mr_archived_at x = Some now \<and> mr_env x = None
     \<and> version_of x = version_of r"

definition loser_of :: "mrec \<Rightarrow> mrec \<Rightarrow> mrec" where
  "loser_of ours theirs = (if version_less (version_of ours) (version_of theirs) then ours else theirs)"

definition winner_of :: "mrec \<Rightarrow> mrec \<Rightarrow> mrec" where
  "winner_of ours theirs = (if version_less (version_of ours) (version_of theirs) then theirs else ours)"

lemma keep_conflict_copy_new:
  assumes "item_of (fst s) (conflict_uuid sha r) = None"
  shows "\<exists>x. item_of (fst (keep_conflict_copy sha now r s)) (conflict_uuid sha r) = Some x
    \<and> archived_copy now r x"
  using assms
  by (cases s) (simp add: keep_conflict_copy_def Let_def written_def sync_simps archived_copy_def
      same_data_def version_of_def)

lemma replace_record_others:
  "w \<noteq> mr_uuid ours \<Longrightarrow> item_of (fst (replace_record ours theirs c t)) w = item_of (fst t) w"
  by (simp add: replace_record_def Let_def sync_simps split: prod.split)

lemma merge_concurrent_copy:
  assumes "content_hash sha ours \<noteq> content_hash sha theirs"
    and "item_of (fst s) (conflict_uuid sha (loser_of ours theirs)) = None"
    and n: "conflict_uuid sha (loser_of ours theirs) \<noteq> mr_uuid ours"
  shows "\<exists>x. item_of (fst (merge_concurrent sha now ours theirs s)) (conflict_uuid sha (loser_of ours theirs)) = Some x
    \<and> archived_copy now (loser_of ours theirs) x"
proof -
  let ?w = "conflict_uuid sha (loser_of ours theirs)" and ?d = "drop_scope sha ours theirs s"
  have "\<exists>x. item_of (fst (merge_contents sha now ours theirs ?d)) ?w = Some x
      \<and> archived_copy now (loser_of ours theirs) x"
  proof (cases "version_less (version_of ours) (version_of theirs)")
    case True
    then have "item_of (fst (merge_contents sha now ours theirs ?d)) ?w
        = item_of (fst (keep_conflict_copy sha now ours ?d)) ?w"
      using assms(1) replace_record_others [OF n]
      by (simp add: merge_contents_def Let_def split: prod.split) (metis fst_conv)
    then show ?thesis
      using True keep_conflict_copy_new [of ?d sha ours now] assms(2)
      by (simp add: loser_of_def sync_simps)
  next
    case False
    then have "item_of (fst (merge_contents sha now ours theirs ?d)) ?w
        = item_of (fst (keep_conflict_copy sha now theirs ?d)) ?w"
      using assms(1) n by (simp add: merge_contents_def Let_def sync_simps split: prod.split)
    then show ?thesis
      using False keep_conflict_copy_new [of ?d sha theirs now] assms(2)
      by (simp add: loser_of_def sync_simps)
  qed
  then show ?thesis
    using n by (simp add: merge_concurrent_def keep_source_def keep_always_ask_def sync_simps
        split: prod.split) (metis fst_conv)
qed

lemma merge_attached_copy:
  assumes m: "merge_attached sha now schema remote v0 = Inr (v', rep)"
    and s: "SHORT_LIVED_SCHEMA_VERSION \<le> schema" and ok: "db_ok v0" "db_ok remote"
    and skip: "mp_skipped rep = []"
    and r: "item_of (stamp v0) u = Some r" and t: "item_of remote u = Some t"
    and conc: "compare_clocks (mr_clock r) (mr_clock t) = ConcurrentClocks"
    and h: "content_hash sha r \<noteq> content_hash sha t"
    and new: "item_of (stamp v0) (conflict_uuid sha (loser_of r t)) = None"
      "item_of remote (conflict_uuid sha (loser_of r t)) = None"
    and o': "\<And>w a b. w \<noteq> u \<Longrightarrow> item_of (stamp v0) w = Some a \<Longrightarrow> item_of remote w = Some b
      \<Longrightarrow> far sha a b (conflict_uuid sha (loser_of r t))"
  shows "\<exists>x. item_of v' (conflict_uuid sha (loser_of r t)) = Some x \<and> archived_copy now (loser_of r t) x"
proof -
  let ?v = "stamp (ensure_device sha now v0)" and ?w = "conflict_uuid sha (loser_of r t)"
  note same = ensure_device_effect [of sha now v0, symmetric]
  note r = r [unfolded same] and new = new [unfolded same] and o' = o' [unfolded same]
  let ?L = "item_of ?v" and ?R = "item_of remote" and ?lt = "tomb_of ?v" and ?rt = "tomb_of remote"
  let ?s1 = "fold (merge_lww schema remote) LWW_TABLES
      (?v\<lparr>sy_peers := merge_peers (sy_peers remote) (sy_peers ?v)\<rparr>, empty_report)"
  let ?m = "merge_uuid sha now ?L ?R ?lt ?rt"
  let ?s2 = "merge_items sha now schema remote ?v ?s1"
  have v': "item_of v' ?w = item_of (fst ?s2) ?w" and rep: "rep = snd ?s2"
    using m ok(2) merge_tombs_effect(1) [of remote]
    by (auto simp: merge_attached_def and_then_eq_Inr Let_def preserve_effect merge_events_effect
        db_ok_def split: prod.splits)
  have s2: "?s2 = fold ?m (merge_uuids ?v remote) ?s1"
    by (simp add: merge_items_def remote_records_current [OF s])
  have k: "keyed ?L" "keyed ?R" using keyed_db db_ok_stamp ok by (auto simp: ensure_device_effect)
  have ru: "mr_uuid r = u" using k(1) r by (simp add: keyed_def)
  have wu: "?w \<noteq> u" using new(1) r by auto
  have d: "distinct (merge_uuids ?v remote)" by (simp add: merge_uuids_def)
  have "u \<in> set (merge_uuids ?v remote)"
    using t by (auto simp: merge_uuids_def item_of_def dest!: map_of_SomeD intro: rev_image_eqI)
  then obtain xs ys where us: "merge_uuids ?v remote = xs @ u # ys" and n: "u \<notin> set xs" "u \<notin> set ys"
    using d by (metis distinct.simps(2) distinct_append not_distinct_conv_prefix split_list_first split_list)
  have "?w \<notin> set (merge_uuids ?v remote)"
    using new by (simp add: merge_uuids_def item_of_def map_of_eq_None_iff)
  then have out: "?w \<notin> set xs" "?w \<notin> set ys" by (simp_all add: us)
  have aw: "away_in sha ?L ?R ?w xs" "away_in sha ?L ?R ?w ys"
    using o' n unfolding away_in_def by metis+
  let ?a = "fold ?m xs ?s1"
  have f: "fst ?s2 = fst (fold ?m ys (?m u ?a))" and sk: "mp_skipped (snd (fold ?m ys (?m u ?a))) = []"
    using skip rep s2 by (simp_all add: us)
  note tail = merge_fold_other [OF k aw(2) out(2) sk]
  have sk1: "mp_skipped (snd ?a) = []" using merge_uuid_skips tail by blast
  have "item_of (fst ?s1) ?w = None"
    using fold_merge_lww_effect [of schema remote LWW_TABLES] new(1) by (simp add: sync_simps)
  then have "item_of (fst ?a) ?w = None"
    using merge_fold_other [OF k aw(1) out(1) sk1] by simp
  then have "\<exists>x. item_of (fst (?m u ?a)) ?w = Some x \<and> archived_copy now (loser_of r t) x"
    using merge_concurrent_copy [OF h, of ?a now] wu ru conc by (simp add: merge_uuid_def r t)
  then show ?thesis using tail by (simp add: v' f)
qed

text \<open>C24: When both copies changed one credential apart and the contents differ, the later
  version stays at the credential and the earlier one stays as an archived credential with
  all its fields, notes, tags and folder. This holds for a copy of schema 32 or later, when the merge
  left out no variable, the UUID of the archived copy is new in both copies and no other pair of
  credentials has it as that of a conflict copy, and the credential itself is no such copy. When a
  credential with that UUID is there already, the code keeps that one as it is.\<close>

theorem conflict_keeps_both:
  assumes "merge_attached sha now schema remote v0 = Inr (v', rep)"
    and "SHORT_LIVED_SCHEMA_VERSION \<le> schema" and "db_ok v0" and "db_ok remote"
    and "mp_skipped rep = []" and "away sha (item_of (stamp v0)) (item_of remote) u"
    and "item_of (stamp v0) u = Some r" and "item_of remote u = Some t"
    and "compare_clocks (mr_clock r) (mr_clock t) = ConcurrentClocks"
    and "content_hash sha r \<noteq> content_hash sha t"
    and "item_of (stamp v0) (conflict_uuid sha (loser_of r t)) = None"
    and "item_of remote (conflict_uuid sha (loser_of r t)) = None"
    and "\<And>w a b. w \<noteq> u \<Longrightarrow> item_of (stamp v0) w = Some a \<Longrightarrow> item_of remote w = Some b
      \<Longrightarrow> far sha a b (conflict_uuid sha (loser_of r t))"
  shows "\<exists>x y. item_of v' u = Some x \<and> same_data (winner_of r t) x
      \<and> version_of x = version_of (winner_of r t)
      \<and> item_of v' (conflict_uuid sha (loser_of r t)) = Some y \<and> archived_copy now (loser_of r t) y"
proof -
  have "item_of v' u = Some (with_kept r t (settled_base sha r t))"
    using merge_attached_effect(1) [OF assms(1-6)] assms(7-9) by (simp add: outcome_def)
  moreover have "same_data (winner_of r t) (with_kept r t (settled_base sha r t))
      \<and> version_of (with_kept r t (settled_base sha r t)) = version_of (winner_of r t)"
    using assms(10)
    by (simp add: same_data_def with_kept_def settled_base_def winner_of_def version_of_def Let_def)
  moreover have "\<exists>y. item_of v' (conflict_uuid sha (loser_of r t)) = Some y \<and> archived_copy now (loser_of r t) y"
    by (rule merge_attached_copy [OF assms(1-5,7-12)]) (rule assms(13))
  ultimately show ?thesis by blast
qed

section \<open>Two Macs that edited one credential apart\<close>

definition sample_record :: "string \<Rightarrow> int \<Rightarrow> string \<Rightarrow> string \<Rightarrow> mrec" where
  "sample_record u t by v =
     \<lparr>mr_uuid = u, mr_updated_at = t, mr_updated_by = by, mr_clock = [(''a'', 1)],
      mr_title = ''key'', mr_kind = ''login'', mr_notes = [], mr_tags = [],
      mr_fields = [(''password'', v, 1)], mr_archived_at = None, mr_declaration = None,
      mr_env = Some (''KEY'', ''password'', None), mr_destination = None, mr_folder = None,
      mr_always_ask = False, mr_sources = None, mr_shares = [], mr_home = None,
      mr_short_lived = None, mr_member_key = None\<rparr>"

definition sample_copy :: "string \<Rightarrow> mrec \<Rightarrow> sync_db" where
  "sample_copy device r =
     \<lparr>sy_vault_id = ''v'', sy_device = device, sy_device_name = ''Mac '' @ device, sy_peers = [],
      sy_items = [(mr_uuid r, r)], sy_tombs = [], sy_stamps = [(mr_uuid r, (1, ''a''))],
      sy_events = [], sy_lww = (\<lambda>_. []), sy_scopes = [], sy_exec_grants = []\<rparr>"

definition mac_a :: sync_db where
  "mac_a = sample_copy ''a'' (sample_record ''u1'' 5 ''a'' ''red'')"

definition mac_b :: sync_db where
  "mac_b = sample_copy ''b'' (sample_record ''u1'' 7 ''b'' ''blue'')"

definition merged :: "sync_db \<Rightarrow> sync_db \<Rightarrow> sync_db \<times> merge_report" where
  "merged x y = projr (merge_attached id 100 SCHEMA_VERSION x y)"

lemma merged_result:
  "merge_attached id 100 SCHEMA_VERSION (stamp mac_b) mac_a
     = Inr (fst (merged (stamp mac_b) mac_a), snd (merged (stamp mac_b) mac_a))"
  "merge_attached id 100 SCHEMA_VERSION (stamp mac_a) mac_b
     = Inr (fst (merged (stamp mac_a) mac_b), snd (merged (stamp mac_a) mac_b))"
proof -
  have "\<not> isl (merge_attached id 100 SCHEMA_VERSION (stamp mac_b) mac_a)"
    "\<not> isl (merge_attached id 100 SCHEMA_VERSION (stamp mac_a) mac_b)"
    by code_simp+
  then show "merge_attached id 100 SCHEMA_VERSION (stamp mac_b) mac_a
     = Inr (fst (merged (stamp mac_b) mac_a), snd (merged (stamp mac_b) mac_a))"
    "merge_attached id 100 SCHEMA_VERSION (stamp mac_a) mac_b
     = Inr (fst (merged (stamp mac_a) mac_b), snd (merged (stamp mac_a) mac_b))"
    by (simp_all add: merged_def)
qed

lemma merged_skips:
  "mp_skipped (snd (merged (stamp mac_b) mac_a)) = []"
  "mp_skipped (snd (merged (stamp mac_a) mac_b)) = []"
  by code_simp+

lemma macs_ok: "db_ok mac_a" "db_ok mac_b"
  by code_simp+

definition red :: mrec where
  "red = (sample_record ''u1'' 5 ''a'' ''red'')\<lparr>mr_clock := [(''a'', 2)]\<rparr>"

definition blue :: mrec where
  "blue = (sample_record ''u1'' 7 ''b'' ''blue'')\<lparr>mr_clock := [(''a'', 1), (''b'', 1)]\<rparr>"

lemma macs_items: "sy_items (stamp mac_a) = [(''u1'', red)]" "sy_items (stamp mac_b) = [(''u1'', blue)]"
  by code_simp+

lemma red_blue:
  "compare_clocks (mr_clock red) (mr_clock blue) = ConcurrentClocks"
  "content_hash id red \<noteq> content_hash id blue" "version_of red \<noteq> version_of blue"
  "conflict_uuid id red \<noteq> ''u1''" "conflict_uuid id blue \<noteq> ''u1''"
  by code_simp+

lemma macs_item: "item_of (stamp mac_a) w = (if w = ''u1'' then Some red else None)"
  "item_of (stamp mac_b) w = (if w = ''u1'' then Some blue else None)"
  by (simp_all add: item_of_def macs_items)

lemma macs_away: "away id (item_of (stamp mac_a)) (item_of (stamp mac_b)) ''u1''"
  using red_blue(4,5) by (auto simp: away_def far_def macs_item split: if_splits)



lemma sample_schema: "SHORT_LIVED_SCHEMA_VERSION \<le> SCHEMA_VERSION"
  by (simp add: SHORT_LIVED_SCHEMA_VERSION_def SCHEMA_VERSION_def)

lemmas macs_facts =
  merged_result(1) sample_schema macs_ok(1) db_ok_stamp [OF macs_ok(2)] merged_skips(1)

theorem merge_forgets_nothing_witness:
  "case item_of (fst (merged (stamp mac_b) mac_a)) ''u1'' of
       Some x \<Rightarrow> covers (mr_clock x) (mr_clock blue)
     | None \<Rightarrow> \<exists>t. tomb_of (fst (merged (stamp mac_b) mac_a)) ''u1'' = Some t
         \<and> covers (tb_clock t) (mr_clock blue)"
  by (rule merge_forgets_nothing [OF macs_facts macs_away]) (simp add: macs_item)

theorem conflict_keeps_both_witness:
  "\<exists>x y. item_of (fst (merged (stamp mac_b) mac_a)) ''u1'' = Some x \<and> same_data (winner_of red blue) x
      \<and> version_of x = version_of (winner_of red blue)
      \<and> item_of (fst (merged (stamp mac_b) mac_a)) (conflict_uuid id (loser_of red blue)) = Some y
      \<and> archived_copy 100 (loser_of red blue) y"
proof (rule conflict_keeps_both [OF macs_facts macs_away _ _ red_blue(1,2)])
  show "item_of (stamp mac_a) ''u1'' = Some red" "item_of (stamp mac_b) ''u1'' = Some blue"
    by (simp_all add: macs_item)
  show "item_of (stamp mac_a) (conflict_uuid id (loser_of red blue)) = None"
    "item_of (stamp mac_b) (conflict_uuid id (loser_of red blue)) = None"
    using red_blue(4,5) by (simp_all add: loser_of_def macs_item)
qed (simp add: macs_item split: if_splits)

section \<open>A variable that moved\<close>

text \<open>
  On the Mac \<open>b\<close> the owner moved the variable \<open>KEY\<close> from the credential \<open>u2\<close> to \<open>u1\<close>. The
  merge at \<open>a\<close> takes \<open>u1\<close> first, while \<open>u2\<close> still has the name: the variable is left out, then
  removed at \<open>u2\<close>. Both clocks are those of \<open>b\<close> then, so no later merge brings it back.
\<close>

definition bare :: "string \<Rightarrow> int \<Rightarrow> string \<Rightarrow> mrec" where
  "bare u t by = (sample_record u t by ''red'')\<lparr>mr_env := None\<rparr>"

definition two_keys :: "string \<Rightarrow> mrec list \<Rightarrow> sync_db" where
  "two_keys device rs = (sample_copy device (hd rs))\<lparr>
     sy_items := map (\<lambda>r. (mr_uuid r, r)) rs, sy_stamps := map (\<lambda>r. (mr_uuid r, (1, ''a''))) rs\<rparr>"

definition before_move :: sync_db where
  "before_move = two_keys ''a'' [bare ''u1'' 1 ''a'', sample_record ''u2'' 1 ''a'' ''red'']"

definition after_move :: sync_db where
  "after_move = two_keys ''b'' [sample_record ''u1'' 9 ''b'' ''red'', bare ''u2'' 9 ''b'']"

lemma moved_variable_is_dropped:
  "map (mr_env \<circ> snd) (sy_items (fst (merged (stamp after_move) before_move))) = [None, None]"
  "map (mr_clock \<circ> snd) (sy_items (fst (merged (stamp after_move) before_move)))
     = map (mr_clock \<circ> snd) (sy_items (stamp after_move))"
  "map (mr_env \<circ> snd) (sy_items (stamp after_move)) = [Some (''KEY'', ''password'', None), None]"
  by code_simp+

end
