(* ===== verification/Devices.thy ===== *)
theory Devices
  imports Vault "HOL-Library.Product_Lexorder" "HOL-Library.Code_Target_Nat"
begin

text \<open>
  The devices that may answer the questions of a vault and the keys of this Mac in relay
  teams (src/src/vault/trusted_device.rs, relay_device.rs and questions.rs): the rows of
  \<open>trusted_device\<close>, \<open>relay_membership\<close>, \<open>vault_secret\<close> and \<open>item_home\<close>, and the operations of
  these files on them. The two writers that take rows of another device, the handoff of a pairing
  and the vault merge, are in the theory Handoff. A key is the list of its bytes. A column that
  holds JSON text is what the text decodes to, or \<open>None\<close> for a text that does not decode. The clock and random bytes are
  arguments. An operation is one transaction unless it says otherwise: it returns the new
  state, or an error and changes nothing.
\<close>

section \<open>Rows\<close>

datatype device_kind = Mac | Iphone | Watch

fun device_kind_str :: "device_kind \<Rightarrow> string" where
  "device_kind_str Mac = ''mac''"
| "device_kind_str Iphone = ''iphone''"
| "device_kind_str Watch = ''watch''"

definition device_kind_parse :: "string \<Rightarrow> device_kind option" where
  "device_kind_parse t =
     (if t = ''mac'' then Some Mac else if t = ''iphone'' then Some Iphone
      else if t = ''watch'' then Some Watch else None)"

datatype purpose = PurposeSync | PurposeQuestions | PurposeShare

fun purpose_str :: "purpose \<Rightarrow> string" where
  "purpose_str PurposeSync = ''sync''"
| "purpose_str PurposeQuestions = ''questions''"
| "purpose_str PurposeShare = ''share''"

definition purpose_parse :: "string \<Rightarrow> purpose option" where
  "purpose_parse t =
     (if t = ''sync'' then Some PurposeSync else if t = ''questions'' then Some PurposeQuestions
      else if t = ''share'' then Some PurposeShare else None)"

interpretation device_kind_name: stored_name device_kind_str "\<lambda>t. ok_or Storage (device_kind_parse t)"
proof
  show "ok_or Storage (device_kind_parse (device_kind_str k)) = Inr k" for k
    by (cases k) (simp_all add: device_kind_parse_def)
  show "ok_or Storage (device_kind_parse t) = Inr k \<Longrightarrow> t = device_kind_str k" for t k
    by (auto simp: device_kind_parse_def split: if_splits)
qed

interpretation purpose_name: stored_name purpose_str "\<lambda>t. ok_or Storage (purpose_parse t)"
proof
  show "ok_or Storage (purpose_parse (purpose_str k)) = Inr k" for k
    by (cases k) (simp_all add: purpose_parse_def)
  show "ok_or Storage (purpose_parse t) = Inr k \<Longrightarrow> t = purpose_str k" for t k
    by (auto simp: purpose_parse_def split: if_splits)
qed

record trusted_device =
  td_uuid :: string
  td_name :: string
  td_kind :: device_kind
  td_relay :: "(string \<times> nat) list"
  td_sign :: string
  td_answer :: "string option"
  td_created :: nat
  td_updated :: int
  td_by :: string

record raw_device =
  rd_uuid :: string
  rd_name :: string
  rd_kind :: string
  rd_relay :: "(string \<times> nat) list option"
  rd_sign :: string
  rd_answer :: "string option"
  rd_created :: int
  rd_updated :: int
  rd_by :: string
  rd_deleted :: "int option"

record membership =
  ms_team :: string
  ms_url :: string
  ms_device :: nat
  ms_public :: string
  ms_key :: string
  ms_purposes :: "purpose set"
  ms_created :: nat
  ms_pin :: "string option"
  ms_alt :: "string list"

datatype key_source = KeyVault | KeyAccount

text \<open>The column \<open>alt\<close> is NULL, or a text that decodes or not.\<close>

record member_row =
  mb_team :: string
  mb_url :: string
  mb_device :: int
  mb_public :: string
  mb_key :: string
  mb_purposes :: "string list option"
  mb_created :: int
  mb_pin :: "string option"
  mb_alt :: "string list option option"
  mb_source :: key_source

record item_home =
  ih_shared :: string
  ih_home :: string

record relay_vault =
  rl_open :: bool
  rl_device :: "string option"
  rl_devices :: "raw_device list"
  rl_members :: "member_row list"
  rl_secrets :: "(string \<times> string \<times> int \<times> string) list"
  rl_items :: "int list"
  rl_homes :: "(int \<times> item_home) list"

definition rl_conn :: "relay_vault \<Rightarrow> verr + unit" where
  "rl_conn v = require Locked (rl_open v)"

section \<open>Shapes\<close>

definition MAX_TRUSTED_DEVICE_NAME_BYTES :: nat where
  "MAX_TRUSTED_DEVICE_NAME_BYTES = 64"

definition MAX_UUID_BYTES :: nat where
  "MAX_UUID_BYTES = 64"

definition P256_POINT_BYTES :: nat where
  "P256_POINT_BYTES = 65"

definition MAX_URL_BYTES :: nat where
  "MAX_URL_BYTES = 2048"

definition MAX_KEY_BYTES :: nat where
  "MAX_KEY_BYTES = 512"

definition MAX_ALTERNATIVES :: nat where
  "MAX_ALTERNATIVES = 4"

definition MAX_ALTERNATIVE_BYTES :: nat where
  "MAX_ALTERNATIVE_BYTES = 263"

definition MAX_ALT_JSON_BYTES :: nat where
  "MAX_ALT_JSON_BYTES = 1100"

definition valid_team_id :: "string \<Rightarrow> bool" where
  "valid_team_id t \<longleftrightarrow> length t = 12 \<and> starts_with t ''t_''
     \<and> list_all (\<lambda>c. is_ascii_lower c \<or> is_ascii_digit c) (drop 2 t)"

definition valid_point :: "string \<Rightarrow> bool" where
  "valid_point key \<longleftrightarrow> length key = P256_POINT_BYTES \<and> byte (hd key) = 4"

definition valid_relay_identity :: "string \<Rightarrow> string \<Rightarrow> nat \<Rightarrow> string \<Rightarrow> string \<Rightarrow> bool" where
  "valid_relay_identity url team device public key \<longleftrightarrow>
     url \<noteq> [] \<and> length url \<le> MAX_URL_BYTES \<and> list_all (\<lambda>c. byte c < 128) url
     \<and> \<not> list_ex is_control (chars url) \<and> valid_team_id team
     \<and> 1 \<le> device \<and> device \<le> i64_max \<and> length public = 65 \<and> byte (hd public) = 4
     \<and> key \<noteq> [] \<and> length key \<le> MAX_KEY_BYTES"

definition valid_account_identity :: "string \<Rightarrow> string \<Rightarrow> nat \<Rightarrow> string \<Rightarrow> bool" where
  "valid_account_identity url team device public \<longleftrightarrow>
     valid_relay_identity url team device public [CHR 0x00]"

definition is_ascii_graphic :: "char \<Rightarrow> bool" where
  "is_ascii_graphic c \<longleftrightarrow> 33 \<le> byte c \<and> byte c \<le> 126"

text \<open>The JSON text of a list of printable ASCII texts.\<close>

definition json_string :: "string \<Rightarrow> string" where
  "json_string s = quote (concat (map (\<lambda>c. if c = CHR 0x22 \<or> c = CHR 0x5C then [CHR 0x5C, c] else [c]) s))"

definition alt_json :: "string list \<Rightarrow> string option" where
  "alt_json alt = (if alt = [] then None
     else Some (''['' @ join_with '','' (map json_string alt) @ '']''))"

definition valid_trust :: "string option \<Rightarrow> string list \<Rightarrow> bool" where
  "valid_trust pin alt \<longleftrightarrow>
     (case pin of None \<Rightarrow> True
      | Some p \<Rightarrow> length p = 43
          \<and> list_all (\<lambda>c. is_ascii_alphanumeric c \<or> c = CHR ''-'' \<or> c = CHR ''_'') p)
     \<and> length alt \<le> MAX_ALTERNATIVES \<and> (alt = [] \<or> pin \<noteq> None)
     \<and> list_all (\<lambda>e. e \<noteq> [] \<and> length e \<le> MAX_ALTERNATIVE_BYTES
          \<and> list_all (\<lambda>c. is_ascii_graphic c \<and> c \<noteq> CHR '','') e) alt
     \<and> (case alt_json alt of None \<Rightarrow> True | Some j \<Rightarrow> length j \<le> MAX_ALT_JSON_BYTES)"

definition membership_is_valid :: "membership \<Rightarrow> bool" where
  "membership_is_valid m \<longleftrightarrow>
     valid_relay_identity (ms_url m) (ms_team m) (ms_device m) (ms_public m) (ms_key m)
     \<and> valid_trust (ms_pin m) (ms_alt m)"

definition valid_uuid :: "string \<Rightarrow> bool" where
  "valid_uuid u \<longleftrightarrow> u \<noteq> [] \<and> length u \<le> MAX_UUID_BYTES
     \<and> list_all (\<lambda>c. is_ascii_alphanumeric c \<or> c = CHR ''-'') u"

definition checked_name :: "string \<Rightarrow> verr + string" where
  "checked_name name =
     (let t = trim name
      in if t = [] \<or> MAX_TRUSTED_DEVICE_NAME_BYTES < length t \<or> list_ex is_control (chars t)
         then Inl InvalidInput else Inr t)"

definition valid_relay_number :: "nat \<Rightarrow> bool" where
  "valid_relay_number i \<longleftrightarrow> 1 \<le> i \<and> i \<le> i64_max"

section \<open>Reading rows\<close>

definition parse_relay_devices :: "(string \<times> nat) list option \<Rightarrow> verr + (string \<times> nat) list" where
  "parse_relay_devices x = (case x of
       None \<Rightarrow> Inl Storage
     | Some al \<Rightarrow> if list_all (\<lambda>(team, i). valid_team_id team \<and> valid_relay_number i) al
                  then Inr al else Inl Storage)"

definition into_device :: "raw_device \<Rightarrow> verr + trusted_device" where
  "into_device r =
     and_then (ok_or Storage (device_kind_parse (rd_kind r))) (\<lambda>kind.
     and_then (parse_relay_devices (rd_relay r)) (\<lambda>relay.
     and_then (from_sql_time (rd_created r)) (\<lambda>created.
     Inr \<lparr>td_uuid = rd_uuid r, td_name = rd_name r, td_kind = kind, td_relay = relay,
          td_sign = rd_sign r, td_answer = rd_answer r, td_created = created,
          td_updated = rd_updated r, td_by = rd_by r\<rparr>)))"

fun collect :: "('a \<Rightarrow> verr + 'b) \<Rightarrow> 'a list \<Rightarrow> verr + 'b list" where
  "collect f [] = Inr []"
| "collect f (x # xs) = and_then (f x) (\<lambda>y. and_then (collect f xs) (\<lambda>ys. Inr (y # ys)))"

definition live :: "raw_device \<Rightarrow> bool" where
  "live r \<longleftrightarrow> rd_deleted r = None"

definition live_rows :: "relay_vault \<Rightarrow> raw_device list" where
  "live_rows v = sort_key (\<lambda>r. (rd_created r, rd_name r, rd_uuid r)) (filter live (rl_devices v))"

definition trusted_devices :: "relay_vault \<Rightarrow> verr + trusted_device list" where
  "trusted_devices v = and_then (rl_conn v) (\<lambda>_. collect into_device (live_rows v))"

definition live_device :: "relay_vault \<Rightarrow> string \<Rightarrow> verr + trusted_device option" where
  "live_device v u =
     (case List.find (\<lambda>r. rd_uuid r = u \<and> live r) (rl_devices v) of
        None \<Rightarrow> Inr None
      | Some r \<Rightarrow> and_then (into_device r) (\<lambda>d. Inr (Some d)))"

definition trusted_device_of :: "string \<Rightarrow> relay_vault \<Rightarrow> verr + trusted_device option" where
  "trusted_device_of u v = and_then (rl_conn v) (\<lambda>_. live_device v u)"

definition key_removed :: "relay_vault \<Rightarrow> string \<Rightarrow> bool" where
  "key_removed v key \<longleftrightarrow>
     list_ex (\<lambda>r. \<not> live r \<and> (rd_sign r = key \<or> rd_answer r = Some key)) (rl_devices v)"

definition trusted_key_removed :: "string \<Rightarrow> relay_vault \<Rightarrow> verr + bool" where
  "trusted_key_removed key v = and_then (rl_conn v) (\<lambda>_. Inr (key_removed v key))"

definition trusted_device_by_relay_id ::
    "string \<Rightarrow> nat \<Rightarrow> relay_vault \<Rightarrow> verr + trusted_device option" where
  "trusted_device_by_relay_id team i v =
     and_then (trusted_devices v) (\<lambda>ds.
       case filter (\<lambda>d. map_of (td_relay d) team = Some i) ds of
         [d] \<Rightarrow> Inr (Some d)
       | _ \<Rightarrow> Inr None)"

section \<open>Changing devices\<close>

definition next_version :: "relay_vault \<Rightarrow> int \<Rightarrow> int option \<Rightarrow> int \<times> string" where
  "next_version v now previous =
     (case previous of None \<Rightarrow> now | Some p \<Rightarrow> max now (min (p + 1) (int i64_max)),
      case rl_device v of None \<Rightarrow> [] | Some d \<Rightarrow> d)"

definition device_at :: "relay_vault \<Rightarrow> string \<Rightarrow> raw_device option" where
  "device_at v u = find_row rd_uuid (rl_devices v) u"

definition update_device :: "string \<Rightarrow> (raw_device \<Rightarrow> raw_device) \<Rightarrow> relay_vault \<Rightarrow> relay_vault" where
  "update_device u f v = v\<lparr>rl_devices := map (\<lambda>r. if rd_uuid r = u then f r else r) (rl_devices v)\<rparr>"

definition read_stored :: "relay_vault \<Rightarrow> string \<Rightarrow> verr + trusted_device \<times> relay_vault" where
  "read_stored v u = and_then (live_device v u) (\<lambda>d. and_then (ok_or Storage d) (\<lambda>d. Inr (d, v)))"

definition register_trusted_device ::
    "nat \<Rightarrow> int \<Rightarrow> string \<Rightarrow> string \<Rightarrow> device_kind \<Rightarrow> string \<Rightarrow> string option \<Rightarrow> relay_vault
      \<Rightarrow> verr + trusted_device \<times> relay_vault" where
  "register_trusted_device secs ms u name kind sign answer v =
     and_then (checked_name name) (\<lambda>name.
     and_then (require InvalidInput (valid_uuid u \<and> valid_point sign
        \<and> (case answer of None \<Rightarrow> True | Some k \<Rightarrow> valid_point k))) (\<lambda>_.
     and_then (rl_conn v) (\<lambda>_.
     and_then (require AlreadyExists (\<not> key_removed v sign
        \<and> (case answer of None \<Rightarrow> True | Some k \<Rightarrow> \<not> key_removed v k))) (\<lambda>_.
     case device_at v u of
       Some r \<Rightarrow>
         if \<not> live r then Inl AlreadyExists
         else (let (at', by') = next_version v ms (Some (rd_updated r))
               in read_stored (update_device u (\<lambda>r. r\<lparr>rd_name := name,
                    rd_kind := device_kind_str kind, rd_sign := sign, rd_answer := answer,
                    rd_updated := at', rd_by := by'\<rparr>) v) u)
     | None \<Rightarrow>
         (let (at', by') = next_version v ms None
          in and_then (to_sql_time secs) (\<lambda>created.
             read_stored (v\<lparr>rl_devices := rl_devices v @
               [\<lparr>rd_uuid = u, rd_name = name, rd_kind = device_kind_str kind, rd_relay = Some [],
                 rd_sign = sign, rd_answer = answer, rd_created = created, rd_updated = at',
                 rd_by = by', rd_deleted = None\<rparr>]\<rparr>) u))))))"

text \<open>\<open>BTreeMap::insert\<close> and \<open>remove\<close> on the numbers of a device.\<close>

fun map_put :: "string \<Rightarrow> nat \<Rightarrow> (string \<times> nat) list \<Rightarrow> (string \<times> nat) list" where
  "map_put k n [] = [(k, n)]"
| "map_put k n ((l, m) # al) =
     (if k < l then (k, n) # (l, m) # al
      else if k = l then (k, n) # al else (l, m) # map_put k n al)"

definition change_relay_devices ::
    "int \<Rightarrow> string
      \<Rightarrow> (trusted_device list \<Rightarrow> (string \<times> nat) list \<Rightarrow> verr + bool \<times> (string \<times> nat) list)
      \<Rightarrow> relay_vault \<Rightarrow> verr + bool \<times> relay_vault" where
  "change_relay_devices ms u change v =
     and_then (trusted_devices v) (\<lambda>ds.
     and_then (live_device v u) (\<lambda>d.
     and_then (ok_or NotFound d) (\<lambda>d.
     and_then (change ds (td_relay d)) (\<lambda>(changed, al).
       if \<not> changed then Inr (False, v)
       else (let (at', by') = next_version v ms (Some (td_updated d))
             in Inr (True, update_device u (\<lambda>r. r\<lparr>rd_relay := Some al, rd_updated := at',
                  rd_by := by'\<rparr>) v))))))"

definition set_trusted_device_relay_id ::
    "int \<Rightarrow> string \<Rightarrow> string \<Rightarrow> nat \<Rightarrow> relay_vault \<Rightarrow> verr + unit \<times> relay_vault" where
  "set_trusted_device_relay_id ms u team i v =
     and_then (require InvalidInput (valid_team_id team \<and> valid_relay_number i)) (\<lambda>_.
     and_then (change_relay_devices ms u (\<lambda>others al.
        if list_ex (\<lambda>d. td_uuid d \<noteq> u \<and> map_of (td_relay d) team = Some i) others
        then Inl AlreadyExists
        else Inr (map_of al team \<noteq> Some i, map_put team i al)) v) (\<lambda>(_, v).
     Inr ((), v)))"

definition clear_trusted_device_relay_id ::
    "int \<Rightarrow> string \<Rightarrow> string \<Rightarrow> relay_vault \<Rightarrow> verr + bool \<times> relay_vault" where
  "clear_trusted_device_relay_id ms u team v =
     change_relay_devices ms u (\<lambda>_ al.
       Inr (map_of al team \<noteq> None, filter (\<lambda>(t, _). t \<noteq> team) al)) v"

definition remove_trusted_device ::
    "nat \<Rightarrow> int \<Rightarrow> string \<Rightarrow> relay_vault \<Rightarrow> verr + bool \<times> relay_vault" where
  "remove_trusted_device secs ms u v =
     and_then (rl_conn v) (\<lambda>_.
     case List.find (\<lambda>r. rd_uuid r = u \<and> live r) (rl_devices v) of
       None \<Rightarrow> Inr (False, v)
     | Some r \<Rightarrow>
         (let (at', by') = next_version v ms (Some (rd_updated r))
          in and_then (to_sql_time secs) (\<lambda>deleted.
             Inr (True, update_device u (\<lambda>r. r\<lparr>rd_deleted := Some deleted, rd_updated := at',
               rd_by := by'\<rparr>) v))))"

section \<open>Named secrets and the question key\<close>

definition QUESTION_KEY_NAME :: string where
  "QUESTION_KEY_NAME = ''question-key-v1''"

definition QUESTIONS_TEAM_NAME :: string where
  "QUESTIONS_TEAM_NAME = ''questions-team-v1''"

definition QUESTION_KEY_BYTES :: nat where
  "QUESTION_KEY_BYTES = 32"

definition secret_of :: "relay_vault \<Rightarrow> string \<Rightarrow> (string \<times> int \<times> string) option" where
  "secret_of v name = map_of (rl_secrets v) name"

definition read_vault_secret :: "string \<Rightarrow> relay_vault \<Rightarrow> verr + string option" where
  "read_vault_secret name v = and_then (rl_conn v) (\<lambda>_. Inr (map_option fst (secret_of v name)))"

definition read_key :: "relay_vault \<Rightarrow> verr + (string \<times> int) option" where
  "read_key v = (case secret_of v QUESTION_KEY_NAME of
       None \<Rightarrow> Inr None
     | Some (key, at', _) \<Rightarrow>
         if length key = QUESTION_KEY_BYTES then Inr (Some (key, at')) else Inl Storage)"

definition write_secret :: "int \<Rightarrow> string \<Rightarrow> string \<Rightarrow> int option \<Rightarrow> relay_vault \<Rightarrow> relay_vault" where
  "write_secret ms name x previous v =
     (let (at', by') = next_version v ms previous
      in v\<lparr>rl_secrets := upsert_row fst (rl_secrets v) name (\<lambda>_. (name, x, at', by'))\<rparr>)"

definition question_key :: "relay_vault \<Rightarrow> verr + string option" where
  "question_key v =
     and_then (rl_conn v) (\<lambda>_. and_then (read_key v) (\<lambda>k. Inr (map_option fst k)))"

definition ensure_question_key :: "int \<Rightarrow> string \<Rightarrow> relay_vault \<Rightarrow> verr + string \<times> relay_vault" where
  "ensure_question_key ms random v =
     and_then (rl_conn v) (\<lambda>_. and_then (read_key v) (\<lambda>k.
       case k of Some (key, _) \<Rightarrow> Inr (key, v)
       | None \<Rightarrow> Inr (random, write_secret ms QUESTION_KEY_NAME random None v)))"

definition rotate_question_key :: "int \<Rightarrow> string \<Rightarrow> relay_vault \<Rightarrow> verr + string \<times> relay_vault" where
  "rotate_question_key ms random v =
     and_then (rl_conn v) (\<lambda>_. and_then (read_key v) (\<lambda>k.
       Inr (random, write_secret ms QUESTION_KEY_NAME random (map_option snd k) v)))"

text \<open>A team ID is ASCII, so the check for UTF-8 text is in \<open>valid_team_id\<close>.\<close>

definition questions_team :: "relay_vault \<Rightarrow> verr + string option" where
  "questions_team v =
     and_then (rl_conn v) (\<lambda>_. Inr (case secret_of v QUESTIONS_TEAM_NAME of
         None \<Rightarrow> None | Some (t, _) \<Rightarrow> if valid_team_id t then Some t else None))"

definition set_questions_team :: "int \<Rightarrow> string \<Rightarrow> relay_vault \<Rightarrow> verr + unit \<times> relay_vault" where
  "set_questions_team ms team v =
     and_then (require InvalidInput (valid_team_id team)) (\<lambda>_.
     and_then (questions_team v) (\<lambda>named.
       if named = Some team then Inr ((), v)
       else Inr ((), write_secret ms QUESTIONS_TEAM_NAME team
              (map_option (\<lambda>(_, at', _). at') (secret_of v QUESTIONS_TEAM_NAME)) v)))"

section \<open>Operations of more than one transaction\<close>

text \<open>A result and the state that is left, also after an error.\<close>

type_synonym ('e, 'a) action = "relay_vault \<Rightarrow> ('e + 'a) \<times> relay_vault"

definition tx :: "(relay_vault \<Rightarrow> verr + 'a \<times> relay_vault) \<Rightarrow> (verr, 'a) action" where
  "tx f v = (case f v of Inl e \<Rightarrow> (Inl e, v) | Inr (x, v') \<Rightarrow> (Inr x, v'))"

definition reads :: "(relay_vault \<Rightarrow> 'e + 'a) \<Rightarrow> ('e, 'a) action" where
  "reads f v = (f v, v)"

definition seq :: "('e, 'a) action \<Rightarrow> ('a \<Rightarrow> ('e, 'b) action) \<Rightarrow> ('e, 'b) action" where
  "seq m f v = (case m v of (Inl e, v') \<Rightarrow> (Inl e, v') | (Inr x, v') \<Rightarrow> f x v')"

definition return :: "'a \<Rightarrow> ('e, 'a) action" where
  "return x v = (Inr x, v)"

definition fail :: "'e \<Rightarrow> ('e, 'a) action" where
  "fail e v = (Inl e, v)"

definition remove_trusted_device_and_rotate ::
    "nat \<Rightarrow> int \<Rightarrow> string \<Rightarrow> string \<Rightarrow> (verr, bool) action" where
  "remove_trusted_device_and_rotate secs ms random u =
     seq (tx (remove_trusted_device secs ms u)) (\<lambda>removed.
       if \<not> removed then return False
       else seq (reads question_key) (\<lambda>key.
         if key = None then return True
         else seq (tx (rotate_question_key ms random)) (\<lambda>_. return True)))"

section \<open>Relay memberships\<close>

definition purposes_json :: "purpose set \<Rightarrow> string list" where
  "purposes_json ps = map purpose_str
     (filter (\<lambda>p. p \<in> ps) [PurposeSync, PurposeQuestions, PurposeShare])"

definition parse_purposes :: "string list option \<Rightarrow> verr + purpose set" where
  "parse_purposes x = and_then (ok_or Storage x)
     (\<lambda>names. Inr (set (List.map_filter purpose_parse names)))"

definition parse_alt :: "string list option option \<Rightarrow> verr + string list" where
  "parse_alt x = (case x of None \<Rightarrow> Inr [] | Some y \<Rightarrow> ok_or Storage y)"

definition alt_column :: "string list \<Rightarrow> string list option option" where
  "alt_column alt = (if alt = [] then None else Some (Some alt))"

definition load_row :: "member_row \<Rightarrow> verr + membership" where
  "load_row r =
     and_then (require Storage (0 \<le> mb_device r)) (\<lambda>_.
     and_then (parse_purposes (mb_purposes r)) (\<lambda>ps.
     and_then (from_sql_time (mb_created r)) (\<lambda>created.
     and_then (parse_alt (mb_alt r)) (\<lambda>alt.
     let m = \<lparr>ms_team = mb_team r, ms_url = mb_url r, ms_device = nat (mb_device r),
              ms_public = mb_public r, ms_key = mb_key r, ms_purposes = ps,
              ms_created = created, ms_pin = mb_pin r, ms_alt = alt\<rparr>
     in and_then (require Storage (case mb_source r of
            KeyVault \<Rightarrow> membership_is_valid m
          | KeyAccount \<Rightarrow> ms_key m = []
              \<and> valid_account_identity (ms_url m) (ms_team m) (ms_device m) (ms_public m)))
        (\<lambda>_. Inr m)))))"

definition load_memberships :: "relay_vault \<Rightarrow> string option \<Rightarrow> verr + membership list" where
  "load_memberships v team =
     collect load_row (sort_key mb_team
       (filter (\<lambda>r. team = None \<or> team = Some (mb_team r)) (rl_members v)))"

definition relay_memberships :: "relay_vault \<Rightarrow> verr + membership list" where
  "relay_memberships v = and_then (rl_conn v) (\<lambda>_. load_memberships v None)"

text \<open>\<open>Vec::pop\<close>: the last one.\<close>

definition pop :: "'a list \<Rightarrow> 'a option" where
  "pop xs = (if xs = [] then None else Some (last xs))"

definition relay_membership :: "string \<Rightarrow> relay_vault \<Rightarrow> verr + membership option" where
  "relay_membership team v =
     and_then (rl_conn v) (\<lambda>_. and_then (load_memberships v (Some team)) (\<lambda>ms. Inr (pop ms)))"

definition other_sync_team :: "relay_vault \<Rightarrow> string \<Rightarrow> verr + string option" where
  "other_sync_team v except =
     and_then (load_memberships v None) (\<lambda>ms.
       Inr (map_option ms_team
         (List.find (\<lambda>m. ms_team m \<noteq> except \<and> PurposeSync \<in> ms_purposes m) ms)))"

definition add_relay_membership :: "nat \<Rightarrow> membership \<Rightarrow> relay_vault \<Rightarrow> verr + unit \<times> relay_vault" where
  "add_relay_membership secs m v =
     and_then (require InvalidInput (membership_is_valid m \<and> ms_purposes m \<noteq> {})) (\<lambda>_.
     and_then (require InvalidInput (ms_device m \<le> i64_max)) (\<lambda>_.
     and_then (to_sql_time secs) (\<lambda>now.
     and_then (rl_conn v) (\<lambda>_.
     and_then (load_memberships v (Some (ms_team m))) (\<lambda>same.
     and_then (if same \<noteq> [] then Inr True
               else if PurposeSync \<in> ms_purposes m
               then and_then (other_sync_team v (ms_team m)) (\<lambda>t. Inr (t \<noteq> None))
               else Inr False) (\<lambda>taken.
     and_then (require AlreadyExists (\<not> taken)) (\<lambda>_.
     Inr ((), v\<lparr>rl_members := rl_members v @
       [\<lparr>mb_team = ms_team m, mb_url = ms_url m, mb_device = int (ms_device m),
         mb_public = ms_public m, mb_key = ms_key m,
         mb_purposes = Some (purposes_json (ms_purposes m)), mb_created = now,
         mb_pin = ms_pin m, mb_alt = alt_column (ms_alt m), mb_source = KeyVault\<rparr>]\<rparr>))))))))"

definition update_member :: "string \<Rightarrow> (member_row \<Rightarrow> member_row) \<Rightarrow> relay_vault \<Rightarrow> relay_vault" where
  "update_member team f v =
     v\<lparr>rl_members := map (\<lambda>r. if mb_team r = team then f r else r) (rl_members v)\<rparr>"

definition delete_member :: "string \<Rightarrow> relay_vault \<Rightarrow> relay_vault" where
  "delete_member team v = v\<lparr>rl_members := filter (\<lambda>r. mb_team r \<noteq> team) (rl_members v)\<rparr>"

definition set_membership_trust ::
    "string \<Rightarrow> string option \<Rightarrow> string list \<Rightarrow> relay_vault \<Rightarrow> verr + unit \<times> relay_vault" where
  "set_membership_trust team pin alt v =
     and_then (require InvalidInput (valid_trust pin alt)) (\<lambda>_.
     and_then (rl_conn v) (\<lambda>_.
     and_then (require NotFound (list_ex (\<lambda>r. mb_team r = team) (rl_members v))) (\<lambda>_.
     Inr ((), update_member team (\<lambda>r. r\<lparr>mb_pin := pin, mb_alt := alt_column alt\<rparr>) v))))"

definition set_membership_purposes ::
    "string \<Rightarrow> purpose set \<Rightarrow> relay_vault \<Rightarrow> verr + unit \<times> relay_vault" where
  "set_membership_purposes team ps v =
     and_then (require InvalidInput (ps \<noteq> {})) (\<lambda>_.
     and_then (rl_conn v) (\<lambda>_.
     and_then (load_memberships v (Some team)) (\<lambda>ms.
     and_then (require NotFound (ms \<noteq> [])) (\<lambda>_.
     and_then (if PurposeSync \<in> ps then other_sync_team v team else Inr None) (\<lambda>t.
     and_then (require AlreadyExists (t = None)) (\<lambda>_.
     Inr ((), update_member team (\<lambda>r. r\<lparr>mb_purposes := Some (purposes_json ps)\<rparr>) v)))))))"

definition remove_relay_membership :: "string \<Rightarrow> relay_vault \<Rightarrow> verr + bool \<times> relay_vault" where
  "remove_relay_membership team v =
     and_then (rl_conn v) (\<lambda>_.
       Inr (list_ex (\<lambda>r. mb_team r = team) (rl_members v), delete_member team v))"

section \<open>The identity of relay sync\<close>

record relay_device =
  rv_url :: string
  rv_team :: string
  rv_device :: nat
  rv_public :: string
  rv_key :: string
  rv_created :: nat
  rv_account :: bool

definition relay_device_is_valid :: "relay_device \<Rightarrow> bool" where
  "relay_device_is_valid d \<longleftrightarrow>
     (if rv_account d
      then rv_key d = [] \<and> valid_account_identity (rv_url d) (rv_team d) (rv_device d) (rv_public d)
      else valid_relay_identity (rv_url d) (rv_team d) (rv_device d) (rv_public d) (rv_key d))"

definition sync_membership :: "relay_vault \<Rightarrow> verr + membership option" where
  "sync_membership v =
     and_then (load_memberships v None) (\<lambda>ms.
       Inr (List.find (\<lambda>m. PurposeSync \<in> ms_purposes m) ms))"

definition drop_sync :: "membership \<Rightarrow> relay_vault \<Rightarrow> relay_vault" where
  "drop_sync m v =
     (let rest = ms_purposes m - {PurposeSync}
      in if rest = {} then delete_member (ms_team m) v
         else update_member (ms_team m) (\<lambda>r. r\<lparr>mb_purposes := Some (purposes_json rest)\<rparr>) v)"

definition relay_device_of :: "relay_vault \<Rightarrow> verr + relay_device option" where
  "relay_device_of v =
     and_then (rl_conn v) (\<lambda>_.
     and_then (sync_membership v) (\<lambda>m. case m of
       None \<Rightarrow> Inr None
     | Some m \<Rightarrow>
         and_then (ok_or Storage (find_row mb_team (rl_members v) (ms_team m))) (\<lambda>r.
         let d = \<lparr>rv_url = ms_url m, rv_team = ms_team m, rv_device = ms_device m,
                  rv_public = ms_public m, rv_key = ms_key m, rv_created = ms_created m,
                  rv_account = (mb_source r = KeyAccount)\<rparr>
         in and_then (require Storage (relay_device_is_valid d)) (\<lambda>_. Inr (Some d)))))"

definition leave_other_sync :: "string \<Rightarrow> membership option \<Rightarrow> relay_vault \<Rightarrow> relay_vault" where
  "leave_other_sync team old v =
     (case old of Some m \<Rightarrow> if ms_team m \<noteq> team then drop_sync m v else v | None \<Rightarrow> v)"

definition sync_row ::
    "int \<Rightarrow> string \<Rightarrow> string \<Rightarrow> nat \<Rightarrow> string \<Rightarrow> string \<Rightarrow> purpose set \<Rightarrow> member_row option \<Rightarrow> member_row" where
  "sync_row now url team device public key ps r =
     \<lparr>mb_team = team, mb_url = url, mb_device = int device, mb_public = public, mb_key = key,
      mb_purposes = Some (purposes_json ps), mb_created = now,
      mb_pin = (case r of Some r \<Rightarrow> if mb_url r = url then mb_pin r else None | None \<Rightarrow> None),
      mb_alt = (case r of Some r \<Rightarrow> if mb_url r = url then mb_alt r else None | None \<Rightarrow> None),
      mb_source = (if key = [] then KeyAccount else KeyVault)\<rparr>"

definition write_sync_identity ::
    "int \<Rightarrow> string \<Rightarrow> string \<Rightarrow> nat \<Rightarrow> string \<Rightarrow> string \<Rightarrow> relay_vault \<Rightarrow> verr + unit \<times> relay_vault" where
  "write_sync_identity now url team device public key v =
     and_then (load_memberships v (Some team)) (\<lambda>same.
     let ps = insert PurposeSync (case pop same of None \<Rightarrow> {} | Some m \<Rightarrow> ms_purposes m)
     in Inr ((), v\<lparr>rl_members := upsert_row mb_team (rl_members v) team
          (sync_row now url team device public key ps)\<rparr>))"

definition store_sync_identity ::
    "nat \<Rightarrow> string \<Rightarrow> string \<Rightarrow> nat \<Rightarrow> string \<Rightarrow> string \<Rightarrow> relay_vault \<Rightarrow> verr + unit \<times> relay_vault" where
  "store_sync_identity secs url team device public key v =
     and_then (require InvalidInput (device \<le> i64_max)) (\<lambda>_.
     and_then (to_sql_time secs) (\<lambda>now.
     and_then (rl_conn v) (\<lambda>_.
     and_then (sync_membership v) (\<lambda>old.
     write_sync_identity now url team device public key (leave_other_sync team old v)))))"

definition set_relay_device :: "nat \<Rightarrow> relay_device \<Rightarrow> relay_vault \<Rightarrow> verr + unit \<times> relay_vault" where
  "set_relay_device secs d v =
     and_then (require InvalidInput (\<not> rv_account d \<and> rv_key d \<noteq> [] \<and> relay_device_is_valid d)) (\<lambda>_.
     store_sync_identity secs (rv_url d) (rv_team d) (rv_device d) (rv_public d) (rv_key d) v)"

definition set_account_relay_device ::
    "nat \<Rightarrow> string \<Rightarrow> string \<Rightarrow> nat \<Rightarrow> string \<Rightarrow> relay_vault \<Rightarrow> verr + unit \<times> relay_vault" where
  "set_account_relay_device secs url team device public v =
     and_then (require InvalidInput (valid_account_identity url team device public)) (\<lambda>_.
     and_then (rl_conn v) (\<lambda>_.
     and_then (load_memberships v (Some team)) (\<lambda>same.
     and_then (require AlreadyExists (case pop same of None \<Rightarrow> True
        | Some m \<Rightarrow> ms_purposes m \<subseteq> {PurposeSync})) (\<lambda>_.
     store_sync_identity secs url team device public [] v))))"

definition remove_account_memberships :: "relay_vault \<Rightarrow> verr + nat \<times> relay_vault" where
  "remove_account_memberships v =
     and_then (rl_conn v) (\<lambda>_.
       Inr (length (filter (\<lambda>r. mb_source r = KeyAccount) (rl_members v)),
            v\<lparr>rl_members := filter (\<lambda>r. mb_source r \<noteq> KeyAccount) (rl_members v)\<rparr>))"

definition remove_relay_device :: "relay_vault \<Rightarrow> verr + bool \<times> relay_vault" where
  "remove_relay_device v =
     and_then (rl_conn v) (\<lambda>_.
     and_then (sync_membership v) (\<lambda>m. case m of
       None \<Rightarrow> Inr (False, v) | Some m \<Rightarrow> Inr (True, drop_sync m v)))"

section \<open>Homes of mirrored credentials\<close>

definition require_relay_item :: "relay_vault \<Rightarrow> int \<Rightarrow> verr + unit" where
  "require_relay_item v i = require NotFound (i \<in> set (rl_items v))"

definition item_home_of :: "nat \<Rightarrow> relay_vault \<Rightarrow> verr + item_home option" where
  "item_home_of i v =
     and_then (to_sql_id i) (\<lambda>i. and_then (rl_conn v) (\<lambda>_.
     and_then (require_relay_item v i) (\<lambda>_. Inr (map_of (rl_homes v) i))))"

definition set_item_home :: "nat \<Rightarrow> item_home \<Rightarrow> relay_vault \<Rightarrow> verr + unit \<times> relay_vault" where
  "set_item_home i h v =
     and_then (to_sql_id i) (\<lambda>i.
     and_then (require InvalidInput (valid_uuid (ih_shared h) \<and> valid_uuid (ih_home h))) (\<lambda>_.
     and_then (rl_conn v) (\<lambda>_.
     and_then (require_relay_item v i) (\<lambda>_.
     Inr ((), v\<lparr>rl_homes := upsert_row fst (rl_homes v) i (\<lambda>_. (i, h))\<rparr>)))))"

definition clear_item_home :: "nat \<Rightarrow> relay_vault \<Rightarrow> verr + bool \<times> relay_vault" where
  "clear_item_home i v =
     and_then (to_sql_id i) (\<lambda>i. and_then (rl_conn v) (\<lambda>_.
     and_then (require_relay_item v i) (\<lambda>_.
     Inr (map_of (rl_homes v) i \<noteq> None, v\<lparr>rl_homes := filter (\<lambda>(j, _). j \<noteq> i) (rl_homes v)\<rparr>))))"

end
