(* ===== verification/Limbs.thy ===== *)
theory Limbs
  imports Main "HOL-Library.Word"
begin

text \<open>
  The arithmetic of src/src/questions/device_link.rs on 256-bit numbers: four 64-bit limbs,
  lowest first, with explicit carries, and the field of P-256 on them. A \<open>for\<close> loop over the
  limbs is a recursion over the lists; \<open>u64\<close> and \<open>u128\<close> are words of their width. The lemmas
  read a list of limbs as the number that it stands for and show what each loop computes.
\<close>

unbundle bit_operations_syntax

type_synonym u64 = "64 word"
type_synonym u128 = "128 word"
type_synonym u256 = "u64 list"

section \<open>The operations\<close>

definition P :: u256 where
  "P = [0xffffffffffffffff, 0x00000000ffffffff, 0x0000000000000000, 0xffffffff00000001]"

definition B :: u256 where
  "B = [0x3bce3c3e27d2604b, 0x651d06b0cc53b0f6, 0xb3ebbd55769886bc, 0x5ac635d8aa3a93e7]"

text \<open>\<open>overflowing_add\<close> and \<open>overflowing_sub\<close> of \<open>u64\<close>.\<close>

definition overflowing_add :: "u64 \<Rightarrow> u64 \<Rightarrow> u64 \<times> bool" where
  "overflowing_add a b = (a + b, a + b < a)"

definition overflowing_sub :: "u64 \<Rightarrow> u64 \<Rightarrow> u64 \<times> bool" where
  "overflowing_sub a b = (a - b, a < b)"

fun at_least_from :: "u64 list \<Rightarrow> u64 list \<Rightarrow> bool" where
  "at_least_from (x # xs) (y # ys) = (if x \<noteq> y then y < x else at_least_from xs ys)"
| "at_least_from _ _ = True"

definition at_least :: "u256 \<Rightarrow> u256 \<Rightarrow> bool" where
  "at_least a b = at_least_from (rev a) (rev b)"

fun sub_borrow :: "u64 list \<Rightarrow> u64 list \<Rightarrow> bool \<Rightarrow> u64 list \<times> bool" where
  "sub_borrow (x # xs) (y # ys) borrow =
     (let (step, first) = overflowing_sub x y;
          (step, second) = overflowing_sub step (of_bool borrow);
          (out, b) = sub_borrow xs ys (first \<or> second)
      in (step # out, b))"
| "sub_borrow _ _ borrow = ([], borrow)"

definition wrapping_sub :: "u256 \<Rightarrow> u256 \<Rightarrow> u256" where
  "wrapping_sub a b = fst (sub_borrow a b False)"

fun add_from :: "u64 list \<Rightarrow> u64 list \<Rightarrow> bool \<Rightarrow> u64 list \<times> bool" where
  "add_from (x # xs) (y # ys) carry =
     (let (step, first) = overflowing_add x y;
          (step, second) = overflowing_add step (of_bool carry);
          (out, c) = add_from xs ys (first \<or> second)
      in (step # out, c))"
| "add_from _ _ carry = ([], carry)"

definition add_carry :: "u256 \<Rightarrow> u256 \<Rightarrow> u256 \<times> bool" where
  "add_carry a b = add_from a b False"

definition add_mod :: "u256 \<Rightarrow> u256 \<Rightarrow> u256" where
  "add_mod a b =
     (let (sum, carry) = add_carry a b
      in if carry \<or> at_least sum P then wrapping_sub sum P else sum)"

definition sub_mod :: "u256 \<Rightarrow> u256 \<Rightarrow> u256" where
  "sub_mod a b =
     (if at_least a b then wrapping_sub a b else fst (add_carry (wrapping_sub a b) P))"

text \<open>
  One row of the product: \<open>product[i + j]\<close> for each limb of \<open>b\<close>, then \<open>product[i + 4]\<close>. The
  list starts at \<open>product[i]\<close>.
\<close>

fun mul_row :: "u64 \<Rightarrow> u64 list \<Rightarrow> u64 list \<Rightarrow> u128 \<Rightarrow> u64 list" where
  "mul_row x (y # ys) (q # qs) carry =
     (let step = ucast x * ucast y + ucast q + carry
      in ucast step # mul_row x ys qs (drop_bit 64 step))"
| "mul_row x [] (q # qs) carry = ucast carry # qs"
| "mul_row x _ [] carry = []"

fun mul_rows :: "u64 list \<Rightarrow> u64 list \<Rightarrow> u64 list \<Rightarrow> u64 list" where
  "mul_rows [] ys product = product"
| "mul_rows (x # xs) ys product =
     (case mul_row x ys product 0 of [] \<Rightarrow> [] | q # qs \<Rightarrow> q # mul_rows xs ys qs)"

definition product :: "u256 \<Rightarrow> u256 \<Rightarrow> u64 list" where
  "product a b = mul_rows a b (replicate 8 0)"

text \<open>The shift of \<open>rest\<close> to the left with the next bit at the bottom.\<close>

fun shift_in :: "u64 list \<Rightarrow> u64 \<Rightarrow> u64 list" where
  "shift_in [] low = []"
| "shift_in (x # xs) low = (push_bit 1 x OR low) # shift_in xs (drop_bit 63 x)"

definition limb_bit :: "u64 list \<Rightarrow> nat \<Rightarrow> u64" where
  "limb_bit xs k = drop_bit (k mod 64) (xs ! (k div 64)) AND 1"

definition reduce_step :: "u64 list \<Rightarrow> nat \<Rightarrow> u256 \<Rightarrow> u256" where
  "reduce_step q k rest =
     (let top = drop_bit 63 (rest ! 3);
          rest' = shift_in rest (limb_bit q k)
      in if top = 1 \<or> at_least rest' P then wrapping_sub rest' P else rest')"

definition reduce :: "u64 list \<Rightarrow> u256" where
  "reduce q = fold (reduce_step q) (rev [0..<512]) (replicate 4 0)"

definition mul_mod :: "u256 \<Rightarrow> u256 \<Rightarrow> u256" where
  "mul_mod a b = reduce (product a b)"

definition pow_step :: "u256 \<Rightarrow> u256 \<Rightarrow> nat \<Rightarrow> u256 \<Rightarrow> u256" where
  "pow_step base exponent k out =
     (let sq = mul_mod out out in if limb_bit exponent k = 1 then mul_mod sq base else sq)"

definition pow_mod :: "u256 \<Rightarrow> u256 \<Rightarrow> u256" where
  "pow_mod base exponent = fold (pow_step base exponent) (rev [0..<256]) [1, 0, 0, 0]"

section \<open>The number of a list of limbs\<close>

fun val :: "u64 list \<Rightarrow> nat" where
  "val [] = 0"
| "val (x # xs) = unat x + 2 ^ 64 * val xs"

lemma unat64_less: "unat (x :: u64) < 2 ^ 64"
  using unsigned_less [of x] by simp

lemma unat_of_bool [simp]: "unat (of_bool c :: u64) = of_bool c"
  by (cases c) simp_all

lemma val_less: "val xs < 2 ^ (64 * length xs)"
proof (induction xs)
  case (Cons x xs)
  have "unat x < 2 ^ 64" using unat64_less [of x] by simp
  moreover have "val xs + 1 \<le> 2 ^ (64 * length xs)" using Cons by simp
  then have "2 ^ 64 * (val xs + 1) \<le> 2 ^ 64 * 2 ^ (64 * length xs)" by (rule mult_le_mono2)
  ultimately have "unat x + 2 ^ 64 * val xs < 2 ^ 64 * 2 ^ (64 * length xs)" by simp
  then show ?case by (simp add: power_add)
qed simp

lemma val_append: "val (xs @ ys) = val xs + 2 ^ (64 * length xs) * val ys"
  by (induction xs) (simp_all add: power_add algebra_simps)

lemma val_inject: "length xs = length ys \<Longrightarrow> val xs = val ys \<longleftrightarrow> xs = ys"
proof (induction xs ys rule: list_induct2)
  case (Cons x xs y ys)
  have b: "unat x < 2 ^ 64" "unat y < 2 ^ 64"
    using unat64_less [of x] unat64_less [of y] by simp_all
  show ?case
  proof
    assume e: "val (x # xs) = val (y # ys)"
    then have "unat x = unat y"
      using b by (metis mod_less mod_mult_self2 val.simps(2))
    then show "x # xs = y # ys" using e Cons.IH by (simp add: word_unat_eq_iff)
  qed simp
qed simp

section \<open>Addition, subtraction and comparison\<close>

lemma unat_overflowing_add:
  assumes "overflowing_add a b = (s, c)"
  shows "unat s + 2 ^ 64 * of_bool c = unat a + unat b"
proof -
  have s: "s = a + b" "c = (a + b < a)" using assms by (auto simp: overflowing_add_def)
  have l: "unat a < 2 ^ 64" "unat b < 2 ^ 64" using unat64_less [of a] unat64_less [of b] by simp_all
  have m: "unat (a + b) = (unat a + unat b) mod 2 ^ 64" by (simp add: unat_word_ariths)
  show ?thesis
  proof (cases "unat a + unat b < 2 ^ 64")
    case True
    then have "unat (a + b) = unat a + unat b" using m by simp
    then show ?thesis using s by (simp add: word_less_nat_alt)
  next
    case False
    then have "unat (a + b) = unat a + unat b - 2 ^ 64"
      using m l by (simp add: le_mod_geq)
    then show ?thesis using s l False by (simp add: word_less_nat_alt)
  qed
qed

lemma unat_overflowing_sub:
  assumes "overflowing_sub a b = (s, c)"
  shows "unat s + unat b = unat a + 2 ^ 64 * of_bool c"
proof -
  have s: "s = a - b" "c = (a < b)" using assms by (auto simp: overflowing_sub_def)
  have l: "unat a < 2 ^ 64" "unat b < 2 ^ 64" using unat64_less [of a] unat64_less [of b] by simp_all
  show ?thesis
  proof (cases "a < b")
    case True
    then have "unat (a - b) = unat a + 2 ^ 64 - unat b"
      by (simp add: unat_sub_if_size word_size word_less_nat_alt)
    then show ?thesis using True s l by (simp add: word_less_nat_alt)
  next
    case False
    then have "b \<le> a" by simp
    then have "unat (a - b) = unat a - unat b" by (simp add: unat_sub)
    then show ?thesis using s False by (simp add: word_less_nat_alt)
  qed
qed

lemma add_from_val:
  "length xs = length ys \<Longrightarrow>
     length (fst (add_from xs ys c)) = length xs
     \<and> val (fst (add_from xs ys c)) + 2 ^ (64 * length xs) * of_bool (snd (add_from xs ys c))
        = val xs + val ys + of_bool c"
proof (induction xs ys arbitrary: c rule: list_induct2)
  case (Cons x xs y ys)
  obtain s1 f1 where 1: "overflowing_add x y = (s1, f1)" by fastforce
  obtain s2 f2 where 2: "overflowing_add s1 (of_bool c) = (s2, f2)" by fastforce
  obtain out d where 3: "add_from xs ys (f1 \<or> f2) = (out, d)" by fastforce
  have a: "unat s1 + 2 ^ 64 * of_bool f1 = unat x + unat y"
    using 1 by (rule unat_overflowing_add)
  have b: "unat s2 + 2 ^ 64 * of_bool f2 = unat s1 + of_bool c"
    using unat_overflowing_add [OF 2] by simp
  have n: "\<not> (f1 \<and> f2)"
  proof
    assume "f1 \<and> f2"
    then have "unat s2 + 2 ^ 65 = unat x + unat y + of_bool c" using a b by simp
    moreover have "unat x < 2 ^ 64" "unat y < 2 ^ 64" using unat64_less [of x] unat64_less [of y] by simp_all
    ultimately show False by (cases c) simp_all
  qed
  have s: "unat s2 + 2 ^ 64 * of_bool (f1 \<or> f2) = unat x + unat y + of_bool c"
    using a b n by (cases f1; cases f2) simp_all
  have i: "length out = length xs"
    "val out + 2 ^ (64 * length xs) * of_bool d = val xs + val ys + of_bool (f1 \<or> f2)"
    using Cons.IH [of "f1 \<or> f2"] 3 by simp_all
  have "unat s2 + 2 ^ 64 * val out + 2 ^ 64 * 2 ^ (64 * length xs) * of_bool d
      = unat s2 + 2 ^ 64 * (val out + 2 ^ (64 * length xs) * of_bool d)"
    by (simp add: algebra_simps)
  also have "\<dots> = unat s2 + 2 ^ 64 * of_bool (f1 \<or> f2) + 2 ^ 64 * val xs + 2 ^ 64 * val ys"
    unfolding i(2) by (simp add: algebra_simps)
  also have "\<dots> = unat x + unat y + of_bool c + 2 ^ 64 * val xs + 2 ^ 64 * val ys"
    unfolding s ..
  finally show ?case using i(1) 1 2 3 by (simp add: power_add algebra_simps)
qed simp

lemma sub_borrow_val:
  "length xs = length ys \<Longrightarrow>
     length (fst (sub_borrow xs ys c)) = length xs
     \<and> val (fst (sub_borrow xs ys c)) + val ys + of_bool c
        = val xs + 2 ^ (64 * length xs) * of_bool (snd (sub_borrow xs ys c))"
proof (induction xs ys arbitrary: c rule: list_induct2)
  case (Cons x xs y ys)
  obtain s1 f1 where 1: "overflowing_sub x y = (s1, f1)" by fastforce
  obtain s2 f2 where 2: "overflowing_sub s1 (of_bool c) = (s2, f2)" by fastforce
  obtain out d where 3: "sub_borrow xs ys (f1 \<or> f2) = (out, d)" by fastforce
  have a: "unat s1 + unat y = unat x + 2 ^ 64 * of_bool f1"
    using 1 by (rule unat_overflowing_sub)
  have b: "unat s2 + of_bool c = unat s1 + 2 ^ 64 * of_bool f2"
    using unat_overflowing_sub [OF 2] by simp
  have n: "\<not> (f1 \<and> f2)"
  proof
    assume "f1 \<and> f2"
    then have "unat s2 + unat y + of_bool c = unat x + 2 ^ 65" using a b by simp
    moreover have "unat s2 < 2 ^ 64" "unat y < 2 ^ 64" using unat64_less [of s2] unat64_less [of y] by simp_all
    ultimately show False by (cases c) simp_all
  qed
  have s: "unat s2 + unat y + of_bool c = unat x + 2 ^ 64 * of_bool (f1 \<or> f2)"
    using a b n by (cases f1; cases f2) simp_all
  have i: "length out = length xs"
    "val out + val ys + of_bool (f1 \<or> f2) = val xs + 2 ^ (64 * length xs) * of_bool d"
    using Cons.IH [of "f1 \<or> f2"] 3 by simp_all
  have "unat s2 + 2 ^ 64 * val out + (unat y + 2 ^ 64 * val ys) + of_bool c
      = unat x + 2 ^ 64 * (val out + val ys + of_bool (f1 \<or> f2))"
    using s by (simp add: algebra_simps)
  also have "\<dots> = unat x + 2 ^ 64 * val xs + 2 ^ 64 * 2 ^ (64 * length xs) * of_bool d"
    unfolding i(2) by (simp add: algebra_simps)
  finally show ?case using i(1) 1 2 3 by (simp add: power_add algebra_simps)
qed simp

lemma at_least_from_val:
  "length xs = length ys \<Longrightarrow> at_least_from xs ys \<longleftrightarrow> val (rev ys) \<le> val (rev xs)"
proof (induction xs ys rule: list_induct2)
  case (Cons x xs y ys)
  let ?n = "2 ^ (64 * length xs) :: nat"
  have l: "val (rev xs) < ?n" "val (rev ys) < ?n"
    using val_less [of "rev xs"] val_less [of "rev ys"] Cons.hyps by simp_all
  have e: "val (rev (x # xs)) = val (rev xs) + ?n * unat x"
    "val (rev (y # ys)) = val (rev ys) + ?n * unat y"
    using Cons.hyps by (simp_all add: val_append)
  consider (eq) "x = y" | (lt) "x < y" | (gt) "y < x" using less_linear by blast
  then show ?case
  proof cases
    case eq
    then show ?thesis using Cons.IH e by simp
  next
    case lt
    then have "unat x + 1 \<le> unat y" by (simp add: word_less_nat_alt)
    then have "?n * (unat x + 1) \<le> ?n * unat y" by (rule mult_le_mono2)
    then have "val (rev (x # xs)) < val (rev (y # ys))" unfolding e using l by simp
    then show ?thesis using lt by auto
  next
    case gt
    then have "unat y + 1 \<le> unat x" by (simp add: word_less_nat_alt)
    then have "?n * (unat y + 1) \<le> ?n * unat x" by (rule mult_le_mono2)
    then have "val (rev (y # ys)) < val (rev (x # xs))" unfolding e using l by simp
    then show ?thesis using gt by auto
  qed
qed simp

lemma at_least_val: "length a = length b \<Longrightarrow> at_least a b \<longleftrightarrow> val b \<le> val a"
  using at_least_from_val [of "rev a" "rev b"] by (simp add: at_least_def)

section \<open>The field\<close>

definition p256 :: nat where
  "p256 = 2 ^ 256 - 2 ^ 224 + 2 ^ 192 + 2 ^ 96 - 1"

lemma val_P: "val P = p256"
  by (simp add: P_def p256_def)

lemma length_P [simp]: "length P = 4" "length B = 4"
  by (simp_all add: P_def B_def)

lemma p256_bounds: "1 < p256" "p256 < 2 ^ 256" "2 ^ 256 < 2 * p256"
  by (simp_all add: p256_def)

text \<open>A field element: four limbs below the prime.\<close>

definition elem :: "u256 \<Rightarrow> bool" where
  "elem a \<longleftrightarrow> length a = 4 \<and> val a < p256"

lemma elem_length: "elem a \<Longrightarrow> length a = 4"
  by (simp add: elem_def)

lemma val_less_256: "length a = 4 \<Longrightarrow> val a < 2 ^ 256"
  using val_less [of a] by simp

text \<open>Subtraction modulo \<open>2 ^ 256\<close>.\<close>

lemma wrapping_sub_spec:
  assumes "length a = 4" and "length b = 4"
  shows "length (wrapping_sub a b) = 4"
    "val b \<le> val a \<Longrightarrow> val (wrapping_sub a b) = val a - val b"
    "val a < val b \<Longrightarrow> val (wrapping_sub a b) = val a + 2 ^ 256 - val b"
proof -
  let ?s = "sub_borrow a b False"
  have s: "length (fst ?s) = 4" "val (fst ?s) + val b = val a + 2 ^ 256 * of_bool (snd ?s)"
    using sub_borrow_val [of a b False] assms by simp_all
  have l: "val (fst ?s) < 2 ^ 256" "val a < 2 ^ 256" using val_less_256 s(1) assms by blast+
  show "length (wrapping_sub a b) = 4" using s by (simp add: wrapping_sub_def)
  show "val b \<le> val a \<Longrightarrow> val (wrapping_sub a b) = val a - val b"
    using s(2) l by (cases "snd ?s") (simp_all add: wrapping_sub_def)
  show "val a < val b \<Longrightarrow> val (wrapping_sub a b) = val a + 2 ^ 256 - val b"
    using s(2) l by (cases "snd ?s") (simp_all add: wrapping_sub_def)
qed

lemma add_carry_spec:
  assumes "length a = 4" and "length b = 4" and "add_carry a b = (s, c)"
  shows "length s = 4" "val s + 2 ^ 256 * of_bool c = val a + val b"
  using add_from_val [of a b False] assms by (simp_all add: add_carry_def)

text \<open>A number below twice the prime, given by its low 256 bits and the bit above them.\<close>

lemma reduce_once:
  assumes "length s = 4" and "n = val s + 2 ^ 256 * of_bool c" and "n < 2 * p256"
  shows "elem (if c \<or> at_least s P then wrapping_sub s P else s)
    \<and> val (if c \<or> at_least s P then wrapping_sub s P else s) = n mod p256"
proof (cases "c \<or> at_least s P")
  case True
  have le: "p256 \<le> n"
  proof (cases c)
    case True
    then show ?thesis using assms(2) p256_bounds(2) by simp
  next
    case False
    then show ?thesis using True assms by (simp add: at_least_val val_P)
  qed
  have "val (wrapping_sub s P) = n - p256"
  proof (cases c)
    case True
    then have "val s < val P" using assms p256_bounds(2,3) by (simp add: val_P)
    then show ?thesis using wrapping_sub_spec(3) [of s P] assms True by (simp add: val_P)
  next
    case False
    then have "val P \<le> val s" using le assms(2) by (simp add: val_P)
    then show ?thesis using wrapping_sub_spec(2) [of s P] assms False by (simp add: val_P)
  qed
  moreover have "n mod p256 = n - p256"
    using le assms(3) by (simp add: le_mod_geq)
  ultimately show ?thesis
    using True wrapping_sub_spec(1) [of s P] assms p256_bounds(1) by (simp add: elem_def)
next
  case False
  then have "val s < p256" "n = val s" using assms by (simp_all add: at_least_val val_P)
  then show ?thesis using False assms(1) by (simp add: elem_def)
qed

lemma add_mod_spec:
  assumes "elem a" and "elem b"
  shows "elem (add_mod a b)" "val (add_mod a b) = (val a + val b) mod p256"
proof -
  obtain s c where s: "add_carry a b = (s, c)" by fastforce
  have l: "length a = 4" "length b = 4" "val a + val b < 2 * p256"
    using assms by (simp_all add: elem_def)
  have "elem (add_mod a b) \<and> val (add_mod a b) = (val a + val b) mod p256"
    using reduce_once [OF add_carry_spec(1) [OF l(1,2) s] add_carry_spec(2) [OF l(1,2) s, symmetric] l(3)]
    by (simp add: add_mod_def s)
  then show "elem (add_mod a b)" "val (add_mod a b) = (val a + val b) mod p256" by simp_all
qed

lemma sub_mod_spec:
  assumes "elem a" and "elem b"
  shows "elem (sub_mod a b)" "(val (sub_mod a b) + val b) mod p256 = val a"
proof -
  have l: "length a = 4" "length b = 4" "val a < p256" "val b < p256"
    using assms by (simp_all add: elem_def)
  have "elem (sub_mod a b) \<and> (val (sub_mod a b) + val b) mod p256 = val a"
  proof (cases "val b \<le> val a")
    case True
    then show ?thesis
      using l wrapping_sub_spec(1,2) [of a b] by (simp add: sub_mod_def at_least_val elem_def)
  next
    case False
    let ?w = "wrapping_sub a b"
    have w: "length ?w = 4" "val ?w = val a + 2 ^ 256 - val b"
      using wrapping_sub_spec(1,3) [of a b] l False by simp_all
    obtain s c where s: "add_carry ?w P = (s, c)" by fastforce
    have v: "length s = 4" "val s + 2 ^ 256 * of_bool c = val ?w + p256"
      using add_carry_spec [OF w(1) _ s] by (simp_all add: val_P)
    have "val s < 2 ^ 256" using v(1) by (rule val_less_256)
    then have "val s = val a + p256 - val b"
      using v(2) w(2) l False p256_bounds(2) by (cases c) simp_all
    then show ?thesis
      using v(1) l False by (simp add: sub_mod_def at_least_val s elem_def)
  qed
  then show "elem (sub_mod a b)" "(val (sub_mod a b) + val b) mod p256 = val a" by simp_all
qed

section \<open>The product\<close>

lemma unat128_less: "unat (x :: u128) < 2 ^ 128"
  using unsigned_less [of x] by simp

lemma unat_ucast128 [simp]: "unat (ucast (x :: u64) :: u128) = unat x"
  by (simp add: unsigned_ucast_eq take_bit_nat_eq_self unat64_less [THEN order_less_le_trans])

lemma unat_ucast64: "unat (ucast (x :: u128) :: u64) = unat x mod 2 ^ 64"
  by (simp add: unsigned_ucast_eq take_bit_eq_mod)

lemma unat_drop64: "unat (drop_bit 64 (x :: u128)) = unat x div 2 ^ 64"
  by (simp add: drop_bit_eq_div unat_div_distrib)

text \<open>A step of the inner loop does not overflow \<open>u128\<close>.\<close>

lemma mul_step:
  fixes x y q :: u64 and carry :: u128
  assumes "unat carry < 2 ^ 64"
  shows "unat (ucast x * ucast y + ucast q + carry :: u128) = unat x * unat y + unat q + unat carry"
    "unat (drop_bit 64 (ucast x * ucast y + ucast q + carry :: u128)) < 2 ^ 64"
proof -
  have "unat x \<le> 2 ^ 64 - 1" "unat y \<le> 2 ^ 64 - 1"
    using unat64_less [of x] unat64_less [of y] by simp_all
  then have "unat x * unat y \<le> (2 ^ 64 - 1) * (2 ^ 64 - 1)" by (rule mult_le_mono)
  then have b: "unat x * unat y + unat q + unat carry < 2 ^ 128"
    using unat64_less [of q] assms by simp
  have "unat (ucast x * ucast y :: u128) = unat x * unat y"
    using b by (simp add: unat_word_ariths)
  then show s: "unat (ucast x * ucast y + ucast q + carry :: u128) = unat x * unat y + unat q + unat carry"
    using b by (simp add: unat_word_ariths)
  show "unat (drop_bit 64 (ucast x * ucast y + ucast q + carry :: u128)) < 2 ^ 64"
    unfolding unat_drop64 s using b by (simp add: less_mult_imp_div_less)
qed

lemma mul_row_val:
  assumes "unat carry < 2 ^ 64" and "length ys < length qs" and "qs ! length ys = 0"
  shows "length (mul_row x ys qs carry) = length qs
    \<and> val (mul_row x ys qs carry) = unat x * val ys + val qs + unat carry"
  using assms
proof (induction ys arbitrary: qs carry)
  case Nil
  then obtain q qs' where q: "qs = q # qs'" by (cases qs) auto
  have "unat (ucast carry :: u64) = unat carry"
    unfolding unat_ucast64 using Nil.prems(1) by simp
  then show ?case using Nil.prems by (simp add: q)
next
  case (Cons y ys)
  obtain q qs' where q: "qs = q # qs'" using Cons.prems by (cases qs) auto
  let ?step = "ucast x * ucast y + ucast q + carry :: u128"
  note st = mul_step [OF Cons.prems(1), of x y q]
  have i: "length (mul_row x ys qs' (drop_bit 64 ?step)) = length qs'"
    "val (mul_row x ys qs' (drop_bit 64 ?step)) = unat x * val ys + val qs' + unat ?step div 2 ^ 64"
    using Cons.IH [OF st(2), of qs'] Cons.prems by (simp_all add: q unat_drop64)
  have "val (mul_row x (y # ys) qs carry)
      = unat ?step mod 2 ^ 64 + 2 ^ 64 * (unat x * val ys + val qs' + unat ?step div 2 ^ 64)"
    using i(2) by (simp add: q unat_ucast64 Let_def)
  also have "\<dots> = unat ?step + 2 ^ 64 * (unat x * val ys + val qs')"
    using mod_mult_div_eq [of "unat ?step" "2 ^ 64"] by (simp add: algebra_simps)
  also have "\<dots> = unat x * val (y # ys) + val qs + unat carry"
    unfolding st(1) by (simp add: q algebra_simps)
  finally show ?case using i(1) by (simp add: q Let_def)
qed

lemma mul_row_tail:
  "length ys < length qs \<Longrightarrow> k < length qs \<Longrightarrow> length ys < k
    \<Longrightarrow> mul_row x ys qs carry ! k = qs ! k"
proof (induction ys arbitrary: qs carry k)
  case Nil
  then show ?case by (cases qs; cases k) simp_all
next
  case (Cons y ys)
  then obtain q qs' j where q: "qs = q # qs'" "k = Suc j" by (cases qs; cases k) auto
  then show ?case using Cons.IH [of qs' j] Cons.prems by (simp add: Let_def)
qed

lemma mul_rows_val:
  assumes "length qs = length xs + length ys" and "\<forall>k. length ys \<le> k \<and> k < length qs \<longrightarrow> qs ! k = 0"
  shows "length (mul_rows xs ys qs) = length qs \<and> val (mul_rows xs ys qs) = val xs * val ys + val qs"
  using assms
proof (induction xs arbitrary: qs)
  case (Cons x xs)
  have l: "length ys < length qs" "qs ! length ys = 0" using Cons.prems by simp_all
  have r: "length (mul_row x ys qs 0) = length qs"
    "val (mul_row x ys qs 0) = unat x * val ys + val qs"
    using mul_row_val [of 0 ys qs x] l by simp_all
  then obtain q qs' where q: "mul_row x ys qs 0 = q # qs'" using l(1) by (cases "mul_row x ys qs 0") auto
  have "qs' ! k = 0" if "length ys \<le> k" "k < length qs'" for k
  proof -
    have "mul_row x ys qs 0 ! Suc k = qs ! Suc k"
      using mul_row_tail [of ys qs "Suc k" x 0] that r(1) l(1) by (simp add: q)
    then show ?thesis using Cons.prems(2) that r(1) by (simp add: q)
  qed
  moreover have "length qs' = length xs + length ys" using r(1) Cons.prems(1) by (simp add: q)
  ultimately have i: "length (mul_rows xs ys qs') = length qs'"
    "val (mul_rows xs ys qs') = val xs * val ys + val qs'"
    using Cons.IH [of qs'] by simp_all
  have "val (mul_rows (x # xs) ys qs) = unat q + 2 ^ 64 * val qs' + 2 ^ 64 * val xs * val ys"
    using i(2) by (simp add: q algebra_simps)
  also have "\<dots> = val (x # xs) * val ys + val qs"
    using r(2) by (simp add: q algebra_simps)
  finally show ?case using i(1) r(1) by (simp add: q)
qed simp

lemma val_replicate_0 [simp]: "val (replicate n 0) = 0"
  by (induction n) simp_all

lemma product_spec:
  assumes "length a = 4" and "length b = 4"
  shows "length (product a b) = 8" "val (product a b) = val a * val b"
proof -
  have "replicate 8 (0 :: u64) ! k = 0" if "k < 8" for k using that by (rule nth_replicate)
  then show "length (product a b) = 8" "val (product a b) = val a * val b"
    using mul_rows_val [of "replicate 8 0" a b] assms by (simp_all add: product_def)
qed

section \<open>The reduction, one bit at a time\<close>

lemma unat_drop_bit: "unat (drop_bit k (x :: u64)) = unat x div 2 ^ k"
  by (subst unat_drop_bit_eq) (rule drop_bit_eq_div)

lemma bit_halves: "(n :: nat) div 2 ^ k = 2 * (n div 2 ^ Suc k) + n div 2 ^ k mod 2"
proof -
  have "n div 2 ^ Suc k = n div 2 ^ k div 2" by (simp only: power_Suc2 div_mult2_eq)
  then show ?thesis by simp
qed

lemma top_bit: "unat (x :: u64) div 2 ^ 63 = of_bool (drop_bit 63 x = 1)"
proof -
  have "unat x div 2 ^ 63 < 2" using unat64_less [of x] by (simp add: less_mult_imp_div_less)
  then consider "unat x div 2 ^ 63 = 0" | "unat x div 2 ^ 63 = 1" by linarith
  then show ?thesis
  proof cases
    case 1
    then have "unat (drop_bit 63 x) = 0" unfolding unat_drop_bit .
    then have "drop_bit 63 x = 0" by (simp only: unat_eq_zero)
    then show ?thesis using 1 by simp
  next
    case 2
    then have "unat (drop_bit 63 x) = unat (1 :: u64)" unfolding unat_drop_bit by simp
    then have "drop_bit 63 x = 1" by (simp only: word_unat_eq_iff)
    then show ?thesis using 2 by simp
  qed
qed

lemma limb_bit_val:
  assumes "k < 64 * length xs"
  shows "unat (limb_bit xs k) = val xs div 2 ^ k mod 2"
  using assms
proof (induction xs arbitrary: k)
  case (Cons x xs)
  show ?case
  proof (cases "k < 64")
    case True
    have "unat (limb_bit (x # xs) k) = unat x div 2 ^ k mod 2"
      using True by (simp add: limb_bit_def and_one_eq unat_mod_distrib unat_drop_bit)
    also have "\<dots> = (unat x + 2 ^ 64 * val xs) div 2 ^ k mod 2"
    proof -
      have "(2 :: nat) ^ 64 = 2 ^ k * (2 * 2 ^ (63 - k))"
        using True by (simp flip: power_Suc power_add)
      then have "(unat x + 2 ^ 64 * val xs) div 2 ^ k = (unat x + 2 ^ k * (2 * 2 ^ (63 - k) * val xs)) div 2 ^ k"
        by (simp only: mult.assoc)
      also have "\<dots> = unat x div 2 ^ k + 2 * (2 ^ (63 - k) * val xs)"
        by (subst div_mult_self2) (simp_all add: mult.assoc)
      finally show ?thesis by simp
    qed
    finally show ?thesis by simp
  next
    case False
    then obtain j where j: "k = 64 + j" using le_Suc_ex not_le by metis
    have "k mod 64 = j mod 64" "k div 64 = Suc (j div 64)"
      using div_add_self1 [of 64 j] by (simp_all add: j)
    then have b: "limb_bit (x # xs) k = limb_bit xs j" by (simp add: limb_bit_def)
    have "(unat x + 2 ^ 64 * val xs) div 2 ^ k = (unat x + 2 ^ 64 * val xs) div 2 ^ 64 div 2 ^ j"
      by (simp only: j power_add div_mult2_eq)
    also have "\<dots> = val xs div 2 ^ j" using unat64_less [of x] by simp
    finally show ?thesis using Cons.IH [of j] Cons.prems b j by simp
  qed
qed simp

lemma unat_drop63: "unat (drop_bit 63 (x :: u64)) = unat x div 2 ^ 63"
  by (rule unat_drop_bit)

lemma unat_shift_low:
  fixes x low :: u64
  assumes "unat low \<le> 1"
  shows "unat (push_bit 1 x OR low) + 2 ^ 64 * (unat x div 2 ^ 63) = 2 * unat x + unat low"
proof -
  have low: "low = 0 \<or> low = 1"
    using assms by (metis le_neq_implies_less less_one unat_0_iff unsigned_1 word_unat_eq_iff)
  have s: "unat (2 * x) = 2 * unat x mod 2 ^ 64"
    by (simp add: unat_word_ariths)
  have d: "2 * unat x = 2 * unat x mod 2 ^ 64 + 2 ^ 64 * (unat x div 2 ^ 63)"
    using mod_mult_div_eq [of "2 * unat x" "2 ^ 64"] div_mult_mult1 [of 2 "unat x" "2 ^ 63"] by simp
  have "push_bit 1 x OR low = 2 * x + low"
    using low by (auto simp: push_bit_eq_mult or_one_eq mult.commute)
  moreover have "unat (2 * x + low) = 2 * unat x mod 2 ^ 64 + unat low"
  proof -
    have "even (2 * unat x mod 2 ^ 64)" by (simp add: dvd_mod)
    moreover have "2 * unat x mod 2 ^ 64 < 2 ^ 64" by simp
    ultimately have "2 * unat x mod 2 ^ 64 + unat low < 2 ^ 64"
    proof -
      assume a: "even (2 * unat x mod 2 ^ 64)" "2 * unat x mod 2 ^ 64 < (2 :: nat) ^ 64"
      obtain j where "2 * unat x mod 2 ^ 64 = 2 * j" using a(1) by (elim evenE)
      then show ?thesis using a(2) assms by simp
    qed
    then show ?thesis using s by (simp add: unat_word_ariths)
  qed
  ultimately show ?thesis using d by simp
qed

lemma shift_in_val:
  assumes "unat low \<le> 1"
  shows "length (shift_in xs low) = length xs
    \<and> (xs \<noteq> [] \<longrightarrow> val (shift_in xs low) + 2 ^ (64 * length xs) * (unat (last xs) div 2 ^ 63)
        = 2 * val xs + unat low)"
  using assms
proof (induction xs arbitrary: low)
  case (Cons x xs)
  let ?c = "drop_bit 63 x"
  have "unat x div 2 ^ 63 \<le> 1"
    using unat64_less [of x] by (simp add: less_mult_imp_div_less less_Suc_eq_le [symmetric])
  then have c: "unat ?c \<le> 1" by (simp add: unat_drop63)
  note low = unat_shift_low [OF Cons.prems, of x]
  show ?case
  proof (cases "xs = []")
    case True
    then show ?thesis using low by simp
  next
    case False
    have i: "val (shift_in xs ?c) + 2 ^ (64 * length xs) * (unat (last xs) div 2 ^ 63)
        = 2 * val xs + unat x div 2 ^ 63"
      using Cons.IH [OF c] False by (simp add: unat_drop63)
    have "unat (push_bit 1 x OR low) + 2 ^ 64 * val (shift_in xs ?c)
        + 2 ^ 64 * 2 ^ (64 * length xs) * (unat (last xs) div 2 ^ 63)
        = unat (push_bit 1 x OR low)
          + 2 ^ 64 * (val (shift_in xs ?c) + 2 ^ (64 * length xs) * (unat (last xs) div 2 ^ 63))"
      by (simp add: algebra_simps)
    also have "\<dots> = 2 * (unat x + 2 ^ 64 * val xs) + unat low"
      unfolding i using low by (simp add: algebra_simps)
    finally show ?thesis using Cons.IH [OF c] False by (simp add: power_add)
  qed
qed simp

lemma reduce_step_spec:
  assumes "elem rest" and "k < 64 * length q" and "val rest = val q div 2 ^ Suc k mod p256"
  shows "elem (reduce_step q k rest)" "val (reduce_step q k rest) = val q div 2 ^ k mod p256"
proof -
  let ?b = "limb_bit q k" and ?s = "shift_in rest (limb_bit q k)"
  have b: "unat ?b = val q div 2 ^ k mod 2" using assms(2) by (rule limb_bit_val)
  then have b1: "unat ?b \<le> 1" by simp
  have r: "length rest = 4" "val rest < p256" using assms(1) by (simp_all add: elem_def)
  then obtain r0 r1 r2 r3 where rest: "rest = [r0, r1, r2, r3]"
    by (auto simp: numeral_eq_Suc length_Suc_conv)
  have r3: "rest ! 3 = r3" by (simp add: rest)
  have s: "length ?s = 4"
    "val ?s + 2 ^ 256 * (unat r3 div 2 ^ 63) = 2 * val rest + unat ?b"
    using shift_in_val [OF b1, of rest] by (simp_all add: rest)
  note top = top_bit [of r3]
  have n: "2 * val rest + unat ?b = val ?s + 2 ^ 256 * of_bool (drop_bit 63 r3 = 1)"
    using s(2) by (simp only: top)
  have m: "2 * val rest + unat ?b < 2 * p256" using r(2) b1 by linarith
  have "val q div 2 ^ k = 2 * (val q div 2 ^ Suc k) + unat ?b"
    unfolding b by (rule bit_halves)
  then have e: "val q div 2 ^ k mod p256 = (2 * val rest + unat ?b) mod p256"
    unfolding assms(3) by (metis mod_add_left_eq mod_mult_right_eq)
  from reduce_once [OF s(1) n m]
  have "elem (reduce_step q k rest) \<and> val (reduce_step q k rest) = (2 * val rest + unat ?b) mod p256"
    unfolding reduce_step_def Let_def r3 .
  then show "elem (reduce_step q k rest)" "val (reduce_step q k rest) = val q div 2 ^ k mod p256"
    using e by simp_all
qed

lemma reduce_spec:
  assumes "length q = 8"
  shows "elem (reduce q)" "val (reduce q) = val q mod p256"
proof -
  have "elem (fold (reduce_step q) (rev [k..<512]) (replicate 4 0))
      \<and> val (fold (reduce_step q) (rev [k..<512]) (replicate 4 0)) = val q div 2 ^ k mod p256"
    if "k \<le> 512" for k
    using that
  proof (induction "512 - k" arbitrary: k)
    case 0
    then have "k = 512" by simp
    moreover have "val q < 2 ^ 512" using val_less [of q] assms by simp
    then have "val q div 2 ^ 512 = 0" by (rule div_less)
    ultimately show ?case using p256_bounds(1) by (simp add: elem_def)
  next
    case (Suc n)
    then have k: "k < 512" "[k..<512] = k # [Suc k..<512]" by (simp_all add: upt_conv_Cons)
    have "elem (fold (reduce_step q) (rev [Suc k..<512]) (replicate 4 0))
      \<and> val (fold (reduce_step q) (rev [Suc k..<512]) (replicate 4 0)) = val q div 2 ^ Suc k mod p256"
      using Suc k(1) by (intro Suc.hyps(1)) simp_all
    then show ?case using reduce_step_spec [of _ k q] k assms by simp
  qed
  from this [of 0] show "elem (reduce q)" "val (reduce q) = val q mod p256"
    by (simp_all add: reduce_def)
qed

lemma mul_mod_spec:
  assumes "length a = 4" and "length b = 4"
  shows "elem (mul_mod a b)" "val (mul_mod a b) = val a * val b mod p256"
  using reduce_spec [of "product a b"] product_spec [OF assms] by (simp_all add: mul_mod_def)

lemma pow_mod_spec:
  assumes "length base = 4" and "length e = 4"
  shows "elem (pow_mod base e)" "val (pow_mod base e) = val base ^ val e mod p256"
proof -
  have "elem (fold (pow_step base e) (rev [k..<256]) [1, 0, 0, 0])
      \<and> val (fold (pow_step base e) (rev [k..<256]) [1, 0, 0, 0]) = val base ^ (val e div 2 ^ k) mod p256"
    if "k \<le> 256" for k
    using that
  proof (induction "256 - k" arbitrary: k)
    case 0
    then have "k = 256" by simp
    moreover have "val e div 2 ^ 256 = 0" using val_less_256 [OF assms(2)] by (rule div_less)
    ultimately show ?case using p256_bounds(1) by (simp add: elem_def)
  next
    case (Suc n)
    then have k: "k < 256" "[k..<256] = k # [Suc k..<256]" by (simp_all add: upt_conv_Cons)
    let ?o = "fold (pow_step base e) (rev [Suc k..<256]) [1, 0, 0, 0]"
    let ?n = "val e div 2 ^ Suc k" and ?b = "val e div 2 ^ k mod 2"
    have i: "elem ?o" "val ?o = val base ^ ?n mod p256"
      using Suc k(1) Suc.hyps(1) [of "Suc k"] by simp_all
    have sq: "elem (mul_mod ?o ?o)" "val (mul_mod ?o ?o) = val base ^ (2 * ?n) mod p256"
      using mul_mod_spec [of ?o ?o] elem_length [OF i(1)] i(2)
      by (simp_all add: mod_mult_eq power_mult_distrib mult_2 power_add)
    have d: "val e div 2 ^ k = 2 * ?n + ?b" by (rule bit_halves)
    have b: "limb_bit e k = 1 \<longleftrightarrow> ?b = 1"
      using limb_bit_val [of k e] k(1) assms(2) by (simp add: word_unat_eq_iff)
    have "elem (pow_step base e k ?o)
        \<and> val (pow_step base e k ?o) = val base ^ (val e div 2 ^ k) mod p256"
    proof (cases "?b = 1")
      case True
      then show ?thesis
        using sq mul_mod_spec [OF elem_length [OF sq(1)] assms(1)] b d
        by (simp add: pow_step_def Let_def mod_mult_right_eq mult.commute)
    next
      case False
      then have "?b = 0" by simp
      then show ?thesis using sq b d False by (simp add: pow_step_def Let_def)
    qed
    then show ?case using k by simp
  qed
  from this [of 0] show "elem (pow_mod base e)" "val (pow_mod base e) = val base ^ val e mod p256"
    by (simp_all add: pow_mod_def)
qed


end
