(* ===== verification/Base64.thy ===== *)
theory Base64
  imports Prelude "HOL-Library.Code_Target_Nat"
begin

text \<open>
  Base64 with padding and base64url without padding (src/src/native/base64.rs). A group of
  three bytes is a number below \<open>2 ^ 24\<close>, so the \<open>u32\<close> of the code never wraps and is a
  natural number here; \<open>& 63\<close> and \<open>>>\<close> are \<open>mod\<close> and \<open>div\<close>.
\<close>

section \<open>The codecs\<close>

definition ALPHABET :: string where
  "ALPHABET = ''ABCDEFGHIJKLMNOPQRSTUVWXYZabcdefghijklmnopqrstuvwxyz0123456789+/''"

definition URL_ALPHABET :: string where
  "URL_ALPHABET = ''ABCDEFGHIJKLMNOPQRSTUVWXYZabcdefghijklmnopqrstuvwxyz0123456789-_''"

text \<open>\<open>slice::chunks\<close>: pieces of \<open>n\<close>, the last one with what is left.\<close>

function chunks_of :: "nat \<Rightarrow> 'a list \<Rightarrow> 'a list list" where
  "chunks_of n xs = (if n = 0 \<or> xs = [] then [] else take n xs # chunks_of n (drop n xs))"
  by pat_completeness auto
termination
  by (relation "measure (\<lambda>(n, xs). length xs)") auto

declare chunks_of.simps [simp del]

definition byte_at :: "string \<Rightarrow> nat \<Rightarrow> nat" where
  "byte_at chunk i = (if i < length chunk then byte (chunk ! i) else 0)"

definition group_number :: "string \<Rightarrow> nat" where
  "group_number chunk = byte_at chunk 0 * 65536 + byte_at chunk 1 * 256 + byte_at chunk 2"

definition encode_chunk :: "string \<Rightarrow> string" where
  "encode_chunk chunk =
     (let n = group_number chunk
      in [ALPHABET ! (n div 262144 mod 64), ALPHABET ! (n div 4096 mod 64),
          if 1 < length chunk then ALPHABET ! (n div 64 mod 64) else CHR ''='',
          if 2 < length chunk then ALPHABET ! (n mod 64) else CHR ''=''])"

definition encode :: "string \<Rightarrow> string" where
  "encode input = concat (map encode_chunk (chunks_of 3 input))"

definition alphabet_value :: "char \<Rightarrow> char \<Rightarrow> char \<Rightarrow> nat option" where
  "alphabet_value c62 c63 c =
     (if is_ascii_upper c then Some (byte c - 65)
      else if is_ascii_lower c then Some (byte c - 97 + 26)
      else if is_ascii_digit c then Some (byte c - 48 + 52)
      else if c = c62 then Some 62 else if c = c63 then Some 63 else None)"

definition value_of :: "char \<Rightarrow> nat option" where
  "value_of = alphabet_value CHR ''+'' CHR ''/''"

definition url_value :: "char \<Rightarrow> nat option" where
  "url_value = alphabet_value CHR ''-'' CHR ''_''"

fun chunk_value :: "(char \<Rightarrow> nat option) \<Rightarrow> nat \<Rightarrow> string \<Rightarrow> nat option" where
  "chunk_value f n [] = Some n"
| "chunk_value f n (c # cs) = (case f c of None \<Rightarrow> None | Some v \<Rightarrow> chunk_value f (n * 64 + v) cs)"

definition number_bytes :: "nat \<Rightarrow> string" where
  "number_bytes n = [char_of (n div 65536), char_of (n div 256), char_of n]"

fun decode_chunks :: "string list \<Rightarrow> string option" where
  "decode_chunks [] = Some []"
| "decode_chunks (chunk # rest) =
     (let pad = length (takeWhile ((=) CHR ''='') (rev chunk))
      in if 2 < pad \<or> (0 < pad \<and> rest \<noteq> []) then None
         else (case chunk_value value_of 0 (take (4 - pad) chunk) of
             None \<Rightarrow> None
           | Some n \<Rightarrow>
               map_option ((@) (take (3 - pad) (number_bytes (n * 64 ^ pad)))) (decode_chunks rest)))"

definition decode :: "string \<Rightarrow> string option" where
  "decode input = (if length input mod 4 \<noteq> 0 then None else decode_chunks (chunks_of 4 input))"

definition encode_url_chunk :: "string \<Rightarrow> string" where
  "encode_url_chunk chunk =
     (let n = group_number chunk
      in [URL_ALPHABET ! (n div 262144 mod 64), URL_ALPHABET ! (n div 4096 mod 64)]
         @ (if 1 < length chunk then [URL_ALPHABET ! (n div 64 mod 64)] else [])
         @ (if 2 < length chunk then [URL_ALPHABET ! (n mod 64)] else []))"

definition encode_url :: "string \<Rightarrow> string" where
  "encode_url input = concat (map encode_url_chunk (chunks_of 3 input))"

definition decode_url_chunk :: "string \<Rightarrow> string option" where
  "decode_url_chunk chunk =
     (case chunk_value url_value 0 chunk of
        None \<Rightarrow> None
      | Some v \<Rightarrow>
          (let n = v * 64 ^ (4 - length chunk);
               produced = length chunk * 6 div 8
           in if n mod 2 ^ (24 - 8 * produced) \<noteq> 0 then None
              else Some (take produced (number_bytes n))))"

fun decode_url_chunks :: "string list \<Rightarrow> string option" where
  "decode_url_chunks [] = Some []"
| "decode_url_chunks (chunk # rest) =
     (case decode_url_chunk chunk of
        None \<Rightarrow> None
      | Some out \<Rightarrow> map_option ((@) out) (decode_url_chunks rest))"

definition decode_url :: "string \<Rightarrow> string option" where
  "decode_url input =
     (if length input mod 4 = 1 then None else decode_url_chunks (chunks_of 4 input))"

section \<open>The alphabet\<close>

lemma all_below: "list_all p [0..<n] \<Longrightarrow> v < n \<Longrightarrow> p v"
  by (simp add: list_all_iff)

lemma url_value_letter:
  assumes "v < 64"
  shows "url_value (URL_ALPHABET ! v) = Some v"
proof -
  have "list_all (\<lambda>v. case url_value (URL_ALPHABET ! v) of None \<Rightarrow> False | Some w \<Rightarrow> w = v) [0..<64]"
    by code_simp
  from all_below [OF this assms] show ?thesis by (simp split: option.splits)
qed

lemma url_value_less: "url_value c = Some v \<Longrightarrow> v < 64"
  by (auto simp: url_value_def alphabet_value_def is_ascii_upper_def is_ascii_lower_def
      is_ascii_digit_def split: if_splits)

lemma url_value_inject:
  assumes "url_value c = Some v" and "url_value d = Some v"
  shows "c = d"
proof -
  have "byte c = (if v < 26 then v + 65 else if v < 52 then v + 71 else if v < 62 then v - 4
      else if v = 62 then byte CHR ''-'' else byte CHR ''_'')" if "url_value c = Some v" for c
    using that by (auto simp: url_value_def alphabet_value_def is_ascii_upper_def is_ascii_lower_def
        is_ascii_digit_def split: if_splits)
  from this [OF assms(1)] this [OF assms(2)] have "byte c = byte d" by simp
  then show ?thesis by simp
qed

lemma url_value_Some:
  assumes "url_value c = Some v"
  shows "v < 64 \<and> URL_ALPHABET ! v = c"
  using url_value_less [OF assms] url_value_letter url_value_inject assms by blast

section \<open>One group\<close>

lemma chunk_value_symbols:
  "list_all (\<lambda>v. v < 64) vs \<Longrightarrow>
     chunk_value url_value n (map ((!) URL_ALPHABET) vs) = Some (foldl (\<lambda>n v. n * 64 + v) n vs)"
  by (induction vs arbitrary: n) (simp_all add: url_value_letter)

lemma chunk_value_Some:
  "chunk_value url_value n cs = Some r \<Longrightarrow>
     \<exists>vs. length vs = length cs \<and> list_all (\<lambda>v. v < 64) vs \<and> cs = map ((!) URL_ALPHABET) vs
       \<and> r = foldl (\<lambda>n v. n * 64 + v) n vs"
proof (induction cs arbitrary: n)
  case (Cons c cs)
  then obtain v where v: "url_value c = Some v" "chunk_value url_value (n * 64 + v) cs = Some r"
    by (auto split: option.splits)
  from Cons.IH [OF v(2)] obtain vs where "length vs = length cs" "list_all (\<lambda>v. v < 64) vs"
    "cs = map ((!) URL_ALPHABET) vs" "r = foldl (\<lambda>n v. n * 64 + v) (n * 64 + v) vs"
    by blast
  then show ?case using url_value_Some [OF v(1)] by (intro exI [of _ "v # vs"]) simp
qed simp

lemma group_number_less: "group_number chunk < 16777216"
proof -
  have "byte_at chunk i < 256" for i by (simp add: byte_at_def)
  from this [of 0] this [of 1] this [of 2] show ?thesis by (simp add: group_number_def)
qed

lemma mod_64 [simp]: "n mod 64 < (64 :: nat)"
  by simp

lemma digits_64:
  fixes n :: nat
  assumes "n < 16777216"
  shows "((n div 262144 mod 64 * 64 + n div 4096 mod 64) * 64 + n div 64 mod 64) * 64 + n mod 64 = n"
proof -
  have "n div 262144 mod 64 = n div 262144" using assms by simp
  moreover have "n div 262144 * 64 + n div 4096 mod 64 = n div 4096"
    using div_mult_mod_eq [of "n div 4096" 64] by (simp add: div_mult2_eq [symmetric])
  moreover have "n div 4096 * 64 + n div 64 mod 64 = n div 64"
    using div_mult_mod_eq [of "n div 64" 64] by (simp add: div_mult2_eq [symmetric])
  ultimately show ?thesis by simp
qed

lemma number_bytes_group:
  "number_bytes (byte a * 65536 + byte b * 256 + byte c) = [a, b, c]"
proof -
  have "byte a < 256" "byte b < 256" "byte c < 256" by simp_all
  then have l: "byte b * 256 + byte c < 65536" "byte c < 256" by linarith+
  have "(byte a * 65536 + byte b * 256 + byte c) div 65536 = byte a"
    using l by (intro div_nat_eqI) simp_all
  moreover have "(byte a * 65536 + byte b * 256 + byte c) div 256 = byte a * 256 + byte b"
    using l by (intro div_nat_eqI) simp_all
  moreover have "char_of (byte a) = a" by (simp add: byte_def)
  moreover have "char_of (byte a * 256 + byte b) = b"
    "char_of (byte a * 65536 + byte b * 256 + byte c) = c"
  proof -
    have "(byte a * 256 + byte b) mod 256 = byte b" by simp
    moreover have "(byte a * 65536 + byte b * 256 + byte c) mod 256
        = (byte c + (byte a * 256 + byte b) * 256) mod 256" by (simp add: algebra_simps)
    then have "(byte a * 65536 + byte b * 256 + byte c) mod 256 = byte c" by (simp only: mod_mult_self1) simp
    ultimately show "char_of (byte a * 256 + byte b) = b"
      "char_of (byte a * 65536 + byte b * 256 + byte c) = c"
      by (simp_all flip: byte_inject)
  qed
  ultimately show ?thesis by (simp add: number_bytes_def)
qed

text \<open>Four symbols and their number.\<close>

lemma symbols_digits:
  fixes v0 v1 v2 v3 :: nat
  assumes "v0 < 64" "v1 < 64" "v2 < 64" "v3 < 64"
  defines "n \<equiv> ((v0 * 64 + v1) * 64 + v2) * 64 + v3"
  shows "n div 262144 mod 64 = v0" "n div 4096 mod 64 = v1" "n div 64 mod 64 = v2" "n mod 64 = v3"
    "n < 16777216"
proof -
  have 3: "n div 64 = (v0 * 64 + v1) * 64 + v2"
    unfolding n_def using assms(4) by (intro div_nat_eqI) simp_all
  have "n div 4096 = n div 64 div 64" by (simp add: div_mult2_eq [symmetric])
  also have "\<dots> = v0 * 64 + v1" unfolding 3 using assms(3) by (intro div_nat_eqI) simp_all
  finally have 2: "n div 4096 = v0 * 64 + v1" .
  have "n div 262144 = n div 4096 div 64" by (simp add: div_mult2_eq [symmetric])
  also have "\<dots> = v0" unfolding 2 using assms(2) by (intro div_nat_eqI) simp_all
  finally have 1: "n div 262144 = v0" .
  show "n div 262144 mod 64 = v0" "n div 4096 mod 64 = v1" "n div 64 mod 64 = v2" "n mod 64 = v3"
    unfolding 1 2 3 unfolding n_def mod_mult_self3 using assms(1-4) by simp_all
  have "v0 \<le> 63" "v1 \<le> 63" "v2 \<le> 63" "v3 \<le> 63" using assms(1-4) by simp_all
  then have "n \<le> ((63 * 64 + 63) * 64 + 63) * 64 + 63"
    unfolding n_def by (intro add_mono mult_mono) simp_all
  then show "n < 16777216" by simp
qed

lemma number_bytes_value:
  assumes "n < 16777216"
  shows "byte (char_of (n div 65536)) * 65536 + byte (char_of (n div 256)) * 256 + byte (char_of n) = n"
proof -
  have "n div 65536 mod 256 = n div 65536" using assms by simp
  moreover have "n div 65536 * 256 + n div 256 mod 256 = n div 256"
    using div_mult_mod_eq [of "n div 256" 256] by (simp add: div_mult2_eq [symmetric])
  moreover have "n div 256 * 256 + n mod 256 = n" by (rule div_mult_mod_eq)
  ultimately have "(n div 65536 mod 256 * 256 + n div 256 mod 256) * 256 + n mod 256 = n" by metis
  moreover have "n div 65536 mod 256 = n div 65536" using assms by simp
  ultimately show ?thesis by (simp add: algebra_simps)
qed

lemma chunk_cases:
  assumes "0 < length c" "length c \<le> 3"
  obtains x where "c = [x]" | x y where "c = [x, y]" | x y z where "c = [x, y, z]"
proof (cases c)
  case (Cons x r)
  then show ?thesis
    using assms that by (cases r; cases "tl r") (auto simp: le_Suc_eq)
qed (use assms in simp)

lemma decode_encode_chunk:
  assumes "0 < length c" "length c \<le> 3"
  shows "decode_url_chunk (encode_url_chunk c) = Some c"
proof -
  let ?n = "group_number c"
  obtain d0 d1 d2 d3 where ds: "?n div 262144 mod 64 = d0" "?n div 4096 mod 64 = d1"
    "?n div 64 mod 64 = d2" "?n mod 64 = d3" by simp
  have lt: "d0 < 64" "d1 < 64" "d2 < 64" "d3 < 64" using ds by auto
  have e: "encode_url_chunk c = map ((!) URL_ALPHABET) (take (length c + 1) [d0, d1, d2, d3])"
    using assms unfolding encode_url_chunk_def Let_def ds by (cases rule: chunk_cases) simp_all
  have v: "chunk_value url_value 0 (encode_url_chunk c)
      = Some (foldl (\<lambda>n v. n * 64 + v) 0 (take (length c + 1) [d0, d1, d2, d3]))"
    unfolding e by (rule chunk_value_symbols) (use assms lt in \<open>cases rule: chunk_cases, simp_all\<close>)
  have l: "length (encode_url_chunk c) = length c + 1" using assms e by simp
  have d: "((d0 * 64 + d1) * 64 + d2) * 64 + d3 = ?n"
    using digits_64 [OF group_number_less [of c]] unfolding ds .
  have step: ?thesis
    if "foldl (\<lambda>n v. n * 64 + v) 0 (take (length c + 1) [d0, d1, d2, d3]) * 64 ^ (3 - length c) = ?n"
      and "?n mod 2 ^ (24 - 8 * length c) = 0" and "take (length c) (number_bytes ?n) = c"
  proof -
    have "length (encode_url_chunk c) * 6 div 8 = length c"
      using assms unfolding l by (cases rule: chunk_cases) simp_all
    then show ?thesis using that l v by (simp add: decode_url_chunk_def Let_def)
  qed
  have b: "byte CHR 0x00 = 0" by (simp add: byte_def)
  show ?thesis
    using assms
  proof (cases rule: chunk_cases)
    case (1 x)
    have g: "?n = byte x * 65536 + byte CHR 0x00 * 256 + byte CHR 0x00"
      by (simp add: 1 group_number_def byte_at_def b)
    have "d2 = 0" "d3 = 0" using ds(3,4) by (simp_all add: g b mult.assoc)
    then have "(d0 * 64 + d1) * 4096 = ?n" using d by simp
    moreover have "?n mod 65536 = 0" by (simp add: g b)
    moreover have "take 1 (number_bytes ?n) = [x]" unfolding g number_bytes_group by simp
    ultimately show ?thesis by (intro step) (simp_all add: 1)
  next
    case (2 x y)
    have g: "?n = byte x * 65536 + byte y * 256 + byte CHR 0x00"
      by (simp add: 2 group_number_def byte_at_def b)
    have n0: "?n mod 256 = 0" by (simp add: g b mod_add_eq)
    have "?n mod 64 = ?n mod 256 mod 64" by (simp add: mod_mod_cancel)
    then have "d3 = 0" using ds(4) n0 by simp
    then have "((d0 * 64 + d1) * 64 + d2) * 64 = ?n" using d by simp
    moreover have "?n mod 2 ^ (24 - 8 * length c) = 0" using n0 by (simp add: 2)
    moreover have "take (length c) (number_bytes ?n) = c"
      unfolding g number_bytes_group by (simp add: 2)
    ultimately show ?thesis by (intro step) (simp_all add: 2 power_one_right)
  next
    case (3 x y z)
    have g: "?n = byte x * 65536 + byte y * 256 + byte z" by (simp add: 3 group_number_def byte_at_def)
    have "take (length c) (number_bytes ?n) = c" unfolding g number_bytes_group by (simp add: 3)
    then show ?thesis using d by (intro step) (simp_all add: 3)
  qed
qed

lemma encode_decode_chunk:
  assumes "decode_url_chunk t = Some c" and "1 < length t" "length t \<le> 4"
  shows "encode_url_chunk c = t \<and> length c = length t - 1"
proof -
  obtain w where w: "chunk_value url_value 0 t = Some w"
    using assms(1) by (auto simp: decode_url_chunk_def split: option.splits)
  let ?n = "w * 64 ^ (4 - length t)" and ?p = "length t * 6 div 8"
  have zero: "?n mod 2 ^ (24 - 8 * ?p) = 0" and c: "c = take ?p (number_bytes ?n)"
    using assms(1) by (auto simp: decode_url_chunk_def w Let_def split: if_splits)
  obtain vs where vs: "length vs = length t" "list_all (\<lambda>v. v < 64) vs"
    "t = map ((!) URL_ALPHABET) vs" "w = foldl (\<lambda>n v. n * 64 + v) 0 vs"
    using chunk_value_Some [OF w] by blast
  have "length vs = 2 \<or> length vs = 3 \<or> length vs = 4" using vs(1) assms(2,3) by linarith
  then consider (2) v0 v1 where "vs = [v0, v1]" | (3) v0 v1 v2 where "vs = [v0, v1, v2]"
    | (4) v0 v1 v2 v3 where "vs = [v0, v1, v2, v3]"
    by (auto simp: numeral_eq_Suc length_Suc_conv)
  then show ?thesis
  proof cases
    case 2
    have b: "v0 < 64" "v1 < 64" using vs(2) by (simp_all add: 2)
    have z: "(0 :: nat) < 64" by simp
    note s = symbols_digits [OF b z z]
    have n: "?n = ((v0 * 64 + v1) * 64 + 0) * 64 + 0" and l: "length t = 2"
      using vs by (simp_all add: 2)
    have z2: "?n mod 65536 = 0" using zero by (simp add: l)
    have "byte (char_of (?n div 65536)) * 65536 = ?n"
    proof -
      have "?n div 65536 mod 256 = ?n div 65536" using s(5) unfolding n by simp
      then show ?thesis using z2 div_mult_mod_eq [of ?n 65536] by simp
    qed
    then have g: "group_number c = ?n"
      using c by (simp add: l number_bytes_def group_number_def byte_at_def del: byte_char_of)
    show ?thesis
      using s(1,2) g c unfolding n [symmetric]
      by (simp add: encode_url_chunk_def Let_def l number_bytes_def vs(3) 2)
  next
    case 3
    have b: "v0 < 64" "v1 < 64" "v2 < 64" using vs(2) by (simp_all add: 3)
    have z: "(0 :: nat) < 64" by simp
    note s = symbols_digits [OF b z]
    have n: "?n = ((v0 * 64 + v1) * 64 + v2) * 64 + 0" and l: "length t = 3"
      using vs by (simp_all add: 3)
    have z2: "?n mod 256 = 0" using zero by (simp add: l)
    have "byte (char_of ?n) = 0" using z2 by simp
    moreover have "?n < 16777216" using s(5) unfolding n .
    ultimately have "byte (char_of (?n div 65536)) * 65536 + byte (char_of (?n div 256)) * 256 = ?n"
      using number_bytes_value [of ?n] by (simp del: byte_char_of)
    then have g: "group_number c = ?n"
      using c by (simp add: l number_bytes_def group_number_def byte_at_def del: byte_char_of)
    show ?thesis
      using s(1,2,3) g c unfolding n [symmetric]
      by (simp add: encode_url_chunk_def Let_def l number_bytes_def vs(3) 3)
  next
    case 4
    have b: "v0 < 64" "v1 < 64" "v2 < 64" "v3 < 64" using vs(2) by (simp_all add: 4)
    note s = symbols_digits [OF b]
    have n: "?n = ((v0 * 64 + v1) * 64 + v2) * 64 + v3" and l: "length t = 4"
      using vs by (simp_all add: 4)
    have "byte (char_of (?n div 65536)) * 65536 + byte (char_of (?n div 256)) * 256 + byte (char_of ?n) = ?n"
      using s(5) unfolding n by (rule number_bytes_value)
    then have g: "group_number c = ?n"
      using c by (simp add: l number_bytes_def group_number_def byte_at_def del: byte_char_of)
    show ?thesis
      using s(1-4) g c unfolding n [symmetric]
      by (simp add: encode_url_chunk_def Let_def l number_bytes_def vs(3) 4)
  qed
qed

section \<open>Whole texts\<close>

lemma chunks_of_Nil [simp]: "chunks_of n [] = []"
  by (subst chunks_of.simps) simp

lemma chunks_of_append:
  "0 < n \<Longrightarrow> length xs = n \<Longrightarrow> chunks_of n (xs @ ys) = xs # chunks_of n ys"
  by (subst chunks_of.simps) auto

lemma chunks_of_short: "xs \<noteq> [] \<Longrightarrow> length xs \<le> n \<Longrightarrow> chunks_of n xs = [xs]"
  by (subst chunks_of.simps) (cases n; auto)

text \<open>A list is short or starts with a whole piece.\<close>

lemma pieces_induct:
  assumes "0 < n" and "P []" and "\<And>xs. xs \<noteq> [] \<Longrightarrow> length xs < n \<Longrightarrow> P xs"
    and "\<And>xs ys. length xs = n \<Longrightarrow> P ys \<Longrightarrow> P (xs @ ys)"
  shows "P zs"
proof (induction "length zs" arbitrary: zs rule: less_induct)
  case less
  show ?case
  proof (cases "length zs < n")
    case True
    then show ?thesis using assms(2,3) by (cases "zs = []") auto
  next
    case False
    then have "P (drop n zs)" using less assms(1) by (cases zs) (auto intro!: less)
    then have "P (take n zs @ drop n zs)" using False by (intro assms(4)) simp_all
    then show ?thesis by simp
  qed
qed

lemma length_encode_url_chunk:
  "0 < length c \<Longrightarrow> length c \<le> 3 \<Longrightarrow> length (encode_url_chunk c) = length c + 1"
  by (erule (1) chunk_cases) (simp_all add: encode_url_chunk_def Let_def)

lemma encode_url_whole: "length c = 3 \<Longrightarrow> encode_url (c @ r) = encode_url_chunk c @ encode_url r"
  by (simp add: encode_url_def chunks_of_append)

lemma decode_url_whole:
  assumes "length t = 4"
  shows "decode_url (t @ r) = (case decode_url_chunk t of None \<Rightarrow> None
    | Some c \<Rightarrow> map_option ((@) c) (decode_url r))"
  using assms by (auto simp: decode_url_def chunks_of_append split: option.split)

lemma decode_encode_short:
  assumes "bs \<noteq> []" and "length bs < 3"
  shows "decode_url (encode_url bs) = Some bs"
proof -
  have l: "0 < length bs" "length bs \<le> 3" using assms by simp_all
  note e = length_encode_url_chunk [OF l] decode_encode_chunk [OF l]
  have "chunks_of 4 (encode_url_chunk bs) = [encode_url_chunk bs]"
    using e(1) assms(2) by (intro chunks_of_short) auto
  moreover have "length (encode_url_chunk bs) mod 4 \<noteq> 1" unfolding e(1) using assms by simp
  ultimately show ?thesis
    using assms(1) l e(2) by (simp add: encode_url_def chunks_of_short decode_url_def)
qed

lemma decode_encode_url: "decode_url (encode_url bs) = Some bs"
proof (induction bs rule: pieces_induct [of 3])
  case (4 xs ys)
  then show ?case
    using length_encode_url_chunk [of xs] decode_encode_chunk [of xs]
    by (simp add: encode_url_whole decode_url_whole)
qed (simp_all add: decode_encode_short, simp add: encode_url_def decode_url_def)

lemma encode_decode_short:
  assumes "decode_url t = Some bs" and "t \<noteq> []" and "length t < 4"
  shows "encode_url bs = t"
proof -
  have "length t mod 4 \<noteq> 1" using assms(1) by (auto simp: decode_url_def split: if_splits)
  moreover have "length t mod 4 = length t" using assms(3) by simp
  moreover have "length t \<noteq> 0" using assms(2) by simp
  ultimately have l: "1 < length t" "length t \<le> 4" using assms(3) by linarith+
  have "decode_url_chunk t = Some bs"
    using assms l by (auto simp: decode_url_def chunks_of_short split: if_splits option.splits)
  from encode_decode_chunk [OF this l] have e: "encode_url_chunk bs = t" "length bs = length t - 1"
    by simp_all
  have "bs \<noteq> []" "length bs \<le> 3" using e(2) l by auto
  then show ?thesis using e(1) by (simp add: encode_url_def chunks_of_short)
qed

lemma encode_decode_url: "decode_url t = Some bs \<Longrightarrow> encode_url bs = t"
proof (induction t arbitrary: bs rule: pieces_induct [of 4])
  case (4 t r)
  then obtain c d where c: "decode_url_chunk t = Some c" "decode_url r = Some d" "bs = c @ d"
    by (auto simp: decode_url_whole split: option.splits)
  then show ?case
    using encode_decode_chunk [OF c(1)] 4 by (simp add: encode_url_whole)
qed (simp_all add: encode_decode_short, simp add: encode_url_def decode_url_def)

text \<open>C26: The strict reader of base64url accepts exactly the texts that the writer makes, and
  gives back the bytes: every byte string has one text.\<close>

theorem decode_url_exact: "decode_url t = Some bs \<longleftrightarrow> t = encode_url bs"
  using decode_encode_url encode_decode_url by blast

end
