(* ===== verification/PointKeys.thy ===== *)
theory PointKeys
  imports Limbs Base64
begin

text \<open>
  The compression of a P-256 point and its square root on the limbs of the theory Limbs
  (src/src/questions/device_link.rs), for the answer key of a phone or a watch. The
  refinement lemmas read the point arithmetic on numbers modulo the prime.
\<close>

unbundle bit_operations_syntax

section \<open>Points\<close>

text \<open>\<open>u64::from_be_bytes\<close> and \<open>to_be_bytes\<close>, and the four limbs of 32 bytes.\<close>

definition word_of_be :: "string \<Rightarrow> u64" where
  "word_of_be bs = foldl (\<lambda>w b. w * 256 + of_nat (byte b)) 0 bs"

definition be_of_word :: "u64 \<Rightarrow> string" where
  "be_of_word w = map (\<lambda>i. char_of (unat (drop_bit (8 * i) w))) (rev [0..<8])"

definition from_be :: "string \<Rightarrow> u256" where
  "from_be bs =
     (let limbs = map word_of_be (take 4 (filter (\<lambda>c. length c = 8) (chunks_of 8 bs)))
      in rev (limbs @ replicate (4 - length limbs) 0))"

definition to_be :: "u256 \<Rightarrow> string" where
  "to_be v = concat (map be_of_word (rev v))"

definition compress_point :: "string \<Rightarrow> string option" where
  "compress_point point =
     (if length point \<noteq> 65 \<or> byte (point ! 0) \<noteq> 4 then None
      else Some (char_of (2 OR (byte (point ! 64) AND 1)) # take 32 (drop 1 point)))"

definition right_side :: "u256 \<Rightarrow> u256" where
  "right_side x =
     (let x3 = mul_mod (mul_mod x x) x;
          three_x = add_mod (add_mod x x) x
      in add_mod (sub_mod x3 three_x) B)"

definition root_exponent :: "u256" where
  "root_exponent =
     (let p1 = fst (add_carry P [1, 0, 0, 0])
      in [drop_bit 2 (p1 ! 0) OR push_bit 62 (p1 ! 1), drop_bit 2 (p1 ! 1) OR push_bit 62 (p1 ! 2),
          drop_bit 2 (p1 ! 2) OR push_bit 62 (p1 ! 3), drop_bit 2 (p1 ! 3)])"

definition decompress_point :: "string \<Rightarrow> string option" where
  "decompress_point compressed =
     (if length compressed \<noteq> 33 \<or> byte (compressed ! 0) \<notin> {2, 3} then None
      else
        (let x = from_be (drop 1 compressed)
         in if at_least x P then None
            else
              (let rhs = right_side x;
                   y = pow_mod rhs root_exponent
               in if mul_mod y y \<noteq> rhs then None
                  else if y ! 0 AND 1 \<noteq> of_nat (byte (compressed ! 0) AND 1) then
                    (if y = [0, 0, 0, 0] then None
                     else Some (char_of (4 :: nat) # to_be x @ to_be (wrapping_sub P y)))
                  else Some (char_of (4 :: nat) # to_be x @ to_be y))))"

section \<open>Bytes and limbs\<close>

text \<open>The number of a byte string, highest byte first.\<close>

definition be_value :: "string \<Rightarrow> nat" where
  "be_value = foldl (\<lambda>n b. n * 256 + byte b) 0"

lemma foldl_be: "foldl (\<lambda>n b. n * 256 + byte b) m bs = m * 256 ^ length bs + be_value bs"
  unfolding be_value_def
proof (induction bs rule: rev_induct)
  case (snoc b bs)
  then show ?case by (simp add: algebra_simps)
qed simp

lemma be_value_simps [simp]:
  "be_value [] = 0" "be_value (b # bs) = byte b * 256 ^ length bs + be_value bs"
  using foldl_be [of "byte b" bs] by (simp_all add: be_value_def)

lemma be_value_append: "be_value (as @ bs) = be_value as * 256 ^ length bs + be_value bs"
  by (induction as) (simp_all add: power_add algebra_simps)

lemma be_value_less: "be_value bs < 256 ^ length bs"
proof (induction bs)
  case (Cons b bs)
  have "byte b + 1 \<le> 256" using byte_less [of b] by linarith
  then have "(byte b + 1) * 256 ^ length bs \<le> 256 * 256 ^ length bs" by (rule mult_le_mono1)
  then have "byte b * 256 ^ length bs + 256 ^ length bs \<le> 256 * 256 ^ length bs"
    unfolding distrib_right mult_1 .
  then show ?case using Cons.IH unfolding be_value_simps length_Cons power_Suc by linarith
qed simp

lemma be_value_inject: "length as = length bs \<Longrightarrow> be_value as = be_value bs \<longleftrightarrow> as = bs"
proof (induction as bs rule: list_induct2)
  case (Cons a as b bs)
  show ?case
  proof
    assume e: "be_value (a # as) = be_value (b # bs)"
    then have "be_value (a # as) div 256 ^ length as = be_value (b # bs) div 256 ^ length as" by simp
    then have "byte a = byte b"
      using be_value_less [of as] be_value_less [of bs] Cons.hyps by simp
    then show "a # as = b # bs" using e Cons.IH Cons.hyps by simp
  qed simp
qed simp

lemma unat_word_of_be:
  assumes "length bs \<le> 8"
  shows "unat (word_of_be bs) = be_value bs"
  using assms
proof (induction bs rule: rev_induct)
  case (snoc b bs)
  then have i: "unat (word_of_be bs) = be_value bs" by simp
  have "(256 :: nat) ^ length (bs @ [b]) \<le> 256 ^ 8" using snoc.prems by (intro power_increasing) simp_all
  then have l: "be_value (bs @ [b]) < 2 ^ 64" using be_value_less [of "bs @ [b]"] by simp
  have w: "word_of_be (bs @ [b]) = word_of_be bs * 256 + of_nat (byte b)"
    by (simp add: word_of_be_def)
  show ?case unfolding w using i l byte_less [of b]
    by (simp add: unat_word_ariths be_value_append unat_of_nat mod_mult_left_eq mod_simps)
qed (simp add: word_of_be_def)

lemma length_be_of_word [simp]: "length (be_of_word w) = 8"
  by (simp add: be_of_word_def)

lemma be_value_be_of_word: "be_value (be_of_word w) = unat w"
proof -
  define n where "n = unat w"
  have l: "n < 2 ^ 64" using unat64_less [of w] by (simp add: n_def)
  have b: "byte (char_of (unat (drop_bit (8 * i) w))) = n div 256 ^ i mod 256" for i
  proof -
    have "(2 :: nat) ^ (8 * i) = 256 ^ i" by (simp add: power_mult)
    then show ?thesis by (simp add: byte_def unat_drop_bit n_def)
  qed
  have step: "n div 256 ^ i = n div 256 ^ Suc i * 256 + n div 256 ^ i mod 256" for i
    using div_mult_mod_eq [of "n div 256 ^ i" 256] by (simp only: power_Suc2 div_mult2_eq)
  have "be_value (map (\<lambda>i. char_of (unat (drop_bit (8 * i) w))) (rev [0..<k]))
      + n div 256 ^ k * 256 ^ k = n" for k
  proof (induction k)
    case (Suc k)
    have "n div 256 ^ k * 256 ^ k = n div 256 ^ Suc k * 256 ^ Suc k + n div 256 ^ k mod 256 * 256 ^ k"
      by (subst step) (simp add: algebra_simps)
    then show ?case using Suc b [of k] by simp
  qed simp
  from this [of 8] show ?thesis using l by (simp add: be_of_word_def n_def)
qed

lemma to_be_spec: "length (to_be v) = 8 * length v" "be_value (to_be v) = val v"
proof -
  show l: "length (to_be v) = 8 * length v" for v by (induction v) (simp_all add: to_be_def)
  show "be_value (to_be v) = val v"
  proof (induction v)
    case (Cons x v)
    have "to_be (x # v) = to_be v @ be_of_word x" by (simp add: to_be_def)
    then show ?case using Cons by (simp add: be_value_append be_value_be_of_word)
  qed (simp add: to_be_def)
qed

lemma from_be_spec:
  assumes "length bs = 32"
  shows "length (from_be bs) = 4" "val (from_be bs) = be_value bs"
proof -
  define a b c d where "a = take 8 bs" and "b = take 8 (drop 8 bs)" and "c = take 8 (drop 16 bs)"
    and "d = drop 24 bs"
  have l: "length a = 8" "length b = 8" "length c = 8" "length d = 8"
    using assms by (simp_all add: a_def b_def c_def d_def)
  have e: "bs = a @ b @ c @ d"
  proof -
    have "bs = take 8 bs @ take 8 (drop 8 bs) @ drop 8 (drop 8 bs)" by (simp only: append_take_drop_id)
    also have "drop 8 (drop 8 bs) = take 8 (drop 16 bs) @ drop 24 bs"
      using append_take_drop_id [of 8 "drop 16 bs"] by simp
    finally show ?thesis by (simp add: a_def b_def c_def d_def)
  qed
  have d: "chunks_of 8 d = [d]" using l by (intro chunks_of_short) auto
  have "chunks_of 8 bs = [a, b, c, d]" unfolding e using l d by (simp add: chunks_of_append)
  then have f: "from_be bs = [word_of_be d, word_of_be c, word_of_be b, word_of_be a]"
    using l by (simp add: from_be_def)
  show "length (from_be bs) = 4" by (simp add: f)
  show "val (from_be bs) = be_value bs"
    unfolding e [symmetric] f using l by (simp add: e be_value_append unat_word_of_be algebra_simps)
qed


text \<open>The bytes of a number, highest byte first.\<close>

definition be_bytes :: "nat \<Rightarrow> nat \<Rightarrow> string" where
  "be_bytes k n = map (\<lambda>i. char_of (n div 256 ^ i)) (rev [0..<k])"

lemma length_be_bytes [simp]: "length (be_bytes k n) = k"
  by (simp add: be_bytes_def)

lemma be_value_be_bytes: "be_value (be_bytes k n) = n mod 256 ^ k"
proof (induction k)
  case (Suc k)
  have "be_bytes (Suc k) n = char_of (n div 256 ^ k) # be_bytes k n" by (simp add: be_bytes_def)
  moreover have "n mod (256 ^ k * 256) = 256 ^ k * (n div 256 ^ k mod 256) + n mod 256 ^ k"
    by (rule mod_mult2_eq)
  ultimately show ?case using Suc by (simp add: byte_def mult.commute)
qed (simp add: be_bytes_def)

lemma be_bytes_be_value: "be_bytes (length bs) (be_value bs) = bs"
  using be_value_inject [of "be_bytes (length bs) (be_value bs)" bs] be_value_less [of bs]
  by (simp add: be_value_be_bytes)

lemma to_be_bytes: "length v = 4 \<Longrightarrow> to_be v = be_bytes 32 (val v)"
  using be_bytes_be_value [of "to_be v"] by (simp add: to_be_spec)

section \<open>The curve\<close>

text \<open>The right side of the equation of the curve, on numbers, and the reference for the
  decompression.\<close>

definition curve_rhs :: "nat \<Rightarrow> nat" where
  "curve_rhs x = (x ^ 3 + (p256 - 3) * x + val B) mod p256"

definition point_bytes :: "nat \<Rightarrow> nat \<Rightarrow> string" where
  "point_bytes x y = char_of (4 :: nat) # be_bytes 32 x @ be_bytes 32 y"

definition decompress_spec :: "string \<Rightarrow> string option" where
  "decompress_spec c =
     (let x = be_value (drop 1 c);
          y = curve_rhs x ^ ((p256 + 1) div 4) mod p256
      in if length c \<noteq> 33 \<or> byte (c ! 0) \<notin> {2, 3} \<or> p256 \<le> x \<or> y * y mod p256 \<noteq> curve_rhs x then None
         else if y mod 2 = byte (c ! 0) mod 2 then Some (point_bytes x y)
         else if y = 0 then None else Some (point_bytes x (p256 - y)))"

lemma elem_B: "elem B"
  by (simp add: elem_def B_def p256_def)

lemma right_side_spec:
  assumes "elem x"
  shows "elem (right_side x)" "val (right_side x) = curve_rhs (val x)"
proof -
  let ?X = "val x"
  let ?c = "mul_mod (mul_mod x x) x" and ?t = "add_mod (add_mod x x) x"
  have l: "length x = 4" using assms by (rule elem_length)
  have sq: "elem (mul_mod x x)" "val (mul_mod x x) = ?X * ?X mod p256"
    by (rule mul_mod_spec [OF l l])+
  have c: "elem ?c" "val ?c = ?X ^ 3 mod p256"
    using mul_mod_spec [OF elem_length [OF sq(1)] l] sq(2)
    by (simp_all add: mod_mult_left_eq power3_eq_cube)
  have d: "elem (add_mod x x)" "val (add_mod x x) = (?X + ?X) mod p256"
    by (rule add_mod_spec [OF assms assms])+
  have "?X + ?X + ?X = 3 * ?X" by simp
  then have t: "elem ?t" "val ?t = 3 * ?X mod p256"
    using add_mod_spec [OF d(1) assms] unfolding d(2) mod_add_left_eq by (simp_all only:)
  let ?s = "sub_mod ?c ?t"
  have s: "elem ?s" "(val ?s + val ?t) mod p256 = val ?c"
    by (rule sub_mod_spec [OF c(1) t(1)])+
  have s3: "(val ?s + 3 * ?X) mod p256 = ?X ^ 3 mod p256"
    using s(2) by (simp add: c t mod_add_right_eq)
  have "val ?s mod p256 = (val ?s + p256 * ?X) mod p256" by simp
  also have "val ?s + p256 * ?X = val ?s + 3 * ?X + (p256 - 3) * ?X"
  proof -
    have "p256 = 3 + (p256 - 3)" by (simp add: p256_def)
    then have "p256 * ?X = 3 * ?X + (p256 - 3) * ?X" by (metis distrib_right)
    then show ?thesis by simp
  qed
  also have "(val ?s + 3 * ?X + (p256 - 3) * ?X) mod p256 = (?X ^ 3 + (p256 - 3) * ?X) mod p256"
    by (rule mod_add_cong [OF s3 refl])
  finally have v: "val ?s mod p256 = (?X ^ 3 + (p256 - 3) * ?X) mod p256" .
  have "elem (right_side x) \<and> val (right_side x) = (val ?s + val B) mod p256"
    using add_mod_spec [OF s(1) elem_B] by (simp add: right_side_def Let_def)
  then show "elem (right_side x)" "val (right_side x) = curve_rhs (val x)"
    using mod_add_cong [OF v refl, of "val B"] by (simp_all add: curve_rhs_def)
qed

lemma root_exponent_eq:
  "root_exponent = [0, 0x40000000, 0x4000000000000000, 0x3fffffffc0000000]"
  by (simp add: root_exponent_def add_carry_def P_def overflowing_add_def drop_bit_eq_div
      push_bit_eq_mult)

lemma root_exponent_val: "length root_exponent = 4" "val root_exponent = (p256 + 1) div 4"
  by (simp_all add: root_exponent_eq p256_def)

lemma and_1_mod: "(n :: nat) AND 1 = n mod 2"
  by (simp add: and_one_eq)

lemma low_bit: "length y = 4 \<Longrightarrow> unat (y ! 0 AND 1) = val y mod 2"
  using limb_bit_val [of 0 y] by (simp add: limb_bit_def)

lemma low_bit_eq:
  assumes "length y = 4"
  shows "y ! 0 AND 1 = of_nat (b AND 1) \<longleftrightarrow> val y mod 2 = b mod 2"
proof -
  have "unat (of_nat (b AND 1) :: u64) = b mod 2"
    unfolding and_1_mod by (simp add: unat_of_nat order_less_trans [of _ 2])
  then show ?thesis using low_bit [OF assms] by (metis word_unat_eq_iff)
qed

lemma decompress_point_spec: "decompress_point c = decompress_spec c"
proof (cases "length c = 33 \<and> byte (c ! 0) \<in> {2, 3}")
  case True
  let ?x = "from_be (drop 1 c)"
  have x: "length ?x = 4" "val ?x = be_value (drop 1 c)"
    using from_be_spec [of "drop 1 c"] True by simp_all
  show ?thesis
  proof (cases "at_least ?x P")
    case True
    then have "p256 \<le> be_value (drop 1 c)" using x by (simp add: at_least_val val_P)
    then show ?thesis using True by (simp add: decompress_point_def decompress_spec_def Let_def)
  next
    case False
    then have lt: "\<not> p256 \<le> be_value (drop 1 c)" using x by (simp add: at_least_val val_P)
    then have e: "elem ?x" using x by (simp add: elem_def)
    define r where "r = right_side ?x"
    define y where "y = pow_mod r root_exponent"
    define X where "X = be_value (drop 1 c)"
    have r: "elem r" "val r = curve_rhs X"
      using right_side_spec [OF e] x by (simp_all add: r_def X_def)
    have y: "elem y" "val y = curve_rhs X ^ ((p256 + 1) div 4) mod p256"
      using pow_mod_spec [OF elem_length [OF r(1)] root_exponent_val(1)] r(2) root_exponent_val(2)
      by (simp_all add: y_def)
    have ly: "length y = 4" using y(1) by (rule elem_length)
    have sq: "mul_mod y y = r \<longleftrightarrow> val y * val y mod p256 = curve_rhs X"
      using val_inject [of "mul_mod y y" r] mul_mod_spec [OF ly ly] elem_length r by simp
    have zero: "y = [0, 0, 0, 0] \<longleftrightarrow> val y = 0"
      using val_inject [of y "[0, 0, 0, 0]"] ly by simp
    have neg: "to_be (wrapping_sub P y) = be_bytes 32 (p256 - val y)"
      using wrapping_sub_spec(1,2) [of P y] ly y(1) by (simp add: to_be_bytes elem_def val_P)
    have tx: "to_be ?x = be_bytes 32 X" using x by (simp add: to_be_bytes X_def)
    have ty: "to_be y = be_bytes 32 (val y)" using ly by (rule to_be_bytes)
    have "decompress_point c =
       (if val y * val y mod p256 \<noteq> curve_rhs X then None
        else if val y mod 2 = byte (c ! 0) mod 2 then Some (point_bytes X (val y))
        else if val y = 0 then None else Some (point_bytes X (p256 - val y)))"
    proof -
      have "decompress_point c =
         (if mul_mod y y \<noteq> r then None
          else if y ! 0 AND 1 \<noteq> of_nat (byte (c ! 0) AND 1) then
            (if y = [0, 0, 0, 0] then None
             else Some (char_of (4 :: nat) # to_be ?x @ to_be (wrapping_sub P y)))
          else Some (char_of (4 :: nat) # to_be ?x @ to_be y))"
        using True False
        by (simp only: decompress_point_def Let_def r_def y_def if_False not_True_eq_False simp_thms)
      then show ?thesis
        unfolding low_bit_eq [OF ly] sq zero neg tx ty point_bytes_def by simp
    qed
    also have "\<dots> = decompress_spec c"
      using True lt unfolding decompress_spec_def Let_def X_def [symmetric] y(2) [symmetric] by simp
    finally show ?thesis .
  qed
qed (auto simp: decompress_point_def decompress_spec_def Let_def)


lemma square_of_negative:
  fixes y p :: nat
  assumes "y \<le> p"
  shows "(p - y) * (p - y) mod p = y * y mod p"
proof -
  obtain k where k: "p = y + k" using assms le_Suc_ex by blast
  have "k * k + (y + k) * (2 * y) = y * y + (y + k) * (y + k)" by (simp add: algebra_simps)
  then have "(k * k + (y + k) * (2 * y)) mod (y + k) = (y * y + (y + k) * (y + k)) mod (y + k)"
    by (rule arg_cong)
  then show ?thesis unfolding mod_mult_self2 by (simp add: k)
qed

lemma parity_of_negative:
  fixes p y b :: nat
  shows "odd p \<Longrightarrow> y \<le> p \<Longrightarrow> y mod 2 \<noteq> b mod 2 \<Longrightarrow> (p - y) mod 2 = b mod 2"
  by (auto simp: mod2_eq_if split: if_splits)

lemma decompress_cases:
  assumes "decompress_point c = Some pt"
  obtains y where "length c = 33" "byte (c ! 0) = 2 \<or> byte (c ! 0) = 3"
    "be_value (drop 1 c) < p256" "y < p256" "y * y mod p256 = curve_rhs (be_value (drop 1 c))"
    "y mod 2 = byte (c ! 0) mod 2" "pt = point_bytes (be_value (drop 1 c)) y"
proof -
  let ?X = "be_value (drop 1 c)"
  define y where "y = curve_rhs ?X ^ ((p256 + 1) div 4) mod p256"
  have y: "y < p256" using p256_bounds(1) by (simp add: y_def)
  have c: "length c = 33" "byte (c ! 0) = 2 \<or> byte (c ! 0) = 3" "?X < p256"
    "y * y mod p256 = curve_rhs ?X"
    and d: "pt = point_bytes ?X y \<and> y mod 2 = byte (c ! 0) mod 2
      \<or> y \<noteq> 0 \<and> y mod 2 \<noteq> byte (c ! 0) mod 2 \<and> pt = point_bytes ?X (p256 - y)"
    using assms unfolding decompress_point_spec decompress_spec_def Let_def y_def [symmetric]
    by (auto split: if_splits)
  from d show thesis
  proof (elim disjE conjE)
    assume "pt = point_bytes ?X y" "y mod 2 = byte (c ! 0) mod 2"
    then show thesis using that [of y] c y by blast
  next
    assume a: "y \<noteq> 0" "y mod 2 \<noteq> byte (c ! 0) mod 2" "pt = point_bytes ?X (p256 - y)"
    have "odd p256" by (simp add: p256_def)
    then have "(p256 - y) mod 2 = byte (c ! 0) mod 2"
      using a(2) y by (intro parity_of_negative) simp_all
    moreover have "(p256 - y) * (p256 - y) mod p256 = y * y mod p256"
      using y by (intro square_of_negative) simp
    ultimately show thesis using that [of "p256 - y"] c a(1,3) y by simp
  qed
qed

lemma length_point_bytes [simp]: "length (point_bytes x y) = 65"
  by (simp add: point_bytes_def)

lemma odd_last_byte:
  assumes "0 < k"
  shows "byte (be_bytes k n ! (k - 1)) mod 2 = n mod 2"
proof -
  have "rev [0..<k] ! (k - 1) = 0" using assms by (simp add: rev_nth)
  then have "be_bytes k n ! (k - 1) = char_of n" using assms by (simp add: be_bytes_def)
  then show ?thesis by (simp add: mod_mod_cancel)
qed

lemma compress_point_bytes:
  "compress_point (point_bytes x y) = Some (char_of (2 + y mod 2) # be_bytes 32 x)"
proof -
  have "point_bytes x y ! 64 = be_bytes 32 y ! 31"
    by (simp add: point_bytes_def nth_append)
  then have "byte (point_bytes x y ! 64) mod 2 = y mod 2"
    using odd_last_byte [of 32 y] by simp
  moreover have "(2 :: nat) OR y mod 2 = 2 + y mod 2"
    by (cases "even y") (simp_all add: odd_iff_mod_2_eq_one even_iff_mod_2_eq_zero or_nat_unfold)
  ultimately show ?thesis
    by (simp add: compress_point_def and_1_mod) (simp add: point_bytes_def)
qed

text \<open>C27: The decompression on four 64-bit limbs with explicit carries, a shift and subtract
  reduction of the 512-bit product and a square and multiply loop is the textbook square root
  modulo the prime: it computes \<open>(x ^ 3 - 3 x + b) ^ ((p + 1) / 4)\<close>, checks that its square is
  the right side, and takes the root with the parity that the first byte asks for, on every
  input.\<close>

theorem decompress_point_refines: "decompress_point c = decompress_spec c"
  by (rule decompress_point_spec)

text \<open>C28: What the decompression accepts is a point of the curve, with both coordinates below
  the prime and the parity of the first byte, and its compression is the text that came in: no
  two texts of a key give one point.\<close>

theorem decompress_point_sound:
  assumes "decompress_point c = Some pt"
  shows "compress_point pt = Some c
    \<and> (\<exists>x y. x < p256 \<and> y < p256 \<and> pt = point_bytes x y \<and> y * y mod p256 = curve_rhs x)"
proof -
  from assms obtain y where y: "length c = 33" "byte (c ! 0) = 2 \<or> byte (c ! 0) = 3"
    "be_value (drop 1 c) < p256" "y < p256" "y * y mod p256 = curve_rhs (be_value (drop 1 c))"
    "y mod 2 = byte (c ! 0) mod 2" "pt = point_bytes (be_value (drop 1 c)) y"
    by (rule decompress_cases)
  obtain b bs where c: "c = b # bs" using y(1) by (cases c) auto
  have "be_bytes 32 (be_value bs) = bs" using be_bytes_be_value [of bs] y(1) by (simp add: c)
  moreover have "byte (char_of (2 + y mod 2)) = byte b" using y(2,6) by (auto simp: c)
  then have "char_of (2 + y mod 2) = b" by (simp only: byte_inject)
  ultimately have "compress_point pt = Some c"
    unfolding y(7) compress_point_bytes by (simp add: c)
  then show ?thesis using y by blast
qed

text \<open>The point with the ordinate 1.\<close>

definition sample_x :: nat where
  "sample_x = 0x8d0177ebab9c6e9e10db6dd095dbac0d6375e8a97b70f611875d877f0069d2c7"

lemma sample_point:
  "decompress_point (char_of (3 :: nat) # be_bytes 32 sample_x) = Some (point_bytes sample_x 1)"
proof -
  have "be_value (be_bytes 32 sample_x) = sample_x"
    by (simp add: be_value_be_bytes sample_x_def)
  moreover have "curve_rhs sample_x = 1"
    by (simp add: curve_rhs_def sample_x_def p256_def B_def power3_eq_cube)
  moreover have "sample_x < p256" "1 < p256" by (simp_all add: sample_x_def p256_def)
  ultimately show ?thesis
    by (simp add: decompress_point_spec decompress_spec_def Let_def)
qed

lemma decompress_point_sound_witness:
  "compress_point (point_bytes sample_x 1) = Some (char_of (3 :: nat) # be_bytes 32 sample_x)"
  using decompress_point_sound [OF sample_point] by (rule conjunct1)


end
