(* ===== verification/LinkNames.thy ===== *)
theory LinkNames
  imports PointKeys
begin

text \<open>
  The device name of a link (src/src/questions/device_link.rs): a phone or a watch sends its
  answer key at the end of the name, after a mark, and the Mac that confirms the link splits
  it again. The lemmas show what the Mac reads of a name that a device writes.
\<close>

section \<open>Device names\<close>

definition MAX_LINK_NAME_BYTES :: nat where "MAX_LINK_NAME_BYTES = 64"

definition KEY_MARK :: string where "KEY_MARK = '' ~''"

definition KEY_CHARS :: nat where "KEY_CHARS = 44"

definition MAX_SHOWN_NAME_BYTES :: nat where
  "MAX_SHOWN_NAME_BYTES = MAX_LINK_NAME_BYTES - length KEY_MARK - KEY_CHARS"

definition WATCH_KIND :: char where "WATCH_KIND = CHR ''W''"

definition MAX_SHOWN_WATCH_NAME_BYTES :: nat where
  "MAX_SHOWN_WATCH_NAME_BYTES = MAX_SHOWN_NAME_BYTES - length [WATCH_KIND]"

datatype LinkedDeviceKind = Iphone | Watch

text \<open>The loop that pushes the characters until one does not fit.\<close>

fun push_until :: "nat \<Rightarrow> string \<Rightarrow> string list \<Rightarrow> string" where
  "push_until limit shown [] = shown"
| "push_until limit shown (ch # rest) =
     (if limit < length shown + length ch then shown else push_until limit (shown @ ch) rest)"

definition cut_name :: "string \<Rightarrow> nat \<Rightarrow> string \<Rightarrow> string" where
  "cut_name name limit fallback =
     (let shown = trim (push_until limit [] (filter (\<lambda>ch. \<not> is_control ch) (chars (trim name))))
      in if shown = [] then fallback else shown)"

definition link_device_name :: "string \<Rightarrow> string \<Rightarrow> string option" where
  "link_device_name name answer_key =
     (case compress_point answer_key of
        None \<Rightarrow> None
      | Some c \<Rightarrow> Some (cut_name name MAX_SHOWN_NAME_BYTES ''iPhone'' @ KEY_MARK @ encode_url c))"

definition watch_link_device_name :: "string \<Rightarrow> string \<Rightarrow> string option" where
  "watch_link_device_name name answer_key =
     (case compress_point answer_key of
        None \<Rightarrow> None
      | Some c \<Rightarrow>
          Some (cut_name name MAX_SHOWN_WATCH_NAME_BYTES ''Apple Watch'' @ KEY_MARK
            @ WATCH_KIND # encode_url c))"

text \<open>\<open>str::rsplit_once\<close>: the text before the last \<open>p\<close> and the text after it.\<close>

fun rsplit_once :: "string \<Rightarrow> string \<Rightarrow> (string \<times> string) option" where
  "rsplit_once p [] = None"
| "rsplit_once p (c # cs) =
     (case rsplit_once p cs of
        Some (a, b) \<Rightarrow> Some (c # a, b)
      | None \<Rightarrow> map_option (Pair []) (strip_prefix (c # cs) p))"

definition key_after_mark :: "string \<Rightarrow> LinkedDeviceKind \<Rightarrow> (string \<times> string) option" where
  "key_after_mark text kind =
     (case rsplit_once KEY_MARK text of
        None \<Rightarrow> None
      | Some (name, rest) \<Rightarrow>
          (case (case kind of Iphone \<Rightarrow> Some rest | Watch \<Rightarrow> strip_prefix rest [WATCH_KIND]) of
             None \<Rightarrow> None
           | Some key \<Rightarrow>
               if length key \<noteq> KEY_CHARS \<or> trim name = [] then None
               else (case decode_url key of
                   None \<Rightarrow> None
                 | Some bytes \<Rightarrow> map_option (Pair (trim name)) (decompress_point bytes))))"

definition split_link_device_name :: "string \<Rightarrow> string \<times> string option" where
  "split_link_device_name text =
     (case key_after_mark text Iphone of
        Some (name, point) \<Rightarrow> (name, Some point)
      | None \<Rightarrow> (trim text, None))"

definition split_linked_device_name :: "string \<Rightarrow> string \<times> (LinkedDeviceKind \<times> string) option" where
  "split_linked_device_name text =
     (case find_map (\<lambda>kind. map_option (\<lambda>(name, point). (name, Some (kind, point)))
          (key_after_mark text kind)) [Iphone, Watch] of
        Some found \<Rightarrow> found
      | None \<Rightarrow> (trim text, None))"

definition watch_label :: "string \<Rightarrow> string" where
  "watch_label name =
     (if contains_sub (to_lowercase name) ''apple watch'' then name else name @ '' (Apple Watch)'')"

definition shown_link_name :: "string \<Rightarrow> string" where
  "shown_link_name text = fst (split_linked_device_name text)"


section \<open>What a device name holds\<close>

lemma length_push_until: "length shown \<le> limit \<Longrightarrow> length (push_until limit shown cs) \<le> limit"
  by (induction limit shown cs rule: push_until.induct) auto

lemma cut_name_ok:
  assumes "trim fallback = fallback" and "fallback \<noteq> []" and "length fallback \<le> limit"
  shows "trim (cut_name n limit fallback) = cut_name n limit fallback" (is ?t)
    "cut_name n limit fallback \<noteq> []" (is ?n) "length (cut_name n limit fallback) \<le> limit" (is ?l)
proof -
  let ?p = "push_until limit [] (filter (\<lambda>ch. \<not> is_control ch) (chars (trim n)))"
  have "length (trim ?p) \<le> limit"
    using length_trim_le [of ?p] length_push_until [of "[]" limit] by (auto intro: le_trans)
  then show ?t ?n ?l using assms by (simp_all add: cut_name_def Let_def)
qed

lemma fallback_names:
  "trim ''iPhone'' = ''iPhone''" "trim ''Apple Watch'' = ''Apple Watch''"
  by (simp_all add: trim_def is_whitespace_def char_len_def byte_def chars.simps)

lemma rsplit_once_None: "c \<notin> set s \<Longrightarrow> rsplit_once (c # p) s = None"
  by (induction s) (auto simp: strip_prefix_def starts_with_def)

lemma rsplit_once_last:
  assumes "CHR '' '' \<notin> set key"
  shows "rsplit_once KEY_MARK (name @ KEY_MARK @ key) = Some (name, key)"
proof (induction name)
  case Nil
  have "rsplit_once KEY_MARK (CHR ''~'' # key) = None"
    unfolding KEY_MARK_def using assms by (intro rsplit_once_None) simp
  then show ?case by (simp add: KEY_MARK_def strip_prefix_def starts_with_def)
qed simp

lemma encode_url_multiple: "length bs = 3 * n \<Longrightarrow> length (encode_url bs) = 4 * n"
proof (induction n arbitrary: bs)
  case (Suc n)
  have "encode_url (take 3 bs @ drop 3 bs) = encode_url_chunk (take 3 bs) @ encode_url (drop 3 bs)"
    using Suc.prems by (intro encode_url_whole) simp
  then show ?case
    using Suc length_encode_url_chunk [of "take 3 bs"] by simp
qed (simp add: encode_url_def)

lemma encode_url_no_space: "CHR '' '' \<notin> set (encode_url bs)"
proof -
  have "URL_ALPHABET ! (k mod 64) \<in> set URL_ALPHABET" for k
    by (intro nth_mem) (simp add: URL_ALPHABET_def)
  moreover have "CHR '' '' \<notin> set URL_ALPHABET" by (simp add: URL_ALPHABET_def)
  ultimately have "CHR '' '' \<noteq> URL_ALPHABET ! (k mod 64)" for k by metis
  then show ?thesis by (auto simp: encode_url_def encode_url_chunk_def Let_def)
qed

lemma compressed_length: "compress_point key = Some c \<Longrightarrow> length c = 33"
  by (auto simp: compress_point_def split: if_splits)

lemma key_text:
  assumes "compress_point key = Some c"
  shows "length (encode_url c) = KEY_CHARS" "decode_url (encode_url c) = Some c"
  using encode_url_multiple [of c 11] compressed_length [OF assms]
  by (simp_all add: KEY_CHARS_def decode_encode_url)

lemma key_after_mark_phone:
  assumes "compress_point key = Some c" and "decompress_point c = Some key"
    and "trim name = name" and "name \<noteq> []"
  shows "key_after_mark (name @ KEY_MARK @ encode_url c) Iphone = Some (name, key)"
    "key_after_mark (name @ KEY_MARK @ encode_url c) Watch = None"
  using key_text [OF assms(1)] assms(2-)
  by (auto simp: key_after_mark_def rsplit_once_last encode_url_no_space strip_prefix_def KEY_CHARS_def
      split: option.splits)

lemma key_after_mark_watch:
  assumes "compress_point key = Some c" and "decompress_point c = Some key"
    and "trim name = name" and "name \<noteq> []"
  shows "key_after_mark (name @ KEY_MARK @ WATCH_KIND # encode_url c) Watch = Some (name, key)"
    "key_after_mark (name @ KEY_MARK @ WATCH_KIND # encode_url c) Iphone = None"
proof -
  have "CHR '' '' \<notin> set (WATCH_KIND # encode_url c)"
    using encode_url_no_space [of c] by (simp add: WATCH_KIND_def)
  note r = rsplit_once_last [OF this, of name]
  show "key_after_mark (name @ KEY_MARK @ WATCH_KIND # encode_url c) Watch = Some (name, key)"
    "key_after_mark (name @ KEY_MARK @ WATCH_KIND # encode_url c) Iphone = None"
    using key_text [OF assms(1)] assms(2-) by (simp_all add: key_after_mark_def r strip_prefix_def starts_with_def)
qed

text \<open>C29: For a key on the curve, the device name that a phone or a watch writes fits the 64
  bytes of the relay, and the Mac reads back the cut name, the kind of the device and exactly
  the key; the reader of phone names takes no key from the name of a watch.\<close>

theorem link_name_roundtrip:
  assumes "compress_point key = Some c" and "decompress_point c = Some key"
  shows "\<exists>t w. link_device_name name key = Some t \<and> watch_link_device_name name key = Some w
    \<and> length t \<le> MAX_LINK_NAME_BYTES \<and> length w \<le> MAX_LINK_NAME_BYTES
    \<and> split_linked_device_name t = (cut_name name MAX_SHOWN_NAME_BYTES ''iPhone'', Some (Iphone, key))
    \<and> split_linked_device_name w
        = (cut_name name MAX_SHOWN_WATCH_NAME_BYTES ''Apple Watch'', Some (Watch, key))
    \<and> split_link_device_name w = (trim w, None)"
proof -
  let ?n = "cut_name name MAX_SHOWN_NAME_BYTES ''iPhone''"
  let ?m = "cut_name name MAX_SHOWN_WATCH_NAME_BYTES ''Apple Watch''"
  note bounds = MAX_SHOWN_NAME_BYTES_def MAX_SHOWN_WATCH_NAME_BYTES_def MAX_LINK_NAME_BYTES_def
    KEY_MARK_def KEY_CHARS_def
  have "length ''iPhone'' \<le> MAX_SHOWN_NAME_BYTES"
    "length ''Apple Watch'' \<le> MAX_SHOWN_WATCH_NAME_BYTES"
    by (simp_all add: bounds)
  note n = cut_name_ok [OF fallback_names(1) _ this(1), of name]
    and m = cut_name_ok [OF fallback_names(2) _ this(2), of name]
  show ?thesis
    using key_text(1) [OF assms(1)] key_after_mark_phone [OF assms n(1,2)]
      key_after_mark_watch [OF assms m(1,2)] n(3) m(3)
    by (simp add: link_device_name_def watch_link_device_name_def assms(1) split_linked_device_name_def
        split_link_device_name_def) (simp add: bounds)
qed

lemma link_name_roundtrip_witness:
  "\<exists>t. link_device_name ''Anna'' (point_bytes sample_x 1) = Some t
    \<and> snd (split_linked_device_name t) = Some (Iphone, point_bytes sample_x 1)"
proof -
  have "compress_point (point_bytes sample_x 1) = Some (char_of (3 :: nat) # be_bytes 32 sample_x)"
    by (simp add: compress_point_bytes)
  from link_name_roundtrip [OF this sample_point, of "''Anna''"] show ?thesis by auto
qed

end
