(* ===== verification/Membership.thy ===== *)
theory Membership
  imports Devices LinkNames LegacyNames
begin

text \<open>
  The questions of a vault through a relay team (src/src/relay/membership.rs): whether this
  Mac can send them, turning them on and off, the move to the own node, the rows of this Mac
  and of the devices that it confirms. A call of the relay, the parser of addresses, a new key
  and the random bytes of a UUID are arguments; \<open>clk n\<close> is the n-th reading of the clock in a
  call, in seconds and in milliseconds. The vault operations are those of the theory Devices,
  one transaction each, so an error in between leaves the state of the last one.
\<close>

section \<open>Errors and names\<close>

datatype LinkRefusal = TooLong | BadOrigin | UnknownKey | RepeatedKey | KeyOrder | EmptyValue
  | BadCode | NeedsPin | HandoffOnPair | BadPin | BadAlt | BadName | BadHandoff

datatype RelayRefusal = InvalidRequest | Forbidden | InviteInvalid | JoinPending | JoinRefused
  | HeadInvalid | TeamLimit | PlanRequired | RelayNotFound | RelayConflict | RateLimited | Busy
  | RelayError

datatype SyncError = NotEnabled | AlreadyEnabled | FolderUnavailable | NotDownloaded
  | NeedsPassphrase | DamagedCopy | OtherVault | WrongVault | InvalidName | StateDamaged
  | VaultError verr | IoError | TimedOut | PreconditionFailed | RelayBusy | RelayUnreachable
  | RemovedFromRelay | StaleCopy | ForkedCopy | AlreadyRunning | TooLarge | InvalidRelayAddress
  | OriginMismatch | RelayEmpty | SafetyMismatch | PinMismatch | LinkInvalid LinkRefusal
  | RelayRefused RelayRefusal

fun vault_result :: "verr + 'a \<Rightarrow> SyncError + 'a" where
  "vault_result (Inl e) = Inl (VaultError e)"
| "vault_result (Inr x) = Inr x"

definition on_vault :: "(verr, 'a) action \<Rightarrow> (SyncError, 'a) action" where
  "on_vault act v = (case act v of (r, v') \<Rightarrow> (vault_result r, v'))"

definition MAX_NAME_BYTES :: nat where "MAX_NAME_BYTES = 64"

definition clean_name :: "string \<Rightarrow> string \<Rightarrow> string" where
  "clean_name text fallback =
     (let name = trim (push_until MAX_NAME_BYTES [] (filter (\<lambda>ch. \<not> is_control ch) (chars (trim text))))
      in if name = [] then fallback else name)"

definition is_hash_hex :: "string \<Rightarrow> bool" where
  "is_hash_hex t \<longleftrightarrow> length t = 64
     \<and> list_all (\<lambda>c. is_ascii_digit c \<or> CHR ''a'' \<le> c \<and> c \<le> CHR ''f'') t"

definition valid_team_code :: "string \<Rightarrow> bool" where
  "valid_team_code code = (case strip_prefix code ''apassy_tcd_'' of None \<Rightarrow> False | Some r \<Rightarrow> is_hash_hex r)"

text \<open>The version and variant bits, and the text with its four hyphens.\<close>

definition uuid_bytes :: "string \<Rightarrow> string" where
  "uuid_bytes bs = bs[6 := char_of (byte (bs ! 6) mod 16 + 64), 8 := char_of (byte (bs ! 8) mod 64 + 128)]"

definition new_device_uuid :: "string option \<Rightarrow> verr + string" where
  "new_device_uuid random =
     and_then (ok_or Storage random) (\<lambda>bs.
       let hex = to_hex (uuid_bytes bs)
       in Inr (take 8 hex @ ''-'' @ take 4 (drop 8 hex) @ ''-'' @ take 4 (drop 12 hex) @ ''-''
            @ take 4 (drop 16 hex) @ ''-'' @ drop 20 hex))"

definition valid_device_uuid :: "string \<Rightarrow> bool" where
  "valid_device_uuid t \<longleftrightarrow> length t = 36
     \<and> list_all (\<lambda>(i, c). if i \<in> {8, 13, 18, 23} then c = CHR ''-''
          else is_ascii_digit c \<or> CHR ''a'' \<le> c \<and> c \<le> CHR ''f'') (enumerate 0 t)"

section \<open>What this Mac can do\<close>

record relay_url =
  ru_origin :: string
  ru_pin :: "string option"
  ru_alt :: "string list"

datatype QuestionsAvailability = On string | CanTurnOn string | NeedsTeam | JoinTeam string
  | Removed string bool

definition DEFAULT_RELAY_URL :: string where
  "DEFAULT_RELAY_URL = ''https://apassy-relay.wyderka.cc''"

definition on_hosted_relay :: "(string \<Rightarrow> SyncError + relay_url) \<Rightarrow> string \<Rightarrow> bool" where
  "on_hosted_relay parse url =
     (case parse url of Inl _ \<Rightarrow> False | Inr u \<Rightarrow> ru_origin u = DEFAULT_RELAY_URL)"

definition questions_membership :: "relay_vault \<Rightarrow> verr + membership option" where
  "questions_membership v =
     and_then (relay_memberships v) (\<lambda>ms.
       Inr (List.find (\<lambda>m. PurposeQuestions \<in> ms_purposes m) ms))"

text \<open>The number of live devices in each team, and \<open>max_by\<close> on it: the larger count, then the
  smaller name.\<close>

definition count_team :: "string \<Rightarrow> (string \<times> nat) list \<Rightarrow> (string \<times> nat) list" where
  "count_team t al = map_put t (case map_of al t of None \<Rightarrow> 1 | Some n \<Rightarrow> n + 1) al"

definition team_counts :: "trusted_device list \<Rightarrow> (string \<times> nat) list" where
  "team_counts ds = fold count_team (concat (map (\<lambda>d. map fst (td_relay d)) ds)) []"

definition ahead :: "string \<times> nat \<Rightarrow> string \<times> nat \<Rightarrow> bool" where
  "ahead a b \<longleftrightarrow> snd b < snd a \<or> snd b = snd a \<and> fst a < fst b"

definition max_team :: "(string \<times> nat) list \<Rightarrow> (string \<times> nat) option" where
  "max_team al = fold (\<lambda>x best. case best of None \<Rightarrow> Some x
     | Some b \<Rightarrow> if ahead b x then Some b else Some x) al None"

definition existing_questions_team :: "relay_vault \<Rightarrow> verr + string option" where
  "existing_questions_team v =
     and_then (relay_memberships v) (\<lambda>ms.
     let mine = map ms_team ms
     in and_then (questions_team v) (\<lambda>named. case named of
          Some team \<Rightarrow> Inr (if team \<in> set mine then None else Some team)
        | None \<Rightarrow> and_then (trusted_devices v) (\<lambda>ds.
            Inr (map_option fst (max_team (filter (\<lambda>(t, _). t \<notin> set mine) (team_counts ds)))))))"

definition questions_availability :: "relay_vault \<Rightarrow> verr + QuestionsAvailability" where
  "questions_availability v =
     and_then (questions_membership v) (\<lambda>q. case q of
       Some m \<Rightarrow> and_then (trusted_key_removed (ms_public m) v) (\<lambda>gone.
         Inr (if gone then Removed (ms_team m) (PurposeSync \<in> ms_purposes m) else On (ms_team m)))
     | None \<Rightarrow> and_then (relay_device_of v) (\<lambda>d. case d of
         Some d \<Rightarrow> and_then (trusted_key_removed (rv_public d) v) (\<lambda>gone.
           Inr (if gone then Removed (rv_team d) True else CanTurnOn (rv_team d)))
       | None \<Rightarrow> and_then (existing_questions_team v) (\<lambda>t.
           Inr (case t of Some team \<Rightarrow> JoinTeam team | None \<Rightarrow> NeedsTeam))))"

definition questions_team_for_sync ::
    "(string \<Rightarrow> SyncError + relay_url) \<Rightarrow> relay_vault \<Rightarrow> relay_url \<Rightarrow> SyncError + membership option" where
  "questions_team_for_sync parse v url =
     and_then (vault_result (questions_membership v)) (\<lambda>q. case q of
       None \<Rightarrow> Inr None
     | Some m \<Rightarrow>
         if \<not> (case parse (ms_url m) of Inl _ \<Rightarrow> False | Inr own \<Rightarrow> ru_origin own = ru_origin url)
            \<or> ms_key m = [] then Inr None
         else and_then (vault_result (trusted_key_removed (ms_public m) v)) (\<lambda>gone.
           if gone then Inl (VaultError AlreadyExists) else Inr (Some m)))"

definition this_device_removed :: "membership \<Rightarrow> relay_vault \<Rightarrow> verr + bool" where
  "this_device_removed m v = trusted_key_removed (ms_public m) v"

definition questions_only :: "membership \<Rightarrow> bool" where
  "questions_only m \<longleftrightarrow> ms_purposes m \<subseteq> {PurposeQuestions}"

definition this_device :: "membership \<Rightarrow> relay_vault \<Rightarrow> verr + trusted_device option" where
  "this_device m v =
     and_then (trusted_devices v) (\<lambda>ds.
       Inr (List.find (\<lambda>d. td_kind d = Mac \<and> td_sign d = ms_public m) ds))"

section \<open>Rows of devices\<close>

type_synonym clock_readings = "nat \<Rightarrow> nat \<times> int"

definition register_this_device ::
    "clock_readings \<Rightarrow> string option \<Rightarrow> membership \<Rightarrow> string \<Rightarrow> (verr, trusted_device) action" where
  "register_this_device clk random m device_name =
     (let name = clean_name device_name ''Mac''
      in seq (reads (this_device m)) (\<lambda>found.
         seq (case found of
             Some d \<Rightarrow>
               if td_name d = name then return (td_uuid d)
               else seq (tx (register_trusted_device (fst (clk 0)) (snd (clk 0)) (td_uuid d) name Mac
                   (ms_public m) None)) (\<lambda>_. return (td_uuid d))
           | None \<Rightarrow> seq (reads (\<lambda>_. new_device_uuid random)) (\<lambda>u.
               seq (tx (register_trusted_device (fst (clk 0)) (snd (clk 0)) u name Mac
                   (ms_public m) None)) (\<lambda>_. return u))) (\<lambda>u.
         seq (tx (set_trusted_device_relay_id (snd (clk 1)) u (ms_team m) (ms_device m))) (\<lambda>_.
         seq (reads (trusted_device_of u)) (\<lambda>d.
           case d of None \<Rightarrow> fail Storage | Some d \<Rightarrow> return d)))))"

definition register_linked_device ::
    "clock_readings \<Rightarrow> string option \<Rightarrow> string \<Rightarrow> nat \<Rightarrow> string \<Rightarrow> string
      \<Rightarrow> (verr, trusted_device option) action" where
  "register_linked_device clk random team relay_device_id link_name sign_key =
     (case split_linked_device_name link_name of
        (_, None) \<Rightarrow> return None
      | (name, Some (linked, answer_key)) \<Rightarrow>
          (let (kind, fallback) = (case linked of
                 LinkedDeviceKind.Iphone \<Rightarrow> (device_kind.Iphone, ''iPhone'')
               | LinkedDeviceKind.Watch \<Rightarrow> (device_kind.Watch, ''Apple Watch''));
               name = clean_name name fallback
           in if \<not> valid_team_id team \<or> relay_device_id = 0 then fail InvalidInput
              else seq (reads trusted_devices) (\<lambda>ds.
                if list_ex (\<lambda>d. map_of (td_relay d) team = Some relay_device_id) ds
                then fail AlreadyExists
                else seq (reads (\<lambda>_. new_device_uuid random)) (\<lambda>u.
                  seq (tx (register_trusted_device (fst (clk 0)) (snd (clk 0)) u name kind sign_key
                      (Some answer_key))) (\<lambda>_.
                  seq (tx (set_trusted_device_relay_id (snd (clk 1)) u team relay_device_id)) (\<lambda>_.
                  reads (trusted_device_of u)))))))"

section \<open>On and off\<close>

definition enable_questions ::
    "clock_readings \<Rightarrow> string option \<Rightarrow> string \<Rightarrow> string \<Rightarrow> (SyncError, trusted_device) action" where
  "enable_questions clk random key device_name =
     seq (on_vault (reads questions_membership)) (\<lambda>q. case q of
       Some m \<Rightarrow>
         seq (on_vault (tx (ensure_question_key (snd (clk 2)) key))) (\<lambda>_.
         on_vault (register_this_device clk random m device_name))
     | None \<Rightarrow>
         seq (on_vault (reads relay_device_of)) (\<lambda>d. case d of
           None \<Rightarrow> fail NotEnabled
         | Some d \<Rightarrow>
             seq (on_vault (reads (trusted_key_removed (rv_public d)))) (\<lambda>gone.
             if gone then fail (VaultError AlreadyExists)
             else seq (on_vault (reads (relay_membership (rv_team d)))) (\<lambda>m. case m of
               None \<Rightarrow> fail NotEnabled
             | Some m \<Rightarrow>
                 (let m = m\<lparr>ms_purposes := insert PurposeQuestions (ms_purposes m)\<rparr>
                  in seq (on_vault (tx (set_membership_purposes (ms_team m) (ms_purposes m)))) (\<lambda>_.
                     seq (on_vault (tx (ensure_question_key (snd (clk 2)) key))) (\<lambda>_.
                     on_vault (register_this_device clk random m device_name))))))))"

text \<open>A failure after the membership is added takes the membership away again, whatever the
  result of that is.\<close>

definition keep_questions_membership ::
    "clock_readings \<Rightarrow> string option \<Rightarrow> string \<Rightarrow> membership \<Rightarrow> string \<Rightarrow> (SyncError, trusted_device) action" where
  "keep_questions_membership clk random key m device_name =
     seq (on_vault (reads (trusted_key_removed (ms_public m)))) (\<lambda>gone.
     if gone then fail (VaultError AlreadyExists)
     else seq (on_vault (tx (add_relay_membership (fst (clk 3)) m))) (\<lambda>_ v.
       case on_vault (seq (tx (set_questions_team (snd (clk 4)) (ms_team m))) (\<lambda>_.
              seq (tx (ensure_question_key (snd (clk 2)) key)) (\<lambda>_.
              register_this_device clk random m device_name))) v of
         (Inr d, v') \<Rightarrow> (Inr d, v')
       | (Inl e, v') \<Rightarrow> (Inl e, snd (tx (remove_relay_membership (ms_team m)) v'))))"

definition unlocked :: "(SyncError, unit) action" where
  "unlocked v = (if rl_open v then (Inr (), v) else (Inl (VaultError Locked), v))"

definition adopt_questions_team ::
    "clock_readings \<Rightarrow> string option \<Rightarrow> string \<Rightarrow> membership \<Rightarrow> string \<Rightarrow> (SyncError, trusted_device) action" where
  "adopt_questions_team clk random key m device_name =
     seq unlocked (\<lambda>_.
     seq (on_vault (reads questions_membership)) (\<lambda>q.
     if q \<noteq> None then fail AlreadyEnabled
     else seq (on_vault (reads existing_questions_team)) (\<lambda>t.
       if t \<noteq> None \<and> t \<noteq> Some (ms_team m) then fail AlreadyEnabled
       else keep_questions_membership clk random key m device_name)))"

definition adopt_node_team ::
    "clock_readings \<Rightarrow> string option \<Rightarrow> string \<Rightarrow> membership \<Rightarrow> string \<Rightarrow> (SyncError, trusted_device) action" where
  "adopt_node_team clk random key m device_name =
     (if ms_pin m = None then fail InvalidRelayAddress
      else adopt_questions_team clk random key m device_name)"

definition join_questions_team ::
    "clock_readings \<Rightarrow> string option \<Rightarrow> string \<Rightarrow> membership \<Rightarrow> string \<Rightarrow> (SyncError, trusted_device) action" where
  "join_questions_team clk random key m device_name =
     seq unlocked (\<lambda>_.
     seq (on_vault (reads questions_membership)) (\<lambda>q.
     if q \<noteq> None then fail AlreadyEnabled
     else seq (on_vault (reads questions_team)) (\<lambda>t.
       if t \<noteq> None \<and> t \<noteq> Some (ms_team m) then fail AlreadyEnabled
       else keep_questions_membership clk random key m device_name)))"

text \<open>The relay part of a new team: the form of the team code, a new key (its public point
  and, for a key in memory, its private bytes), and the answer of the relay to the request.\<close>

definition created_team :: "SyncError + string \<times> nat \<Rightarrow> SyncError + string \<times> nat" where
  "created_team reply =
     and_then reply (\<lambda>(team, device).
       if \<not> valid_team_id team \<or> device = 0 then Inl RelayUnreachable else Inr (team, device))"

definition new_questions_team_at ::
    "relay_url \<Rightarrow> SyncError + string \<times> string option
      \<Rightarrow> (string \<Rightarrow> string \<Rightarrow> string \<Rightarrow> string \<Rightarrow> SyncError + string \<times> nat)
      \<Rightarrow> string \<Rightarrow> string \<Rightarrow> string \<Rightarrow> SyncError + membership" where
  "new_questions_team_at url generate post team_code vault_name device_name =
     (let team_code = trim team_code
      in if \<not> valid_team_code team_code then Inl (RelayRefused InviteInvalid)
         else and_then generate (\<lambda>(public, private).
           and_then (created_team (post team_code (clean_name vault_name ''Vault'')
             (clean_name device_name ''Mac'') (encode_url public))) (\<lambda>(team, device).
           Inr \<lparr>ms_team = team, ms_url = ru_origin url, ms_device = device, ms_public = public,
                ms_key = (case private of None \<Rightarrow> [] | Some k \<Rightarrow> k),
                ms_purposes = {PurposeQuestions}, ms_created = 0, ms_pin = ru_pin url,
                ms_alt = ru_alt url\<rparr>)))"

definition new_questions_team ::
    "(string \<Rightarrow> SyncError + relay_url) \<Rightarrow> SyncError + string \<times> string option
      \<Rightarrow> (string \<Rightarrow> string \<Rightarrow> string \<Rightarrow> string \<Rightarrow> SyncError + string \<times> nat)
      \<Rightarrow> string \<Rightarrow> string \<Rightarrow> string \<Rightarrow> string \<Rightarrow> SyncError + membership" where
  "new_questions_team parse generate post relay_url team_code vault_name device_name =
     and_then (parse relay_url) (\<lambda>url.
       new_questions_team_at url generate post team_code vault_name device_name)"

definition create_questions_team ::
    "(string \<Rightarrow> SyncError + relay_url) \<Rightarrow> SyncError + string \<times> string option
      \<Rightarrow> (string \<Rightarrow> string \<Rightarrow> string \<Rightarrow> string \<Rightarrow> SyncError + string \<times> nat)
      \<Rightarrow> clock_readings \<Rightarrow> string option \<Rightarrow> string \<Rightarrow> string \<Rightarrow> string \<Rightarrow> string \<Rightarrow> string
      \<Rightarrow> (SyncError, trusted_device) action" where
  "create_questions_team parse generate post clk random key relay_url team_code vault_name device_name =
     seq unlocked (\<lambda>_.
     seq (on_vault (reads questions_membership)) (\<lambda>q.
     if q \<noteq> None then fail AlreadyEnabled
     else seq (on_vault (reads existing_questions_team)) (\<lambda>t.
       if t \<noteq> None then fail AlreadyEnabled
       else seq (reads (\<lambda>_. new_questions_team parse generate post relay_url team_code vault_name
            device_name)) (\<lambda>m.
         adopt_questions_team clk random key m device_name))))"

definition disable_questions :: "(verr, bool) action" where
  "disable_questions =
     seq (reads questions_membership) (\<lambda>q. case q of
       None \<Rightarrow> return False
     | Some m \<Rightarrow>
         (let rest = ms_purposes m - {PurposeQuestions}
          in if rest = {} then seq (tx (remove_relay_membership (ms_team m))) (\<lambda>_. return True)
             else seq (tx (set_membership_purposes (ms_team m) rest)) (\<lambda>_. return True)))"

definition move_questions_to_node ::
    "clock_readings \<Rightarrow> string option \<Rightarrow> string \<Rightarrow> membership \<Rightarrow> string \<Rightarrow> string
      \<Rightarrow> (SyncError, membership) action" where
  "move_questions_to_node clk random key node hosted_team device_name =
     seq unlocked (\<lambda>_.
     if ms_pin node = None \<or> ms_team node = hosted_team then fail InvalidRelayAddress
     else seq (on_vault (reads questions_membership)) (\<lambda>q.
       case q of
         None \<Rightarrow> fail NotEnabled
       | Some hosted \<Rightarrow>
           if ms_team hosted \<noteq> hosted_team then fail NotEnabled
           else seq (on_vault (reads (trusted_key_removed (ms_public node)))) (\<lambda>gone.
             if gone then fail (VaultError AlreadyExists)
             else seq (on_vault disable_questions) (\<lambda>_ v.
               case keep_questions_membership clk random key node device_name v of
                 (Inr _, v') \<Rightarrow> (Inr hosted, v')
               | (Inl e, v') \<Rightarrow>
                   (let v1 = snd (tx (if questions_only hosted
                               then add_relay_membership (fst (clk 5)) hosted
                               else set_membership_purposes (ms_team hosted) (ms_purposes hosted)) v')
                    in (Inl e, snd (tx (set_questions_team (snd (clk 6)) (ms_team hosted)) v1)))))))"

end
