(* ===== verification/Handoff.thy ===== *)
theory Handoff
  imports Membership
begin

text \<open>
  The two writers of the device rows that take rows of another device: the handoff that an
  iPhone gets when it is paired (src/src/vault/connect.rs, \<open>adopt_question_handoff\<close>, with the
  record of src/src/relay/pairing.rs), and the vault merge of the synced tables
  (src/src/vault/merge.rs, \<open>merge_lww\<close>) on the rows of \<open>trusted_device\<close> and \<open>vault_secret\<close>.
  The merge of the other synced tables is in the theory SyncMerge.
\<close>

section \<open>The handoff of a pairing\<close>

record handoff =
  hf_v :: nat
  hf_vault :: string
  hf_team :: string
  hf_recipient :: string
  hf_key :: string
  hf_at :: int
  hf_by :: string
  hf_devices :: "trusted_device list"

text \<open>\<open>question_key_for_handoff\<close>: the key with its sync version.\<close>

definition question_key_for_handoff :: "relay_vault \<Rightarrow> verr + string \<times> int \<times> string" where
  "question_key_for_handoff v =
     and_then (question_key v) (\<lambda>k.
     and_then (ok_or NotFound k) (\<lambda>key.
     and_then (ok_or Storage (secret_of v QUESTION_KEY_NAME)) (\<lambda>(_, at', by').
     Inr (key, at', by'))))"

text \<open>The checks of one device row of the handoff.\<close>

definition handoff_device_ok :: "handoff \<Rightarrow> relay_vault \<Rightarrow> trusted_device \<Rightarrow> bool" where
  "handoff_device_ok h v d \<longleftrightarrow>
     valid_device_uuid (td_uuid d) \<and> trim (td_name d) \<noteq> [] \<and> length (td_name d) \<le> 64
     \<and> \<not> list_ex is_control (chars (td_name d)) \<and> valid_point (td_sign d)
     \<and> (case td_answer d of None \<Rightarrow> True | Some k \<Rightarrow> valid_point k)
     \<and> (case map_of (td_relay d) (hf_team h) of None \<Rightarrow> False | Some i \<Rightarrow> valid_relay_number i)
     \<and> length (td_relay d) \<le> 10
     \<and> list_all (\<lambda>(team, i). valid_team_id team \<and> valid_relay_number i) (td_relay d)
     \<and> 0 \<le> td_updated d \<and> \<not> key_removed v (td_sign d)
     \<and> (case td_answer d of None \<Rightarrow> True | Some k \<Rightarrow> \<not> key_removed v k)
     \<and> \<not> list_ex (\<lambda>r. rd_uuid r = td_uuid d \<and> \<not> live r) (rl_devices v)"

text \<open>The row is inserted, or it updates a live row with an earlier version.\<close>

definition adopt_device :: "handoff \<Rightarrow> trusted_device \<Rightarrow> relay_vault \<Rightarrow> verr + relay_vault" where
  "adopt_device h d v =
     and_then (require InvalidInput (handoff_device_ok h v d)) (\<lambda>_.
     and_then (require InvalidInput (td_created d \<le> i64_max)) (\<lambda>_.
     Inr (case device_at v (td_uuid d) of
         None \<Rightarrow> v\<lparr>rl_devices := rl_devices v @
           [\<lparr>rd_uuid = td_uuid d, rd_name = td_name d, rd_kind = device_kind_str (td_kind d),
             rd_relay = Some (td_relay d), rd_sign = td_sign d, rd_answer = td_answer d,
             rd_created = int (td_created d), rd_updated = td_updated d, rd_by = td_by d,
             rd_deleted = None\<rparr>]\<rparr>
       | Some r \<Rightarrow>
           if live r \<and> (rd_updated r, rd_by r) < (td_updated d, td_by d)
           then update_device (td_uuid d) (\<lambda>r. r\<lparr>rd_name := td_name d,
                  rd_kind := device_kind_str (td_kind d), rd_relay := Some (td_relay d),
                  rd_sign := td_sign d, rd_answer := td_answer d, rd_updated := td_updated d,
                  rd_by := td_by d\<rparr>) v
           else v)))"

fun adopt_devices :: "handoff \<Rightarrow> trusted_device list \<Rightarrow> relay_vault \<Rightarrow> verr + relay_vault" where
  "adopt_devices h [] v = Inr v"
| "adopt_devices h (d # ds) v = and_then (adopt_device h d v) (adopt_devices h ds)"

definition adopt_question_key :: "handoff \<Rightarrow> relay_vault \<Rightarrow> verr + relay_vault" where
  "adopt_question_key h v =
     (case secret_of v QUESTION_KEY_NAME of
        None \<Rightarrow> Inr (v\<lparr>rl_secrets := rl_secrets v @ [(QUESTION_KEY_NAME, hf_key h, hf_at h, hf_by h)]\<rparr>)
      | Some (key, at', by') \<Rightarrow>
          if key \<noteq> hf_key h \<and> (hf_at h, hf_by h) < (at', by') then Inl InvalidInput
          else Inr (if (at', by') \<le> (hf_at h, hf_by h)
            then v\<lparr>rl_secrets := upsert_row fst (rl_secrets v) QUESTION_KEY_NAME
                   (\<lambda>_. (QUESTION_KEY_NAME, hf_key h, hf_at h, hf_by h))\<rparr>
            else v))"

text \<open>An earlier membership of the same team makes place only when its key was removed.\<close>

definition replace_membership :: "membership \<Rightarrow> string option \<Rightarrow> relay_vault \<Rightarrow> verr + relay_vault" where
  "replace_membership m replaces v =
     (case replaces of
        None \<Rightarrow> Inr v
      | Some team \<Rightarrow>
          and_then (require InvalidInput (team = ms_team m)) (\<lambda>_.
          and_then (load_memberships v (Some team)) (\<lambda>ms.
          case ms of
            [] \<Rightarrow> Inl InvalidInput
          | old # _ \<Rightarrow>
              and_then (require InvalidInput
                 (ms_purposes old = ms_purposes m \<and> key_removed v (ms_public old))) (\<lambda>_.
              Inr (delete_member team v)))))"

text \<open>The text of \<open>alt\<close> is written also for no alternatives.\<close>

definition insert_membership :: "nat \<Rightarrow> membership \<Rightarrow> relay_vault \<Rightarrow> verr + relay_vault" where
  "insert_membership secs m v =
     and_then (require InvalidInput (ms_device m \<le> i64_max)) (\<lambda>_.
     and_then (to_sql_time secs) (\<lambda>now.
     and_then (require Storage (\<not> list_ex (\<lambda>r. mb_team r = ms_team m) (rl_members v))) (\<lambda>_.
     Inr (v\<lparr>rl_members := rl_members v @
       [\<lparr>mb_team = ms_team m, mb_url = ms_url m, mb_device = int (ms_device m),
         mb_public = ms_public m, mb_key = ms_key m, mb_purposes = Some [''questions''],
         mb_created = now, mb_pin = ms_pin m, mb_alt = Some (Some (ms_alt m)),
         mb_source = KeyVault\<rparr>]\<rparr>))))"

definition adopt_question_handoff ::
    "nat \<Rightarrow> verr + string \<Rightarrow> handoff \<Rightarrow> membership \<Rightarrow> string \<Rightarrow> string option \<Rightarrow> relay_vault
      \<Rightarrow> verr + unit \<times> relay_vault" where
  "adopt_question_handoff secs vault_id h m answer replaces v =
     and_then (require InvalidInput (membership_is_valid m \<and> ms_purposes m = {PurposeQuestions}
        \<and> hf_team h = ms_team m \<and> hf_v h = 1)) (\<lambda>_.
     and_then (rl_conn v) (\<lambda>_.
     and_then vault_id (\<lambda>vault_id.
     and_then (require InvalidInput (hf_vault h = vault_id \<and> hf_recipient h = ms_public m
        \<and> length (hf_key h) = 32 \<and> 0 \<le> hf_at h \<and> length (hf_devices h) \<le> 50
        \<and> list_ex (\<lambda>d. td_sign d = ms_public m \<and> td_answer d = Some answer
              \<and> map_of (td_relay d) (hf_team h) = Some (ms_device m)) (hf_devices h))) (\<lambda>_.
     and_then (adopt_devices h (hf_devices h) v) (\<lambda>v.
     and_then (adopt_question_key h v) (\<lambda>v.
     and_then (replace_membership m replaces v) (\<lambda>v.
     and_then (insert_membership secs m v) (\<lambda>v.
     Inr ((), v)))))))))"

section \<open>The vault merge on the rows of devices and of named secrets\<close>

definition device_later :: "raw_device \<Rightarrow> raw_device \<Rightarrow> bool" where
  "device_later theirs ours \<longleftrightarrow> (rd_updated ours, rd_by ours) < (rd_updated theirs, rd_by theirs)"

text \<open>A removal wins whatever the times; the times decide between two rows of one state.\<close>

definition takes_device :: "raw_device \<Rightarrow> raw_device \<Rightarrow> bool" where
  "takes_device theirs ours \<longleftrightarrow>
     (\<not> live theirs \<and> live ours) \<or> (live theirs = live ours \<and> device_later theirs ours)"

fun merge_devices :: "raw_device list \<Rightarrow> raw_device list \<Rightarrow> raw_device list" where
  "merge_devices [] ours = ours"
| "merge_devices (t # ts) ours =
     merge_devices ts
       (case find_row rd_uuid ours (rd_uuid t) of
          None \<Rightarrow> ours @ [t]
        | Some r \<Rightarrow> if takes_device t r then upsert_row rd_uuid ours (rd_uuid t) (\<lambda>_. t) else ours)"

fun merge_secrets ::
    "(string \<times> string \<times> int \<times> string) list \<Rightarrow> (string \<times> string \<times> int \<times> string) list
      \<Rightarrow> (string \<times> string \<times> int \<times> string) list" where
  "merge_secrets [] ours = ours"
| "merge_secrets (t # ts) ours =
     merge_secrets ts
       (case map_of ours (fst t) of
          None \<Rightarrow> ours @ [t]
        | Some (_, at', by') \<Rightarrow>
            if (at', by') < snd (snd t) then upsert_row fst ours (fst t) (\<lambda>_. t) else ours)"

definition merge_relay :: "relay_vault \<Rightarrow> relay_vault \<Rightarrow> relay_vault" where
  "merge_relay other v =
     v\<lparr>rl_devices := merge_devices (rl_devices other) (rl_devices v),
       rl_secrets := merge_secrets (rl_secrets other) (rl_secrets v)\<rparr>"

end
