(* ===== verification/MembershipSafety.thy ===== *)
theory MembershipSafety
  imports Handoff
begin

text \<open>
  What holds of the devices and the memberships of a vault over every sequence of operations:
  the key of a removed device never gets a live row again, at most one membership is the one
  of relay sync, and turning the questions off or failing to turn them on leaves the other
  memberships as they were.
\<close>

section \<open>Steps\<close>

inductive relay_step :: "relay_vault \<Rightarrow> relay_vault \<Rightarrow> bool" where
  lock: "relay_step v (v\<lparr>rl_open := b\<rparr>)"
| register: "register_trusted_device secs ms u name kind sign answer v = Inr (d, v') \<Longrightarrow> relay_step v v'"
| set_id: "set_trusted_device_relay_id ms u team i v = Inr (x, v') \<Longrightarrow> relay_step v v'"
| clear_id: "clear_trusted_device_relay_id ms u team v = Inr (b, v') \<Longrightarrow> relay_step v v'"
| remove: "remove_trusted_device secs ms u v = Inr (b, v') \<Longrightarrow> relay_step v v'"
| ensure: "ensure_question_key ms random v = Inr (key, v') \<Longrightarrow> relay_step v v'"
| rotate: "rotate_question_key ms random v = Inr (key, v') \<Longrightarrow> relay_step v v'"
| set_team: "set_questions_team ms team v = Inr (x, v') \<Longrightarrow> relay_step v v'"
| add: "add_relay_membership secs m v = Inr (x, v') \<Longrightarrow> relay_step v v'"
| trust: "set_membership_trust team pin alt v = Inr (x, v') \<Longrightarrow> relay_step v v'"
| purposes: "set_membership_purposes team ps v = Inr (x, v') \<Longrightarrow> relay_step v v'"
| remove_member: "remove_relay_membership team v = Inr (b, v') \<Longrightarrow> relay_step v v'"
| set_relay: "set_relay_device secs d v = Inr (x, v') \<Longrightarrow> relay_step v v'"
| set_account: "set_account_relay_device secs url team device public v = Inr (x, v') \<Longrightarrow> relay_step v v'"
| remove_account: "remove_account_memberships v = Inr (n, v') \<Longrightarrow> relay_step v v'"
| remove_relay: "remove_relay_device v = Inr (b, v') \<Longrightarrow> relay_step v v'"
| set_home: "set_item_home i h v = Inr (x, v') \<Longrightarrow> relay_step v v'"
| clear_home: "clear_item_home i v = Inr (b, v') \<Longrightarrow> relay_step v v'"
| handoff: "adopt_question_handoff secs vault_id h m answer replaces v = Inr (x, v') \<Longrightarrow> relay_step v v'"

text \<open>An action that changes the vault by these operations only, also when it fails.\<close>

definition steps_only :: "('e, 'a) action \<Rightarrow> bool" where
  "steps_only act \<longleftrightarrow> (\<forall>v. relay_step\<^sup>*\<^sup>* v (snd (act v)))"

named_theorems action_steps \<open>actions that are made of steps\<close>

lemma steps_tx: "(\<And>v x v'. f v = Inr (x, v') \<Longrightarrow> relay_step v v') \<Longrightarrow> steps_only (tx f)"
  by (fastforce simp: steps_only_def tx_def split: sum.splits)

lemma steps_reads [action_steps]: "steps_only (reads f)" "steps_only (return x)" "steps_only (fail e)"
  by (simp_all add: steps_only_def reads_def return_def fail_def)

lemma steps_seq [action_steps]:
  "steps_only m \<Longrightarrow> (\<And>x. steps_only (f x)) \<Longrightarrow> steps_only (seq m f)"
  unfolding steps_only_def seq_def
  by (fastforce split: prod.split sum.split intro: rtranclp_trans dest: spec)

lemma steps_on_vault [action_steps]: "steps_only act \<Longrightarrow> steps_only (on_vault act)"
  by (auto simp: steps_only_def on_vault_def split: prod.splits) (metis snd_conv)

lemma steps_if [action_steps]: "steps_only a \<Longrightarrow> steps_only b \<Longrightarrow> steps_only (if c then a else b)"
  by simp

lemma steps_option [action_steps]:
  "steps_only a \<Longrightarrow> (\<And>x. steps_only (f x)) \<Longrightarrow> steps_only (case opt of None \<Rightarrow> a | Some x \<Rightarrow> f x)"
  by (cases opt) simp_all

lemma steps_vault [action_steps]:
  "steps_only (tx (register_trusted_device secs ms u name kind sign answer))"
  "steps_only (tx (set_trusted_device_relay_id ms u team i))"
  "steps_only (tx (remove_trusted_device secs ms u))"
  "steps_only (tx (ensure_question_key ms random))"
  "steps_only (tx (rotate_question_key ms random))"
  "steps_only (tx (set_questions_team ms team))"
  "steps_only (tx (add_relay_membership secs m))"
  "steps_only (tx (set_membership_purposes team ps))"
  "steps_only (tx (remove_relay_membership team))"
  by (rule steps_tx, erule relay_step.intros)+

lemma steps_then:
  assumes "steps_only act" and "\<And>r v. relay_step\<^sup>*\<^sup>* v (snd (g r v))"
  shows "steps_only (\<lambda>v. case act v of (r, v') \<Rightarrow> g r v')"
  using assms unfolding steps_only_def
  by (fastforce split: prod.split intro: rtranclp_trans dest: spec)

lemma steps_unlocked [action_steps]: "steps_only unlocked"
  by (simp add: steps_only_def unlocked_def)

lemma steps_register [action_steps]: "steps_only (register_this_device clk random m name)"
  unfolding register_this_device_def Let_def by (intro action_steps)

lemma steps_linked [action_steps]:
  "steps_only (register_linked_device clk random team i name key)"
  unfolding register_linked_device_def Let_def
  by (cases "split_linked_device_name name"; cases "snd (split_linked_device_name name)")
    (auto split: LinkedDeviceKind.split intro!: action_steps)

lemma steps_keep [action_steps]:
  "steps_only (keep_questions_membership clk random key m name)"
proof -
  let ?rest = "on_vault (seq (tx (set_questions_team (snd (clk 4)) (ms_team m))) (\<lambda>_.
      seq (tx (ensure_question_key (snd (clk 2)) key)) (\<lambda>_. register_this_device clk random m name)))"
  have r: "steps_only ?rest" by (intro action_steps)
  have "relay_step\<^sup>*\<^sup>* v (snd (tx (remove_relay_membership (ms_team m)) v))" for v
    using steps_vault(9) unfolding steps_only_def by blast
  then have "steps_only (\<lambda>v. case ?rest v of (r, v') \<Rightarrow>
      (case r of Inr d \<Rightarrow> (Inr d, v') | Inl e \<Rightarrow> (Inl e, snd (tx (remove_relay_membership (ms_team m)) v'))))"
    by (intro steps_then [OF r]) (auto split: sum.split)
  moreover have "(\<lambda>v. case ?rest v of (r, v') \<Rightarrow>
      (case r of Inr d \<Rightarrow> (Inr d, v') | Inl e \<Rightarrow> (Inl e, snd (tx (remove_relay_membership (ms_team m)) v'))))
      = (\<lambda>v. case ?rest v of (Inr d, v') \<Rightarrow> (Inr d, v')
         | (Inl e, v') \<Rightarrow> (Inl e, snd (tx (remove_relay_membership (ms_team m)) v')))"
    by (rule ext) (simp split: prod.split sum.split)
  ultimately show ?thesis
    unfolding keep_questions_membership_def by (auto intro!: action_steps)
qed

lemma steps_disable [action_steps]: "steps_only disable_questions"
  unfolding disable_questions_def Let_def by (intro action_steps)

lemma steps_enable [action_steps]: "steps_only (enable_questions clk random key name)"
  unfolding enable_questions_def Let_def by (intro action_steps)

lemma steps_adopt [action_steps]: "steps_only (adopt_questions_team clk random key m name)"
  unfolding adopt_questions_team_def by (intro action_steps)

lemma steps_more [action_steps]:
  "steps_only (adopt_node_team clk random key m name)"
  "steps_only (join_questions_team clk random key m name)"
  "steps_only (create_questions_team parse generate post clk random key url code vault name)"
  "steps_only (remove_trusted_device_and_rotate secs ms rnd u)"
  unfolding adopt_node_team_def join_questions_team_def create_questions_team_def
    remove_trusted_device_and_rotate_def
  by (intro action_steps)+

lemma steps_move [action_steps]:
  "steps_only (move_questions_to_node clk random key node hosted name)"
proof -
  let ?keep = "keep_questions_membership clk random key node name"
  define undo where "undo h v = snd (tx (set_questions_team (snd (clk 6)) (ms_team h))
      (snd (tx (if questions_only h then add_relay_membership (fst (clk 5)) h
                else set_membership_purposes (ms_team h) (ms_purposes h)) v)))" for h v
  have b: "relay_step\<^sup>*\<^sup>* v (undo h v)" for h v
  proof -
    have "steps_only (tx (if questions_only h then add_relay_membership (fst (clk 5)) h
        else set_membership_purposes (ms_team h) (ms_purposes h)))"
      using steps_vault(7,8) by simp
    then show ?thesis
      using steps_vault(6) unfolding steps_only_def undo_def by (meson rtranclp_trans)
  qed
  have "steps_only (\<lambda>v. case ?keep v of (r, v') \<Rightarrow>
      (case r of Inr _ \<Rightarrow> (Inr h, v') | Inl e \<Rightarrow> (Inl e, undo h v')))" for h
    using b by (intro steps_then steps_keep) (auto split: sum.split)
  moreover have "(\<lambda>v. case ?keep v of (r, v') \<Rightarrow>
      (case r of Inr _ \<Rightarrow> (Inr h, v') | Inl e \<Rightarrow> (Inl e, undo h v')))
      = (\<lambda>v. case ?keep v of (Inr _, v') \<Rightarrow> (Inr h, v') | (Inl e, v') \<Rightarrow> (Inl e, undo h v'))" for h
    by (rule ext) (simp split: prod.split sum.split)
  ultimately show ?thesis
    unfolding move_questions_to_node_def Let_def undo_def [symmetric]
    by (auto intro!: action_steps split: option.split)
qed

section \<open>Invariants\<close>

locale relay_invariant =
  fixes I :: "relay_vault \<Rightarrow> bool"
  assumes kept: "relay_step v v' \<Longrightarrow> I v \<Longrightarrow> I v'"
begin

lemma reached: "relay_step\<^sup>*\<^sup>* v v' \<Longrightarrow> I v \<Longrightarrow> I v'"
  by (induction rule: rtranclp_induct) (auto intro: kept)

lemma after_action: "steps_only act \<Longrightarrow> I v \<Longrightarrow> I (snd (act v))"
  using reached unfolding steps_only_def by blast

end


subsection \<open>Keys of removed devices\<close>

definition has_key :: "string \<Rightarrow> raw_device \<Rightarrow> bool" where
  "has_key k r \<longleftrightarrow> rd_sign r = k \<or> rd_answer r = Some k"

definition live_with :: "relay_vault \<Rightarrow> string \<Rightarrow> string set" where
  "live_with v k = {rd_uuid r |r. r \<in> set (rl_devices v) \<and> live r \<and> has_key k r}"

definition kept_out :: "string \<Rightarrow> string set \<Rightarrow> relay_vault \<Rightarrow> bool" where
  "kept_out k S v \<longleftrightarrow> distinct (map rd_uuid (rl_devices v)) \<and> key_removed v k \<and> live_with v k \<subseteq> S"

lemma key_removed_iff: "key_removed v k \<longleftrightarrow> (\<exists>r\<in>set (rl_devices v). \<not> live r \<and> has_key k r)"
  by (auto simp: key_removed_def has_key_def list_ex_iff)

lemma kept_out_same_devices: "rl_devices v' = rl_devices v \<Longrightarrow> kept_out k S v' = kept_out k S v"
  by (simp add: kept_out_def key_removed_def live_with_def)

text \<open>An update of one row that keeps dead rows as they are and gives no live row the key.\<close>

lemma kept_out_update:
  assumes "kept_out k S v" and "\<And>r. rd_uuid (f r) = rd_uuid r"
    and "\<And>r. r \<in> set (rl_devices v) \<Longrightarrow> rd_uuid r = u \<Longrightarrow> \<not> live r \<Longrightarrow> \<not> live (f r) \<and> (has_key k r \<longrightarrow> has_key k (f r))"
    and "\<And>r. r \<in> set (rl_devices v) \<Longrightarrow> rd_uuid r = u \<Longrightarrow> live (f r) \<Longrightarrow> has_key k (f r) \<Longrightarrow> live r \<and> has_key k r"
  shows "kept_out k S (update_device u f v)"
proof -
  let ?g = "\<lambda>r. if rd_uuid r = u then f r else r"
  have m: "map rd_uuid (map ?g (rl_devices v)) = map rd_uuid (rl_devices v)" using assms(2) by simp
  obtain r where r: "r \<in> set (rl_devices v)" "\<not> live r" "has_key k r"
    using assms(1) unfolding kept_out_def key_removed_iff by blast
  then have "\<not> live (?g r)" "has_key k (?g r)" using assms(3) by simp_all
  moreover have "?g r \<in> set (rl_devices (update_device u f v))"
    using r(1) by (simp add: update_device_def)
  ultimately have "key_removed (update_device u f v) k" unfolding key_removed_iff by blast
  moreover have "live_with (update_device u f v) k \<subseteq> live_with v k"
    using assms(2,4) unfolding live_with_def update_device_def by (auto split: if_splits)
  ultimately show ?thesis
    using assms(1) m unfolding kept_out_def update_device_def by (auto simp del: map_map)
qed

lemma read_stored_Inr: "read_stored v u = Inr (d, v') \<Longrightarrow> v' = v"
  by (auto simp: read_stored_def and_then_eq_Inr)

lemma register_Inr:
  assumes "register_trusted_device secs ms u name kind sign answer v = Inr (d, v')"
  shows "\<not> key_removed v sign" "answer = Some a \<Longrightarrow> \<not> key_removed v a"
    "(\<exists>row. device_at v u = None \<and> v' = v\<lparr>rl_devices := rl_devices v @ [row]\<rparr> \<and> rd_uuid row = u
        \<and> live row \<and> rd_sign row = sign \<and> rd_answer row = answer)
     \<or> (\<exists>r n t b. device_at v u = Some r \<and> live r
        \<and> v' = update_device u (\<lambda>r. r\<lparr>rd_name := n, rd_kind := device_kind_str kind,
             rd_sign := sign, rd_answer := answer, rd_updated := t, rd_by := b\<rparr>) v)"
proof -
  from assms obtain n where n: "checked_name name = Inr n"
    and free: "\<not> key_removed v sign" "\<And>a. answer = Some a \<Longrightarrow> \<not> key_removed v a"
    and w: "(case device_at v u of
       Some r \<Rightarrow>
         if \<not> live r then Inl AlreadyExists
         else (let (at', by') = next_version v ms (Some (rd_updated r))
               in read_stored (update_device u (\<lambda>r. r\<lparr>rd_name := n,
                    rd_kind := device_kind_str kind, rd_sign := sign, rd_answer := answer,
                    rd_updated := at', rd_by := by'\<rparr>) v) u)
     | None \<Rightarrow>
         (let (at', by') = next_version v ms None
          in and_then (to_sql_time secs) (\<lambda>created.
             read_stored (v\<lparr>rl_devices := rl_devices v @
               [\<lparr>rd_uuid = u, rd_name = n, rd_kind = device_kind_str kind, rd_relay = Some [],
                 rd_sign = sign, rd_answer = answer, rd_created = created, rd_updated = at',
                 rd_by = by', rd_deleted = None\<rparr>]\<rparr>) u))) = Inr (d, v')"
    by (auto simp: register_trusted_device_def and_then_eq_Inr require_def split: if_splits option.splits)
  show "\<not> key_removed v sign" "answer = Some a \<Longrightarrow> \<not> key_removed v a" using free by simp_all
  show "(\<exists>row. device_at v u = None \<and> v' = v\<lparr>rl_devices := rl_devices v @ [row]\<rparr> \<and> rd_uuid row = u
        \<and> live row \<and> rd_sign row = sign \<and> rd_answer row = answer)
     \<or> (\<exists>r n t b. device_at v u = Some r \<and> live r
        \<and> v' = update_device u (\<lambda>r. r\<lparr>rd_name := n, rd_kind := device_kind_str kind,
             rd_sign := sign, rd_answer := answer, rd_updated := t, rd_by := b\<rparr>) v)"
  proof (cases "device_at v u")
    case None
    obtain t b where nv: "next_version v ms None = (t, b)" by fastforce
    from w None nv obtain c where "v' = v\<lparr>rl_devices := rl_devices v @
               [\<lparr>rd_uuid = u, rd_name = n, rd_kind = device_kind_str kind, rd_relay = Some [],
                 rd_sign = sign, rd_answer = answer, rd_created = c, rd_updated = t,
                 rd_by = b, rd_deleted = None\<rparr>]\<rparr>"
      by (auto simp: and_then_eq_Inr dest: read_stored_Inr)
    then show ?thesis using None by (auto simp: live_def)
  next
    case (Some r)
    obtain t b where nv: "next_version v ms (Some (rd_updated r)) = (t, b)" by fastforce
    from w Some nv have "live r" and "v' = update_device u (\<lambda>r. r\<lparr>rd_name := n,
      rd_kind := device_kind_str kind, rd_sign := sign, rd_answer := answer, rd_updated := t,
      rd_by := b\<rparr>) v"
      by (auto simp: split: if_splits dest: read_stored_Inr)
    then show ?thesis using Some by blast
  qed
qed

lemma kept_out_insert:
  assumes "kept_out k S v" "device_at v (rd_uuid row) = None" "live row" "\<not> has_key k row"
  shows "kept_out k S (v\<lparr>rl_devices := rl_devices v @ [row]\<rparr>)"
  using assms unfolding kept_out_def key_removed_iff live_with_def
  by (auto simp: device_at_def find_row_None)

lemma kept_out_rekey:
  assumes "kept_out k S v" "device_at v u = Some r" "live r"
    and "\<And>r. rd_uuid (f r) = rd_uuid r" "\<And>r. \<not> has_key k (f r)"
  shows "kept_out k S (update_device u f v)"
proof -
  have "q = r" if "q \<in> set (rl_devices v)" "rd_uuid q = u" for q
    using that find_row_Some [of rd_uuid "rl_devices v" u r] assms(1,2)
    by (auto simp: device_at_def kept_out_def distinct_map inj_on_def)
  with assms show ?thesis
    by (intro kept_out_update) auto
qed

lemma kept_out_register:
  assumes "kept_out k S v" and "register_trusted_device secs ms u name kind sign answer v = Inr (d, v')"
  shows "kept_out k S v'"
proof -
  have k: "sign \<noteq> k" "answer \<noteq> Some k"
    using register_Inr(1,2) [OF assms(2)] assms(1) by (auto simp: kept_out_def)
  from register_Inr(3) [OF assms(2)] show ?thesis
    using assms(1) k by (auto simp: has_key_def intro!: kept_out_insert kept_out_rekey)
qed

lemma kept_out_adopt_device:
  assumes "kept_out k S v" and "adopt_device h d v = Inr v'"
  shows "kept_out k S v'"
proof -
  have free: "td_sign d \<noteq> k" "td_answer d \<noteq> Some k"
    using assms by (auto simp: adopt_device_def and_then_eq_Inr require_def handoff_device_ok_def
      kept_out_def split: if_splits option.splits)
  show ?thesis
    using assms free
    by (auto simp: adopt_device_def and_then_eq_Inr has_key_def live_def
      split: option.splits if_splits intro!: kept_out_insert kept_out_rekey)
qed

lemma kept_out_adopt_devices:
  "adopt_devices h ds v = Inr v' \<Longrightarrow> kept_out k S v \<Longrightarrow> kept_out k S v'"
  by (induction ds arbitrary: v) (auto simp: and_then_eq_Inr dest: kept_out_adopt_device)

lemma replace_membership_Inr:
  assumes "replace_membership m replaces v = Inr w"
  shows "w = v \<or> w = delete_member (ms_team m) v"
proof (cases replaces)
  case (Some team)
  obtain u and ms :: "membership list" where "require InvalidInput (team = ms_team m) = Inr u" "(case ms of [] \<Rightarrow> Inl InvalidInput
      | old # _ \<Rightarrow> and_then (require InvalidInput
          (ms_purposes old = ms_purposes m \<and> key_removed v (ms_public old)))
          (\<lambda>_. Inr (delete_member team v))) = Inr w"
    using assms [unfolded replace_membership_def Some option.case and_then_eq_Inr] by blast
  then show ?thesis
    by (cases ms) (auto simp: and_then_eq_Inr require_def split: if_splits)
qed (use assms in \<open>simp add: replace_membership_def\<close>)

text \<open>The rest of a handoff writes no device row, and its devices no membership.\<close>

lemma handoff_parts:
  assumes "adopt_question_handoff secs vault_id h m answer replaces v = Inr (x, v')"
  obtains v1 v2 :: relay_vault and row where "adopt_devices h (hf_devices h) v = Inr v1"
    "rl_devices v' = rl_devices v1" "rl_members v2 = rl_members v1 \<or> rl_members v2
       = filter (\<lambda>r. mb_team r \<noteq> ms_team m) (rl_members v1)"
    "rl_members v' = rl_members v2 @ [row]" "mb_purposes row = Some [''questions'']"
    "mb_team row \<notin> set (map mb_team (rl_members v2))"
proof -
  from assms obtain v1 v2 v3 where v: "adopt_devices h (hf_devices h) v = Inr v1"
    "adopt_question_key h v1 = Inr v2" "replace_membership m replaces v2 = Inr v3"
    "insert_membership secs m v3 = Inr v'"
    by (auto simp: adopt_question_handoff_def and_then_eq_Inr)
  from v(2) have q: "rl_devices v2 = rl_devices v1" "rl_members v2 = rl_members v1"
    by (auto simp: adopt_question_key_def split: option.splits if_splits)
  from v(3) have r: "rl_devices v3 = rl_devices v2"
    "rl_members v3 = rl_members v2 \<or> rl_members v3 = filter (\<lambda>r. mb_team r \<noteq> ms_team m) (rl_members v2)"
    using replace_membership_Inr [OF v(3)] by (auto simp: delete_member_def)
  from v(4) obtain row where "rl_devices v' = rl_devices v3" "rl_members v' = rl_members v3 @ [row]"
    "mb_purposes row = Some [''questions'']" "mb_team row \<notin> set (map mb_team (rl_members v3))"
    by (fastforce simp: insert_membership_def and_then_eq_Inr require_def list_ex_iff split: if_splits)
  with v(1) q r show ?thesis
    by (intro that [of v1 v3 row]) simp_all
qed

lemma kept_out_handoff:
  assumes "kept_out k S v" "adopt_question_handoff secs vault_id h m answer replaces v = Inr (x, v')"
  shows "kept_out k S v'"
  using assms(2)
  by (rule handoff_parts) (use assms(1) kept_out_adopt_devices kept_out_same_devices in blast)

lemma kept_out_change:
  assumes "kept_out k S v" and "change_relay_devices ms u change v = Inr (b, v')"
  shows "kept_out k S v'"
proof -
  have "v' = v \<or> (\<exists>al t b. v' = update_device u (\<lambda>r. r\<lparr>rd_relay := Some al, rd_updated := t, rd_by := b\<rparr>) v)"
    using assms(2) by (auto simp: change_relay_devices_def and_then_eq_Inr split: if_splits prod.splits)
  then show ?thesis
    using assms(1) by (auto simp: has_key_def live_def intro!: kept_out_update)
qed

lemma kept_out_remove:
  assumes "kept_out k S v" and "remove_trusted_device secs ms u v = Inr (b, v')"
  shows "kept_out k S v'"
proof -
  have "v' = v \<or> (\<exists>e t b. v' = update_device u (\<lambda>r. r\<lparr>rd_deleted := Some e, rd_updated := t, rd_by := b\<rparr>) v)"
    using assms(2)
    by (auto simp: remove_trusted_device_def and_then_eq_Inr split: option.splits prod.splits)
  then show ?thesis
    using assms(1) by (auto simp: has_key_def live_def intro!: kept_out_update)
qed

lemma drop_sync_devices [simp]: "rl_devices (drop_sync m v) = rl_devices v"
  by (simp add: drop_sync_def Let_def delete_member_def update_member_def)

lemma store_sync_devices:
  "store_sync_identity secs url team device public key v = Inr (x, v') \<Longrightarrow> rl_devices v' = rl_devices v"
  by (auto simp: store_sync_identity_def write_sync_identity_def leave_other_sync_def and_then_eq_Inr
      split: option.splits)

lemma same_devices:
  "ensure_question_key ms random v = Inr (key, v') \<Longrightarrow> rl_devices v' = rl_devices v"
  "rotate_question_key ms random v = Inr (key, v') \<Longrightarrow> rl_devices v' = rl_devices v"
  "set_questions_team ms team v = Inr (x, v') \<Longrightarrow> rl_devices v' = rl_devices v"
  "add_relay_membership secs m v = Inr (x, v') \<Longrightarrow> rl_devices v' = rl_devices v"
  "set_membership_trust team pin alt v = Inr (x, v') \<Longrightarrow> rl_devices v' = rl_devices v"
  "set_membership_purposes team ps v = Inr (x, v') \<Longrightarrow> rl_devices v' = rl_devices v"
  "remove_relay_membership team v = Inr (b, v') \<Longrightarrow> rl_devices v' = rl_devices v"
  "remove_account_memberships v = Inr (n, v') \<Longrightarrow> rl_devices v' = rl_devices v"
  "remove_relay_device v = Inr (b, v') \<Longrightarrow> rl_devices v' = rl_devices v"
  "set_item_home i h v = Inr (x, v') \<Longrightarrow> rl_devices v' = rl_devices v"
  "clear_item_home i v = Inr (b, v') \<Longrightarrow> rl_devices v' = rl_devices v"
  by (auto simp: ensure_question_key_def rotate_question_key_def set_questions_team_def
      add_relay_membership_def set_membership_trust_def set_membership_purposes_def
      remove_relay_membership_def remove_account_memberships_def remove_relay_device_def
      set_item_home_def clear_item_home_def and_then_eq_Inr write_secret_def update_member_def
      delete_member_def Let_def split: option.splits prod.splits if_splits)

lemma identity_devices:
  "set_relay_device secs d v = Inr (x, v') \<Longrightarrow> rl_devices v' = rl_devices v"
  "set_account_relay_device secs url team device public v = Inr (x, v') \<Longrightarrow> rl_devices v' = rl_devices v"
  unfolding set_relay_device_def set_account_relay_device_def and_then_eq_Inr
  by (blast dest: store_sync_devices)+

lemma kept_out_ids:
  assumes "kept_out k S v"
  shows "set_trusted_device_relay_id ms u team i v = Inr (x, v') \<Longrightarrow> kept_out k S v'"
    "clear_trusted_device_relay_id ms u team v = Inr (b, v') \<Longrightarrow> kept_out k S v'"
  using kept_out_change [OF assms]
  by (auto simp: set_trusted_device_relay_id_def clear_trusted_device_relay_id_def and_then_eq_Inr)

lemma kept_out_step: "relay_step v v' \<Longrightarrow> kept_out k S v \<Longrightarrow> kept_out k S v'"
proof (induction rule: relay_step.induct)
  case (lock v b)
  then show ?case using kept_out_same_devices [of "v\<lparr>rl_open := b\<rparr>" v] by simp
qed (blast dest: same_devices identity_devices kept_out_same_devices kept_out_register kept_out_remove
    kept_out_ids kept_out_handoff)+

interpretation removed_key: relay_invariant "kept_out k S" for k S
  by unfold_locales (rule kept_out_step)


subsection \<open>One membership for relay sync\<close>

definition syncs :: "member_row \<Rightarrow> bool" where
  "syncs r \<longleftrightarrow> (case mb_purposes r of None \<Rightarrow> False | Some names \<Rightarrow> ''sync'' \<in> set names)"

definition one_sync :: "relay_vault \<Rightarrow> bool" where
  "one_sync v \<longleftrightarrow> distinct (map mb_team (rl_members v))
     \<and> (\<exists>team. \<forall>r\<in>set (rl_members v). syncs r \<longrightarrow> mb_team r = team)"

lemma one_syncI:
  assumes "distinct (map mb_team (rl_members v))"
    and "\<And>r q. r \<in> set (rl_members v) \<Longrightarrow> q \<in> set (rl_members v) \<Longrightarrow> syncs r \<Longrightarrow> syncs q
      \<Longrightarrow> mb_team r = mb_team q"
  shows "one_sync v"
proof (cases "\<exists>q\<in>set (rl_members v). syncs q")
  case True
  then obtain q where "q \<in> set (rl_members v)" "syncs q" by blast
  then show ?thesis using assms unfolding one_sync_def by blast
next
  case False
  then show ?thesis using assms(1) unfolding one_sync_def by blast
qed

lemma one_syncD:
  assumes "one_sync v"
  shows "distinct (map mb_team (rl_members v))"
    "r \<in> set (rl_members v) \<Longrightarrow> q \<in> set (rl_members v) \<Longrightarrow> syncs r \<Longrightarrow> syncs q \<Longrightarrow> mb_team r = mb_team q"
  using assms unfolding one_sync_def by auto

lemma one_sync_same_members: "rl_members v' = rl_members v \<Longrightarrow> one_sync v \<Longrightarrow> one_sync v'"
  by (simp add: one_sync_def)

lemma find_exists: "x \<in> set xs \<Longrightarrow> p x \<Longrightarrow> \<exists>y. List.find p xs = Some y \<and> y \<in> set xs \<and> p y"
  by (induction xs) auto

lemma collect_Inr: "collect f xs = Inr ys \<longleftrightarrow> list_all2 (\<lambda>x y. f x = Inr y) xs ys"
proof (induction xs arbitrary: ys)
  case (Cons x xs)
  then show ?case by (cases ys) (auto simp: and_then_eq_Inr)
qed auto

lemma all2_sets:
  assumes "list_all2 p xs ys"
  shows "y \<in> set ys \<Longrightarrow> \<exists>x\<in>set xs. p x y" "x \<in> set xs \<Longrightarrow> \<exists>y\<in>set ys. p x y"
  using assms by (induction rule: list_all2_induct) auto

lemma purpose_parse_sync: "purpose_parse t = Some PurposeSync \<longleftrightarrow> t = ''sync''"
  by (simp add: purpose_parse_def)

lemma parse_purposes_sync:
  assumes "parse_purposes x = Inr ps"
  shows "PurposeSync \<in> ps \<longleftrightarrow> (case x of None \<Rightarrow> False | Some names \<Rightarrow> ''sync'' \<in> set names)"
proof -
  obtain names where x: "x = Some names" and ps: "ps = set (List.map_filter purpose_parse names)"
    using assms by (cases x) (auto simp: parse_purposes_def ok_or_def)
  have "PurposeSync \<in> ps \<longleftrightarrow> (\<exists>t\<in>set names. purpose_parse t = Some PurposeSync)"
    unfolding ps by (induction names) (auto simp: map_filter_simps split: option.splits)
  then show ?thesis by (simp add: x purpose_parse_sync)
qed

lemma purposes_json_sync: "''sync'' \<in> set (purposes_json ps) \<longleftrightarrow> PurposeSync \<in> ps"
  by (auto simp: purposes_json_def)

lemma load_row_Inr:
  "load_row r = Inr m \<Longrightarrow> ms_team m = mb_team r \<and> (PurposeSync \<in> ms_purposes m \<longleftrightarrow> syncs r)"
  by (auto simp: load_row_def and_then_eq_Inr Let_def syncs_def dest!: parse_purposes_sync)

lemma load_memberships_Inr:
  assumes "load_memberships v team = Inr ms"
  shows "m \<in> set ms \<Longrightarrow> \<exists>r\<in>set (rl_members v). (team = None \<or> team = Some (mb_team r)) \<and> load_row r = Inr m"
    "r \<in> set (rl_members v) \<Longrightarrow> team = None \<or> team = Some (mb_team r) \<Longrightarrow> \<exists>m\<in>set ms. load_row r = Inr m"
  using all2_sets [OF assms [unfolded load_memberships_def collect_Inr]] by auto


text \<open>The write of one row: the teams stay distinct, and a row that gets the purpose of sync
  is the only one.\<close>

lemma one_sync_subset:
  assumes "one_sync v" and "rl_members v' = filter p (rl_members v)"
  shows "one_sync v'"
  using assms(1) unfolding one_sync_def assms(2) by (auto simp: distinct_map_filter)

lemma one_sync_update:
  assumes "one_sync v" and "\<And>r. mb_team (f r) = mb_team r"
    and "\<And>r q. r \<in> set (rl_members v) \<Longrightarrow> mb_team r = team \<Longrightarrow> syncs (f r)
        \<Longrightarrow> q \<in> set (rl_members v) \<Longrightarrow> syncs q \<Longrightarrow> mb_team q = team"
  shows "one_sync (update_member team f v)"
proof (rule one_syncI)
  let ?g = "\<lambda>r. if mb_team r = team then f r else r"
  have m: "rl_members (update_member team f v) = map ?g (rl_members v)" by (simp add: update_member_def)
  have t: "mb_team (?g r) = mb_team r" for r using assms(2) by simp
  then have "map mb_team (map ?g (rl_members v)) = map mb_team (rl_members v)" by simp
  then show "distinct (map mb_team (rl_members (update_member team f v)))"
    using one_syncD(1) [OF assms(1)] unfolding m by (simp only:)
  fix r' q'
  assume "r' \<in> set (rl_members (update_member team f v))" "q' \<in> set (rl_members (update_member team f v))"
  then obtain r q where rq: "r \<in> set (rl_members v)" "q \<in> set (rl_members v)" "r' = ?g r" "q' = ?g q"
    unfolding m by auto
  assume s: "syncs r'" "syncs q'"
  show "mb_team r' = mb_team q'"
  proof (cases "mb_team r = team"; cases "mb_team q = team")
    assume "mb_team r = team" "mb_team q \<noteq> team"
    then show ?thesis using assms(3) [of r q] rq s by simp
  next
    assume "mb_team r \<noteq> team" "mb_team q = team"
    then show ?thesis using assms(3) [of q r] rq s by simp
  next
    assume "mb_team r \<noteq> team" "mb_team q \<noteq> team"
    then show ?thesis using one_syncD(2) [OF assms(1), of r q] rq s by simp
  qed (simp add: rq(3,4) assms(2))
qed

lemma other_sync_team_None:
  assumes "other_sync_team v team = Inr None" and "q \<in> set (rl_members v)" and "syncs q"
  shows "mb_team q = team"
proof -
  obtain ms where ms: "load_memberships v None = Inr ms"
    and none: "List.find (\<lambda>m. ms_team m \<noteq> team \<and> PurposeSync \<in> ms_purposes m) ms = None"
    using assms(1) by (auto simp: other_sync_team_def and_then_eq_Inr)
  obtain m where "m \<in> set ms" "load_row q = Inr m"
    using load_memberships_Inr(2) [OF ms assms(2)] by blast
  then show ?thesis using load_row_Inr [of q m] none assms(3) by (auto simp: find_None_iff)
qed

lemma one_sync_add:
  assumes "one_sync v" and "add_relay_membership secs m v = Inr (x, v')"
  shows "one_sync v'"
proof -
  obtain same where same: "load_memberships v (Some (ms_team m)) = Inr same"
    and free: "same = []" "PurposeSync \<in> ms_purposes m \<Longrightarrow> other_sync_team v (ms_team m) = Inr None"
    and v': "\<exists>r. mb_team r = ms_team m \<and> mb_purposes r = Some (purposes_json (ms_purposes m))
        \<and> rl_members v' = rl_members v @ [r]"
    using assms(2)
    by (auto simp: add_relay_membership_def and_then_eq_Inr require_def split: if_splits)
  obtain r where r: "mb_team r = ms_team m" "mb_purposes r = Some (purposes_json (ms_purposes m))"
    "rl_members v' = rl_members v @ [r]" using v' by blast
  have new: "ms_team m \<notin> set (map mb_team (rl_members v))"
    using load_memberships_Inr(2) [OF same] free(1) by auto
  have "mb_team q = ms_team m" if "syncs r" "q \<in> set (rl_members v)" "syncs q" for q
    using other_sync_team_None [OF free(2) that(2,3)] that(1) by (simp add: syncs_def r(2) purposes_json_sync)
  then have only: "mb_team a = mb_team b"
    if "a \<in> insert r (set (rl_members v))" "b \<in> insert r (set (rl_members v))" "syncs a" "syncs b" for a b
    using that r(1) one_syncD(2) [OF assms(1), of a b] by (metis insertE)
  show ?thesis
  proof (rule one_syncI)
    show "distinct (map mb_team (rl_members v'))"
      using new one_syncD(1) [OF assms(1)] by (simp add: r(1,3))
    have s: "set (rl_members v') = insert r (set (rl_members v))" unfolding r(3) by simp
    show "mb_team a = mb_team b"
      if "a \<in> set (rl_members v')" "b \<in> set (rl_members v')" "syncs a" "syncs b" for a b
      using that unfolding s by (rule only)
  qed
qed

lemma one_sync_purposes:
  assumes "one_sync v" and "set_membership_purposes team ps v = Inr (x, v')"
  shows "one_sync v'"
proof -
  have o: "PurposeSync \<in> ps \<Longrightarrow> other_sync_team v team = Inr None"
    and v': "v' = update_member team (\<lambda>r. r\<lparr>mb_purposes := Some (purposes_json ps)\<rparr>) v"
    using assms(2) by (auto simp: set_membership_purposes_def and_then_eq_Inr require_def split: if_splits)
  show ?thesis
    unfolding v' using assms(1) o
    by (intro one_sync_update) (auto simp: syncs_def purposes_json_sync dest: other_sync_team_None)
qed

lemma sync_membership_Inr:
  assumes "sync_membership v = Inr old" and "one_sync v" and "q \<in> set (rl_members v)" and "syncs q"
  shows "\<exists>m. old = Some m \<and> ms_team m = mb_team q"
proof -
  obtain ms where ms: "load_memberships v None = Inr ms"
    and old: "old = List.find (\<lambda>m. PurposeSync \<in> ms_purposes m) ms"
    using assms(1) by (auto simp: sync_membership_def and_then_eq_Inr)
  obtain m where m: "m \<in> set ms" "load_row q = Inr m"
    using load_memberships_Inr(2) [OF ms assms(3)] by blast
  then have "PurposeSync \<in> ms_purposes m" using load_row_Inr assms(4) by blast
  then obtain m' where m': "old = Some m'" "m' \<in> set ms" "PurposeSync \<in> ms_purposes m'"
    using find_exists [of m ms "\<lambda>m. PurposeSync \<in> ms_purposes m"] m(1) old by auto
  then obtain r where "r \<in> set (rl_members v)" "load_row r = Inr m'"
    using load_memberships_Inr(1) [OF ms] by blast
  then show ?thesis
    using load_row_Inr [of r m'] m' one_syncD(2) [OF assms(2) _ assms(3) _ assms(4)] by auto
qed

lemma one_sync_drop: "one_sync v \<Longrightarrow> one_sync (drop_sync m v)"
  by (auto simp: drop_sync_def Let_def delete_member_def syncs_def purposes_json_sync
      intro!: one_sync_update intro: one_sync_subset)

lemma drop_sync_none:
  assumes "sync_membership v = Inr (Some m)" and "one_sync v" and "q \<in> set (rl_members (drop_sync m v))"
  shows "\<not> syncs q"
proof
  assume q: "syncs q"
  have "q \<in> set (rl_members v) \<and> mb_team q \<noteq> ms_team m"
  proof (cases "ms_purposes m - {PurposeSync} = {}")
    case True
    then show ?thesis using assms(3) by (simp add: drop_sync_def Let_def delete_member_def)
  next
    case False
    let ?f = "\<lambda>r. r\<lparr>mb_purposes := Some (purposes_json (ms_purposes m - {PurposeSync}))\<rparr>"
    have "rl_members (drop_sync m v) = map (\<lambda>r. if mb_team r = ms_team m then ?f r else r) (rl_members v)"
      using False unfolding drop_sync_def Let_def update_member_def by (simp only: if_False) simp
    then obtain r where r: "r \<in> set (rl_members v)" "q = (if mb_team r = ms_team m then ?f r else r)"
      using assms(3) by auto
    have "\<not> syncs (?f r)" by (simp add: syncs_def purposes_json_sync)
    then have "mb_team r \<noteq> ms_team m" using r(2) q by auto
    then show ?thesis using r by simp
  qed
  then show False using sync_membership_Inr [OF assms(1,2) _ q] by auto
qed

lemma one_sync_store:
  assumes "one_sync v" and "store_sync_identity secs url team device public key v = Inr (x, v')"
  shows "one_sync v'"
proof -
  obtain old now where old: "sync_membership v = Inr old"
    and w: "write_sync_identity now url team device public key (leave_other_sync team old v) = Inr (x, v')"
    using assms(2) unfolding store_sync_identity_def and_then_eq_Inr by blast
  let ?w = "leave_other_sync team old v"
  obtain ps where v': "v' = ?w\<lparr>rl_members := upsert_row mb_team (rl_members ?w) team
      (sync_row now url team device public key ps)\<rparr>"
    using w by (auto simp: write_sync_identity_def and_then_eq_Inr Let_def)
  define f where "f = sync_row now url team device public key ps"
  have f: "keeps_key mb_team team f" "rl_members v' = upsert_row mb_team (rl_members ?w) team f"
    by (simp_all add: f_def keeps_key_def sync_row_def v')
  have one: "one_sync ?w"
    using assms(1) one_sync_drop by (auto simp: leave_other_sync_def split: option.split)
  have only: "mb_team q = team" if "q \<in> set (rl_members ?w)" "syncs q" for q
    using that old assms(1) drop_sync_none sync_membership_Inr
    by (fastforce simp: leave_other_sync_def split: option.splits if_splits)
  have "mb_team q = team" if "q \<in> set (rl_members v')" "syncs q" for q
  proof -
    have "q = f (find_row mb_team (rl_members ?w) team) \<or> q \<in> set (rl_members ?w)"
      using that(1) set_upsert_row unfolding f(2) by fastforce
    moreover have "mb_team (f r) = team" for r by (simp add: f_def sync_row_def)
    ultimately show ?thesis using only that(2) by blast
  qed
  moreover have "distinct (map mb_team (rl_members v'))"
    using one_syncD(1) [OF one] map_key_upsert_row [OF f(1), of "rl_members ?w"]
    unfolding f(2) by (auto simp: find_row_None)
  ultimately show ?thesis by (intro one_syncI) auto
qed

lemma register_members:
  "register_trusted_device secs ms u name kind sign answer v = Inr (d, v') \<Longrightarrow> rl_members v' = rl_members v"
  by (drule register_Inr(3)) (auto simp: update_device_def)

lemma same_members:
  "set_trusted_device_relay_id ms u team i v = Inr (x, v') \<Longrightarrow> rl_members v' = rl_members v"
  "clear_trusted_device_relay_id ms u team v = Inr (b, v') \<Longrightarrow> rl_members v' = rl_members v"
  "remove_trusted_device secs ms u v = Inr (b, v') \<Longrightarrow> rl_members v' = rl_members v"
  "ensure_question_key ms random v = Inr (key, v') \<Longrightarrow> rl_members v' = rl_members v"
  "rotate_question_key ms random v = Inr (key, v') \<Longrightarrow> rl_members v' = rl_members v"
  "set_questions_team ms team v = Inr (x, v') \<Longrightarrow> rl_members v' = rl_members v"
  "set_item_home i h v = Inr (x, v') \<Longrightarrow> rl_members v' = rl_members v"
  "clear_item_home i v = Inr (b, v') \<Longrightarrow> rl_members v' = rl_members v"
  by (auto simp: set_trusted_device_relay_id_def clear_trusted_device_relay_id_def change_relay_devices_def remove_trusted_device_def
      ensure_question_key_def rotate_question_key_def set_questions_team_def set_item_home_def
      clear_item_home_def and_then_eq_Inr write_secret_def update_device_def read_stored_def
      split: option.splits prod.splits if_splits)

lemma one_sync_identity:
  assumes "one_sync v"
  shows "set_relay_device secs d v = Inr (x, v') \<Longrightarrow> one_sync v'"
    "set_account_relay_device secs url team device public v = Inr (x, v') \<Longrightarrow> one_sync v'"
  using one_sync_store [OF assms]
  unfolding set_relay_device_def set_account_relay_device_def and_then_eq_Inr by blast+

lemma one_sync_removals:
  assumes "one_sync v"
  shows "remove_relay_membership team v = Inr (b, v') \<Longrightarrow> one_sync v'"
    "remove_account_memberships v = Inr (n, v') \<Longrightarrow> one_sync v'"
    "remove_relay_device v = Inr (b, v') \<Longrightarrow> one_sync v'"
    "set_membership_trust team pin alt v = Inr (x, v') \<Longrightarrow> one_sync v'"
  using assms one_sync_drop
  by (auto simp: remove_relay_membership_def remove_account_memberships_def remove_relay_device_def
      set_membership_trust_def and_then_eq_Inr delete_member_def syncs_def
      intro: one_sync_subset intro!: one_sync_update dest: one_syncD(2) split: option.splits)

lemma adopt_devices_members: "adopt_devices h ds v = Inr v' \<Longrightarrow> rl_members v' = rl_members v"
proof (induction ds arbitrary: v)
  case (Cons d ds)
  have "rl_members w = rl_members v" if "adopt_device h d v = Inr w" for w
    using that by (auto simp: adopt_device_def and_then_eq_Inr update_device_def
      split: option.splits if_splits)
  with Cons show ?case
    by (fastforce simp: and_then_eq_Inr)
qed simp

lemma one_sync_handoff:
  assumes "one_sync v" "adopt_question_handoff secs vault_id h m answer replaces v = Inr (x, v')"
  shows "one_sync v'"
  using assms(2)
proof (rule handoff_parts)
  fix v1 v2 :: relay_vault and row
  assume v: "adopt_devices h (hf_devices h) v = Inr v1"
    "rl_members v2 = rl_members v1 \<or> rl_members v2 = filter (\<lambda>r. mb_team r \<noteq> ms_team m) (rl_members v1)"
    "rl_members v' = rl_members v2 @ [row]" "mb_purposes row = Some [''questions'']"
    "mb_team row \<notin> set (map mb_team (rl_members v2))"
  have "one_sync v1"
    using assms(1) adopt_devices_members [OF v(1)] one_sync_same_members by blast
  then have two: "one_sync v2"
    using v(2) one_sync_same_members one_sync_subset by blast
  have "\<not> syncs row"
    by (simp add: syncs_def v(4))
  with two v(3,5) show "one_sync v'"
    by (intro one_syncI) (auto dest: one_syncD)
qed

lemma one_sync_step: "relay_step v v' \<Longrightarrow> one_sync v \<Longrightarrow> one_sync v'"
proof (induction rule: relay_step.induct)
  case (lock v b)
  then show ?case using one_sync_same_members [of "v\<lparr>rl_open := b\<rparr>" v] by simp
qed (blast dest: register_members same_members one_sync_same_members one_sync_identity one_sync_removals one_sync_add
    one_sync_purposes one_sync_handoff)+

interpretation single_sync: relay_invariant one_sync
  by unfold_locales (rule one_sync_step)


section \<open>Every operation of the questions\<close>

inductive questions_step :: "relay_vault \<Rightarrow> relay_vault \<Rightarrow> bool" where
  vault: "relay_step v v' \<Longrightarrow> questions_step v v'"
| enable: "enable_questions clk random key name v = (r, v') \<Longrightarrow> questions_step v v'"
| disable: "disable_questions v = (r, v') \<Longrightarrow> questions_step v v'"
| adopt: "adopt_questions_team clk random key m name v = (r, v') \<Longrightarrow> questions_step v v'"
| node: "adopt_node_team clk random key m name v = (r, v') \<Longrightarrow> questions_step v v'"
| join: "join_questions_team clk random key m name v = (r, v') \<Longrightarrow> questions_step v v'"
| create: "create_questions_team parse generate post clk random key url code vault name v = (r, v')
    \<Longrightarrow> questions_step v v'"
| move: "move_questions_to_node clk random key node hosted name v = (r, v') \<Longrightarrow> questions_step v v'"
| linked: "register_linked_device clk random team i name sign v = (r, v') \<Longrightarrow> questions_step v v'"
| rotate: "remove_trusted_device_and_rotate secs ms rnd u v = (r, v') \<Longrightarrow> questions_step v v'"

lemma steps_of_action: "steps_only act \<Longrightarrow> act v = (r, v') \<Longrightarrow> relay_step\<^sup>*\<^sup>* v v'"
  unfolding steps_only_def by (metis snd_conv)

lemma questions_step_steps: "questions_step v v' \<Longrightarrow> relay_step\<^sup>*\<^sup>* v v'"
proof (induction rule: questions_step.induct)
  case (vault v v')
  then show ?case by (rule r_into_rtranclp)
qed (rule steps_of_action [rotated], assumption, rule action_steps)+

lemma questions_steps: "questions_step\<^sup>*\<^sup>* v v' \<Longrightarrow> relay_step\<^sup>*\<^sup>* v v'"
  by (induction rule: rtranclp_induct) (auto intro: rtranclp_trans dest: questions_step_steps)

subsection \<open>The merge with another copy\<close>

text \<open>What a copy of the vault may say about a key that is removed here: it gives the key to no
  live row other than those that have it here and those that are removed here, and a row that is
  removed here with the key has the key there too.\<close>

definition copy_respects :: "string \<Rightarrow> string set \<Rightarrow> relay_vault \<Rightarrow> relay_vault \<Rightarrow> bool" where
  "copy_respects k S v other \<longleftrightarrow>
     (\<forall>t\<in>set (rl_devices other). live t \<longrightarrow> has_key k t \<longrightarrow>
        rd_uuid t \<in> S \<or> (\<exists>r\<in>set (rl_devices v). rd_uuid r = rd_uuid t \<and> \<not> live r))
     \<and> (\<forall>t\<in>set (rl_devices other). \<forall>r\<in>set (rl_devices v).
          rd_uuid r = rd_uuid t \<longrightarrow> \<not> live r \<longrightarrow> has_key k r \<longrightarrow> has_key k t)"

text \<open>During the merge: the rows of the removed devices D stay, removed, those of K with the key.\<close>

definition merging :: "string \<Rightarrow> string set \<Rightarrow> string set \<Rightarrow> string set \<Rightarrow> raw_device list \<Rightarrow> bool" where
  "merging k S D K rows \<longleftrightarrow> distinct (map rd_uuid rows) \<and> K \<subseteq> D \<and> D \<subseteq> rd_uuid ` set rows
     \<and> (\<forall>r\<in>set rows. rd_uuid r \<in> D \<longrightarrow> \<not> live r) \<and> (\<forall>r\<in>set rows. rd_uuid r \<in> K \<longrightarrow> has_key k r)
     \<and> (\<forall>r\<in>set rows. live r \<longrightarrow> has_key k r \<longrightarrow> rd_uuid r \<in> S)"

lemma merging_take:
  assumes "merging k S D K rows" "find_row rd_uuid rows (rd_uuid t) = Some r" "takes_device t r"
    and "live t \<Longrightarrow> has_key k t \<Longrightarrow> rd_uuid t \<in> S \<union> D" "rd_uuid t \<in> K \<Longrightarrow> has_key k t"
  shows "merging k S D K (upsert_row rd_uuid rows (rd_uuid t) (\<lambda>_. t))"
proof -
  let ?new = "upsert_row rd_uuid rows (rd_uuid t) (\<lambda>_. t)"
  have names: "map rd_uuid ?new = map rd_uuid rows"
    using map_key_upsert_row [of rd_uuid "rd_uuid t" "\<lambda>_. t" rows] assms(2)
    by (simp add: keeps_key_def)
  then have image: "rd_uuid ` set ?new = rd_uuid ` set rows"
    by (metis list.set_map)
  have rows: "q \<in> set ?new \<Longrightarrow> q = t \<or> q \<in> set rows" for q
    using set_upsert_row [of rd_uuid rows "rd_uuid t" "\<lambda>_. t"] by blast
  have "\<not> live t" if "rd_uuid t \<in> D"
    using find_row_Some [OF assms(2)] assms(1,3) that by (auto simp: merging_def takes_device_def)
  then show ?thesis
    using assms(1,4,5) rows names image unfolding merging_def by (metis Un_iff)
qed

lemma merging_merge:
  "merging k S D K rows \<Longrightarrow> (\<And>t. t \<in> set ts \<Longrightarrow> live t \<Longrightarrow> has_key k t \<Longrightarrow> rd_uuid t \<in> S \<union> D)
    \<Longrightarrow> (\<And>t. t \<in> set ts \<Longrightarrow> rd_uuid t \<in> K \<Longrightarrow> has_key k t) \<Longrightarrow> merging k S D K (merge_devices ts rows)"
proof (induction ts arbitrary: rows)
  case (Cons t ts)
  show ?case
  proof (cases "find_row rd_uuid rows (rd_uuid t)")
    case None
    then have "rd_uuid t \<notin> rd_uuid ` set rows"
      by (simp add: find_row_None)
    with Cons.prems(1) have "rd_uuid t \<notin> D" "rd_uuid t \<notin> K"
      by (auto simp: merging_def)
    with Cons.prems(1) Cons.prems(2) [of t] \<open>rd_uuid t \<notin> rd_uuid ` set rows\<close>
    have "merging k S D K (rows @ [t])"
      unfolding merging_def by auto
    with Cons None show ?thesis by simp
  next
    case (Some r)
    with Cons.prems have "takes_device t r \<Longrightarrow> merging k S D K (upsert_row rd_uuid rows (rd_uuid t) (\<lambda>_. t))"
      by (intro merging_take) auto
    with Cons Some show ?thesis by simp
  qed
qed simp

lemma kept_out_merge:
  assumes "kept_out k S v" "copy_respects k S v other"
  shows "kept_out k S (merge_relay other v)"
proof -
  let ?D = "rd_uuid ` {r \<in> set (rl_devices v). \<not> live r}"
  let ?K = "rd_uuid ` {r \<in> set (rl_devices v). \<not> live r \<and> has_key k r}"
  have inj: "inj_on rd_uuid (set (rl_devices v))"
    using assms(1) by (simp add: kept_out_def distinct_map)
  have "merging k S ?D ?K (rl_devices v)"
    using assms(1) inj unfolding merging_def kept_out_def live_with_def
    by (auto dest: inj_onD)
  then have "merging k S ?D ?K (merge_devices (rl_devices other) (rl_devices v))"
  proof (rule merging_merge)
    fix t
    assume t: "t \<in> set (rl_devices other)"
    show "rd_uuid t \<in> S \<union> ?D" if "live t" "has_key k t"
      using assms(2) t that unfolding copy_respects_def by (metis (mono_tags, lifting) UnI1 UnI2 imageI mem_Collect_eq)
    show "has_key k t" if "rd_uuid t \<in> ?K"
      using assms(2) t that unfolding copy_respects_def by auto
  qed
  then have m: "merging k S ?D ?K (rl_devices (merge_relay other v))"
    by (simp add: merge_relay_def)
  obtain r where "r \<in> set (rl_devices v)" "\<not> live r" "has_key k r"
    using assms(1) unfolding kept_out_def key_removed_iff by blast
  then have "rd_uuid r \<in> ?K" "rd_uuid r \<in> ?D"
    by auto
  then obtain q where "q \<in> set (rl_devices (merge_relay other v))" "\<not> live q" "has_key k q"
    using m unfolding merging_def by (metis (no_types, lifting) imageE subset_iff)
  then show ?thesis
    using m unfolding kept_out_def key_removed_iff merging_def live_with_def by blast
qed

text \<open>The operations of this Mac on its vault, and the merges with copies that respect the key.\<close>

inductive device_step :: "string \<Rightarrow> string set \<Rightarrow> relay_vault \<Rightarrow> relay_vault \<Rightarrow> bool" for k S where
  own: "questions_step v v' \<Longrightarrow> device_step k S v v'"
| merge: "copy_respects k S v other \<Longrightarrow> device_step k S v (merge_relay other v)"

lemma kept_out_device_steps: "(device_step k S)\<^sup>*\<^sup>* v v' \<Longrightarrow> kept_out k S v \<Longrightarrow> kept_out k S v'"
proof (induction rule: rtranclp_induct)
  case (step v w)
  from step(2) show ?case
    by cases (use step(3,4) removed_key.reached [OF questions_step_steps] kept_out_merge in blast)+
qed

text \<open>C30: Once the vault holds a removed device with a key, no operation of this Mac on the devices,
  the memberships or the questions of the vault gives another live row that key: not the
  registration, not the change of a row, not the handoff of a pairing, whole or failed. Merges with
  other copies may come between, as long as such a copy gives the key to no live row but those that
  have it here and those that are removed here, and has the key in the rows that are removed here
  with it. After any such sequence the key is still the key of a removed device, and only rows that
  had it live before can have it. In particular the removal wins over a copy that still has the
  removed device live. The merge has no check of its own: a copy that gives the key to a row of
  another UUID brings it back (\<open>merge_revives_removed_key\<close>).\<close>

theorem removed_key_stays_out:
  assumes "distinct (map rd_uuid (rl_devices v))" and "key_removed v k"
    and "(device_step k (live_with v k))\<^sup>*\<^sup>* v v'"
  shows "key_removed v' k \<and> live_with v' k \<subseteq> live_with v k"
  using kept_out_device_steps [OF assms(3)] assms(1,2)
  by (simp add: kept_out_def)

text \<open>C31: A vault with at most one membership for relay sync, in distinct teams, keeps that over
  every sequence of operations, also failed ones.\<close>

theorem one_sync_membership:
  assumes "one_sync v" and "questions_step\<^sup>*\<^sup>* v v'"
  shows "one_sync v'"
  using single_sync.reached [OF questions_steps [OF assms(2)] assms(1)] .

section \<open>Reading the memberships after a change\<close>

lemma insort_key_map: "(\<And>x. f (g x) = f x) \<Longrightarrow> insort_key f (g x) (map g xs) = map g (insort_key f x xs)"
  by (induction xs) auto

lemma sort_key_map: "(\<And>x. f (g x) = f x) \<Longrightarrow> sort_key f (map g xs) = map g (sort_key f xs)"
  by (induction xs) (simp_all add: insort_key_map)

lemma list_all2_filter:
  "list_all2 p xs ys \<Longrightarrow> (\<And>x y. p x y \<Longrightarrow> q x = s y) \<Longrightarrow> list_all2 p (filter q xs) (filter s ys)"
  by (induction rule: list_all2_induct) auto

lemma load_after_delete:
  assumes "load_memberships v None = Inr ms"
  shows "load_memberships (delete_member t v) None = Inr (filter (\<lambda>m. ms_team m \<noteq> t) ms)"
proof -
  have "list_all2 (\<lambda>r m. load_row r = Inr m) (sort_key mb_team (rl_members v)) ms"
    using assms by (simp add: load_memberships_def collect_Inr)
  then have "list_all2 (\<lambda>r m. load_row r = Inr m) (filter (\<lambda>r. mb_team r \<noteq> t) (sort_key mb_team (rl_members v)))
      (filter (\<lambda>m. ms_team m \<noteq> t) ms)"
    by (rule list_all2_filter) (auto dest: load_row_Inr)
  then show ?thesis by (simp add: load_memberships_def collect_Inr delete_member_def filter_sort)
qed

lemma parse_purposes_json: "parse_purposes (Some (purposes_json ps)) = Inr ps"
proof -
  have "p \<in> set (List.map_filter purpose_parse (map purpose_str qs)) \<longleftrightarrow> p \<in> set qs" for p qs
  proof (induction qs)
    case (Cons q qs)
    then show ?case
      by (cases q) (auto simp: map_filter_simps purpose_parse_def)
  qed (simp add: map_filter_simps)
  then have "set (List.map_filter purpose_parse (purposes_json ps))
      = set (filter (\<lambda>p. p \<in> ps) [PurposeSync, PurposeQuestions, PurposeShare])"
    unfolding purposes_json_def by blast
  also have "\<dots> = ps"
  proof -
    have "p \<in> set [PurposeSync, PurposeQuestions, PurposeShare]" for p by (cases p) simp_all
    then show ?thesis unfolding set_filter by blast
  qed
  finally show ?thesis by (simp add: parse_purposes_def ok_or_def)
qed

lemma load_row_purposes:
  "load_row r = Inr m \<Longrightarrow> load_row (r\<lparr>mb_purposes := Some (purposes_json ps)\<rparr>) = Inr (m\<lparr>ms_purposes := ps\<rparr>)"
  by (cases "mb_source r")
    (auto simp: load_row_def and_then_eq_Inr Let_def parse_purposes_json membership_is_valid_def require_def
      split: if_splits)

lemma load_after_update:
  assumes "load_memberships v None = Inr ms"
  shows "load_memberships (update_member t (\<lambda>r. r\<lparr>mb_purposes := Some (purposes_json ps)\<rparr>) v) None
    = Inr (map (\<lambda>m. if ms_team m = t then m\<lparr>ms_purposes := ps\<rparr> else m) ms)"
proof -
  let ?g = "\<lambda>r. if mb_team r = t then r\<lparr>mb_purposes := Some (purposes_json ps)\<rparr> else r"
  have "list_all2 (\<lambda>r m. load_row r = Inr m) (sort_key mb_team (rl_members v)) ms"
    using assms by (simp add: load_memberships_def collect_Inr)
  then have "list_all2 (\<lambda>r m. load_row (?g r) = Inr (if ms_team m = t then m\<lparr>ms_purposes := ps\<rparr> else m))
      (sort_key mb_team (rl_members v)) ms"
    by (rule list_all2_mono) (auto dest: load_row_Inr intro: load_row_purposes)
  then have "list_all2 (\<lambda>r m. load_row r = Inr m) (map ?g (sort_key mb_team (rl_members v)))
      (map (\<lambda>m. if ms_team m = t then m\<lparr>ms_purposes := ps\<rparr> else m) ms)"
    by (simp add: list_all2_map1 list_all2_map2)
  moreover have "sort_key mb_team (map ?g (rl_members v)) = map ?g (sort_key mb_team (rl_members v))"
    by (rule sort_key_map) simp
  ultimately show ?thesis by (simp add: load_memberships_def collect_Inr update_member_def)
qed

section \<open>Off\<close>

lemma questions_membership_Inr:
  assumes "questions_membership v = Inr q"
  shows "rl_open v" "\<exists>ms. load_memberships v None = Inr ms \<and> q = List.find (\<lambda>m. PurposeQuestions \<in> ms_purposes m) ms"
  using assms
  by (auto simp: questions_membership_def relay_memberships_def rl_conn_def require_def and_then_eq_Inr
      split: if_splits)


lemma find_in: "List.find p xs = Some x \<Longrightarrow> x \<in> set xs \<and> p x"
  by (auto simp: find_Some_iff)

lemma purposes_Inr:
  assumes "set_membership_purposes team ps v = Inr (x, v')"
  shows "v' = update_member team (\<lambda>r. r\<lparr>mb_purposes := Some (purposes_json ps)\<rparr>) v"
  using assms by (auto simp: set_membership_purposes_def and_then_eq_Inr)

lemma disable_cases:
  assumes "disable_questions v = (Inr b, v')"
  obtains "questions_membership v = Inr None" "\<not> b" "v' = v"
  | m where "questions_membership v = Inr (Some m)" "b" "ms_purposes m = {PurposeQuestions}"
      "v' = delete_member (ms_team m) v"
  | m where "questions_membership v = Inr (Some m)" "b"
      "v' = update_member (ms_team m)
         (\<lambda>r. r\<lparr>mb_purposes := Some (purposes_json (ms_purposes m - {PurposeQuestions}))\<rparr>) v"
proof (cases "questions_membership v")
  case (Inr q)
  show thesis
  proof (cases q)
    case None
    then have "(Inr b :: verr + bool, v') = (Inr False, v)"
      using assms Inr by (simp add: disable_questions_def seq_def reads_def return_def)
    then show thesis using that(1) Inr None by blast
  next
    case (Some m)
    note open' = questions_membership_Inr(1) [OF Inr]
    obtain ms where "q = List.find (\<lambda>m. PurposeQuestions \<in> ms_purposes m) ms"
      using questions_membership_Inr(2) [OF Inr] by blast
    then have m: "PurposeQuestions \<in> ms_purposes m" using find_in Some by metis
    have d: "(if ms_purposes m - {PurposeQuestions} = {}
        then seq (tx (remove_relay_membership (ms_team m))) (\<lambda>_. return True)
        else seq (tx (set_membership_purposes (ms_team m) (ms_purposes m - {PurposeQuestions})))
          (\<lambda>_. return True)) v = (Inr b, v')"
      using assms Inr Some by (simp add: disable_questions_def seq_def [of "reads _"] reads_def Let_def)
    show thesis
    proof (cases "ms_purposes m - {PurposeQuestions} = {}")
      case True
      then have "ms_purposes m = {PurposeQuestions}" using m by blast
      then show thesis
        using d open' Inr Some that(2) [of m]
        by (simp add: seq_def return_def tx_def remove_relay_membership_def rl_conn_def require_def)
    next
      case False
      obtain x v1 where p: "set_membership_purposes (ms_team m) (ms_purposes m - {PurposeQuestions}) v = Inr (x, v1)"
        using d unfolding if_not_P [OF False]
        by (cases "set_membership_purposes (ms_team m) (ms_purposes m - {PurposeQuestions}) v")
          (auto simp: seq_def tx_def)
      have "b" "v' = v1"
        using d unfolding if_not_P [OF False] by (auto simp: seq_def tx_def p return_def)
      then show thesis using Inr Some that(3) [of m] purposes_Inr [OF p] by simp
    qed
  qed
next
  case (Inl e)
  then have "(Inr b :: verr + bool, v') = (Inl e, v)"
    using assms by (simp add: disable_questions_def seq_def reads_def)
  then show thesis by simp
qed

lemma find_map_same:
  "(\<And>x. p (g x) = p x) \<Longrightarrow> List.find p (map g xs) = map_option g (List.find p xs)"
  by (induction xs) auto

lemma find_filter_other: "(\<And>x. x \<in> set xs \<Longrightarrow> p x \<Longrightarrow> q x) \<Longrightarrow> List.find p (filter q xs) = List.find p xs"
  by (induction xs) auto

lemma find_row_map:
  "(\<And>r. key (g r) = key r) \<Longrightarrow> find_row key (map g rows) k = map_option g (find_row key rows k)"
  unfolding find_row_def by (rule find_map_same) simp

lemma find_row_filter:
  "(\<And>r. key r = k \<Longrightarrow> p r) \<Longrightarrow> find_row key (filter p rows) k = find_row key rows k"
  unfolding find_row_def by (rule find_filter_other) simp

lemma relay_device_delete:
  assumes "load_memberships v None = Inr ms" and "\<And>m. m \<in> set ms \<Longrightarrow> PurposeSync \<in> ms_purposes m \<Longrightarrow> ms_team m \<noteq> t"
  shows "relay_device_of (delete_member t v) = relay_device_of v"
proof -
  have s: "sync_membership (delete_member t v) = sync_membership v"
    unfolding sync_membership_def load_after_delete [OF assms(1)] assms(1)
    using assms(2) by (simp add: find_filter_other)
  have "find_row mb_team (rl_members (delete_member t v)) (ms_team m) = find_row mb_team (rl_members v) (ms_team m)"
    if "sync_membership v = Inr (Some m)" for m
  proof -
    have "m \<in> set ms" "PurposeSync \<in> ms_purposes m"
      using that assms(1) by (auto simp: sync_membership_def find_Some_iff)
    then have "ms_team m \<noteq> t" using assms(2) by blast
    then show ?thesis by (simp add: delete_member_def find_row_filter)
  qed
  then show ?thesis
    unfolding relay_device_of_def s
    by (cases "sync_membership v") (auto simp: delete_member_def rl_conn_def split: option.split)
qed

lemma relay_device_update:
  assumes "load_memberships v None = Inr ms" and "\<And>m. m \<in> set ms \<Longrightarrow> ms_team m = t \<Longrightarrow> PurposeSync \<in> ms_purposes m \<longleftrightarrow> PurposeSync \<in> ps"
  shows "relay_device_of (update_member t (\<lambda>r. r\<lparr>mb_purposes := Some (purposes_json ps)\<rparr>) v) = relay_device_of v"
proof -
  let ?v = "update_member t (\<lambda>r. r\<lparr>mb_purposes := Some (purposes_json ps)\<rparr>) v"
  let ?g = "\<lambda>m. if ms_team m = t then m\<lparr>ms_purposes := ps\<rparr> else m"
  let ?h = "\<lambda>r. if mb_team r = t then r\<lparr>mb_purposes := Some (purposes_json ps)\<rparr> else r"
  have "List.find (\<lambda>m. PurposeSync \<in> ms_purposes m) (map ?g xs)
      = map_option ?g (List.find (\<lambda>m. PurposeSync \<in> ms_purposes m) xs)" if "set xs \<subseteq> set ms" for xs
    using that by (induction xs) (auto simp: assms(2))
  then have s: "sync_membership ?v = Inr (map_option ?g (List.find (\<lambda>m. PurposeSync \<in> ms_purposes m) ms))"
    unfolding sync_membership_def load_after_update [OF assms(1)] by simp
  have o: "sync_membership v = Inr (List.find (\<lambda>m. PurposeSync \<in> ms_purposes m) ms)"
    by (simp add: sync_membership_def assms(1))
  have f: "find_row mb_team (rl_members ?v) k = map_option ?h (find_row mb_team (rl_members v) k)" for k
    unfolding update_member_def relay_vault.simps by (simp add: find_row_map)
  have c: "rl_conn ?v = rl_conn v" by (simp add: rl_conn_def update_member_def)
  show ?thesis
    unfolding relay_device_of_def s o c
    by (cases "List.find (\<lambda>m. PurposeSync \<in> ms_purposes m) ms";
        cases "find_row mb_team (rl_members v) (ms_team (the (List.find (\<lambda>m. PurposeSync \<in> ms_purposes m) ms)))")
      (auto simp: f ok_or_def)
qed

lemma sole_team:
  assumes "one_sync v" and "load_memberships v None = Inr ms" and "a \<in> set ms" and "b \<in> set ms"
    and "ms_team a = ms_team b"
  shows "a = b"
proof -
  obtain r where r: "r \<in> set (rl_members v)" "load_row r = Inr a" using load_memberships_Inr(1) assms(2,3) by blast
  obtain q where q: "q \<in> set (rl_members v)" "load_row q = Inr b" using load_memberships_Inr(1) assms(2,4) by blast
  have "mb_team r = mb_team q" using load_row_Inr [OF r(2)] load_row_Inr [OF q(2)] assms(5) by simp
  then have "r = q"
    using one_syncD(1) [OF assms(1)] r(1) q(1) by (auto simp: distinct_map inj_on_def)
  then show ?thesis using r(2) q(2) by simp
qed

text \<open>Turning the questions off never touches relay sync: the device of relay sync reads as
  before, the trusted devices and the secrets stay, and the questions are off or carried by no
  membership of the same team any more.\<close>

theorem off_keeps_relay_sync:
  assumes "one_sync v" and "disable_questions v = (Inr b, v')"
  shows "relay_device_of v' = relay_device_of v \<and> rl_devices v' = rl_devices v \<and> rl_secrets v' = rl_secrets v
    \<and> (\<exists>ms. load_memberships v' None = Inr ms
        \<and> (case questions_membership v of Inr (Some m) \<Rightarrow> b
             \<and> list_all (\<lambda>m'. ms_team m' = ms_team m \<longrightarrow> PurposeQuestions \<notin> ms_purposes m') ms
           | _ \<Rightarrow> \<not> b \<and> v' = v))"
  using assms(2)
proof (cases rule: disable_cases)
  case 1
  then show ?thesis using questions_membership_Inr(2) [OF 1(1)] by auto
next
  case (2 m)
  obtain ms where ms: "load_memberships v None = Inr ms" "Some m = List.find (\<lambda>m. PurposeQuestions \<in> ms_purposes m) ms"
    using questions_membership_Inr(2) [OF 2(1)] by blast
  have m: "m \<in> set ms" using find_in [OF ms(2) [symmetric]] ..
  have "ms_team a \<noteq> ms_team m" if "a \<in> set ms" "PurposeSync \<in> ms_purposes a" for a
    using sole_team [OF assms(1) ms(1) that(1) m] that(2) 2(3) by auto
  then have "relay_device_of v' = relay_device_of v" unfolding 2(4) by (intro relay_device_delete [OF ms(1)])
  then show ?thesis
    using 2 load_after_delete [OF ms(1), of "ms_team m"]
    by (auto simp: delete_member_def list_all_iff)
next
  case (3 m)
  obtain ms where ms: "load_memberships v None = Inr ms" "Some m = List.find (\<lambda>m. PurposeQuestions \<in> ms_purposes m) ms"
    using questions_membership_Inr(2) [OF 3(1)] by blast
  have m: "m \<in> set ms" using find_in [OF ms(2) [symmetric]] ..
  have "relay_device_of v' = relay_device_of v"
    unfolding 3(3)
  proof (rule relay_device_update [OF ms(1)])
    fix a assume "a \<in> set ms" "ms_team a = ms_team m"
    then have "a = m" using sole_team [OF assms(1) ms(1) _ m] by blast
    then show "PurposeSync \<in> ms_purposes a \<longleftrightarrow> PurposeSync \<in> ms_purposes m - {PurposeQuestions}" by simp
  qed
  moreover have "load_memberships v' None = Inr (map (\<lambda>a. if ms_team a = ms_team m
      then a\<lparr>ms_purposes := ms_purposes m - {PurposeQuestions}\<rparr> else a) ms)"
    unfolding 3(3) by (rule load_after_update [OF ms(1)])
  ultimately show ?thesis
    using 3 by (auto simp: update_member_def list_all_iff split: if_splits)
qed


text \<open>C33: On a Mac whose only membership is a questions team, which the vault names, turning the
  questions off is final without another Mac of the team: the Mac is told to join that team,
  and a new team is refused.\<close>

theorem off_needs_another_mac:
  assumes "relay_memberships v = Inr [m]" and "ms_purposes m = {PurposeQuestions}"
    and "questions_team v = Inr (Some (ms_team m))" and "disable_questions v = (r, v')"
  shows "questions_availability v' = Inr (JoinTeam (ms_team m))
    \<and> (ms_team m' = ms_team m \<or> fst (adopt_questions_team clk random key m' name v') = Inl AlreadyEnabled)
    \<and> fst (create_questions_team parse generate post clk random key url code vault name v') = Inl AlreadyEnabled"
proof -
  have o: "rl_open v" and l: "load_memberships v None = Inr [m]"
    using assms(1) by (auto simp: relay_memberships_def rl_conn_def require_def split: if_splits)
  have "questions_membership v = Inr (Some m)" using assms(1,2) by (simp add: questions_membership_def)
  then have v': "v' = delete_member (ms_team m) v"
    using assms(2,4) o
    by (auto simp: disable_questions_def seq_def reads_def return_def tx_def remove_relay_membership_def
        rl_conn_def require_def)
  have l': "load_memberships v' None = Inr []" unfolding v' load_after_delete [OF l] by simp
  have o': "rl_open v'" using o by (simp add: v' delete_member_def)
  have ms: "relay_memberships v' = Inr []" by (simp add: relay_memberships_def rl_conn_def o' require_def l')
  have q: "questions_membership v' = Inr None" by (simp add: questions_membership_def ms)
  have d: "relay_device_of v' = Inr None"
    by (simp add: relay_device_of_def sync_membership_def rl_conn_def o' require_def l')
  have "questions_team v' = questions_team v"
    by (simp add: v' delete_member_def questions_team_def rl_conn_def secret_of_def)
  then have e: "existing_questions_team v' = Inr (Some (ms_team m))"
    by (simp add: existing_questions_team_def ms assms(3))
  show ?thesis
    using o' q e d
    by (simp add: questions_availability_def adopt_questions_team_def create_questions_team_def seq_def
        unlocked_def on_vault_def reads_def fail_def)
qed

section \<open>A failure to turn on\<close>

definition quiet :: "('e, 'a) action \<Rightarrow> bool" where
  "quiet act \<longleftrightarrow> (\<forall>v. rl_members (snd (act v)) = rl_members v \<and> rl_open (snd (act v)) = rl_open v)"

named_theorems quiet_actions \<open>actions that change no membership\<close>

lemma quiet_basic [quiet_actions]:
  "quiet (reads f)" "quiet (return x)" "quiet (fail e)" "quiet unlocked"
  by (simp_all add: quiet_def reads_def return_def fail_def unlocked_def)

lemma quiet_seq [quiet_actions]:
  assumes "quiet m" and "\<And>x. quiet (f x)"
  shows "quiet (seq m f)"
  unfolding quiet_def
proof (intro allI)
  fix v
  obtain r v1 where m: "m v = (r, v1)" by fastforce
  then have "rl_members v1 = rl_members v \<and> rl_open v1 = rl_open v"
    using assms(1) unfolding quiet_def by (metis snd_conv)
  then show "rl_members (snd (seq m f v)) = rl_members v \<and> rl_open (snd (seq m f v)) = rl_open v"
    using assms(2) m by (cases r) (simp_all add: seq_def quiet_def)
qed

lemma quiet_on_vault [quiet_actions]: "quiet act \<Longrightarrow> quiet (on_vault act)"
  by (simp add: quiet_def on_vault_def split_beta)

lemma quiet_if [quiet_actions]: "quiet a \<Longrightarrow> quiet b \<Longrightarrow> quiet (if c then a else b)"
  by simp

lemma quiet_option [quiet_actions]:
  "quiet a \<Longrightarrow> (\<And>x. quiet (f x)) \<Longrightarrow> quiet (case opt of None \<Rightarrow> a | Some x \<Rightarrow> f x)"
  by (cases opt) simp_all

lemma quiet_tx: "(\<And>v x v'. f v = Inr (x, v') \<Longrightarrow> rl_members v' = rl_members v \<and> rl_open v' = rl_open v) \<Longrightarrow> quiet (tx f)"
  by (fastforce simp: quiet_def tx_def split: sum.splits)

lemma same_open:
  "set_trusted_device_relay_id ms u team i v = Inr (x, v') \<Longrightarrow> rl_open v' = rl_open v"
  "ensure_question_key ms random v = Inr (key, v') \<Longrightarrow> rl_open v' = rl_open v"
  "set_questions_team ms team v = Inr (x, v') \<Longrightarrow> rl_open v' = rl_open v"
  by (auto simp: set_trusted_device_relay_id_def change_relay_devices_def ensure_question_key_def
      set_questions_team_def and_then_eq_Inr write_secret_def update_device_def
      split: option.splits prod.splits if_splits)

lemma register_open:
  "register_trusted_device secs ms u name kind sign answer v = Inr (d, v') \<Longrightarrow> rl_open v' = rl_open v"
  by (drule register_Inr(3)) (auto simp: update_device_def)

lemma quiet_vault [quiet_actions]:
  "quiet (tx (register_trusted_device secs ms u name kind sign answer))"
  "quiet (tx (set_trusted_device_relay_id ms u team i))"
  "quiet (tx (ensure_question_key ms random))"
  "quiet (tx (set_questions_team ms team))"
  by (rule quiet_tx, blast dest: register_members register_open same_members same_open)+

lemma quiet_register [quiet_actions]: "quiet (register_this_device clk random m name)"
  unfolding register_this_device_def Let_def by (intro quiet_actions)

lemma add_members:
  assumes "add_relay_membership secs m v = Inr (x, v')"
  obtains r where "rl_members v' = rl_members v @ [r]" "mb_team r = ms_team m" "rl_open v'"
    "ms_team m \<notin> set (map mb_team (rl_members v))"
proof -
  have o: "rl_open v" and same: "load_memberships v (Some (ms_team m)) = Inr []"
    and r: "\<exists>r. mb_team r = ms_team m \<and> rl_members v' = rl_members v @ [r] \<and> rl_open v' = rl_open v"
    using assms
    by (auto simp: add_relay_membership_def and_then_eq_Inr require_def rl_conn_def split: if_splits)
  have "ms_team m \<notin> set (map mb_team (rl_members v))" using load_memberships_Inr(2) [OF same] by auto
  then show thesis using that r o by blast
qed

lemma keep_fails_cleanly:
  assumes "keep_questions_membership clk random key m name v = (Inl e, v')"
  shows "rl_members v' = rl_members v"
proof -
  let ?rest = "on_vault (seq (tx (set_questions_team (snd (clk 4)) (ms_team m))) (\<lambda>_.
      seq (tx (ensure_question_key (snd (clk 2)) key)) (\<lambda>_. register_this_device clk random m name)))"
  have q: "quiet ?rest" by (intro quiet_actions)
  show ?thesis
  proof (cases "trusted_key_removed (ms_public m) v = Inr False \<and> (\<exists>x v1. add_relay_membership (fst (clk 3)) m v = Inr (x, v1))")
    case False
    then have "v' = v"
      using assms
      by (cases "trusted_key_removed (ms_public m) v"; cases "add_relay_membership (fst (clk 3)) m v")
        (auto simp: keep_questions_membership_def seq_def on_vault_def reads_def tx_def fail_def split: if_splits)
    then show ?thesis by simp
  next
    case True
    then obtain x v1 where a: "add_relay_membership (fst (clk 3)) m v = Inr (x, v1)" by blast
    obtain r where r: "rl_members v1 = rl_members v @ [r]" "mb_team r = ms_team m" "rl_open v1"
      "ms_team m \<notin> set (map mb_team (rl_members v))"
      by (rule add_members [OF a])
    obtain res v2 where rest: "?rest v1 = (res, v2)" by fastforce
    then have v2: "rl_members v2 = rl_members v1" "rl_open v2"
      using q r(3) unfolding quiet_def by (metis snd_conv)+
    have "keep_questions_membership clk random key m name v
        = (case res of Inr d \<Rightarrow> (Inr d, v2) | Inl e \<Rightarrow> (Inl e, snd (tx (remove_relay_membership (ms_team m)) v2)))"
      using True a rest
      by (simp add: keep_questions_membership_def seq_def [of "on_vault _"] on_vault_def [of "reads _"]
          on_vault_def [of "tx (add_relay_membership _ _)"] reads_def tx_def [of "add_relay_membership _ _"]
          split: sum.split)
    then have "v' = delete_member (ms_team m) v2"
      using assms v2(2)
      by (auto simp: tx_def remove_relay_membership_def rl_conn_def require_def split: sum.splits)
    moreover have "filter (\<lambda>r. mb_team r \<noteq> ms_team m) (rl_members v) = rl_members v"
      using r(4) by (intro filter_True) (metis image_eqI set_map)
    ultimately show ?thesis using r(1,2) v2(1) by (simp add: delete_member_def)
  qed
qed

text \<open>C32: When a call that adopts or joins a questions team fails, at whatever point, the
  memberships of the vault are exactly as before.\<close>

theorem failed_on_keeps_memberships:
  assumes "act = adopt_questions_team clk random key m name \<or> act = join_questions_team clk random key m name
      \<or> act = adopt_node_team clk random key m name"
    and "act v = (Inl e, v')"
  shows "rl_members v' = rl_members v"
proof -
  have adopt: "rl_members v' = rl_members v"
    if "adopt_questions_team clk random key m name v = (Inl e, v')" for e v'
    using that keep_fails_cleanly
    by (fastforce simp: adopt_questions_team_def seq_def unlocked_def on_vault_def reads_def fail_def
        split: prod.splits sum.splits if_splits)
  moreover have "rl_members v' = rl_members v"
    if "join_questions_team clk random key m name v = (Inl e, v')" for e v'
    using that keep_fails_cleanly
    by (fastforce simp: join_questions_team_def seq_def unlocked_def on_vault_def reads_def fail_def
        split: prod.splits sum.splits if_splits)
  ultimately show ?thesis
    using assms by (auto simp: adopt_node_team_def fail_def split: if_splits)
qed


section \<open>Samples\<close>

definition sample_point :: "char \<Rightarrow> string" where
  "sample_point c = CHR 0x04 # replicate 64 c"

definition sample_member :: member_row where
  "sample_member = \<lparr>mb_team = ''t_aaaaaaaaaa'', mb_url = ''https://r'', mb_device = 1,
     mb_public = sample_point CHR ''m'', mb_key = ''k'', mb_purposes = Some [''questions''],
     mb_created = 1, mb_pin = None, mb_alt = None, mb_source = KeyVault\<rparr>"

definition sample_membership :: membership where
  "sample_membership = \<lparr>ms_team = ''t_bbbbbbbbbb'', ms_url = ''https://r'', ms_device = 1,
     ms_public = sample_point CHR ''n'', ms_key = ''k'', ms_purposes = {PurposeQuestions},
     ms_created = 0, ms_pin = Some (replicate 43 CHR ''p''), ms_alt = []\<rparr>"

definition sample_vault :: "member_row list \<Rightarrow> relay_vault" where
  "sample_vault rows = \<lparr>rl_open = True, rl_device = Some ''d'',
     rl_devices = [\<lparr>rd_uuid = ''a'', rd_name = ''Old Mac'', rd_kind = ''mac'', rd_relay = Some [],
       rd_sign = sample_point CHR ''o'', rd_answer = None, rd_created = 1, rd_updated = 2,
       rd_by = ''d'', rd_deleted = Some 2\<rparr>],
     rl_members = rows,
     rl_secrets = (if rows = [] then [] else [(QUESTIONS_TEAM_NAME, ''t_aaaaaaaaaa'', 1, ''d'')]),
     rl_items = [], rl_homes = []\<rparr>"

text \<open>A copy in which the removed device is still live, and one in which another device has its key.\<close>

definition other_copy :: "string \<Rightarrow> relay_vault" where
  "other_copy u = (sample_vault [])\<lparr>rl_devices :=
     [\<lparr>rd_uuid = u, rd_name = ''Old Mac'', rd_kind = ''mac'', rd_relay = Some [],
       rd_sign = sample_point CHR ''o'', rd_answer = None, rd_created = 1, rd_updated = 9,
       rd_by = ''e'', rd_deleted = None\<rparr>]\<rparr>"

lemma removed_key_stays_out_witness:
  "\<exists>v'. register_trusted_device 5 5000 ''b'' ''Mac'' device_kind.Mac (sample_point CHR ''n'') None
        (merge_relay (other_copy ''a'') (sample_vault []))
      = Inr (\<lparr>td_uuid = ''b'', td_name = ''Mac'', td_kind = device_kind.Mac, td_relay = [],
          td_sign = sample_point CHR ''n'', td_answer = None, td_created = 5, td_updated = 5000, td_by = ''d''\<rparr>, v')
    \<and> live_with (other_copy ''a'') (sample_point CHR ''o'') = {''a''}
    \<and> key_removed v' (sample_point CHR ''o'') \<and> live_with v' (sample_point CHR ''o'') = {}"
proof -
  let ?k = "sample_point CHR ''o''"
  let ?v = "merge_relay (other_copy ''a'') (sample_vault [])"
  have "case register_trusted_device 5 5000 ''b'' ''Mac'' device_kind.Mac (sample_point CHR ''n'') None
        (merge_relay (other_copy ''a'') (sample_vault []))
      of Inl _ \<Rightarrow> False | Inr (d, _) \<Rightarrow> d = \<lparr>td_uuid = ''b'', td_name = ''Mac'', td_kind = device_kind.Mac, td_relay = [],
          td_sign = sample_point CHR ''n'', td_answer = None, td_created = 5, td_updated = 5000, td_by = ''d''\<rparr>"
    by code_simp
  then obtain v' where r: "register_trusted_device 5 5000 ''b'' ''Mac'' device_kind.Mac (sample_point CHR ''n'') None
        (merge_relay (other_copy ''a'') (sample_vault []))
      = Inr (\<lparr>td_uuid = ''b'', td_name = ''Mac'', td_kind = device_kind.Mac, td_relay = [],
          td_sign = sample_point CHR ''n'', td_answer = None, td_created = 5, td_updated = 5000, td_by = ''d''\<rparr>, v')"
    by (auto split: sum.splits)
  have none: "live_with (sample_vault []) ?k = {}"
    by (simp add: live_with_def sample_vault_def live_def)
  have "copy_respects ?k {} (sample_vault []) (other_copy ''a'')"
    by (simp add: copy_respects_def other_copy_def sample_vault_def live_def has_key_def)
  then have "device_step ?k {} (sample_vault []) ?v"
    by (rule device_step.merge)
  moreover have "device_step ?k {} ?v v'"
    using r by (blast intro: device_step.own questions_step.vault relay_step.register)
  ultimately have "(device_step ?k (live_with (sample_vault []) ?k))\<^sup>*\<^sup>* (sample_vault []) v'"
    unfolding none by (rule converse_rtranclp_into_rtranclp [OF _ r_into_rtranclp])
  moreover have "key_removed (sample_vault []) ?k" by code_simp
  moreover have "distinct (map rd_uuid (rl_devices (sample_vault [])))" by (simp add: sample_vault_def)
  moreover have "live_with (other_copy ''a'') ?k = {''a''}"
    by (simp add: live_with_def other_copy_def live_def has_key_def)
  ultimately show ?thesis using removed_key_stays_out [of "sample_vault []" ?k v'] r none by simp
qed

lemma merge_revives_removed_key:
  "key_removed (sample_vault []) (sample_point CHR ''o'')
   \<and> live_with (merge_relay (other_copy ''c'') (sample_vault [])) (sample_point CHR ''o'') = {''c''}"
proof
  show "key_removed (sample_vault []) (sample_point CHR ''o'')"
    by code_simp
  have "map (\<lambda>r. (rd_uuid r, rd_deleted r, rd_sign r))
      (rl_devices (merge_relay (other_copy ''c'') (sample_vault [])))
      = [(''a'', Some 2, sample_point CHR ''o''), (''c'', None, sample_point CHR ''o'')]"
    by code_simp
  then show "live_with (merge_relay (other_copy ''c'') (sample_vault [])) (sample_point CHR ''o'') = {''c''}"
    by (force simp: live_with_def live_def has_key_def map_eq_Cons_conv)
qed

lemma sample_one_sync: "one_sync (sample_vault [sample_member])"
  by (simp add: one_sync_def sample_vault_def)

lemma one_sync_membership_witness:
  "\<exists>x v'. set_account_relay_device 5 ''https://r'' ''t_cccccccccc'' 1 (sample_point CHR ''n'')
      (sample_vault [sample_member]) = Inr (x, v') \<and> length (rl_members v') = 2 \<and> one_sync v'"
proof -
  have "case set_account_relay_device 5 ''https://r'' ''t_cccccccccc'' 1 (sample_point CHR ''n'')
      (sample_vault [sample_member]) of Inl _ \<Rightarrow> False | Inr (_, v') \<Rightarrow> length (rl_members v') = 2"
    by code_simp
  then obtain x v' where r: "set_account_relay_device 5 ''https://r'' ''t_cccccccccc'' 1 (sample_point CHR ''n'')
      (sample_vault [sample_member]) = Inr (x, v')" "length (rl_members v') = 2"
    by (auto split: sum.splits)
  then have "questions_step\<^sup>*\<^sup>* (sample_vault [sample_member]) v'"
    by (blast intro: r_into_rtranclp questions_step.vault relay_step.set_account)
  then show ?thesis using one_sync_membership [OF sample_one_sync] r by blast
qed

lemma sample_off:
  "disable_questions (sample_vault [sample_member])
    = (Inr True, delete_member ''t_aaaaaaaaaa'' (sample_vault [sample_member]))"
  by code_simp

lemma off_keeps_relay_sync_witness:
  "relay_device_of (delete_member ''t_aaaaaaaaaa'' (sample_vault [sample_member]))
    = relay_device_of (sample_vault [sample_member])"
  using off_keeps_relay_sync [OF sample_one_sync sample_off] by (rule conjunct1)

lemma off_needs_another_mac_witness:
  "questions_availability (delete_member ''t_aaaaaaaaaa'' (sample_vault [sample_member]))
    = Inr (JoinTeam ''t_aaaaaaaaaa'')"
proof -
  define m where "m = \<lparr>ms_team = ''t_aaaaaaaaaa'', ms_url = ''https://r'', ms_device = 1,
     ms_public = sample_point CHR ''m'', ms_key = ''k'', ms_purposes = {PurposeQuestions},
     ms_created = 1, ms_pin = None, ms_alt = []\<rparr>"
  have "relay_memberships (sample_vault [sample_member]) = Inr [m]" unfolding m_def by code_simp
  moreover have "questions_team (sample_vault [sample_member]) = Inr (Some (ms_team m))"
    unfolding m_def by code_simp
  moreover have "ms_purposes m = {PurposeQuestions}" by (simp add: m_def)
  ultimately show ?thesis
    using off_needs_another_mac [OF _ _ _ sample_off, of m] by (simp add: m_def)
qed

text \<open>A Mac whose random source fails: the membership is taken away again, but the vault keeps
  the name of the team, so the Mac is told to join a team that no device is in.\<close>

definition sample_clock :: clock_readings where "sample_clock n = (5, 5000)"

lemma failed_on_keeps_memberships_witness:
  "\<exists>e v'. adopt_questions_team sample_clock None (replicate 32 CHR ''q'') sample_membership ''Mac'' (sample_vault [])
     = (Inl e, v') \<and> rl_members v' = []"
proof -
  have "case adopt_questions_team sample_clock None (replicate 32 CHR ''q'') sample_membership ''Mac'' (sample_vault [])
     of (Inl _, _) \<Rightarrow> True | (Inr _, _) \<Rightarrow> False"
    by code_simp
  then obtain e v' where r: "adopt_questions_team sample_clock None (replicate 32 CHR ''q'') sample_membership ''Mac''
      (sample_vault []) = (Inl e, v')"
    by (auto split: sum.splits prod.splits)
  from failed_on_keeps_memberships [OF disjI1 [OF refl] r] r show ?thesis
    by (simp add: sample_vault_def)
qed

lemma failed_on_names_the_team:
  "questions_availability (snd (adopt_questions_team sample_clock None (replicate 32 CHR ''q'') sample_membership
     ''Mac'' (sample_vault []))) = Inr (JoinTeam ''t_bbbbbbbbbb'')"
  by code_simp

text \<open>A questions membership with an account key has no private key here, so the way back of a
  failed move does not store it again.\<close>

lemma failed_move_loses_account_questions:
  "rl_members (snd (move_questions_to_node sample_clock None (replicate 32 CHR ''q'') sample_membership
     ''t_aaaaaaaaaa'' ''Mac'' (sample_vault [sample_member\<lparr>mb_key := [], mb_source := KeyAccount\<rparr>]))) = []"
  by code_simp


text \<open>Such a membership is what stays when the questions went on over a relay sync with an account
  key and relay sync goes off.\<close>

lemma account_questions_are_reached:
  "case set_account_relay_device 5 ''https://r'' ''t_aaaaaaaaaa'' 1 (sample_point CHR ''m'') (sample_vault []) of
     Inl _ \<Rightarrow> False
   | Inr (_, v) \<Rightarrow>
       (case remove_relay_device (snd (enable_questions sample_clock (Some (replicate 16 CHR ''u''))
            (replicate 32 CHR ''q'') ''Mac'' v)) of
          Inl _ \<Rightarrow> False
        | Inr (_, v') \<Rightarrow> map (\<lambda>r. (mb_source r, mb_key r, mb_purposes r)) (rl_members v')
            = [(KeyAccount, [], Some [''questions''])])"
  by code_simp

end
