(* ===== verification/SqlReads.thy ===== *)
theory SqlReads
  imports Prelude "HOL-Library.Code_Target_Nat"
begin

text \<open>
  The readers of SQL and database shell text in src/src/broker/shell_risk.rs: what a command
  destroys, writes, changes, only reads, and which reads show data of people. A text is
  lowercase where the code makes it lowercase; every character that the readers look for is
  ASCII, so they work on the bytes, and on whole characters where white space counts.
\<close>

section \<open>Words and comments\<close>

text \<open>\<open>str::split\<close> with a test on characters.\<close>

fun split_when :: "('a \<Rightarrow> bool) \<Rightarrow> 'a list \<Rightarrow> 'a list list" where
  "split_when p [] = [[]]"
| "split_when p (x # xs) =
     (if p x then [] # split_when p xs
      else (case split_when p xs of [] \<Rightarrow> [[x]] | q # qs \<Rightarrow> (x # q) # qs))"

definition sql_words :: "string \<Rightarrow> string list" where
  "sql_words text =
     filter (\<lambda>w. w \<noteq> []) (split_when (\<lambda>c. \<not> is_ascii_alphanumeric c) (to_lowercase text))"

definition word_at :: "string list \<Rightarrow> nat \<Rightarrow> string" where
  "word_at w i = (case get w i of None \<Rightarrow> [] | Some x \<Rightarrow> x)"

definition contains_any :: "string \<Rightarrow> string list \<Rightarrow> bool" where
  "contains_any text needles \<longleftrightarrow> list_ex (contains_sub text) needles"

text \<open>The rest of a text after the end of a block comment.\<close>

fun after_comment :: "char \<Rightarrow> string \<Rightarrow> string" where
  "after_comment previous [] = []"
| "after_comment previous (c # cs) =
     (if previous = CHR ''*'' \<and> c = CHR ''/'' then cs else after_comment c cs)"

lemma length_after_comment: "length (after_comment previous cs) \<le> length cs"
  by (induction previous cs rule: after_comment.induct) auto

function strip_comments :: "bool \<Rightarrow> string \<Rightarrow> string" where
  "strip_comments quoted [] = []"
| "strip_comments quoted (c # cs) =
     (if quoted then c # strip_comments (c \<noteq> CHR 0x27) cs
      else if c = CHR 0x27 then c # strip_comments True cs
      else if c = CHR ''-'' \<and> starts_with cs ''-'' then
        (case dropWhile (\<lambda>c. c \<noteq> CHR 0x0A) cs of
           [] \<Rightarrow> [] | n # rest \<Rightarrow> n # strip_comments False rest)
      else if c = CHR ''/'' \<and> starts_with cs ''*'' then
        CHR '' '' # strip_comments False (after_comment CHR '' '' (tl cs))
      else c # strip_comments False cs)"
  by pat_completeness auto
termination
proof (relation "measure (\<lambda>(_, cs). length cs)", goal_cases)
  case (4 quoted c cs n rest)
  have "length (n # rest) \<le> length cs" using length_dropWhile_le [of _ cs] 4(4) by metis
  then show ?case by simp
next
  case (5 quoted c cs)
  have "length (after_comment CHR '' '' (tl cs)) \<le> length (tl cs)" by (rule length_after_comment)
  then show ?case by (simp add: le_trans less_Suc_eq_le)
qed auto

definition strip_sql_comments :: "string \<Rightarrow> string" where
  "strip_sql_comments = strip_comments False"

section \<open>Destroying, writing, changing\<close>

definition lead_words :: "string list" where
  "lead_words = [''with'', ''begin'', ''explain'', ''analyze'', ''analyse'', ''verbose'']"

definition first_keyword :: "string list \<Rightarrow> nat option" where
  "first_keyword w = position (\<lambda>word. word \<notin> set lead_words) w"

definition from_or_zero :: "nat option \<Rightarrow> nat" where
  "from_or_zero x = (case x of None \<Rightarrow> 0 | Some i \<Rightarrow> i)"

definition sql_objects :: "string list" where
  "sql_objects = [''table'', ''schema'', ''database'', ''index'', ''view'', ''collection'',
     ''keyspace'', ''user'', ''role'', ''materialized'', ''stage'', ''warehouse'', ''function'',
     ''procedure'', ''sequence'', ''type'', ''if'', ''dataset'']"

definition statement_destroys :: "string \<Rightarrow> bool" where
  "statement_destroys statement =
     (let w = sql_words statement;
          start = from_or_zero (first_keyword w);
          word = (\<lambda>offset. word_at w (start + offset))
      in if word 0 = ''drop'' \<or> word 0 = ''alter'' then word 1 \<in> set sql_objects
         else if word 0 = ''truncate'' then
           word 1 = ''table'' \<or> (word 1 \<noteq> [] \<and> length w - start \<le> 3)
         else if word 0 = ''delete'' then word 1 = ''from''
         else if word 0 = ''update'' then contains_sub statement '' set ''
         else if word 0 = ''grant'' then contains_sub statement '' to '' \<or> contains_sub statement '' on ''
         else if word 0 = ''revoke'' then contains_sub statement '' from ''
         else if word 0 = ''create'' then word 1 = ''or'' \<and> word 2 = ''replace''
         else False)"

definition sql_destroys :: "string \<Rightarrow> bool" where
  "sql_destroys text =
     list_ex statement_destroys (split_on CHR '';'' (strip_sql_comments (to_lowercase text)))"

definition write_needles :: "string list" where
  "write_needles = [''dropdatabase'', ''deletemany'', ''deleteone'', ''.drop('', ''flushall'', ''flushdb'']"

definition write_words :: "string list" where
  "write_words = [''drop'', ''truncate'', ''delete'', ''update'', ''alter'', ''grant'', ''revoke'',
     ''reindex'', ''vacuum'', ''cluster'']"

definition statement_writes :: "string \<Rightarrow> bool" where
  "statement_writes statement =
     (let w = sql_words statement;
          writes = (case first_keyword w of None \<Rightarrow> False | Some i \<Rightarrow> w ! i \<in> set write_words);
          cte_write = get w 0 = Some ''with'' \<and> CHR '')'' \<in> set statement
            \<and> (case get (sql_words (last (split_on CHR '')'' statement))) 0 of
                 None \<Rightarrow> False | Some k \<Rightarrow> k \<in> set [''delete'', ''update'', ''insert''])
      in writes \<or> cte_write)"

definition sql_writes :: "string \<Rightarrow> bool" where
  "sql_writes text =
     (let lower = strip_sql_comments (to_lowercase text)
      in contains_any lower write_needles \<or> list_ex statement_writes (split_on CHR '';'' lower))"

definition change_needles :: "string list" where
  "change_needles = [''.insert'', ''.update'', ''.replace'', ''.createindex'', ''.createcollection'',
     ''.findoneandupdate'', ''.findoneandreplace'', ''.save('']"

definition change_words :: "string list" where
  "change_words = [''insert'', ''merge'', ''upsert'', ''replace'', ''create'', ''rename'', ''comment'',
     ''refresh'', ''call'', ''do'', ''exec'', ''execute'', ''load'', ''import'', ''attach'', ''detach'']"

definition statement_changes :: "string \<Rightarrow> bool" where
  "statement_changes statement =
     (let w = sql_words statement;
          first = word_at w (from_or_zero (first_keyword w));
          change = first \<in> set change_words;
          copy_in = first = ''copy'' \<and> contains_sub statement '' from ''
            \<and> \<not> contains_sub statement '' to '';
          pragma_set = first = ''pragma'' \<and> CHR ''='' \<in> set statement;
          nested = get w 0 = Some ''with''
            \<and> list_ex (\<lambda>part. case get (sql_words part) 0 of None \<Rightarrow> False
                | Some word \<Rightarrow> word \<in> set [''insert'', ''update'', ''delete'', ''merge''])
              (drop 1 (split_on CHR ''('' statement))
      in change \<or> copy_in \<or> pragma_set \<or> nested)"

definition sql_changes :: "string \<Rightarrow> bool" where
  "sql_changes text =
     (sql_writes text
      \<or> (let lower = strip_sql_comments (to_lowercase text)
         in contains_any lower change_needles \<or> list_ex statement_changes (split_on CHR '';'' lower)))"

definition sql_reads :: "string \<Rightarrow> bool" where
  "sql_reads text =
     ((case get (sql_words (strip_sql_comments text)) 0 of None \<Rightarrow> False
       | Some w \<Rightarrow> w \<in> set [''select'', ''with'', ''explain'', ''show''])
      \<and> \<not> sql_writes text \<and> \<not> sql_changes text)"

section \<open>The SQL of a command line\<close>

text \<open>The loop over the arguments after the program: whether \<open>query\<close> came, and the texts.\<close>

function sql_texts :: "bool \<Rightarrow> string list \<Rightarrow> string list \<Rightarrow> string list" where
  "sql_texts after_query texts [] = texts"
| "sql_texts after_query texts (arg # rest) =
     (let lower = to_lowercase arg
      in if lower \<in> set [''-c'', ''--command'', ''--execute'', ''--eval''] then
           (case rest of [] \<Rightarrow> texts
            | value # rest' \<Rightarrow> sql_texts after_query (texts @ [value]) rest')
         else if lower = ''-e'' then
           (case rest of [] \<Rightarrow> sql_texts after_query texts rest
            | value # rest' \<Rightarrow>
                if starts_with value ''-'' then sql_texts after_query texts rest
                else sql_texts after_query (texts @ [value]) rest')
         else
           (case find_map (strip_prefix arg) [''--command='', ''--execute='', ''--eval=''] of
              Some value \<Rightarrow> sql_texts after_query (texts @ [value]) rest
            | None \<Rightarrow>
                if after_query \<and> \<not> starts_with arg ''-'' then sql_texts False (texts @ [arg]) rest
                else if after_query \<and> lower \<in> set [''--output-format'', ''-o'', ''--output'',
                    ''--db-url'', ''--project-ref'', ''--workdir'', ''--schema'', ''-s''] then
                  sql_texts after_query texts (tl rest)
                else sql_texts (after_query \<or> lower = ''query'' \<and> texts = []) texts rest))"
  by pat_completeness auto
termination
  by (relation "measure (\<lambda>(_, _, args). length args)") auto

definition sql_argument :: "string list \<Rightarrow> string option" where
  "sql_argument argv =
     (let texts = sql_texts False [] (drop 1 argv)
      in if texts = [] then None else Some (join_with ('';'' @ [CHR 0x0A]) texts))"

section \<open>Reads of the schema\<close>

definition SCHEMA_META_COMMANDS :: "string list" where
  "SCHEMA_META_COMMANDS = map ((#) CHR 0x5C)
     [''d'', ''d+'', ''dt'', ''dt+'', ''di'', ''di+'', ''dv'', ''dv+'', ''dm'', ''dm+'', ''ds'', ''ds+'',
      ''df'', ''df+'', ''dn'', ''dn+'', ''dx'', ''dx+'', ''db'', ''db+'', ''l'', ''l+'', ''conninfo'']"

definition READ_FUNCTIONS :: "string list" where
  "READ_FUNCTIONS = [''count'', ''sum'', ''avg'', ''min'', ''max'', ''coalesce'', ''nullif'', ''lower'',
     ''upper'', ''length'', ''now'', ''date_trunc'', ''to_char'', ''extract'', ''cast'', ''version'',
     ''current_database'', ''current_schema'', ''current_user'', ''pg_size_pretty'',
     ''pg_database_size'', ''pg_relation_size'', ''pg_total_relation_size'']"

definition SQL_PAREN_KEYWORDS :: "string list" where
  "SQL_PAREN_KEYWORDS = [''in'', ''exists'', ''any'', ''all'', ''some'', ''over'', ''filter'',
     ''values'', ''as'', ''from'', ''join'', ''on'', ''where'', ''and'', ''or'', ''not'', ''select'',
     ''using'', ''lateral'', ''by'', ''interval'', ''explain'', ''analyze'', ''analyse'', ''verbose'',
     ''format'', ''costs'', ''buffers'', ''timing'']"

definition called_name :: "string \<Rightarrow> string" where
  "called_name before =
     rev (takeWhile (\<lambda>c. is_ascii_alphanumeric c \<or> c = CHR ''_'' \<or> c = CHR ''.'') (rev (trim_end before)))"

definition calls_read_functions_only :: "string \<Rightarrow> bool" where
  "calls_read_functions_only lower =
     list_all (\<lambda>i. let name = called_name (take i lower)
        in name = [] \<or> name \<in> set READ_FUNCTIONS \<or> name \<in> set SQL_PAREN_KEYWORDS)
      (filter (\<lambda>i. lower ! i = CHR ''('') [0..<length lower])"

definition MONGO_SCHEMA_METHODS :: "string list" where
  "MONGO_SCHEMA_METHODS = [''getcollectionnames()'', ''getcollectioninfos()'', ''getindexes()'',
     ''getindexkeys()'', ''stats()'', ''version()'', ''getname()'']"

definition show_listings :: "string list" where
  "show_listings = [''tables'', ''columns'', ''fields'', ''index'', ''indexes'', ''keys'', ''create'',
     ''databases'', ''schemas'', ''table'', ''collections'', ''dbs'', ''search_path'', ''server_version'']"

definition schema_statement :: "string \<Rightarrow> bool" where
  "schema_statement statement =
     (let lower = to_lowercase (trim statement)
      in case strip_prefix lower [CHR 0x5C] of
           Some rest \<Rightarrow> CHR 0x5C # word_at (split_whitespace rest) 0 \<in> set SCHEMA_META_COMMANDS
         | None \<Rightarrow>
             (case strip_prefix lower ''db.'' of
                Some rest \<Rightarrow>
                  list_all (\<lambda>c. is_ascii_alphanumeric c \<or> c \<in> set ''_.()'') rest
                  \<and> list_ex (ends_with rest) MONGO_SCHEMA_METHODS
                  \<and> length (filter ((=) CHR ''('') rest) = 1
              | None \<Rightarrow>
                  (let w = sql_words lower;
                       word = word_at w
                   in if word 0 = ''explain'' then sql_reads lower \<and> calls_read_functions_only lower
                      else if word 0 = ''show'' then
                        word 1 \<in> set show_listings \<or> (word 1 = ''full'' \<and> word 2 \<in> set show_listings)
                      else if word 0 = ''describe'' \<or> word 0 = ''desc'' then \<not> sql_changes lower
                      else if word 0 = ''select'' then
                        ''from'' \<notin> set w \<and> sql_reads lower \<and> calls_read_functions_only lower
                      else False)))"

definition statements_of :: "string \<Rightarrow> string list" where
  "statements_of text = split_when (\<lambda>c. c = CHR '';'' \<or> c = CHR 0x0A) text"

definition sql_schema_read :: "string \<Rightarrow> bool" where
  "sql_schema_read text =
     (let statements = filter (\<lambda>s. s \<noteq> []) (map trim (statements_of (strip_sql_comments text)))
      in statements \<noteq> [] \<and> list_all schema_statement statements)"

section \<open>Reads of a local database file\<close>

definition READ_PRAGMAS :: "string list" where
  "READ_PRAGMAS = [''integrity_check'', ''quick_check'', ''foreign_key_check'', ''foreign_key_list'',
     ''table_info'', ''table_xinfo'', ''table_list'', ''index_list'', ''index_info'', ''index_xinfo'',
     ''database_list'', ''collation_list'', ''function_list'', ''pragma_list'', ''compile_options'',
     ''user_version'', ''schema_version'', ''application_id'', ''page_count'', ''page_size'',
     ''freelist_count'', ''journal_mode'', ''encoding'']"

definition READ_DOT_COMMANDS :: "string list" where
  "READ_DOT_COMMANDS = [''.schema'', ''.fullschema'', ''.tables'', ''.indexes'', ''.indices'',
     ''.databases'', ''.dbinfo'', ''.show'', ''.headers'', ''.header'', ''.mode'', ''.width'']"

definition FILE_FUNCTIONS :: "string list" where
  "FILE_FUNCTIONS = [''readfile('', ''writefile('', ''edit('', ''load_extension('', ''fsdir('',
     ''sqlar_'', ''zipfile('']"

text \<open>\<open>trim_start_matches\<close> with a text that is not empty.\<close>

function strip_all :: "string \<Rightarrow> string \<Rightarrow> string" where
  "strip_all p s = (if p \<noteq> [] \<and> starts_with s p then strip_all p (drop (length p) s) else s)"
  by pat_completeness auto
termination
proof (relation "measure (\<lambda>(p, s). length s)", goal_cases)
  case (2 p s)
  then have "s \<noteq> []" by (cases s) (auto simp: starts_with_def)
  then show ?case using 2 by (cases p) auto
qed simp

declare strip_all.simps [simp del]

definition pragma_name :: "string \<Rightarrow> string" where
  "pragma_name lower =
     last (split_on CHR ''.''
       (concat (takeWhile (\<lambda>ch. \<not> is_whitespace ch \<and> ch \<noteq> ''('')
          (chars (trim_start (strip_all ''pragma'' lower))))))"

definition statement_reads :: "string \<Rightarrow> bool" where
  "statement_reads statement =
     (let lower = to_lowercase (trim statement)
      in if contains_any lower FILE_FUNCTIONS then False
         else if starts_with lower ''.'' then word_at (split_whitespace lower) 0 \<in> set READ_DOT_COMMANDS
         else
           (let first = get (sql_words lower) 0
            in if first = Some ''pragma'' then
                 CHR ''='' \<notin> set lower \<and> pragma_name lower \<in> set READ_PRAGMAS
               else if first = Some ''describe'' \<or> first = Some ''desc'' then \<not> sql_changes lower
               else sql_reads lower))"

text \<open>The loop over the arguments: the number of operands and the texts; \<open>None\<close> is a command
  that is not a read.\<close>

function plain_texts :: "nat \<Rightarrow> string list \<Rightarrow> string list \<Rightarrow> string list option" where
  "plain_texts operands texts [] = Some texts"
| "plain_texts operands texts (arg # rest) =
     (case strip_prefix arg ''-'' of
        Some option \<Rightarrow>
          (let name = to_lowercase (dropWhile ((=) CHR ''-'') option)
           in if name \<in> set [''cmd'', ''c'', ''s''] then
                (case rest of [] \<Rightarrow> None
                 | value # rest' \<Rightarrow> plain_texts operands (texts @ [value]) rest')
              else if name \<in> set [''init'', ''a'', ''archive'', ''append'', ''deserialize'', ''zip'',
                  ''safe''] then None
              else if name \<in> set [''separator'', ''newline'', ''nullvalue'', ''vfs'', ''maxsize'',
                  ''mmap'', ''lookaside'', ''pagecache'', ''heap''] then
                plain_texts operands texts (tl rest)
              else plain_texts operands texts rest)
      | None \<Rightarrow>
          plain_texts (operands + 1) (if 1 < operands + 1 then texts @ [arg] else texts) rest)"
  by pat_completeness auto
termination
  by (relation "measure (\<lambda>(_, _, args). length args)") auto

definition plain_sql_reads :: "string list \<Rightarrow> bool" where
  "plain_sql_reads argv =
     (case plain_texts 0 [] (drop 1 argv) of
        None \<Rightarrow> False
      | Some texts \<Rightarrow>
          texts \<noteq> []
          \<and> list_all (\<lambda>text. list_all statement_reads
                (filter (\<lambda>s. trim s \<noteq> []) (statements_of text)) \<and> trim text \<noteq> []) texts)"

section \<open>Reads of personal data\<close>

definition PEOPLE_WORDS :: "string list" where
  "PEOPLE_WORDS =
    [''user'', ''users'', ''customer'', ''customers'', ''account'', ''accounts'', ''member'',
     ''members'', ''payment'', ''payments'', ''person'', ''persons'', ''people'', ''contact'',
     ''contacts'', ''subscriber'', ''subscribers'', ''employee'', ''employees'', ''patient'',
     ''patients'', ''client'', ''clients'', ''profile'', ''profiles'']"

definition CONTACT_PARTS :: "string list" where
  "CONTACT_PARTS =
    [''email'', ''emails'', ''phone'', ''phones'', ''mobile'', ''telephone'', ''address'',
     ''addresses'', ''street'', ''postcode'', ''zipcode'', ''firstname'', ''lastname'',
     ''fullname'', ''surname'', ''iban'', ''card'', ''cardholder'', ''last4'', ''cvc'', ''cvv'',
     ''ssn'', ''dob'', ''birthdate'', ''birthday'', ''passport'']"

definition CONTACT_NAMES :: "string list" where
  "CONTACT_NAMES =
    [''first_name'', ''last_name'', ''full_name'', ''given_name'', ''family_name'',
     ''account_number'', ''routing_number'', ''sort_code'', ''tax_id'', ''national_id'',
     ''date_of_birth'', ''billing_details'', ''shipping_details'']"

definition SELECT_PARAMETERS :: "string list" where
  "SELECT_PARAMETERS =
    [''select'', ''$select'', ''fields'', ''properties'', ''attributes'']"

definition name_parts :: "string \<Rightarrow> string list" where
  "name_parts text =
     map to_lowercase (filter (\<lambda>p. p \<noteq> []) (split_when (\<lambda>c. \<not> is_ascii_alphanumeric c) text))"

definition names_people :: "string \<Rightarrow> bool" where
  "names_people text = list_ex (\<lambda>part. part \<in> set PEOPLE_WORDS) (name_parts text)"

definition names_contact :: "string \<Rightarrow> bool" where
  "names_contact text =
     (let lower = to_lowercase text
      in list_ex (\<lambda>name. name \<in> set CONTACT_NAMES)
           (split_when (\<lambda>c. \<not> (is_ascii_alphanumeric c \<or> c = CHR ''_'')) lower)
         \<or> list_ex (\<lambda>part. part \<in> set CONTACT_PARTS \<or> ends_with part ''email'' \<or> ends_with part ''phone'')
             (name_parts lower))"

text \<open>The loop of \<open>sql_tokens\<close>: the word so far, and the characters that are left.\<close>

fun token_loop :: "string \<Rightarrow> string \<Rightarrow> string list" where
  "token_loop word [] = (if word = [] then [] else [word])"
| "token_loop word (c # cs) =
     (if is_ascii_alphanumeric c \<or> c \<in> set ''_.*$'' then token_loop (word @ [ascii_lower c]) cs
      else (if word = [] then [] else [word])
        @ (if c \<in> set ''(),;'' then [[c]] else []) @ token_loop [] cs)"

definition sql_tokens :: "string \<Rightarrow> string list" where
  "sql_tokens = token_loop []"

definition FROM_END :: "string list" where
  "FROM_END =
    [''where'', ''group'', ''order'', ''limit'', ''having'', ''union'', ''except'',
     ''intersect'', ''on'', ''using'', ''offset'', ''fetch'', ''window'', ''for'', ''returning'',
     '';'']"

text \<open>
  The select list up to the \<open>FROM\<close> at the same depth: the calls that are open, the token
  before, whether \<open>*\<close> and a contact column came; the rest starts at the token that ends the list.
\<close>

fun select_list ::
    "string list \<Rightarrow> string \<Rightarrow> bool \<Rightarrow> bool \<Rightarrow> string list \<Rightarrow> bool \<times> bool \<times> string list" where
  "select_list calls before star contact [] = (star, contact, [])"
| "select_list calls before star contact (token # rest) =
     (if token = ''('' then select_list (before # calls) token star contact rest
      else if token = '')'' then
        (if calls = [] then (star, contact, token # rest)
         else select_list (tl calls) token star contact rest)
      else if (token = ''from'' \<or> token = '';'') \<and> calls = [] then (star, contact, token # rest)
      else select_list calls token
        (star \<or> calls = [] \<and> (token = ''*'' \<or> ends_with token ''.*''))
        (contact \<or> ''count'' \<notin> set calls \<and> names_contact token) rest)"

lemma length_select_list:
  "select_list calls before star contact ts = (s, c, rest) \<Longrightarrow> length rest \<le> length ts"
  by (induction calls before star contact ts rule: select_list.induct) (auto split: if_splits)

text \<open>The tables of a \<open>FROM\<close>: the depth, and whether the next word is a table.\<close>

fun table_list :: "nat \<Rightarrow> bool \<Rightarrow> string list \<Rightarrow> bool" where
  "table_list depth expected [] = False"
| "table_list depth expected (token # rest) =
     (if token = ''('' then table_list (depth + 1) expected rest
      else if token = '')'' then (if depth = 0 then False else table_list (depth - 1) expected rest)
      else if depth = 0 \<and> token \<in> set FROM_END then False
      else if depth = 0 \<and> (token = '','' \<or> token = ''join'') then table_list depth True rest
      else if depth = 0 \<and> expected then names_people token \<or> table_list depth False rest
      else table_list depth expected rest)"

function personal_select :: "string list \<Rightarrow> bool" where
  "personal_select [] = False"
| "personal_select (token # rest) =
     (if token \<noteq> ''select'' then personal_select rest
      else (case select_list [] token False False rest of (star, contact, next) \<Rightarrow>
        (let people = (case next of [] \<Rightarrow> False
             | t # after \<Rightarrow> t = ''from'' \<and> table_list 0 True after)
         in if people \<and> (star \<or> contact) then True else personal_select next)))"
  by pat_completeness auto
termination
  by (relation "measure length") (auto dest!: length_select_list [OF sym])

definition sql_personal_read :: "string \<Rightarrow> bool" where
  "sql_personal_read text = personal_select (sql_tokens (strip_sql_comments text))"

text \<open>The texts after each place of a text, \<open>match_indices\<close>, for a text that does not overlap itself.\<close>

fun after_each :: "string \<Rightarrow> string \<Rightarrow> string list" where
  "after_each p [] = []"
| "after_each p (c # cs) =
     (case strip_prefix (c # cs) p of None \<Rightarrow> after_each p cs | Some rest \<Rightarrow> rest # after_each p cs)"

definition trim_chars :: "char list \<Rightarrow> string \<Rightarrow> string" where
  "trim_chars cs s =
     rev (dropWhile (\<lambda>c. c \<in> set cs) (rev (dropWhile (\<lambda>c. c \<in> set cs) s)))"

text \<open>The arguments of a call up to the parenthesis that closes it, and its commas at the top.\<close>

fun call_args :: "nat \<Rightarrow> string \<Rightarrow> string" where
  "call_args depth [] = []"
| "call_args depth (c # cs) =
     (if c \<in> set ''({['' then c # call_args (depth + 1) cs
      else if c = CHR '')'' \<and> depth = 0 then []
      else if c \<in> set '')}]'' then c # call_args (depth - 1) cs
      else c # call_args depth cs)"

fun top_level_commas :: "nat \<Rightarrow> string \<Rightarrow> nat" where
  "top_level_commas depth [] = 0"
| "top_level_commas depth (c # cs) =
     (let depth' = (if c \<in> set ''({['' then depth + 1 else if c \<in> set '')}]'' then depth - 1 else depth)
      in (if c = CHR '','' \<and> depth' = 0 then 1 else 0) + top_level_commas depth' cs)"

definition mongo_collection :: "string \<Rightarrow> (string \<times> string) option" where
  "mongo_collection rest =
     (case strip_prefix rest ''getcollection('' of
        Some inner \<Rightarrow>
          map_option (\<lambda>(name, after). (trim_chars [CHR 0x22, CHR 0x27, CHR '' ''] name, after))
            (split_once CHR '')'' inner)
      | None \<Rightarrow>
          (let name = takeWhile (\<lambda>c. is_ascii_alphanumeric c \<or> c = CHR ''_'') rest
           in Some (name, drop (length name) rest)))"

definition mongo_call_reads :: "string \<Rightarrow> bool" where
  "mongo_call_reads rest =
     (case mongo_collection rest of None \<Rightarrow> False
      | Some (collection, after) \<Rightarrow>
          if \<not> names_people collection then False
          else (case strip_prefix after ''.'' of None \<Rightarrow> False
            | Some call \<Rightarrow> (case split_once CHR ''('' call of None \<Rightarrow> False
              | Some (method, tail) \<Rightarrow>
                  (let args = call_args 0 tail
                   in if method = ''find'' \<or> method = ''findone'' then
                        names_contact args \<or> top_level_commas 0 args = 0
                      else if method = ''aggregate'' then
                        names_contact args
                        \<or> \<not> contains_any args [''$project'', ''$group'', ''$count'']
                      else if method = ''distinct'' then names_contact args
                      else False))))"

definition mongo_personal_read :: "string \<Rightarrow> bool" where
  "mongo_personal_read text = list_ex mongo_call_reads (after_each ''db.'' (to_lowercase text))"

definition or_else :: "'a option \<Rightarrow> 'a option \<Rightarrow> 'a option" where
  "or_else x y = (case x of None \<Rightarrow> y | Some v \<Rightarrow> Some v)"

definition is_person :: "string \<Rightarrow> bool" where
  "is_person part \<longleftrightarrow> part \<in> set PEOPLE_WORDS"

definition url_selects_contact :: "string \<Rightarrow> bool" where
  "url_selects_contact arg =
     (let lower = to_lowercase arg
      in case or_else (strip_prefix lower ''https://'') (strip_prefix lower ''http://'') of
           None \<Rightarrow> False
         | Some rest \<Rightarrow>
             (let (path, query) = (case split_once CHR ''?'' rest of None \<Rightarrow> (rest, []) | Some pq \<Rightarrow> pq);
                  parts = name_parts (case split_once CHR ''/'' path of None \<Rightarrow> [] | Some (_, p) \<Rightarrow> p)
              in case position is_person parts of
                   None \<Rightarrow> False
                 | Some at \<Rightarrow>
                     list_ex names_contact (drop (at + 1) parts)
                     \<or> list_ex (\<lambda>pair. case split_once CHR ''='' pair of None \<Rightarrow> False
                           | Some (name, v) \<Rightarrow> name \<in> set SELECT_PARAMETERS \<and> names_contact v)
                         (split_on CHR ''&'' query)))"

end
