(* ===== verification/SqlSafety.thy ===== *)
theory SqlSafety
  imports SqlReads
begin

text \<open>
  What the readers of SQL text promise: comments change no answer, and a text that they call a
  read of the schema destroys nothing. The last section shows where a comment sign inside a
  quoted name hides a statement.
\<close>

section \<open>Lowercase ASCII text\<close>

definition is_ascii :: "char \<Rightarrow> bool" where
  "is_ascii c \<longleftrightarrow> byte c < 128"

lemma chars_of_ascii: "list_all is_ascii s \<Longrightarrow> chars s = map (\<lambda>c. [c]) s"
  by (induction s) (auto simp: is_ascii_def char_len_def)

lemma lowercase_of_ascii: "list_all is_ascii s \<Longrightarrow> to_lowercase s = map ascii_lower s"
proof -
  assume "list_all is_ascii s"
  then have "to_lowercase s = concat (map (\<lambda>c. lower_char [c]) s)"
    by (simp add: to_lowercase_def chars_of_ascii comp_def)
  then show ?thesis by (simp add: lower_char_def concat_map_singleton)
qed

lemma is_ascii_lower_iff [simp]: "is_ascii (ascii_lower c) \<longleftrightarrow> is_ascii c"
  by (auto simp: is_ascii_def ascii_lower_def is_ascii_upper_def)

lemma list_all_ascii_lower [simp]: "list_all is_ascii (map ascii_lower s) \<longleftrightarrow> list_all is_ascii s"
  by (simp add: list_all_iff)

lemma ascii_lower_eq_sign:
  assumes "\<not> is_ascii_alphanumeric d"
  shows "ascii_lower c = d \<longleftrightarrow> c = d"
  using assms
  by (auto simp: ascii_lower_def is_ascii_upper_def is_ascii_lower_def is_ascii_alphanumeric_def)

lemma ascii_lower_signs [simp]:
  "ascii_lower c = CHR 0x27 \<longleftrightarrow> c = CHR 0x27"
  "ascii_lower c = CHR ''-'' \<longleftrightarrow> c = CHR ''-''"
  "ascii_lower c = CHR ''/'' \<longleftrightarrow> c = CHR ''/''"
  "ascii_lower c = CHR ''*'' \<longleftrightarrow> c = CHR ''*''"
  "ascii_lower c = CHR 0x0A \<longleftrightarrow> c = CHR 0x0A"
  "ascii_lower c = CHR '';'' \<longleftrightarrow> c = CHR '';''"
  by (rule ascii_lower_eq_sign; code_simp)+

lemma ascii_lower_fixed [simp]:
  "ascii_lower CHR 0x27 = CHR 0x27" "ascii_lower CHR ''-'' = CHR ''-''"
  "ascii_lower CHR ''/'' = CHR ''/''" "ascii_lower CHR ''*'' = CHR ''*''"
  "ascii_lower CHR 0x0A = CHR 0x0A" "ascii_lower CHR '' '' = CHR '' ''"
  by code_simp+

lemma starts_with_sign: "starts_with cs [d] \<longleftrightarrow> cs \<noteq> [] \<and> hd cs = d"
  by (cases cs) (auto simp: starts_with_def)

lemma after_comment_lower:
  "after_comment (ascii_lower p) (map ascii_lower cs) = map ascii_lower (after_comment p cs)"
  by (induction p cs rule: after_comment.induct) auto

lemma dropWhile_line_lower:
  "dropWhile (\<lambda>c. c \<noteq> CHR 0x0A) (map ascii_lower cs) = map ascii_lower (dropWhile (\<lambda>c. c \<noteq> CHR 0x0A) cs)"
  by (induction cs) auto

lemma strip_comments_lower:
  "strip_comments q (map ascii_lower s) = map ascii_lower (strip_comments q s)"
proof (induction q s rule: strip_comments.induct)
  case (2 quoted c cs)
  have line: ?case if c: "c = CHR ''-''" "\<not> quoted" "starts_with cs ''-''"
  proof -
    have "strip_comments quoted (map ascii_lower (c # cs)) =
        (case map ascii_lower (dropWhile (\<lambda>c. c \<noteq> CHR 0x0A) cs) of
           [] \<Rightarrow> [] | n # rest \<Rightarrow> n # strip_comments False rest)"
      using c by (simp add: starts_with_sign hd_map dropWhile_line_lower)
    also have "\<dots> = map ascii_lower (case dropWhile (\<lambda>c. c \<noteq> CHR 0x0A) cs of
           [] \<Rightarrow> [] | n # rest \<Rightarrow> n # strip_comments False rest)"
    proof (cases "dropWhile (\<lambda>c. c \<noteq> CHR 0x0A) cs")
      case (Cons n rest)
      have "c \<noteq> CHR 0x27" using c by simp
      from 2(3) [OF c(2) this _ Cons] c show ?thesis by (simp add: Cons)
    qed (simp del: dropWhile_eq_Nil_conv)
    finally show ?thesis using c by simp
  qed
  have block: "c = CHR ''/'' \<Longrightarrow> \<not> quoted \<Longrightarrow> starts_with cs ''*'' \<Longrightarrow> ?case"
    using 2(4) after_comment_lower [of "CHR '' ''" "tl cs"]
    by (simp add: starts_with_sign hd_map map_tl [symmetric])
  have quoted: "quoted \<Longrightarrow> ?case" using 2(1) by simp
  have opens: "c = CHR 0x27 \<Longrightarrow> \<not> quoted \<Longrightarrow> ?case" using 2(2) by simp
  have other: "\<not> quoted \<Longrightarrow> c \<noteq> CHR 0x27 \<Longrightarrow> \<not> (c = CHR ''-'' \<and> starts_with cs ''-'')
      \<Longrightarrow> \<not> (c = CHR ''/'' \<and> starts_with cs ''*'') \<Longrightarrow> ?case"
    using 2(5) by (auto simp: starts_with_sign hd_map)
  show ?case using line block quoted opens other by blast
qed simp

section \<open>Comments\<close>

text \<open>
  What comments are, as the databases read them and without the scanner of the code: a relation
  between a text and what is left of it. Text in single quotes stays, also when its quote is never
  closed. A line comment goes up to its line break, which stays, or to the end of the text. A block
  comment goes up to the first end sign after it, or to the end of the text, and a blank stands in
  its place. Every other character stays.
\<close>

inductive commented :: "string \<Rightarrow> string \<Rightarrow> bool" where
  empty: "commented [] []"
| other: "c \<noteq> CHR 0x27 \<Longrightarrow> \<not> starts_with (c # s) ''--'' \<Longrightarrow> \<not> starts_with (c # s) ''/*''
    \<Longrightarrow> commented s b \<Longrightarrow> commented (c # s) (c # b)"
| quoted: "CHR 0x27 \<notin> set q \<Longrightarrow> commented s b
    \<Longrightarrow> commented (CHR 0x27 # q @ CHR 0x27 # s) (CHR 0x27 # q @ CHR 0x27 # b)"
| open_quote: "CHR 0x27 \<notin> set q \<Longrightarrow> commented (CHR 0x27 # q) (CHR 0x27 # q)"
| line: "CHR 0x0A \<notin> set n \<Longrightarrow> commented s b
    \<Longrightarrow> commented (''--'' @ n @ CHR 0x0A # s) (CHR 0x0A # b)"
| last_line: "CHR 0x0A \<notin> set n \<Longrightarrow> commented (''--'' @ n) []"
| block: "\<not> contains_sub (n @ ''*'') ''*/'' \<Longrightarrow> commented s b
    \<Longrightarrow> commented (''/*'' @ n @ ''*/'' @ s) (CHR '' '' # b)"
| open_block: "\<not> contains_sub n ''*/'' \<Longrightarrow> commented (''/*'' @ n) '' ''"

lemma two_signs: "starts_with s [a, b] \<longleftrightarrow> (\<exists>r. s = a # b # r)"
  by (cases s; cases "tl s") (auto simp: starts_with_def)

lemma no_end_sign:
  "\<not> contains_sub (c # s) ''*/'' \<longleftrightarrow>
     \<not> (c = CHR ''*'' \<and> starts_with s ''/'') \<and> \<not> contains_sub s ''*/''"
  by (auto simp: contains_Cons starts_with_def)

lemma after_closed_note:
  "\<not> contains_sub (n @ ''*'') ''*/'' \<Longrightarrow> \<not> (p = CHR ''*'' \<and> starts_with (n @ ''*'') ''/'')
    \<Longrightarrow> after_comment p (n @ ''*/'' @ r) = r"
proof (induction n arbitrary: p)
  case (Cons c n)
  then show ?case
    by (auto simp: no_end_sign starts_with_sign)
qed auto

lemma after_open_note:
  "\<not> contains_sub n ''*/'' \<Longrightarrow> \<not> (p = CHR ''*'' \<and> starts_with n ''/'') \<Longrightarrow> after_comment p n = []"
proof (induction n arbitrary: p)
  case (Cons c n)
  then show ?case
    by (auto simp: no_end_sign starts_with_sign)
qed auto

lemma strip_quoted:
  "CHR 0x27 \<notin> set s \<Longrightarrow> strip_comments True (s @ CHR 0x27 # r) = s @ CHR 0x27 # strip_comments False r"
  by (induction s) auto

lemma strip_open_quote: "CHR 0x27 \<notin> set s \<Longrightarrow> strip_comments True s = s"
  by (induction s) auto

lemma drop_line: "CHR 0x0A \<notin> set s \<Longrightarrow> dropWhile (\<lambda>c. c \<noteq> CHR 0x0A) (s @ CHR 0x0A # r) = CHR 0x0A # r"
  by (induction s) auto

lemma drop_last_line: "CHR 0x0A \<notin> set s \<Longrightarrow> dropWhile (\<lambda>c. c \<noteq> CHR 0x0A) s = []"
  by (simp add: dropWhile_eq_Nil_conv) metis

text \<open>The scanner of the code leaves what the relation leaves, and every text has such a rest.\<close>

lemma strip_commented: "commented s b \<Longrightarrow> strip_sql_comments s = b"
  unfolding strip_sql_comments_def
proof (induction rule: commented.induct)
  case (other c s b)
  then show ?case
    by (auto simp: two_signs starts_with_sign neq_Nil_conv)
next
  case (line n s b)
  then show ?case
    using drop_line [of n s] by (simp add: starts_with_sign)
next
  case (last_line n)
  then show ?case
    using drop_last_line [of n] by (simp add: starts_with_sign del: dropWhile_eq_Nil_conv)
next
  case (block n s b)
  then show ?case
    using after_closed_note [of n "CHR '' ''" s] by (simp add: starts_with_sign)
next
  case (open_block n)
  then show ?case
    using after_open_note [of n "CHR '' ''"] by (simp add: starts_with_sign)
qed (simp_all add: strip_quoted strip_open_quote)

lemma first_note_end:
  "contains_sub s ''*/'' \<Longrightarrow> \<exists>n r. s = n @ ''*/'' @ r \<and> \<not> contains_sub (n @ ''*'') ''*/''"
proof (induction s)
  case (Cons c s)
  show ?case
  proof (cases "c = CHR ''*'' \<and> starts_with s ''/''")
    case True
    then have "c # s = [] @ ''*/'' @ tl s"
      by (cases s) (auto simp: starts_with_sign)
    moreover have "\<not> contains_sub ([] @ ''*'') ''*/''"
      by code_simp
    ultimately have "c # s = [] @ ''*/'' @ tl s" "\<not> contains_sub ([] @ ''*'') ''*/''"
      by blast+
    then show ?thesis by blast
  next
    case False
    with Cons obtain n r where n: "s = n @ ''*/'' @ r" "\<not> contains_sub (n @ ''*'') ''*/''"
      using no_end_sign by blast
    moreover have "\<not> (c = CHR ''*'' \<and> starts_with (n @ ''*'') ''/'')"
      using False n(1) by (cases n) (auto simp: starts_with_sign)
    ultimately have "c # s = (c # n) @ ''*/'' @ r" "\<not> contains_sub ((c # n) @ ''*'') ''*/''"
      by (simp_all add: no_end_sign)
    then show ?thesis by blast
  qed
qed (simp add: contains_Nil)

lemma commented_total: "\<exists>b. commented s b"
proof (induction "length s" arbitrary: s rule: less_induct)
  case less
  show ?case
  proof (cases s)
    case Nil
    then show ?thesis using commented.empty by blast
  next
    case (Cons c t)
    consider (quote) "c = CHR 0x27" | (line) n where "s = ''--'' @ n" | (block) n where "s = ''/*'' @ n"
      | (other) "c \<noteq> CHR 0x27" "\<not> starts_with s ''--''" "\<not> starts_with s ''/*''"
      by (auto simp: two_signs)
    then show ?thesis
    proof cases
      case quote
      show ?thesis
      proof (cases "CHR 0x27 \<in> set t")
        case True
        then obtain q r where "t = q @ CHR 0x27 # r" "CHR 0x27 \<notin> set q"
          by (metis split_list_first)
        with less [of r] show ?thesis
          unfolding Cons quote by (auto intro: commented.quoted)
      qed (auto simp: Cons quote intro: commented.open_quote)
    next
      case line
      show ?thesis
      proof (cases "CHR 0x0A \<in> set n")
        case True
        then obtain m r where "n = m @ CHR 0x0A # r" "CHR 0x0A \<notin> set m"
          by (metis split_list_first)
        moreover from this less [of r] line obtain b where "commented r b" by auto
        ultimately show ?thesis
          using commented.line unfolding line by metis
      qed (use commented.last_line [of n] line in blast)
    next
      case block
      show ?thesis
      proof (cases "contains_sub n ''*/''")
        case True
        with first_note_end obtain m r where m: "n = m @ ''*/'' @ r" "\<not> contains_sub (m @ ''*'') ''*/''"
          by blast
        with less [of r] block obtain b where "commented r b" by auto
        from commented.block [OF m(2) this] show ?thesis
          unfolding block m(1) by blast
      qed (use commented.open_block [of n] block in blast)
    next
      case other
      with less [of t] Cons show ?thesis
        by (auto dest: commented.other)
    qed
  qed
qed

text \<open>What is left has no comments: nothing that leaves the text brings two signs together.\<close>

lemma commented_head:
  "commented s (d # b) \<Longrightarrow> d = CHR ''-'' \<or> d = CHR ''*'' \<Longrightarrow> \<exists>t. s = d # t"
  by (cases rule: commented.cases) auto

lemma commented_rest: "commented s b \<Longrightarrow> commented b b"
proof (induction rule: commented.induct)
  case (other c s b)
  have "\<not> starts_with (c # b) ''--''" "\<not> starts_with (c # b) ''/*''"
    using other(2,3,4) commented_head [of s] by (auto simp: two_signs)
  with other show ?case
    by (intro commented.other)
next
  case (line n s b)
  then show ?case
    by (intro commented.other) (auto simp: two_signs)
next
  case (block n s b)
  then show ?case
    by (intro commented.other) (auto simp: two_signs)
next
  case (open_block n)
  show ?case
    by (intro commented.other commented.empty) (auto simp: two_signs)
qed (auto intro: commented.intros)

lemma strip_lower_text:
  assumes "commented s b" and "list_all is_ascii s"
  shows "strip_sql_comments (to_lowercase s) = strip_sql_comments (to_lowercase b)"
proof -
  have "list_all is_ascii b"
    using assms(1,2) by (induction rule: commented.induct) (auto simp: is_ascii_def byte_def)
  then show ?thesis
    using strip_commented [OF assms(1)] strip_commented [OF commented_rest [OF assms(1)]] assms(2)
    by (simp add: lowercase_of_ascii strip_sql_comments_def strip_comments_lower)
qed

text \<open>C34: Comments change no answer of the SQL readers on an ASCII text: the text and what is left
  of it without its comments destroy, write, change and read the same. Every text has such a rest
  (\<open>commented_total\<close>): a line comment may end the text, a block comment or a quote may stay open. A
  comment sign inside single quotes is text, not a comment.\<close>

theorem comments_hide_nothing:
  assumes "commented s b" and "list_all is_ascii s"
  shows "sql_destroys s = sql_destroys b \<and> sql_writes s = sql_writes b
    \<and> sql_changes s = sql_changes b \<and> sql_reads s = sql_reads b
    \<and> sql_schema_read s = sql_schema_read b \<and> sql_personal_read s = sql_personal_read b"
proof -
  have "sql_writes s = sql_writes b"
    by (simp add: sql_writes_def strip_lower_text [OF assms])
  moreover from this have "sql_changes s = sql_changes b"
    by (simp add: sql_changes_def strip_lower_text [OF assms])
  moreover have "strip_sql_comments s = strip_sql_comments b"
    using strip_commented [OF assms(1)] strip_commented [OF commented_rest [OF assms(1)]] by simp
  ultimately show ?thesis
    by (simp add: sql_destroys_def sql_reads_def sql_schema_read_def sql_personal_read_def
        strip_lower_text [OF assms])
qed

text \<open>The example: a comment before and inside the statement, a comment sign in a quoted name, and
  a note at the end of the text without a line break.\<close>

definition hidden_delete :: string where
  "hidden_delete = ''-- note'' @ [CHR 0x0A] @ ''/* x */DELETE from sessions where n = ''
     @ [CHR 0x27] @ ''--'' @ [CHR 0x27] @ ''; -- done''"

definition shown_delete :: string where
  "shown_delete = [CHR 0x0A] @ '' DELETE from sessions where n = ''
     @ [CHR 0x27] @ ''--'' @ [CHR 0x27] @ ''; ''"

lemma hidden_delete_commented: "commented hidden_delete shown_delete"
proof -
  obtain b where b: "commented hidden_delete b"
    using commented_total by blast
  moreover have "strip_sql_comments hidden_delete = shown_delete"
    by code_simp
  ultimately show ?thesis
    using strip_commented [OF b] by simp
qed

lemma comments_hide_nothing_witness:
  "sql_destroys hidden_delete = sql_destroys shown_delete \<and> sql_destroys shown_delete"
proof -
  have "list_all is_ascii hidden_delete"
    by code_simp
  from comments_hide_nothing [OF hidden_delete_commented this]
  have "sql_destroys hidden_delete = sql_destroys shown_delete" by (rule conjunct1)
  moreover have "sql_destroys shown_delete" by code_simp
  ultimately show ?thesis ..
qed

section \<open>Reads of the schema\<close>

text \<open>The words of lowercase text, and the first word that is not a lead word.\<close>

abbreviation sign :: "char \<Rightarrow> bool" where
  "sign c \<equiv> \<not> is_ascii_alphanumeric c"

definition word_list :: "string \<Rightarrow> string list" where
  "word_list s = filter (\<lambda>w. w \<noteq> []) (split_when sign (map ascii_lower s))"

definition keyword :: "string list \<Rightarrow> string option" where
  "keyword = List.find (\<lambda>w. w \<notin> set lead_words)"

definition change_keywords :: "string set" where
  "change_keywords = set write_words \<union> set change_words"

lemma sql_words_ascii: "list_all is_ascii s \<Longrightarrow> sql_words s = word_list s"
  by (simp add: sql_words_def word_list_def lowercase_of_ascii)

lemma ascii_lower_lower [simp]: "map ascii_lower (map ascii_lower s) = map ascii_lower s"
  by simp

lemma word_list_lower [simp]: "word_list (map ascii_lower s) = word_list s"
  by (simp add: word_list_def del: map_map)

lemma split_when_ne [simp]: "split_when p s \<noteq> []"
  by (induction s) (auto split: list.splits)

lemma split_when_append:
  "p c \<Longrightarrow> split_when p (a @ c # b) = split_when p a @ split_when p b"
  by (induction a) (auto split: list.splits)

lemma alphanumeric_lower [simp]: "is_ascii_alphanumeric (ascii_lower c) = is_ascii_alphanumeric c"
  by (auto simp: ascii_lower_def is_ascii_upper_def is_ascii_lower_def is_ascii_alphanumeric_def
      is_ascii_digit_def)

lemma word_list_append: "sign c \<Longrightarrow> word_list (a @ c # b) = word_list a @ word_list b"
  by (simp add: word_list_def split_when_append)

lemma word_list_Nil [simp]: "word_list [] = []"
  by (simp add: word_list_def)

lemma keyword_append:
  "keyword (a @ b) = (case keyword a of None \<Rightarrow> keyword b | Some x \<Rightarrow> Some x)"
  by (induction a) (auto simp: keyword_def)

lemma keyword_concat: "keyword (concat ws) = Some x \<Longrightarrow> \<exists>w\<in>set ws. keyword w = Some x"
  by (induction ws) (auto simp: keyword_append split: option.splits, simp add: keyword_def)

lemma keyword_position: "keyword w = map_option ((!) w) (first_keyword w)"
  by (induction w) (auto simp: keyword_def first_keyword_def option.map_comp comp_def)

text \<open>A text with white space around it has the same words.\<close>

lemma white_sign: "is_ascii c \<Longrightarrow> is_whitespace [c] \<Longrightarrow> sign c"
  by (auto simp: is_whitespace_def is_ascii_alphanumeric_def is_ascii_upper_def is_ascii_lower_def
      is_ascii_digit_def)

definition white :: "char \<Rightarrow> bool" where
  "white c = is_whitespace [c]"

lemma dropWhile_singles: "dropWhile is_whitespace (map (\<lambda>c. [c]) s) = map (\<lambda>c. [c]) (dropWhile white s)"
  by (induction s) (auto simp: white_def)

lemma trim_ascii:
  assumes "list_all is_ascii s"
  shows "trim s = rev (dropWhile white (rev (dropWhile white s)))"
proof -
  have "trim s = concat (map (\<lambda>c. [c]) (rev (dropWhile white (rev (dropWhile white s)))))"
    by (simp only: trim_def chars_of_ascii [OF assms] dropWhile_singles rev_map)
  then show ?thesis by (simp add: concat_map_singleton)
qed

lemma word_list_signs: "\<forall>c\<in>set a. sign c \<Longrightarrow> word_list (a @ b) = word_list b"
proof (induction a)
  case (Cons c a)
  then show ?case using word_list_append [of c "[]" "a @ b"] by simp
qed simp

lemma word_list_signs_end: "\<forall>c\<in>set b. sign c \<Longrightarrow> word_list (a @ b) = word_list a"
proof (cases b)
  case (Cons c b')
  assume "\<forall>c\<in>set b. sign c"
  then show ?thesis using word_list_append [of c a b'] word_list_signs [of b' "[]"] Cons by simp
qed simp

lemma trim_parts:
  assumes "list_all is_ascii s"
  shows "\<exists>a b. s = a @ trim s @ b \<and> (\<forall>c\<in>set a \<union> set b. sign c)"
proof -
  let ?m = "dropWhile white s"
  have a: "s = takeWhile white s @ ?m" by simp
  have b: "?m = rev (dropWhile white (rev ?m)) @ rev (takeWhile white (rev ?m))"
    by (metis rev_append rev_rev_ident takeWhile_dropWhile_id)
  have "sign c" if "c \<in> set (takeWhile white s) \<union> set (rev (takeWhile white (rev ?m)))" for c
  proof -
    have "white c" using that by (auto dest: set_takeWhileD)
    moreover have "c \<in> set s" using that by (auto dest!: set_takeWhileD set_dropWhileD)
    ultimately show ?thesis using assms white_sign by (auto simp: white_def list_all_iff)
  qed
  moreover have "s = takeWhile white s @ trim s @ rev (takeWhile white (rev ?m))"
    using a b unfolding trim_ascii [OF assms] by metis
  ultimately show ?thesis by blast
qed

lemma word_list_trim: "list_all is_ascii s \<Longrightarrow> word_list (trim s) = word_list s"
  using trim_parts [of s] word_list_signs word_list_signs_end
  by (metis UnCI append_assoc)

text \<open>Texts that \<open>strip_sql_comments\<close> leaves as they are.\<close>

fun no_comment :: "string \<Rightarrow> bool" where
  "no_comment (c # d # s) =
     (\<not> (c = CHR ''-'' \<and> d = CHR ''-'') \<and> \<not> (c = CHR ''/'' \<and> d = CHR ''*'') \<and> no_comment (d # s))"
| "no_comment s = True"

lemma no_comment_strip: "no_comment s \<Longrightarrow> strip_comments q s = s"
  by (induction s arbitrary: q rule: no_comment.induct) (auto simp: starts_with_sign)

lemma no_comment_tail: "no_comment (c # s) \<Longrightarrow> no_comment s"
  by (cases s) auto

lemma no_comment_suffix: "no_comment (a @ s) \<Longrightarrow> no_comment s"
  by (induction a) (auto dest: no_comment_tail)

lemma no_comment_prefix: "no_comment (s @ b) \<Longrightarrow> no_comment s"
  by (induction s rule: no_comment.induct) auto

lemma no_comment_lower [simp]: "no_comment (map ascii_lower s) = no_comment s"
  by (induction s rule: no_comment.induct) auto

lemma contains_sub_Cons:
  "contains_sub (c # s) p \<longleftrightarrow> starts_with (c # s) p \<or> contains_sub s p"
  by (simp add: contains_sub_def)

lemma no_comment_iff: "no_comment s \<longleftrightarrow> \<not> contains_sub s ''--'' \<and> \<not> contains_sub s ''/*''"
  by (induction s rule: no_comment.induct)
    (auto simp: contains_sub_Cons starts_with_def contains_sub_def)

text \<open>The parts of a text between separators are pieces of the text.\<close>

lemma split_when_infix: "q \<in> set (split_when p s) \<Longrightarrow> \<exists>a b. s = a @ q @ b"
proof (induction s arbitrary: q)
  case (Cons x s)
  obtain r rs where rs: "split_when p s = r # rs" by (cases "split_when p s") auto
  show ?case
  proof (cases "p x \<or> q \<noteq> x # r")
    case True
    then have "q = [] \<or> q \<in> set (split_when p s)" using Cons.prems rs by (auto split: if_splits)
    then show ?thesis using Cons.IH by (metis append_Cons append_Nil)
  next
    case False
    have "\<exists>b. s = r @ b"
      using rs by (induction s arbitrary: r rs) (auto split: if_splits list.splits)
    then show ?thesis using False by (metis append_Cons append_Nil)
  qed
qed simp

lemma split_on_when: "split_on c s = split_when ((=) c) s"
  by (induction s) (auto split: list.splits)

lemma eq_section: "(\<lambda>c. c = x) = (=) x"
  by auto

lemma split_when_free: "q \<in> set (split_when p s) \<Longrightarrow> c \<in> set q \<Longrightarrow> \<not> p c"
proof (induction s arbitrary: q c)
  case (Cons x s)
  obtain r rs where r: "split_when p s = r # rs" by (cases "split_when p s") auto
  then have "d \<in> set r \<Longrightarrow> \<not> p d" "q' \<in> set rs \<Longrightarrow> d \<in> set q' \<Longrightarrow> \<not> p d" for d q'
    using Cons.IH by auto
  with r Cons.prems show ?case by (auto split: if_splits)
qed simp

lemma split_when_none: "\<forall>c\<in>set s. \<not> p c \<Longrightarrow> split_when p s = [s]"
  by (induction s) auto

lemma split_when_or:
  "split_when (\<lambda>c. p c \<or> r c) s = concat (map (split_when r) (split_when p s))"
proof (induction s)
  case (Cons x s)
  obtain q qs where "split_when p s = q # qs" by (cases "split_when p s") auto
  with Cons show ?case by (auto split: list.splits)
qed simp

lemma word_list_split: "sign c \<Longrightarrow> word_list s = concat (map word_list (split_on c s))"
proof (induction s rule: length_induct)
  case (1 s)
  show ?case
  proof (cases "c \<in> set s")
    case True
    then obtain a b where s: "s = a @ c # b" "c \<notin> set a" by (meson split_list_first)
    have "split_on c s = a # split_on c b"
      using s split_when_append [of "(=) c" c a b] split_when_none [of a "(=) c"]
      by (auto simp: split_on_when)
    then show ?thesis using 1 s by (simp add: word_list_append)
  next
    case False
    then have "split_on c s = [s]" by (auto simp: split_on_when intro!: split_when_none)
    then show ?thesis by simp
  qed
qed

text \<open>The first word of a text.\<close>

lemma split_when_hd: "\<exists>qs. split_when p s = takeWhile (\<lambda>c. \<not> p c) s # qs"
  by (induction s) auto

lemma word_list_first:
  assumes "\<not> sign c"
  shows "\<exists>ws. word_list (c # s) = map ascii_lower (c # takeWhile is_ascii_alphanumeric s) # ws"
proof -
  obtain qs where "split_when sign (map ascii_lower (c # s)) =
      takeWhile (\<lambda>c. \<not> sign c) (map ascii_lower (c # s)) # qs"
    using split_when_hd by blast
  then show ?thesis using assms by (simp add: word_list_def takeWhile_map comp_def)
qed

lemma keyword_first: "word_list s = w # ws \<Longrightarrow> w \<notin> set lead_words \<Longrightarrow> keyword (word_list s) = Some w"
  by (simp add: keyword_def)

text \<open>A meta command of \<open>psql\<close>: the word after the backslash.\<close>

lemma words_of_first:
  "w \<noteq> [] \<Longrightarrow> \<exists>ws. words_of w (map (\<lambda>c. [c]) s) = (w @ takeWhile (\<lambda>c. \<not> white c) s) # ws"
proof (induction s arbitrary: w)
  case (Cons c s)
  then show ?case using Cons.IH [of "w @ [c]"] by (auto simp: white_def)
qed simp

lemma split_whitespace_first:
  assumes "list_all is_ascii s"
  shows "word_at (split_whitespace s) 0 = takeWhile (\<lambda>c. \<not> white c) (dropWhile white s)"
proof -
  have "word_at (words_of [] (map (\<lambda>c. [c]) s)) 0 = takeWhile (\<lambda>c. \<not> white c) (dropWhile white s)"
  proof (induction s)
    case (Cons c s)
    then show ?case using words_of_first [of "[c]" s]
      by (auto simp: white_def word_at_def get_def)
  qed (simp add: word_at_def get_def)
  then show ?thesis by (simp add: split_whitespace_def chars_of_ascii [OF assms])
qed

definition meta_names :: "string list" where
  "meta_names = [''d'', ''dt'', ''di'', ''dv'', ''dm'', ''ds'', ''df'', ''dn'', ''dx'', ''db'', ''l'', ''conninfo'']"

lemma meta_names_ok:
  "list_all (\<lambda>m. m \<noteq> [] \<and> \<not> sign (hd m) \<and> map ascii_lower m = m \<and> m \<notin> set lead_words \<and> m \<notin> change_keywords) meta_names"
  by code_simp

lemma meta_commands:
  "list_all (\<lambda>m. m \<noteq> [] \<and> hd m = CHR 0x5C \<and> tl m \<noteq> [] \<and> \<not> sign (hd (tl m))
     \<and> takeWhile is_ascii_alphanumeric (tl m) \<in> set meta_names) SCHEMA_META_COMMANDS"
  by code_simp

lemma takeWhile_takeWhile:
  "(\<And>c. c \<in> set s \<Longrightarrow> p c \<Longrightarrow> q c) \<Longrightarrow> takeWhile p (takeWhile q s) = takeWhile p s"
  by (induction s) auto

lemma meta_keyword:
  assumes ascii: "list_all is_ascii s"
    and meta: "CHR 0x5C # word_at (split_whitespace s) 0 \<in> set SCHEMA_META_COMMANDS"
  shows "\<exists>m. keyword (word_list s) = Some m \<and> m \<notin> change_keywords"
proof -
  define r where "r = dropWhile white s"
  have r_ascii: "list_all is_ascii r" using ascii by (auto simp: r_def list_all_iff dest: set_dropWhileD)
  let ?m = "takeWhile (\<lambda>c. \<not> white c) r"
  from meta have "CHR 0x5C # ?m \<in> set SCHEMA_META_COMMANDS"
    by (simp add: split_whitespace_first [OF ascii] r_def)
  with meta_commands have m: "?m \<noteq> []" "\<not> sign (hd ?m)" "takeWhile is_ascii_alphanumeric ?m \<in> set meta_names"
    by (fastforce simp: list_all_iff)+
  obtain c r' where r: "r = c # r'" using m(1) by (cases r) auto
  have hd: "\<not> sign c" using m(1,2) r by (auto split: if_splits)
  have "takeWhile is_ascii_alphanumeric ?m = takeWhile is_ascii_alphanumeric r"
    using r_ascii white_sign by (intro takeWhile_takeWhile) (auto simp: list_all_iff white_def)
  then have name: "c # takeWhile is_ascii_alphanumeric r' \<in> set meta_names" using m(3) hd r by simp
  have "\<forall>c\<in>set (takeWhile white s). sign c"
    using ascii white_sign by (auto simp: list_all_iff white_def dest!: set_takeWhileD)
  then have "word_list s = word_list r"
    using word_list_signs [of "takeWhile white s" r] by (simp add: r_def)
  moreover obtain ws where "word_list r = map ascii_lower (c # takeWhile is_ascii_alphanumeric r') # ws"
    using word_list_first [OF hd] r by blast
  ultimately show ?thesis
    using name meta_names_ok keyword_first by (fastforce simp: list_all_iff)
qed

lemma semicolon_lower: "CHR '';'' = ascii_lower c \<longleftrightarrow> c = CHR '';''"
  using ascii_lower_signs(6) by metis

lemma no_semicolon: "CHR '';'' \<notin> set s \<Longrightarrow> CHR '';'' \<notin> set (map ascii_lower s)"
  by (induction s) (auto simp: semicolon_lower)

lemma word_at_set: "word_at w i \<noteq> [] \<Longrightarrow> word_at w i \<in> set w"
  by (auto simp: word_at_def get_def)

text \<open>A statement that reads the schema: its keyword changes nothing.\<close>

lemma read_keyword:
  assumes ascii: "list_all is_ascii s" and "no_comment s" and "CHR '';'' \<notin> set s"
    and reads: "\<not> sql_changes s" and kw: "keyword (word_list s) = Some x"
  shows "x \<notin> change_keywords"
proof -
  let ?l = "map ascii_lower s"
  have "strip_sql_comments (to_lowercase s) = ?l"
    using assms(2) by (simp add: lowercase_of_ascii [OF ascii] strip_sql_comments_def no_comment_strip)
  moreover have "split_on CHR '';'' ?l = [?l]"
    unfolding split_on_when by (rule split_when_none) (use no_semicolon [OF assms(3)] in metis)
  ultimately have no: "\<not> statement_writes ?l" "\<not> statement_changes ?l"
    using reads by (auto simp: sql_changes_def sql_writes_def)
  have words: "sql_words ?l = word_list s" using ascii by (simp add: sql_words_ascii del: map_map)
  from kw obtain i where "first_keyword (word_list s) = Some i" "word_list s ! i = x"
    by (auto simp: keyword_position)
  moreover from this have "get (word_list s) i = Some x"
    by (auto simp: get_Some first_keyword_def position_Some)
  ultimately show ?thesis
    using no by (auto simp: statement_writes_def statement_changes_def words change_keywords_def
        word_at_def from_or_zero_def Let_def)
qed

lemma schema_keyword:
  assumes ascii: "list_all is_ascii s" and "no_comment s" and "CHR '';'' \<notin> set s"
    and schema: "schema_statement s" and kw: "keyword (word_list s) = Some x"
  shows "x \<notin> change_keywords"
proof -
  obtain a b where trim: "s = a @ trim s @ b" using trim_parts [OF ascii] by blast
  define l where "l = map ascii_lower (trim s)"
  have l_ascii: "list_all is_ascii l" using ascii trim by (metis l_def list_all_append list_all_ascii_lower)
  have lower: "to_lowercase (trim s) = l"
    using ascii trim by (metis l_def list_all_append lowercase_of_ascii)
  have words: "word_list l = word_list s" by (simp add: l_def word_list_trim [OF ascii] del: map_map)
  have l_words: "sql_words l = word_list s" by (simp add: sql_words_ascii [OF l_ascii] words)
  have clean: "no_comment l" using assms(2) trim no_comment_prefix no_comment_suffix
    by (metis l_def no_comment_lower)
  have semi: "CHR '';'' \<notin> set l"
  proof -
    have "CHR '';'' \<notin> set (trim s)" using assms(3) trim by (metis Un_iff set_append)
    then show ?thesis unfolding l_def by (rule no_semicolon)
  qed
  have reads: "sql_reads l \<Longrightarrow> ?thesis" "\<not> sql_changes l \<Longrightarrow> ?thesis"
    using read_keyword [OF l_ascii clean semi] kw words by (auto simp: sql_reads_def)
  show ?thesis
  proof (cases "strip_prefix l [CHR 0x5C]")
    case (Some rest)
    then have l: "l = CHR 0x5C # rest" by (simp add: strip_prefix_Some)
    have "sign CHR 0x5C" by code_simp
    then have "word_list l = word_list rest" using word_list_append [of "CHR 0x5C" "[]" rest] l by simp
    moreover have "list_all is_ascii rest" using l_ascii l by simp
    ultimately show ?thesis
      using meta_keyword [of rest] schema Some kw words by (auto simp: schema_statement_def lower)
  next
    case no_meta: None
    show ?thesis
    proof (cases "strip_prefix l ''db.''")
      case (Some rest)
      then have "l = ''db'' @ CHR ''.'' # rest" by (simp add: strip_prefix_Some)
      moreover have "word_list ''db'' = [''db'']" "sign CHR ''.''" "''db'' \<notin> set lead_words"
        "''db'' \<notin> change_keywords" by code_simp+
      ultimately show ?thesis using kw words word_list_append [of "CHR ''.''" "''db''" rest]
        by (simp add: keyword_def split: if_splits)
    next
      case None
      have first: "word_at (word_list s) 0 = w \<Longrightarrow> w \<notin> set lead_words \<Longrightarrow> w \<noteq> [] \<Longrightarrow> x = w" for w
        using kw by (cases "word_list s") (auto simp: keyword_def word_at_def get_def)
      have fixed: "list_all (\<lambda>w. w \<notin> set lead_words \<and> w \<noteq> [] \<and> w \<notin> change_keywords)
          [''show'', ''describe'', ''desc'', ''select'']" by code_simp
      from schema no_meta None reads(1) first fixed show ?thesis
        by (auto simp: schema_statement_def lower l_words Let_def split: if_splits)
    qed
  qed
qed

lemma destroys_keyword:
  assumes "list_all is_ascii s" and "statement_destroys s"
  shows "\<exists>x\<in>change_keywords. keyword (word_list s) = Some x"
proof -
  let ?w = "word_list s" and ?k = "from_or_zero (first_keyword (word_list s))"
  have danger: "list_all (\<lambda>x. x \<in> change_keywords \<and> x \<notin> set lead_words \<and> x \<noteq> [])
      [''drop'', ''alter'', ''truncate'', ''delete'', ''update'', ''grant'', ''revoke'', ''create'']"
    by code_simp
  from assms have "word_at ?w ?k \<in> set [''drop'', ''alter'', ''truncate'', ''delete'', ''update'',
      ''grant'', ''revoke'', ''create'']"
    by (auto simp: statement_destroys_def Let_def sql_words_ascii split: if_splits)
  with danger have x: "word_at ?w ?k \<in> change_keywords" "word_at ?w ?k \<notin> set lead_words" "word_at ?w ?k \<noteq> []"
    by (auto simp: list_all_iff)
  from x(2) word_at_set [OF x(3)] have "first_keyword ?w \<noteq> None"
    unfolding first_keyword_def position_None by blast
  then obtain i where "first_keyword ?w = Some i" by blast
  with x show ?thesis
    by (auto simp: keyword_position from_or_zero_def word_at_def get_def split: if_splits)
qed

lemma ascii_after: "list_all is_ascii cs \<Longrightarrow> list_all is_ascii (after_comment p cs)"
  by (induction p cs rule: after_comment.induct) auto

lemma ascii_strip_comments: "list_all is_ascii s \<Longrightarrow> list_all is_ascii (strip_comments q s)"
proof (induction q s rule: strip_comments.induct)
  case (2 quoted c cs)
  have line: "list_all is_ascii (case dropWhile (\<lambda>c. c \<noteq> CHR 0x0A) cs of [] \<Rightarrow> []
      | n # rest \<Rightarrow> n # strip_comments False rest)"
    if c: "\<not> quoted" "c \<noteq> CHR 0x27" "c = CHR ''-'' \<and> starts_with cs ''-''"
  proof (cases "dropWhile (\<lambda>c. c \<noteq> CHR 0x0A) cs")
    case (Cons n rest)
    then have "list_all is_ascii (n # rest)"
      using 2(6) by (metis list_all_iff list.pred_inject(2) set_dropWhileD)
    then show ?thesis using 2(3) [OF c Cons] by (simp add: Cons)
  qed (simp del: dropWhile_eq_Nil_conv)
  have blank: "is_ascii CHR '' ''" "is_ascii CHR 0x27" by code_simp+
  have block: "list_all is_ascii (after_comment CHR '' '' (tl cs))"
    using 2(6) by (cases cs) (auto intro: ascii_after)
  show ?case using line block blank 2(1,2,4,5,6) by (simp add: if_bool_eq_conj)
qed simp

lemma ascii_strip: "list_all is_ascii s \<Longrightarrow> list_all is_ascii (strip_sql_comments s)"
  by (simp add: strip_sql_comments_def ascii_strip_comments)

lemma split_on_lower:
  "split_on CHR '';'' (map ascii_lower s) = map (map ascii_lower) (split_on CHR '';'' s)"
  by (induction s) (auto simp: semicolon_lower split: list.splits)

text \<open>C35: A text that \<open>sql_schema_read\<close> accepts destroys nothing for
  \<open>sql_destroys\<close>: the broker does not ask the owner about a read of the schema, and no
  statement of such a text is a drop, a delete, an update or a grant. The text is ASCII, and
  no comment sign is left inside its quoted texts.\<close>

theorem schema_read_never_destroys:
  assumes ascii: "list_all is_ascii text"
    and "\<not> contains_sub (strip_sql_comments text) ''--''"
    and "\<not> contains_sub (strip_sql_comments text) ''/*''"
    and schema: "sql_schema_read text"
  shows "\<not> sql_destroys text"
proof
  let ?t = "strip_sql_comments text"
  have clean: "no_comment ?t" using assms(2,3) by (simp add: no_comment_iff)
  have t_ascii: "list_all is_ascii ?t" by (rule ascii_strip [OF ascii])
  assume "sql_destroys text"
  then obtain d where d: "d \<in> set (split_on CHR '';'' (map ascii_lower ?t))" "statement_destroys d"
    by (auto simp: sql_destroys_def list_ex_iff lowercase_of_ascii [OF ascii] strip_sql_comments_def
        strip_comments_lower)
  from d(1) obtain e where e: "e \<in> set (split_on CHR '';'' ?t)" "d = map ascii_lower e"
    by (auto simp: split_on_lower)
  obtain a b where ab: "?t = a @ e @ b" using split_when_infix e(1) by (metis split_on_when)
  have e_ascii: "list_all is_ascii e" using t_ascii ab by (metis list_all_append)
  from destroys_keyword [of d] d(2) e_ascii e(2)
  obtain x where x: "x \<in> change_keywords" "keyword (word_list e) = Some x"
    by (auto simp del: map_map)
  have newline: "sign CHR 0x0A" by code_simp
  from x(2) obtain q where q: "q \<in> set (split_on CHR 0x0A e)" "keyword (word_list q) = Some x"
    using keyword_concat [of "map word_list (split_on CHR 0x0A e)" x] word_list_split [OF newline, of e]
    by auto
  obtain a' b' where ab': "e = a' @ q @ b'" using split_when_infix q(1) by (metis split_on_when)
  have q_ascii: "list_all is_ascii q" using e_ascii ab' by (metis list_all_append)
  have q_clean: "no_comment q" using clean ab ab' no_comment_prefix no_comment_suffix by metis
  have q_semi: "CHR '';'' \<notin> set q" using split_when_free [of e "(=) CHR '';''" ?t] e(1) ab'
    by (auto simp: split_on_when)
  obtain u v where uv: "q = u @ trim q @ v" using trim_parts [OF q_ascii] by blast
  have trim_q: "list_all is_ascii (trim q)" "no_comment (trim q)" "CHR '';'' \<notin> set (trim q)"
    using q_ascii q_clean q_semi uv no_comment_prefix no_comment_suffix
    by (metis list_all_append, metis, metis Un_iff set_append)
  have kw: "keyword (word_list (trim q)) = Some x" using q(2) by (simp add: word_list_trim [OF q_ascii])
  then have "trim q \<noteq> []" by (auto simp: keyword_def)
  moreover have "q \<in> set (statements_of ?t)"
    using e(1) q(1) unfolding statements_of_def split_on_when
    by (auto simp: split_when_or eq_section)
  ultimately have "schema_statement (trim q)"
    using schema by (auto simp: sql_schema_read_def list_all_iff Let_def)
  from schema_keyword [OF trim_q this kw] x(1) show False by blast
qed

definition plan_text :: "string" where
  "plan_text = ''-- plan'' @ [CHR 0x0A] @ ''EXPLAIN select count(*) from orders /* all */; show tables''"

lemma schema_read_never_destroys_witness: "sql_schema_read plan_text \<and> \<not> sql_destroys plan_text"
proof -
  have r: "sql_schema_read plan_text" by code_simp
  have "list_all is_ascii plan_text" and "\<not> contains_sub (strip_sql_comments plan_text) ''--''"
    and "\<not> contains_sub (strip_sql_comments plan_text) ''/*''" by code_simp+
  with r schema_read_never_destroys show ?thesis by blast
qed

text \<open>
  With a comment sign in a quoted text the two readers differ: one cuts the text at the line
  break inside the quotes, the other does not.
\<close>

definition broken_quote :: string where
  "broken_quote = ''explain '' @ [CHR 0x27, CHR 0x0A] @ ''explain -- drop table users'' @ [CHR 0x27]"

lemma broken_quote_reads_and_destroys: "sql_schema_read broken_quote" "sql_destroys broken_quote"
  by code_simp+

section \<open>Quoted names\<close>

text \<open>
  A name in double quotes, backticks or brackets is not a quoted text for \<open>strip_sql_comments\<close>:
  a comment sign in it hides the statements after it.
\<close>

definition quoted_name_attack :: string where
  "quoted_name_attack = ''select version() as '' @ quote ''--'' @ ''; drop table users''"

lemma quoted_name_hides_statements:
  "sql_schema_read quoted_name_attack" "\<not> sql_destroys quoted_name_attack"
  "\<not> sql_writes quoted_name_attack" "sql_destroys ''select version(); drop table users''"
  by code_simp+

end
