(* ===== verification/ShellParse.thy ===== *)
theory ShellParse
  imports SqlReads
begin

text \<open>
  The shell lexer of src/src/broker/shell_risk.rs and the readers of its segments: pipelines
  and segments of a script, the program after wrappers, the commands in a container, after a
  command runner and in an inner shell, and the words after the global options of a tool. The
  signs that the lexer looks for are ASCII, so it works on bytes; white space is looked up as
  a whole character.
\<close>

section \<open>Segments\<close>

record segment =
  sg_argv :: "string list"
  sg_assignments :: "string list"
  sg_redirect_out :: bool
  sg_redirect_in :: bool
  sg_redirect_targets :: "string list"
  sg_heredoc :: string
  sg_environment :: "string list"

definition default_segment :: segment where
  "default_segment = \<lparr>sg_argv = [], sg_assignments = [], sg_redirect_out = False,
     sg_redirect_in = False, sg_redirect_targets = [], sg_heredoc = [], sg_environment = []\<rparr>"

definition argv_segment :: "string list \<Rightarrow> segment" where
  "argv_segment argv = default_segment\<lparr>sg_argv := argv\<rparr>"

type_synonym pipeline = "segment list"

definition SHELLS :: "string list" where
  "SHELLS = [''sh'', ''bash'', ''zsh'', ''dash'', ''ksh'', ''fish'']"

definition is_assignment :: "string \<Rightarrow> bool" where
  "is_assignment word =
     (case split_once CHR ''='' word of None \<Rightarrow> False
      | Some (name, _) \<Rightarrow>
          name \<noteq> [] \<and> list_all (\<lambda>c. is_ascii_alphanumeric c \<or> c = CHR ''_'') name)"

definition base_name :: "string \<Rightarrow> string" where
  "base_name program = to_lowercase (last (split_on CHR ''/'' program))"

definition first_base :: "string list \<Rightarrow> string" where
  "first_base argv = (case argv of [] \<Rightarrow> [] | arg # _ \<Rightarrow> base_name arg)"

definition segment_program :: "segment \<Rightarrow> string" where
  "segment_program segment = first_base (sg_argv segment)"

definition lower_args :: "string list \<Rightarrow> string list" where
  "lower_args argv = map to_lowercase argv"

section \<open>The lexer\<close>

text \<open>The variables of the loop of \<open>parse_shell\<close>.\<close>

record lexer =
  lx_pipelines :: "pipeline list"
  lx_pipeline :: pipeline
  lx_segment :: segment
  lx_word :: string
  lx_in_word :: bool
  lx_pending :: bool
  lx_delimiter :: "(string \<times> bool) option"

definition new_lexer :: lexer where
  "new_lexer = \<lparr>lx_pipelines = [], lx_pipeline = [], lx_segment = default_segment, lx_word = [],
     lx_in_word = False, lx_pending = False, lx_delimiter = None\<rparr>"

definition finish_word :: "lexer \<Rightarrow> lexer" where
  "finish_word lx =
     (if \<not> lx_in_word lx then lx
      else if lx_pending lx then
        lx\<lparr>lx_pending := False, lx_word := [], lx_in_word := False,
          lx_segment := (lx_segment lx)\<lparr>sg_redirect_targets :=
            sg_redirect_targets (lx_segment lx) @ [lx_word lx]\<rparr>\<rparr>
      else
        lx\<lparr>lx_word := [], lx_in_word := False,
          lx_segment := (lx_segment lx)\<lparr>sg_argv := sg_argv (lx_segment lx) @ [lx_word lx]\<rparr>\<rparr>)"

definition finish_segment :: "lexer \<Rightarrow> lexer" where
  "finish_segment lx =
     (if sg_argv (lx_segment lx) \<noteq> [] then
        lx\<lparr>lx_pipeline := lx_pipeline lx @ [lx_segment lx], lx_segment := default_segment\<rparr>
      else lx\<lparr>lx_segment := default_segment\<rparr>)"

definition finish_pipeline :: "lexer \<Rightarrow> lexer" where
  "finish_pipeline lx =
     (if lx_pipeline lx \<noteq> [] then
        lx\<lparr>lx_pipelines := lx_pipelines lx @ [lx_pipeline lx], lx_pipeline := []\<rparr>
      else lx)"

definition push_text :: "string \<Rightarrow> lexer \<Rightarrow> lexer" where
  "push_text text lx = lx\<lparr>lx_in_word := True, lx_word := lx_word lx @ text\<rparr>"

text \<open>The text up to the closing quote, and what comes after it.\<close>

fun single_quoted :: "string \<Rightarrow> string \<times> string" where
  "single_quoted [] = ([], [])"
| "single_quoted (c # cs) =
     (if c = CHR 0x27 then ([], cs)
      else (case single_quoted cs of (text, rest) \<Rightarrow> (c # text, rest)))"

fun double_quoted :: "string \<Rightarrow> string \<times> string" where
  "double_quoted [] = ([], [])"
| "double_quoted (c # cs) =
     (if c = CHR 0x22 then ([], cs)
      else if c = CHR 0x5C then
        (case cs of [] \<Rightarrow> ([], [])
         | n # cs' \<Rightarrow>
             (case double_quoted cs' of (text, rest) \<Rightarrow>
               ((if n \<in> {CHR ''$'', CHR 0x60, CHR 0x22, CHR 0x5C, CHR 0x0A} then [n]
                 else [CHR 0x5C, n]) @ text, rest)))
      else (case double_quoted cs of (text, rest) \<Rightarrow> (c # text, rest)))"

text \<open>
  A here-document. \<open>closes_body\<close> is the test at the end of a line; the loop has the body and
  the line so far.
\<close>

definition closes_body :: "string \<Rightarrow> bool \<Rightarrow> string \<Rightarrow> bool" where
  "closes_body delimiter strip_tabs line \<longleftrightarrow>
     trim_end (if strip_tabs then dropWhile ((=) CHR 0x09) line else line) = delimiter"

definition close_body :: "string \<Rightarrow> string \<Rightarrow> string \<Rightarrow> string" where
  "close_body delimiter body line =
     (if line \<noteq> [] \<and> trim_end line \<noteq> delimiter then body @ line else body)"

fun heredoc_body ::
    "string \<Rightarrow> bool \<Rightarrow> string \<Rightarrow> string \<Rightarrow> string \<Rightarrow> string \<times> string" where
  "heredoc_body delimiter strip_tabs body line [] =
     (if closes_body delimiter strip_tabs line \<or> line = [] then (close_body delimiter body line, [])
      else (body @ line @ [CHR 0x0A], []))"
| "heredoc_body delimiter strip_tabs body line (c # cs) =
     (if c = CHR 0x0A then
        if closes_body delimiter strip_tabs line \<or> cs = [] \<and> line = [] then
          (close_body delimiter body line, cs)
        else if cs = [] then (body @ line @ [CHR 0x0A], [])
        else heredoc_body delimiter strip_tabs (body @ line @ [CHR 0x0A]) [] cs
      else heredoc_body delimiter strip_tabs body (line @ [c]) cs)"

fun read_delimiter :: "string \<Rightarrow> string \<times> string" where
  "read_delimiter [] = ([], [])"
| "read_delimiter (c # cs) =
     (if is_whitespace (take (char_len c) (c # cs)) \<or> c \<in> set '';|&)>'' then ([], c # cs)
      else (case read_delimiter cs of (text, rest) \<Rightarrow>
        ((if c \<in> {CHR 0x27, CHR 0x22, CHR 0x5C} then text else c # text), rest)))"

definition script_rest_starts_with :: "string \<Rightarrow> string \<Rightarrow> bool" where
  "script_rest_starts_with rest text \<longleftrightarrow>
     take (length text) (dropWhile ((=) CHR '' '') rest) = text"

definition end_command :: "lexer \<Rightarrow> lexer" where
  "end_command lx = finish_pipeline (finish_segment lx)"

definition set_segment :: "(segment \<Rightarrow> segment) \<Rightarrow> lexer \<Rightarrow> lexer" where
  "set_segment f lx = lx\<lparr>lx_segment := f (lx_segment lx)\<rparr>"

text \<open>The arms of the \<open>match\<close>, each with the characters after the one it takes.\<close>

definition blank_arm :: "char \<Rightarrow> lexer \<Rightarrow> string \<Rightarrow> lexer \<times> string" where
  "blank_arm c lx cs =
     (let lx = finish_word lx
      in if c \<noteq> CHR 0x0A then (lx, cs)
         else (case lx_delimiter lx of
             None \<Rightarrow> (end_command lx, cs)
           | Some (delimiter, strip_tabs) \<Rightarrow>
               (case heredoc_body delimiter strip_tabs [] [] cs of (body, rest) \<Rightarrow>
                 (end_command (set_segment (\<lambda>s. s\<lparr>sg_heredoc := sg_heredoc s @ body\<rparr>)
                    (lx\<lparr>lx_delimiter := None\<rparr>)), rest))))"

definition pipe_arm :: "lexer \<Rightarrow> string \<Rightarrow> lexer \<times> string" where
  "pipe_arm lx cs =
     (let lx = finish_segment (finish_word lx)
      in if starts_with cs ''|'' then (finish_pipeline lx, tl cs) else (lx, cs))"

definition operator_arm :: "char \<Rightarrow> lexer \<Rightarrow> string \<Rightarrow> lexer \<times> string" where
  "operator_arm c lx cs =
     (let lx = finish_word lx
      in if c = CHR ''&'' \<and> starts_with cs ''>'' then
           (set_segment (\<lambda>s. s\<lparr>sg_redirect_out := True\<rparr>) lx\<lparr>lx_pending := True\<rparr>, tl cs)
         else (end_command lx, if c = CHR ''&'' \<and> starts_with cs ''&'' then tl cs else cs))"

definition output_arm :: "lexer \<Rightarrow> string \<Rightarrow> lexer \<times> string" where
  "output_arm lx cs =
     (let fd_two = lx_word lx = ''2'' \<and> lx_in_word lx;
          lx = (if fd_two then lx\<lparr>lx_word := [], lx_in_word := False\<rparr> else finish_word lx);
          cs = (if starts_with cs ''>'' then tl cs else cs)
      in if starts_with cs ''&'' then (lx, dropWhile is_ascii_digit (tl cs))
         else (let lx = (if \<not> fd_two \<and> \<not> script_rest_starts_with cs ''/dev/null'' then
                  set_segment (\<lambda>s. s\<lparr>sg_redirect_out := True\<rparr>) lx else lx)
           in (lx\<lparr>lx_pending := True\<rparr>, cs)))"

definition input_arm :: "lexer \<Rightarrow> string \<Rightarrow> lexer \<times> string" where
  "input_arm lx cs =
     (let lx = set_segment (\<lambda>s. s\<lparr>sg_redirect_in := True\<rparr>) (finish_word lx);
          rest = dropWhile ((=) CHR ''<'') cs
      in if length (takeWhile ((=) CHR ''<'') cs) = 1 then
           (let strip_tabs = starts_with rest ''-'';
                rest = dropWhile ((=) CHR '' '') (if strip_tabs then tl rest else rest)
            in case read_delimiter rest of (delimiter, rest) \<Rightarrow>
                 ((if delimiter \<noteq> [] then lx\<lparr>lx_delimiter := Some (delimiter, strip_tabs)\<rparr> else lx),
                  rest))
         else (lx, rest))"

definition lex_char :: "char \<Rightarrow> lexer \<Rightarrow> string \<Rightarrow> lexer \<times> string" where
  "lex_char c lx cs =
     (if c = CHR 0x27 then
        (case single_quoted cs of (text, rest) \<Rightarrow> (push_text text lx, rest))
      else if c = CHR 0x22 then
        (case double_quoted cs of (text, rest) \<Rightarrow> (push_text text lx, rest))
      else if c = CHR 0x5C then
        (case cs of [] \<Rightarrow> (push_text [] lx, []) | n # rest \<Rightarrow> (push_text [n] lx, rest))
      else if c \<in> {CHR '' '', CHR 0x09, CHR 0x0A} then blank_arm c lx cs
      else if c = CHR ''|'' then pipe_arm lx cs
      else if c \<in> {CHR '';'', CHR ''&'', CHR ''('', CHR '')'', CHR 0x60, CHR ''{'', CHR ''}''} then
        operator_arm c lx cs
      else if c = CHR ''$'' \<and> starts_with cs ''('' then (end_command (finish_word lx), tl cs)
      else if c = CHR ''>'' then output_arm lx cs
      else if c = CHR ''<'' then input_arm lx cs
      else (push_text [c] lx, cs))"

lemma length_single_quoted: "length (snd (single_quoted cs)) \<le> length cs"
  by (induction cs) (auto split: prod.splits)

lemma length_double_quoted: "length (snd (double_quoted cs)) \<le> length cs"
proof (induction cs rule: double_quoted.induct)
  case (2 c cs)
  show ?case
  proof (cases "c = CHR 0x22 \<or> c \<noteq> CHR 0x5C")
    case True
    then show ?thesis using 2 by (auto simp: case_prod_beta le_SucI)
  next
    case False
    then show ?thesis using 2(1) by (cases cs) (simp_all add: case_prod_beta le_SucI)
  qed
qed simp

lemma length_heredoc_body: "length (snd (heredoc_body d t body line cs)) \<le> length cs"
proof (induction cs arbitrary: body line)
  case (Cons c cs)
  show ?case
  proof (cases "c = CHR 0x0A")
    case True
    then show ?thesis using Cons [of "body @ line @ [CHR 0x0A]" "[]"] by (simp add: le_SucI)
  next
    case False
    then show ?thesis using Cons [of body "line @ [c]"] by simp
  qed
qed simp

lemma length_read_delimiter: "length (snd (read_delimiter cs)) \<le> length cs"
  by (induction cs) (auto split: prod.splits)

lemma length_input_arm: "length (snd (input_arm lx cs)) \<le> length cs"
proof -
  let ?r = "dropWhile ((=) CHR ''<'') cs"
  let ?q = "dropWhile ((=) CHR '' '') (if starts_with ?r ''-'' then tl ?r else ?r)"
  have "length ?q \<le> length (if starts_with ?r ''-'' then tl ?r else ?r)" by (rule length_dropWhile_le)
  also have "\<dots> \<le> length ?r" by simp
  also have "\<dots> \<le> length cs" by (rule length_dropWhile_le)
  finally have "length ?q \<le> length cs" .
  then show ?thesis
    using length_read_delimiter [of ?q] length_dropWhile_le [of "(=) CHR ''<''" cs]
    by (auto simp: input_arm_def Let_def split: prod.splits)
qed

lemma length_output_arm: "length (snd (output_arm lx cs)) \<le> length cs"
proof -
  let ?r = "if starts_with cs ''>'' then tl cs else cs"
  have "length (dropWhile is_ascii_digit (tl ?r)) \<le> length (tl ?r)" by (rule length_dropWhile_le)
  also have "\<dots> \<le> length cs" by auto
  finally have "length (dropWhile is_ascii_digit (tl ?r)) \<le> length cs" .
  then show ?thesis by (auto simp: output_arm_def Let_def)
qed

lemma length_blank_arm: "length (snd (blank_arm c lx cs)) \<le> length cs"
proof (cases "c = CHR 0x0A \<and> lx_delimiter (finish_word lx) \<noteq> None")
  case True
  then obtain d t where "lx_delimiter (finish_word lx) = Some (d, t)" by auto
  then show ?thesis using True length_heredoc_body [of d t "[]" "[]" cs]
    by (simp add: blank_arm_def Let_def case_prod_beta)
next
  case False
  then have "c \<noteq> CHR 0x0A \<or> lx_delimiter (finish_word lx) = None" by blast
  then show ?thesis by (elim disjE) (simp_all add: blank_arm_def Let_def)
qed

lemma length_if:
  "length (snd a) \<le> n \<Longrightarrow> length (snd b) \<le> n \<Longrightarrow> length (snd (if p then a else b)) \<le> n"
  by simp

lemma length_lex_char: "length (snd (lex_char c lx cs)) \<le> length cs"
proof -
  have "length (snd (pipe_arm lx cs)) \<le> length cs" "length (snd (operator_arm c lx cs)) \<le> length cs"
    by (simp_all add: pipe_arm_def operator_arm_def Let_def)
  then show ?thesis
    using length_single_quoted [of cs] length_double_quoted [of cs] length_input_arm [of lx cs]
      length_output_arm [of lx cs] length_blank_arm [of c lx cs]
    unfolding lex_char_def case_prod_beta by (intro length_if) (simp_all split: list.split)
qed

function run_lexer :: "lexer \<Rightarrow> string \<Rightarrow> lexer" where
  "run_lexer lx [] = lx"
| "run_lexer lx (c # cs) = (case lex_char c lx cs of (lx', rest) \<Rightarrow> run_lexer lx' rest)"
  by pat_completeness auto
termination
proof (relation "measure (\<lambda>(lx, cs). length cs)", goal_cases)
  case (2 lx c cs lx' rest)
  then show ?case using length_lex_char [of c lx cs] by (metis case_prod_conv in_measure le_imp_less_Suc length_Cons snd_conv)
qed simp

text \<open>The leading \<open>NAME=value\<close> words of a segment.\<close>

fun split_assignments :: "string list \<Rightarrow> string list \<times> string list" where
  "split_assignments (a # b # rest) =
     (if is_assignment a then
        (case split_assignments (b # rest) of (found, argv) \<Rightarrow> (a # found, argv))
      else ([], a # b # rest))"
| "split_assignments argv = ([], argv)"

definition take_assignments :: "segment \<Rightarrow> segment" where
  "take_assignments s =
     (case split_assignments (sg_argv s) of (found, argv) \<Rightarrow>
       s\<lparr>sg_argv := argv, sg_assignments := sg_assignments s @ found\<rparr>)"

definition parse_shell :: "string \<Rightarrow> pipeline list" where
  "parse_shell script =
     map (map take_assignments) (lx_pipelines (end_command (finish_word (run_lexer new_lexer script))))"

definition command_line_to_argv :: "string \<Rightarrow> string list" where
  "command_line_to_argv line =
     (case parse_shell line of
        [[s]] \<Rightarrow>
          if sg_assignments s = [] \<and> \<not> sg_redirect_out s \<and> \<not> sg_redirect_in s
             \<and> \<not> contains_sub line ''$('' \<and> CHR 0x60 \<notin> set line
          then sg_argv s else [''sh'', ''-c'', line]
      | _ \<Rightarrow> [''sh'', ''-c'', line])"

section \<open>The options of a shell\<close>

text \<open>The letters of the option groups, the names after \<open>-o\<close>, and the index of the first word after.\<close>

fun shell_options :: "string \<Rightarrow> string list \<Rightarrow> nat \<Rightarrow> string list \<Rightarrow> string \<times> string list \<times> nat" where
  "shell_options letters names index [] = (letters, names, index)"
| "shell_options letters names index (arg # rest) =
     (if arg = ''--'' \<or> arg = ''-'' then (letters, names, index + 1)
      else case strip_prefix arg ''--'' of
        Some long \<Rightarrow>
          if long = ''rcfile'' \<or> long = ''init-file'' then shell_options letters names (index + 2) (tl rest)
          else shell_options letters names (index + 1) rest
      | None \<Rightarrow>
          (case arg of [] \<Rightarrow> (letters, names, index)
           | c # cs \<Rightarrow>
               if c \<noteq> CHR ''-'' \<and> c \<noteq> CHR ''+'' then (letters, names, index)
               else if cs \<noteq> [] \<and> last cs \<in> {CHR ''o'', CHR ''O''} then
                 shell_options (if c = CHR ''-'' then letters @ butlast cs else letters)
                   (if c = CHR ''-'' \<and> rest \<noteq> [] then names @ [to_lowercase (hd rest)] else names)
                   (index + 2) (tl rest)
               else shell_options (if c = CHR ''-'' then letters @ cs else letters) names (index + 1) rest))"

definition options_of :: "string list \<Rightarrow> string \<times> string list \<times> nat" where
  "options_of argv = shell_options [] [] 1 (drop 1 argv)"

definition options_command :: "string \<times> string list \<times> nat \<Rightarrow> bool" where
  "options_command = (\<lambda>(letters, names, operand). CHR ''c'' \<in> set letters)"

definition options_xtrace :: "string \<times> string list \<times> nat \<Rightarrow> bool" where
  "options_xtrace = (\<lambda>(letters, names, operand). CHR ''x'' \<in> set letters \<or> ''xtrace'' \<in> set names)"

definition options_operand :: "string \<times> string list \<times> nat \<Rightarrow> nat" where
  "options_operand = (\<lambda>(letters, names, operand). operand)"

definition shell_command_text :: "string list \<Rightarrow> string option" where
  "shell_command_text argv =
     (if first_base argv \<notin> set SHELLS then None
      else if options_command (options_of argv) then get argv (options_operand (options_of argv))
      else None)"

definition shell_trace :: "string list \<Rightarrow> string \<Rightarrow> bool option" where
  "shell_trace argv heredoc =
     (if first_base argv \<notin> set SHELLS then None
      else if options_xtrace (options_of argv) then
        Some (options_command (options_of argv)
          \<or> (heredoc \<noteq> [] \<and> length argv \<le> options_operand (options_of argv)))
      else None)"

definition late_command_text :: "string list \<Rightarrow> string option" where
  "late_command_text argv =
     (case position (\<lambda>arg. arg = ''-c'' \<or> arg = ''-lc'') argv of
        None \<Rightarrow> None | Some i \<Rightarrow> get argv (i + 1))"

definition parse_argv :: "string list \<Rightarrow> pipeline list" where
  "parse_argv argv =
     (if first_base argv \<in> set SHELLS then
        (case shell_command_text argv of
           Some script \<Rightarrow> parse_shell script
         | None \<Rightarrow>
             (case late_command_text argv of
                Some script \<Rightarrow> [argv_segment argv] # parse_shell script
              | None \<Rightarrow> [[argv_segment argv]]))
      else [[argv_segment argv]])"

section \<open>The program after the wrappers\<close>

definition RUNNER_VALUE_OPTIONS :: "string list" where
  "RUNNER_VALUE_OPTIONS =
    [''--with'', ''--with-requirements'', ''--python'', ''-p'', ''--env-file'', ''--project'',
     ''--directory'', ''--package'', ''--extra'', ''--group'', ''--index'', ''-e'', ''--env'']"

definition xargs_options :: "string list" where
  "xargs_options =
    [''-I'', ''-n'', ''-P'', ''-L'', ''-d'', ''-E'', ''-s'', ''-a'', ''-J'', ''-R'', ''-S'', ''--max-args'',
     ''--max-procs'', ''--max-lines'', ''--delimiter'', ''--arg-file'', ''--max-chars'', ''--eof'',
     ''--replace'']"

definition is_option :: "string \<Rightarrow> bool" where
  "is_option arg \<longleftrightarrow> starts_with arg ''-''"

text \<open>The options of a wrapper with a separate value, and its operands before the command.\<close>

definition wrapper_options :: "string \<Rightarrow> string list \<Rightarrow> (string list \<times> nat) option" where
  "wrapper_options program argv =
     (if program = ''xargs'' then Some (xargs_options, 0)
      else if program = ''timeout'' \<or> program = ''gtimeout'' then
        Some ([''-s'', ''-k'', ''--signal'', ''--kill-after''], 1)
      else if program = ''nice'' then Some ([''-n'', ''--adjustment''], 0)
      else if program = ''ionice'' then Some ([''-c'', ''-n'', ''--class'', ''--classdata''], 0)
      else if program = ''stdbuf'' then
        Some ([''-i'', ''-o'', ''-e'', ''--input'', ''--output'', ''--error''], 0)
      else if program = ''caffeinate'' then Some ([''-t'', ''-w''], 0)
      else if program = ''watch'' then Some ([''-n'', ''--interval'', ''-q'', ''--equexit''], 0)
      else if program = ''command'' then
        (if list_ex (\<lambda>arg. CHR ''v'' \<in> set arg \<or> CHR ''V'' \<in> set arg) (takeWhile is_option (drop 1 argv))
         then None else Some ([], 0))
      else if program = ''builtin'' \<or> program = ''chronic'' \<or> program = ''unbuffer'' then Some ([], 0)
      else None)"

fun after_options :: "string list \<Rightarrow> nat \<Rightarrow> string list \<Rightarrow> nat" where
  "after_options value_options index [] = index"
| "after_options value_options index (arg # rest) =
     (if arg = ''--'' then index + 1
      else if \<not> is_option arg \<or> arg = ''-'' then index
      else if CHR ''='' \<notin> set arg \<and> arg \<in> set value_options then
        after_options value_options (index + 2) (tl rest)
      else after_options value_options (index + 1) rest)"

definition wrapped_command_start :: "string \<Rightarrow> string list \<Rightarrow> nat option" where
  "wrapped_command_start program argv =
     (case wrapper_options program argv of
        None \<Rightarrow> None
      | Some (value_options, operands) \<Rightarrow>
          Some (after_options value_options 1 (drop 1 argv) + operands))"

definition environment_runner :: "string \<Rightarrow> string option \<Rightarrow> bool" where
  "environment_runner first second \<longleftrightarrow>
     (first = ''bundle'' \<and> second = Some ''exec'')
     \<or> (first \<in> set [''poetry'', ''uv'', ''pipenv'', ''pdm'', ''hatch'', ''rye''] \<and> second = Some ''run'')"

fun skip_runner_options :: "string list \<Rightarrow> string list" where
  "skip_runner_options [] = []"
| "skip_runner_options (option # rest) =
     (if is_option option then
        (if CHR ''='' \<notin> set option \<and> option \<in> set RUNNER_VALUE_OPTIONS then skip_runner_options (tl rest)
         else skip_runner_options rest)
      else option # rest)"

definition package_skip :: "string \<Rightarrow> string list \<Rightarrow> nat option" where
  "package_skip first argv =
     (let second = get argv 1 in
      if first \<in> set [''npx'', ''bunx'', ''sudo'', ''doas'', ''time'', ''nohup'', ''exec''] then Some 1
      else if first \<in> set [''pnpm'', ''yarn''] \<and> second = Some ''dlx'' then Some 2
      else if first \<in> set [''pnpm'', ''yarn'', ''npm''] \<and> second = Some ''exec'' then Some 2
      else if first = ''bun'' \<and> second = Some ''x'' then Some 2
      else if first = ''env'' \<and> 1 < length argv then
        (let n = 1 + length (takeWhile (\<lambda>arg. is_assignment arg \<or> is_option arg) (drop 1 argv))
         in if length argv \<le> n then None else Some n)
      else None)"

text \<open>One round of the loop of \<open>effective_argv\<close>; \<open>None\<close> is the return.\<close>

definition unwrap_round :: "string list \<Rightarrow> string list option" where
  "unwrap_round argv =
     (if argv = [] then None
      else let first = first_base argv in
        if environment_runner first (get argv 1) then Some (skip_runner_options (drop 2 argv))
        else case wrapped_command_start first argv of
          Some start \<Rightarrow> if length argv \<le> start then None else Some (drop start argv)
        | None \<Rightarrow> map_option (\<lambda>skip. dropWhile is_option (drop skip argv)) (package_skip first argv))"

lemma after_options_ge: "index \<le> after_options value_options index args"
  by (induction value_options index args rule: after_options.induct) auto

definition tail_of :: "'a list \<Rightarrow> 'a list \<Rightarrow> bool" where
  "tail_of ys xs \<longleftrightarrow> (\<exists>k. ys = drop k xs)"

lemma tail_of_refl [simp]: "tail_of xs xs"
  unfolding tail_of_def by (rule exI [of _ 0]) simp

lemma tail_of_drop: "tail_of ys (drop k xs) \<Longrightarrow> tail_of ys xs"
  by (auto simp: tail_of_def)

lemma tail_of_trans: "tail_of zs ys \<Longrightarrow> tail_of ys xs \<Longrightarrow> tail_of zs xs"
  by (auto simp: tail_of_def)

lemma tail_of_Cons: "tail_of ys xs \<Longrightarrow> tail_of ys (x # xs)"
  unfolding tail_of_def by (metis drop_Suc_Cons)

lemma tail_of_tl: "tail_of ys (tl xs) \<Longrightarrow> tail_of ys xs"
  by (cases xs) (auto intro: tail_of_Cons)

lemma tail_of_dropWhile: "tail_of (dropWhile p xs) xs"
  by (induction xs) (auto intro: tail_of_Cons)

lemma tail_of_length: "tail_of ys xs \<Longrightarrow> length ys \<le> length xs"
  by (auto simp: tail_of_def)

lemma tail_skip_runner: "tail_of (skip_runner_options args) args"
  by (induction args rule: skip_runner_options.induct) (auto intro: tail_of_Cons tail_of_tl)

lemma package_skip_pos: "package_skip first argv = Some n \<Longrightarrow> 0 < n"
  by (auto simp: package_skip_def Let_def split: if_splits)

lemma wrapped_start_pos: "wrapped_command_start program argv = Some n \<Longrightarrow> 0 < n"
  using after_options_ge [of 1 _ "drop 1 argv"]
  by (auto simp: wrapped_command_start_def Suc_le_eq split: option.splits)

lemma unwrap_round_tail:
  assumes "unwrap_round argv = Some rest"
  shows "\<exists>n > 0. tail_of rest (drop n argv) \<and> argv \<noteq> []"
proof -
  have ne: "argv \<noteq> []" using assms by (auto simp: unwrap_round_def)
  show ?thesis
  proof (cases "environment_runner (first_base argv) (get argv 1)")
    case True
    then have "rest = skip_runner_options (drop 2 argv)" using assms ne by (simp add: unwrap_round_def Let_def)
    then show ?thesis using tail_skip_runner ne by (metis zero_less_numeral)
  next
    case False
    show ?thesis
    proof (cases "wrapped_command_start (first_base argv) argv")
      case (Some start)
      then have "rest = drop start argv" using assms ne False
        by (auto simp: unwrap_round_def Let_def split: if_splits)
      then show ?thesis using wrapped_start_pos [OF Some] ne by (metis tail_of_refl)
    next
      case None
      then obtain n where "package_skip (first_base argv) argv = Some n"
        "rest = dropWhile is_option (drop n argv)"
        using assms ne False by (auto simp: unwrap_round_def Let_def)
      then show ?thesis using package_skip_pos tail_of_dropWhile ne by blast
    qed
  qed
qed

lemma unwrap_round_shorter: "unwrap_round argv = Some rest \<Longrightarrow> length rest < length argv"
proof -
  assume "unwrap_round argv = Some rest"
  then obtain n where n: "0 < n" "tail_of rest (drop n argv)" "argv \<noteq> []"
    using unwrap_round_tail by blast
  have "length rest \<le> length argv - n" using tail_of_length [OF n(2)] by simp
  then show ?thesis using n(1,3) by (cases argv) auto
qed

function unwrap :: "string list \<Rightarrow> string list" where
  "unwrap argv = (case unwrap_round argv of None \<Rightarrow> argv | Some rest \<Rightarrow> unwrap rest)"
  by pat_completeness auto
termination
  by (relation "measure length") (auto simp: unwrap_round_shorter)

declare unwrap.simps [simp del]

definition effective_argv :: "segment \<Rightarrow> string list" where
  "effective_argv segment = unwrap (sg_argv segment)"

definition is_package_runner :: "string list \<Rightarrow> bool" where
  "is_package_runner words =
     (let first = first_base words; second = get words 1
      in first = ''npx'' \<or> first = ''bunx''
         \<or> ((first = ''pnpm'' \<or> first = ''yarn'') \<and> second = Some ''dlx'')
         \<or> (first = ''npm'' \<and> second = Some ''exec'') \<or> (first = ''bun'' \<and> second = Some ''x''))"

section \<open>Commands inside a command\<close>

definition CONTAINER_VALUE_OPTIONS :: "string list" where
  "CONTAINER_VALUE_OPTIONS =
    [''-e'', ''--env'', ''--env-file'', ''-u'', ''--user'', ''-w'', ''--workdir'',
     ''--detach-keys'', ''--index'', ''-p'', ''--publish'', ''-v'', ''--volume'', ''--name'',
     ''--entrypoint'', ''-l'', ''--label'', ''--cap-add'', ''--cap-drop'', ''--pull'', ''-f'',
     ''--file'', ''--project-name'', ''--profile'', ''--project-directory'', ''--ansi'',
     ''--parallel'', ''--progress'']"

fun container_options :: "nat \<Rightarrow> string list \<Rightarrow> nat" where
  "container_options index [] = index"
| "container_options index (word # rest) =
     (if \<not> is_option word \<or> word = ''-'' then index
      else if CHR ''='' \<notin> set word \<and> to_lowercase word \<in> set CONTAINER_VALUE_OPTIONS then
        container_options (index + 2) (tl rest)
      else container_options (index + 1) rest)"

definition skip_container_options :: "string list \<Rightarrow> nat \<Rightarrow> nat" where
  "skip_container_options words index = container_options index (drop index words)"

text \<open>The index after \<open>exec\<close> or \<open>run\<close>.\<close>

definition container_start :: "string list \<Rightarrow> nat option" where
  "container_start argv =
     (let program = first_base argv;
          word = word_at (lower_args argv);
          compose = (\<lambda>sub. if word sub = ''exec'' \<or> word sub = ''run'' then Some (sub + 1) else None)
      in if program = ''docker'' \<or> program = ''podman'' then
           (if word 1 = ''exec'' then Some 2
            else if word 1 = ''container'' \<and> word 2 = ''exec'' then Some 3
            else if word 1 = ''compose'' then compose (skip_container_options argv 2)
            else None)
         else if program = ''docker-compose'' \<or> program = ''podman-compose'' then
           compose (skip_container_options argv 1)
         else None)"

fun give_input :: "segment \<Rightarrow> pipeline list \<Rightarrow> pipeline list" where
  "give_input s ((first # rest) # pipelines) =
     (first\<lparr>sg_heredoc := sg_heredoc s, sg_redirect_in := sg_redirect_in first \<or> sg_redirect_in s\<rparr> # rest)
     # pipelines"
| "give_input s pipelines = pipelines"

definition container_command :: "segment \<Rightarrow> pipeline list option" where
  "container_command segment =
     (let argv = effective_argv segment in
      if argv = [] then None
      else case container_start argv of None \<Rightarrow> None
      | Some start \<Rightarrow>
          (let name = skip_container_options argv start;
               inner = drop (name + 1) argv;
               inner = (if inner \<noteq> [] \<and> hd inner = ''--'' then tl inner else inner)
           in if length argv < name + 1 \<or> inner = [] then None
              else Some (give_input segment (parse_argv inner))))"

text \<open>The roles that the packs give to programs (src/src/broker/packs.rs).\<close>

datatype role = Output | Encoder | Network | HttpClient | HeredocCode | HeredocSql | FileWriter
  | ScriptRunner | TaskRunner | Usage | NoDryRun | ProjectCode | CommandRunner

record rule_set =
  rs_roles :: "role \<rightharpoonup> string list"

definition has_role :: "'a rule_set_scheme \<Rightarrow> string \<Rightarrow> role \<Rightarrow> bool" where
  "has_role rules program role =
     (case rs_roles rules role of None \<Rightarrow> False | Some programs \<Rightarrow> program \<in> set programs)"

definition runner_command :: "'a rule_set_scheme \<Rightarrow> segment \<Rightarrow> pipeline list option" where
  "runner_command rules segment =
     (let argv = effective_argv segment in
      if argv = [] \<or> \<not> has_role rules (first_base argv) CommandRunner then None
      else case position (\<lambda>word. word = ''--'') argv of None \<Rightarrow> None
      | Some separator \<Rightarrow>
          (let inner = drop (separator + 1) argv
           in if inner = [] then None else Some (parse_argv inner)))"

definition wrapped_shell_script :: "segment \<Rightarrow> pipeline list option" where
  "wrapped_shell_script segment =
     (let argv = effective_argv segment; program = first_base argv in
      if argv = [] then None
      else if program = ''trap'' then
        map_option parse_shell (List.find (\<lambda>arg. \<not> is_option arg) (drop 1 argv))
      else if program = ''eval'' \<and> 1 < length argv then Some (parse_shell (join_with '' '' (drop 1 argv)))
      else if program \<notin> set SHELLS then None
      else case shell_command_text argv of
          Some script \<Rightarrow> Some (parse_shell script)
        | None \<Rightarrow>
            if sg_heredoc segment \<noteq> [] \<and> length argv \<le> options_operand (options_of argv) then
              Some (parse_shell (sg_heredoc segment))
            else map_option parse_shell (late_command_text argv))"

definition inner_pipelines :: "'a rule_set_scheme \<Rightarrow> pipeline \<Rightarrow> pipeline list" where
  "inner_pipelines rules pipeline =
     concat (map (\<lambda>segment. case or_else (container_command segment)
           (or_else (runner_command rules segment) (wrapped_shell_script segment)) of
         None \<Rightarrow> [] | Some found \<Rightarrow> found) pipeline)"

text \<open>The loop over the pipelines: the budget, and the index of the next pipeline.\<close>

fun expand :: "'a rule_set_scheme \<Rightarrow> nat \<Rightarrow> nat \<Rightarrow> pipeline list \<Rightarrow> pipeline list" where
  "expand rules 0 index pipelines = pipelines"
| "expand rules (Suc budget) index pipelines =
     (if index < length pipelines then
        expand rules budget (index + 1) (pipelines @ inner_pipelines rules (pipelines ! index))
      else pipelines)"

text \<open>The settings in the environment of a program.\<close>

definition own_settings :: "segment \<Rightarrow> string list" where
  "own_settings segment =
     map to_lowercase (sg_assignments segment
       @ filter is_assignment (take (length (sg_argv segment) - length (effective_argv segment)) (sg_argv segment)))"

definition exported_settings :: "segment \<Rightarrow> string list" where
  "exported_settings segment =
     (let lower = (\<lambda>words. map to_lowercase (filter is_assignment words));
          program = segment_program segment
      in if list_all is_assignment (sg_argv segment) then lower (sg_assignments segment @ sg_argv segment)
         else if program = ''export''
           \<or> ((program = ''declare'' \<or> program = ''typeset'')
              \<and> list_ex (\<lambda>arg. is_option arg \<and> CHR ''x'' \<in> set arg) (drop 1 (sg_argv segment)))
         then lower (drop 1 (sg_argv segment))
         else [])"

definition parse_command :: "'a rule_set_scheme \<Rightarrow> string list \<Rightarrow> pipeline list" where
  "parse_command rules argv =
     (let start = parse_argv argv;
          pipelines = expand rules (3 * max (length start) 1) 0 start;
          exported = concat (map exported_settings (concat pipelines))
      in map (map (\<lambda>s. s\<lparr>sg_environment := own_settings s @ exported\<rparr>)) pipelines)"

section \<open>The words after the global options\<close>

definition global_options :: "string \<Rightarrow> (string \<times> bool) list" where
  "global_options program =
    (if program = ''git'' then
       [(''-c'', True), (''--git-dir'', True), (''--work-tree'', True),
        (''--namespace'', True), (''--config-env'', True), (''--exec-path'', False),
        (''--no-pager'', False), (''-p'', False), (''--paginate'', False),
        (''--bare'', False), (''--no-replace-objects'', False),
        (''--literal-pathspecs'', False), (''--no-optional-locks'', False)]
     else if program = ''kubectl'' then
       [(''-n'', True), (''--namespace'', True), (''--context'', True),
        (''--kubeconfig'', True), (''--cluster'', True), (''--user'', True), (''-s'', True),
        (''--server'', True), (''--token'', True), (''--as'', True), (''--as-group'', True),
        (''--request-timeout'', True), (''-v'', True), (''--v'', True),
        (''--insecure-skip-tls-verify'', False)]
     else if program = ''helm'' then
       [(''-n'', True), (''--namespace'', True), (''--kube-context'', True),
        (''--kubeconfig'', True), (''--kube-apiserver'', True), (''--kube-token'', True),
        (''--debug'', False)]
     else if program = ''terraform'' \<or> program = ''tofu'' then
       [(''-chdir'', False)]
     else if program = ''docker'' \<or> program = ''podman'' then
       [(''--context'', True), (''-c'', True), (''-h'', True), (''--host'', True),
        (''--config'', True), (''-l'', True), (''--log-level'', True), (''-d'', False),
        (''--debug'', False), (''--tls'', False), (''--tlsverify'', False),
        (''--tlscacert'', True), (''--tlscert'', True), (''--tlskey'', True)]
     else if program = ''npm'' then
       [(''--prefix'', True), (''-w'', True), (''--workspace'', True),
        (''--workspaces'', False), (''--silent'', False), (''-s'', False),
        (''--loglevel'', True), (''-q'', False), (''--quiet'', False)]
     else if program = ''pnpm'' then
       [(''-c'', True), (''--dir'', True), (''--filter'', True), (''-f'', True),
        (''-w'', False), (''--workspace-root'', False), (''-r'', False),
        (''--recursive'', False), (''--silent'', False), (''-s'', False),
        (''--reporter'', True), (''--stream'', False), (''--parallel'', False)]
     else if program = ''yarn'' \<or> program = ''bun'' then
       [(''--cwd'', True), (''--silent'', False), (''-s'', False)]
     else if program = ''aws'' then
       [(''--profile'', True), (''--region'', True), (''--output'', True),
        (''--endpoint-url'', True), (''--query'', True), (''--ca-bundle'', True),
        (''--cli-read-timeout'', True), (''--cli-connect-timeout'', True),
        (''--color'', True), (''--no-cli-pager'', False), (''--no-paginate'', False),
        (''--no-verify-ssl'', False), (''--no-sign-request'', False), (''--debug'', False)]
     else if program = ''celery'' then
       [(''-a'', True), (''--app'', True), (''-b'', True), (''--broker'', True),
        (''--result-backend'', True), (''--loader'', True), (''--config'', True),
        (''--workdir'', True), (''-q'', False), (''--quiet'', False),
        (''--no-color'', False)]
     else if program = ''cargo'' then
       [(''-z'', True), (''--config'', True), (''--color'', True), (''--locked'', False),
        (''--offline'', False), (''--frozen'', False), (''-q'', False),
        (''--quiet'', False), (''-v'', False), (''--verbose'', False)]
     else if program = ''make'' \<or> program = ''gmake'' then
       [(''-c'', True), (''-f'', True), (''--directory'', True), (''--file'', True),
        (''--makefile'', True), (''-s'', False), (''--silent'', False), (''-k'', False),
        (''-b'', False), (''-w'', False), (''--no-print-directory'', False)]
     else if program = ''just'' then
       [(''-f'', True), (''--justfile'', True), (''-d'', True),
        (''--working-directory'', True), (''--dotenv-path'', True), (''-q'', False),
        (''--quiet'', False)]
     else if program = ''task'' then
       [(''-t'', True), (''--taskfile'', True), (''-d'', True), (''--dir'', True),
        (''-s'', False), (''--silent'', False), (''-p'', False), (''--parallel'', False)]
     else if program = ''supabase'' then
       [(''--workdir'', True), (''--profile'', True), (''--network-id'', True),
        (''-o'', True), (''--output'', True), (''--debug'', False),
        (''--experimental'', False), (''--yes'', False)]
     else if program = ''stripe'' then
       [(''--api-key'', True), (''--project-name'', True), (''-p'', True),
        (''--color'', True), (''--config'', True), (''--log-level'', True),
        (''--device-name'', True)]
     else [])"

text \<open>The index of the subcommand.\<close>

fun subcommand_index :: "string \<Rightarrow> nat \<Rightarrow> string list \<Rightarrow> nat" where
  "subcommand_index program index [] = index"
| "subcommand_index program index (arg # rest) =
     (if program = ''cargo'' \<and> starts_with arg ''+'' then subcommand_index program (index + 1) rest
      else if \<not> is_option arg then index
      else
        (let (name, has_value) = (case split_once CHR ''='' arg of
             Some (name, _) \<Rightarrow> (name, True) | None \<Rightarrow> (arg, False))
         in case List.find (\<lambda>(option, _). option = name) (global_options program) of
              Some (_, takes_value) \<Rightarrow>
                if takes_value \<and> \<not> has_value then subcommand_index program (index + 2) (tl rest)
                else subcommand_index program (index + 1) rest
            | None \<Rightarrow> index))"

definition subcommand_args :: "string \<Rightarrow> string list \<Rightarrow> string list" where
  "subcommand_args program args =
     (if program = ''docker-compose'' \<or> program = ''podman-compose'' then
        drop (skip_container_options args 0) args
      else
        (let sub = drop (subcommand_index program 0 args) args
         in if (program = ''docker'' \<or> program = ''podman'') \<and> sub \<noteq> [] \<and> hd sub = ''compose'' then
              (let start = skip_container_options sub 1
               in if 1 < start \<and> start < length sub then take 1 sub @ drop start sub else sub)
            else sub))"

definition segment_text :: "segment \<Rightarrow> string" where
  "segment_text segment =
     to_lowercase (join_with '' '' (sg_assignments segment @ sg_argv segment @ sg_redirect_targets segment
       @ (if sg_heredoc segment \<noteq> [] then [sg_heredoc segment] else [])))"

end
