(* ===== verification/ShellSafety.thy ===== *)
theory ShellSafety
  imports ShellParse
begin

text \<open>
  The lexer of shell_risk.rs against the text that the screen of a question shows
  (\<open>shell_words\<close> in src/src/desktop/ui/decisions.rs): the commands of a line, with the signs
  between them, read back word for word. Then the program after the wrappers, and what the
  lexer does not see.
\<close>

section \<open>Words for a shell\<close>

definition safe_char :: "char \<Rightarrow> bool" where
  "safe_char c \<longleftrightarrow> is_ascii_alphanumeric c \<or> c \<in> set ''-_./=:@%+,''"

definition escape_quotes :: "string \<Rightarrow> string" where
  "escape_quotes arg =
     concat (map (\<lambda>c. if c = CHR 0x27 then [CHR 0x27, CHR 0x5C, CHR 0x27, CHR 0x27] else [c]) arg)"

definition shell_word :: "string \<Rightarrow> string" where
  "shell_word arg =
     (if arg \<noteq> [] \<and> list_all safe_char arg then arg
      else CHR 0x27 # escape_quotes arg @ [CHR 0x27])"

definition shell_words :: "string list \<Rightarrow> string" where
  "shell_words command = join_with '' '' (map shell_word command)"

section \<open>Reading words\<close>

lemma push_text_push [simp]: "push_text b (push_text a lx) = push_text (a @ b) lx"
  by (simp add: push_text_def)

lemma safe_char_lex:
  assumes "safe_char c"
  shows "lex_char c lx cs = (push_text [c] lx, cs)"
proof -
  have no: "list_all (\<lambda>d. \<not> safe_char d) [CHR 0x27, CHR 0x22, CHR 0x5C, CHR '' '', CHR 0x09, CHR 0x0A,
      CHR ''|'', CHR '';'', CHR ''&'', CHR ''('', CHR '')'', CHR 0x60, CHR ''{'', CHR ''}'', CHR ''$'',
      CHR ''>'', CHR ''<'']" by code_simp
  have "c \<noteq> d" if "\<not> safe_char d" for d using assms that by blast
  then show ?thesis using no by (simp add: lex_char_def)
qed

lemma lex_plain_word: "list_all safe_char w \<Longrightarrow> w \<noteq> [] \<Longrightarrow> run_lexer lx (w @ r) = run_lexer (push_text w lx) r"
proof (induction w arbitrary: lx)
  case (Cons c w)
  then show ?case by (cases "w = []") (simp_all add: safe_char_lex)
qed simp

lemma single_quoted_end: "CHR 0x27 \<notin> set a \<Longrightarrow> single_quoted (a @ CHR 0x27 # r) = (a, r)"
  by (induction a) auto

lemma escape_quotes_plain: "CHR 0x27 \<notin> set a \<Longrightarrow> escape_quotes a = a"
  by (induction a) (auto simp: escape_quotes_def)

lemma escape_quotes_split:
  "escape_quotes (a @ CHR 0x27 # b) =
     escape_quotes a @ [CHR 0x27, CHR 0x5C, CHR 0x27, CHR 0x27] @ escape_quotes b"
  by (simp add: escape_quotes_def)

lemma lex_quote: "run_lexer lx (CHR 0x27 # cs) = (case single_quoted cs of (text, rest) \<Rightarrow> run_lexer (push_text text lx) rest)"
  by (simp add: lex_char_def split: prod.splits)

lemma lex_backslash: "run_lexer lx (CHR 0x5C # n # cs) = run_lexer (push_text [n] lx) cs"
  by (simp add: lex_char_def)

lemma lex_escaped: "run_lexer lx (CHR 0x27 # escape_quotes w @ CHR 0x27 # r) = run_lexer (push_text w lx) r"
proof (induction w arbitrary: lx rule: length_induct)
  case (1 w)
  show ?case
  proof (cases "CHR 0x27 \<in> set w")
    case True
    then obtain a b where w: "w = a @ CHR 0x27 # b" "CHR 0x27 \<notin> set a" by (meson split_list_first)
    have "run_lexer lx (CHR 0x27 # escape_quotes w @ CHR 0x27 # r) =
        run_lexer (push_text a lx) (CHR 0x5C # CHR 0x27 # CHR 0x27 # escape_quotes b @ CHR 0x27 # r)"
      unfolding w(1) escape_quotes_split escape_quotes_plain [OF w(2)]
      by (simp only: lex_quote append_assoc append_Cons append_Nil single_quoted_end [OF w(2)] prod.case)
    also have "\<dots> = run_lexer (push_text [CHR 0x27] (push_text a lx)) (CHR 0x27 # escape_quotes b @ CHR 0x27 # r)"
      by (rule lex_backslash)
    also have "\<dots> = run_lexer (push_text b (push_text [CHR 0x27] (push_text a lx))) r"
      using 1 w(1) by simp
    finally show ?thesis by (simp add: w(1))
  next
    case False
    then show ?thesis
      by (simp only: lex_quote escape_quotes_plain [OF False] single_quoted_end [OF False] prod.case)
  qed
qed

lemma lex_shell_word: "run_lexer lx (shell_word w @ r) = run_lexer (push_text w lx) r"
  using lex_plain_word [of w lx r] lex_escaped [of lx w r] by (simp add: shell_word_def del: run_lexer.simps)

text \<open>A lexer between words: the pipelines, the pipeline and the words of the segment so far.\<close>

definition between :: "pipeline list \<Rightarrow> pipeline \<Rightarrow> string list \<Rightarrow> lexer" where
  "between pipelines pipeline argv =
     new_lexer\<lparr>lx_pipelines := pipelines, lx_pipeline := pipeline, lx_segment := argv_segment argv\<rparr>"

lemma between_new: "new_lexer = between [] [] []"
  by (simp add: between_def new_lexer_def argv_segment_def default_segment_def)

lemma finish_between [simp]: "finish_word (between ps p argv) = between ps p argv"
  by (simp add: finish_word_def between_def new_lexer_def)

lemma finish_pushed [simp]: "finish_word (push_text w (between ps p argv)) = between ps p (argv @ [w])"
  by (simp add: finish_word_def push_text_def between_def new_lexer_def argv_segment_def)

lemma segment_between [simp]:
  "argv \<noteq> [] \<Longrightarrow> finish_segment (between ps p argv) = between ps (p @ [argv_segment argv]) []"
  by (simp add: finish_segment_def between_def new_lexer_def argv_segment_def default_segment_def)

lemma pipeline_between [simp]: "p \<noteq> [] \<Longrightarrow> finish_pipeline (between ps p argv) = between (ps @ [p]) [] argv"
  by (simp add: finish_pipeline_def between_def new_lexer_def)

lemma end_between [simp]:
  "argv \<noteq> [] \<Longrightarrow> end_command (between ps p argv) = between (ps @ [p @ [argv_segment argv]]) [] []"
  by (simp add: end_command_def)

lemma delimiter_between [simp]: "lx_delimiter (between ps p argv) = None"
  by (simp add: between_def new_lexer_def)

lemma pipelines_between [simp]: "lx_pipelines (between ps p argv) = ps"
  by (simp add: between_def)

lemma lex_blank: "run_lexer lx (CHR '' '' # r) = run_lexer (finish_word lx) r"
  by (simp add: lex_char_def blank_arm_def Let_def)

lemma lex_shell_words:
  "ws \<noteq> [] \<Longrightarrow> run_lexer (between ps p argv) (shell_words ws @ r) =
     run_lexer (push_text (last ws) (between ps p (argv @ butlast ws))) r"
proof (induction ws arbitrary: argv)
  case (Cons w ws)
  show ?case
  proof (cases ws)
    case Nil
    then show ?thesis by (simp add: shell_words_def lex_shell_word del: run_lexer.simps)
  next
    case (Cons x xs)
    then have "shell_words (w # ws) = shell_word w @ CHR '' '' # shell_words ws" by (simp add: shell_words_def)
    then show ?thesis using Cons Cons.IH [of "argv @ [w]"]
      by (simp add: lex_shell_word lex_blank del: run_lexer.simps)
  qed
qed simp

section \<open>Lines of commands\<close>

text \<open>The signs between the commands of a line, and the pipelines that they make.\<close>

datatype joint = Pipe | Semicolon | AndThen | OrElse | Background | LineBreak

fun joint_text :: "joint \<Rightarrow> string" where
  "joint_text Pipe = '' | ''"
| "joint_text Semicolon = ''; ''"
| "joint_text AndThen = '' && ''"
| "joint_text OrElse = '' || ''"
| "joint_text Background = '' & ''"
| "joint_text LineBreak = [CHR 0x0A]"

fun line_text :: "string list \<Rightarrow> (joint \<times> string list) list \<Rightarrow> string" where
  "line_text command [] = shell_words command"
| "line_text command ((j, next_command) # rest) =
     shell_words command @ joint_text j @ line_text next_command rest"

fun line_pipelines :: "string list \<Rightarrow> (joint \<times> string list) list \<Rightarrow> string list list list" where
  "line_pipelines command [] = [[command]]"
| "line_pipelines command ((j, next_command) # rest) =
     (case line_pipelines next_command rest of
        [] \<Rightarrow> [[command]]
      | g # gs \<Rightarrow>
          if j = Pipe then (command # g) # gs else [command] # g # gs)"

definition read_segment :: "string list \<Rightarrow> segment" where
  "read_segment argv = take_assignments (argv_segment argv)"

lemma lex_line_break: "lx_delimiter (finish_word lx) = None \<Longrightarrow>
    run_lexer lx (CHR 0x0A # r) = run_lexer (end_command (finish_word lx)) r"
  by (simp add: lex_char_def blank_arm_def Let_def)

lemma lex_semicolon: "run_lexer lx (CHR '';'' # r) = run_lexer (end_command (finish_word lx)) r"
  by (simp add: lex_char_def operator_arm_def Let_def)

lemma lex_amp: "run_lexer lx (CHR ''&'' # CHR '' '' # r) = run_lexer (end_command (finish_word lx)) (CHR '' '' # r)"
  by (subst run_lexer.simps) (simp add: lex_char_def operator_arm_def Let_def starts_with_def)

lemma lex_and: "run_lexer lx (CHR ''&'' # CHR ''&'' # r) = run_lexer (end_command (finish_word lx)) r"
  by (simp add: lex_char_def operator_arm_def Let_def starts_with_def)

lemma lex_pipe: "run_lexer lx (CHR ''|'' # CHR '' '' # r) = run_lexer (finish_segment (finish_word lx)) (CHR '' '' # r)"
  by (subst run_lexer.simps) (simp add: lex_char_def pipe_arm_def Let_def starts_with_def)

lemma lex_or: "run_lexer lx (CHR ''|'' # CHR ''|'' # r) = run_lexer (end_command (finish_word lx)) r"
  by (simp add: lex_char_def pipe_arm_def end_command_def Let_def starts_with_def)

lemma lex_joint:
  "run_lexer (push_text w (between ps p argv)) (joint_text j @ r) = run_lexer (if j = Pipe
      then between ps (p @ [argv_segment (argv @ [w])]) []
      else between (ps @ [p @ [argv_segment (argv @ [w])]]) [] []) r"
  by (cases j) (simp_all add: lex_blank lex_semicolon lex_amp lex_and lex_pipe lex_or lex_line_break
      del: run_lexer.simps)

lemma line_pipelines_ne: "line_pipelines command rest \<noteq> []"
  by (induction command rest rule: line_pipelines.induct) (auto split: list.splits)

lemma lex_line:
  "command \<noteq> [] \<Longrightarrow> list_all (\<lambda>(j, c). c \<noteq> []) rest \<Longrightarrow>
   lx_pipelines (end_command (finish_word (run_lexer (between ps p []) (line_text command rest)))) =
   ps @ (case map (map argv_segment) (line_pipelines command rest) of g # gs \<Rightarrow> (p @ g) # gs)"
proof (induction command rest arbitrary: ps p rule: line_text.induct)
  case (1 command)
  then have "butlast command @ [last command] = command" by simp
  then show ?case using 1 lex_shell_words [of command ps p "[]" "[]"] by simp
next
  case (2 command j next_command rest)
  have words: "butlast command @ [last command] = command" using 2(2) by simp
  obtain g gs where g: "line_pipelines next_command rest = g # gs"
    using line_pipelines_ne by (cases "line_pipelines next_command rest") auto
  show ?case using 2 g
    by (simp add: lex_shell_words lex_joint words del: run_lexer.simps)
qed

text \<open>C36: What the screen of a question shows of a command, and a line of such commands with
  pipes, semicolons, \<open>&&\<close>, \<open>||\<close>, \<open>&\<close> and line breaks between them, is read back by
  the lexer of the analysis: every command of the line is a segment of its own with exactly its
  words, the segments between two pipes are in one pipeline, and nothing is a redirect.\<close>

theorem line_reads_back:
  assumes "command \<noteq> []" and "list_all (\<lambda>(j, c). c \<noteq> []) rest"
  shows "parse_shell (line_text command rest) = map (map read_segment) (line_pipelines command rest)"
proof -
  obtain g gs where "line_pipelines command rest = g # gs"
    using line_pipelines_ne by (cases "line_pipelines command rest") auto
  then show ?thesis using lex_line [OF assms, of "[]" "[]"]
    by (simp add: parse_shell_def between_new read_segment_def [abs_def] comp_def)
qed

definition sample_words :: "string list" where
  "sample_words = [''echo'', ''it'' @ [CHR 0x27] @ ''s; rm -rf /'']"

definition sample_rest :: "(joint \<times> string list) list" where
  "sample_rest = [(Pipe, [''tee'', ''a b'']), (AndThen, [''ls''])]"

lemma line_reads_back_witness:
  "parse_shell (line_text sample_words sample_rest)
   = [[argv_segment sample_words, argv_segment [''tee'', ''a b'']], [argv_segment [''ls'']]]"
proof -
  have "sample_words \<noteq> []" and "list_all (\<lambda>(j, c). c \<noteq> []) sample_rest" by code_simp+
  from line_reads_back [OF this]
  have "parse_shell (line_text sample_words sample_rest)
      = map (map read_segment) (line_pipelines sample_words sample_rest)" .
  also have "\<dots> = [[argv_segment sample_words, argv_segment [''tee'', ''a b'']], [argv_segment [''ls'']]]"
    by code_simp
  finally show ?thesis .
qed

section \<open>The program after the wrappers\<close>

lemma unwrap_tail: "tail_of (unwrap argv) argv"
proof (induction argv rule: unwrap.induct)
  case (1 argv)
  show ?case
  proof (cases "unwrap_round argv")
    case (Some rest)
    then have "tail_of rest argv" using unwrap_round_tail by (metis tail_of_drop)
    then show ?thesis using 1 Some by (subst unwrap.simps) (auto intro: tail_of_trans)
  qed (subst unwrap.simps, simp)
qed

lemma unwrap_done: "unwrap_round (unwrap argv) = None"
proof (induction argv rule: unwrap.induct)
  case (1 argv)
  then show ?case by (cases "unwrap_round argv") (subst unwrap.simps, simp)+
qed

text \<open>The program that the rules check is a tail of the words of the segment, so the
  words before it, which hold the assignments of \<open>env\<close>, are the first words and their number
  never wraps below zero; and unwrapping goes to the end: what is left is not a wrapper with a
  command.\<close>

theorem effective_argv_is_the_end:
  "\<exists>start. start \<le> length (sg_argv s) \<and> sg_argv s = take start (sg_argv s) @ effective_argv s
     \<and> length (sg_argv s) - length (effective_argv s) = start
     \<and> unwrap_round (effective_argv s) = None"
proof -
  obtain k where k: "effective_argv s = drop k (sg_argv s)"
    using unwrap_tail by (auto simp: effective_argv_def tail_of_def)
  then have "effective_argv s = drop (min k (length (sg_argv s))) (sg_argv s)" by (simp add: min_def)
  moreover have "unwrap_round (effective_argv s) = None" by (simp add: effective_argv_def unwrap_done)
  ultimately show ?thesis by (intro exI [of _ "min k (length (sg_argv s))"]) auto
qed

section \<open>What the lexer does not see\<close>

text \<open>
  The lexer has no comments: an apostrophe in one opens a quoted text, and the commands of the
  lines after it become a word. A here-document goes to the last command of its line, not to the
  one that reads it. A command in double quotes is text. And the loop over inner scripts ends
  after three pipelines, not after three levels.
\<close>

definition comment_line :: string where
  "comment_line = ''echo hi # don'' @ [CHR 0x27] @ ''t stop'' @ [CHR 0x0A] @ ''rm -rf data''"

lemma comment_hides_a_command:
  "map (map sg_argv) (parse_shell comment_line) =
     [[[''echo'', ''hi'', ''#'', ''dont stop'' @ [CHR 0x0A] @ ''rm -rf data'']]]"
  by code_simp

definition here_document :: "string \<Rightarrow> string" where
  "here_document after =
     ''bash <<EOF'' @ after @ [CHR 0x0A] @ ''rm -rf data'' @ [CHR 0x0A] @ ''EOF'' @ [CHR 0x0A]"

definition no_roles :: rule_set where
  "no_roles = \<lparr>rs_roles = (\<lambda>_. None)\<rparr>"

lemma piped_here_document_is_not_read:
  "map (map sg_argv) (parse_command no_roles [''sh'', ''-c'', here_document []]) =
     [[[''bash'']], [[''rm'', ''-rf'', ''data'']]]"
  "map (map sg_argv) (parse_command no_roles [''sh'', ''-c'', here_document '' | tee log'']) =
     [[[''bash''], [''tee'', ''log'']]]"
  by code_simp+

lemma quoted_substitution_is_not_read:
  "map (map sg_argv) (parse_shell (''echo '' @ quote ''$(rm -rf data)'')) =
     [[[''echo'', ''$(rm -rf data)'']]]"
  by code_simp

definition nested_script :: "string \<Rightarrow> string list" where
  "nested_script before =
     [''timeout'', ''60'', ''sh'', ''-c'', before @ ''sh -c '' @ quote ''rm -rf data'']"

lemma third_pipeline_ends_the_search:
  "[[''rm'', ''-rf'', ''data'']] \<in> set (map (map sg_argv) (parse_command no_roles (nested_script [])))"
  "[[''rm'', ''-rf'', ''data'']] \<notin>
     set (map (map sg_argv) (parse_command no_roles (nested_script ''cd a; ls; '')))"
  by code_simp+

end
