(* ===== verification/ShellText.thy ===== *)
theory ShellText
  imports ShellParse
begin

text \<open>
  The checks of src/src/broker/shell_risk.rs on single texts and argument lists: references to
  secrets, secret files, reads of the environment, HTTP requests with their method, path and
  credentials, hosts and recipients, and the phrases that address the reviewer. A function that
  pushes flags returns the flags that it pushes.
\<close>

section \<open>Text\<close>

text \<open>\<open>to_uppercase\<close> for comparison with ASCII texts: the letters outside ASCII whose form has an
  ASCII letter in it.\<close>

definition ascii_upper :: "char \<Rightarrow> char" where
  "ascii_upper c = (if is_ascii_lower c then char_of (byte c - 32) else c)"

definition upper_forms :: "(nat list \<times> string) list" where
  "upper_forms =
    [([0xC3, 0x9F], ''SS''), ([0xC4, 0xB1], ''I''), ([0xC5, 0x89], [CHR 0xCA, CHR 0xBC, CHR ''N'']),
     ([0xC5, 0xBF], ''S''), ([0xC7, 0xB0], [CHR ''J'', CHR 0xCC, CHR 0x8C]),
     ([0xE1, 0xBA, 0x96], [CHR ''H'', CHR 0xCC, CHR 0xB1]),
     ([0xE1, 0xBA, 0x97], [CHR ''T'', CHR 0xCC, CHR 0x88]),
     ([0xE1, 0xBA, 0x98], [CHR ''W'', CHR 0xCC, CHR 0x8A]),
     ([0xE1, 0xBA, 0x99], [CHR ''Y'', CHR 0xCC, CHR 0x8A]),
     ([0xE1, 0xBA, 0x9A], [CHR ''A'', CHR 0xCA, CHR 0xBE]),
     ([0xEF, 0xAC, 0x80], ''FF''), ([0xEF, 0xAC, 0x81], ''FI''), ([0xEF, 0xAC, 0x82], ''FL''),
     ([0xEF, 0xAC, 0x83], ''FFI''), ([0xEF, 0xAC, 0x84], ''FFL''), ([0xEF, 0xAC, 0x85], ''ST''),
     ([0xEF, 0xAC, 0x86], ''ST'')]"

definition upper_char :: "string \<Rightarrow> string" where
  "upper_char c =
     (case map_of upper_forms (map byte c) of Some form \<Rightarrow> form | None \<Rightarrow> map ascii_upper c)"

definition to_uppercase :: "string \<Rightarrow> string" where
  "to_uppercase s = concat (map upper_char (chars s))"

definition starts_any :: "string \<Rightarrow> string list \<Rightarrow> bool" where
  "starts_any text starts = list_ex (starts_with text) starts"

definition ends_any :: "string \<Rightarrow> string list \<Rightarrow> bool" where
  "ends_any text ends = list_ex (ends_with text) ends"

text \<open>\<open>str::split\<close> with a test on characters that need not be ASCII, and the part before the first.\<close>

definition split_chars :: "(string \<Rightarrow> bool) \<Rightarrow> string \<Rightarrow> string list" where
  "split_chars p s = map concat (split_when p (chars s))"

definition before_char :: "(string \<Rightarrow> bool) \<Rightarrow> string \<Rightarrow> string" where
  "before_char p s = concat (takeWhile (\<lambda>c. \<not> p c) (chars s))"

definition one_of :: "string \<Rightarrow> string \<Rightarrow> bool" where
  "one_of signs c \<longleftrightarrow> length c = 1 \<and> hd c \<in> set signs"

definition text_words :: "string \<Rightarrow> string list" where
  "text_words text =
     filter (\<lambda>w. w \<noteq> [])
       (map (trim_end_matches CHR ''/'')
         (split_chars (\<lambda>c. is_whitespace c \<or> one_of ([CHR 0x22, CHR 0x27] @ ''=;&|()<>'' @ [CHR 0x60]) c) text))"

definition has_arg :: "string list \<Rightarrow> string list \<Rightarrow> bool" where
  "has_arg args names = list_ex (\<lambda>arg. arg \<in> set names) args"

text \<open>The texts after each match of \<open>p\<close>; the matches do not overlap.\<close>

function match_rests :: "string \<Rightarrow> string \<Rightarrow> string list" where
  "match_rests p [] = []"
| "match_rests p (c # cs) =
     (if p \<noteq> [] \<and> starts_with (c # cs) p
      then drop (length p) (c # cs) # match_rests p (drop (length p) (c # cs))
      else match_rests p cs)"
  by pat_completeness auto
termination
  by (relation "measure (\<lambda>(p, s). length s)") (auto simp: neq_Nil_conv)

section \<open>References to secrets\<close>

definition names_secret :: "string \<Rightarrow> string \<Rightarrow> bool" where
  "names_secret text name \<longleftrightarrow>
     contains_sub text (''$'' @ name)
     \<or> list_ex (\<lambda>rest. rest \<noteq> [] \<and> \<not> (is_ascii_alphanumeric (hd rest) \<or> hd rest = CHR ''_''))
         (match_rests (''${'' @ name) text)
     \<or> contains_sub text (''env.'' @ name)
     \<or> contains_sub text (''environ['' @ [CHR 0x27] @ name @ [CHR 0x27] @ '']'')
     \<or> contains_sub text (''environ['' @ quote name @ '']'')
     \<or> contains_sub text (''getenv('' @ [CHR 0x27] @ name @ [CHR 0x27] @ '')'')
     \<or> contains_sub text (''getenv('' @ quote name @ '')'')"

definition secret_parts :: "string list" where
  "secret_parts = [''KEY'', ''TOKEN'', ''SECRET'', ''PASSWORD'', ''PASS'', ''DATABASE_URL'', ''DSN'', ''CREDENTIAL'']"

definition refs_secret :: "string \<Rightarrow> string list \<Rightarrow> bool" where
  "refs_secret text secret_names \<longleftrightarrow>
     list_ex (names_secret text) secret_names
     \<or> list_ex (\<lambda>after. contains_any
           (to_uppercase (takeWhile (\<lambda>c. is_ascii_alphanumeric c \<or> c = CHR ''_'') (dropWhile ((=) CHR ''{'') after)))
           secret_parts)
         (after_each ''$'' text)"

definition segment_refs_secret :: "segment \<Rightarrow> string list \<Rightarrow> bool" where
  "segment_refs_secret segment secret_names = list_ex (\<lambda>arg. refs_secret arg secret_names) (sg_argv segment)"

definition is_secret_file :: "string \<Rightarrow> bool" where
  "is_secret_file arg =
     (let name = last (split_on CHR ''/'' arg); lower = to_lowercase name
      in (starts_with name ''.env'' \<and> name \<noteq> ''.env.example'')
         \<or> starts_any name [''id_rsa'', ''id_ed25519'', ''id_ecdsa'']
         \<or> ends_any name [''.pem'', ''.key'']
         \<or> name \<in> set [''credentials'', ''.npmrc'', ''.netrc'']
         \<or> name \<in> set [''.pgpass'', ''.git-credentials'', ''.my.cnf'', ''.vault-token'']
         \<or> ends_any lower [''.p12'', ''.pfx'', ''.jks'', ''.keystore'', ''.ppk'']
         \<or> ends_any lower [''.tfstate'', ''.tfstate.backup'']
         \<or> (ends_with lower ''.json''
            \<and> (contains_any lower [''service-account'', ''serviceaccount'']
               \<or> starts_any lower [''client_secret'', ''firebase-adminsdk'']
               \<or> ends_with lower ''credentials.json''))
         \<or> ends_any arg [''.kube/config'', ''.docker/config.json''])"

definition is_system_path :: "string \<Rightarrow> bool" where
  "is_system_path arg = starts_any arg [''/etc/'', ''/usr/'', ''/Library/'', ''/System/'', ''/private/etc/'']"

definition is_temp_path :: "string \<Rightarrow> bool" where
  "is_temp_path path =
     list_ex (\<lambda>prefix. starts_with path prefix \<and> length prefix < length path)
       [''/tmp/'', ''/private/tmp/'', ''/var/folders/'', ''/private/var/folders/'']"

definition names_only_options :: "string list" where
  "names_only_options =
     [''--only-names'', ''--names-only'', ''--name-only'', ''--only-keys'', ''--keys-only'', ''--no-values'']"

definition names_only :: "string list \<Rightarrow> bool" where
  "names_only args =
     list_ex (\<lambda>arg. takeWhile (\<lambda>c. c \<noteq> CHR ''='') arg \<in> set names_only_options)
       (takeWhile (\<lambda>arg. arg \<noteq> ''--'') args)"

definition push_targets :: "string list \<Rightarrow> string list" where
  "push_targets args =
     (let targets = filter (\<lambda>arg. \<not> is_option arg) (drop 1 args)
      in map (\<lambda>target. last (split_on CHR '':'' target)) (drop (if 1 < length targets then 1 else 0) targets))"

section \<open>Reads of the environment\<close>

definition JQ_PROGRAMS :: "string list" where
  "JQ_PROGRAMS =
    [''jq'', ''gojq'', ''jaq'', ''yq'', ''xq'', ''tomlq'']"

definition is_process_environment :: "string \<Rightarrow> bool" where
  "is_process_environment arg =
     (case find_sub arg ''/proc/'' of None \<Rightarrow> False | Some at \<Rightarrow> contains_sub (drop at arg) ''/environ'')"

text \<open>The code of a filter: texts become blanks, interpolations stay code. The open parentheses of
  each open interpolation are a stack with the last one first.\<close>

function jq_code :: "bool \<Rightarrow> nat list \<Rightarrow> string \<Rightarrow> string" where
  "jq_code in_string open [] = []"
| "jq_code in_string open (c # cs) =
     (if in_string then
        (if c = CHR 0x5C then
           (if starts_with cs ''('' then CHR ''('' # jq_code False (0 # open) (tl cs)
            else jq_code True open (tl cs))
         else if c = CHR 0x22 then CHR '' '' # jq_code False open cs
         else jq_code True open cs)
      else if c = CHR 0x22 then CHR '' '' # jq_code True open cs
      else if c = CHR ''('' then
        c # jq_code False (case open of [] \<Rightarrow> [] | depth # rest \<Rightarrow> (depth + 1) # rest) cs
      else if c = CHR '')'' then
        (case open of
           [] \<Rightarrow> c # jq_code False [] cs
         | depth # rest \<Rightarrow>
             if depth = 0 then c # jq_code True rest cs else c # jq_code False ((depth - 1) # rest) cs)
      else if c = CHR ''#'' then jq_code False open (dropWhile (\<lambda>d. d \<noteq> CHR 0x0A) cs)
      else c # jq_code False open cs)"
  by pat_completeness auto
termination
  by (relation "measure (\<lambda>(_, _, cs). length cs)") (auto simp: le_imp_less_Suc length_dropWhile_le)

definition ident :: "char \<Rightarrow> bool" where
  "ident c \<longleftrightarrow> is_ascii_alphanumeric c \<or> c = CHR ''_''"

text \<open>The words of the code, with the sign before each word.\<close>

function env_word :: "char option \<Rightarrow> string \<Rightarrow> bool" where
  "env_word before [] = False"
| "env_word before (c # cs) =
     (if \<not> (is_ascii_upper c \<or> is_ascii_lower c \<or> c = CHR ''_'')
         \<or> (case before of None \<Rightarrow> False | Some p \<Rightarrow> ident p)
      then env_word (Some c) cs
      else (let word = c # takeWhile ident cs
        in if word = ''ENV'' \<and> before = Some CHR ''$'' then True
           else if word \<in> set [''env'', ''strenv'', ''envsubst''] \<and> before \<notin> {Some CHR ''.'', Some CHR ''$''}
           then True
           else env_word (Some (last word)) (dropWhile ident cs)))"
  by pat_completeness auto
termination
  by (relation "measure (\<lambda>(_, cs). length cs)") (auto simp: le_imp_less_Suc length_dropWhile_le)

definition jq_reads_env :: "string \<Rightarrow> bool" where
  "jq_reads_env code = env_word None (jq_code False [] code)"

definition reads_environment :: "string list \<Rightarrow> bool" where
  "reads_environment argv =
     (case argv of [] \<Rightarrow> False
      | first # args \<Rightarrow>
          (let name = base_name first
           in name = ''printenv''
              \<or> (name = ''env'' \<and> list_all is_option args)
              \<or> (name \<in> set JQ_PROGRAMS \<and> list_ex (\<lambda>arg. \<not> is_option arg \<and> jq_reads_env arg) args)
              \<or> list_ex is_process_environment args))"

definition dumps_environment :: "segment \<Rightarrow> bool" where
  "dumps_environment segment =
     (let argv = sg_argv segment; prog = segment_program segment; args = drop 1 argv;
          dump = (prog = ''printenv''
            \<or> (prog \<in> set [''env'', ''set'', ''declare'', ''typeset'']
               \<and> (length argv = 1 \<or> list_all is_option args))
            \<or> (prog = ''export'' \<and> (length argv = 1 \<or> list_all (\<lambda>arg. arg = ''-p'') args)))
      in dump \<or> reads_environment (effective_argv segment)
         \<or> list_ex is_process_environment (sg_redirect_targets segment))"

definition inline_code_leaks :: "string \<Rightarrow> string list \<Rightarrow> bool" where
  "inline_code_leaks code secret_names =
     (let lower = to_lowercase code
      in (contains_any lower [''process.env'', ''deno.env'', ''bun.env'', ''os.environ'', ''getenv'', ''env::var'']
          \<or> refs_secret code secret_names)
         \<and> contains_any lower [''console.log'', ''print('', ''print '', ''writefile'', ''write('', ''urlopen'',
             ''fetch('', ''http.'', ''https.'', ''requests.'', ''socket'', ''stdout'', ''puts '', ''echo ''])"

section \<open>HTTP requests\<close>

definition ENDPOINT_NAME_ENDS :: "string list" where
  "ENDPOINT_NAME_ENDS =
    [''URL'', ''URI'', ''HOST'', ''ENDPOINT'', ''ADDR'', ''ADDRESS'', ''SERVER'', ''BASE'',
     ''DOMAIN'']"

definition bound_endpoint :: "string \<Rightarrow> string list \<Rightarrow> string option" where
  "bound_endpoint word secret_names =
     (case strip_prefix word ''$'' of None \<Rightarrow> None
      | Some rest \<Rightarrow>
          (case (case strip_prefix rest ''{'' of
                   Some braced \<Rightarrow> split_once CHR ''}'' braced
                 | None \<Rightarrow> Some (takeWhile ident rest, dropWhile ident rest)) of
             None \<Rightarrow> None
           | Some (name, tail) \<Rightarrow>
               if name \<notin> set secret_names \<or> \<not> ends_any (to_uppercase name) ENDPOINT_NAME_ENDS then None
               else
                 (case (case strip_prefix tail '':'' of
                          Some port \<Rightarrow>
                            (let path = dropWhile is_ascii_digit port
                             in if length path = length port then None else Some path)
                        | None \<Rightarrow> Some tail) of
                    None \<Rightarrow> None
                  | Some tail \<Rightarrow>
                      if tail = [] \<or> hd tail \<in> set ''/?#'' then Some (to_lowercase tail) else None)))"

definition names_endpoint :: "string list \<Rightarrow> string \<Rightarrow> bool" where
  "names_endpoint secret_names arg \<longleftrightarrow> bound_endpoint arg secret_names \<noteq> None"

text \<open>The method after an option.\<close>

fun method_option :: "string list \<Rightarrow> string option" where
  "method_option [] = None"
| "method_option (arg # rest) =
     (if arg \<in> set [''-X'', ''--request'', ''--method''] \<and> rest \<noteq> [] then Some (to_uppercase (hd rest))
      else case or_else (strip_prefix arg ''--request='') (or_else (strip_prefix arg ''--method='')
          (case strip_prefix arg ''-X'' of Some m \<Rightarrow> if m = [] then None else Some m | None \<Rightarrow> None)) of
        Some m \<Rightarrow> Some (to_uppercase m)
      | None \<Rightarrow> method_option rest)"

definition http_words :: "string list" where
  "http_words = [''GET'', ''POST'', ''PUT'', ''PATCH'', ''DELETE'', ''HEAD'', ''OPTIONS'']"

definition http_method :: "string list \<Rightarrow> string" where
  "http_method argv =
     (let args = drop 1 argv;
          word = List.find (\<lambda>arg. \<not> is_option arg) args;
          body = list_ex (\<lambda>arg. let lower = to_lowercase arg
            in starts_any lower [''-d'', ''--data''] \<or> lower \<in> set [''-f'', ''--form'', ''--json'']) args
      in case method_option args of
           Some m \<Rightarrow> m
         | None \<Rightarrow>
             (case word of
                Some m \<Rightarrow>
                  if first_base argv \<in> set [''http'', ''https'', ''httpie''] \<and> m \<in> set http_words then m
                  else if body then ''POST'' else ''GET''
              | None \<Rightarrow> if body then ''POST'' else ''GET''))"

text \<open>The path of a URL or of a bound endpoint.\<close>

definition url_path :: "string list \<Rightarrow> string \<Rightarrow> string option" where
  "url_path secret_names arg =
     (let lower = to_lowercase arg
      in case or_else (strip_prefix lower ''https://'') (strip_prefix lower ''http://'') of
           Some rest \<Rightarrow> Some (case split_once CHR ''/'' rest of None \<Rightarrow> [] | Some (_, path) \<Rightarrow> path)
         | None \<Rightarrow> bound_endpoint arg secret_names)"

definition path_words :: "string \<Rightarrow> string list" where
  "path_words path = filter (\<lambda>w. w \<noteq> []) (split_when (\<lambda>c. \<not> is_ascii_alphanumeric c) path)"

definition url_path_words :: "string list \<Rightarrow> string list \<Rightarrow> string list" where
  "url_path_words argv secret_names =
     concat (map path_words (List.map_filter (url_path secret_names) (drop 1 argv)))"

definition url_last_words :: "string list \<Rightarrow> string list \<Rightarrow> string list" where
  "url_last_words argv secret_names =
     map (\<lambda>path. let found = path_words (takeWhile (\<lambda>c. c \<notin> set ''?#'') path)
         in if found = [] then [] else last found)
       (List.map_filter (url_path secret_names) (drop 1 argv))"

definition SEARCH_WORDS :: "string list" where
  "SEARCH_WORDS = [''search'', ''query'', ''count'', ''msearch'', ''mget'']"

definition is_search_post :: "string list \<Rightarrow> string list \<Rightarrow> bool" where
  "is_search_post argv secret_names =
     (let upload = list_ex (\<lambda>arg. to_lowercase arg \<in> set
            [''-f'', ''--form'', ''-t'', ''--upload-file'', ''--post-file'']) (drop 1 argv);
          found = url_last_words argv secret_names
      in http_method argv = ''POST'' \<and> \<not> upload \<and> length found = 1 \<and> hd found \<in> set SEARCH_WORDS)"

definition http_reads :: "string list \<Rightarrow> string list \<Rightarrow> bool" where
  "http_reads argv secret_names \<longleftrightarrow>
     http_method argv = ''GET'' \<or> http_method argv = ''HEAD'' \<or> is_search_post argv secret_names"

definition url_host :: "string \<Rightarrow> string option" where
  "url_host arg =
     (case or_else (strip_prefix arg ''https://'') (strip_prefix arg ''http://'') of None \<Rightarrow> None
      | Some rest \<Rightarrow>
          (let authority = last (split_on CHR ''@'' (takeWhile (\<lambda>c. c \<notin> set ''/?#'') rest));
               host = to_lowercase (takeWhile (\<lambda>c. c \<noteq> CHR '':'') authority)
           in if host = [] then None else Some host))"

definition url_hosts :: "string list \<Rightarrow> string list" where
  "url_hosts argv = List.map_filter url_host argv"

definition is_known_host :: "string \<Rightarrow> string list \<Rightarrow> bool" where
  "is_known_host host known_hosts \<longleftrightarrow>
     list_all (\<lambda>c. is_ascii_alphanumeric c \<or> c \<in> set ''.-_'') host
     \<and> list_ex (\<lambda>known. host = known \<or> ends_with host (''.'' @ known)) known_hosts"

fun writes_body :: "string list \<Rightarrow> bool" where
  "writes_body [] = False"
| "writes_body (arg # rest) =
     (starts_any arg [''-d'', ''--data'']
      \<or> arg \<in> set [''-f'', ''--form'', ''-t'', ''--upload-file'', ''--post-data'', ''--post-file'']
      \<or> (arg \<in> set [''-x'', ''--request'', ''--method''] \<and> rest \<noteq> [] \<and> hd rest \<noteq> ''get'')
      \<or> (starts_with arg ''-x'' \<and> 2 < length arg \<and> drop 2 arg \<noteq> ''get'')
      \<or> writes_body rest)"

definition known_destination :: "string list \<Rightarrow> string list \<Rightarrow> string list \<Rightarrow> bool" where
  "known_destination argv known_hosts secret_names =
     (let hosts = url_hosts argv; bound = list_ex (names_endpoint secret_names) (drop 1 argv)
      in (hosts \<noteq> [] \<or> bound) \<and> list_all (\<lambda>host. is_known_host host known_hosts) hosts)"

definition is_authenticated_read :: "string list \<Rightarrow> string list \<Rightarrow> string list \<Rightarrow> bool" where
  "is_authenticated_read argv known_hosts secret_names \<longleftrightarrow>
     (\<not> writes_body (lower_args (drop 1 argv)) \<or> is_search_post argv secret_names)
     \<and> known_destination argv known_hosts secret_names"

section \<open>What a request sends and prints\<close>

definition HTTP_DESTROY_WORDS :: "string list" where
  "HTTP_DESTROY_WORDS =
    [''delete'', ''purge'', ''flush'', ''truncate'', ''drop'', ''wipe'', ''destroy'',
     ''reset'', ''erase'']"

definition HTTP_MASS_MESSAGE_WORDS :: "string list" where
  "HTTP_MASS_MESSAGE_WORDS =
    [''marketing'', ''singlesend'', ''singlesends'', ''campaign'', ''campaigns'',
     ''newsletter'', ''newsletters'', ''broadcast'', ''broadcasts'', ''blast'']"

definition is_auth_header :: "string \<Rightarrow> bool" where
  "is_auth_header value =
     (case split_once CHR '':'' (to_lowercase value) of None \<Rightarrow> False
      | Some (name, _) \<Rightarrow>
          starts_with name ''authorization'' \<or> contains_any name [''key'', ''token'', ''auth'', ''secret''])"

definition CURL_SHORT_VALUE :: string where
  "CURL_SHORT_VALUE = ''AbcCdDeEFHKmoPQrTuUwxXyYz''"

definition HTTP_LONG_VALUE_OPTIONS :: "string list" where
  "HTTP_LONG_VALUE_OPTIONS =
    [''--header'', ''--data'', ''--data-raw'', ''--data-binary'', ''--data-urlencode'',
     ''--json'', ''--user'', ''--output'', ''--request'', ''--user-agent'', ''--referer'',
     ''--cookie'', ''--cookie-jar'', ''--form'', ''--upload-file'', ''--write-out'',
     ''--proxy'', ''--dump-header'', ''--config'', ''--cert'', ''--max-time'', ''--url'',
     ''--method'', ''--auth'', ''--auth-type'', ''--session'']"

text \<open>A group of short options of \<open>curl\<close>: whether it prints, and whether the last takes the next word.\<close>

fun curl_group :: "string \<Rightarrow> bool \<times> bool" where
  "curl_group [] = (False, False)"
| "curl_group (c # cs) =
     (if c = CHR ''v'' then (True, False)
      else if c \<in> set CURL_SHORT_VALUE then (False, cs = [])
      else curl_group cs)"

definition httpie_names :: "string list" where
  "httpie_names = [''http'', ''https'', ''httpie'']"

definition has_head_or_body :: "string \<Rightarrow> bool" where
  "has_head_or_body v \<longleftrightarrow> CHR ''H'' \<in> set v \<or> CHR ''B'' \<in> set v"

definition long_prints :: "string \<Rightarrow> string \<Rightarrow> string list \<Rightarrow> bool" where
  "long_prints program long rest =
     (let name = takeWhile (\<lambda>c. c \<noteq> CHR ''='') long
      in if program = ''curl'' then name \<in> set [''verbose'', ''trace'', ''trace-ascii'', ''libcurl'']
         else if program = ''wget'' then name = ''debug''
         else if program \<in> set httpie_names then
           name \<in> set [''verbose'', ''offline'']
           \<or> (name = ''print''
              \<and> (case or_else (map_option snd (split_once CHR ''='' long)) (get rest 0) of
                   None \<Rightarrow> False | Some v \<Rightarrow> has_head_or_body v))
         else False)"

definition is_alphabetic :: "char \<Rightarrow> bool" where
  "is_alphabetic c \<longleftrightarrow> is_ascii_upper c \<or> is_ascii_lower c"

fun prints_request :: "string \<Rightarrow> string list \<Rightarrow> bool" where
  "prints_request program [] = False"
| "prints_request program (arg # rest) =
     (if arg = ''--'' then False
      else case strip_prefix arg ''--'' of
        Some long \<Rightarrow>
          if long_prints program long rest then True
          else if CHR ''='' \<notin> set long \<and> arg \<in> set HTTP_LONG_VALUE_OPTIONS
          then prints_request program (tl rest)
          else prints_request program rest
      | None \<Rightarrow>
          (case strip_prefix arg ''-'' of
             None \<Rightarrow> prints_request program rest
           | Some short \<Rightarrow>
               if short = [] then prints_request program rest
               else if program = ''curl'' then
                 (case curl_group short of (prints, skip) \<Rightarrow>
                   if prints then True else prints_request program (if skip then tl rest else rest))
               else if program = ''wget'' then
                 (if \<not> starts_with short ''n'' \<and> CHR ''d'' \<in> set short \<and> list_all is_alphabetic short
                  then True else prints_request program rest)
               else if program \<in> set httpie_names then
                 (if list_all ((=) CHR ''v'') short then True
                  else case strip_prefix short ''p'' of
                    Some v \<Rightarrow>
                      if v = [] then
                        (if rest \<noteq> [] \<and> has_head_or_body (hd rest) then True
                         else prints_request program (tl rest))
                      else if has_head_or_body v then True
                      else prints_request program rest
                  | None \<Rightarrow> prints_request program rest)
               else prints_request program rest))"

definition http_prints_request :: "string list \<Rightarrow> bool" where
  "http_prints_request argv = prints_request (first_base argv) (drop 1 argv)"

definition http_carries_credential :: "string list \<Rightarrow> string list \<Rightarrow> bool" where
  "http_carries_credential argv secret_names =
     list_ex (\<lambda>arg. let lower = to_lowercase arg
       in refs_secret arg secret_names
          \<or> lower \<in> set [''-u'', ''--user'', ''-a'', ''--auth'', ''-n'', ''--netrc'', ''--netrc-optional'']
          \<or> starts_any lower [''--user='', ''--auth='', ''--oauth2-bearer'', ''--netrc-file'']
          \<or> is_auth_header lower) (drop 1 argv)"

section \<open>Recipients\<close>

definition TEST_EMAIL_DOMAINS :: "string list" where
  "TEST_EMAIL_DOMAINS =
    [''.test'', ''.example'', ''.invalid'', ''.localhost'', ''example.com'', ''example.org'',
     ''resend.dev'']"

definition test_domain :: "string \<Rightarrow> string \<Rightarrow> bool" where
  "test_domain domain test \<longleftrightarrow>
     ends_with domain (dropWhile ((=) CHR ''.'') test)
     \<and> (starts_with test ''.'' \<or> domain = test \<or> ends_with domain (''.'' @ test))"

definition trim_token :: "string \<Rightarrow> string" where
  "trim_token token =
     (let p = (\<lambda>c. \<not> is_ascii_alphanumeric c \<and> c \<notin> set ''@+.'')
      in rev (dropWhile p (rev (dropWhile p token))))"

definition real_recipient :: "string \<Rightarrow> bool" where
  "real_recipient token =
     ((case split_once CHR ''@'' token of None \<Rightarrow> False
       | Some (local, domain) \<Rightarrow>
           (let domain = to_lowercase domain
            in local \<noteq> [] \<and> CHR ''.'' \<in> set domain \<and> \<not> list_ex (test_domain domain) TEST_EMAIL_DOMAINS))
      \<or> (starts_with token ''+'' \<and> 9 \<le> length (filter is_ascii_digit token)
         \<and> list_all is_ascii_digit (tl token)))"

definition check_recipients :: "string list \<Rightarrow> string list" where
  "check_recipients argv =
     (let text = join_with '' '' argv; lower = to_lowercase text;
          sends = list_ex (\<lambda>w. w \<in> set [''send'', ''sms'', ''notify'', ''broadcast'', ''newsletter'', ''sendmail''])
              (sql_words text)
            \<or> contains_any lower [''/emails'', ''/messages'', ''messages:create'', ''--to'']
      in if \<not> sends then []
         else if list_ex (\<lambda>token. real_recipient (trim_token token))
             (split_chars (\<lambda>c. is_whitespace c \<or> one_of ([CHR 0x22, CHR 0x27] @ '',{}[]()<>='') c) text)
           then [''real_recipient''] else [])"

text \<open>The loop of \<open>check_http\<close> over the words after the program.\<close>

definition auth_value :: "string \<Rightarrow> string \<Rightarrow> bool" where
  "auth_value lower value =
     (let v = to_lowercase value
      in is_auth_header v \<or> starts_with v ''apikey:'' \<or> CHR '':'' \<notin> set v
         \<or> lower = ''-u'' \<or> lower = ''--user'' \<or> contains_sub v '':$'')"

fun http_flags :: "bool \<Rightarrow> string list \<Rightarrow> string list \<Rightarrow> string list" where
  "http_flags known_host secret_names [] = []"
| "http_flags known_host secret_names (arg # rest) =
     (let lower = to_lowercase arg;
          takes = lower \<in> set [''-h'', ''--header'', ''-u'', ''--user''];
          (is_header, value) =
            (if takes then (True, if rest = [] then [] else hd rest)
             else case strip_prefix lower ''--header='' of
               Some v \<Rightarrow> (True, v) | None \<Rightarrow> (False, arg));
          destination = \<not> is_header \<and> names_endpoint secret_names arg
      in (if refs_secret value secret_names \<and> \<not> destination
            \<and> \<not> (is_header \<and> auth_value lower value \<and> known_host) then [''secret_output''] else [])
         @ (if starts_with arg ''@'' \<and> is_secret_file (tl arg) then [''secret_output''] else [])
         @ (if (starts_with lower ''-f'' \<or> lower = ''--form'') \<and> rest \<noteq> []
              \<and> contains_any (hd rest) [''@-'', ''.env''] then [''secret_output''] else [])
         @ http_flags known_host secret_names (if takes then tl rest else rest))"

definition check_http :: "string list \<Rightarrow> string list \<Rightarrow> string list \<Rightarrow> string list" where
  "check_http argv secret_names known_hosts =
     (let known_host = known_destination argv known_hosts secret_names;
          method = http_method argv;
          path = url_path_words argv secret_names;
          has = (\<lambda>words. list_ex (\<lambda>word. word \<in> set words) path)
      in (if method \<noteq> ''GET'' \<and> method \<noteq> ''HEAD'' then
            (if method = ''DELETE'' \<or> has HTTP_DESTROY_WORDS then [''data_loss''] else [])
            @ (if has HTTP_MASS_MESSAGE_WORDS then [''production''] else [])
          else [])
         @ (if http_prints_request argv \<and> http_carries_credential argv secret_names
            then [''secret_output''] else [])
         @ http_flags known_host secret_names (drop 1 argv)
         @ check_recipients argv)"

section \<open>Phrases that address the reviewer\<close>

definition INJECTION_PHRASES :: "string list" where
  "INJECTION_PHRASES =
    [''ignore previous'', ''ignore all previous'', ''ignore all rules'',
     ''ignore all instructions'', ''ignore all checks'', ''ignore the previous'',
     ''ignore the above'', ''ignore the rules'', ''ignore the instructions'',
     ''ignore the review'', ''ignore the owner'', ''ignore the policy'', ''ignore the check'',
     ''already approved'', ''pre-approved'', ''preapproved'', ''approved by the owner'',
     ''owner approved'', ''owner said'', ''the owner says'', ''skip the review'',
     ''skip review'', ''mark it safe'', ''mark this safe'', ''mark as safe'',
     ''is safe, do not'', ''do not flag'', ''don'' @ [CHR 0x27] @ ''t flag'',
     ''override the review'', ''override the policy'', ''override the owner'',
     ''override the check'', ''override approval'', ''admin override'', ''security override'',
     ''bypass the review'', ''bypass review'', ''bypass the check'', ''bypass approval'',
     ''bypass the approval'', ''bypass the owner'', ''bypass the policy'',
     ''review is disabled for this'', ''checks are disabled for this'',
     ''approval is disabled for this'', ''auto-approve'', ''autoapprove'', ''approve all'',
     ''approve this command'', ''approve this run'', ''approve this request'',
     ''approve this and'', ''you must approve'', ''do not ask'',
     ''don'' @ [CHR 0x27] @ ''t ask'', ''zero risk'', ''no risk'', ''answer no'',
     ''apassy is in maintenance mode'', ''review is in maintenance mode'',
     ''reviewer is in maintenance mode'', ''system:'', ''[admin]'', ''[system]'',
     ''as the security model'', ''as the reviewer you'', ''note to the reviewer'',
     ''to the reviewer:'', ''the reviewer must'', ''the bouncer'', ''you are now'',
     ''security gate'', ''gate note'', ''label it safe'', ''label it as safe'',
     ''label this safe'', ''label this as safe'', ''skip all checks'', ''skip all review'',
     ''skip all approvals'', ''skip the check'', ''skip checks'', ''verified safe'',
     ''skip the remaining checks'', ''skip remaining checks'', ''no need to show the owner'',
     ''not show this to the owner'', ''treat as safe'', ''treat it as safe'',
     ''classify as safe'', ''classify it as safe'', ''classify this as safe'',
     ''approved in slack'', ''approved in chat'', ''note for the reviewer'',
     ''note for reviewer'', ''note to reviewer'', ''reviewer model'', ''command reviewer'',
     ''note for apassy'', ''note to apassy'', ''apassy:'', ''apassy should'', ''apassy must'',
     ''answer run'', ''answer yes'', ''answer allow'', ''answer approve'',
     ''respond with run'', ''respond with yes'', ''respond with allow'',
     ''respond with approve'', ''reply with run'', ''reply with allow'', ''verdict: run'',
     ''approve everything'', ''approve the next'', ''allow this command'', ''allow this run'',
     ''allow everything'', ''let it through'', ''let this through'', ''auto approve'',
     ''owner has approved'', ''owner has pre-approved'', ''approved everything'',
     ''owner already'', ''owner has authorized'', ''authorized by the owner'',
     ''on behalf of the owner'', ''no approval needed'', ''no need for approval'',
     ''approval is not needed'', ''approval not required'', ''skip approval'',
     ''skip the approval'', ''consider it safe'', ''consider this safe'', ''treat prod as'',
     ''treat production as'', ''treat this as safe'', ''previous instructions'',
     ''prior instructions'']"

definition INJECTION_WORDS :: "string list" where
  "INJECTION_WORDS =
    [''bouncer'']"

definition model_labels :: "string list" where
  "model_labels =
    [''user request:'', ''shell command:'', ''agent'' @ [CHR 0x27] @ ''s stated purpose:'', ''owner rule:'', ''task_match'',
     ''rule_break'', ''<|system|>'', ''<|assistant|>'', ''[inst]'', ''[system]'']"

definition has_injection :: "string \<Rightarrow> bool" where
  "has_injection text =
     (let lower = join_with '' '' (split_whitespace (to_lowercase text))
      in contains_any lower INJECTION_PHRASES
         \<or> list_ex (\<lambda>word. word \<in> set INJECTION_WORDS) (split_when (\<lambda>c. \<not> is_ascii_alphanumeric c) lower)
         \<or> contains_any lower model_labels)"

definition INJECTION_FLAG :: string where
  "INJECTION_FLAG = ''injection_phrase''"

end
