(* ===== verification/ShellHosts.thy ===== *)
theory ShellHosts
  imports ShellText
begin

text \<open>
  The destination hosts of a command (src/src/broker/shell_risk.rs, from \<open>command_hosts\<close> on):
  hosts in URLs, of database clients with their options, settings and connection texts, and of
  HTTP tools with their proxies and targets.
\<close>

section \<open>Hosts in texts\<close>

definition is_u8 :: "string \<Rightarrow> bool" where
  "is_u8 part \<longleftrightarrow> parse_number 10 255 part \<noteq> None"

definition is_loopback :: "string \<Rightarrow> bool" where
  "is_loopback host \<longleftrightarrow>
     host \<in> set [''localhost'', ''::1'', ''0.0.0.0'', ''host.docker.internal'', ''0:0:0:0:0:0:0:1'']
     \<or> ends_with host ''.localhost''
     \<or> (case strip_prefix host ''127.'' of None \<Rightarrow> False
        | Some rest \<Rightarrow> length (split_on CHR ''.'' rest) = 3 \<and> list_all is_u8 (split_on CHR ''.'' rest))"

definition unquoted :: "string \<Rightarrow> string" where
  "unquoted text = trim_chars [CHR 0x22, CHR 0x27] (trim text)"

text \<open>The characters of a host. A host may have letters outside ASCII, which count as an unknown
  destination. Their lowercase forms are not modelled: apart from the two that \<open>to_lowercase\<close> names,
  such a letter keeps its case here, where the code writes the small letter. No ASCII host and no
  comparison with one is touched by it.\<close>

definition host_char :: "string \<Rightarrow> bool" where
  "host_char c =
     (if length c = 1 \<and> byte (hd c) < 128
      then is_ascii_alphanumeric (hd c) \<or> hd c \<in> set ''.-_:%''
      else \<not> is_control c \<and> \<not> is_whitespace c)"

definition clean_host :: "string \<Rightarrow> string option" where
  "clean_host text =
     (let text = unquoted text
      in if text = [] \<or> CHR ''$'' \<in> set text \<or> CHR 0x60 \<in> set text \<or> starts_with text ''/'' then None
         else
           (let text = last (split_on CHR ''@'' text);
                host = (case strip_prefix text ''['' of
                    Some v6 \<Rightarrow> takeWhile (\<lambda>c. c \<noteq> CHR '']'') v6
                  | None \<Rightarrow>
                      if 2 \<le> length (filter ((=) CHR '':'') text) then text
                      else takeWhile (\<lambda>c. c \<noteq> CHR '':'') text);
                host = to_lowercase (trim_end_matches CHR ''.'' host)
            in if host \<noteq> [] \<and> \<not> starts_any host [''.'', ''-''] \<and> list_all host_char (chars host)
               then Some host else None))"

definition host_list :: "string \<Rightarrow> string list" where
  "host_list text =
     (let text = unquoted text;
          text = (case split_once CHR ''/'' text of
              Some (name, hosts) \<Rightarrow> if CHR '':'' \<notin> set name \<and> name \<noteq> [] then hosts else text
            | None \<Rightarrow> text)
      in List.map_filter clean_host (split_on CHR '','' text))"

definition authority_end :: "string \<Rightarrow> bool" where
  "authority_end c \<longleftrightarrow>
     is_whitespace c \<or> one_of (''/?#'' @ [CHR 0x22, CHR 0x27, CHR 0x60] @ ''<>();|'' @ [CHR 0x5C]) c"

function scheme_url_hosts :: "string \<Rightarrow> string list" where
  "scheme_url_hosts rest =
     (case find_sub rest ''://'' of
        None \<Rightarrow> []
      | Some pos \<Rightarrow>
          (let before = take pos rest; after = drop (pos + 3) rest;
               host_part = last (split_on CHR ''@'' (before_char authority_end after))
           in (if before \<noteq> [] \<and> is_ascii_alphanumeric (last before)
               then List.map_filter clean_host (split_on CHR '','' host_part) else [])
              @ scheme_url_hosts after))"
  by pat_completeness auto
termination
proof (relation "measure length", goal_cases)
  case (2 rest pos)
  then have "rest \<noteq> []" by auto
  then show ?case using 2 by (cases rest) auto
qed simp

declare scheme_url_hosts.simps [simp del]

definition conninfo_hosts :: "string \<Rightarrow> string list" where
  "conninfo_hosts text =
     concat (map host_list
       (List.map_filter (\<lambda>word. find_map (strip_prefix (to_lowercase word)) [''host='', ''hostaddr=''])
         (split_whitespace text)))"

section \<open>Database clients\<close>

record db_family =
  db_host :: "string list"
  db_uri :: "string list"
  db_with_value :: "string list"
  db_env :: "string list"
  db_conninfo :: bool
  db_operand_host :: bool

definition PG_TOOLS :: "string list" where
  "PG_TOOLS =
    [''psql'', ''pg_dump'', ''pg_dumpall'', ''pg_restore'', ''pgcli'', ''pg_isready'',
     ''createdb'', ''dropdb'', ''createuser'', ''dropuser'', ''vacuumdb'', ''reindexdb'',
     ''clusterdb'', ''pg_basebackup'', ''pg_receivewal'', ''pg_amcheck'']"

definition MYSQL_TOOLS :: "string list" where
  "MYSQL_TOOLS =
    [''mysql'', ''mariadb'', ''mysqldump'', ''mariadb-dump'', ''mysqladmin'',
     ''mariadb-admin'', ''mysqlimport'', ''mysqlshow'', ''mysqlcheck'', ''mysqlpump'',
     ''mycli'', ''mysqlsh'']"

definition MONGO_TOOLS :: "string list" where
  "MONGO_TOOLS =
    [''mongosh'', ''mongo'', ''mongodump'', ''mongorestore'', ''mongoexport'', ''mongoimport'',
     ''mongostat'', ''mongotop'', ''mongofiles'']"

definition REDIS_TOOLS :: "string list" where
  "REDIS_TOOLS = [''redis-cli'', ''valkey-cli'', ''keydb-cli'']"

definition family_of :: "string \<Rightarrow> db_family option" where
  "family_of name =
    (if name \<in> set PG_TOOLS then Some \<lparr>db_host = [''-h'', ''--host''], db_uri = [''-d'', ''--dbname'', ''--maintenance-db''],
       db_with_value = [''-c'', ''--command'', ''-f'', ''--file'', ''-U'', ''--username'', ''-p'', ''--port'',
        ''-v'', ''--set'', ''--variable'', ''-P'', ''--pset'', ''-F'', ''--field-separator'',
        ''-R'', ''--record-separator'', ''-o'', ''--output'', ''-L'', ''--log-file'', ''-T'',
        ''--table-attr'', ''-t'', ''--table'', ''-n'', ''--schema'', ''-N'', ''--exclude-schema'',
        ''-j'', ''--jobs'', ''-Z'', ''--compress'', ''-E'', ''--encoding'', ''--role''],
       db_env = [''pghost'', ''pghostaddr''], db_conninfo = True, db_operand_host = False\<rparr>
     else if name \<in> set MYSQL_TOOLS then Some \<lparr>db_host = [''-h'', ''--host''], db_uri = [''--uri'', ''--url''],
       db_with_value = [''-e'', ''--execute'', ''-u'', ''--user'', ''-P'', ''--port'', ''-D'', ''--database'',
        ''--protocol'', ''-S'', ''--socket'', ''--default-character-set'', ''--ssl-ca'',
        ''--ssl-cert'', ''--ssl-key'', ''--ssl-mode'', ''--defaults-file'',
        ''--defaults-extra-file'', ''--result-file'', ''-r'', ''--where'', ''-w'', ''--tables''],
       db_env = [''mysql_host''], db_conninfo = False, db_operand_host = name = ''mysqlsh''\<rparr>
     else if name \<in> set MONGO_TOOLS then
       Some \<lparr>db_host = if name = ''mongosh'' \<or> name = ''mongo'' then [''--host''] else [''-h'', ''--host''],
       db_uri = [''--uri''],
       db_with_value = [''--eval'', ''-u'', ''--username'', ''-p'', ''--password'', ''--port'', ''-f'',
        ''--file'', ''-d'', ''--db'', ''-c'', ''--collection'', ''-o'', ''--out'', ''-q'',
        ''--query'', ''--authenticationDatabase'', ''--authenticationMechanism'', ''--archive'',
        ''--gzip-file'', ''--type'', ''--fields''],
       db_env = [], db_conninfo = False, db_operand_host = False\<rparr>
     else if name \<in> set REDIS_TOOLS then Some \<lparr>db_host = [''-h''], db_uri = [''-u''],
       db_with_value = [''-p'', ''-a'', ''--pass'', ''--user'', ''-n'', ''-r'', ''-i'', ''-s'', ''-d'', ''--rdb'',
        ''--pattern'', ''--count'', ''--eval'', ''--tls-cert'', ''--key'', ''--cacert''],
       db_env = [], db_conninfo = False, db_operand_host = False\<rparr>
     else if name = ''clickhouse-client'' then Some \<lparr>db_host = [''-h'', ''--host''], db_uri = [],
       db_with_value = [''-q'', ''--query'', ''-u'', ''--user'', ''--password'', ''--port'', ''-d'',
        ''--database'', ''-f'', ''--format'', ''--queries-file''],
       db_env = [''clickhouse_host''], db_conninfo = False, db_operand_host = False\<rparr>
     else if name = ''sqlcmd'' then Some \<lparr>db_host = [''-S'', ''--server''], db_uri = [],
       db_with_value = [''-Q'', ''-q'', ''-U'', ''-P'', ''-d'', ''-i'', ''-o'', ''-v'', ''-s'', ''-W'', ''-h'',
        ''-l'', ''-t''],
       db_env = [''sqlcmdserver''], db_conninfo = False, db_operand_host = False\<rparr>
     else if name = ''cqlsh'' then Some \<lparr>db_host = [], db_uri = [],
       db_with_value = [''-u'', ''--username'', ''-p'', ''--password'', ''-k'', ''--keyspace'', ''-f'',
        ''--file'', ''-e'', ''--execute'', ''--cqlshrc'', ''--cqlversion'',
        ''--protocol-version'', ''--connect-timeout'', ''--request-timeout''],
       db_env = [''cqlsh_host''], db_conninfo = False, db_operand_host = True\<rparr>
     else None)"

definition value_of_family :: "db_family \<Rightarrow> string \<Rightarrow> string list" where
  "value_of_family family value =
     (let out = scheme_url_hosts value
      in if out = [] \<and> db_conninfo family then conninfo_hosts value else out)"

definition opt_list :: "'a option \<Rightarrow> 'a list" where
  "opt_list x = (case x of None \<Rightarrow> [] | Some v \<Rightarrow> [v])"

text \<open>The hosts of an option value, and the value attached to a short host option.\<close>

definition host_value :: "string \<Rightarrow> string \<Rightarrow> string list" where
  "host_value name value =
     (let value = (case strip_prefix value ''tcp:'' of None \<Rightarrow> value | Some v \<Rightarrow> v)
      in scheme_url_hosts value
         @ (if name = ''sqlcmd'' then opt_list (clean_host (takeWhile (\<lambda>c. c \<noteq> CHR '','') value))
            else host_list value))"

definition uri_value :: "db_family \<Rightarrow> string \<Rightarrow> string list" where
  "uri_value family value =
     value_of_family family value
     @ (if db_operand_host family then
          (case split_once CHR ''@'' value of None \<Rightarrow> [] | Some (_, h) \<Rightarrow> opt_list (clean_host h))
        else [])"

definition attached_host :: "db_family \<Rightarrow> string \<Rightarrow> string option" where
  "attached_host family arg =
     find_map (\<lambda>short.
       if length short = 2 \<and> \<not> starts_with short ''--'' then
         (case strip_prefix arg short of Some v \<Rightarrow> if v = [] then None else Some v | None \<Rightarrow> None)
       else None) (db_host family)"

definition operand_hosts :: "db_family \<Rightarrow> bool \<Rightarrow> string \<Rightarrow> string list" where
  "operand_hosts family first_operand arg =
     value_of_family family arg
     @ (if db_operand_host family \<and> first_operand \<and> \<not> contains_sub arg ''://'' then
          opt_list (clean_host (case split_once CHR ''@'' arg of Some (_, host) \<Rightarrow> host | None \<Rightarrow> arg))
        else [])"

fun client_hosts :: "string \<Rightarrow> db_family \<Rightarrow> bool \<Rightarrow> string list \<Rightarrow> string list" where
  "client_hosts name family first_operand [] = []"
| "client_hosts name family first_operand (arg # rest) =
     (let (option, attached) = (case split_once CHR ''='' arg of
            Some (option, v) \<Rightarrow> if starts_with option ''--'' then (option, Some v) else (arg, None)
          | None \<Rightarrow> (arg, None))
      in if option \<in> set (db_host family @ db_uri family @ db_with_value family) then
           (case attached of
              Some v \<Rightarrow>
                (if option \<in> set (db_host family) then host_value name v
                 else if option \<in> set (db_uri family) then uri_value family v else [])
                @ client_hosts name family first_operand rest
            | None \<Rightarrow>
                (case rest of
                   [] \<Rightarrow> []
                 | v # rest' \<Rightarrow>
                     (if option \<in> set (db_host family) then host_value name v
                      else if option \<in> set (db_uri family) then uri_value family v else [])
                     @ client_hosts name family first_operand rest'))
         else case attached_host family arg of
           Some v \<Rightarrow> host_list v @ client_hosts name family first_operand rest
         | None \<Rightarrow>
             if is_option arg \<and> 1 < length arg then client_hosts name family first_operand rest
             else operand_hosts family first_operand arg @ client_hosts name family False rest)"

definition db_client_hosts :: "string list \<Rightarrow> string list \<Rightarrow> string list option" where
  "db_client_hosts argv environment =
     (if argv = [] then None
      else map_option (\<lambda>family.
          client_hosts (first_base argv) family True (drop 1 argv)
          @ concat (map (\<lambda>setting. case split_once CHR ''='' setting of
                None \<Rightarrow> []
              | Some (key, v) \<Rightarrow> if key \<in> set (db_env family) then host_list v else [])
            environment))
        (family_of (first_base argv)))"

section \<open>HTTP tools\<close>

definition HTTP_TOOLS :: "string list" where
  "HTTP_TOOLS =
    [''curl'', ''curlie'', ''wget'', ''wget2'', ''http'', ''https'', ''httpie'', ''xh'',
     ''xhs'']"

definition HTTP_HOST_OPTIONS :: "string list" where
  "HTTP_HOST_OPTIONS =
    [''-x'', ''--proxy'', ''--preproxy'', ''--socks4'', ''--socks4a'', ''--socks5'',
     ''--socks5-hostname'', ''--connect-to'', ''--resolve'', ''--dns-servers'']"

definition CURL_VALUE_OPTIONS :: "string list" where
  "CURL_VALUE_OPTIONS =
    [''-A'', ''--user-agent'', ''-b'', ''--cookie'', ''-c'', ''--cookie-jar'', ''-C'',
     ''--continue-at'', ''-d'', ''--data'', ''--data-ascii'', ''--data-binary'',
     ''--data-raw'', ''--data-urlencode'', ''-D'', ''--dump-header'', ''-E'', ''--cert'',
     ''--cert-type'', ''--cacert'', ''--capath'', ''--ciphers'', ''-K'', ''--config'',
     ''--connect-timeout'', ''-e'', ''--referer'', ''-F'', ''--form'', ''--form-string'',
     ''-H'', ''--header'', ''--proxy-header'', ''-m'', ''--max-time'', ''--max-filesize'',
     ''--max-redirs'', ''-o'', ''--output'', ''--output-dir'', ''-P'', ''--ftp-port'', ''-Q'',
     ''--quote'', ''-r'', ''--range'', ''--retry'', ''--retry-delay'', ''--retry-max-time'',
     ''-T'', ''--upload-file'', ''-t'', ''--telnet-option'', ''-u'', ''--user'', ''-U'',
     ''--proxy-user'', ''--oauth2-bearer'', ''-w'', ''--write-out'', ''-X'', ''--request'',
     ''-Y'', ''--speed-limit'', ''-y'', ''--speed-time'', ''-z'', ''--time-cond'',
     ''--limit-rate'', ''--interface'', ''--local-port'', ''--doh-url'', ''--unix-socket'',
     ''--abstract-unix-socket'', ''--key'', ''--key-type'', ''--pass'', ''--pinnedpubkey'',
     ''--json'', ''--url-query'', ''--variable'', ''--aws-sigv4'', ''--stderr'', ''--trace'',
     ''--trace-ascii'', ''--keepalive-time'', ''--expect100-timeout'', ''--netrc-file'',
     ''--noproxy'', ''--proto'', ''--proto-default'', ''--proto-redir'', ''--proxy-cacert'',
     ''--proxy-cert'', ''--proxy-key'', ''--proxy-pass'', ''--request-target'', ''--tls-max'',
     ''--create-file-mode'', ''--mail-from'', ''--mail-rcpt'', ''--mail-auth'',
     ''--max-filesize'', ''--rate'', ''--parallel-max'']"

definition CURL_VALUE_SHORTS :: string where
  "CURL_VALUE_SHORTS = ''AbcCdDeEFHKmoPQrtTuUwxXyYz''"

definition WGET_VALUE_OPTIONS :: "string list" where
  "WGET_VALUE_OPTIONS =
    [''-O'', ''--output-document'', ''-o'', ''--output-file'', ''-a'', ''--append-output'',
     ''-e'', ''--execute'', ''-U'', ''--user-agent'', ''--header'', ''--user'', ''--password'',
     ''--http-user'', ''--http-password'', ''--post-data'', ''--post-file'', ''--body-data'',
     ''--body-file'', ''--method'', ''-P'', ''--directory-prefix'', ''-t'', ''--tries'',
     ''-T'', ''--timeout'', ''-w'', ''--wait'', ''-Q'', ''--quota'', ''-i'', ''--input-file'',
     ''-B'', ''--base'', ''--load-cookies'', ''--save-cookies'', ''--ca-certificate'',
     ''--certificate'', ''--private-key'', ''--bind-address'', ''-l'', ''--level'']"

definition WGET_VALUE_SHORTS :: string where
  "WGET_VALUE_SHORTS = ''OoaeUPtTwQiBl''"

definition HTTPIE_VALUE_OPTIONS :: "string list" where
  "HTTPIE_VALUE_OPTIONS =
    [''-a'', ''--auth'', ''-A'', ''--auth-type'', ''-o'', ''--output'', ''-p'', ''--print'',
     ''--pretty'', ''-s'', ''--style'', ''--verify'', ''--cert'', ''--cert-key'',
     ''--timeout'', ''--session'', ''--session-read-only'', ''--format-options'',
     ''--default-scheme'', ''--max-redirects'', ''--max-headers'', ''--raw'', ''--boundary'',
     ''--response-charset'', ''--response-mime'', ''--ssl'', ''--ciphers'']"

definition HTTPIE_VALUE_SHORTS :: string where
  "HTTPIE_VALUE_SHORTS = ''aAops''"

fun host_fields :: "string \<Rightarrow> bool \<Rightarrow> string \<Rightarrow> string list" where
  "host_fields field bracket [] = [field]"
| "host_fields field bracket (c # cs) =
     (if c = CHR ''['' then host_fields (field @ [c]) True cs
      else if c = CHR '']'' then host_fields (field @ [c]) False cs
      else if c = CHR '':'' \<and> \<not> bracket then field # host_fields [] bracket cs
      else host_fields (field @ [c]) bracket cs)"

definition split_host_fields :: "string \<Rightarrow> string list" where
  "split_host_fields = host_fields [] False"

definition bare_url_host :: "string \<Rightarrow> string option" where
  "bare_url_host arg =
     (if starts_with arg ''@'' \<or> CHR ''='' \<in> set arg then None
      else case clean_host (takeWhile (\<lambda>c. c \<notin> set ''/?#'') arg) of None \<Rightarrow> None
      | Some host \<Rightarrow>
          (let tld = last (split_on CHR ''.'' host);
               looks_like_host = host = ''localhost'' \<or> CHR '':'' \<in> set host
                 \<or> (CHR ''.'' \<in> set host \<and> 2 \<le> length tld
                    \<and> (list_all is_alphabetic tld \<or> list_all is_u8 (split_on CHR ''.'' host)))
           in if looks_like_host then Some host else None))"

definition http_option_hosts :: "string \<Rightarrow> string \<Rightarrow> string list" where
  "http_option_hosts option value =
     (if option = ''--connect-to'' then
        (case get (split_host_fields value) 2 of None \<Rightarrow> [] | Some host \<Rightarrow> opt_list (clean_host host))
      else if option = ''--resolve'' then
        (if length (split_host_fields value) < 2 then []
         else host_list (join_with '':'' (drop 2 (split_host_fields value))))
      else if option = ''--dns-servers'' then host_list value
      else if contains_sub value ''://'' then []
      else opt_list (clean_host value))"

text \<open>The option of a word and its value; \<open>None\<close> is the next word.\<close>

definition option_of :: "string \<Rightarrow> string \<Rightarrow> string \<times> string option" where
  "option_of value_shorts arg =
     (if starts_with arg ''--'' then
        (case split_once CHR ''='' arg of Some (option, v) \<Rightarrow> (option, Some v) | None \<Rightarrow> (arg, None))
      else
        (case dropWhile (\<lambda>c. c \<notin> set value_shorts) (tl arg) of
           [] \<Rightarrow> (arg, Some [])
         | c # rest \<Rightarrow> ([CHR ''-'', c], if rest = [] then None else Some rest)))"

fun tool_hosts :: "bool \<Rightarrow> string list \<Rightarrow> string \<Rightarrow> bool \<Rightarrow> string list \<Rightarrow> string list" where
  "tool_hosts httpie value_options value_shorts seen_operand [] = []"
| "tool_hosts httpie value_options value_shorts seen_operand (arg # rest) =
     (if arg = ''--'' then tool_hosts httpie value_options value_shorts seen_operand rest
      else if is_option arg \<and> 1 < length arg then
        (let (option, attached) = option_of value_shorts arg;
             host_option = option \<in> set HTTP_HOST_OPTIONS;
             url_option = option = ''--url'';
             next_value = (case rest of [] \<Rightarrow> [] | v # _ \<Rightarrow> v);
             value = (case attached of Some v \<Rightarrow> v | None \<Rightarrow> next_value)
         in if \<not> (host_option \<or> url_option \<or> option \<in> set value_options) then
              tool_hosts httpie value_options value_shorts seen_operand rest
            else
              (if host_option then http_option_hosts option value
               else if url_option \<and> \<not> contains_sub value ''://'' then opt_list (bare_url_host value)
               else [])
              @ tool_hosts httpie value_options value_shorts seen_operand
                  (if attached = None then tl rest else rest))
      else if httpie \<and> (seen_operand \<or> list_all is_ascii_upper arg) then
        tool_hosts httpie value_options value_shorts seen_operand rest
      else
        (case (if httpie then strip_prefix arg '':'' else None) of
           Some path \<Rightarrow>
             (if path = [] \<or> is_ascii_digit (hd path) \<or> hd path = CHR ''/'' then [''localhost''] else [])
             @ tool_hosts httpie value_options value_shorts True rest
         | None \<Rightarrow>
             (if \<not> contains_sub arg ''://'' then opt_list (bare_url_host arg) else [])
             @ tool_hosts httpie value_options value_shorts (seen_operand \<or> httpie) rest))"

definition proxy_hosts :: "string \<Rightarrow> string list" where
  "proxy_hosts setting =
     (case split_once CHR ''='' setting of
        None \<Rightarrow> []
      | Some (key, v) \<Rightarrow>
          if key \<in> set [''http_proxy'', ''https_proxy'', ''all_proxy'', ''ftp_proxy''] then
            scheme_url_hosts v @ (if \<not> contains_sub v ''://'' then opt_list (clean_host v) else [])
          else [])"

definition http_client_hosts :: "string list \<Rightarrow> string list \<Rightarrow> string list" where
  "http_client_hosts argv environment =
     (let name = first_base argv;
          httpie = name \<in> set [''http'', ''https'', ''httpie'', ''xh'', ''xhs'']
      in if argv = [] \<or> name \<notin> set HTTP_TOOLS then []
         else
           (let (value_options, value_shorts) =
                (if name = ''wget'' \<or> name = ''wget2'' then (WGET_VALUE_OPTIONS, WGET_VALUE_SHORTS)
                 else if httpie then (HTTPIE_VALUE_OPTIONS, HTTPIE_VALUE_SHORTS)
                 else (CURL_VALUE_OPTIONS, CURL_VALUE_SHORTS))
            in tool_hosts httpie value_options value_shorts False (drop 1 argv)
               @ concat (map proxy_hosts environment)))"

section \<open>All hosts of a command\<close>

definition segment_hosts :: "segment \<Rightarrow> string list" where
  "segment_hosts segment =
     (let argv = effective_argv segment
      in concat (map scheme_url_hosts (sg_assignments segment @ sg_argv segment @ sg_redirect_targets segment))
         @ scheme_url_hosts (sg_heredoc segment)
         @ (case db_client_hosts argv (sg_environment segment) of None \<Rightarrow> [] | Some hosts \<Rightarrow> hosts)
         @ http_client_hosts argv (sg_environment segment))"

fun add_new :: "'a list \<Rightarrow> 'a list \<Rightarrow> 'a list" where
  "add_new found [] = found"
| "add_new found (x # xs) = add_new (if x \<in> set found then found else found @ [x]) xs"

definition command_hosts :: "'a rule_set_scheme \<Rightarrow> string list \<Rightarrow> string list" where
  "command_hosts rules command =
     add_new [] (concat (map segment_hosts (concat (parse_command rules command))))"

end
