(* ===== verification/Packs.thy ===== *)
theory Packs
  imports ShellText
begin

text \<open>
  The rule packs (src/src/broker/packs.rs): the conditions of a matcher on one command, the
  validation of a pack, and the rule set that the packs make. A pack file is what the JSON
  reader gives: its keys and the fields of the pack, or no pack when it does not fit the schema.
\<close>

section \<open>The command that the matchers see\<close>

record command_view =
  cmd_words :: "string list"
  cmd_argv :: "string list"
  cmd_program :: string
  cmd_raw_program :: string
  cmd_args :: "string list"
  cmd_sub_args :: "string list"
  cmd_args_joined :: string
  cmd_joined :: string
  cmd_joined_lower :: string
  cmd_segment_text :: string
  cmd_secret :: bool
  cmd_secret_names :: "string list"
  cmd_known_hosts :: "string list"
  cmd_environment :: "string list"

definition command :: "string list \<Rightarrow> segment \<Rightarrow> string list \<Rightarrow> string list \<Rightarrow> command_view" where
  "command hosts segment argv secret_names =
     (let args = lower_args (drop 1 argv); joined = join_with '' '' argv;
          program = base_name (hd argv); sub_args = subcommand_args program args
      in \<lparr>cmd_words = sg_argv segment, cmd_argv = argv, cmd_program = program,
          cmd_raw_program = segment_program segment, cmd_args = args, cmd_sub_args = sub_args,
          cmd_args_joined = join_with '' '' sub_args, cmd_joined = joined,
          cmd_joined_lower = to_lowercase joined, cmd_segment_text = segment_text segment,
          cmd_secret = segment_refs_secret segment secret_names, cmd_secret_names = secret_names,
          cmd_known_hosts = hosts, cmd_environment = sg_environment segment\<rparr>)"

definition subcommand :: "command_view \<Rightarrow> string" where
  "subcommand cmd = word_at (cmd_sub_args cmd) 0"

definition action :: "command_view \<Rightarrow> string" where
  "action cmd = word_at (cmd_sub_args cmd) 1"

definition script :: "command_view \<Rightarrow> string" where
  "script cmd =
     (if subcommand cmd \<in> {''run'', ''run-script''} then action cmd else subcommand cmd)"

definition package :: "command_view \<Rightarrow> string" where
  "package cmd = takeWhile (\<lambda>c. c \<noteq> CHR ''@'') (cmd_program cmd)"

definition plain_sql_text :: "string \<Rightarrow> string" where
  "plain_sql_text arg =
     (case strip_prefix arg ''--'' of
        Some option \<Rightarrow> (case split_once CHR ''='' option of None \<Rightarrow> [] | Some (_, v) \<Rightarrow> v)
      | None \<Rightarrow> if is_option arg then [] else arg)"

definition sql_plain_texts :: "command_view \<Rightarrow> string list" where
  "sql_plain_texts cmd =
     filter (\<lambda>text. CHR '' '' \<in> set text) (map plain_sql_text (drop 1 (cmd_argv cmd)))"

section \<open>Conditions\<close>

datatype check = SecretFileArgument | ProductionWord | CommandLexicon

datatype dry_run = Skip | SkipWithN

datatype sql_check = Writes | Reads | AnyArgWrites | Changes | AnyArgChanges | PlainArgsRead | SchemaRead

record script_match =
  sm_base :: "string list"
  sm_not_contains :: "string list"

record option_value =
  ov_option :: "string list"
  ov_value :: "string list option"
  ov_not_value :: "string list option"

record env_match =
  em_name :: "string list"
  em_value :: "string list option"

record option_min =
  om_option :: "string list"
  om_min :: nat

record text_pattern =
  tp_equals :: "string list option"
  tp_starts :: "string list option"
  tp_ends :: "string list option"
  tp_contains :: "string list option"
  tp_max_len :: "nat option"
  tp_only_chars :: "string option"
  tp_temp_path :: "bool option"

record operand_at =
  oa_index :: nat
  oa_in :: "string list option"
  oa_not_in :: "string list option"
  oa_starts :: "string list option"

record operand_match =
  op_as_written :: bool
  op_trim_start :: "string option"
  op_trim_end :: "string option"
  op_skip :: "string list option"
  op_count :: "nat option"
  op_min :: "nat option"
  op_any :: "text_pattern list option"
  op_all :: "text_pattern list option"
  op_allow_none :: bool
  op_at :: "operand_at option"

record conditions =
  mt_program :: "string list option"
  mt_raw_program :: "string list option"
  mt_package_runner :: "bool option"
  mt_package :: "string list option"
  mt_program_word_contains :: "string list option"
  mt_subcommand :: "string list option"
  mt_action :: "string list option"
  mt_script :: "script_match option"
  mt_arg_count :: "nat option"
  mt_only_options :: "bool option"
  mt_any_arg :: "string list option"
  mt_any_arg_starts :: "string list option"
  mt_any_arg_contains :: "string list option"
  mt_args_start :: "string list option"
  mt_args_contain :: "string list option"
  mt_command_contains :: "string list option"
  mt_command_contains_exact :: "string list option"
  mt_word_contains :: "string list option"
  mt_segment_contains :: "string list option"
  mt_segment_word_ends :: "string list option"
  mt_option_value :: "option_value option"
  mt_short_option_letter :: "string option"
  mt_option_letter :: "string option"
  mt_operands :: "operand_match option"
  mt_push_target :: "string list option"
  mt_url_hosts_in :: "string list option"
  mt_known_host_read :: "bool option"
  mt_refs_secret :: "bool option"
  mt_arg_refs_secret :: "bool option"
  mt_secret_file_arg :: "bool option"
  mt_secret_file_arg_as_written :: "bool option"
  mt_system_path_arg :: "bool option"
  mt_inline_code_leaks :: "bool option"
  mt_sql :: "sql_check option"
  mt_names_only :: "bool option"
  mt_env :: "env_match option"
  mt_bound_secret :: "bool option"
  mt_option_min :: "option_min option"

text \<open>A matcher: its conditions, \<open>any_of\<close> and \<open>not\<close>.\<close>

datatype matcher =
  Matcher (conditions_of: conditions) (any_of: "matcher list option") (not_of: "matcher option")

definition no_conditions :: conditions where
  "no_conditions = \<lparr>mt_program = None, mt_raw_program = None, mt_package_runner = None,
     mt_package = None, mt_program_word_contains = None, mt_subcommand = None, mt_action = None,
     mt_script = None, mt_arg_count = None, mt_only_options = None, mt_any_arg = None,
     mt_any_arg_starts = None, mt_any_arg_contains = None, mt_args_start = None,
     mt_args_contain = None, mt_command_contains = None, mt_command_contains_exact = None,
     mt_word_contains = None, mt_segment_contains = None, mt_segment_word_ends = None,
     mt_option_value = None, mt_short_option_letter = None, mt_option_letter = None,
     mt_operands = None, mt_push_target = None, mt_url_hosts_in = None, mt_known_host_read = None,
     mt_refs_secret = None, mt_arg_refs_secret = None, mt_secret_file_arg = None,
     mt_secret_file_arg_as_written = None, mt_system_path_arg = None, mt_inline_code_leaks = None,
     mt_sql = None, mt_names_only = None, mt_env = None, mt_bound_secret = None,
     mt_option_min = None\<rparr>"

definition default_matcher :: matcher where
  "default_matcher = Matcher no_conditions None None"

definition no_pattern :: text_pattern where
  "no_pattern = \<lparr>tp_equals = None, tp_starts = None, tp_ends = None, tp_contains = None,
     tp_max_len = None, tp_only_chars = None, tp_temp_path = None\<rparr>"

definition holds :: "'a option \<Rightarrow> ('a \<Rightarrow> bool) \<Rightarrow> bool" where
  "holds condition test = (case condition of None \<Rightarrow> True | Some x \<Rightarrow> test x)"

definition script_matches :: "script_match \<Rightarrow> string \<Rightarrow> bool" where
  "script_matches m name \<longleftrightarrow>
     takeWhile (\<lambda>c. c \<noteq> CHR '':'') name \<in> set (sm_base m) \<and> \<not> contains_any name (sm_not_contains m)"

fun option_value_matches :: "option_value \<Rightarrow> string list \<Rightarrow> bool" where
  "option_value_matches m (a # b # rest) =
     ((a \<in> set (ov_option m) \<and> holds (ov_value m) (\<lambda>list. b \<in> set list)
       \<and> holds (ov_not_value m) (\<lambda>list. b \<notin> set list))
      \<or> option_value_matches m (b # rest))"
| "option_value_matches m args = False"

definition OFF_VALUES :: "string list" where
  "OFF_VALUES = [[], ''0'', ''false'', ''no'', ''off'']"

definition item_matches :: "string \<Rightarrow> string \<Rightarrow> bool" where
  "item_matches item pattern =
     (case strip_suffix pattern ''*'' of
        Some prefix \<Rightarrow> starts_with item prefix
      | None \<Rightarrow>
          (case strip_suffix item ''*'' of
             Some prefix \<Rightarrow> starts_with pattern prefix | None \<Rightarrow> item = pattern))"

definition env_matches :: "env_match \<Rightarrow> string list \<Rightarrow> bool" where
  "env_matches m environment =
     list_ex (\<lambda>setting.
       let (name, value) = (case split_once CHR ''='' setting of None \<Rightarrow> (setting, []) | Some nv \<Rightarrow> nv);
           value = trim value
       in list_ex (item_matches name) (em_name m)
          \<and> (case em_value m of
               None \<Rightarrow> value \<notin> set OFF_VALUES
             | Some list \<Rightarrow>
                 list_ex (\<lambda>item. list_ex (item_matches item) list)
                   (filter (\<lambda>item. item \<noteq> [] \<and> \<not> starts_with item ''-'')
                     (map trim (value # split_when (\<lambda>c. c = CHR '','' \<or> c = CHR '' '') value)))))
       environment"

definition at_least :: "nat \<Rightarrow> string \<Rightarrow> bool" where
  "at_least least text = (case parse_number 10 (2 ^ 64 - 1) text of None \<Rightarrow> False | Some n \<Rightarrow> least \<le> n)"

fun option_min_matches :: "option_min \<Rightarrow> string list \<Rightarrow> bool" where
  "option_min_matches m [] = False"
| "option_min_matches m (arg # rest) =
     (list_ex (\<lambda>option.
        if arg = option then rest \<noteq> [] \<and> at_least (om_min m) (hd rest)
        else case strip_prefix arg option of
          None \<Rightarrow> False
        | Some tail \<Rightarrow>
            (case strip_prefix tail ''='' of
               Some v \<Rightarrow> at_least (om_min m) v
             | None \<Rightarrow> length option = 2 \<and> \<not> starts_with option ''--'' \<and> at_least (om_min m) tail))
        (om_option m)
      \<or> option_min_matches m rest)"

definition pattern_matches :: "string \<Rightarrow> text_pattern \<Rightarrow> bool" where
  "pattern_matches text p \<longleftrightarrow>
     holds (tp_equals p) (\<lambda>list. text \<in> set list) \<and> holds (tp_starts p) (starts_any text)
     \<and> holds (tp_ends p) (ends_any text) \<and> holds (tp_contains p) (contains_any text)
     \<and> holds (tp_max_len p) (\<lambda>most. length text \<le> most)
     \<and> holds (tp_only_chars p) (\<lambda>only. text \<noteq> [] \<and> list_all (\<lambda>c. c \<in> set (chars only)) (chars text))
     \<and> holds (tp_temp_path p) (\<lambda>want. is_temp_path text = want)"

text \<open>The operands: no options and no values of the options to skip.\<close>

fun operand_words :: "string list option \<Rightarrow> bool \<Rightarrow> string list \<Rightarrow> string list" where
  "operand_words skip value_next [] = []"
| "operand_words skip value_next (arg # rest) =
     (if value_next then operand_words skip False rest
      else if is_option arg then
        operand_words skip (case skip of None \<Rightarrow> False
          | Some options \<Rightarrow> list_ex (\<lambda>option. eq_ignore_ascii_case option arg) options) rest
      else arg # operand_words skip False rest)"

definition trimmed_operand :: "operand_match \<Rightarrow> string \<Rightarrow> string" where
  "trimmed_operand m arg =
     (let text = (case op_trim_start m of None \<Rightarrow> arg | Some p \<Rightarrow> strip_all p arg)
      in case op_trim_end m of None \<Rightarrow> text | Some p \<Rightarrow> rev (strip_all (rev p) (rev text)))"

definition operands_match :: "operand_match \<Rightarrow> command_view \<Rightarrow> bool" where
  "operands_match m cmd =
     (let source = (if op_as_written m then drop 1 (cmd_argv cmd) else cmd_sub_args cmd);
          operands = map (trimmed_operand m) (operand_words (op_skip m) False source);
          matches_any = (\<lambda>patterns text. list_ex (pattern_matches text) patterns)
      in holds (op_count m) (\<lambda>n. length operands = n) \<and> holds (op_min m) (\<lambda>n. n \<le> length operands)
         \<and> holds (op_any m) (\<lambda>patterns. list_ex (matches_any patterns) operands)
         \<and> holds (op_all m) (\<lambda>patterns.
              (op_allow_none m \<or> operands \<noteq> []) \<and> list_all (matches_any patterns) operands)
         \<and> holds (op_at m) (\<lambda>at. case get operands (oa_index at) of
              None \<Rightarrow> False
            | Some text \<Rightarrow> holds (oa_in at) (\<lambda>list. text \<in> set list)
                \<and> holds (oa_not_in at) (\<lambda>list. text \<notin> set list)
                \<and> holds (oa_starts at) (starts_any text)))"

definition sql_matches :: "command_view \<Rightarrow> sql_check \<Rightarrow> bool" where
  "sql_matches cmd check =
     (let of_argument = (\<lambda>test. case sql_argument (cmd_argv cmd) of None \<Rightarrow> False | Some sql \<Rightarrow> test sql)
      in case check of
           Writes \<Rightarrow> of_argument sql_writes
         | Reads \<Rightarrow> of_argument sql_reads
         | AnyArgWrites \<Rightarrow> list_ex sql_writes (sql_plain_texts cmd)
         | Changes \<Rightarrow> of_argument sql_changes
         | AnyArgChanges \<Rightarrow> list_ex sql_changes (sql_plain_texts cmd)
         | PlainArgsRead \<Rightarrow> plain_sql_reads (cmd_argv cmd)
         | SchemaRead \<Rightarrow> of_argument sql_schema_read)"

definition program_matches :: "conditions \<Rightarrow> command_view \<Rightarrow> bool" where
  "program_matches m cmd \<longleftrightarrow>
     holds (mt_program m) (\<lambda>list. cmd_program cmd \<in> set list)
     \<and> holds (mt_raw_program m) (\<lambda>list. cmd_raw_program cmd \<in> set list)
     \<and> holds (mt_package_runner m) (\<lambda>want. is_package_runner (cmd_words cmd) = want)
     \<and> holds (mt_package m) (\<lambda>list. package cmd \<in> set list)
     \<and> holds (mt_program_word_contains m) (contains_any (hd (cmd_argv cmd)))
     \<and> holds (mt_subcommand m) (\<lambda>list. subcommand cmd \<in> set list)
     \<and> holds (mt_action m) (\<lambda>list. action cmd \<in> set list)
     \<and> holds (mt_script m) (\<lambda>s. script_matches s (script cmd))"

definition args_match :: "conditions \<Rightarrow> command_view \<Rightarrow> bool" where
  "args_match m cmd \<longleftrightarrow>
     holds (mt_arg_count m) (\<lambda>n. length (cmd_sub_args cmd) = n)
     \<and> holds (mt_only_options m) (\<lambda>want. list_all is_option (cmd_args cmd) = want)
     \<and> holds (mt_any_arg m) (\<lambda>list. list_ex (\<lambda>arg. arg \<in> set list) (cmd_args cmd))
     \<and> holds (mt_any_arg_starts m) (\<lambda>list. list_ex (\<lambda>arg. starts_any arg list) (cmd_args cmd))
     \<and> holds (mt_any_arg_contains m) (\<lambda>list. list_ex (\<lambda>arg. contains_any arg list) (cmd_args cmd))
     \<and> holds (mt_args_start m) (starts_any (cmd_args_joined cmd))
     \<and> holds (mt_args_contain m) (contains_any (cmd_args_joined cmd))
     \<and> holds (mt_command_contains m) (contains_any (cmd_joined_lower cmd))
     \<and> holds (mt_command_contains_exact m) (contains_any (cmd_joined cmd))
     \<and> holds (mt_word_contains m) (\<lambda>list. list_ex (\<lambda>w. contains_any (to_lowercase w) list) (cmd_words cmd))
     \<and> holds (mt_segment_contains m) (contains_any (cmd_segment_text cmd))
     \<and> holds (mt_segment_word_ends m) (\<lambda>list.
          list_ex (\<lambda>w. ends_any w list) (text_words (cmd_segment_text cmd)))
     \<and> holds (mt_option_value m) (\<lambda>option. option_value_matches option (cmd_args cmd))
     \<and> holds (mt_short_option_letter m) (\<lambda>letter. list_ex (\<lambda>arg.
          is_option arg \<and> \<not> starts_with arg ''--'' \<and> contains_sub arg letter) (cmd_args cmd))
     \<and> holds (mt_option_letter m) (\<lambda>letter. list_ex (\<lambda>arg.
          is_option arg \<and> contains_sub arg letter) (cmd_args cmd))
     \<and> holds (mt_operands m) (\<lambda>operands. operands_match operands cmd)
     \<and> holds (mt_push_target m) (\<lambda>list. list_ex (\<lambda>t. t \<in> set list) (push_targets (cmd_args cmd)))"

definition data_match :: "conditions \<Rightarrow> command_view \<Rightarrow> bool" where
  "data_match m cmd \<longleftrightarrow>
     holds (mt_url_hosts_in m) (\<lambda>list. let hosts = url_hosts (cmd_argv cmd)
          in hosts \<noteq> [] \<and> list_all (\<lambda>host. host \<in> set list) hosts)
     \<and> holds (mt_known_host_read m) (\<lambda>want.
          is_authenticated_read (cmd_argv cmd) (cmd_known_hosts cmd) (cmd_secret_names cmd) = want)
     \<and> holds (mt_refs_secret m) (\<lambda>want. cmd_secret cmd = want)
     \<and> holds (mt_arg_refs_secret m) (\<lambda>want.
          list_ex (\<lambda>arg. refs_secret arg (cmd_secret_names cmd)) (drop 1 (cmd_argv cmd)) = want)
     \<and> holds (mt_secret_file_arg m) (\<lambda>want. list_ex is_secret_file (cmd_args cmd) = want)
     \<and> holds (mt_secret_file_arg_as_written m) (\<lambda>want.
          list_ex is_secret_file (drop 1 (cmd_argv cmd)) = want)
     \<and> holds (mt_system_path_arg m) (\<lambda>want. list_ex is_system_path (drop 1 (cmd_argv cmd)) = want)
     \<and> holds (mt_inline_code_leaks m) (\<lambda>want.
          inline_code_leaks (cmd_joined cmd) (cmd_secret_names cmd) = want)
     \<and> holds (mt_sql m) (sql_matches cmd)
     \<and> holds (mt_names_only m) (\<lambda>want. names_only (cmd_args cmd) = want)
     \<and> holds (mt_env m) (\<lambda>e. env_matches e (cmd_environment cmd))
     \<and> holds (mt_bound_secret m) (\<lambda>want. (cmd_secret_names cmd \<noteq> [] \<or> cmd_secret cmd) = want)
     \<and> holds (mt_option_min m) (\<lambda>option. option_min_matches option (cmd_args cmd))"

fun matches :: "matcher \<Rightarrow> command_view \<Rightarrow> bool" where
  "matches (Matcher m any negated) cmd =
     (program_matches m cmd \<and> args_match m cmd \<and> data_match m cmd
      \<and> (case any of None \<Rightarrow> True | Some list \<Rightarrow> list_ex (\<lambda>x. matches x cmd) list)
      \<and> (case negated of None \<Rightarrow> True | Some x \<Rightarrow> \<not> matches x cmd))"

end
