(* ===== verification/PackRules.thy ===== *)
theory PackRules
  imports Packs
begin

text \<open>
  The validation of packs and the rule set that they make (src/src/broker/packs.rs). The
  lowercase form of a text is an argument, because a pack can have letters outside ASCII; the
  reading of the directory and of JSON is outside, so a file is its size and what it has.
\<close>

section \<open>Problems\<close>

datatype problem =
    EmptyList string | EmptyText string | NotLowercase string string | NotInPack string string
  | NotOneLetter string | PatternWithoutCondition | BadOnlyChars | ValueOrNotValue | StarInEnv
  | NotAnOption string string | EmptyAnyOf | MatcherWithoutCondition string
  | OperandsWithoutCondition | EmptyTrimText | EmptyPatternList | AllowNoneNeedsAll | AtNeedsOne
  | BadSchemaVersion nat | NoSchemaVersion | BadToolName string | StarWithOthers | ProgramTwice
  | BadId string string | IdTwice string string | UnknownFlag string string | InRule string problem
  | ToolIsBuiltIn string | ToolIsLoaded string | VersionZero | NoDescription | InEntry string string problem
  | NoConditionInEntry string string | EverythingSafe string | BuiltinField string | SchemaMismatch
  | NoRules | FileTooLarge | FileUnreadable

type_synonym checked = "problem + unit"

fun check_each :: "('a \<Rightarrow> checked) \<Rightarrow> 'a list \<Rightarrow> checked" where
  "check_each f [] = Inr ()"
| "check_each f (x # xs) = and_then (f x) (\<lambda>_. check_each f xs)"

lemma check_each_cong [fundef_cong]:
  "xs = ys \<Longrightarrow> (\<And>x. x \<in> set ys \<Longrightarrow> f x = g x) \<Longrightarrow> check_each f xs = check_each g ys"
  by (induction xs arbitrary: ys) auto

definition check_option :: "('a \<Rightarrow> checked) \<Rightarrow> 'a option \<Rightarrow> checked" where
  "check_option f x = (case x of None \<Rightarrow> Inr () | Some v \<Rightarrow> f v)"

definition both :: "checked \<Rightarrow> checked \<Rightarrow> checked" where
  "both a b = and_then a (\<lambda>_. b)"

fun all_checked :: "checked list \<Rightarrow> checked" where
  "all_checked [] = Inr ()"
| "all_checked (a # rest) = both a (all_checked rest)"

text \<open>An error with the name of the entry that has it.\<close>

definition within :: "(problem \<Rightarrow> problem) \<Rightarrow> checked \<Rightarrow> checked" where
  "within wrap r = (case r of Inl e \<Rightarrow> Inl (wrap e) | Inr u \<Rightarrow> Inr u)"

section \<open>Validation of a matcher\<close>

record scope =
  sc_programs :: "string list"
  sc_any_program :: bool

type_synonym lowering = "string \<Rightarrow> string"

definition check_list :: "lowering \<Rightarrow> string \<Rightarrow> bool \<Rightarrow> bool \<Rightarrow> string list \<Rightarrow> checked" where
  "check_list lower field lowercase allow_empty_text list =
     (if list = [] then Inl (EmptyList field)
      else check_each (\<lambda>item.
        if item = [] \<and> \<not> allow_empty_text then Inl (EmptyText field)
        else if lowercase \<and> lower item \<noteq> item then Inl (NotLowercase field item)
        else Inr ()) list)"

definition check_programs :: "lowering \<Rightarrow> string \<Rightarrow> scope \<Rightarrow> string list \<Rightarrow> checked" where
  "check_programs lower field scope list =
     both (check_list lower field True False list)
       (if sc_any_program scope then Inr ()
        else case List.find (\<lambda>p. p \<notin> set (sc_programs scope)) list of
          None \<Rightarrow> Inr () | Some p \<Rightarrow> Inl (NotInPack field p))"

definition check_letter :: "string \<Rightarrow> string \<Rightarrow> checked" where
  "check_letter field letter =
     (case chars letter of
        [c] \<Rightarrow> if length c = 1 \<and> is_ascii_lower (hd c) then Inr () else Inl (NotOneLetter field)
      | _ \<Rightarrow> Inl (NotOneLetter field))"

definition validate_pattern :: "lowering \<Rightarrow> bool \<Rightarrow> text_pattern \<Rightarrow> checked" where
  "validate_pattern lower lowercase p =
     (if p = no_pattern then Inl PatternWithoutCondition
      else all_checked
       [check_option (check_list lower ''equals'' lowercase True) (tp_equals p),
        check_option (check_list lower ''starts'' lowercase False) (tp_starts p),
        check_option (check_list lower ''ends'' lowercase False) (tp_ends p),
        check_option (check_list lower ''contains'' lowercase False) (tp_contains p),
        check_option (\<lambda>only. if only = [] \<or> (lowercase \<and> lower only \<noteq> only) then Inl BadOnlyChars else Inr ())
          (tp_only_chars p)])"

definition validate_operands :: "lowering \<Rightarrow> operand_match \<Rightarrow> checked" where
  "validate_operands lower m =
     (let lowercase = \<not> op_as_written m;
          patterns = (\<lambda>list. if list = [] then Inl EmptyPatternList
            else check_each (validate_pattern lower lowercase) list);
          trim_text = (\<lambda>text. if text = [] then Inl EmptyTrimText else Inr ())
      in if op_count m = None \<and> op_min m = None \<and> op_any m = None \<and> op_all m = None \<and> op_at m = None
         then Inl OperandsWithoutCondition
         else all_checked
          [check_option (\<lambda>list. both (check_list lower ''operands.skip'' True False list)
             (case List.find (\<lambda>w. \<not> starts_with w ''-'') list of
                None \<Rightarrow> Inr () | Some w \<Rightarrow> Inl (NotAnOption ''operands.skip'' w))) (op_skip m),
           check_option trim_text (op_trim_start m), check_option trim_text (op_trim_end m),
           check_option patterns (op_any m), check_option patterns (op_all m),
           (if op_allow_none m \<and> op_all m = None then Inl AllowNoneNeedsAll else Inr ()),
           check_option (\<lambda>at. case (oa_in at, oa_not_in at, oa_starts at) of
               (Some list, None, None) \<Rightarrow> check_list lower ''operands.at'' lowercase False list
             | (None, Some list, None) \<Rightarrow> check_list lower ''operands.at'' lowercase False list
             | (None, None, Some list) \<Rightarrow> check_list lower ''operands.at'' lowercase False list
             | _ \<Rightarrow> Inl AtNeedsOne) (op_at m)])"

definition validate_option_value :: "lowering \<Rightarrow> option_value \<Rightarrow> checked" where
  "validate_option_value lower m =
     both (check_list lower ''option_value.option'' True False (ov_option m))
       (case (ov_value m, ov_not_value m) of
          (Some list, None) \<Rightarrow> check_list lower ''option_value.value'' True False list
        | (None, Some list) \<Rightarrow> check_list lower ''option_value.not_value'' True False list
        | _ \<Rightarrow> Inl ValueOrNotValue)"

definition validate_env :: "lowering \<Rightarrow> env_match \<Rightarrow> checked" where
  "validate_env lower m =
     all_checked
      [check_list lower ''env.name'' True False (em_name m),
       check_option (check_list lower ''env.value'' True False) (em_value m),
       (if ''*'' \<in> set (em_name m @ (case em_value m of None \<Rightarrow> [] | Some list \<Rightarrow> list))
        then Inl StarInEnv else Inr ())]"

definition validate_option_min :: "lowering \<Rightarrow> option_min \<Rightarrow> checked" where
  "validate_option_min lower m =
     both (check_list lower ''option_min.option'' True False (om_option m))
       (case List.find (\<lambda>w. \<not> starts_with w ''-'') (om_option m) of
          None \<Rightarrow> Inr () | Some w \<Rightarrow> Inl (NotAnOption ''option_min.option'' w))"

definition validate_script :: "lowering \<Rightarrow> script_match \<Rightarrow> checked" where
  "validate_script lower m =
     both (check_list lower ''script.base'' True False (sm_base m))
       (if sm_not_contains m = [] then Inr ()
        else check_list lower ''script.not_contains'' True False (sm_not_contains m))"

definition validate_conditions :: "lowering \<Rightarrow> scope \<Rightarrow> conditions \<Rightarrow> checked" where
  "validate_conditions lower scope m =
     (let texts = (\<lambda>field allow_empty. check_option (check_list lower field True allow_empty))
      in all_checked
       [check_option (check_programs lower ''program'' scope) (mt_program m),
        check_option (check_programs lower ''raw_program'' scope) (mt_raw_program m),
        texts ''package'' False (mt_package m), texts ''subcommand'' True (mt_subcommand m),
        texts ''action'' True (mt_action m), texts ''any_arg'' False (mt_any_arg m),
        texts ''any_arg_starts'' False (mt_any_arg_starts m),
        texts ''any_arg_contains'' False (mt_any_arg_contains m),
        texts ''args_start'' False (mt_args_start m), texts ''args_contain'' False (mt_args_contain m),
        texts ''command_contains'' False (mt_command_contains m),
        texts ''word_contains'' False (mt_word_contains m),
        texts ''segment_contains'' False (mt_segment_contains m),
        texts ''segment_word_ends'' False (mt_segment_word_ends m),
        texts ''push_target'' False (mt_push_target m), texts ''url_hosts_in'' False (mt_url_hosts_in m),
        check_option (check_list lower ''program_word_contains'' False False) (mt_program_word_contains m),
        check_option (check_list lower ''command_contains_exact'' False False) (mt_command_contains_exact m),
        check_option (validate_script lower) (mt_script m),
        check_option (validate_option_value lower) (mt_option_value m),
        check_option (validate_env lower) (mt_env m),
        check_option (validate_option_min lower) (mt_option_min m),
        check_option (check_letter ''short_option_letter'') (mt_short_option_letter m),
        check_option (check_letter ''option_letter'') (mt_option_letter m),
        check_option (validate_operands lower) (mt_operands m)])"

text \<open>\<open>validate\<close>; the matchers of \<open>any_of\<close> and \<open>not\<close> must have a condition.\<close>

fun validate :: "lowering \<Rightarrow> scope \<Rightarrow> matcher \<Rightarrow> checked" where
  "validate lower scope (Matcher m any negated) =
     both (validate_conditions lower scope m)
      (both (case any of None \<Rightarrow> Inr ()
         | Some list \<Rightarrow>
             if list = [] then Inl EmptyAnyOf
             else check_each (\<lambda>x. if x = default_matcher then Inl (MatcherWithoutCondition ''any_of'')
               else validate lower scope x) list)
       (case negated of None \<Rightarrow> Inr ()
        | Some x \<Rightarrow> if x = default_matcher then Inl (MatcherWithoutCondition ''not'')
            else validate lower scope x))"

section \<open>Packs\<close>

record flag_rule =
  fr_id :: string
  fr_flag :: string
  fr_dry_run :: "dry_run option"
  fr_when :: matcher

record exemption =
  ex_id :: string
  ex_check :: check
  ex_when :: matcher

record safe_rule =
  sr_id :: string
  sr_when :: matcher

record local_pack =
  lp_version :: nat
  lp_tool :: string
  lp_description :: string
  lp_programs :: "string list"
  lp_rules :: "flag_rule list"

record builtin_pack = local_pack +
  bp_roles :: "(role \<times> string list) list"
  bp_known_hosts :: "string list"
  bp_exemptions :: "exemption list"
  bp_safe :: "safe_rule list"
  bp_project_commands :: "safe_rule list"
  bp_writes :: "safe_rule list"
  bp_access_reads :: "safe_rule list"

text \<open>A pack file: the schema version, the keys, and the pack when the fields fit the schema.\<close>

record 'p pack_file =
  pf_schema_version :: "nat option"
  pf_keys :: "string list"
  pf_pack :: "'p option"

datatype origin = BuiltIn | Local string

record pack_info =
  pi_tool :: string
  pi_version :: nat
  pi_origin :: origin
  pi_rules :: nat

record 'i compiled =
  co_tool :: string
  co_item :: 'i

record pack_rules = rule_set +
  rs_packs :: "pack_info list"
  rs_rules :: "flag_rule compiled list"
  rs_exemptions :: "exemption compiled list"
  rs_safe :: "safe_rule compiled list"
  rs_project_commands :: "safe_rule compiled list"
  rs_writes :: "safe_rule compiled list"
  rs_access_reads :: "safe_rule compiled list"
  rs_known_hosts :: "string list"
  rs_programs :: "string list"
  rs_load_error :: "problem option"

definition default_rules :: pack_rules where
  "default_rules = \<lparr>rs_roles = (\<lambda>_. None), rs_packs = [], rs_rules = [], rs_exemptions = [],
     rs_safe = [], rs_project_commands = [], rs_writes = [], rs_access_reads = [],
     rs_known_hosts = [], rs_programs = [], rs_load_error = None\<rparr>"

definition SCHEMA_VERSION :: nat where
  "SCHEMA_VERSION = 1"

definition LOAD_ERROR_FLAG :: string where
  "LOAD_ERROR_FLAG = ''rule_pack_error''"

definition RULE_FLAGS :: "string list" where
  "RULE_FLAGS =
    [''secret_output'', ''data_loss'', ''irreversible'', ''production'', ''real_recipient'',
     ''remote_code'', ''remote_access'', ''system_change'', ''new_dependency'', ''privilege'',
     ''hook_channel'', ''ask_owner'']"

definition BUILTIN_ONLY_FIELDS :: "string list" where
  "BUILTIN_ONLY_FIELDS =
    [''safe'', ''exemptions'', ''roles'', ''known_hosts'', ''project_commands'', ''writes'',
     ''access_reads'']"

definition MAX_LOCAL_PACK_BYTES :: nat where
  "MAX_LOCAL_PACK_BYTES = 1024 * 1024"

definition scoped :: "matcher \<Rightarrow> string list \<Rightarrow> bool \<Rightarrow> matcher" where
  "scoped m programs any_program =
     (if mt_program (conditions_of m) = None \<and> mt_raw_program (conditions_of m) = None \<and> \<not> any_program
      then Matcher ((conditions_of m)\<lparr>mt_program := Some programs\<rparr>) (any_of m) (not_of m)
      else m)"

definition check_header :: "'p pack_file \<Rightarrow> checked" where
  "check_header f =
     (case pf_schema_version f of
        Some v \<Rightarrow> if v = SCHEMA_VERSION then Inr () else Inl (BadSchemaVersion v)
      | None \<Rightarrow> Inl NoSchemaVersion)"

definition check_tool_name :: "string \<Rightarrow> checked" where
  "check_tool_name tool =
     (if tool \<noteq> [] \<and> length tool \<le> 64
         \<and> list_all (\<lambda>c. is_ascii_lower c \<or> is_ascii_digit c \<or> c = CHR ''-'' \<or> c = CHR ''_'') tool
      then Inr () else Inl (BadToolName tool))"

definition check_pack_programs :: "lowering \<Rightarrow> string list \<Rightarrow> problem + bool" where
  "check_pack_programs lower programs =
     (if programs = [''*''] then Inr True
      else and_then (check_list lower ''programs'' True False programs)
        (\<lambda>_. if ''*'' \<in> set programs then Inl StarWithOthers
          else if \<not> distinct programs then Inl ProgramTwice
          else Inr False))"

fun check_ids :: "string \<Rightarrow> string list \<Rightarrow> string list \<Rightarrow> checked" where
  "check_ids kind seen [] = Inr ()"
| "check_ids kind seen (name # ids) =
     both (within (\<lambda>_. BadId kind name) (check_tool_name name))
       (if name \<in> set seen then Inl (IdTwice kind name) else check_ids kind (name # seen) ids)"

definition check_rule :: "lowering \<Rightarrow> scope \<Rightarrow> flag_rule \<Rightarrow> checked" where
  "check_rule lower scope rule =
     (if fr_flag rule \<notin> set RULE_FLAGS then Inl (UnknownFlag (fr_id rule) (fr_flag rule))
      else within (InRule (fr_id rule)) (validate lower scope (fr_when rule)))"

definition check_common :: "lowering \<Rightarrow> pack_rules \<Rightarrow> 'a local_pack_scheme \<Rightarrow> problem + bool" where
  "check_common lower rules pack =
     and_then (check_tool_name (lp_tool pack)) (\<lambda>_.
       case List.find (\<lambda>p. pi_tool p = lp_tool pack) (rs_packs rules) of
         Some existing \<Rightarrow>
           (case pi_origin existing of
              BuiltIn \<Rightarrow> Inl (ToolIsBuiltIn (lp_tool pack)) | Local _ \<Rightarrow> Inl (ToolIsLoaded (lp_tool pack)))
       | None \<Rightarrow>
           if lp_version pack = 0 then Inl VersionZero
           else if trim (lp_description pack) = [] then Inl NoDescription
           else and_then (check_pack_programs lower (lp_programs pack)) (\<lambda>any_program.
             and_then (check_ids ''rule'' [] (map fr_id (lp_rules pack))) (\<lambda>_.
               and_then (check_each (check_rule lower \<lparr>sc_programs = lp_programs pack, sc_any_program = any_program\<rparr>)
                   (lp_rules pack)) (\<lambda>_. Inr any_program))))"

definition push_rules :: "string \<Rightarrow> flag_rule list \<Rightarrow> string list \<Rightarrow> bool \<Rightarrow> pack_rules \<Rightarrow> pack_rules" where
  "push_rules tool new programs any rules =
     rules\<lparr>rs_rules := rs_rules rules @
       map (\<lambda>rule. \<lparr>co_tool = tool, co_item = rule\<lparr>fr_when := scoped (fr_when rule) programs any\<rparr>\<rparr>) new\<rparr>"

definition pack_entry :: "'a local_pack_scheme \<Rightarrow> origin \<Rightarrow> pack_info" where
  "pack_entry pack origin =
     \<lparr>pi_tool = lp_tool pack, pi_version = lp_version pack, pi_origin = origin,
      pi_rules = length (lp_rules pack)\<rparr>"

text \<open>\<open>add_local\<close>: the rule set with the pack, or the problem.\<close>

definition add_local :: "lowering \<Rightarrow> string \<Rightarrow> local_pack pack_file \<Rightarrow> pack_rules \<Rightarrow> problem + pack_rules" where
  "add_local lower source f rules =
     and_then (check_header f) (\<lambda>_.
       case List.find (\<lambda>field. field \<in> set (pf_keys f)) BUILTIN_ONLY_FIELDS of
         Some field \<Rightarrow> Inl (BuiltinField field)
       | None \<Rightarrow>
           (case pf_pack f of None \<Rightarrow> Inl SchemaMismatch
            | Some pack \<Rightarrow>
                and_then (check_common lower rules pack) (\<lambda>any.
                  if lp_rules pack = [] then Inl NoRules
                  else
                    (let rules = push_rules (lp_tool pack) (lp_rules pack) (lp_programs pack) any rules
                     in Inr (rules\<lparr>rs_packs := rs_packs rules @ [pack_entry pack (Local source)]\<rparr>)))))"

definition check_entries ::
    "lowering \<Rightarrow> scope \<Rightarrow> string \<Rightarrow> bool \<Rightarrow> ('a \<Rightarrow> string) \<Rightarrow> ('a \<Rightarrow> matcher) \<Rightarrow> 'a list \<Rightarrow> checked" where
  "check_entries lower scope kind needs_condition id_of when_of entries =
     check_each (\<lambda>entry.
       if needs_condition \<and> when_of entry = default_matcher then Inl (NoConditionInEntry kind (id_of entry))
       else within (InEntry kind (id_of entry)) (validate lower scope (when_of entry))) entries"

definition check_builtin :: "lowering \<Rightarrow> bool \<Rightarrow> builtin_pack \<Rightarrow> checked" where
  "check_builtin lower any pack =
     (let scope = \<lparr>sc_programs = lp_programs pack, sc_any_program = any\<rparr>
      in all_checked
       [check_each (\<lambda>(_, programs). check_programs lower ''roles'' scope programs) (bp_roles pack),
        (if bp_known_hosts pack = [] then Inr ()
         else check_list lower ''known_hosts'' True False (bp_known_hosts pack)),
        check_ids ''exemption'' [] (map ex_id (bp_exemptions pack)),
        check_ids ''safe rule'' [] (map sr_id (bp_safe pack)),
        check_ids ''project command'' [] (map sr_id (bp_project_commands pack)),
        check_entries lower scope ''project command'' True sr_id sr_when (bp_project_commands pack),
        check_ids ''write'' [] (map sr_id (bp_writes pack)),
        check_entries lower scope ''write'' True sr_id sr_when (bp_writes pack),
        check_ids ''access read'' [] (map sr_id (bp_access_reads pack)),
        check_entries lower scope ''access read'' True sr_id sr_when (bp_access_reads pack),
        check_entries lower scope ''exemption'' False ex_id ex_when (bp_exemptions pack),
        check_each (\<lambda>safe.
          if any \<and> sr_when safe = default_matcher then Inl (EverythingSafe (sr_id safe))
          else within (InEntry ''safe rule'' (sr_id safe)) (validate lower scope (sr_when safe)))
          (bp_safe pack)])"

definition compiled_safe :: "string \<Rightarrow> string list \<Rightarrow> bool \<Rightarrow> safe_rule list \<Rightarrow> safe_rule compiled list" where
  "compiled_safe tool programs any entries =
     map (\<lambda>e. \<lparr>co_tool = tool, co_item = e\<lparr>sr_when := scoped (sr_when e) programs any\<rparr>\<rparr>) entries"

definition add_role :: "(role \<rightharpoonup> string list) \<Rightarrow> role \<times> string list \<Rightarrow> (role \<rightharpoonup> string list)" where
  "add_role roles entry =
     roles(fst entry \<mapsto> (case roles (fst entry) of None \<Rightarrow> [] | Some p \<Rightarrow> p) @ snd entry)"

definition add_builtin :: "lowering \<Rightarrow> builtin_pack pack_file \<Rightarrow> pack_rules \<Rightarrow> problem + pack_rules" where
  "add_builtin lower f rules =
     and_then (check_header f) (\<lambda>_.
       case pf_pack f of None \<Rightarrow> Inl SchemaMismatch
       | Some pack \<Rightarrow>
           and_then (check_common lower rules pack) (\<lambda>any.
             and_then (check_builtin lower any pack) (\<lambda>_.
               (let tool = lp_tool pack; programs = lp_programs pack;
                    compile = compiled_safe tool programs any;
                    rules = push_rules tool (lp_rules pack) programs any rules
                in Inr (rules\<lparr>rs_roles := foldl add_role (rs_roles rules) (bp_roles pack),
                     rs_known_hosts := rs_known_hosts rules @ bp_known_hosts pack,
                     rs_programs := (if any then rs_programs rules else rs_programs rules @ programs),
                     rs_exemptions := rs_exemptions rules @
                       map (\<lambda>e. \<lparr>co_tool = tool, co_item = e\<lparr>ex_when := scoped (ex_when e) programs any\<rparr>\<rparr>)
                         (bp_exemptions pack),
                     rs_safe := rs_safe rules @ compile (bp_safe pack),
                     rs_project_commands := rs_project_commands rules @ compile (bp_project_commands pack),
                     rs_writes := rs_writes rules @ compile (bp_writes pack),
                     rs_access_reads := rs_access_reads rules @ compile (bp_access_reads pack),
                     rs_packs := rs_packs rules @ [pack_entry pack BuiltIn]\<rparr>)))))"

definition fail_closed :: "problem \<Rightarrow> pack_rules \<Rightarrow> pack_rules" where
  "fail_closed error rules = rules\<lparr>rs_load_error := Some error\<rparr>"

text \<open>The built-in packs, or a rule set that failed to load.\<close>

fun add_builtins :: "lowering \<Rightarrow> builtin_pack pack_file list \<Rightarrow> pack_rules \<Rightarrow> problem + pack_rules" where
  "add_builtins lower [] rules = Inr rules"
| "add_builtins lower (f # fs) rules =
     and_then (add_builtin lower f rules) (\<lambda>rules. add_builtins lower fs rules)"

definition builtin_or_failed :: "lowering \<Rightarrow> builtin_pack pack_file list \<Rightarrow> pack_rules" where
  "builtin_or_failed lower files =
     (case add_builtins lower files default_rules of
        Inl error \<Rightarrow> fail_closed error default_rules | Inr rules \<Rightarrow> rules)"

text \<open>The \<open>*.json\<close> files of the local directory in the order of their names, each with its size
  and content when they can be read; \<open>None\<close> is a directory that cannot be read.\<close>

record local_file =
  lf_name :: string
  lf_size :: "nat option"
  lf_content :: "local_pack pack_file option"

fun with_local_files :: "lowering \<Rightarrow> local_file list \<Rightarrow> pack_rules \<Rightarrow> problem + pack_rules" where
  "with_local_files lower [] rules = Inr rules"
| "with_local_files lower (f # fs) rules =
     (case lf_size f of None \<Rightarrow> Inl FileUnreadable
      | Some bytes \<Rightarrow>
          if MAX_LOCAL_PACK_BYTES < bytes then Inl FileTooLarge
          else (case lf_content f of None \<Rightarrow> Inl FileUnreadable
            | Some content \<Rightarrow>
                and_then (add_local lower (lf_name f) content rules) (\<lambda>rules.
                  with_local_files lower fs rules)))"

definition with_local_dir :: "lowering \<Rightarrow> local_file list option \<Rightarrow> pack_rules \<Rightarrow> problem + pack_rules" where
  "with_local_dir lower files rules =
     (case files of None \<Rightarrow> Inl FileUnreadable | Some fs \<Rightarrow> with_local_files lower fs rules)"

definition activate_local_dir ::
    "lowering \<Rightarrow> builtin_pack pack_file list \<Rightarrow> local_file list option \<Rightarrow> pack_rules" where
  "activate_local_dir lower builtin files =
     (case with_local_dir lower files (builtin_or_failed lower builtin) of
        Inr rules \<Rightarrow> rules
      | Inl error \<Rightarrow> fail_closed error (builtin_or_failed lower builtin))"

section \<open>Questions to the rule set\<close>

definition is_dry_run :: "'a rule_set_scheme \<Rightarrow> command_view \<Rightarrow> dry_run \<Rightarrow> bool" where
  "is_dry_run rules cmd mode =
     (case mode of
        Skip \<Rightarrow> has_arg (cmd_args cmd) [''--dry-run'', ''--dryrun'']
      | SkipWithN \<Rightarrow> has_arg (cmd_args cmd) [''--dry-run'', ''--dryrun'', ''-n'']
          \<and> \<not> has_role rules (cmd_program cmd) NoDryRun)"

definition knows_program :: "pack_rules \<Rightarrow> string \<Rightarrow> bool" where
  "knows_program rules program \<longleftrightarrow> program \<in> set (rs_programs rules)"

definition add_flags :: "pack_rules \<Rightarrow> command_view \<Rightarrow> string list" where
  "add_flags rules cmd =
     map fr_flag (filter (\<lambda>rule.
         \<not> (case fr_dry_run rule of None \<Rightarrow> False | Some mode \<Rightarrow> is_dry_run rules cmd mode)
         \<and> matches (fr_when rule) cmd) (map co_item (rs_rules rules)))"

definition add_package_runner_flags :: "pack_rules \<Rightarrow> command_view \<Rightarrow> string list" where
  "add_package_runner_flags rules cmd =
     map fr_flag (filter (\<lambda>rule.
         mt_package_runner (conditions_of (fr_when rule)) = Some True \<and> matches (fr_when rule) cmd)
       (map co_item (rs_rules rules)))"

definition exempt :: "pack_rules \<Rightarrow> check \<Rightarrow> command_view \<Rightarrow> bool" where
  "exempt rules check cmd =
     list_ex (\<lambda>e. ex_check e = check \<and> matches (ex_when e) cmd) (map co_item (rs_exemptions rules))"

definition any_matches :: "safe_rule compiled list \<Rightarrow> command_view \<Rightarrow> bool" where
  "any_matches entries cmd = list_ex (\<lambda>e. matches (sr_when (co_item e)) cmd) entries"

definition rules_known_safe :: "pack_rules \<Rightarrow> command_view \<Rightarrow> bool" where
  "rules_known_safe rules = any_matches (rs_safe rules)"

definition project_command :: "pack_rules \<Rightarrow> command_view \<Rightarrow> bool" where
  "project_command rules = any_matches (rs_project_commands rules)"

definition rules_known_write :: "pack_rules \<Rightarrow> command_view \<Rightarrow> bool" where
  "rules_known_write rules = any_matches (rs_writes rules)"

definition access_read :: "pack_rules \<Rightarrow> command_view \<Rightarrow> bool" where
  "access_read rules = any_matches (rs_access_reads rules)"

end
