(* ===== verification/ShellRules.thy ===== *)
theory ShellRules
  imports ShellHosts PackRules Route
begin

text \<open>
  The analysis of a command (src/src/broker/shell_risk.rs): the general lexicons, the checks of
  a segment and of a pipeline with the rule packs, the tests for known commands, and the
  analysis of a run with the provider hosts of its items. A function that pushes flags returns
  the flags that it pushes, in order.
\<close>

section \<open>The words of a command\<close>

text \<open>\<open>str::rsplit_once\<close> with a character.\<close>

definition rsplit_char :: "char \<Rightarrow> string \<Rightarrow> (string \<times> string) option" where
  "rsplit_char c s =
     (case split_once c (rev s) of None \<Rightarrow> None | Some (after, before) \<Rightarrow> Some (rev before, rev after))"

definition FILE_EXTENSIONS :: "string list" where
  "FILE_EXTENSIONS =
    [''yml'', ''yaml'', ''json'', ''js'', ''mjs'', ''cjs'', ''ts'', ''py'', ''rb'', ''php'',
     ''sh'', ''sql'', ''txt'', ''csv'', ''env'', ''toml'', ''ini'', ''cfg'', ''conf'', ''xml'',
     ''html'', ''md'', ''lock'', ''hcl'', ''tf'', ''exs'', ''ex'', ''jar'', ''zip'', ''gz'',
     ''tar'', ''log'', ''properties'', ''pem'', ''key'', ''crt'']"

definition PATH_ARGS :: nat where
  "PATH_ARGS = 5"

definition looks_like_file :: "string \<Rightarrow> bool" where
  "looks_like_file word =
     (case rsplit_char CHR ''.'' word of None \<Rightarrow> False
      | Some (stem, extension) \<Rightarrow> stem \<noteq> [] \<and> extension \<in> set FILE_EXTENSIONS)"

definition is_command_word :: "string \<Rightarrow> bool" where
  "is_command_word word \<longleftrightarrow>
     word \<noteq> [] \<and> is_ascii_alphanumeric (hd word)
     \<and> list_all (\<lambda>c. is_ascii_alphanumeric c \<or> c \<in> set '':.-_'') word
     \<and> \<not> looks_like_file word"

definition word_parts :: "string \<Rightarrow> string list" where
  "word_parts word = filter (\<lambda>part. part \<noteq> []) (split_when (\<lambda>c. c \<in> set '':.-_'') word)"

record command_words =
  cp_parts :: "string list"
  cp_first :: "string list"

definition command_path :: "command_view \<Rightarrow> command_words" where
  "command_path cmd =
     (let found = take PATH_ARGS (filter (\<lambda>arg. \<not> is_option arg \<and> is_command_word arg)
            (takeWhile (\<lambda>arg. arg \<noteq> ''--'') (cmd_args cmd)))
      in \<lparr>cp_parts = word_parts (cmd_program cmd) @ concat (map word_parts found),
          cp_first = (case found of [] \<Rightarrow> [] | word # _ \<Rightarrow> word_parts word)\<rparr>)"

definition path_has :: "command_words \<Rightarrow> string list \<Rightarrow> bool" where
  "path_has path list = list_ex (\<lambda>part. part \<in> set list) (cp_parts path)"

definition path_has_pair :: "command_words \<Rightarrow> string list \<Rightarrow> string list \<Rightarrow> bool" where
  "path_has_pair path first second =
     list_ex (\<lambda>(a, b). a \<in> set first \<and> b \<in> set second) (zip (cp_parts path) (drop 1 (cp_parts path)))"

definition option_names :: "command_view \<Rightarrow> string list" where
  "option_names cmd =
     map (takeWhile (\<lambda>c. c \<noteq> CHR ''=''))
       (filter is_option (takeWhile (\<lambda>arg. arg \<noteq> ''--'') (cmd_args cmd)))"

section \<open>The general secret lexicon\<close>

definition VALUE_NOUNS :: "string list" where
  "VALUE_NOUNS =
    [''variables'', ''variable'', ''vars'', ''var'', ''dotenv'', ''connections'',
     ''connection'', ''appsettings'', ''credentials'', ''credential'', ''creds'']"

definition SECRET_NOUNS :: "string list" where
  "SECRET_NOUNS =
    [''secret'', ''secrets'', ''vault'', ''keyvault'', ''password'', ''passwords'', ''passwd'',
     ''apikey'', ''apikeys'', ''token'', ''tokens'']"

definition NEW_SECRET_NOUNS :: "string list" where
  "NEW_SECRET_NOUNS =
    [''password'', ''passwords'', ''passwd'', ''apikey'', ''apikeys'', ''token'', ''tokens'',
     ''credential'', ''credentials'']"

definition KEY_ADJECTIVES :: "string list" where
  "KEY_ADJECTIVES =
    [''api'', ''access'', ''secret'', ''private'', ''client'', ''service'', ''session'',
     ''refresh'', ''bearer'']"

definition KEY_NOUNS :: "string list" where
  "KEY_NOUNS =
    [''key'', ''keys'', ''secret'', ''secrets'', ''token'', ''tokens'']"

definition REVEAL_VERBS :: "string list" where
  "REVEAL_VERBS =
    [''get'', ''show'', ''view'', ''print'', ''cat'', ''export'', ''dump'', ''reveal'',
     ''decrypt'', ''read'', ''pull'', ''download'', ''value'', ''values'', ''fill'',
     ''access'', ''unseal'', ''display'']"

definition LIST_VERBS :: "string list" where
  "LIST_VERBS =
    [''list'', ''ls'']"

definition CHANGE_VERBS :: "string list" where
  "CHANGE_VERBS =
    [''set'', ''unset'', ''put'', ''add'', ''edit'', ''update'', ''upload'', ''push'',
     ''sync'', ''import'', ''delete'', ''rm'', ''remove'', ''encrypt'', ''rekey'', ''destroy'',
     ''load'', ''apply'', ''use'', ''switch'', ''login'', ''logout'', ''init'', ''write'',
     ''create'', ''new'', ''generate'', ''rotate'', ''reset'', ''revoke'', ''disable'',
     ''enable'', ''link'', ''unlink'', ''purge'', ''clear'']"

definition NEW_SECRET_VERBS :: "string list" where
  "NEW_SECRET_VERBS =
    [''create'', ''new'', ''generate'', ''issue'', ''mint'', ''reset'', ''rotate'',
     ''regenerate'', ''renew'', ''roll'']"

definition REVEAL_OPTIONS :: "string list" where
  "REVEAL_OPTIONS =
    [''--reveal'', ''--reveal-secrets'', ''--show-secrets'', ''--show-secret'',
     ''--with-secrets'', ''--include-secrets'', ''--with-decryption'', ''--decrypt'',
     ''--plaintext'', ''--kv'', ''--unmask'', ''--show-sensitive'', ''--show-values'',
     ''--show-token'', ''--show-password'']"

text \<open>An option that asks for the format of an environment file.\<close>

fun format_value :: "string list \<Rightarrow> bool" where
  "format_value [] = False"
| "format_value (arg # rest) =
     ((case split_once CHR ''='' arg of
         Some (name, value) \<Rightarrow> (name, Some value) | None \<Rightarrow> (arg, get rest 0))
       \<in> {''--format'', ''--output'', ''--output-format'', ''-o''} \<times> {Some ''dotenv'', Some ''env''}
      \<or> format_value rest)"

definition reveals_secret :: "command_view \<Rightarrow> bool" where
  "reveals_secret cmd =
     (let options = option_names cmd; path = command_path cmd; has = path_has path;
          key_noun = path_has_pair path KEY_ADJECTIVES KEY_NOUNS;
          value_noun = has VALUE_NOUNS;
          secret_noun = (key_noun \<or> list_ex (\<lambda>part. part \<in> set SECRET_NOUNS
            \<or> contains_any part [''password'', ''secret'', ''apikey'']) (cp_parts path));
          reveal = (has REVEAL_VERBS \<or> path_has_pair path [''auth''] [''token'', ''tokens'']);
          listing = has LIST_VERBS
      in if list_ex (\<lambda>name. name \<in> set REVEAL_OPTIONS) options then True
         else if names_only (cmd_args cmd) then False
         else if format_value (cmd_args cmd) then True
         else if (has NEW_SECRET_NOUNS \<or> key_noun) \<and> has NEW_SECRET_VERBS then True
         else if has CHANGE_VERBS
           \<or> list_ex (\<lambda>name. dropWhile ((=) CHR ''-'') name \<in> set CHANGE_VERBS) options then False
         else
           ((value_noun \<or> secret_noun) \<and> reveal)
           \<or> (value_noun \<and> listing)
           \<or> (list_ex (\<lambda>part. part \<in> set VALUE_NOUNS) (cp_first path) \<and> \<not> reveal \<and> \<not> listing)
           \<or> (has [''env''] \<and> has [''pull'', ''get'', ''print'', ''dump'', ''show'', ''cat'', ''view'']))"

definition STORE_NOUNS :: "string list" where
  "STORE_NOUNS =
    [''secret'', ''secrets'', ''parameter'', ''parameters'', ''variable'', ''variables'',
     ''var'', ''vars'', ''credential'', ''credentials'', ''vault'', ''keyvault'', ''kv'',
     ''env'', ''config'', ''settings'', ''appsettings'']"

definition STORE_VERBS :: "string list" where
  "STORE_VERBS =
    [''set'', ''put'', ''add'', ''create'', ''store'', ''save'', ''write'', ''import'',
     ''upload'', ''push'', ''approve'']"

definition stored_value_verbs :: "string list" where
  "stored_value_verbs =
    [''login'', ''init'', ''add'', ''activate'', ''configure'', ''set'', ''put'', ''create'',
     ''store'', ''save'', ''write'', ''import'', ''upload'', ''push'', ''approve'']"

definition stores_secret :: "command_view \<Rightarrow> bool" where
  "stores_secret cmd =
     (let path = command_path cmd; has = path_has path
      in if list_ex (\<lambda>arg. contains_sub arg ''git-credential'' \<or> starts_with arg ''credential.helper'')
              (cmd_args cmd) then True
         else if \<not> (has [''login'']
             \<or> (has [''auth''] \<and> has [''init'', ''add'', ''activate'', ''configure'', ''set''])
             \<or> (has STORE_NOUNS \<and> has STORE_VERBS)
             \<or> (has [''configure''] \<and> has [''set''])
             \<or> (has [''remote''] \<and> has [''add'', ''set''])) then False
         else
           (case position (\<lambda>arg. \<not> is_option arg \<and> is_command_word arg
               \<and> list_ex (\<lambda>p. p \<in> set stored_value_verbs) (word_parts arg)) (cmd_args cmd) of
              None \<Rightarrow> False
            | Some verb \<Rightarrow>
                list_ex (\<lambda>arg. refs_secret arg (cmd_secret_names cmd)) (drop (verb + 2) (cmd_argv cmd))))"

section \<open>Connections and public access\<close>

definition CONNECTION_SCHEMES :: "string list" where
  "CONNECTION_SCHEMES =
    [''jdbc:'', ''postgres://'', ''postgresql://'', ''mysql://'', ''mariadb://'',
     ''mongodb://'', ''mongodb+srv://'', ''redis://'', ''rediss://'', ''amqp://'',
     ''amqps://'', ''sqlserver://'', ''clickhouse://'']"

definition least :: "nat list \<Rightarrow> nat option" where
  "least xs = (case xs of [] \<Rightarrow> None | x # rest \<Rightarrow> Some (foldl min x rest))"

definition connection_host :: "string \<Rightarrow> string option" where
  "connection_host arg =
     (case least (List.map_filter (find_sub arg) CONNECTION_SCHEMES) of None \<Rightarrow> None
      | Some start \<Rightarrow>
          (case find_sub (drop start arg) ''://'' of None \<Rightarrow> None
           | Some at \<Rightarrow>
               (let rest = drop (at + 3) (drop start arg);
                    authority = takeWhile (\<lambda>c. c \<notin> set (''/?;'' @ [CHR 0x22, CHR 0x27])) rest;
                    host_port = last (split_on CHR ''@'' authority);
                    host = to_lowercase (case strip_prefix host_port ''['' of
                        Some v6 \<Rightarrow> takeWhile (\<lambda>c. c \<noteq> CHR '']'') v6
                      | None \<Rightarrow>
                          (let first = takeWhile (\<lambda>c. c \<noteq> CHR '','') host_port
                           in case rsplit_char CHR '':'' first of
                                Some (host, port) \<Rightarrow> if list_all is_ascii_digit port then host else first
                              | None \<Rightarrow> first))
                in if host \<noteq> [] \<and> CHR ''$'' \<notin> set host then Some host else None)))"

definition connection_hosts :: "string list \<Rightarrow> string list" where
  "connection_hosts args = List.map_filter connection_host args"

definition this_computer :: "string \<Rightarrow> bool" where
  "this_computer host \<longleftrightarrow>
     host \<in> set [''localhost'', ''127.0.0.1'', ''::1'', ''0.0.0.0'', ''host.docker.internal'']
     \<or> ends_with host ''.localhost''"

definition sends_secret_to_written_host :: "command_view \<Rightarrow> bool" where
  "sends_secret_to_written_host cmd \<longleftrightarrow>
     list_ex (\<lambda>arg. list_ex (names_secret arg) (cmd_secret_names cmd)) (drop 1 (cmd_argv cmd))
     \<and> list_ex (\<lambda>host. \<not> this_computer host) (connection_hosts (cmd_args cmd))"

definition PUBLIC_ACCESS :: "string list" where
  "PUBLIC_ACCESS =
    [''allusers'', ''allauthenticatedusers'', ''0.0.0.0/0'', ''::/0'', ''public-read'',
     ''public-read-write'']"

definition grants_public_access :: "command_view \<Rightarrow> bool" where
  "grants_public_access cmd =
     list_ex (\<lambda>arg. list_ex (\<lambda>text.
        contains_sub arg text \<and> \<not> starts_with arg ''--no-''
        \<and> \<not> (starts_with text ''public'' \<and> contains_sub arg ''block-public'')) PUBLIC_ACCESS)
       (cmd_args cmd)"

section \<open>Programs that no pack knows\<close>

definition DESTROY_WORDS :: "string list" where
  "DESTROY_WORDS =
    [''delete'', ''destroy'', ''drop'', ''truncate'', ''wipe'', ''purge'', ''flush'',
     ''flushall'', ''flushdb'', ''prune'', ''gc'', ''rm'', ''erase'', ''nuke'', ''clear'',
     ''reset'', ''uninstall'', ''expunge'', ''rollback'', ''remove'', ''terminate'',
     ''obliterate'']"

definition DESTROY_OPTION_STARTS :: "string list" where
  "DESTROY_OPTION_STARTS =
    [''--delete'', ''--purge'', ''--drop'', ''--wipe'', ''--truncate'', ''--prune'',
     ''--reset'', ''--force-reset'', ''--remove'']"

definition DESTROY_OPTIONS :: "string list" where
  "DESTROY_OPTIONS =
    [''--replace'', ''--overwrite'', ''--full-refresh'']"

definition IRREVERSIBLE_WORDS :: "string list" where
  "IRREVERSIBLE_WORDS =
    [''repair'', ''replay'', ''revert'', ''rotate'', ''revoke'']"

definition CONFIRM_OPTIONS :: "string list" where
  "CONFIRM_OPTIONS =
    [''--force'', ''--execute'', ''--yes'', ''--confirm'', ''--no-confirm'', ''--noconfirm'',
     ''--skip-confirmation'', ''--auto-approve'', ''--assume-yes'']"

definition check_unknown_program :: "command_view \<Rightarrow> string list" where
  "check_unknown_program cmd =
     (let has = path_has (command_path cmd); options = option_names cmd
      in (if has DESTROY_WORDS
            \<or> list_ex (\<lambda>name. name \<in> set DESTROY_OPTIONS \<or> starts_any name DESTROY_OPTION_STARTS) options
          then [''data_loss''] else [])
         @ (if has IRREVERSIBLE_WORDS
              \<or> (has [''retry''] \<and> (has [''all''] \<or> ''--all'' \<in> set options))
              \<or> list_ex (\<lambda>name. name \<in> set CONFIRM_OPTIONS) options
            then [''irreversible''] else [])
         @ (if list_ex (\<lambda>arg. let text = plain_sql_text arg in CHR '' '' \<in> set text \<and> sql_destroys text)
              (drop 1 (cmd_argv cmd))
            then [''data_loss''] else []))"

section \<open>Names of scripts and tasks\<close>

definition script_destroy_words :: "string list" where
  "script_destroy_words =
    [''delete'', ''drop'', ''wipe'', ''purge'', ''destroy'', ''truncate'', ''nuke'', ''reset'',
     ''erase'', ''remove'']"

definition task_destroy_words :: "string list" where
  "task_destroy_words =
    [''delete'', ''drop'', ''wipe'', ''purge'', ''destroy'', ''truncate'', ''nuke'', ''reset'',
     ''erase'', ''rollback'']"

definition any_word :: "string list \<Rightarrow> string list \<Rightarrow> bool" where
  "any_word list found = list_ex (\<lambda>w. w \<in> set list) found"

definition script_flags :: "string \<Rightarrow> string list" where
  "script_flags text =
     (let name = last (split_on CHR ''/'' text); parts = sql_words name
      in (if any_word script_destroy_words parts then [''data_loss''] else [])
         @ (if any_word [''grant'', ''promote'', ''elevate'', ''superuser'', ''impersonate'', ''sudo''] parts
              \<or> (any_word [''admin'', ''owner'', ''root''] parts
                 \<and> any_word [''make'', ''set'', ''add'', ''create'', ''give''] parts)
            then [''privilege''] else []))"

definition task_names :: "command_view \<Rightarrow> string list" where
  "task_names cmd =
     (let sub = cmd_sub_args cmd
      in if sub \<noteq> [] \<and> (hd sub = ''run'' \<or> hd sub = ''run-script'') then opt_list (get sub 1)
         else if cmd_program cmd \<in> {''make'', ''gmake'', ''just'', ''task''}
         then filter (\<lambda>arg. \<not> is_option arg) (takeWhile (\<lambda>arg. arg \<noteq> ''--'') sub)
         else opt_list (get sub 0))"

definition check_destructive :: "'a rule_set_scheme \<Rightarrow> command_view \<Rightarrow> string list" where
  "check_destructive rules cmd =
     (case List.find (\<lambda>arg. CHR ''/'' \<in> set arg \<or> CHR ''.'' \<in> set arg)
         (take 1 (drop (if has_role rules (cmd_program cmd) ScriptRunner then 1 else 0) (cmd_argv cmd))) of
        None \<Rightarrow> [] | Some arg \<Rightarrow> script_flags (to_lowercase arg))
     @ (if contains_any (cmd_joined_lower cmd) [''--accept-data-loss'', ''--force-reset'', ''dropdatabase'']
        then [''data_loss''] else [])
     @ (if has_role rules (cmd_program cmd) TaskRunner
          \<and> list_ex (\<lambda>task. \<not> is_option task \<and> any_word task_destroy_words (sql_words task)) (task_names cmd)
        then [''data_loss''] else [])"

section \<open>Releases\<close>

definition production_words :: "string list" where
  "production_words = [''prod'', ''production'', ''prd'', ''live'']"

definition target_words :: "string \<Rightarrow> string list" where
  "target_words arg =
     (let lower = to_lowercase arg
      in if starts_with lower ''build'' \<or> contains_sub lower ''build:'' \<or> starts_with lower ''--mode'' then []
         else sql_words lower @ split_when (\<lambda>c. \<not> is_ascii_alphanumeric c) lower)"

definition check_release :: "pack_rules \<Rightarrow> command_view \<Rightarrow> string list" where
  "check_release rules cmd =
     (let prod_word = any_word production_words (concat (map target_words (drop 1 (cmd_argv cmd))))
            \<or> contains_any (cmd_joined_lower cmd) [''sk_live_'', ''pk_live_''];
          is_build = subcommand cmd \<in> {''build'', ''run''}
            \<and> (case get (cmd_sub_args cmd) 1 of None \<Rightarrow> False | Some a \<Rightarrow> starts_with a ''build'')
      in (if prod_word \<and> \<not> is_build \<and> \<not> exempt rules ProductionWord cmd then [''production''] else [])
         @ (if has_arg (cmd_args cmd)
                [''--all-users'', ''--all'', ''--everyone'', ''--broadcast'', ''--all-customers'']
              \<and> any_word [''send'', ''sms'', ''newsletter'', ''notify'', ''broadcast'', ''blast'']
                (sql_words (join_with '' '' (cmd_argv cmd)))
            then [''production''] else [])
         @ check_recipients (cmd_argv cmd))"

section \<open>The checks of a segment\<close>

definition is_usage_request :: "'a rule_set_scheme \<Rightarrow> string \<Rightarrow> string list \<Rightarrow> bool" where
  "is_usage_request rules prog args \<longleftrightarrow>
     has_role rules prog role.Usage
     \<and> (''--help'' \<in> set args \<or> ''--version'' \<in> set args
        \<or> (args \<noteq> [] \<and> hd args = ''help'') \<or> args = [''-h''])"

definition production_text :: "string \<Rightarrow> bool" where
  "production_text text =
     any_word production_words (split_when (\<lambda>c. \<not> is_ascii_alphanumeric c) (to_lowercase text))"

definition assignment_flags :: "string \<Rightarrow> string list" where
  "assignment_flags assignment =
     (case (case split_once CHR ''='' assignment of None \<Rightarrow> (assignment, []) | Some nv \<Rightarrow> nv) of
        (name, value) \<Rightarrow>
          if production_text value
            \<or> (production_text name \<and> to_lowercase (trim value) \<notin> {[], ''0'', ''false'', ''no''})
          then [''production''] else [])"

definition heredoc_flags :: "'a rule_set_scheme \<Rightarrow> string \<Rightarrow> segment \<Rightarrow> string list \<Rightarrow> string list" where
  "heredoc_flags rules prog segment secret_names =
     (let heredoc = sg_heredoc segment
      in if heredoc = [] then []
         else if has_role rules prog HeredocCode then
           (if inline_code_leaks heredoc secret_names then [''secret_output''] else [])
           @ (if sql_writes heredoc \<and> contains_sub (to_lowercase heredoc) ''execute'' then [''data_loss''] else [])
         else if has_role rules prog HeredocSql \<and> sql_writes heredoc then [''data_loss'']
         else if refs_secret heredoc secret_names
           \<and> (sg_redirect_out segment \<or> has_role rules prog FileWriter) then [''secret_output'']
         else [])"

definition prints_secrets :: "string \<Rightarrow> bool" where
  "prints_secrets arg =
     (let w = sql_words arg
      in 2 \<le> length w \<and> any_word [''secret'', ''secrets'', ''env'', ''credentials'', ''keys''] w
         \<and> any_word [''print'', ''show'', ''dump'', ''reveal'', ''echo'', ''log''] w)"

definition secret_flags ::
    "pack_rules \<Rightarrow> string list \<Rightarrow> segment \<Rightarrow> string list \<Rightarrow> command_view \<Rightarrow> string list" where
  "secret_flags rules hosts segment secret_names cmd =
     (let argv = cmd_argv cmd; prog = cmd_program cmd; secret = cmd_secret cmd;
          on = (\<lambda>test flag. if test then [flag] else []);
          lexicon = (\<not> exempt rules CommandLexicon cmd)
      in on (secret \<and> (has_role rules prog Output \<or> has_role rules prog Encoder)) ''secret_output''
         @ on (secret \<and> sg_redirect_out segment) ''secret_output''
         @ on (sg_redirect_out segment \<and> dumps_environment segment) ''secret_output''
         @ on (secret \<and> prog \<in> set JQ_PROGRAMS) ''secret_output''
         @ on (case db_client_hosts argv (sg_environment segment) of None \<Rightarrow> False
             | Some found \<Rightarrow> list_ex (\<lambda>host. \<not> is_loopback host) found) DB_HOST_FLAG
         @ (if has_role rules prog HttpClient then check_http argv secret_names hosts else [])
         @ on (list_ex prints_secrets (cmd_args cmd)) ''secret_output''
         @ on (lexicon \<and> reveals_secret cmd) ''secret_output''
         @ on (stores_secret cmd) ''secret_output''
         @ on (lexicon \<and> grants_public_access cmd) ''privilege''
         @ on (sends_secret_to_written_host cmd) ''secret_output'')"

definition check_segment ::
    "pack_rules \<Rightarrow> string list \<Rightarrow> string list \<Rightarrow> segment \<Rightarrow> string list" where
  "check_segment rules hosts secret_names segment =
     (let argv = effective_argv segment; cmd = command hosts segment argv secret_names;
          prog = cmd_program cmd
      in if argv = [] then []
         else if is_usage_request rules prog (cmd_args cmd) \<and> \<not> sg_redirect_out segment then
           (if is_package_runner (sg_argv segment) then add_package_runner_flags rules cmd else [])
         else
           add_flags rules cmd
           @ (if list_ex is_secret_file (drop 1 (sg_argv segment)) \<and> \<not> exempt rules SecretFileArgument cmd
              then [''secret_output''] else [])
           @ concat (map assignment_flags (sg_assignments segment))
           @ (if list_ex is_system_path (sg_redirect_targets segment) then [''system_change''] else [])
           @ heredoc_flags rules prog segment secret_names
           @ secret_flags rules hosts segment secret_names cmd
           @ (if is_dry_run rules cmd SkipWithN then [] else check_destructive rules cmd)
           @ (if \<not> knows_program rules prog \<and> \<not> is_dry_run rules cmd Skip
              then check_unknown_program cmd else [])
           @ (if is_dry_run rules cmd Skip then [] else check_release rules cmd))"

section \<open>The checks of a pipeline\<close>

definition has_secret :: "string list \<Rightarrow> segment \<Rightarrow> bool" where
  "has_secret secret_names segment \<longleftrightarrow>
     segment_refs_secret segment secret_names \<or> list_ex is_secret_file (drop 1 (sg_argv segment))"

text \<open>A segment with a secret, and a later program that sends or encodes its input.\<close>

fun secret_reaches :: "'a rule_set_scheme \<Rightarrow> string list \<Rightarrow> pipeline \<Rightarrow> bool" where
  "secret_reaches rules secret_names [] = False"
| "secret_reaches rules secret_names (segment # rest) =
     ((has_secret secret_names segment
       \<and> list_ex (\<lambda>s. let p = first_base (effective_argv s)
           in has_role rules p Network \<or> has_role rules p Encoder) rest)
      \<or> secret_reaches rules secret_names rest)"

definition check_pipeline ::
    "pack_rules \<Rightarrow> string list \<Rightarrow> string list \<Rightarrow> pipeline \<Rightarrow> string list" where
  "check_pipeline rules hosts secret_names pipeline =
     (let has_network = list_ex (\<lambda>s. has_role rules (first_base (effective_argv s)) Network) pipeline;
          piped_to_shell = list_ex (\<lambda>s. segment_program s \<in> set SHELLS) (drop 1 pipeline)
      in (if piped_to_shell \<and> has_network then [''remote_code''] else [])
         @ (if secret_reaches rules secret_names pipeline then [''secret_output''] else [])
         @ (if list_ex dumps_environment pipeline then [''secret_output''] else [])
         @ concat (map (check_segment rules hosts secret_names) pipeline))"

section \<open>Provider hosts\<close>

text \<open>\<open>check_host\<close> and \<open>url_hosts\<close> of src/src/vault/providers.rs.\<close>

definition provider_host_ok :: "string \<Rightarrow> bool" where
  "provider_host_ok host \<longleftrightarrow>
     host \<noteq> [] \<and> hd host \<notin> {CHR ''.'', CHR ''-''} \<and> last host \<notin> {CHR ''.'', CHR ''-''}
     \<and> \<not> contains_sub host ''..''
     \<and> list_all (\<lambda>c. is_ascii_lower c \<or> is_ascii_digit c \<or> c = CHR ''.'' \<or> c = CHR ''-'') host"

definition provider_authority_end :: "string \<Rightarrow> bool" where
  "provider_authority_end c \<longleftrightarrow>
     is_whitespace c
     \<or> one_of (''/?#'' @ [CHR 0x22, CHR 0x27, CHR 0x60] @ ''<>(),;|'' @ [CHR 0x5C]) c"

function provider_url_hosts :: "string \<Rightarrow> string list" where
  "provider_url_hosts rest =
     (case find_sub rest ''://'' of
        None \<Rightarrow> []
      | Some pos \<Rightarrow>
          (let before = take pos rest; after = drop (pos + 3) rest;
               named = last (split_on CHR ''@'' (before_char provider_authority_end after));
               host = to_lowercase (trim_end_matches CHR ''.'' (takeWhile (\<lambda>c. c \<noteq> CHR '':'') named))
           in (if before \<noteq> [] \<and> is_ascii_alphanumeric (last before) \<and> provider_host_ok host
               then [host] else [])
              @ provider_url_hosts after))"
  by pat_completeness auto
termination
proof (relation "measure length", goal_cases)
  case (2 rest pos)
  then have "rest \<noteq> []" by auto
  then show ?case using 2 by (cases rest) auto
qed simp

declare provider_url_hosts.simps [simp del]

definition FOREIGN_HOST_FLAG :: string where
  "FOREIGN_HOST_FLAG = ''foreign_host''"

definition segment_texts :: "segment \<Rightarrow> string list" where
  "segment_texts segment =
     sg_assignments segment @ sg_argv segment @ sg_redirect_targets segment @ [sg_heredoc segment]"

definition sends_to_foreign_host :: "pipeline \<Rightarrow> string list \<Rightarrow> provider_hosts list \<Rightarrow> bool" where
  "sends_to_foreign_host pipeline global providers =
     (let texts = concat (map segment_texts pipeline); hosts = concat (map provider_url_hosts texts)
      in list_ex (\<lambda>provider.
           list_ex (\<lambda>text. names_secret text (ph_env_name provider)) texts
           \<and> list_ex (\<lambda>host. \<not> is_known_host host (ph_hosts provider) \<and> \<not> is_known_host host global) hosts)
         providers)"

section \<open>Reads of personal data\<close>

definition LOCAL_TEXT_TOOLS :: "string list" where
  "LOCAL_TEXT_TOOLS =
    [''cat'', ''head'', ''tail'', ''less'', ''more'', ''bat'', ''tee'', ''echo'', ''printf'',
     ''grep'', ''egrep'', ''fgrep'', ''rg'', ''ag'', ''ack'', ''sed'', ''awk'', ''gawk'',
     ''cut'', ''sort'', ''uniq'', ''wc'', ''tr'', ''ls'', ''find'', ''tree'', ''jq'', ''yq'',
     ''gojq'', ''jaq'', ''jp'', ''fx'', ''xargs'', ''column'', ''paste'', ''diff'', ''file'',
     ''stat'', ''git'']"

definition FIELD_FILTERS :: "string list" where
  "FIELD_FILTERS =
    [''jq'', ''yq'', ''gojq'', ''jaq'', ''jp'', ''fx'', ''grep'', ''egrep'', ''fgrep'', ''rg'',
     ''awk'', ''gawk'', ''sed'']"

definition SELECT_OPTIONS :: "string list" where
  "SELECT_OPTIONS =
    [''--jq'', ''--query'', ''--format'', ''--fields'', ''--select'', ''--columns'',
     ''--properties'', ''--template'']"

definition data_query_texts ::
    "'a rule_set_scheme \<Rightarrow> string \<Rightarrow> string list \<Rightarrow> segment \<Rightarrow> string list" where
  "data_query_texts rules program argv segment =
     opt_list (sql_argument argv)
     @ (if has_role rules program HeredocSql then
          filter (\<lambda>arg. \<not> is_option arg \<and> CHR '' '' \<in> set arg) (drop 1 argv)
          @ (if sg_heredoc segment \<noteq> [] then [sg_heredoc segment] else [])
        else [])"

fun selects_contact :: "string list \<Rightarrow> bool" where
  "selects_contact [] = False"
| "selects_contact (arg # rest) =
     (let lower = to_lowercase arg;
          next = (lower, map_option to_lowercase (get rest 0));
          (name, value) = (case split_once CHR ''='' lower of
              Some (name, value) \<Rightarrow> if starts_with name ''-'' then (name, Some value) else next
            | None \<Rightarrow> next)
      in (name \<in> set SELECT_OPTIONS \<and> (case value of None \<Rightarrow> False | Some v \<Rightarrow> names_contact v))
         \<or> selects_contact rest)"

text \<open>The loop over the segments; \<open>source\<close> is set after a read of a resource of people.\<close>

fun personal_read :: "'a rule_set_scheme \<Rightarrow> bool \<Rightarrow> pipeline \<Rightarrow> bool" where
  "personal_read rules source [] = False"
| "personal_read rules source (segment # rest) =
     (let argv = effective_argv segment; program = first_base argv; args = drop 1 argv
      in if argv = [] then personal_read rules source rest
         else if list_ex (\<lambda>text. sql_personal_read text \<or> mongo_personal_read text)
             (data_query_texts rules program argv segment) then True
         else if list_ex url_selects_contact args then True
         else if source \<and> program \<in> set FIELD_FILTERS \<and> list_ex names_contact args then True
         else if program \<in> set LOCAL_TEXT_TOOLS then personal_read rules source rest
         else if \<not> list_ex names_people (filter (\<lambda>arg. \<not> is_option arg) args)
         then personal_read rules source rest
         else if selects_contact args then True
         else personal_read rules True rest)"

section \<open>Known commands\<close>

definition SCRATCH_FOLDERS :: "string list" where
  "SCRATCH_FOLDERS =
    [''tmp/'', ''dist/'', ''build/'', ''out/'', ''coverage/'', ''target/'', ''.cache/'']"

definition scratch_target :: "string \<Rightarrow> bool" where
  "scratch_target target =
     (let path = (case strip_prefix target ''./'' of None \<Rightarrow> target | Some p \<Rightarrow> p)
      in \<not> contains_sub path ''..'' \<and> \<not> is_secret_file path
         \<and> (is_temp_path path
            \<or> list_ex (\<lambda>folder. starts_with path folder \<and> length folder < length path) SCRATCH_FOLDERS))"

definition redirects_to_scratch :: "segment \<Rightarrow> bool" where
  "redirects_to_scratch segment \<longleftrightarrow>
     sg_redirect_targets segment \<noteq> [] \<and> list_all scratch_target (sg_redirect_targets segment)"

definition runs_container :: "string list \<Rightarrow> bool" where
  "runs_container argv =
     (let program = first_base argv; word = word_at (lower_args argv);
          exec_or_run = (\<lambda>w. w = ''exec'' \<or> w = ''run'')
      in if program = ''docker'' \<or> program = ''podman'' then
           word 1 = ''exec'' \<or> (word 1 = ''container'' \<and> word 2 = ''exec'')
           \<or> (word 1 = ''compose'' \<and> exec_or_run (word (skip_container_options argv 2)))
         else if program = ''docker-compose'' \<or> program = ''podman-compose'' then
           exec_or_run (word (skip_container_options argv 1))
         else False)"

definition runs_default_container_command :: "segment \<Rightarrow> bool" where
  "runs_default_container_command segment \<longleftrightarrow>
     runs_container (effective_argv segment) \<and> container_command segment = None"

text \<open>No words after the wrappers, or an assignment alone.\<close>

definition only_assigns :: "string list \<Rightarrow> bool" where
  "only_assigns argv \<longleftrightarrow> argv = [] \<or> (length argv = 1 \<and> is_assignment (hd argv))"

definition is_known_safe ::
    "pack_rules \<Rightarrow> string list \<Rightarrow> string list \<Rightarrow> segment \<Rightarrow> bool" where
  "is_known_safe rules hosts secret_names segment =
     (let argv = effective_argv segment; cmd = command hosts segment argv secret_names
      in if sg_redirect_out segment \<and> \<not> redirects_to_scratch segment then False
         else if only_assigns argv then True
         else if is_usage_request rules (cmd_program cmd) (cmd_args cmd) then True
         else rules_known_safe rules cmd \<and> \<not> rules_known_write rules cmd
           \<and> \<not> runs_default_container_command segment)"

definition http_write :: "'a rule_set_scheme \<Rightarrow> string list \<Rightarrow> command_view \<Rightarrow> bool" where
  "http_write rules secret_names cmd \<longleftrightarrow>
     has_role rules (cmd_program cmd) HttpClient \<and> \<not> http_reads (cmd_argv cmd) secret_names"

definition is_known_write ::
    "pack_rules \<Rightarrow> string list \<Rightarrow> string list \<Rightarrow> segment \<Rightarrow> bool" where
  "is_known_write rules hosts secret_names segment =
     (let argv = effective_argv segment; cmd = command hosts segment argv secret_names
      in if only_assigns argv then False
         else if is_usage_request rules (cmd_program cmd) (cmd_args cmd) then False
         else rules_known_write rules cmd \<or> http_write rules secret_names cmd)"

definition is_known_command ::
    "pack_rules \<Rightarrow> string list \<Rightarrow> string list \<Rightarrow> segment \<Rightarrow> bool" where
  "is_known_command rules hosts secret_names segment =
     (let argv = effective_argv segment; cmd = command hosts segment argv secret_names;
          prog = cmd_program cmd
      in if is_known_safe rules hosts secret_names segment then True
         else if only_assigns argv then True
         else knows_program rules prog \<and> \<not> has_role rules prog ProjectCode
           \<and> \<not> project_command rules cmd \<and> \<not> access_read rules cmd
           \<and> \<not> http_write rules secret_names cmd
           \<and> \<not> runs_default_container_command segment)"

section \<open>The analysis\<close>

definition traces :: "segment \<Rightarrow> bool" where
  "traces segment \<longleftrightarrow>
     segment_program segment = ''set''
     \<and> list_ex (\<lambda>arg. (is_option arg \<and> CHR ''x'' \<in> set arg) \<or> arg = ''xtrace'') (drop 1 (sg_argv segment))"

definition trace_flags :: "string list \<Rightarrow> pipeline list \<Rightarrow> string list \<Rightarrow> string list" where
  "trace_flags argv pipelines secret_names =
     (let segments = concat pipelines;
          shell_traces = opt_list (shell_trace argv [])
            @ List.map_filter (\<lambda>s. shell_trace (effective_argv s) (sg_heredoc s)) segments;
          any_secret = list_ex (\<lambda>s. segment_refs_secret s secret_names) segments;
          traced_text = list_ex traces segments \<or> True \<in> set shell_traces
      in if (traced_text \<and> any_secret) \<or> (False \<in> set shell_traces \<and> secret_names \<noteq> [])
         then [''secret_output''] else [])"

definition all_hosts :: "pack_rules \<Rightarrow> provider_hosts list \<Rightarrow> string list" where
  "all_hosts rules providers = rs_known_hosts rules @ concat (map ph_hosts providers)"

definition pipeline_flags ::
    "pack_rules \<Rightarrow> string list \<Rightarrow> provider_hosts list \<Rightarrow> pipeline \<Rightarrow> string list" where
  "pipeline_flags rules secret_names providers pipeline =
     check_pipeline rules (all_hosts rules providers) secret_names pipeline
     @ (if sends_to_foreign_host pipeline (rs_known_hosts rules) providers
        then [FOREIGN_HOST_FLAG] else [])"

definition analyze_with_providers ::
    "pack_rules \<Rightarrow> string list \<Rightarrow> string \<Rightarrow> string list \<Rightarrow> provider_hosts list \<Rightarrow> analysis" where
  "analyze_with_providers rules argv purpose secret_names all_providers =
     (let providers = filter (\<lambda>p. ph_hosts p \<noteq> []) all_providers;
          hosts = all_hosts rules providers;
          pipelines = parse_command rules argv;
          of_pipeline = pipeline_flags rules secret_names providers;
          found = sort_dedup
            ((if rs_load_error rules \<noteq> None then [LOAD_ERROR_FLAG] else [])
             @ trace_flags argv pipelines secret_names
             @ concat (map of_pipeline pipelines)
             @ (if has_injection purpose then [INJECTION_FLAG] else []));
          all_safe = (pipelines \<noteq> [] \<and> list_all (\<lambda>p. of_pipeline p = []
            \<and> list_all (is_known_safe rules hosts secret_names) p) pipelines);
          all_known = (pipelines \<noteq> []
            \<and> list_all (list_all (is_known_command rules hosts secret_names)) pipelines);
          any_write = list_ex (list_ex (is_known_write rules hosts secret_names)) pipelines;
          personal = list_ex (personal_read rules False) pipelines;
          safe = (all_safe \<and> found = [] \<and> \<not> personal)
      in \<lparr>flags = found, known_safe = safe,
          known_command = (safe \<or> (all_known \<and> found = [] \<and> \<not> personal)),
          known_write = (any_write \<and> \<not> safe)\<rparr>)"

definition analyze_with ::
    "pack_rules \<Rightarrow> string list \<Rightarrow> string \<Rightarrow> string list \<Rightarrow> analysis" where
  "analyze_with rules argv purpose secret_names = analyze_with_providers rules argv purpose secret_names []"

text \<open>\<open>injection_flag\<close>.\<close>

definition injection_flag :: "string \<Rightarrow> string option" where
  "injection_flag text = (if has_injection text then Some INJECTION_FLAG else None)"

end
