(* ===== verification/PackSafety.thy ===== *)
theory PackSafety
  imports ShellRules
begin

text \<open>
  Properties of the analysis with the rule packs: the packs of a local directory only make the
  analysis stricter, a directory that does not load sends each run to the owner, the rules of a
  local pack stay with the programs of the pack, and what a known safe command cannot do.
\<close>

section \<open>A stricter analysis\<close>

definition stricter :: "analysis \<Rightarrow> analysis \<Rightarrow> bool" where
  "stricter b a \<longleftrightarrow>
     set (flags a) \<subseteq> set (flags b) \<and> (known_safe b \<longrightarrow> known_safe a)
     \<and> (known_command b \<longrightarrow> known_command a) \<and> (known_write a \<longrightarrow> known_write b)"

lemma stricter_refl [simp]: "stricter a a"
  by (simp add: stricter_def)

lemma stricter_trans: "stricter c b \<Longrightarrow> stricter b a \<Longrightarrow> stricter c a"
  by (auto simp: stricter_def)

text \<open>A rule set with more flag rules or a load error, and the same in all else.\<close>

definition extends :: "pack_rules \<Rightarrow> pack_rules \<Rightarrow> bool" where
  "extends r' r \<longleftrightarrow>
     rs_roles r' = rs_roles r \<and> rs_exemptions r' = rs_exemptions r \<and> rs_safe r' = rs_safe r
     \<and> rs_project_commands r' = rs_project_commands r \<and> rs_writes r' = rs_writes r
     \<and> rs_access_reads r' = rs_access_reads r \<and> rs_known_hosts r' = rs_known_hosts r
     \<and> rs_programs r' = rs_programs r \<and> set (rs_rules r) \<subseteq> set (rs_rules r')
     \<and> (rs_load_error r \<noteq> None \<longrightarrow> rs_load_error r' \<noteq> None)"

lemma extends_refl [simp]: "extends r r"
  by (simp add: extends_def)

lemma extends_trans: "extends r'' r' \<Longrightarrow> extends r' r \<Longrightarrow> extends r'' r"
  unfolding extends_def by simp blast

lemma extends_rules: "extends r' r \<Longrightarrow> set (rs_rules r) \<subseteq> set (rs_rules r')"
  by (simp add: extends_def)

named_theorems same_rules \<open>questions whose answer depends on parts that an extension keeps\<close>

lemma has_role_same [same_rules]: "extends r' r \<Longrightarrow> has_role r' = has_role r"
  by (simp add: has_role_def extends_def fun_eq_iff)

lemma inner_pipelines_same: "extends r' r \<Longrightarrow> inner_pipelines r' = inner_pipelines r"
  by (simp add: inner_pipelines_def runner_command_def has_role_same fun_eq_iff)

lemma expand_same: "extends r' r \<Longrightarrow> expand r' budget index ps = expand r budget index ps"
  by (induction budget arbitrary: index ps) (simp_all add: inner_pipelines_same)

lemma parse_command_same [same_rules]: "extends r' r \<Longrightarrow> parse_command r' = parse_command r"
  by (simp add: parse_command_def expand_same fun_eq_iff)

lemma rules_same [same_rules]:
  assumes "extends r' r"
  shows "exempt r' = exempt r" "rules_known_safe r' = rules_known_safe r"
    "project_command r' = project_command r" "rules_known_write r' = rules_known_write r"
    "access_read r' = access_read r" "knows_program r' = knows_program r"
    "rs_known_hosts r' = rs_known_hosts r" "all_hosts r' = all_hosts r"
  using assms
  by (simp_all add: extends_def exempt_def rules_known_safe_def project_command_def
    rules_known_write_def access_read_def knows_program_def all_hosts_def fun_eq_iff)

lemma segment_tests_same [same_rules]:
  assumes "extends r' r"
  shows "is_usage_request r' = is_usage_request r" "is_dry_run r' = is_dry_run r"
    "heredoc_flags r' = heredoc_flags r" "secret_flags r' = secret_flags r"
    "check_destructive r' = check_destructive r" "check_release r' = check_release r"
    "http_write r' = http_write r" "is_known_safe r' = is_known_safe r"
    "is_known_write r' = is_known_write r"
  using assms
  by (simp_all add: is_usage_request_def is_dry_run_def heredoc_flags_def secret_flags_def
    check_destructive_def check_release_def http_write_def is_known_safe_def is_known_write_def
    same_rules fun_eq_iff cong: if_cong split: dry_run.split)

lemma pipeline_tests_same [same_rules]:
  assumes "extends r' r"
  shows "is_known_command r' = is_known_command r" "secret_reaches r' names p = secret_reaches r names p"
    "personal_read r' source p = personal_read r source p"
proof -
  show "is_known_command r' = is_known_command r"
    using assms by (simp add: is_known_command_def same_rules fun_eq_iff cong: if_cong)
  show "secret_reaches r' names p = secret_reaches r names p"
    using assms by (induction p) (simp_all add: same_rules)
  have "data_query_texts r' = data_query_texts r"
    using assms by (simp add: data_query_texts_def same_rules fun_eq_iff)
  then show "personal_read r' source p = personal_read r source p"
    by (induction p arbitrary: source) (simp_all add: Let_def)
qed

lemma add_flags_mono: "extends r' r \<Longrightarrow> set (add_flags r cmd) \<subseteq> set (add_flags r' cmd)"
  using segment_tests_same(2) [of r' r] extends_rules [of r' r]
  by (auto simp: add_flags_def cong: option.case_cong)

lemma package_runner_flags_mono:
  "extends r' r \<Longrightarrow> set (add_package_runner_flags r cmd) \<subseteq> set (add_package_runner_flags r' cmd)"
  using extends_rules [of r' r] by (auto simp: add_package_runner_flags_def)

lemma check_segment_mono:
  "extends r' r \<Longrightarrow> set (check_segment r hosts names s) \<subseteq> set (check_segment r' hosts names s)"
  using add_flags_mono [of r' r "command hosts s (effective_argv s) names"]
    package_runner_flags_mono [of r' r "command hosts s (effective_argv s) names"]
  by (auto simp: check_segment_def Let_def same_rules)

lemma pipeline_flags_mono:
  assumes "extends r' r"
  shows "set (pipeline_flags r names providers p) \<subseteq> set (pipeline_flags r' names providers p)"
  using assms check_segment_mono [OF assms]
  by (fastforce simp: pipeline_flags_def check_pipeline_def Let_def same_rules)

lemma analysis_stricter:
  assumes "extends r' r"
  shows "stricter (analyze_with_providers r' argv purpose names providers)
    (analyze_with_providers r argv purpose names providers)"
proof -
  let ?ps = "filter (\<lambda>p. ph_hosts p \<noteq> []) providers"
  have sub: "set (pipeline_flags r names ?ps p) \<subseteq> set (pipeline_flags r' names ?ps p)" for p
    by (rule pipeline_flags_mono [OF assms])
  have none: "pipeline_flags r names ?ps p = []" if "pipeline_flags r' names ?ps p = []" for p
    using sub [of p] that by simp
  have err: "rs_load_error r' \<noteq> None" if "rs_load_error r \<noteq> None"
    using assms that by (simp add: extends_def)
  define fl where "fl r = sort_dedup
      ((if rs_load_error r \<noteq> None then [LOAD_ERROR_FLAG] else [])
       @ trace_flags argv (parse_command r argv) names
       @ concat (map (pipeline_flags r names ?ps) (parse_command r argv))
       @ (if has_injection purpose then [INJECTION_FLAG] else []))" for r
  have fl: "set (fl r) \<subseteq> set (fl r')"
    using sub err assms unfolding fl_def set_sort_dedup by (auto simp: same_rules)
  then have fl0: "fl r = []" if "fl r' = []"
    using that by simp
  define safe where "safe r \<longleftrightarrow> parse_command r argv \<noteq> []
      \<and> list_all (\<lambda>p. pipeline_flags r names ?ps p = []
          \<and> list_all (is_known_safe r (all_hosts r ?ps) names) p) (parse_command r argv)
      \<and> fl r = [] \<and> \<not> list_ex (personal_read r False) (parse_command r argv)" for r
  have safe: "safe r' \<longrightarrow> safe r"
    using fl0 none assms unfolding safe_def by (auto simp: same_rules list_all_iff list_ex_iff)
  have eq: "analyze_with_providers r argv purpose names providers =
    \<lparr>flags = fl r, known_safe = safe r,
     known_command = (safe r \<or> ((parse_command r argv \<noteq> []
        \<and> list_all (list_all (is_known_command r (all_hosts r ?ps) names)) (parse_command r argv))
        \<and> fl r = [] \<and> \<not> list_ex (personal_read r False) (parse_command r argv))),
     known_write = (list_ex (list_ex (is_known_write r (all_hosts r ?ps) names)) (parse_command r argv)
        \<and> \<not> safe r)\<rparr>" for r
    by (auto simp: analyze_with_providers_def Let_def fl_def safe_def)
  show ?thesis
    unfolding eq stricter_def using fl fl0 safe assms
    by (simp add: same_rules list_ex_iff) blast
qed

section \<open>Steps that only add\<close>

text \<open>An operation on rule sets that only extends them: each sequence of such steps gives a
  stricter analysis.\<close>

locale rule_growth =
  fixes step :: "pack_rules \<Rightarrow> pack_rules \<Rightarrow> bool"
  assumes grows: "step r r' \<Longrightarrow> extends r' r"
begin

lemma steps_extend: "step\<^sup>*\<^sup>* r r' \<Longrightarrow> extends r' r"
  by (induction rule: rtranclp_induct) (auto intro: extends_trans grows)

lemma steps_stricter:
  "step\<^sup>*\<^sup>* r r' \<Longrightarrow> stricter (analyze_with_providers r' argv purpose names providers)
     (analyze_with_providers r argv purpose names providers)"
  by (intro analysis_stricter steps_extend)

end

lemma and_then_Inr: "and_then a f = Inr y \<longleftrightarrow> (\<exists>x. a = Inr x \<and> f x = Inr y)"
  by (auto simp: and_then_def split: sum.splits)

lemma both_ok: "both a b = Inr () \<longleftrightarrow> a = Inr () \<and> b = Inr ()"
  by (simp add: both_def and_then_Inr)

lemma within_ok: "within wrap a = Inr () \<longleftrightarrow> a = Inr ()"
  by (auto simp: within_def split: sum.splits)

lemma check_each_ok: "check_each f xs = Inr () \<longleftrightarrow> (\<forall>x\<in>set xs. f x = Inr ())"
  by (induction xs) (auto simp: and_then_Inr)

lemma all_checked_ok: "all_checked cs = Inr () \<longleftrightarrow> (\<forall>c\<in>set cs. c = Inr ())"
  by (induction cs) (auto simp: both_ok)

lemma add_local_Inr:
  "add_local lower source f rules = Inr rules' \<longleftrightarrow>
     check_header f = Inr () \<and> (\<forall>field\<in>set BUILTIN_ONLY_FIELDS. field \<notin> set (pf_keys f))
     \<and> (\<exists>pack any. pf_pack f = Some pack \<and> check_common lower rules pack = Inr any \<and> lp_rules pack \<noteq> []
        \<and> rules' = push_rules (lp_tool pack) (lp_rules pack) (lp_programs pack) any rules
             \<lparr>rs_packs := rs_packs rules @ [pack_entry pack (origin.Local source)]\<rparr>)"
  unfolding add_local_def and_then_Inr
  by (auto simp: and_then_Inr Let_def push_rules_def find_None_iff find_Some_iff
    split: option.splits if_splits)

lemma add_local_extends: "add_local lower source f rules = Inr rules' \<Longrightarrow> extends rules' rules"
  by (auto simp: add_local_Inr extends_def push_rules_def)

interpretation local_pack: rule_growth "\<lambda>r r'. \<exists>source f. add_local lower source f r = Inr r'" for lower
  by unfold_locales (auto intro: add_local_extends)

interpretation load_failure: rule_growth "\<lambda>r r'. \<exists>error. r' = fail_closed error r"
  by unfold_locales (auto simp: extends_def fail_closed_def)

lemma with_local_files_steps:
  "with_local_files lower files r = Inr r' \<Longrightarrow>
     (\<lambda>r r'. \<exists>source f. add_local lower source f r = Inr r')\<^sup>*\<^sup>* r r'"
proof (induction files arbitrary: r)
  case (Cons f files)
  then obtain content mid where "add_local lower (lf_name f) content r = Inr mid"
    and "with_local_files lower files mid = Inr r'"
    by (auto simp: and_then_Inr split: option.splits if_splits)
  then show ?case
    using Cons.IH by (blast intro: converse_rtranclp_into_rtranclp)
qed simp

text \<open>The rules of a rule set that a pack brings.\<close>

lemma check_common_Inr:
  assumes "check_common lower rules pack = Inr any"
  shows "check_pack_programs lower (lp_programs pack) = Inr any"
    "\<forall>rule\<in>set (lp_rules pack).
       check_rule lower \<lparr>sc_programs = lp_programs pack, sc_any_program = any\<rparr> rule = Inr ()"
  using assms
  by (auto simp: check_common_def and_then_Inr check_each_ok split: option.splits if_splits origin.splits)

lemma check_pack_programs_named:
  "check_pack_programs lower programs = Inr any \<Longrightarrow> programs \<noteq> [''*''] \<Longrightarrow> \<not> any"
  by (auto simp: check_pack_programs_def and_then_Inr split: if_splits)

lemma check_programs_subset:
  "check_programs lower field scope list = Inr () \<Longrightarrow> \<not> sc_any_program scope \<Longrightarrow>
     set list \<subseteq> set (sc_programs scope)"
  by (auto simp: check_programs_def both_ok find_None_iff split: option.splits if_splits)

lemma validate_programs:
  assumes "validate lower scope m = Inr ()" "\<not> sc_any_program scope"
  shows "holds (mt_program (conditions_of m)) (\<lambda>list. set list \<subseteq> set (sc_programs scope))"
    "holds (mt_raw_program (conditions_of m)) (\<lambda>list. set list \<subseteq> set (sc_programs scope))"
proof -
  obtain c any negated where m: "m = Matcher c any negated" by (cases m)
  then have "check_option (check_programs lower ''program'' scope) (mt_program c) = Inr ()"
    "check_option (check_programs lower ''raw_program'' scope) (mt_raw_program c) = Inr ()"
    using assms(1) by (simp_all add: both_ok validate_conditions_def Let_def all_checked_ok)
  then show "holds (mt_program (conditions_of m)) (\<lambda>list. set list \<subseteq> set (sc_programs scope))"
    "holds (mt_raw_program (conditions_of m)) (\<lambda>list. set list \<subseteq> set (sc_programs scope))"
    using assms(2) check_programs_subset m
    by (simp_all add: check_option_def holds_def split: option.splits)
qed

lemma matches_program:
  assumes "matches m cmd"
  shows "holds (mt_program (conditions_of m)) (\<lambda>list. cmd_program cmd \<in> set list)"
    "holds (mt_raw_program (conditions_of m)) (\<lambda>list. cmd_raw_program cmd \<in> set list)"
  using assms by (cases m; simp add: program_matches_def)+

lemma scoped_match:
  assumes "matches (scoped m programs False) cmd"
    and "holds (mt_program (conditions_of m)) (\<lambda>list. set list \<subseteq> set programs)"
    and "holds (mt_raw_program (conditions_of m)) (\<lambda>list. set list \<subseteq> set programs)"
  shows "cmd_program cmd \<in> set programs \<or> cmd_raw_program cmd \<in> set programs"
proof (cases "mt_program (conditions_of m) = None \<and> mt_raw_program (conditions_of m) = None")
  case True
  then show ?thesis
    using matches_program(1) [OF assms(1)] by (simp add: scoped_def holds_def)
next
  case False
  then have "matches m cmd" using assms(1) by (auto simp: scoped_def)
  then show ?thesis
    using matches_program [of m cmd] assms(2,3) False
    by (auto simp: holds_def split: option.splits)
qed

section \<open>What a known safe command leaves alone\<close>

lemma secret_reaches_later:
  "\<not> secret_reaches rules names (before @ s # after) \<Longrightarrow> has_secret names s \<Longrightarrow>
     list_all (\<lambda>s. \<not> has_role rules (first_base (effective_argv s)) Network
       \<and> \<not> has_role rules (first_base (effective_argv s)) Encoder) after"
  by (induction before) (auto simp: list_ex_iff list_all_iff Let_def)

lemma known_without_flags:
  "known_safe (analyze_with_providers rules argv purpose names providers)
     \<or> known_command (analyze_with_providers rules argv purpose names providers) \<Longrightarrow>
   flags (analyze_with_providers rules argv purpose names providers) = []"
  by (simp only: analyze_with_providers_def Let_def analysis.simps) blast

lemma safe_pipeline:
  assumes "known_safe (analyze_with_providers rules argv purpose names providers)"
    and "p \<in> set (parse_command rules argv)"
  obtains hosts where "check_pipeline rules hosts names p = []"
    "list_all (is_known_safe rules hosts names) p"
  using assms
  by (auto simp: analyze_with_providers_def Let_def list_all_iff pipeline_flags_def)

lemma quiet_segment:
  assumes "check_segment rules hosts names s = []" "effective_argv s \<noteq> []"
    and "\<not> is_usage_request rules (first_base (effective_argv s)) (lower_args (drop 1 (effective_argv s)))"
    and "segment_refs_secret s names"
  shows "\<not> sg_redirect_out s" "\<not> has_role rules (first_base (effective_argv s)) Output"
    "\<not> has_role rules (first_base (effective_argv s)) Encoder"
proof -
  have "first_base (effective_argv s) = base_name (hd (effective_argv s))"
    using assms(2) by (cases "effective_argv s") (simp_all add: first_base_def)
  then show "\<not> sg_redirect_out s" "\<not> has_role rules (first_base (effective_argv s)) Output"
    "\<not> has_role rules (first_base (effective_argv s)) Encoder"
    using assms by (auto simp: check_segment_def command_def Let_def secret_flags_def split: if_splits)
qed

text \<open>The rule sets and the local pack of the examples.\<close>

definition program_matcher :: "string list \<Rightarrow> matcher" where
  "program_matcher programs = Matcher (no_conditions\<lparr>mt_program := Some programs\<rparr>) None None"

definition demo_rules :: pack_rules where
  "demo_rules = default_rules
     \<lparr>rs_roles := [Network \<mapsto> [''curl''], HttpClient \<mapsto> [''curl''], role.Usage \<mapsto> [''python3'']],
      rs_rules := [\<lparr>co_tool = ''python'', co_item = \<lparr>fr_id = ''inline-code'', fr_flag = ''ask_owner'',
        fr_dry_run = None, fr_when = program_matcher [''python3'']\<rparr>\<rparr>],
      rs_safe := [\<lparr>co_tool = ''shell'', co_item = \<lparr>sr_id = ''jobs'', sr_when = program_matcher [''jobs'', ''wc'']\<rparr>\<rparr>],
      rs_programs := [''jobs'', ''wc'', ''python3'', ''env'', ''curl'']\<rparr>"

definition demo_rule :: flag_rule where
  "demo_rule = \<lparr>fr_id = ''ship'', fr_flag = ''production'', fr_dry_run = None,
     fr_when = Matcher (no_conditions\<lparr>mt_subcommand := Some [''ship'']\<rparr>) None None\<rparr>"

definition demo_pack :: local_pack where
  "demo_pack = \<lparr>lp_version = 1, lp_tool = ''deployer'', lp_description = ''Ships the shop'',
     lp_programs = [''deployer''], lp_rules = [demo_rule]\<rparr>"

definition demo_file :: "local_pack pack_file" where
  "demo_file = \<lparr>pf_schema_version = Some 1, pf_keys = [''tool'', ''rules''], pf_pack = Some demo_pack\<rparr>"

definition demo_loaded :: pack_rules where
  "demo_loaded = push_rules ''deployer'' [demo_rule] [''deployer''] False default_rules
     \<lparr>rs_packs := [pack_entry demo_pack (origin.Local ''deployer.json'')]\<rparr>"

lemma demo_file_loads: "add_local to_lowercase ''deployer.json'' demo_file default_rules = Inr demo_loaded"
proof -
  have "check_header demo_file = Inr ()" "check_common to_lowercase default_rules demo_pack = Inr False"
    "\<forall>field\<in>set BUILTIN_ONLY_FIELDS. field \<notin> set (pf_keys demo_file)"
    by code_simp+
  then show ?thesis
    unfolding add_local_Inr
    by (intro conjI exI [of _ demo_pack] exI [of _ False])
      (simp_all add: demo_file_def demo_loaded_def demo_pack_def default_rules_def)
qed

section \<open>Properties\<close>

text \<open>C37: Whatever the local rules directory holds, packs that load, packs with mistakes or files
  that cannot be read, the analysis of every run is at least as strict as with the built-in
  packs alone: every flag stays, and nothing becomes known safe, a known command or no write.\<close>

theorem local_rules_only_restrict:
  "stricter
     (analyze_with_providers (activate_local_dir lower builtin files) argv purpose names providers)
     (analyze_with_providers (builtin_or_failed lower builtin) argv purpose names providers)"
proof (cases "with_local_dir lower files (builtin_or_failed lower builtin)")
  case (Inl error)
  then show ?thesis
    by (auto simp: activate_local_dir_def intro!: load_failure.steps_stricter r_into_rtranclp)
next
  case (Inr rules)
  then obtain fs where "with_local_files lower fs (builtin_or_failed lower builtin) = Inr rules"
    by (auto simp: with_local_dir_def split: option.splits)
  then show ?thesis
    using local_pack.steps_stricter [OF with_local_files_steps] Inr
    by (simp add: activate_local_dir_def)
qed

text \<open>C38: When a local pack or the directory does not load, the run is not known safe and the
  route sends it to the owner before the model gate, whatever is remembered, also after the
  hosts of the items settled the database flag.\<close>

theorem broken_rules_ask_the_owner:
  assumes "with_local_dir lower files (builtin_or_failed lower builtin) = Inl error"
    and "a = analyze_with_providers (activate_local_dir lower builtin files) argv purpose names providers"
  shows "\<not> known_safe a \<and> \<not> known_command a
    \<and> (\<exists>note reason. route c (run\<lparr>rf_analysis := settle_db_host fs hosts a\<rparr>) known check ready
        = Some (Ask note reason, ready))"
proof -
  have flag: "LOAD_ERROR_FLAG \<in> set (flags a)"
    using assms
    by (simp add: activate_local_dir_def fail_closed_def analyze_with_providers_def Let_def)
  then have "\<not> known_safe a" "\<not> known_command a"
    using known_without_flags assms(2) by fastforce+
  moreover have "LOAD_ERROR_FLAG \<in> set (flags (settle_db_host fs hosts a))"
    using flag by (auto simp: settle_db_host_def LOAD_ERROR_FLAG_def DB_HOST_FLAG_def)
  then have "flags (settle_db_host fs hosts a) \<noteq> []" by auto
  then have "hard_rules c (run\<lparr>rf_analysis := settle_db_host fs hosts a\<rparr>) known (place_of c) \<noteq> []"
    by (simp add: hard_rules_Nil)
  ultimately show ?thesis
    by (auto simp: route_def neq_Nil_conv)
qed

lemma broken_rules_ask_the_owner_witness:
  "\<exists>note reason. route demo_checked (demo_run\<lparr>rf_analysis := settle_db_host [demo_facts] []
       (analyze_with_providers (activate_local_dir to_lowercase [] None) [''ls''] [] [] [])\<rparr>)
     demo_known (\<lambda>_. Inr ()) new_readiness = Some (Ask note reason, new_readiness)"
  using broken_rules_ask_the_owner [of to_lowercase None "[]" FileUnreadable _ "[''ls'']" "[]" "[]" "[]"
      demo_checked "[demo_facts]" "[]" demo_run demo_known "\<lambda>_. Inr ()" new_readiness, OF _ refl]
  by (simp add: with_local_dir_def)

text \<open>C39: A rule that an accepted local pack adds raises a flag of the fixed list, and only for the
  programs that the pack names.\<close>

theorem local_rules_stay_with_their_programs:
  assumes "add_local lower source f rules = Inr rules'"
    and "pf_pack f = Some pack" "lp_programs pack \<noteq> [''*'']"
    and "rule \<in> set (rs_rules rules') - set (rs_rules rules)"
  shows "fr_flag (co_item rule) \<in> set RULE_FLAGS
    \<and> (matches (fr_when (co_item rule)) cmd \<longrightarrow>
        cmd_program cmd \<in> set (lp_programs pack) \<or> cmd_raw_program cmd \<in> set (lp_programs pack))"
proof -
  let ?scope = "\<lparr>sc_programs = lp_programs pack, sc_any_program = False\<rparr>"
  obtain any where common: "check_common lower rules pack = Inr any"
    and rules': "rules' = push_rules (lp_tool pack) (lp_rules pack) (lp_programs pack) any rules
             \<lparr>rs_packs := rs_packs rules @ [pack_entry pack (origin.Local source)]\<rparr>"
    using assms(1,2) by (auto simp: add_local_Inr)
  have any: "any = False"
    using check_pack_programs_named [OF check_common_Inr(1) [OF common] assms(3)] by simp
  obtain written where written: "written \<in> set (lp_rules pack)"
    and rule: "co_item rule = written\<lparr>fr_when := scoped (fr_when written) (lp_programs pack) False\<rparr>"
    using assms(4) unfolding rules' push_rules_def any by auto
  have "check_rule lower ?scope written = Inr ()"
    using check_common_Inr(2) [OF common] written any by auto
  then have flag: "fr_flag written \<in> set RULE_FLAGS"
    and valid: "validate lower ?scope (fr_when written) = Inr ()"
    by (auto simp: check_rule_def within_ok split: if_splits)
  show ?thesis
    using flag scoped_match [of "fr_when written" "lp_programs pack" cmd] validate_programs [OF valid]
    by (simp add: rule)
qed

lemma local_rules_stay_with_their_programs_witness:
  "fr_flag (co_item (hd (rs_rules demo_loaded))) \<in> set RULE_FLAGS
   \<and> ''deployer'' \<in> set (lp_programs demo_pack)"
proof -
  let ?cmd = "command [] (argv_segment [''deployer'', ''ship'']) [''deployer'', ''ship''] []"
  have "pf_pack demo_file = Some demo_pack" "lp_programs demo_pack \<noteq> [''*'']"
    "hd (rs_rules demo_loaded) \<in> set (rs_rules demo_loaded) - set (rs_rules default_rules)"
    by (simp_all add: demo_file_def demo_pack_def demo_loaded_def push_rules_def default_rules_def)
  moreover have "matches (fr_when (co_item (hd (rs_rules demo_loaded)))) ?cmd"
    "cmd_program ?cmd = ''deployer''" "cmd_raw_program ?cmd = ''deployer''"
    by code_simp+
  ultimately show ?thesis
    using local_rules_stay_with_their_programs [OF demo_file_loads, of demo_pack _ ?cmd] by auto
qed

text \<open>In a command that the analysis calls known safe, a secret or a secret file that a parsed segment
  has does not reach a later segment of the pipe that sends or encodes its input, and a segment with
  a secret in its words is no program that prints or encodes its words, unless it only shows its
  usage text. What the parser does not see as a redirect is not covered
  (\<open>output_redirects_missed\<close>).\<close>

lemma known_safe_secret_flow:
  assumes "known_safe (analyze_with_providers rules argv purpose names providers)"
    and "before @ segment # after \<in> set (parse_command rules argv)"
  shows "(has_secret names segment \<longrightarrow>
      list_all (\<lambda>s. \<not> has_role rules (first_base (effective_argv s)) Network
        \<and> \<not> has_role rules (first_base (effective_argv s)) Encoder) after)
    \<and> (segment_refs_secret segment names \<and> effective_argv segment \<noteq> []
       \<and> \<not> is_usage_request rules (first_base (effective_argv segment))
           (lower_args (drop 1 (effective_argv segment)))
       \<longrightarrow> \<not> has_role rules (first_base (effective_argv segment)) Output
         \<and> \<not> has_role rules (first_base (effective_argv segment)) Encoder)"
proof -
  obtain hosts where quiet: "check_pipeline rules hosts names (before @ segment # after) = []"
    by (rule safe_pipeline [OF assms])
  have "\<not> secret_reaches rules names (before @ segment # after)"
    and segment: "check_segment rules hosts names segment = []"
    using quiet by (auto simp: check_pipeline_def Let_def split: if_splits)
  then show ?thesis
    using secret_reaches_later quiet_segment [OF segment] by blast
qed

section \<open>What the tests miss\<close>

text \<open>A usage word among the arguments of an interpreter makes any code known safe, also code that a
  rule of the packs sends to the owner.\<close>

lemma usage_word_hides_code:
  "known_safe (analyze_with demo_rules [''python3'', ''-c'', ''import os; os.remove(1)'', ''--help''] [] [])
   \<and> flags (analyze_with demo_rules [''python3'', ''-c'', ''import os; os.remove(1)''] [] []) = [''ask_owner'']"
  by code_simp

text \<open>Redirects that the parser does not see as output: \<open>>&\<close> with a file name, which the shell
  writes to, counts as a copy of a descriptor; \<open>2>\<close> to any file does not count; and a name that only
  begins with /dev/null counts as that device. A known safe program may write any file this way.\<close>

lemma output_redirects_missed:
  "\<not> known_safe (analyze_with demo_rules [''sh'', ''-c'', ''jobs > src/main.rs''] [] [])
   \<and> known_safe (analyze_with demo_rules [''sh'', ''-c'', ''jobs >& src/main.rs''] [] [])
   \<and> known_safe (analyze_with demo_rules [''sh'', ''-c'', ''jobs 2> src/main.rs''] [] [])
   \<and> known_safe (analyze_with demo_rules [''sh'', ''-c'', ''jobs > /dev/nullx''] [] [])"
  by code_simp

text \<open>\<open>env\<close> with a setting and no command prints the environment, and no test sees it.\<close>

lemma env_setting_is_not_a_dump:
  "dumps_environment (argv_segment [''env''])
   \<and> \<not> dumps_environment (argv_segment [''env'', ''A=1''])
   \<and> flags (analyze_with demo_rules [''sh'', ''-c'', ''env | wc''] [] [''KEY''])
       = [''secret_output'']
   \<and> flags (analyze_with demo_rules [''sh'', ''-c'', ''env A=1 | wc''] [] [''KEY'']) = []"
  by code_simp

text \<open>An address whose last part has one digit is not seen as a destination without a scheme.\<close>

lemma short_address_is_no_host:
  "command_hosts demo_rules [''curl'', ''198.51.100.70/x''] = [''198.51.100.70'']
   \<and> command_hosts demo_rules [''curl'', ''198.51.100.7/x''] = []"
  by code_simp

end
