(* ===== verification/ProxyHttp.thy ===== *)
theory ProxyHttp
  imports Base64
begin

text \<open>
  The HTTP/1.1 heads of the run proxy (src/src/broker/proxy/http1.rs): reading heads, lines and
  pieces from a stream, the parsers of a request and of a response head, and the borders of a body.

  A stream is the list of the results of its reads: \<open>Some bytes\<close> is what one read gives (no bytes
  is the end), \<open>None\<close> is a failed read; after the list the stream is at its end.
\<close>

section \<open>Streams\<close>

definition MAX_HEAD_BYTES :: nat where
  "MAX_HEAD_BYTES = 65536"

definition READ_CHUNK :: nat where
  "READ_CHUNK = 16384"

definition MAX_LINE_BYTES :: nat where
  "MAX_LINE_BYTES = 4096"

definition CRLF :: string where
  "CRLF = [CHR 0x0D, CHR 0x0A]"

datatype io_error = StreamFailed | InvalidData | UnexpectedEof | TimedOut

record conn =
  buffered :: string
  reads :: "string option list"

definition with_buffered :: "string option list \<Rightarrow> string \<Rightarrow> conn" where
  "with_buffered inner bytes = \<lparr>buffered = bytes, reads = inner\<rparr>"

definition new_conn :: "string option list \<Rightarrow> conn" where
  "new_conn inner = with_buffered inner []"

definition take_buffered :: "conn \<Rightarrow> string \<times> conn" where
  "take_buffered c = (buffered c, c\<lparr>buffered := []\<rparr>)"

definition consume :: "nat \<Rightarrow> conn \<Rightarrow> conn" where
  "consume count c = c\<lparr>buffered := drop count (buffered c)\<rparr>"

text \<open>One read of at most \<open>READ_CHUNK\<close> bytes: what the read does not take stays for the next.\<close>

definition fill :: "conn \<Rightarrow> io_error + (nat \<times> conn)" where
  "fill c = (case reads c of
       [] \<Rightarrow> Inr (0, c)
     | None # rest \<Rightarrow> Inl StreamFailed
     | Some bytes # rest \<Rightarrow>
         (let piece = take READ_CHUNK bytes; left = drop READ_CHUNK bytes
          in Inr (length piece,
               c\<lparr>buffered := buffered c @ piece,
                 reads := (if left = [] then rest else Some left # rest)\<rparr>)))"

definition find_bytes :: "string \<Rightarrow> string \<Rightarrow> nat option" where
  "find_bytes haystack needle =
     (if needle = [] \<or> length haystack < length needle then None else find_sub haystack needle)"

text \<open>All the bytes that a stream still gives.\<close>

definition bytes_left :: "conn \<Rightarrow> string" where
  "bytes_left c = buffered c @ concat (map (case_option [] id) (reads c))"

lemma fill_keeps_bytes: "fill c = Inr (n, c') \<Longrightarrow> bytes_left c' = bytes_left c"
  by (auto simp: fill_def bytes_left_def Let_def split: list.splits option.splits if_splits)

lemma fill_adds:
  "fill c = Inr (n, c') \<Longrightarrow> length (buffered c') = length (buffered c) + n"
  by (auto simp: fill_def Let_def split: list.splits option.splits)

lemma fill_nothing: "fill c = Inr (0, c') \<Longrightarrow> buffered c' = buffered c"
  by (auto simp: fill_def Let_def split: list.splits option.splits if_splits)

definition unread :: "conn \<Rightarrow> nat" where
  "unread c = length (concat (map (case_option [] id) (reads c)))"

lemma bytes_left_length: "length (bytes_left c) = length (buffered c) + unread c"
  by (simp add: bytes_left_def unread_def)

lemma fill_unread: "fill c = Inr (n, c') \<Longrightarrow> unread c = n + unread c'"
  using fill_keeps_bytes [of c n c'] fill_adds [of c n c']
  by (metis (no_types) add.assoc add_left_cancel bytes_left_length)

subsection \<open>Heads, lines and pieces\<close>

text \<open>\<open>before\<close> runs before each read of the stream, for a deadline of the whole head.\<close>

function read_head_with ::
  "(string option list \<Rightarrow> io_error + unit) \<Rightarrow> conn \<Rightarrow> io_error + (string option \<times> conn)" where
  "read_head_with before c = (case find_bytes (buffered c) (CRLF @ CRLF) of
       Some e \<Rightarrow> Inr (Some (take (e + 4) (buffered c)), consume (e + 4) c)
     | None \<Rightarrow>
         if MAX_HEAD_BYTES < length (buffered c) then Inl InvalidData
         else (case before (reads c) of
             Inl e \<Rightarrow> Inl e
           | Inr _ \<Rightarrow> (case fill c of
               Inl e \<Rightarrow> Inl e
             | Inr (n, c') \<Rightarrow>
                 if n = 0 then (if buffered c' = [] then Inr (None, c') else Inl UnexpectedEof)
                 else read_head_with before c')))"
  by pat_completeness auto
termination
  by (relation "measure (\<lambda>(_, c). unread c)") (auto dest!: fill_unread)

declare read_head_with.simps [simp del]

definition read_head :: "conn \<Rightarrow> io_error + (string option \<times> conn)" where
  "read_head c = read_head_with (\<lambda>_. Inr ()) c"

function read_line :: "conn \<Rightarrow> io_error + (string \<times> conn)" where
  "read_line c = (case find_bytes (buffered c) CRLF of
       Some e \<Rightarrow> Inr (take (e + 2) (buffered c), consume (e + 2) c)
     | None \<Rightarrow>
         if MAX_LINE_BYTES < length (buffered c) then Inl InvalidData
         else (case fill c of
             Inl e \<Rightarrow> Inl e
           | Inr (n, c') \<Rightarrow> if n = 0 then Inl UnexpectedEof else read_line c'))"
  by pat_completeness auto
termination
  by (relation "measure unread") (auto dest!: fill_unread)

declare read_line.simps [simp del]

definition take_some :: "nat \<Rightarrow> conn \<Rightarrow> string \<times> conn" where
  "take_some most c =
     (let count = min (length (buffered c)) most
      in (take count (buffered c), consume count c))"

definition read_some :: "nat \<Rightarrow> conn \<Rightarrow> io_error + (string \<times> conn)" where
  "read_some most c =
     (if buffered c = [] then (case fill c of
          Inl e \<Rightarrow> Inl e
        | Inr (n, c') \<Rightarrow> if n = 0 then Inr ([], c') else Inr (take_some most c'))
      else Inr (take_some most c))"

definition into_parts :: "conn \<Rightarrow> string option list \<times> string" where
  "into_parts c = (reads c, buffered c)"

section \<open>Heads\<close>

record request_head =
  rh_method :: string
  rh_target :: string
  rh_http10 :: bool
  rh_headers :: "(string \<times> string) list"

definition header :: "(string \<times> string) list \<Rightarrow> string \<Rightarrow> string option" where
  "header headers name =
     map_option snd (List.find (\<lambda>(key, _). eq_ignore_ascii_case key name) headers)"

definition header_values :: "(string \<times> string) list \<Rightarrow> string \<Rightarrow> string list" where
  "header_values headers name =
     concat (map (\<lambda>(_, value). split_on CHR '','' value)
       (filter (\<lambda>(key, _). eq_ignore_ascii_case key name) headers))"

definition has_token :: "(string \<times> string) list \<Rightarrow> string \<Rightarrow> string \<Rightarrow> bool" where
  "has_token headers name token \<longleftrightarrow>
     list_ex (\<lambda>part. eq_ignore_ascii_case (trim part) token) (header_values headers name)"

definition wants_close :: "(string \<times> string) list \<Rightarrow> bool \<Rightarrow> bool" where
  "wants_close headers http10 \<longleftrightarrow>
     has_token headers ''connection'' ''close''
     \<or> (http10 \<and> \<not> has_token headers ''connection'' ''keep-alive'')"

definition header_count :: "request_head \<Rightarrow> string \<Rightarrow> nat" where
  "header_count head name =
     length (filter (\<lambda>(key, _). eq_ignore_ascii_case key name) (rh_headers head))"

definition has_origin_form :: "request_head \<Rightarrow> bool" where
  "has_origin_form head \<longleftrightarrow>
     (starts_with (rh_target head) ''/'' \<and> \<not> starts_with (rh_target head) ''//'')
     \<or> (rh_target head = ''*'' \<and> eq_ignore_ascii_case (rh_method head) ''OPTIONS'')"

definition token_char :: "char \<Rightarrow> bool" where
  "token_char b \<longleftrightarrow> is_ascii_alphanumeric b \<or> b \<in> set (''!#$%&'' @ [CHR 0x27] @ ''*+-.^_`|~'')"

text \<open>\<open>split("\r\n")\<close> of the text before the empty line.\<close>

fun split_crlf :: "string \<Rightarrow> string list" where
  "split_crlf [] = [[]]"
| "split_crlf [c] = [[c]]"
| "split_crlf (c # d # cs) =
     (if c = CHR 0x0D \<and> d = CHR 0x0A then [] # split_crlf cs
      else (case split_crlf (d # cs) of [] \<Rightarrow> [[c]] | l # ls \<Rightarrow> (c # l) # ls))"

definition parse_header :: "string \<Rightarrow> string + (string \<times> string)" where
  "parse_header line =
     (if starts_with line '' '' \<or> starts_with line [CHR 0x09] then Inl ''a folded header''
      else (case split_once CHR '':'' line of
          None \<Rightarrow> Inl ''a header without a colon''
        | Some (name, value) \<Rightarrow>
            if name = [] \<or> \<not> list_all token_char name then Inl ''a header name is not valid''
            else if list_ex (\<lambda>b. b \<in> {CHR 0x0D, CHR 0x0A, CHR 0x00}) value
              then Inl ''a header value is not valid''
            else Inr (name, trim value)))"

fun parse_headers :: "string list \<Rightarrow> string + (string \<times> string) list" where
  "parse_headers [] = Inr []"
| "parse_headers (line # rest) =
     and_then (parse_header line) (\<lambda>h. and_then (parse_headers rest) (\<lambda>hs. Inr (h # hs)))"

definition parse_lines :: "string \<Rightarrow> string + (string \<times> (string \<times> string) list)" where
  "parse_lines raw =
     (if \<not> valid_utf8 raw then Inl ''the head is not UTF-8''
      else (case strip_suffix raw (CRLF @ CRLF) of
          None \<Rightarrow> Inl ''the head has no end''
        | Some text \<Rightarrow> (case split_crlf text of
            [] \<Rightarrow> Inl ''the head is empty''
          | first # rest \<Rightarrow> and_then (parse_headers rest) (\<lambda>headers. Inr (first, headers)))))"

definition http_version :: "string \<Rightarrow> bool option" where
  "http_version version =
     (if version = ''HTTP/1.1'' then Some False
      else if version = ''HTTP/1.0'' then Some True else None)"

definition target_byte :: "char \<Rightarrow> bool" where
  "target_byte b \<longleftrightarrow> 0x20 < byte b \<and> byte b \<noteq> 0x7F"

definition parse_request_head :: "string \<Rightarrow> string + request_head" where
  "parse_request_head raw = and_then (parse_lines raw) (\<lambda>(first, headers).
     (case split_on CHR '' '' first of
        [method, target, version] \<Rightarrow>
          if method = [] \<or> \<not> list_all token_char method then Inl ''the method is not valid''
          else (case http_version version of
              None \<Rightarrow> Inl ''only HTTP/1.1 and HTTP/1.0''
            | Some http10 \<Rightarrow>
                if target = [] \<or> \<not> list_all target_byte target
                  then Inl ''the request target is not valid''
                else Inr \<lparr>rh_method = method, rh_target = target, rh_http10 = http10,
                  rh_headers = headers\<rparr>)
      | _ \<Rightarrow> Inl ''the request line is not valid''))"

section \<open>The borders of a body\<close>

datatype body_len = NoBody | Length nat | Chunked | UntilClose

definition U64_MAX :: nat where
  "U64_MAX = 2 ^ 64 - 1"

fun length_parts :: "nat option \<Rightarrow> string list \<Rightarrow> string + nat option" where
  "length_parts known [] = Inr known"
| "length_parts known (part # rest) =
     (let part = trim part
      in if part = [] \<or> \<not> list_all is_ascii_digit part then Inl ''Content-Length is not valid''
         else (case parse_number 10 U64_MAX part of
             None \<Rightarrow> Inl ''Content-Length is not valid''
           | Some parsed \<Rightarrow>
               if known \<noteq> None \<and> known \<noteq> Some parsed
                 then Inl ''two different Content-Length values''
               else length_parts (Some parsed) rest))"

definition content_length :: "(string \<times> string) list \<Rightarrow> string + nat option" where
  "content_length headers = length_parts None (header_values headers ''content-length'')"

definition transfer_codings :: "(string \<times> string) list \<Rightarrow> string list" where
  "transfer_codings headers =
     filter (\<lambda>coding. coding \<noteq> [])
       (map (\<lambda>coding. to_ascii_lowercase (trim coding)) (header_values headers ''transfer-encoding''))"

definition sized :: "nat option \<Rightarrow> body_len \<Rightarrow> body_len" where
  "sized len other = (case len of
       None \<Rightarrow> other | Some n \<Rightarrow> if n = 0 then NoBody else Length n)"

definition request_body :: "request_head \<Rightarrow> string + body_len" where
  "request_body head =
     (let codings = transfer_codings (rh_headers head)
      in and_then (content_length (rh_headers head)) (\<lambda>len.
        if codings \<noteq> [] then
          (if len \<noteq> None then Inl ''both Content-Length and Transfer-Encoding''
           else if codings \<noteq> [''chunked''] then Inl ''a transfer coding other than chunked''
           else Inr Chunked)
        else Inr (sized len NoBody)))"

record response_head =
  res_status :: nat
  res_close :: bool
  res_body :: body_len
  res_upgrade :: bool
  res_encoded :: bool
  res_transfer_coded :: bool

definition unreadable :: "response_head \<Rightarrow> bool" where
  "unreadable head \<longleftrightarrow> res_encoded head \<or> res_transfer_coded head"

text \<open>
  \<open>String::from_utf8_lossy\<close>: each longest start of a character that is not a whole character,
  and each byte that starts none, becomes U+FFFD.
\<close>

definition bytes_needed :: "nat \<Rightarrow> nat" where
  "bytes_needed a =
     (if a < 0x80 then 1 else if 0xC2 \<le> a \<and> a < 0xE0 then 2
      else if 0xE0 \<le> a \<and> a < 0xF0 then 3 else if 0xF0 \<le> a \<and> a < 0xF5 then 4 else 0)"

definition second_byte :: "nat \<Rightarrow> char \<Rightarrow> bool" where
  "second_byte a c \<longleftrightarrow>
     tail_byte c \<and> (a = 0xE0 \<longrightarrow> 0xA0 \<le> byte c) \<and> (a = 0xED \<longrightarrow> byte c < 0xA0)
     \<and> (a = 0xF0 \<longrightarrow> 0x90 \<le> byte c) \<and> (a = 0xF4 \<longrightarrow> byte c < 0x90)"

fun char_start :: "string \<Rightarrow> nat" where
  "char_start [] = 0"
| "char_start [c] = (if bytes_needed (byte c) = 0 then 0 else 1)"
| "char_start (c # d # cs) =
     (let need = bytes_needed (byte c)
      in if need < 2 then need
         else if \<not> second_byte (byte c) d then 1
         else 2 + length (takeWhile tail_byte (take (need - 2) cs)))"

definition REPLACEMENT :: string where
  "REPLACEMENT = [CHR 0xEF, CHR 0xBF, CHR 0xBD]"

function from_utf8_lossy :: "string \<Rightarrow> string" where
  "from_utf8_lossy [] = []"
| "from_utf8_lossy (c # cs) =
     (let good = char_start (c # cs)
      in if 0 < good \<and> good = bytes_needed (byte c)
         then take good (c # cs) @ from_utf8_lossy (drop good (c # cs))
         else REPLACEMENT @ from_utf8_lossy (drop (max 1 good) (c # cs)))"
  by pat_completeness auto
termination
  by (relation "measure length") auto

definition parse_status :: "string \<Rightarrow> nat option" where
  "parse_status code = Option.bind (parse_number 10 65535 code)
     (\<lambda>n. if 100 \<le> n \<and> n < 600 then Some n else None)"

definition has_no_body :: "string \<Rightarrow> nat \<Rightarrow> bool" where
  "has_no_body method s \<longleftrightarrow>
     eq_ignore_ascii_case method ''HEAD'' \<or> (100 \<le> s \<and> s < 200) \<or> s = 204 \<or> s = 304"

definition response_body ::
  "string \<Rightarrow> nat \<Rightarrow> (string \<times> string) list \<Rightarrow> string + body_len" where
  "response_body method s headers =
     (let codings = transfer_codings headers
      in if has_no_body method s then Inr NoBody
         else if codings \<noteq> [] then
           Inr (if last codings = ''chunked'' then Chunked else UntilClose)
         else and_then (content_length headers) (\<lambda>len. Inr (sized len UntilClose)))"

definition content_encoded :: "(string \<times> string) list \<Rightarrow> bool" where
  "content_encoded headers \<longleftrightarrow>
     list_ex (\<lambda>coding. trim coding \<noteq> [] \<and> \<not> eq_ignore_ascii_case (trim coding) ''identity'')
       (header_values headers ''content-encoding'')"

definition parse_response_head :: "string \<Rightarrow> string \<Rightarrow> string + response_head" where
  "parse_response_head raw method =
     and_then (parse_lines (from_utf8_lossy raw)) (\<lambda>(first, headers).
       let parts = split_on CHR '' '' first
       in (case http_version (hd parts) of
             None \<Rightarrow> Inl ''the status line is not valid''
           | Some http10 \<Rightarrow> and_then
               (ok_or ''the status is not valid'' (Option.bind (get parts 1) parse_status)) (\<lambda>s.
               and_then (response_body method s headers) (\<lambda>len.
                 let codings = transfer_codings headers
                 in Inr \<lparr>res_status = s, res_close = wants_close headers http10 \<or> len = UntilClose,
                      res_body = len, res_upgrade = (s = 101),
                      res_encoded = content_encoded headers,
                      res_transfer_coded = (codings \<noteq> [] \<and> codings \<noteq> [''chunked''])\<rparr>))))"

end
