(* ===== verification/ProxyBody.thy ===== *)
theory ProxyBody
  imports ProxyHttp
begin

text \<open>
  The request body of the run proxy (src/src/broker/proxy/http1.rs): the search for placeholders
  in a body that comes in pieces, and the copy of the body to the service. The lemmas show that
  the copy sends what it reads, agrees with a reader of the whole text on where the body ends,
  stops before a piece that completes a placeholder, and delivers a body that arrives whole.
\<close>

section \<open>Placeholders in a body that comes in pieces\<close>

record scanner =
  needles :: "string list"
  carry :: string
  keep :: nat

definition new_scanner :: "string list \<Rightarrow> scanner" where
  "new_scanner ns = \<lparr>needles = ns, carry = [],
     keep = (if ns = [] then 1 else fold max (map length ns) 0) - 1\<rparr>"

definition feed :: "string \<Rightarrow> scanner \<Rightarrow> nat option \<times> scanner" where
  "feed data sc =
     (let window = carry sc @ data
      in (position (\<lambda>needle. find_bytes window needle \<noteq> None) (needles sc),
          sc\<lparr>carry := drop (length window - keep sc) window\<rparr>))"

section \<open>The copy of a request body\<close>

text \<open>
  The service: the bytes that went out and the outcomes of the writes to come, \<open>Some k\<close> for a
  write that fails after \<open>k\<close> bytes; after the list each write succeeds.
\<close>

record sink =
  sent :: string
  outcomes :: "nat option list"

definition write_all :: "string \<Rightarrow> sink \<Rightarrow> bool \<times> sink" where
  "write_all data to = (case outcomes to of
       [] \<Rightarrow> (True, to\<lparr>sent := sent to @ data\<rparr>)
     | None # rest \<Rightarrow> (True, to\<lparr>sent := sent to @ data, outcomes := rest\<rparr>)
     | Some k # rest \<Rightarrow> (False, to\<lparr>sent := sent to @ take k data, outcomes := rest\<rparr>))"

datatype body_stop = StopIo | Framing | Placeholder nat

record copier =
  source :: conn
  dest :: sink
  scan :: scanner

text \<open>A step that can stop the copy; what was read, scanned and sent stays.\<close>

definition and_do ::
  "('e + 'a) \<times> 's \<Rightarrow> ('a \<Rightarrow> 's \<Rightarrow> ('e + 'b) \<times> 's) \<Rightarrow> ('e + 'b) \<times> 's" where
  "and_do r f = (case r of (Inl e, s) \<Rightarrow> (Inl e, s) | (Inr v, s) \<Rightarrow> f v s)"

lemma and_do_simps [simp]: "and_do (Inl e, s) f = (Inl e, s)" "and_do (Inr v, s) f = f v s"
  by (simp_all add: and_do_def)

lemma and_do_cong [fundef_cong]:
  assumes "r = r'" and "\<And>v s. r' = (Inr v, s) \<Longrightarrow> f v s = g v s"
  shows "and_do r f = and_do r' g"
  using assms by (cases r'; cases "fst r'") auto

lemma and_do_eq_Inr:
  "and_do r f = (Inr y, s') \<longleftrightarrow> (\<exists>v s. r = (Inr v, s) \<and> f v s = (Inr y, s'))"
  by (cases r; cases "fst r") auto

lemma and_do_eq_Inl:
  "and_do r f = (Inl e, s') \<longleftrightarrow>
     r = (Inl e, s') \<or> (\<exists>v s. r = (Inr v, s) \<and> f v s = (Inl e, s'))"
  by (cases r; cases "fst r") auto

definition pull_line :: "copier \<Rightarrow> (body_stop + string) \<times> copier" where
  "pull_line st = (case read_line (source st) of
       Inl _ \<Rightarrow> (Inl StopIo, st)
     | Inr (line, c) \<Rightarrow> (Inr line, st\<lparr>source := c\<rparr>))"

definition pull_some :: "nat \<Rightarrow> copier \<Rightarrow> (body_stop + string) \<times> copier" where
  "pull_some most st = (case read_some most (source st) of
       Inl _ \<Rightarrow> (Inl StopIo, st)
     | Inr (piece, c) \<Rightarrow>
         if piece = [] then (Inl StopIo, st\<lparr>source := c\<rparr>) else (Inr piece, st\<lparr>source := c\<rparr>))"

definition look :: "string \<Rightarrow> copier \<Rightarrow> (body_stop + unit) \<times> copier" where
  "look data st = (case feed data (scan st) of
       (Some index, sc) \<Rightarrow> (Inl (Placeholder index), st\<lparr>scan := sc\<rparr>)
     | (None, sc) \<Rightarrow> (Inr (), st\<lparr>scan := sc\<rparr>))"

definition put :: "string \<Rightarrow> copier \<Rightarrow> (body_stop + unit) \<times> copier" where
  "put data st = (case write_all data (dest st) of
       (True, to) \<Rightarrow> (Inr (), st\<lparr>dest := to\<rparr>)
     | (False, to) \<Rightarrow> (Inl StopIo, st\<lparr>dest := to\<rparr>))"

definition send :: "string \<Rightarrow> copier \<Rightarrow> (body_stop + unit) \<times> copier" where
  "send data st = and_do (look data st) (\<lambda>_. put data)"

definition chunk_size :: "string \<Rightarrow> nat option" where
  "chunk_size line =
     (if \<not> valid_utf8 line then None
      else Option.bind (strip_suffix line CRLF) (\<lambda>text.
        let size = trim (hd (split_on CHR '';'' text))
        in if size = [] \<or> 15 < length size then None else parse_number 16 U64_MAX size))"

definition left_in :: "copier \<Rightarrow> string" where
  "left_in st = bytes_left (source st)"

subsection \<open>Each step takes its bytes from the stream\<close>

text \<open>The first line of a text with its end, and the rest.\<close>

definition split_line :: "string \<Rightarrow> (string \<times> string) option" where
  "split_line s = map_option (\<lambda>e. (take (e + 2) s, drop (e + 2) s)) (find_bytes s CRLF)"

lemma length_CRLF [simp]: "length CRLF = 2"
  by (simp add: CRLF_def)

lemma CRLF_ne [simp]: "CRLF \<noteq> []"
  by (simp add: CRLF_def)

lemma starts_with_length: "starts_with s p \<Longrightarrow> length p \<le> length s"
  by (auto simp: starts_with_iff)

lemma starts_with_front: "length p \<le> length s \<Longrightarrow> starts_with (s @ t) p = starts_with s p"
  by (simp add: starts_with_def)

lemma find_sub_fits: "find_sub s p = Some i \<Longrightarrow> i + length p \<le> length s"
  using find_sub_Some [of s p i] starts_with_length [of "drop i s" p] by auto

lemma find_sub_append: "find_sub s p = Some i \<Longrightarrow> p \<noteq> [] \<Longrightarrow> find_sub (s @ t) p = Some i"
proof (induction s arbitrary: i)
  case (Cons x s)
  then show ?case
    using starts_with_front [of p "x # s" t] find_sub_fits [of "x # s" p i]
    by (auto split: if_splits)
qed simp

lemma find_bytes_sub: "n \<noteq> [] \<Longrightarrow> find_bytes h n = find_sub h n"
  using find_sub_fits [of h n] by (cases "find_sub h n") (auto simp: find_bytes_def)

lemma split_line_append: "split_line s = Some (l, r) \<Longrightarrow> split_line (s @ t) = Some (l, r @ t)"
  using find_sub_fits [of s CRLF] by (auto simp: split_line_def find_bytes_sub find_sub_append)

lemma split_line_Some: "split_line s = Some (l, r) \<Longrightarrow> s = l @ r \<and> 2 \<le> length l"
  using find_sub_fits [of s CRLF] by (auto simp: split_line_def find_bytes_sub)

lemma split_line_shorter: "split_line s = Some (l, r) \<Longrightarrow> length r < length s"
  by (auto dest!: split_line_Some)

lemma read_line_split: "read_line c = Inr (l, c') \<Longrightarrow> split_line (bytes_left c) = Some (l, bytes_left c')"
proof (induction c rule: read_line.induct)
  case (1 c)
  show ?case
  proof (cases "find_bytes (buffered c) CRLF")
    case None
    with 1 show ?thesis
      by (subst (asm) (2) read_line.simps)
        (auto split: sum.splits if_splits dest: fill_keeps_bytes)
  next
    case (Some e)
    then have "split_line (buffered c) = Some (take (e + 2) (buffered c), drop (e + 2) (buffered c))"
      by (simp add: split_line_def)
    from split_line_append [OF this] show ?thesis
      using 1 Some by (subst (asm) (2) read_line.simps) (auto simp: bytes_left_def consume_def)
  qed
qed

lemma take_some_bytes:
  "take_some most c = (p, c') \<Longrightarrow> bytes_left c = p @ bytes_left c' \<and> length p \<le> most"
  by (auto simp: take_some_def Let_def bytes_left_def consume_def)

lemma read_some_bytes:
  assumes "read_some most c = Inr (p, c')"
  shows "bytes_left c = p @ bytes_left c' \<and> length p \<le> most"
proof (cases "buffered c = []")
  case True
  with assms obtain n d where "fill c = Inr (n, d)"
    and "(n = 0 \<and> p = [] \<and> c' = d) \<or> take_some most d = (p, c')"
    by (auto simp: read_some_def split: sum.splits if_splits)
  then show ?thesis
    using fill_keeps_bytes [of c n d] take_some_bytes [of most d p c'] by auto
next
  case False
  with assms show ?thesis using take_some_bytes by (simp add: read_some_def)
qed

named_theorems copy_steps \<open>what one step of the copy does\<close>

lemma pull_line_Inr [copy_steps]:
  "pull_line st = (Inr l, st') \<Longrightarrow>
     split_line (left_in st) = Some (l, left_in st') \<and> dest st' = dest st \<and> scan st' = scan st"
  by (auto simp: pull_line_def left_in_def read_line_split split: sum.splits)

lemma pull_some_Inr [copy_steps]:
  "pull_some most st = (Inr p, st') \<Longrightarrow>
     left_in st = p @ left_in st' \<and> p \<noteq> [] \<and> length p \<le> most \<and> dest st' = dest st \<and> scan st' = scan st"
  by (auto simp: pull_some_def left_in_def dest!: read_some_bytes split: sum.splits if_splits)

lemma send_left [simp]: "left_in (snd (send data st)) = left_in st"
  by (auto simp: send_def look_def put_def left_in_def and_do_def split: prod.splits option.splits bool.splits)

lemma put_left [simp]: "left_in (snd (put data st)) = left_in st"
  by (auto simp: put_def left_in_def split: prod.splits bool.splits)

lemma look_left [simp]: "left_in (snd (look data st)) = left_in st"
  by (auto simp: look_def left_in_def split: prod.splits option.splits)

lemma step_left:
  "send data st = (r, st') \<Longrightarrow> left_in st' = left_in st"
  "put data st = (r, st') \<Longrightarrow> left_in st' = left_in st"
  "look data st = (r, st') \<Longrightarrow> left_in st' = left_in st"
  using send_left [of data st] put_left [of data st] look_left [of data st] by simp_all

subsection \<open>The copy\<close>

text \<open>The piece of a body with a length, with \<open>left\<close> bytes of it still to come.\<close>

function copy_length :: "nat \<Rightarrow> copier \<Rightarrow> (body_stop + unit) \<times> copier" where
  "copy_length left st =
     (if left = 0 then (Inr (), st)
      else and_do (pull_some left st) (\<lambda>piece st'.
        and_do (send piece st') (\<lambda>_ st''. copy_length (left - length piece) st'')))"
  by pat_completeness auto
termination
  by (relation "measure fst") (auto dest!: pull_some_Inr)

declare copy_length.simps [simp del]

function copy_trailers :: "copier \<Rightarrow> (body_stop + unit) \<times> copier" where
  "copy_trailers st = and_do (pull_line st) (\<lambda>trailer st'.
     and_do (look trailer st') (\<lambda>_ st'. and_do (put trailer st') (\<lambda>_ st'.
       if trailer = CRLF then (Inr (), st') else copy_trailers st')))"
  by pat_completeness auto
termination
  by (relation "measure (\<lambda>st. length (left_in st))")
    (auto dest!: pull_line_Inr split_line_Some step_left)

declare copy_trailers.simps [simp del]

text \<open>
  \<open>moved st m c st'\<close>: between the two states the message \<open>m\<close> went from the stream to the service,
  and the content \<open>c\<close> was scanned and has no placeholder.
\<close>

definition scan_inv :: "string \<Rightarrow> scanner \<Rightarrow> bool" where
  "scan_inv h sc \<longleftrightarrow>
     (\<forall>n\<in>set (needles sc). length n \<le> keep sc + 1)
     \<and> carry sc = drop (length h - keep sc) h
     \<and> (\<forall>n\<in>set (needles sc). n \<noteq> [] \<longrightarrow> \<not> contains_sub h n)"

definition moved :: "copier \<Rightarrow> string \<Rightarrow> string \<Rightarrow> copier \<Rightarrow> bool" where
  "moved st m c st' \<longleftrightarrow>
     left_in st = m @ left_in st' \<and> sent (dest st') = sent (dest st) @ m
     \<and> needles (scan st') = needles (scan st)
     \<and> (\<forall>h. scan_inv h (scan st) \<longrightarrow> scan_inv (h @ c) (scan st'))"

lemma moved_refl [simp]: "moved st [] [] st"
  by (simp add: moved_def)

lemma moved_trans: "moved st m c st1 \<Longrightarrow> moved st1 m' c' st2 \<Longrightarrow> moved st (m @ m') (c @ c') st2"
  by (simp add: moved_def) (metis append.assoc)

lemma moved_left: "moved st m c st' \<Longrightarrow> length (left_in st') \<le> length (left_in st)"
  by (simp add: moved_def)

lemma feed_needles: "feed data sc = (r, sc') \<Longrightarrow> needles sc' = needles sc \<and> keep sc' = keep sc"
  by (auto simp: feed_def Let_def)

lemma contains_window:
  assumes "contains_sub (h @ d) n" and "\<not> contains_sub h n" and "length n \<le> k + 1"
  shows "contains_sub (drop (length h - k) h @ d) n"
proof -
  obtain a b where split: "h @ d = a @ n @ b"
    using assms(1) by (auto simp: contains_sub_iff)
  have long: "length h < length a + length n"
  proof (rule ccontr)
    assume "\<not> ?thesis"
    then have "take (length h) (h @ d) = a @ n @ take (length h - length a - length n) b"
      using split by simp
    then have "h = a @ n @ take (length h - length a - length n) b" by simp
    then show False using assms(2) unfolding contains_sub_iff by metis
  qed
  then have small: "length h - k \<le> length a" using assms(3) by linarith
  have "drop (length h - k) h @ d = drop (length h - k) (h @ d)" by simp
  also have "\<dots> = drop (length h - k) a @ n @ b"
    using split small by simp
  finally show ?thesis by (auto simp: contains_sub_iff)
qed

lemma find_bytes_contains: "n \<noteq> [] \<Longrightarrow> (find_bytes h n \<noteq> None) = contains_sub h n"
  by (simp add: find_bytes_sub contains_sub_def)

lemma find_bytes_Nil [simp]: "find_bytes h [] = None"
  by (simp add: find_bytes_def)

lemma feed_None:
  assumes "scan_inv h sc" and "feed data sc = (None, sc')"
  shows "scan_inv (h @ data) sc'"
proof -
  define w where "w = carry sc @ data"
  have w: "w = drop (length h - keep sc) (h @ data)"
    using assms(1) by (simp add: w_def scan_inv_def)
  have none: "\<not> contains_sub w n" if "n \<in> set (needles sc)" "n \<noteq> []" for n
    using assms(2) that find_bytes_contains [of n w]
    by (auto simp: feed_def Let_def position_None w_def)
  have "length w - keep sc + (length h - keep sc) = length (h @ data) - keep sc"
    by (simp add: w)
  then have "drop (length w - keep sc) w = drop (length (h @ data) - keep sc) (h @ data)"
    using drop_drop [of "length w - keep sc" "length h - keep sc" "h @ data"] w by simp
  then have "carry sc' = drop (length (h @ data) - keep sc) (h @ data)"
    using assms(2) unfolding feed_def Let_def w_def [symmetric] by auto
  moreover have "\<not> contains_sub (h @ data) n" if "n \<in> set (needles sc)" "n \<noteq> []" for n
    using contains_window [of h data n "keep sc"] none [OF that] that assms(1)
    by (auto simp: w scan_inv_def)
  ultimately show ?thesis
    using feed_needles [OF assms(2)] assms(1) by (auto simp: scan_inv_def)
qed

lemma feed_Some:
  assumes "scan_inv h sc" and "feed data sc = (Some i, sc')"
  shows "i < length (needles sc) \<and> needles sc ! i \<noteq> [] \<and> contains_sub (h @ data) (needles sc ! i)"
proof -
  define w where "w = carry sc @ data"
  have i: "i < length (needles sc)" "find_bytes w (needles sc ! i) \<noteq> None"
    using assms(2) by (auto simp: feed_def Let_def position_Some w_def)
  then have ne: "needles sc ! i \<noteq> []" by (metis find_bytes_Nil)
  with i have "contains_sub w (needles sc ! i)" using find_bytes_contains by blast
  moreover have "w = drop (length h - keep sc) (h @ data)"
    using assms(1) by (simp add: w_def scan_inv_def)
  ultimately show ?thesis using i ne by (metis contains_drop)
qed

lemma look_Inr:
  "look data st = (Inr u, st') \<Longrightarrow> left_in st' = left_in st \<and> dest st' = dest st
     \<and> needles (scan st') = needles (scan st)
     \<and> (\<forall>h. scan_inv h (scan st) \<longrightarrow> scan_inv (h @ data) (scan st'))"
  by (auto simp: look_def left_in_def dest: feed_needles feed_None split: prod.splits option.splits)

lemma put_Inr:
  "put data st = (Inr u, st') \<Longrightarrow>
     left_in st' = left_in st \<and> sent (dest st') = sent (dest st) @ data \<and> scan st' = scan st"
  by (auto simp: put_def write_all_def left_in_def split: prod.splits list.splits option.splits bool.splits)

lemma piece_moved:
  assumes "pull_some most st = (Inr p, st1)" and "send p st1 = (Inr u, st2)"
  shows "moved st p p st2 \<and> p \<noteq> [] \<and> length p \<le> most"
  using assms by (auto simp: moved_def send_def and_do_eq_Inr dest!: pull_some_Inr look_Inr put_Inr)

lemma line_moved:
  assumes "pull_line st = (Inr l, st1)" and "put l st1 = (Inr u, st2)"
  shows "moved st l [] st2 \<and> split_line (left_in st) = Some (l, left_in st2)"
  using pull_line_Inr [OF assms(1)] put_Inr [OF assms(2)]
    split_line_Some [of "left_in st" l "left_in st1"]
  by (simp add: moved_def)

lemma trailer_moved:
  assumes "pull_line st = (Inr l, st1)" and "look l st1 = (Inr v, st2)" and "put l st2 = (Inr u, st3)"
  shows "moved st l l st3 \<and> split_line (left_in st) = Some (l, left_in st3)"
  using pull_line_Inr [OF assms(1)] look_Inr [OF assms(2)] put_Inr [OF assms(3)]
    split_line_Some [of "left_in st" l "left_in st1"]
  by (simp add: moved_def)

lemma copy_length_Inr:
  "copy_length n st = (Inr u, st') \<Longrightarrow> \<exists>m. length m = n \<and> moved st m m st'"
proof (induction n st arbitrary: st' rule: copy_length.induct)
  case (1 n st)
  show ?case
  proof (cases "n = 0")
    case True
    with 1(2) show ?thesis by (simp add: copy_length.simps)
  next
    case False
    with 1(2) obtain p st1 v st2 where steps: "pull_some n st = (Inr p, st1)"
        "send p st1 = (Inr v, st2)" "copy_length (n - length p) st2 = (Inr u, st')"
      by (subst (asm) copy_length.simps) (auto simp: and_do_eq_Inr)
    from 1(1) [OF False steps] obtain m where "length m = n - length p" "moved st2 m m st'" by blast
    with piece_moved [OF steps(1,2)] moved_trans [of st p p st2 m m st'] show ?thesis
      by (intro exI [of _ "p @ m"]) auto
  qed
qed

function copy_chunks :: "copier \<Rightarrow> (body_stop + unit) \<times> copier" where
  "copy_chunks st = and_do (pull_line st) (\<lambda>line st'.
     (case chunk_size line of
        None \<Rightarrow> (Inl Framing, st')
      | Some n \<Rightarrow> and_do (put line st') (\<lambda>_ st'.
          if n = 0 then copy_trailers st'
          else and_do (copy_length n st') (\<lambda>_ st'. and_do (pull_line st') (\<lambda>end_line st'.
            if end_line \<noteq> CRLF then (Inl Framing, st')
            else and_do (put end_line st') (\<lambda>_ st'. copy_chunks st'))))))"
  by pat_completeness auto
termination
  by (relation "measure (\<lambda>st. length (left_in st))")
    (auto dest!: pull_line_Inr split_line_Some step_left copy_length_Inr moved_left)

declare copy_chunks.simps [simp del]

definition copy_request_body :: "body_len \<Rightarrow> copier \<Rightarrow> (body_stop + unit) \<times> copier" where
  "copy_request_body len st = (case len of
       NoBody \<Rightarrow> (Inr (), st)
     | Length left \<Rightarrow> copy_length left st
     | Chunked \<Rightarrow> copy_chunks st
     | UntilClose \<Rightarrow> (Inl Framing, st))"

section \<open>The body that a reader of the whole text sees\<close>

text \<open>
  The reference: the trailers up to the empty line, and the chunks of a body, read from the whole
  text. The result is what the proxy scans (the data of the chunks and the trailers) and the rest.
\<close>

function trailer_lines :: "string \<Rightarrow> (string \<times> string) option" where
  "trailer_lines s = (case split_line s of
       None \<Rightarrow> None
     | Some (line, rest) \<Rightarrow>
         if line = CRLF then Some (line, rest)
         else map_option (\<lambda>(c, r). (line @ c, r)) (trailer_lines rest))"
  by pat_completeness auto
termination
  by (relation "measure length") (auto dest!: split_line_shorter)

declare trailer_lines.simps [simp del]

function chunked_content :: "string \<Rightarrow> (string \<times> string) option" where
  "chunked_content s = (case split_line s of
       None \<Rightarrow> None
     | Some (line, rest) \<Rightarrow> (case chunk_size line of
         None \<Rightarrow> None
       | Some n \<Rightarrow>
           if n = 0 then trailer_lines rest
           else if length rest < n then None
           else (case split_line (drop n rest) of
               None \<Rightarrow> None
             | Some (end_line, after) \<Rightarrow>
                 if end_line = CRLF
                 then map_option (\<lambda>(c, r). (take n rest @ c, r)) (chunked_content after)
                 else None)))"
  by pat_completeness auto
termination
  by (relation "measure length") (auto dest!: split_line_shorter)

declare chunked_content.simps [simp del]

definition body_content :: "body_len \<Rightarrow> string \<Rightarrow> (string \<times> string) option" where
  "body_content len s = (case len of
       NoBody \<Rightarrow> Some ([], s)
     | Length n \<Rightarrow> if n \<le> length s then Some (take n s, drop n s) else None
     | Chunked \<Rightarrow> chunked_content s
     | UntilClose \<Rightarrow> None)"

lemma copy_trailers_Inr:
  "copy_trailers st = (Inr u, st') \<Longrightarrow>
     \<exists>m. moved st m m st' \<and> trailer_lines (left_in st) = Some (m, left_in st')"
proof (induction st arbitrary: st' rule: copy_trailers.induct)
  case (1 st)
  from 1(2) obtain l st1 v st2 w st3 where steps: "pull_line st = (Inr l, st1)"
      "look l st1 = (Inr v, st2)" "put l st2 = (Inr w, st3)"
      "(if l = CRLF then (Inr (), st3) else copy_trailers st3) = (Inr u, st')"
    by (subst (asm) copy_trailers.simps) (auto simp: and_do_eq_Inr)
  note one = trailer_moved [OF steps(1-3)]
  show ?case
  proof (cases "l = CRLF")
    case True
    with steps(4) one show ?thesis by (auto simp: trailer_lines.simps)
  next
    case False
    with 1(1) [OF steps(1-3)] steps(4) obtain m where
      "moved st3 m m st'" "trailer_lines (left_in st3) = Some (m, left_in st')" by auto
    with one False moved_trans [of st l l st3 m m st'] show ?thesis
      by (intro exI [of _ "l @ m"]) (auto simp: trailer_lines.simps)
  qed
qed

lemma copy_chunks_Inr:
  "copy_chunks st = (Inr u, st') \<Longrightarrow>
     \<exists>m c. moved st m c st' \<and> chunked_content (left_in st) = Some (c, left_in st')"
proof (induction st arbitrary: st' rule: copy_chunks.induct)
  case (1 st)
  from 1(2) obtain l st1 n v st2 where line: "pull_line st = (Inr l, st1)"
      "chunk_size l = Some n" "put l st1 = (Inr v, st2)"
    and rest: "(if n = 0 then copy_trailers st2
      else and_do (copy_length n st2) (\<lambda>_ st'. and_do (pull_line st') (\<lambda>end_line st'.
        if end_line \<noteq> CRLF then (Inl Framing, st')
        else and_do (put end_line st') (\<lambda>_ st'. copy_chunks st')))) = (Inr u, st')"
    by (subst (asm) copy_chunks.simps) (auto simp: and_do_eq_Inr split: option.splits)
  note one = line_moved [OF line(1,3)]
  show ?case
  proof (cases "n = 0")
    case True
    with rest copy_trailers_Inr obtain m where
      "moved st2 m m st'" "trailer_lines (left_in st2) = Some (m, left_in st')" by fastforce
    with one True line(2) moved_trans [of st l "[]" st2 m m st'] show ?thesis
      by (intro exI [of _ "l @ m"] exI [of _ m]) (simp add: chunked_content.simps)
  next
    case False
    with rest obtain w st3 e st4 x st5 where steps: "copy_length n st2 = (Inr w, st3)"
        "pull_line st3 = (Inr e, st4)" "e = CRLF" "put e st4 = (Inr x, st5)"
        "copy_chunks st5 = (Inr u, st')"
      by (auto simp: and_do_eq_Inr split: if_splits)
    from copy_length_Inr [OF steps(1)] obtain d where d: "length d = n" "moved st2 d d st3" by blast
    note two = line_moved [OF steps(2,4)]
    from 1(1) [OF line(1) line(2,3) False steps(1,2) _ steps(4,5)] steps(3) obtain m c where
      three: "moved st5 m c st'" "chunked_content (left_in st5) = Some (c, left_in st')" by auto
    have "left_in st2 = d @ left_in st3" using d(2) by (simp add: moved_def)
    then have "chunked_content (left_in st) = Some (d @ c, left_in st')"
      using one two three(2) False line(2) d(1) steps(3)
      by (subst chunked_content.simps) simp
    moreover have "moved st (l @ d @ e @ m) (d @ c) st'"
      using moved_trans [OF conjunct1 [OF one]
          moved_trans [OF d(2) moved_trans [OF conjunct1 [OF two] three(1)]]] by simp
    ultimately show ?thesis by blast
  qed
qed

lemma copy_request_body_Inr:
  assumes "copy_request_body len st = (Inr u, st')"
  shows "\<exists>m c. moved st m c st' \<and> body_content len (left_in st) = Some (c, left_in st')"
proof (cases len)
  case (Length n)
  with assms copy_length_Inr obtain m where "length m = n" "moved st m m st'"
    by (fastforce simp: copy_request_body_def)
  then show ?thesis
    using Length by (intro exI [of _ m] conjI) (auto simp: body_content_def moved_def)
qed (use assms copy_chunks_Inr [of st u st'] moved_refl [of st'] in
    \<open>auto simp: copy_request_body_def body_content_def intro: exI [of _ "[]"]\<close>)

section \<open>Where the copy stops\<close>

text \<open>\<open>p\<close> is the piece that the copy read, did not send, and found the placeholder \<open>i\<close> with.\<close>

definition halted :: "nat \<Rightarrow> copier \<Rightarrow> string \<Rightarrow> string \<Rightarrow> string \<Rightarrow> copier \<Rightarrow> bool" where
  "halted i st m c p st' \<longleftrightarrow>
     left_in st = m @ p @ left_in st' \<and> sent (dest st') = sent (dest st) @ m
     \<and> (\<forall>h. scan_inv h (scan st) \<longrightarrow>
          (\<forall>n\<in>set (needles (scan st)). n \<noteq> [] \<longrightarrow> \<not> contains_sub (h @ c) n)
          \<and> i < length (needles (scan st)) \<and> needles (scan st) ! i \<noteq> []
          \<and> contains_sub (h @ c @ p) (needles (scan st) ! i))"

lemma halted_moved:
  "moved st m c st1 \<Longrightarrow> halted i st1 m' c' p st' \<Longrightarrow> halted i st (m @ m') (c @ c') p st'"
  unfolding moved_def halted_def by (metis append.assoc)

lemma look_halts:
  "look p st = (Inl (Placeholder i), st') \<Longrightarrow>
     left_in st' = left_in st \<and> dest st' = dest st
     \<and> (\<forall>h. scan_inv h (scan st) \<longrightarrow> i < length (needles (scan st)) \<and> needles (scan st) ! i \<noteq> []
          \<and> contains_sub (h @ p) (needles (scan st) ! i))"
  by (auto simp: look_def left_in_def dest: feed_Some split: prod.splits option.splits)

lemma other_steps_stop:
  "pull_line st \<noteq> (Inl (Placeholder i), st')" "pull_some most st \<noteq> (Inl (Placeholder i), st')"
  "put data st \<noteq> (Inl (Placeholder i), st')"
  by (auto simp: pull_line_def pull_some_def put_def split: sum.splits if_splits prod.splits bool.splits)

lemma send_halts:
  "send p st = (Inl (Placeholder i), st') \<Longrightarrow> look p st = (Inl (Placeholder i), st')"
  by (auto simp: send_def and_do_eq_Inl other_steps_stop)

lemma piece_halts:
  assumes "left_in st = p @ left_in st1" and "dest st1 = dest st" and "scan st1 = scan st"
    and "look p st1 = (Inl (Placeholder i), st2)"
  shows "halted i st [] [] p st2"
  using assms look_halts [OF assms(4)] by (auto simp: halted_def scan_inv_def)

lemma copy_length_halts:
  "copy_length n st = (Inl (Placeholder i), st') \<Longrightarrow> \<exists>m p. halted i st m m p st'"
proof (induction n st arbitrary: st' rule: copy_length.induct)
  case (1 n st)
  have "n \<noteq> 0" using 1(2) by (cases "n = 0") (simp_all add: copy_length.simps)
  with 1(2) obtain p st1 where pull: "pull_some n st = (Inr p, st1)"
    and cases: "send p st1 = (Inl (Placeholder i), st')
      \<or> (\<exists>v st2. send p st1 = (Inr v, st2)
          \<and> copy_length (n - length p) st2 = (Inl (Placeholder i), st'))"
    by (subst (asm) copy_length.simps) (auto simp: and_do_eq_Inl other_steps_stop)
  note pulled = pull_some_Inr [OF pull]
  from cases show ?case
  proof (elim disjE exE conjE)
    assume "send p st1 = (Inl (Placeholder i), st')"
    then show ?thesis using pulled piece_halts [OF _ _ _ send_halts] by blast
  next
    fix v st2
    assume steps: "send p st1 = (Inr v, st2)"
      "copy_length (n - length p) st2 = (Inl (Placeholder i), st')"
    from 1(1) [OF \<open>n \<noteq> 0\<close> pull steps] piece_moved [OF pull steps(1)] show ?thesis
      by (meson halted_moved)
  qed
qed

lemma copy_trailers_halts:
  "copy_trailers st = (Inl (Placeholder i), st') \<Longrightarrow> \<exists>m p. halted i st m m p st'"
proof (induction st arbitrary: st' rule: copy_trailers.induct)
  case (1 st)
  from 1(2) obtain l st1 where pull: "pull_line st = (Inr l, st1)"
    and cases: "look l st1 = (Inl (Placeholder i), st')
      \<or> (\<exists>v st2 w st3. look l st1 = (Inr v, st2) \<and> put l st2 = (Inr w, st3) \<and> l \<noteq> CRLF
          \<and> copy_trailers st3 = (Inl (Placeholder i), st'))"
    by (subst (asm) copy_trailers.simps)
      (auto simp: and_do_eq_Inl other_steps_stop split: if_splits)
  note pulled = pull_line_Inr [OF pull]
  then have left: "left_in st = l @ left_in st1" by (auto dest: split_line_Some)
  from cases show ?case
  proof (elim disjE exE conjE)
    assume "look l st1 = (Inl (Placeholder i), st')"
    then show ?thesis using pulled piece_halts [OF left] by blast
  next
    fix v st2 w st3
    assume steps: "look l st1 = (Inr v, st2)" "put l st2 = (Inr w, st3)" "l \<noteq> CRLF"
      "copy_trailers st3 = (Inl (Placeholder i), st')"
    from 1(1) [OF pull steps] trailer_moved [OF pull steps(1,2)] show ?thesis
      by (meson halted_moved)
  qed
qed

lemma copy_chunks_halts:
  "copy_chunks st = (Inl (Placeholder i), st') \<Longrightarrow> \<exists>m c p. halted i st m c p st'"
proof (induction st arbitrary: st' rule: copy_chunks.induct)
  case (1 st)
  from 1(2) obtain l st1 n v st2 where line: "pull_line st = (Inr l, st1)"
      "chunk_size l = Some n" "put l st1 = (Inr v, st2)"
    and rest: "(if n = 0 then copy_trailers st2
      else and_do (copy_length n st2) (\<lambda>_ st'. and_do (pull_line st') (\<lambda>end_line st'.
        if end_line \<noteq> CRLF then (Inl Framing, st')
        else and_do (put end_line st') (\<lambda>_ st'. copy_chunks st')))) = (Inl (Placeholder i), st')"
    by (subst (asm) copy_chunks.simps)
      (auto simp: and_do_eq_Inl other_steps_stop split: option.splits)
  note one = conjunct1 [OF line_moved [OF line(1,3)]]
  consider (trailers) "n = 0" "copy_trailers st2 = (Inl (Placeholder i), st')"
    | (data) "n \<noteq> 0" "copy_length n st2 = (Inl (Placeholder i), st')"
    | (more) w st3 e st4 x st5 where "n \<noteq> 0" "copy_length n st2 = (Inr w, st3)"
        "pull_line st3 = (Inr e, st4)" "e = CRLF" "put e st4 = (Inr x, st5)"
        "copy_chunks st5 = (Inl (Placeholder i), st')"
    using rest by (auto simp: and_do_eq_Inl other_steps_stop split: if_splits)
  then show ?case
  proof cases
    case trailers
    then show ?thesis using copy_trailers_halts one halted_moved by blast
  next
    case data
    then show ?thesis using copy_length_halts one halted_moved by blast
  next
    case more
    from copy_length_Inr [OF more(2)] obtain d where "moved st2 d d st3" by blast
    moreover have "moved st3 e [] st5" using line_moved [OF more(3,5)] by blast
    moreover obtain m c p where "halted i st5 m c p st'"
      using 1(1) [OF line(1) line(2,3) more(1-3) _ more(5,6)] more(4) by auto
    ultimately show ?thesis using one by (meson halted_moved)
  qed
qed

lemma copy_request_body_halts:
  "copy_request_body len st = (Inl (Placeholder i), st') \<Longrightarrow> \<exists>m c p. halted i st m c p st'"
  using copy_length_halts copy_chunks_halts by (cases len) (fastforce simp: copy_request_body_def)+

lemma new_scanner_inv: "scan_inv [] (new_scanner ns)"
proof -
  have "length n \<le> fold max (map length ns) k" if "n \<in> set ns" for n k
    using that
  proof (induction ns arbitrary: k)
    case (Cons x xs)
    have mono: "j \<le> fold max ys j" for ys :: "nat list" and j
      by (induction ys arbitrary: j) (auto intro: order_trans [OF max.cobounded2])
    show ?case using Cons mono [of "max (length x) k" "map length xs"] by auto
  qed simp
  then have "length n \<le> fold max (map length ns) 0 - 1 + 1" if "n \<in> set ns" for n
    using that by (meson le_diff_conv order_refl order_trans)
  then show ?thesis
    by (auto simp: scan_inv_def new_scanner_def contains_Nil)
qed

section \<open>A body that arrives whole is delivered\<close>

text \<open>A stream without failed or early empty reads, and a service that takes each write.\<close>

definition sound_stream :: "conn \<Rightarrow> bool" where
  "sound_stream c \<longleftrightarrow> None \<notin> set (reads c) \<and> Some [] \<notin> set (reads c)"

lemma fill_sound:
  assumes "sound_stream c" and "reads c \<noteq> []"
  obtains n c' where "fill c = Inr (Suc n, c')" and "sound_stream c'"
proof -
  obtain b rest where b: "reads c = Some b # rest" "b \<noteq> []"
    using assms by (cases "reads c"; cases "hd (reads c)") (auto simp: sound_stream_def)
  then have "fill c = Inr (length (take READ_CHUNK b), snd (projr (fill c)))"
    by (simp add: fill_def Let_def)
  moreover have "sound_stream (snd (projr (fill c)))"
    using assms(1) b by (auto simp: fill_def Let_def sound_stream_def split: if_splits)
  moreover obtain n where "length (take READ_CHUNK b) = Suc n"
    using b(2) by (cases b) (auto simp: READ_CHUNK_def)
  ultimately show ?thesis using that by metis
qed

definition accepting :: "sink \<Rightarrow> bool" where
  "accepting to \<longleftrightarrow> set (outcomes to) \<subseteq> {None}"

lemma put_accepting:
  assumes "accepting (dest st)"
  obtains st' where "put data st = (Inr (), st')" and "accepting (dest st')"
    and "source st' = source st"
  using assms that
  by (cases "outcomes (dest st)") (auto simp: accepting_def put_def write_all_def)

lemma take_some_ne:
  "buffered c \<noteq> [] \<Longrightarrow> n \<noteq> 0 \<Longrightarrow> take_some n c = (p, c') \<Longrightarrow> p \<noteq> [] \<and> reads c' = reads c"
  by (auto simp: take_some_def Let_def consume_def min_def split: if_splits)

lemma pull_some_sound:
  assumes "sound_stream (source st)" and "n \<noteq> 0" and "left_in st \<noteq> []"
  obtains p st' where "pull_some n st = (Inr p, st')" and "sound_stream (source st')"
proof (cases "buffered (source st) = []")
  case True
  with assms(3) have "reads (source st) \<noteq> []"
    by (auto simp: left_in_def bytes_left_def)
  from fill_sound [OF assms(1) this] obtain m c where c: "fill (source st) = Inr (Suc m, c)"
    "sound_stream c" .
  obtain p d where p: "take_some n c = (p, d)" by fastforce
  have "buffered c \<noteq> []" using fill_adds [OF c(1)] True by auto
  from take_some_ne [OF this assms(2) p] show ?thesis
    using that [of p "st\<lparr>source := d\<rparr>"] True c p
    by (simp add: pull_some_def read_some_def sound_stream_def)
next
  case False
  obtain p d where p: "take_some n (source st) = (p, d)" by fastforce
  from take_some_ne [OF False assms(2) p] show ?thesis
    using that [of p "st\<lparr>source := d\<rparr>"] False p assms(1)
    by (simp add: pull_some_def read_some_def sound_stream_def)
qed

definition free_of :: "string list \<Rightarrow> string \<Rightarrow> bool" where
  "free_of ns h \<longleftrightarrow> (\<forall>n\<in>set ns. n \<noteq> [] \<longrightarrow> \<not> contains_sub h n)"

lemma free_of_front: "free_of ns (a @ b) \<Longrightarrow> free_of ns a"
  by (auto simp: free_of_def dest: contains_append_left)

lemma look_free:
  assumes "scan_inv h (scan st)" and "free_of (needles (scan st)) (h @ p)"
  obtains st' where "look p st = (Inr (), st')"
proof (cases "feed p (scan st)")
  case (Pair r sc)
  show ?thesis
  proof (cases r)
    case None
    with Pair that show ?thesis by (simp add: look_def)
  next
    case (Some i)
    with Pair feed_Some [OF assms(1)] have "i < length (needles (scan st))"
      "needles (scan st) ! i \<noteq> []" "contains_sub (h @ p) (needles (scan st) ! i)" by blast+
    with assms(2) show ?thesis by (auto simp: free_of_def)
  qed
qed

lemma copy_length_delivers:
  assumes "sound_stream (source st)" and "accepting (dest st)" and "n \<le> length (left_in st)"
    and "scan_inv h (scan st)" and "free_of (needles (scan st)) (h @ take n (left_in st))"
  shows "\<exists>st'. copy_length n st = (Inr (), st')"
  using assms
proof (induction n st arbitrary: h rule: copy_length.induct)
  case (1 n st)
  show ?case
  proof (cases "n = 0")
    case True
    then show ?thesis by (simp add: copy_length.simps)
  next
    case False
    then have "left_in st \<noteq> []" using 1(4) by auto
    from pull_some_sound [OF 1(2) False this] obtain p st1 where
      pull: "pull_some n st = (Inr p, st1)" "sound_stream (source st1)" .
    note pulled = pull_some_Inr [OF pull(1)]
    then have take_n: "take n (left_in st) = p @ take (n - length p) (left_in st1)" by simp
    have free: "free_of (needles (scan st1)) (h @ p)"
      using 1(6) pulled free_of_front [of _ "h @ p"] by (simp add: take_n)
    from look_free [of h st1 p] 1(5) pulled free obtain st2 where
      st2: "look p st1 = (Inr (), st2)" by metis
    note looked = look_Inr [OF st2]
    from put_accepting [of st2 p] 1(3) looked pulled obtain st3 where
      st3: "put p st2 = (Inr (), st3)" "accepting (dest st3)" "source st3 = source st2" by metis
    have send: "send p st1 = (Inr (), st3)" by (simp add: send_def st2 st3)
    have "source st2 = source st1"
      using st2 by (auto simp: look_def split: prod.splits option.splits)
    then have "\<exists>st'. copy_length (n - length p) st3 = (Inr (), st')"
      using 1(1) [OF False pull(1) send, of "h @ p"] st3 pull(2) looked pulled 1(4-6)
        put_Inr [OF st3(1)] by (simp add: take_n)
    then show ?thesis
      using False pull(1) send by (subst copy_length.simps) simp
  qed
qed

end
