(* ===== verification/ProxyEcho.thy ===== *)
theory ProxyEcho
  imports ProxyBody
begin

text \<open>
  The mask of a response (src/src/broker/proxy/echo.rs and the \<open>Replacer\<close> of http1.rs): the forms
  in which a service can give a real value back, the search for each mix of them, the replacement
  of a value by its placeholder in a text that comes in pieces, and the forms of a query key.
\<close>

section \<open>The forms of a value\<close>

record pair =
  pair_from :: string
  pair_to :: string

definition escapable :: "char \<Rightarrow> bool" where
  "escapable b \<longleftrightarrow> \<not> is_ascii_alphanumeric b \<and> b \<notin> set ''-_.''"

definition MAX_LEADING_ZEROS :: nat where
  "MAX_LEADING_ZEROS = 4"

text \<open>\<open>{:x}\<close> and \<open>{:X}\<close>, and \<open>{:04x}\<close>.\<close>

definition hex_char :: "bool \<Rightarrow> nat \<Rightarrow> char" where
  "hex_char upper d =
     (if upper then ''0123456789ABCDEF'' ! d else ''0123456789abcdef'' ! d)"

fun show_hex :: "bool \<Rightarrow> nat \<Rightarrow> string" where
  "show_hex upper n =
     (if n < 16 then [hex_char upper n]
      else show_hex upper (n div 16) @ [hex_char upper (n mod 16)])"

declare show_hex.simps [simp del]

definition json_u :: "nat \<Rightarrow> bool \<Rightarrow> string" where
  "json_u code upper =
     (let h = show_hex upper code in CHR 0x5C # ''u'' @ replicate (4 - length h) CHR ''0'' @ h)"

definition json_code_point :: "nat \<Rightarrow> bool \<Rightarrow> string" where
  "json_code_point code upper =
     (if code \<le> 0xFFFF then json_u code upper
      else (let offset = code - 0x10000
            in json_u (0xD800 + offset div 1024) upper @ json_u (0xDC00 + offset mod 1024) upper))"

definition json_short :: "char \<Rightarrow> string option" where
  "json_short b = map_option (\<lambda>c. [CHR 0x5C, c])
     (map_of [(CHR ''/'', CHR ''/''), (CHR 0x22, CHR 0x22), (CHR 0x5C, CHR 0x5C),
       (CHR 0x08, CHR ''b''), (CHR 0x0C, CHR ''f''), (CHR 0x0A, CHR ''n''), (CHR 0x0D, CHR ''r''),
       (CHR 0x09, CHR ''t'')] b)"

definition html_named :: "char \<Rightarrow> string option" where
  "html_named = map_of [(CHR ''&'', ''&amp;''), (CHR ''<'', ''&lt;''), (CHR ''>'', ''&gt;''),
     (CHR 0x27, ''&apos;''), (CHR 0x22, ''&quot;'')]"

definition html_numeric :: "nat \<Rightarrow> string list" where
  "html_numeric code = concat (map (\<lambda>k.
     let zeros = replicate k CHR ''0''
     in (''&#'' @ zeros @ show_nat code @ '';'')
        # concat (map (\<lambda>mark. [''&#'' @ [mark] @ zeros @ show_hex False code @ '';'',
             ''&#'' @ [mark] @ zeros @ show_hex True code @ '';'']) ''xX''))
     [0..<MAX_LEADING_ZEROS + 1])"

definition percent :: "string \<Rightarrow> bool \<Rightarrow> string" where
  "percent bytes upper = concat (map (\<lambda>b.
     [CHR ''%'', hex_char upper (byte b div 16), hex_char upper (byte b mod 16)]) bytes)"

definition add_form :: "string \<Rightarrow> string list \<Rightarrow> string list" where
  "add_form from forms = (if from \<in> set forms then forms else forms @ [from])"

definition characters :: "string \<Rightarrow> (string \<times> nat option) list" where
  "characters value =
     (if valid_utf8 value then map (\<lambda>c. (c, Some (code_point c))) (chars value)
      else map (\<lambda>b. ([b], if byte b < 128 then Some (byte b) else None)) value)"

definition code_forms :: "nat \<Rightarrow> string list" where
  "code_forms code =
     (if code < 128
      then List.map_filter id [json_short (char_of code), html_named (char_of code)] else [])
     @ map (json_code_point code) [False, True] @ html_numeric code"

definition forms_of :: "string \<Rightarrow> nat option \<Rightarrow> string list" where
  "forms_of raw code =
     (if \<not> list_ex escapable raw then [raw]
      else fold add_form
        (map (percent raw) [False, True] @ (case code of None \<Rightarrow> [] | Some c \<Rightarrow> code_forms c)) [raw])"

record pattern =
  places :: "string list list"
  pat_placeholder :: string
  max_len :: nat

definition escaped :: "string \<Rightarrow> string \<Rightarrow> pattern option" where
  "escaped value placeholder =
     (if value = [] \<or> length value \<noteq> length placeholder \<or> \<not> list_ex escapable value then None
      else (let ps = map (\<lambda>(raw, code). forms_of raw code) (characters value)
            in Some \<lparr>places = ps, pat_placeholder = placeholder,
                 max_len = sum_list (map (\<lambda>forms. fold max (map length forms) 0) ps)\<rparr>))"

text \<open>Whether a pair is the raw value of a pattern with its placeholder.\<close>

fun strip_places :: "string list list \<Rightarrow> string \<Rightarrow> bool" where
  "strip_places [] rest = (rest = [])"
| "strip_places (forms # others) rest = (case strip_prefix rest (hd forms) of
       None \<Rightarrow> False
     | Some tail \<Rightarrow> strip_places others tail)"

definition covers_pair :: "pattern \<Rightarrow> pair \<Rightarrow> bool" where
  "covers_pair pat p \<longleftrightarrow> pair_to p = pat_placeholder pat \<and> strip_places (places pat) (pair_from p)"

definition shown :: "pattern \<Rightarrow> nat \<Rightarrow> string" where
  "shown pat len =
     (let ph = pat_placeholder pat; fill = (if ph = [] then CHR ''x'' else last ph)
      in ph @ replicate (len - length ph) fill)"

section \<open>A match at one place\<close>

datatype match_step = Full nat | Partial | Miss

text \<open>One form at one offset: the offsets after it, and whether the data ends inside it.\<close>

definition try_form :: "string \<Rightarrow> nat \<Rightarrow> string \<Rightarrow> nat list \<times> bool \<Rightarrow> nat list \<times> bool" where
  "try_form data offset form acc =
     (let rest = drop offset data; (ends, part) = acc
      in if length form \<le> length rest
         then (if take (length form) rest = form \<and> offset + length form \<notin> set ends
               then (ends @ [offset + length form], part) else (ends, part))
         else (ends, part \<or> starts_with form rest))"

definition try_place :: "string \<Rightarrow> string list \<Rightarrow> nat list \<Rightarrow> bool \<Rightarrow> nat list \<times> bool" where
  "try_place data forms offsets part =
     fold (\<lambda>offset. fold (try_form data offset) forms) offsets ([], part)"

fun match_places :: "string \<Rightarrow> bool \<Rightarrow> nat \<Rightarrow> string list list \<Rightarrow> nat list \<Rightarrow> bool \<Rightarrow> match_step" where
  "match_places data at_end start [] offsets part =
     (if part \<and> \<not> at_end then Partial else Full (fold max offsets 0 - start))"
| "match_places data at_end start (forms # rest) offsets part =
     (case try_place data forms offsets part of (ends, part') \<Rightarrow>
        if ends = [] then (if part' \<and> \<not> at_end then Partial else Miss)
        else match_places data at_end start rest ends part')"

definition match_at :: "pattern \<Rightarrow> string \<Rightarrow> nat \<Rightarrow> bool \<Rightarrow> match_step" where
  "match_at pat data start at_end =
     (case get data start of
        None \<Rightarrow> Miss
      | Some first \<Rightarrow>
          if \<not> list_ex (\<lambda>form. starts_with form [first]) (hd (places pat)) then Miss
          else match_places data at_end start (places pat) [start] False)"

section \<open>The replacer\<close>

record replacer =
  pairs :: "pair list"
  patterns :: "pattern list"
  pending :: string
  replaced :: bool

text \<open>
  The code panics for a pair of different lengths; a placeholder of the proxy has the length of its
  value (\<open>mint_placeholder\<close>), and an echo the length of its form.
\<close>

definition new_replacer :: "pair list \<Rightarrow> pattern list \<Rightarrow> replacer" where
  "new_replacer ps pats =
     \<lparr>pairs = filter (\<lambda>p. \<not> list_ex (\<lambda>pat. covers_pair pat p) pats) ps,
       patterns = pats, pending = [], replaced = False\<rparr>"

text \<open>The replacer of the proxy, from the real values and their placeholders.\<close>

definition proxy_replacer :: "(string \<times> string) list \<Rightarrow> replacer" where
  "proxy_replacer ps = new_replacer
     (map (\<lambda>(from, to). \<lparr>pair_from = from, pair_to = to\<rparr>) (filter (\<lambda>(from, to). from \<noteq> []) ps))
     (List.map_filter (\<lambda>(from, to). escaped from to) (rev ps))"

text \<open>\<open>max_by_key\<close>: the last one of the greatest.\<close>

definition later_longest :: "pair \<Rightarrow> pair option \<Rightarrow> pair option" where
  "later_longest p best = (case best of
       None \<Rightarrow> Some p
     | Some q \<Rightarrow> if length (pair_from q) \<le> length (pair_from p) then Some p else Some q)"

definition longest_pair :: "pair list \<Rightarrow> string \<Rightarrow> pair option" where
  "longest_pair ps rest =
     fold later_longest (filter (\<lambda>p. starts_with rest (pair_from p)) (rev ps)) None"

definition better_pattern ::
  "string \<Rightarrow> nat \<Rightarrow> bool \<Rightarrow> pattern \<Rightarrow> (nat \<times> string) option \<times> bool \<Rightarrow> (nat \<times> string) option \<times> bool" where
  "better_pattern data offset at_end pat acc = (case acc of (best, part) \<Rightarrow>
     (case match_at pat data offset at_end of
        Full len \<Rightarrow>
          if (case best of None \<Rightarrow> True | Some (old, _) \<Rightarrow> old < len)
          then (Some (len, shown pat len), part) else (best, part)
      | Partial \<Rightarrow> (best, True)
      | Miss \<Rightarrow> (best, part)))"

text \<open>What to do at an offset: the length with the new bytes, or wait for more data.\<close>

definition decide_at ::
  "replacer \<Rightarrow> bool \<Rightarrow> string \<Rightarrow> nat \<Rightarrow> (nat \<times> string) option \<times> bool" where
  "decide_at r at_end data offset =
     (let rest = drop offset data;
          best = map_option (\<lambda>p. (length (pair_from p), pair_to p)) (longest_pair (pairs r) rest);
          part = (\<not> at_end \<and> list_ex (\<lambda>p. length rest < length (pair_from p)
                    \<and> starts_with (pair_from p) rest) (pairs r))
      in fold (better_pattern data offset at_end) (patterns r) (best, part))"

text \<open>
  \<open>replace\<close> from an offset on. The third branch is where the code would not move (an empty match)
  or would panic (\<open>copy_from_slice\<close> of another length); no replacer of the proxy takes it
  (\<open>decide_fits\<close>).
\<close>

function replace_from :: "replacer \<Rightarrow> bool \<Rightarrow> nat \<Rightarrow> string \<Rightarrow> bool \<Rightarrow> string \<times> bool" where
  "replace_from r at_end offset data found =
     (if length data \<le> offset then (data, found)
      else (case decide_at r at_end data offset of
          (_, True) \<Rightarrow> (data, found)
        | (Some (len, new), False) \<Rightarrow>
            if len = 0 \<or> length new \<noteq> len \<or> length data < offset + len then (data, found)
            else replace_from r at_end (offset + len)
              (take offset data @ new @ drop (offset + len) data) True
        | (None, False) \<Rightarrow> replace_from r at_end (offset + 1) data found))"
  by pat_completeness auto
termination
  by (relation "measure (\<lambda>(_, _, offset, data, _). length data - offset)")
    (auto intro!: diff_less_mono2 simp: neq_Nil_conv)

declare replace_from.simps [simp del]

definition replace :: "replacer \<Rightarrow> bool \<Rightarrow> string \<Rightarrow> string \<times> bool" where
  "replace r at_end data = replace_from r at_end 0 data False"

definition replace_all :: "(string \<times> string) list \<Rightarrow> string \<Rightarrow> string \<times> bool" where
  "replace_all ps data = replace (proxy_replacer ps) True data"

definition pair_open :: "string \<Rightarrow> pair \<Rightarrow> nat" where
  "pair_open data p =
     (case List.find (\<lambda>k. drop (length data - k) data = take k (pair_from p))
         (rev [1..<min (length (pair_from p)) (length data + 1)]) of
        None \<Rightarrow> 0 | Some k \<Rightarrow> k)"

definition pattern_open :: "string \<Rightarrow> pattern \<Rightarrow> nat" where
  "pattern_open data pat =
     (case List.find (\<lambda>start. match_at pat data start False = Partial)
         [length data - max_len pat..<length data] of
        None \<Rightarrow> 0 | Some start \<Rightarrow> length data - start)"

definition open_end :: "replacer \<Rightarrow> string \<Rightarrow> nat" where
  "open_end r data =
     fold max (map (pair_open data) (pairs r) @ map (pattern_open data) (patterns r)) 0"

definition feed_replacer :: "string \<Rightarrow> replacer \<Rightarrow> string \<times> replacer" where
  "feed_replacer data r =
     (let (window, found) = replace r False (pending r @ data);
          split = length window - open_end r window
      in (take split window, r\<lparr>pending := drop split window, replaced := replaced r \<or> found\<rparr>))"

definition finish_replacer :: "replacer \<Rightarrow> string \<times> replacer" where
  "finish_replacer r =
     (let (rest, found) = replace r True (pending r)
      in (rest, r\<lparr>pending := [], replaced := replaced r \<or> found\<rparr>))"

section \<open>The forms of a query key\<close>

record echo =
  echo_sent :: string
  echo_shown :: string

definition unreserved :: "char \<Rightarrow> bool" where
  "unreserved b \<longleftrightarrow> is_ascii_alphanumeric b \<or> b \<in> set ''-._~''"

definition percent_encode :: "string \<Rightarrow> (nat \<Rightarrow> bool) \<Rightarrow> bool \<Rightarrow> string" where
  "percent_encode text escape_at upper = concat (map (\<lambda>(b, position).
     if unreserved b \<and> \<not> escape_at position then [b] else percent [b] upper)
     (zip text [0..<length text]))"

definition query_echoes :: "string \<Rightarrow> string \<Rightarrow> echo list option" where
  "query_echoes value placeholder =
     (if length value \<noteq> length placeholder then None
      else (let form = (\<lambda>upper. \<lparr>echo_sent = percent_encode value (\<lambda>_. False) upper,
                  echo_shown = percent_encode placeholder (\<lambda>i. \<not> unreserved (value ! i)) upper\<rparr>);
                up = form True; low = form False
            in if length (echo_sent up) \<noteq> length (echo_shown up) then None
               else if length (echo_sent low) \<noteq> length (echo_shown low) then None
               else Some (if echo_sent low = echo_sent up then [up] else [up, low])))"

section \<open>The copy of a response body\<close>

text \<open>The service, the program, and the mask between them.\<close>

record answer =
  service :: conn
  program :: sink
  mask :: replacer

definition pull_answer :: "nat \<Rightarrow> answer \<Rightarrow> (io_error + string) \<times> answer" where
  "pull_answer most st = (case read_some most (service st) of
       Inl e \<Rightarrow> (Inl e, st)
     | Inr (piece, c) \<Rightarrow> (Inr piece, st\<lparr>service := c\<rparr>))"

definition answer_line :: "answer \<Rightarrow> (io_error + string) \<times> answer" where
  "answer_line st = (case read_line (service st) of
       Inl e \<Rightarrow> (Inl e, st)
     | Inr (line, c) \<Rightarrow> (Inr line, st\<lparr>service := c\<rparr>))"

definition put_answer :: "string \<Rightarrow> answer \<Rightarrow> (io_error + unit) \<times> answer" where
  "put_answer data st = (case write_all data (program st) of
       (True, to) \<Rightarrow> (Inr (), st\<lparr>program := to\<rparr>)
     | (False, to) \<Rightarrow> (Inl StreamFailed, st\<lparr>program := to\<rparr>))"

text \<open>\<open>flush\<close> can fail as a write can.\<close>

definition flush :: "answer \<Rightarrow> (io_error + unit) \<times> answer" where
  "flush = put_answer []"

definition fed :: "string \<Rightarrow> answer \<Rightarrow> string \<times> answer" where
  "fed piece st = (let (out, m) = feed_replacer piece (mask st) in (out, st\<lparr>mask := m\<rparr>))"

definition finished :: "answer \<Rightarrow> string \<times> answer" where
  "finished st = (let (out, m) = finish_replacer (mask st) in (out, st\<lparr>mask := m\<rparr>))"

definition write_chunk :: "string \<times> answer \<Rightarrow> (io_error + unit) \<times> answer" where
  "write_chunk data_st = (let (data, st) = data_st
     in if data = [] then (Inr (), st)
        else and_do (put_answer (show_hex False (length data) @ CRLF) st) (\<lambda>_ st.
          and_do (put_answer data st) (\<lambda>_ st. and_do (put_answer CRLF st) (\<lambda>_. flush))))"

definition put_rest :: "answer \<Rightarrow> (io_error + unit) \<times> answer" where
  "put_rest st = (let (out, st') = finished st in put_answer out st')"

lemma pull_answer_Inr:
  "pull_answer most st = (Inr p, st') \<Longrightarrow> bytes_left (service st) = p @ bytes_left (service st')
     \<and> length p \<le> most \<and> program st' = program st \<and> mask st' = mask st"
  by (auto simp: pull_answer_def dest!: read_some_bytes split: sum.splits)

lemma answer_line_Inr:
  "answer_line st = (Inr l, st') \<Longrightarrow>
     length (bytes_left (service st')) < length (bytes_left (service st))"
  by (auto simp: answer_line_def dest!: read_line_split split_line_shorter split: sum.splits)

lemma put_answer_service: "put_answer data st = (r, st') \<Longrightarrow> service st' = service st"
  by (auto simp: put_answer_def split: prod.splits bool.splits)

lemma fed_service: "fed piece st = (out, st') \<Longrightarrow> service st' = service st"
  by (auto simp: fed_def Let_def split: prod.splits)

lemma write_chunk_service: "write_chunk (data, st) = (r, st') \<Longrightarrow> service st' = service st"
  by (auto simp: write_chunk_def flush_def and_do_def dest!: put_answer_service
      split: if_splits prod.splits sum.splits)

text \<open>A body with a length, one that ends with the connection, and one in chunks.\<close>

function answer_length :: "nat \<Rightarrow> answer \<Rightarrow> (io_error + unit) \<times> answer" where
  "answer_length left st =
     (if left = 0 then put_rest st
      else and_do (pull_answer left st) (\<lambda>piece st.
        if piece = [] then (Inl UnexpectedEof, st)
        else (let (out, st') = fed piece st
              in and_do (put_answer out st') (\<lambda>_ st. answer_length (left - length piece) st))))"
  by pat_completeness auto
termination
  by (relation "measure fst") (auto dest!: pull_answer_Inr)

declare answer_length.simps [simp del]

function answer_to_close :: "answer \<Rightarrow> (io_error + unit) \<times> answer" where
  "answer_to_close st = and_do (pull_answer READ_CHUNK st) (\<lambda>piece st.
     if piece = [] then put_rest st
     else (let (out, st') = fed piece st
           in and_do (put_answer out st') (\<lambda>_ st. and_do (flush st) (\<lambda>_ st. answer_to_close st))))"
  by pat_completeness auto
termination
  by (relation "measure (\<lambda>st. length (bytes_left (service st)))")
    (auto simp: flush_def dest!: pull_answer_Inr put_answer_service fed_service [OF sym])

declare answer_to_close.simps [simp del]

function answer_chunk :: "nat \<Rightarrow> answer \<Rightarrow> (io_error + unit) \<times> answer" where
  "answer_chunk left st =
     (if left = 0 then (Inr (), st)
      else and_do (pull_answer left st) (\<lambda>piece st.
        if piece = [] then (Inl UnexpectedEof, st)
        else and_do (write_chunk (fed piece st)) (\<lambda>_ st. answer_chunk (left - length piece) st)))"
  by pat_completeness auto
termination
  by (relation "measure fst") (auto dest!: pull_answer_Inr)

declare answer_chunk.simps [simp del]

lemma answer_chunk_left:
  "answer_chunk n st = (Inr u, st') \<Longrightarrow>
     length (bytes_left (service st')) \<le> length (bytes_left (service st))"
proof (induction n st arbitrary: st' rule: answer_chunk.induct)
  case (1 n st)
  show ?case
  proof (cases "n = 0")
    case True
    with 1(2) show ?thesis by (simp add: answer_chunk.simps)
  next
    case False
    with 1(2) obtain p st1 v st2 where s: "pull_answer n st = (Inr p, st1)" "p \<noteq> []"
        "write_chunk (fed p st1) = (Inr v, st2)" "answer_chunk (n - length p) st2 = (Inr u, st')"
      by (subst (asm) answer_chunk.simps) (auto simp: and_do_eq_Inr split: if_splits)
    have "service st2 = service st1"
      using s(3) fed_service [of p st1] write_chunk_service by (metis prod.collapse)
    then show ?thesis
      using 1(1) [OF False s(1,2,3) s(4)] pull_answer_Inr [OF s(1)] by simp
  qed
qed

function answer_trailers :: "answer \<Rightarrow> (io_error + unit) \<times> answer" where
  "answer_trailers st = and_do (answer_line st) (\<lambda>trailer st.
     (let (out, found) = replace (mask st) True trailer;
          st' = st\<lparr>mask := (mask st)\<lparr>replaced := replaced (mask st) \<or> found\<rparr>\<rparr>
      in and_do (put_answer out st') (\<lambda>_ st. if out = CRLF then (Inr (), st) else answer_trailers st)))"
  by pat_completeness auto
termination
  by (relation "measure (\<lambda>st. length (bytes_left (service st)))")
    (auto dest!: answer_line_Inr put_answer_service)

declare answer_trailers.simps [simp del]

function answer_chunks :: "answer \<Rightarrow> (io_error + unit) \<times> answer" where
  "answer_chunks st = and_do (answer_line st) (\<lambda>line st.
     (case chunk_size line of
        None \<Rightarrow> (Inl InvalidData, st)
      | Some n \<Rightarrow>
          if n = 0 then and_do (write_chunk (finished st)) (\<lambda>_ st.
            and_do (put_answer (CHR ''0'' # CRLF) st) (\<lambda>_. answer_trailers))
          else and_do (answer_chunk n st) (\<lambda>_ st. and_do (answer_line st) (\<lambda>end_line st.
            if end_line \<noteq> CRLF then (Inl InvalidData, st) else answer_chunks st))))"
  by pat_completeness auto
termination
  by (relation "measure (\<lambda>st. length (bytes_left (service st)))")
    (auto dest!: answer_line_Inr answer_chunk_left)

declare answer_chunks.simps [simp del]

definition copy_response_body :: "body_len \<Rightarrow> answer \<Rightarrow> (io_error + unit) \<times> answer" where
  "copy_response_body len st = (case len of
       NoBody \<Rightarrow> (Inr (), st)
     | Length left \<Rightarrow> answer_length left st
     | UntilClose \<Rightarrow> answer_to_close st
     | Chunked \<Rightarrow> answer_chunks st)"

end
