(* ===== verification/ProxySwap.thy ===== *)
theory ProxySwap
  imports ProxyEcho
begin

text \<open>
  Placeholders and the swap rules of the run proxy (src/src/broker/proxy/swap.rs, the host rule of
  mod.rs and its parser in src/src/vault/agents.rs): how a placeholder is made, for which hosts a
  real value is, and how a request head gets real values in its auth positions only.
\<close>

section \<open>Host rules\<close>

text \<open>\<open>rsplit_once(c)\<close>.\<close>

definition rsplit_char :: "char \<Rightarrow> string \<Rightarrow> (string \<times> string) option" where
  "rsplit_char c s = map_option (\<lambda>(a, b). (rev b, rev a)) (split_once c (rev s))"

record host_rule =
  rule_host :: string
  rule_port :: nat

definition placeholder_port :: "string \<Rightarrow> nat option" where
  "placeholder_port port =
     Option.bind (parse_number 10 65535 port) (\<lambda>p. if p \<noteq> 0 then Some p else None)"

definition rule_host_ok :: "string \<Rightarrow> bool" where
  "rule_host_ok host \<longleftrightarrow>
     host \<noteq> [] \<and> length host \<le> 253 \<and> hd host \<notin> set ''.-'' \<and> last host \<notin> set ''.-''
     \<and> \<not> contains_sub host ''..''
     \<and> list_all (\<lambda>b. is_ascii_lower b \<or> is_ascii_digit b \<or> b = CHR ''.'' \<or> b = CHR ''-'') host"

definition parse_placeholder_host :: "string \<Rightarrow> (string \<times> nat) option" where
  "parse_placeholder_host text =
     (let text = trim text
      in Option.bind (case rsplit_char CHR '':'' text of
             Some (host, port) \<Rightarrow> map_option (Pair host) (placeholder_port port)
           | None \<Rightarrow> Some (text, 443))
           (\<lambda>(host, port). if rule_host_ok host then Some (host, port) else None))"

definition HOST_ERROR :: string where
  "HOST_ERROR = ''A host is a lowercase name such as api.example.com, with an optional port.''"

definition parse_rule :: "string \<Rightarrow> string + host_rule" where
  "parse_rule text =
     and_then (ok_or HOST_ERROR (parse_placeholder_host text))
       (\<lambda>(host, port). Inr \<lparr>rule_host = host, rule_port = port\<rparr>)"

definition rule_covers :: "host_rule \<Rightarrow> string \<Rightarrow> nat \<Rightarrow> bool" where
  "rule_covers rule host port \<longleftrightarrow>
     port = rule_port rule
     \<and> (host = rule_host rule
        \<or> (case strip_suffix host (rule_host rule) of
             None \<Rightarrow> False
           | Some head \<Rightarrow> ends_with head ''.''))"

definition show_rule :: "host_rule \<Rightarrow> string" where
  "show_rule rule =
     (if rule_port rule = 443 then rule_host rule
      else rule_host rule @ '':'' @ show_nat (rule_port rule))"

section \<open>Placeholders\<close>

definition KNOWN_PREFIXES :: "string list" where
  "KNOWN_PREFIXES =
     [''sk_live_'', ''sk_test_'', ''rk_live_'', ''rk_test_'', ''pk_live_'', ''pk_test_'',
      ''whsec_'', ''ghp_'', ''gho_'', ''ghu_'', ''ghs_'', ''ghr_'', ''github_pat_'',
      ''glpat-'', ''xoxb-'', ''xoxp-'', ''xoxa-'', ''xapp-'', ''sk-ant-api03-'',
      ''sk-ant-admin01-'', ''sk-ant-'', ''sk-proj-'', ''sk-svcacct-'', ''sk-'', ''npm_'',
      ''hf_'', ''dop_v1_'', ''pypi-'', ''shpat_'', ''shpss_'', ''lin_api_'', ''secret_'',
      ''ntn_'', ''sq0atp-'', ''sq0csp-'', ''SG.'', ''AKIA'', ''ASIA'', ''re_'', ''vercel_'']"

definition SEPARATORS :: string where
  "SEPARATORS = ''-_.=''"

definition MIN_RANDOM_CENTIBITS :: nat where
  "MIN_RANDOM_CENTIBITS = 6400"

definition KEY_HEADERS :: "string list" where
  "KEY_HEADERS =
     [''x-api-key'', ''api-key'', ''apikey'', ''x-auth-token'', ''x-api-token'',
      ''x-access-token'', ''private-token'', ''x-goog-api-key'', ''x-figma-token'']"

definition KEY_PARAMS :: "string list" where
  "KEY_PARAMS =
     [''key'', ''api_key'', ''apikey'', ''api-key'', ''access_token'', ''token'', ''auth'']"

datatype alphabet = Digits | HexLower | HexUpper | Alnum

fun alphabet_chars :: "alphabet \<Rightarrow> string" where
  "alphabet_chars Digits = ''0123456789''"
| "alphabet_chars HexLower = ''0123456789abcdef''"
| "alphabet_chars HexUpper = ''0123456789ABCDEF''"
| "alphabet_chars Alnum = ''ABCDEFGHIJKLMNOPQRSTUVWXYZabcdefghijklmnopqrstuvwxyz0123456789''"

fun centibits :: "alphabet \<Rightarrow> nat" where
  "centibits Digits = 332"
| "centibits HexLower = 400"
| "centibits HexUpper = 400"
| "centibits Alnum = 595"

definition alphabet_of :: "string \<Rightarrow> alphabet" where
  "alphabet_of rest =
     (let body = filter (\<lambda>b. b \<notin> set SEPARATORS) rest
      in if list_all is_ascii_digit body then Digits
         else if list_all (\<lambda>b. is_ascii_digit b \<or> (97 \<le> byte b \<and> byte b \<le> 102)) body then HexLower
         else if list_all (\<lambda>b. is_ascii_digit b \<or> (65 \<le> byte b \<and> byte b \<le> 70)) body then HexUpper
         else Alnum)"

text \<open>\<open>max_by_key\<close> gives the last one of the longest prefixes.\<close>

definition prefix_of :: "string \<Rightarrow> string" where
  "prefix_of value =
     fold (\<lambda>p best. if length best \<le> length p then p else best)
       (filter (\<lambda>p. length p < length value \<and> starts_with value p) KNOWN_PREFIXES) []"

text \<open>
  The random source is the list of the blocks of 64 bytes that it gives, \<open>None\<close> for a failure; a
  block is used from its end. After the list the source fails.
\<close>

record random_pool =
  pool :: "nat list"
  blocks :: "nat list option list"

function random_below :: "nat \<Rightarrow> random_pool \<Rightarrow> (nat \<times> random_pool) option" where
  "random_below n r =
     (if n = 0 \<or> 255 < n then None
      else let limit = 255 - 255 mod n
           in case pool r of
                [] \<Rightarrow> (case blocks r of
                    Some (b # bs) # more_blocks \<Rightarrow>
                      random_below n \<lparr>pool = b # bs, blocks = more_blocks\<rparr>
                  | _ \<Rightarrow> None)
              | _ # _ \<Rightarrow>
                  (let b = last (pool r); r' = r\<lparr>pool := butlast (pool r)\<rparr>
                   in if b < limit then Some (b mod n, r') else random_below n r'))"
  by pat_completeness auto
termination
  by (relation "measure (\<lambda>(_, r). length (pool r) + sum_list (map (case_option 0 (\<lambda>b. length b + 1)) (blocks r)))")
    (auto simp: Let_def)

declare random_below.simps [simp del]

fun mint_rest :: "string \<Rightarrow> string \<Rightarrow> random_pool \<Rightarrow> (string \<times> random_pool) option" where
  "mint_rest letters [] r = Some ([], r)"
| "mint_rest letters (b # rest) r =
     (if b \<in> set SEPARATORS
      then map_option (\<lambda>(out, r). (b # out, r)) (mint_rest letters rest r)
      else Option.bind (random_below (length letters) r) (\<lambda>(i, r).
        map_option (\<lambda>(out, r). (letters ! i # out, r)) (mint_rest letters rest r)))"

definition random_left :: "random_pool \<Rightarrow> nat" where
  "random_left r = length (pool r) + sum_list (map (case_option 0 (\<lambda>b. length b + 1)) (blocks r))"

lemma random_below_uses:
  "random_below n r = Some (i, r') \<Longrightarrow> random_left r' < random_left r \<and> i < n"
proof (induction n r rule: random_below.induct)
  case (1 n r)
  then show ?case
    by (subst (asm) (3) random_below.simps)
      (fastforce simp: Let_def random_left_def split: if_splits list.splits option.splits)
qed

lemma mint_rest_uses:
  "mint_rest letters rest r = Some (out, r') \<Longrightarrow> random_left r' \<le> random_left r
     \<and> (list_ex (\<lambda>b. b \<notin> set SEPARATORS) rest \<longrightarrow> random_left r' < random_left r)"
proof (induction rest arbitrary: r out)
  case (Cons b rest)
  then show ?case
    by (fastforce dest!: random_below_uses split: if_splits option.splits bind_splits)
qed simp

text \<open>
  The loop until the placeholder differs from the value. A rest of separators only, with which it
  would not end, has no random bits and was refused before.
\<close>

function mint_until :: "string \<Rightarrow> string \<Rightarrow> string \<Rightarrow> string \<Rightarrow> random_pool \<Rightarrow> string option" where
  "mint_until value prefix rest letters r =
     (if \<not> list_ex (\<lambda>b. b \<notin> set SEPARATORS) rest then None
      else (case mint_rest letters rest r of
          None \<Rightarrow> None
        | Some (out, r') \<Rightarrow>
            if prefix @ out \<noteq> value then Some (prefix @ out)
            else mint_until value prefix rest letters r'))"
  by pat_completeness auto
termination
  by (relation "measure (\<lambda>(_, _, _, _, r). random_left r)") (auto dest!: mint_rest_uses)

declare mint_until.simps [simp del]

definition U32_MAX :: nat where
  "U32_MAX = 2 ^ 32 - 1"

definition mint_placeholder :: "string \<Rightarrow> random_pool \<Rightarrow> string option" where
  "mint_placeholder value r =
     (let prefix = prefix_of value;
          rest = drop (length prefix) value;
          alphabet = alphabet_of rest;
          places = length (filter (\<lambda>b. b \<notin> set SEPARATORS) rest)
      in if U32_MAX < places then None
         else if min U32_MAX (places * centibits alphabet) < MIN_RANDOM_CENTIBITS then None
         else mint_until value prefix rest (alphabet_chars alphabet) r)"

section \<open>The swap of a request head\<close>

record swap_secret =
  secret_placeholder :: string
  secret_value :: string
  secret_hosts :: "host_rule list"

datatype refusal = Misplaced nat string | WrongHost nat

text \<open>What a request took so far: the secrets, and the forms of their values in it.\<close>

record taking =
  used :: "nat list"
  echoes :: "(string \<times> string) list"

record swapped =
  sw_head :: string
  sw_used :: "nat list"
  sw_echoes :: "(string \<times> string) list"

type_synonym 'a swap_step = "taking \<Rightarrow> (refusal + 'a) \<times> taking"

definition dropped_header :: "string \<Rightarrow> bool" where
  "dropped_header lower \<longleftrightarrow>
     lower \<in> set [''proxy-authorization'', ''proxy-connection'', ''accept-encoding'', ''expect'', ''te'']"

definition take_secret :: "swap_secret list \<Rightarrow> string \<Rightarrow> nat \<Rightarrow> nat \<Rightarrow> unit swap_step" where
  "take_secret secrets host port index st =
     (if \<not> list_ex (\<lambda>rule. rule_covers rule host port) (secret_hosts (secrets ! index))
      then (Inl (WrongHost index), st)
      else (Inr (), if index \<in> set (used st) then st else st\<lparr>used := used st @ [index]\<rparr>))"

definition find_placeholder :: "string \<Rightarrow> swap_secret list \<Rightarrow> nat option" where
  "find_placeholder text = position (\<lambda>s. contains_sub text (secret_placeholder s))"

definition exact_placeholder :: "string \<Rightarrow> swap_secret list \<Rightarrow> nat option" where
  "exact_placeholder text = position (\<lambda>s. text = secret_placeholder s)"

text \<open>One half of the Basic credentials: the value of its placeholder, or the text itself.\<close>

definition swap_half ::
  "swap_secret list \<Rightarrow> (nat \<Rightarrow> unit swap_step) \<Rightarrow> string \<Rightarrow> string swap_step" where
  "swap_half secrets take_it text st = (case exact_placeholder text secrets of
       None \<Rightarrow> (Inr text, st)
     | Some index \<Rightarrow> and_do (take_it index st) (\<lambda>_ st. (Inr (secret_value (secrets ! index)), st)))"

definition add_echo :: "string \<Rightarrow> string \<Rightarrow> taking \<Rightarrow> taking" where
  "add_echo encoded visible st =
     (if length visible = length encoded \<and> visible \<noteq> encoded
      then st\<lparr>echoes := echoes st @ [(encoded, visible)]\<rparr> else st)"

definition swap_credentials ::
  "string \<Rightarrow> string \<Rightarrow> swap_secret list \<Rightarrow> (nat \<Rightarrow> unit swap_step) \<Rightarrow> string option swap_step" where
  "swap_credentials scheme text secrets take_it st = (case split_once CHR '':'' text of
       None \<Rightarrow> (Inr None, st)
     | Some (user, password) \<Rightarrow>
         if exact_placeholder user secrets = None \<and> exact_placeholder password secrets = None
         then (case find_placeholder text secrets of
             Some index \<Rightarrow> (Inl (Misplaced index ''a part of the Basic credentials''), st)
           | None \<Rightarrow> (Inr None, st))
         else and_do (swap_half secrets take_it user st) (\<lambda>user st.
           and_do (swap_half secrets take_it password st) (\<lambda>password st.
             let encoded = encode (user @ '':'' @ password); visible = encode text
             in (Inr (Some (scheme @ '' '' @ encoded)), add_echo encoded visible st))))"

definition swap_basic ::
  "string \<Rightarrow> string \<Rightarrow> swap_secret list \<Rightarrow> (nat \<Rightarrow> unit swap_step) \<Rightarrow> string option swap_step" where
  "swap_basic scheme credentials secrets take_it st = (case decode credentials of
       None \<Rightarrow> (Inr None, st)
     | Some text \<Rightarrow>
         if \<not> valid_utf8 text then (Inr None, st)
         else swap_credentials scheme text secrets take_it st)"

definition swap_authorization ::
  "string \<Rightarrow> swap_secret list \<Rightarrow> (nat \<Rightarrow> unit swap_step) \<Rightarrow> string option swap_step" where
  "swap_authorization value secrets take_it st = (case exact_placeholder value secrets of
       Some index \<Rightarrow>
         and_do (take_it index st) (\<lambda>_ st. (Inr (Some (secret_value (secrets ! index))), st))
     | None \<Rightarrow> (case split_once CHR '' '' value of
         None \<Rightarrow> (Inr None, st)
       | Some (scheme, credentials) \<Rightarrow>
           let credentials = trim credentials
           in if eq_ignore_ascii_case scheme ''basic''
              then swap_basic scheme credentials secrets take_it st
              else (case exact_placeholder credentials secrets of
                  Some index \<Rightarrow> and_do (take_it index st) (\<lambda>_ st.
                    (Inr (Some (scheme @ '' '' @ secret_value (secrets ! index))), st))
                | None \<Rightarrow> (Inr None, st))))"

definition swap_key_header ::
  "string \<Rightarrow> swap_secret list \<Rightarrow> (nat \<Rightarrow> unit swap_step) \<Rightarrow> string option swap_step" where
  "swap_key_header value secrets take_it st = (case exact_placeholder value secrets of
       Some index \<Rightarrow>
         and_do (take_it index st) (\<lambda>_ st. (Inr (Some (secret_value (secrets ! index))), st))
     | None \<Rightarrow> swap_authorization value secrets take_it st)"

definition hex :: "char \<Rightarrow> nat option" where
  "hex = hex_digit"

text \<open>The byte of a percent escape at the start of a text, and the rest.\<close>

definition percent_escape :: "string \<Rightarrow> (char \<times> string) option" where
  "percent_escape s =
     (if 2 < length s \<and> hd s = CHR ''%''
      then (case (hex (s ! 1), hex (s ! 2)) of
          (Some high, Some low) \<Rightarrow> Some (char_of (high * 16 + low), drop 3 s)
        | _ \<Rightarrow> None)
      else None)"

function percent_bytes :: "string \<Rightarrow> string" where
  "percent_bytes [] = []"
| "percent_bytes (c # rest) = (case percent_escape (c # rest) of
       Some (b, after) \<Rightarrow> b # percent_bytes after
     | None \<Rightarrow> (if c = CHR ''+'' then CHR '' '' else c) # percent_bytes rest)"
  by pat_completeness auto
termination
  by (relation "measure length")
    (auto simp: percent_escape_def split: if_splits option.splits prod.splits)

definition percent_decode :: "string \<Rightarrow> string" where
  "percent_decode text = from_utf8_lossy (percent_bytes text)"

definition NO_QUERY_ECHO :: string where
  "NO_QUERY_ECHO = ''a query key without an equal-length encoded placeholder''"

text \<open>One \<open>name=value\<close> of the query.\<close>

definition swap_param ::
  "string \<Rightarrow> swap_secret list \<Rightarrow> (nat \<Rightarrow> unit swap_step) \<Rightarrow> string swap_step" where
  "swap_param param secrets take_it st =
     (let (name, value) = (case split_once CHR ''='' param of None \<Rightarrow> (param, []) | Some p \<Rightarrow> p);
          decoded = percent_decode value;
          name_lower = to_ascii_lowercase (percent_decode name);
          exact = exact_placeholder decoded secrets
      in if exact \<noteq> None \<and> name_lower \<in> set KEY_PARAMS
         then (let index = the exact; secret = secrets ! index
               in and_do (take_it index st) (\<lambda>_ st.
                 case query_echoes (secret_value secret) (secret_placeholder secret) of
                   None \<Rightarrow> (Inl (Misplaced index NO_QUERY_ECHO), st)
                 | Some es \<Rightarrow> (Inr (name @ ''='' @ echo_sent (hd es)),
                     st\<lparr>echoes := echoes st @ map (\<lambda>e. (echo_sent e, echo_shown e)) es\<rparr>)))
         else (case (case find_placeholder param secrets of
                 None \<Rightarrow> find_placeholder decoded secrets | Some i \<Rightarrow> Some i) of
             Some index \<Rightarrow> (Inl (Misplaced index (''the query parameter '' @ name)), st)
           | None \<Rightarrow> (Inr param, st)))"

fun swap_params ::
  "string list \<Rightarrow> swap_secret list \<Rightarrow> (nat \<Rightarrow> unit swap_step) \<Rightarrow> string list swap_step" where
  "swap_params [] secrets take_it st = (Inr [], st)"
| "swap_params (p # ps) secrets take_it st =
     and_do (swap_param p secrets take_it st) (\<lambda>q st.
       and_do (swap_params ps secrets take_it st) (\<lambda>qs st. (Inr (q # qs), st)))"

definition swap_target ::
  "string \<Rightarrow> swap_secret list \<Rightarrow> (nat \<Rightarrow> unit swap_step) \<Rightarrow> string swap_step" where
  "swap_target target secrets take_it st =
     (let (path, query) = (case split_once CHR ''?'' target of
            Some (path, query) \<Rightarrow> (path, Some query) | None \<Rightarrow> (target, None))
      in case (case find_placeholder path secrets of
              None \<Rightarrow> find_placeholder (percent_decode path) secrets | Some i \<Rightarrow> Some i) of
           Some index \<Rightarrow> (Inl (Misplaced index ''the URL path''), st)
         | None \<Rightarrow> (case query of
             None \<Rightarrow> (Inr path, st)
           | Some q \<Rightarrow> and_do (swap_params (split_on CHR ''&'' q) secrets take_it st) (\<lambda>ps st.
               (Inr (path @ ''?'' @ join_with ''&'' ps), st))))"

text \<open>One header: \<open>None\<close> for a header that the proxy removes.\<close>

definition swap_header ::
  "string \<times> string \<Rightarrow> swap_secret list \<Rightarrow> (nat \<Rightarrow> unit swap_step)
     \<Rightarrow> (string \<times> string) option swap_step" where
  "swap_header h secrets take_it st =
     (let (name, value) = h; lower = to_ascii_lowercase name
      in if dropped_header lower then (Inr None, st)
         else and_do
           (if lower = ''authorization'' then swap_authorization value secrets take_it st
            else if lower \<in> set KEY_HEADERS then swap_key_header value secrets take_it st
            else (Inr None, st))
           (\<lambda>swapped st. case swapped of
              Some value \<Rightarrow> (Inr (Some (name, value)), st)
            | None \<Rightarrow> (case find_placeholder value secrets of
                Some index \<Rightarrow> (Inl (Misplaced index (''the '' @ name @ '' header'')), st)
              | None \<Rightarrow> (Inr (Some (name, value)), st))))"

fun swap_headers ::
  "(string \<times> string) list \<Rightarrow> swap_secret list \<Rightarrow> (nat \<Rightarrow> unit swap_step)
     \<Rightarrow> (string \<times> string) list swap_step" where
  "swap_headers [] secrets take_it st = (Inr [], st)"
| "swap_headers (h # hs) secrets take_it st =
     and_do (swap_header h secrets take_it st) (\<lambda>out st.
       and_do (swap_headers hs secrets take_it st) (\<lambda>outs st.
         (Inr (case out of None \<Rightarrow> outs | Some h \<Rightarrow> h # outs), st)))"

definition write_head :: "string \<Rightarrow> string \<Rightarrow> (string \<times> string) list \<Rightarrow> string" where
  "write_head method target headers =
     method @ '' '' @ target @ '' HTTP/1.1'' @ CRLF
     @ concat (map (\<lambda>(name, value). name @ '': '' @ value @ CRLF) headers) @ CRLF"

definition swap_request ::
  "request_head \<Rightarrow> string \<Rightarrow> nat \<Rightarrow> swap_secret list \<Rightarrow> refusal + swapped" where
  "swap_request head host port secrets =
     (let take_it = take_secret secrets host port
      in fst (and_do (swap_target (rh_target head) secrets take_it \<lparr>used = [], echoes = []\<rparr>)
        (\<lambda>target st. and_do (swap_headers (rh_headers head) secrets take_it st) (\<lambda>headers st.
           (Inr \<lparr>sw_head = write_head (rh_method head) target headers,
              sw_used = used st, sw_echoes = echoes st\<rparr>, st)))))"

end
