(* ===== verification/ProxyServe.thy ===== *)
theory ProxyServe
  imports ProxySwap "HOL-Library.Word"
begin

text \<open>
  The decisions of the run proxy before a byte goes to a service (src/src/broker/proxy/engine.rs,
  public_addr.rs, the events of mod.rs and the handshake of ws.rs): the password of a connection,
  CONNECT and plain requests, the addresses of a host, and what a request on an intercepted
  connection must be to be sent with real values. TCP, TLS and the name lookup are outside; the
  lookup and the scoped access consent are arguments.
\<close>

unbundle bit_operations_syntax

section \<open>Public addresses\<close>

datatype ip_addr =
    V4 "8 word" "8 word" "8 word" "8 word"
  | V6 "16 word list"

definition is_public_v4 :: "8 word \<Rightarrow> 8 word \<Rightarrow> 8 word \<Rightarrow> 8 word \<Rightarrow> bool" where
  "is_public_v4 a b c d \<longleftrightarrow> \<not>
     ((a = 0 \<and> b = 0 \<and> c = 0 \<and> d = 0)
      \<or> a = 127
      \<or> a = 10 \<or> (a = 172 \<and> 16 \<le> b \<and> b \<le> 31) \<or> (a = 192 \<and> b = 168)
      \<or> (a = 169 \<and> b = 254)
      \<or> (a = 255 \<and> b = 255 \<and> c = 255 \<and> d = 255)
      \<or> (224 \<le> a \<and> a \<le> 239)
      \<or> (a = 192 \<and> b = 0 \<and> c = 2) \<or> (a = 198 \<and> b = 51 \<and> c = 100) \<or> (a = 203 \<and> b = 0 \<and> c = 113)
      \<or> a = 0
      \<or> (a = 100 \<and> 64 \<le> b \<and> b \<le> 127)
      \<or> (a = 192 \<and> b = 0 \<and> c = 0)
      \<or> (a = 198 \<and> 18 \<le> b \<and> b \<le> 19)
      \<or> 240 \<le> a)"

definition public_words :: "16 word \<Rightarrow> 16 word \<Rightarrow> bool" where
  "public_words hi lo =
     is_public_v4 (ucast (drop_bit 8 hi)) (ucast hi) (ucast (drop_bit 8 lo)) (ucast lo)"

definition is_public_v6 :: "16 word list \<Rightarrow> bool" where
  "is_public_v6 s \<longleftrightarrow>
     (if take 6 s = [0, 0, 0, 0, 0, 0xFFFF] then public_words (s ! 6) (s ! 7)
      else if take 6 s = [0x64, 0xFF9B, 0, 0, 0, 0] then public_words (s ! 6) (s ! 7)
      else \<not> (s = replicate 8 0
        \<or> s = replicate 7 0 @ [1]
        \<or> s ! 0 AND 0xFF00 = 0xFF00
        \<or> s ! 0 AND 0xFE00 = 0xFC00
        \<or> s ! 0 AND 0xFFC0 = 0xFE80
        \<or> s ! 0 AND 0xFFC0 = 0xFEC0
        \<or> (s ! 0 = 0x2001 \<and> s ! 1 = 0x0DB8)
        \<or> (s ! 0 = 0x2001 \<and> s ! 1 = 0)
        \<or> s ! 0 = 0x2002
        \<or> (s ! 0 = 0x64 \<and> s ! 1 = 0xFF9B \<and> s ! 2 = 1)
        \<or> take 6 s = [0, 0, 0, 0, 0, 0]
        \<or> take 6 s = [0, 0, 0, 0, 0xFFFF, 0]))"

definition is_public_ip :: "ip_addr \<Rightarrow> bool" where
  "is_public_ip ip = (case ip of V4 a b c d \<Rightarrow> is_public_v4 a b c d | V6 s \<Rightarrow> is_public_v6 s)"

type_synonym sock_addr = "ip_addr \<times> nat"

datatype upstream_policy = AnyAddress | PublicOnly "(string \<times> sock_addr) list"

datatype address_error = LookupFailed | NoPublicAddress

text \<open>\<open>lookup\<close> is the name lookup of the system.\<close>

definition addresses ::
  "(string \<Rightarrow> nat \<Rightarrow> sock_addr list option) \<Rightarrow> upstream_policy \<Rightarrow> string \<Rightarrow> nat
     \<Rightarrow> address_error + sock_addr list" where
  "addresses lookup policy host port = (case policy of
       AnyAddress \<Rightarrow> ok_or LookupFailed (lookup host port)
     | PublicOnly fixed \<Rightarrow> (case List.find (\<lambda>(name, _). name = host) fixed of
         Some (_, addr) \<Rightarrow> Inr [addr]
       | None \<Rightarrow> and_then (ok_or LookupFailed (lookup host port)) (\<lambda>found.
           let allowed = filter (\<lambda>addr. is_public_ip (fst addr)) found
           in if allowed = [] then Inl NoPublicAddress else Inr allowed)))"

section \<open>The engine\<close>

record proxy_secret =
  px_name :: string
  px_placeholder :: string
  px_value :: string
  px_hosts :: "host_rule list"

datatype other_hosts = TunnelOthers | RefuseOthers

record core =
  core_secrets :: "proxy_secret list"
  core_others :: other_hosts
  core_upstream :: upstream_policy

definition swap_secrets :: "core \<Rightarrow> swap_secret list" where
  "swap_secrets core = map (\<lambda>s. \<lparr>secret_placeholder = px_placeholder s, secret_value = px_value s,
     secret_hosts = px_hosts s\<rparr>) (core_secrets core)"

definition core_hosts :: "core \<Rightarrow> string list" where
  "core_hosts core = sort_dedup (concat (map (\<lambda>s. map rule_host (px_hosts s)) (core_secrets core)))"

definition is_secret_host :: "core \<Rightarrow> string \<Rightarrow> nat \<Rightarrow> bool" where
  "is_secret_host core host port \<longleftrightarrow>
     list_ex (\<lambda>s. list_ex (\<lambda>rule. rule_covers rule host port) (px_hosts s)) (core_secrets core)"

definition px_name_at :: "core \<Rightarrow> nat \<Rightarrow> string" where
  "px_name_at core index =
     (case get (core_secrets core) index of None \<Rightarrow> ''a secret'' | Some s \<Rightarrow> px_name s)"

definition refusal_text :: "core \<Rightarrow> refusal \<Rightarrow> string \<Rightarrow> string" where
  "refusal_text core refusal host = (case refusal of
       WrongHost index \<Rightarrow>
         (let hosts = map show_rule (px_hosts (core_secrets core ! index)); name = px_name_at core index
          in if hosts = [] then name @ '' has no host for its real value.''
             else name @ '' is only for '' @ join_with '', '' hosts @ ''. The request went to ''
               @ host @ ''.'')
     | Misplaced index place \<Rightarrow>
         ''The request has the placeholder of '' @ px_name_at core index @ '' in '' @ place
         @ ''. Apassy puts a real value only into the Authorization header, a known API key header, ''
         @ ''or a known key parameter.'')"

subsection \<open>Events\<close>

datatype outcome = Swapped | Passed | Tunneled | RefusedOutcome | FailedOutcome

record proxy_event =
  ev_host :: string
  ev_port :: nat
  ev_method :: "string option"
  ev_path :: "string option"
  ev_status :: "nat option"
  ev_outcome :: outcome
  ev_secrets :: "string list"
  ev_reason :: "string option"

definition MAX_EVENTS :: nat where
  "MAX_EVENTS = 200"

definition MAX_PATH_CHARS :: nat where
  "MAX_PATH_CHARS = 120"

definition new_event :: "string \<Rightarrow> nat \<Rightarrow> outcome \<Rightarrow> proxy_event" where
  "new_event host port res = \<lparr>ev_host = host, ev_port = port, ev_method = None, ev_path = None,
     ev_status = None, ev_outcome = res, ev_secrets = [], ev_reason = None\<rparr>"

text \<open>\<open>str::replace\<close> of a text that is not empty.\<close>

function replace_text :: "string \<Rightarrow> string \<Rightarrow> string \<Rightarrow> string" where
  "replace_text w m [] = []"
| "replace_text w m (c # cs) =
     (if w \<noteq> [] \<and> starts_with (c # cs) w then m @ replace_text w m (drop (length w) (c # cs))
      else c # replace_text w m cs)"
  by pat_completeness auto
termination
  by (relation "measure (\<lambda>(_, _, s). length s)") (auto simp: neq_Nil_conv)

definition event_path :: "string \<Rightarrow> proxy_secret list \<Rightarrow> string" where
  "event_path target secrets =
     (let path = fold (\<lambda>s path. if contains_sub path (px_placeholder s)
            then replace_text (px_placeholder s) (''[apassy:'' @ px_name s @ '']'') path else path)
          secrets (hd (split_on CHR ''?'' target))
      in concat (take MAX_PATH_CHARS (chars path)))"

definition for_request :: "string \<Rightarrow> nat \<Rightarrow> request_head \<Rightarrow> proxy_secret list \<Rightarrow> proxy_event" where
  "for_request host port request secrets =
     (new_event host port Passed)\<lparr>ev_method := Some (rh_method request),
        ev_path := Some (event_path (rh_target request) secrets)\<rparr>"

definition with_reason :: "proxy_event \<Rightarrow> outcome \<Rightarrow> string \<Rightarrow> proxy_event" where
  "with_reason ev res reason = ev\<lparr>ev_outcome := res, ev_reason := Some reason\<rparr>"

definition erase_details :: "proxy_event \<Rightarrow> proxy_event" where
  "erase_details ev = ev\<lparr>ev_host := [], ev_method := None, ev_path := None, ev_reason := None,
     ev_secrets := []\<rparr>"

definition record_event :: "bool \<Rightarrow> proxy_event \<Rightarrow> proxy_event list \<Rightarrow> proxy_event list" where
  "record_event omit_details ev events =
     (let ev = (if omit_details then erase_details ev else ev)
      in if length events < MAX_EVENTS then events @ [ev] else events)"

section \<open>The first request of a connection\<close>

definition PROXY_USER :: string where
  "PROXY_USER = ''apassy''"

definition MAX_AUTH_TRIES :: nat where
  "MAX_AUTH_TRIES = 3"

datatype auth = Password string | Checked

definition expected_header :: "auth \<Rightarrow> string option" where
  "expected_header a = (case a of
       Password password \<Rightarrow> Some (''Basic '' @ encode (PROXY_USER @ '':'' @ password))
     | Checked \<Rightarrow> None)"

definition same_bytes :: "string \<Rightarrow> string \<Rightarrow> bool" where
  "same_bytes a b \<longleftrightarrow> length a = length b
     \<and> fold (\<lambda>(x, y) acc. acc OR ((of_char x :: 8 word) XOR of_char y)) (zip a b) 0 = 0"

definition authorized :: "request_head \<Rightarrow> string \<Rightarrow> bool" where
  "authorized request expected =
     (case header (rh_headers request) ''proxy-authorization'' of
        None \<Rightarrow> False | Some given \<Rightarrow> same_bytes given expected)"

text \<open>What the loop of \<open>serve\<close> does: it goes away, answers 400, or serves a request.\<close>

datatype served = Away | BadRequest string | Serve request_head conn

fun serve_tries ::
  "nat \<Rightarrow> (string option list \<Rightarrow> io_error + unit) \<Rightarrow> string option \<Rightarrow> conn \<Rightarrow> served" where
  "serve_tries 0 before expected c = Away"
| "serve_tries (Suc n) before expected c = (case read_head_with before c of
       Inr (Some head, c') \<Rightarrow> (case parse_request_head head of
           Inl reason \<Rightarrow> BadRequest reason
         | Inr request \<Rightarrow>
             if (case expected of None \<Rightarrow> False | Some e \<Rightarrow> \<not> authorized request e)
             then (if request_body request \<noteq> Inr NoBody then Away
                   else serve_tries n before expected c')
             else Serve request c')
     | _ \<Rightarrow> Away)"

definition serve :: "(string option list \<Rightarrow> io_error + unit) \<Rightarrow> auth \<Rightarrow> conn \<Rightarrow> served" where
  "serve before a c = serve_tries MAX_AUTH_TRIES before (expected_header a) c"

section \<open>CONNECT and plain requests\<close>

definition authority_host_ok :: "string \<Rightarrow> bool" where
  "authority_host_ok host \<longleftrightarrow> host \<noteq> [] \<and> length host \<le> 253
     \<and> list_all (\<lambda>b. is_ascii_alphanumeric b \<or> b \<in> set ''.-:'') host"

definition split_bracket :: "string \<Rightarrow> (string \<times> string) option" where
  "split_bracket rest = map_option (\<lambda>i. (take i rest, drop (i + 2) rest)) (find_sub rest '']:'')"

definition parse_authority :: "string \<Rightarrow> (string \<times> nat) option" where
  "parse_authority target =
     Option.bind (case strip_prefix target ''['' of
         Some rest \<Rightarrow> split_bracket rest
       | None \<Rightarrow> rsplit_char CHR '':'' target)
       (\<lambda>(host, port). Option.bind (placeholder_port port) (\<lambda>port.
          let host = to_ascii_lowercase host
          in if authority_host_ok host then Some (host, port) else None))"

datatype connect_step =
    BadAnswer nat string "proxy_event option"
  | Intercept string nat
  | Tunnel string nat "sock_addr list" string "proxy_event"

definition ONLY_SECRET_HOSTS :: string where
  "ONLY_SECRET_HOSTS = ''This run reaches only the hosts of its secrets.''"

text \<open>A CONNECT request: the tunnel sends nothing of the head.\<close>

definition connect ::
  "(string \<Rightarrow> nat \<Rightarrow> sock_addr list option) \<Rightarrow> core \<Rightarrow> request_head \<Rightarrow> connect_step" where
  "connect lookup core request = (case parse_authority (rh_target request) of
       None \<Rightarrow> BadAnswer 400 ''The CONNECT target is not valid.'' None
     | Some (host, port) \<Rightarrow>
         if is_secret_host core host port then Intercept host port
         else if core_others core = RefuseOthers
           then BadAnswer 403 ONLY_SECRET_HOSTS
             (Some (with_reason (new_event host port RefusedOutcome) RefusedOutcome ONLY_SECRET_HOSTS))
         else (case addresses lookup (core_upstream core) host port of
             Inl _ \<Rightarrow> BadAnswer 502 ''Apassy could not connect to the host.''
               (Some (with_reason (new_event host port FailedOutcome) FailedOutcome
                  ''The connection to the host failed.''))
           | Inr addrs \<Rightarrow> Tunnel host port addrs [] (new_event host port Tunneled)))"

definition plain_header :: "string \<times> string \<Rightarrow> bool" where
  "plain_header h \<longleftrightarrow> to_ascii_lowercase (fst h) \<notin> set [''proxy-authorization'',
     ''proxy-connection'', ''connection'', ''keep-alive'']"

definition plain_head :: "request_head \<Rightarrow> string \<Rightarrow> string" where
  "plain_head request path =
     rh_method request @ '' '' @ path @ '' HTTP/1.1'' @ CRLF
     @ concat (map (\<lambda>(name, value). name @ '': '' @ value @ CRLF)
         (filter plain_header (rh_headers request)))
     @ ''Connection: close'' @ CRLF @ CRLF"

definition plain ::
  "(string \<Rightarrow> nat \<Rightarrow> sock_addr list option) \<Rightarrow> core \<Rightarrow> request_head \<Rightarrow> connect_step" where
  "plain lookup core request = (case strip_prefix (rh_target request) ''http://'' of
       None \<Rightarrow> BadAnswer 400 ''The proxy takes CONNECT and http:// requests only.'' None
     | Some rest \<Rightarrow>
         (let (authority, path) = (case find_sub rest ''/'' of
                Some i \<Rightarrow> (take i rest, drop i rest) | None \<Rightarrow> (rest, ''/''));
              with_port = (if CHR '':'' \<in> set authority \<and> \<not> ends_with authority '']''
                then authority else authority @ '':80'')
          in case parse_authority with_port of
               None \<Rightarrow> BadAnswer 400 ''The URL host is not valid.'' None
             | Some (host, port) \<Rightarrow>
                 let ev = for_request host port request (core_secrets core)
                 in if is_secret_host core host port \<or> core_others core = RefuseOthers
                    then (let reason = (if is_secret_host core host port
                            then ''Apassy does not send a real value over plain http://. Use https://.''
                            else ONLY_SECRET_HOSTS)
                      in BadAnswer 403 reason (Some (with_reason ev RefusedOutcome reason)))
                    else (case addresses lookup (core_upstream core) host port of
                        Inl _ \<Rightarrow> BadAnswer 502 ''Apassy could not connect to the host.''
                          (Some (with_reason ev FailedOutcome ''The connection failed.''))
                      | Inr addrs \<Rightarrow> Tunnel host port addrs (plain_head request path)
                          (ev\<lparr>ev_outcome := Tunneled\<rparr>))))"

section \<open>A request on an intercepted connection\<close>

definition host_port :: "string option \<Rightarrow> nat option" where
  "host_port given = (case given of
       None \<Rightarrow> Some 443
     | Some text \<Rightarrow> if text \<noteq> [] \<and> list_all is_ascii_digit text then parse_number 10 65535 text
         else None)"

definition host_parts :: "string \<Rightarrow> (string \<times> string option) option" where
  "host_parts value = (case strip_prefix value ''['' of
       Some rest \<Rightarrow> (case split_once CHR '']'' rest of
           None \<Rightarrow> None
         | Some (name, after) \<Rightarrow>
             if after = [] then Some (name, None)
             else map_option (\<lambda>port. (name, Some port)) (strip_prefix after '':''))
     | None \<Rightarrow> (case rsplit_char CHR '':'' value of
           Some (name, port) \<Rightarrow> Some (name, Some port)
         | None \<Rightarrow> Some (value, None)))"

definition host_header_matches :: "string \<Rightarrow> string \<Rightarrow> nat \<Rightarrow> bool" where
  "host_header_matches value host port =
     (case host_parts (to_ascii_lowercase (trim value)) of
        None \<Rightarrow> False
      | Some (name, given) \<Rightarrow> (case host_port given of
          None \<Rightarrow> False | Some p \<Rightarrow> name = host \<and> p = port))"

definition target_mismatch :: "request_head \<Rightarrow> string \<Rightarrow> nat \<Rightarrow> string option" where
  "target_mismatch request host port =
     (if \<not> has_origin_form request
      then Some (''The request target is not a path. On a connection to a host of a secret, ''
        @ ''Apassy takes only a path (/...) as the target.'')
      else if header_count request ''host'' \<noteq> 1
      then Some ''The request needs exactly one Host header.''
      else (case header (rh_headers request) ''host'' of
          Some value \<Rightarrow> if host_header_matches value host port then None
            else Some ''The Host header does not match the CONNECT host.''
        | None \<Rightarrow> Some ''The Host header does not match the CONNECT host.''))"

definition is_websocket :: "request_head \<Rightarrow> bool" where
  "is_websocket request \<longleftrightarrow> rh_method request = ''GET''
     \<and> has_token (rh_headers request) ''upgrade'' ''websocket''
     \<and> has_token (rh_headers request) ''connection'' ''upgrade''"

definition handshake_request :: "request_head \<Rightarrow> request_head" where
  "handshake_request request = request\<lparr>rh_headers :=
     filter (\<lambda>(name, _). \<not> eq_ignore_ascii_case name ''sec-websocket-extensions'') (rh_headers request)\<rparr>"

datatype admission =
    Refuse nat string
  | Admit bool body_len swapped

definition ONLY_WEBSOCKET :: string where
  "ONLY_WEBSOCKET = ''The run proxy supports only the WebSocket upgrade (GET with Upgrade: websocket).''"

definition NO_CONSENT :: string where
  "NO_CONSENT = ''The exact scoped access consent expired, was revoked, or does not cover this host ''
     @ ''and port.''"

text \<open>
  The part of \<open>serve_requests\<close> from the parsed head to the swapped one. \<open>access\<close> is the scoped
  access consent of the run, where it has one.
\<close>

definition admit ::
  "core \<Rightarrow> (string \<Rightarrow> nat \<Rightarrow> bool) option \<Rightarrow> string \<Rightarrow> nat \<Rightarrow> request_head \<Rightarrow> admission" where
  "admit core access host port request =
     (case target_mismatch request host port of
        Some reason \<Rightarrow> Refuse 400 reason
      | None \<Rightarrow>
          let websocket = (header (rh_headers request) ''upgrade'' \<noteq> None)
          in if websocket \<and> \<not> is_websocket request then Refuse 501 ONLY_WEBSOCKET
             else (case request_body request of
                 Inl reason \<Rightarrow> Refuse 400 reason
               | Inr len \<Rightarrow>
                   if websocket \<and> len \<noteq> NoBody then Refuse 400 ''A WebSocket upgrade has no body.''
                   else if (case access of None \<Rightarrow> False | Some covers \<Rightarrow> \<not> covers host port)
                     then Refuse 403 NO_CONSENT
                   else (case swap_request (if websocket then handshake_request request else request)
                             host port (swap_secrets core) of
                       Inl refusal \<Rightarrow> Refuse 403 (refusal_text core refusal host)
                     | Inr sw \<Rightarrow> Admit websocket len sw)))"

section \<open>The answer\<close>

datatype answer_step = Invalid | Unreadable | Interim string | Final string response_head

text \<open>One head of the answer: masked, parsed, and passed on when the proxy can check what follows.\<close>

definition answer_head ::
  "(string \<times> string) list \<Rightarrow> bool \<Rightarrow> string \<Rightarrow> string \<Rightarrow> answer_step \<times> bool" where
  "answer_head ps carried method raw =
     (let (raw, found) = replace_all ps raw
      in (case parse_response_head raw method of
            Inl _ \<Rightarrow> Invalid
          | Inr parsed \<Rightarrow>
              let final = (\<not> (100 \<le> res_status parsed \<and> res_status parsed < 200) \<or> res_upgrade parsed)
              in if final \<and> \<not> res_upgrade parsed \<and> carried \<and> unreadable parsed then Unreadable
                 else if final then Final raw parsed else Interim raw, found))"

text \<open>The pairs of one request: the real values, and the forms that only this request has.\<close>

definition request_pairs :: "core \<Rightarrow> swapped \<Rightarrow> (string \<times> string) list" where
  "request_pairs core sw =
     map (\<lambda>s. (px_value s, px_placeholder s)) (core_secrets core) @ sw_echoes sw"

definition check_accept :: "string \<Rightarrow> string + unit" where
  "check_accept raw =
     (let headers = map (\<lambda>(name, value). (trim name, trim value))
            (List.map_filter (split_once CHR '':'') (drop 1 (split_crlf (from_utf8_lossy raw))))
      in if \<not> has_token headers ''upgrade'' ''websocket''
         then Inl ''The service switched to a protocol other than WebSocket.''
         else if list_ex (\<lambda>(name, _). eq_ignore_ascii_case name ''sec-websocket-extensions'') headers
         then Inl (''The service turned on a WebSocket extension that Apassy did not offer, so ''
           @ ''Apassy could not check its frames.'')
         else Inr ())"

end
