(* ===== verification/ProxyMask.thy ===== *)
theory ProxyMask
  imports ProxyEcho
begin

text \<open>
  What the mask of a response does: a pattern finds each mix of the forms of a value, a text keeps
  its length, each changed part is a form of a value that becomes its placeholder, no value starts
  at a byte that stays, and the pieces in which a body comes hide no value.
\<close>

section \<open>The mixes of a pattern\<close>

fun is_mix :: "string list list \<Rightarrow> string \<Rightarrow> bool" where
  "is_mix [] s = (s = [])"
| "is_mix (forms # rest) s =
     list_ex (\<lambda>f. case strip_prefix s f of None \<Rightarrow> False | Some t \<Rightarrow> is_mix rest t) forms"

lemma is_mix_Cons:
  "is_mix (forms # rest) s \<longleftrightarrow> (\<exists>f\<in>set forms. \<exists>t. s = f @ t \<and> is_mix rest t)"
proof -
  have "(case strip_prefix s f of None \<Rightarrow> False | Some t \<Rightarrow> is_mix rest t) \<longleftrightarrow>
      (\<exists>t. s = f @ t \<and> is_mix rest t)" for f
    by (cases "strip_prefix s f") (auto simp: strip_prefix_Some [symmetric])
  then show ?thesis by (simp add: list_ex_iff)
qed

declare is_mix.simps(2) [simp del]

lemma try_form_ends:
  "set (fst (try_form data q f acc)) =
     set (fst acc) \<union> (if starts_with (drop q data) f then {q + length f} else {})"
  by (auto simp: try_form_def Let_def starts_with_def split: prod.splits)

lemma try_form_part:
  "snd (try_form data q f acc) \<longleftrightarrow>
     snd acc \<or> (length data - q < length f \<and> starts_with f (drop q data))"
  by (auto simp: try_form_def Let_def split: prod.splits)

lemma fold_try_form_ends:
  "set (fst (fold (try_form data q) forms acc)) =
     set (fst acc) \<union> {q + length f | f. f \<in> set forms \<and> starts_with (drop q data) f}"
  by (induction forms arbitrary: acc) (auto simp: try_form_ends)

lemma fold_try_form_part:
  "snd (fold (try_form data q) forms acc) \<longleftrightarrow>
     snd acc \<or> (\<exists>f\<in>set forms. length data - q < length f \<and> starts_with f (drop q data))"
  by (induction forms arbitrary: acc) (auto simp: try_form_part)

lemma try_place_ends:
  "set (fst (try_place data forms offsets part)) =
     {q + length f | q f. q \<in> set offsets \<and> f \<in> set forms \<and> starts_with (drop q data) f}"
proof -
  have "set (fst (fold (\<lambda>q. fold (try_form data q) forms) offsets acc)) = set (fst acc) \<union>
      {q + length f | q f. q \<in> set offsets \<and> f \<in> set forms \<and> starts_with (drop q data) f}" for acc
    by (induction offsets arbitrary: acc) (auto simp: fold_try_form_ends)
  then show ?thesis by (simp add: try_place_def)
qed

lemma try_place_part:
  "snd (try_place data forms offsets part) \<longleftrightarrow> part \<or> (\<exists>q\<in>set offsets. \<exists>f\<in>set forms.
     length data - q < length f \<and> starts_with f (drop q data))"
proof -
  have "snd (fold (\<lambda>q. fold (try_form data q) forms) offsets acc) \<longleftrightarrow> snd acc \<or>
      (\<exists>q\<in>set offsets. \<exists>f\<in>set forms. length data - q < length f \<and> starts_with f (drop q data))" for acc
    by (induction offsets arbitrary: acc) (auto simp: fold_try_form_part)
  then show ?thesis by (simp add: try_place_def)
qed

lemma starts_with_split:
  "starts_with (drop q data) (f @ t) \<longleftrightarrow>
     starts_with (drop q data) f \<and> starts_with (drop (q + length f) data) t"
  by (auto simp: starts_with_iff) (metis append.assoc append_eq_conv_conj drop_drop add.commute)+

lemma fold_max: "fold max xs (a :: nat) = Max (set (a # xs))"
  using Max.set_eq_fold [of a xs] by simp

text \<open>The ends that the places can reach from some offsets.\<close>

definition reach :: "string \<Rightarrow> string list list \<Rightarrow> nat set \<Rightarrow> nat set" where
  "reach data ps os = {q + length s | q s. q \<in> os \<and> is_mix ps s \<and> starts_with (drop q data) s}"

lemma reach_Nil [simp]: "reach data [] os = os"
  by (auto simp: reach_def)

lemma reach_Cons:
  "reach data (forms # ps) (set os) = reach data ps (set (fst (try_place data forms os part)))"
  unfolding reach_def try_place_ends is_mix_Cons
  by (auto simp: starts_with_split) (metis add.assoc length_append starts_with_split)+

lemma match_places_cases:
  assumes "os \<noteq> []"
  shows "match_places data at_end start ps os part = Partial
    \<or> (reach data ps (set os) = {} \<and> match_places data at_end start ps os part = Miss)
    \<or> (reach data ps (set os) \<noteq> {}
        \<and> match_places data at_end start ps os part = Full (Max (reach data ps (set os)) - start))"
  using assms
proof (induction ps arbitrary: os part)
  case Nil
  then have "fold max os 0 = Max (set os)" by (simp add: fold_max)
  then show ?case using Nil by simp
next
  case (Cons forms ps)
  obtain ends part' where t: "try_place data forms os part = (ends, part')" by fastforce
  have r: "reach data (forms # ps) (set os) = reach data ps (set ends)"
    using reach_Cons [of data forms ps os part] t by simp
  show ?case
  proof (cases "ends = []")
    case True
    then show ?thesis using t r by (auto simp: reach_def)
  next
    case False
    then show ?thesis using Cons.IH [OF False, of part'] t r by simp
  qed
qed

lemma match_places_at_end: "match_places data True start ps os part \<noteq> Partial"
  by (induction ps arbitrary: os part) (auto split: prod.splits)

lemma match_places_part: "match_places data False start ps os True = Partial"
proof (induction ps arbitrary: os)
  case (Cons forms ps)
  have "snd (try_place data forms os True)" by (simp add: try_place_part)
  then show ?case using Cons by (auto split: prod.splits)
qed simp

lemma try_form_stable:
  assumes "q \<le> length data" and "\<not> (length data - q < length f \<and> starts_with f (drop q data))"
  shows "try_form (data @ x) q f acc = try_form data q f acc"
proof (cases "length f \<le> length data - q")
  case True
  then have "length f \<le> length data + length x - q" using assms(1) by simp
  with True show ?thesis using assms(1) by (simp add: try_form_def Let_def split: prod.splits)
next
  case False
  with assms(2) have no: "\<not> starts_with f (drop q data)" by simp
  have "take (length f) (drop q data @ x) \<noteq> f"
  proof
    assume "take (length f) (drop q data @ x) = f"
    then have "f = drop q data @ take (length f - (length data - q)) x" using False by simp
    then show False using no by (metis starts_with_append)
  qed
  moreover have "\<not> starts_with f (drop q data @ x)"
    using no by (metis append.assoc starts_with_iff)
  ultimately show ?thesis
    using False assms(1) no by (auto simp: try_form_def Let_def split: prod.splits)
qed

lemma match_places_stable:
  assumes "match_places data False start ps os part \<noteq> Partial" and "\<forall>q\<in>set os. q \<le> length data"
  shows "match_places (data @ x) at_end start ps os part = match_places data False start ps os part"
  using assms
proof (induction ps arbitrary: os part)
  case Nil
  then show ?case by (auto split: if_splits)
next
  case (Cons forms ps)
  obtain ends part' where t: "try_place data forms os part = (ends, part')" by fastforce
  have "\<not> part'"
    using Cons.prems(1) t match_places_part [of data start ps ends]
    by (cases "ends = []") (auto split: if_splits)
  then have quiet: "\<not> (length data - q < length f \<and> starts_with f (drop q data))"
    if "q \<in> set os" "f \<in> set forms" for q f
    using try_place_part [of data forms os part] t that by auto
  have "fold (try_form (data @ x) q) forms acc = fold (try_form data q) forms acc"
    if "q \<in> set os" for q acc
    by (rule fold_cong) (use try_form_stable quiet that Cons.prems(2) in \<open>auto intro!: ext\<close>)
  then have "fold (\<lambda>q. fold (try_form (data @ x) q) forms) os acc
      = fold (\<lambda>q. fold (try_form data q) forms) os acc" for acc
    by (intro fold_cong [OF refl refl]) (simp add: fun_eq_iff)
  then have "try_place (data @ x) forms os part = try_place data forms os part"
    by (simp add: try_place_def)
  moreover have "\<forall>q\<in>set ends. q \<le> length data"
    using try_place_ends [of data forms os part] t Cons.prems(2) starts_with_length
    by fastforce
  ultimately show ?case
    using Cons.IH [of ends part'] Cons.prems(1) t by (auto split: if_splits)
qed

text \<open>The first byte of a mix is the first byte of a form of the first place.\<close>

definition sound_pattern :: "pattern \<Rightarrow> bool" where
  "sound_pattern pat \<longleftrightarrow>
     places pat \<noteq> [] \<and> (\<forall>forms\<in>set (places pat). forms \<noteq> [] \<and> [] \<notin> set forms)
     \<and> (\<forall>s. is_mix (places pat) s \<longrightarrow> length (pat_placeholder pat) \<le> length s)"

lemma mix_first:
  assumes "sound_pattern pat" and "is_mix (places pat) s"
  shows "\<exists>c t f. s = c # t \<and> f \<in> set (hd (places pat)) \<and> starts_with f [c]"
proof -
  obtain forms ps where ps: "places pat = forms # ps"
    using assms(1) by (cases "places pat") (auto simp: sound_pattern_def)
  with assms(2) obtain f t where f: "f \<in> set forms" "s = f @ t" by (auto simp: is_mix_Cons)
  moreover have "f \<noteq> []" using assms(1) ps f(1) by (auto simp: sound_pattern_def)
  then obtain c g where "f = c # g" by (cases f) auto
  ultimately show ?thesis using ps by (auto simp: starts_with_def)
qed

definition mixes_at :: "pattern \<Rightarrow> string \<Rightarrow> nat \<Rightarrow> nat set" where
  "mixes_at pat data start =
     {length s | s. is_mix (places pat) s \<and> starts_with (drop start data) s}"

lemma reach_mixes: "reach data (places pat) {start} = (\<lambda>n. start + n) ` mixes_at pat data start"
  by (auto simp: reach_def mixes_at_def)

lemma finite_mixes: "finite (mixes_at pat data start)"
  by (rule finite_subset [of _ "{..length data}"])
    (auto simp: mixes_at_def dest!: starts_with_length)

lemma match_at_cases:
  assumes "sound_pattern pat"
  shows "match_at pat data start ae = Partial
    \<or> (mixes_at pat data start = {} \<and> match_at pat data start ae = Miss)
    \<or> (mixes_at pat data start \<noteq> {} \<and> match_at pat data start ae = Full (Max (mixes_at pat data start)))"
proof (cases "get data start")
  case None
  then have "mixes_at pat data start = {}"
    using mix_first [OF assms] by (auto simp: mixes_at_def get_None starts_with_iff)
  with None show ?thesis by (simp add: match_at_def)
next
  case (Some first)
  then have drop: "drop start data = first # drop (Suc start) data"
    by (auto simp: get_Some Cons_nth_drop_Suc)
  show ?thesis
  proof (cases "list_ex (\<lambda>form. starts_with form [first]) (hd (places pat))")
    case False
    then have "mixes_at pat data start = {}"
      using mix_first [OF assms] by (fastforce simp: mixes_at_def drop starts_with_iff list_ex_iff)
    with False Some show ?thesis by (simp add: match_at_def)
  next
    case True
    define M where "M = mixes_at pat data start"
    have m: "match_at pat data start ae = match_places data ae start (places pat) [start] False"
      using True Some by (simp add: match_at_def)
    have "Max ((\<lambda>n. start + n) ` M) - start = Max M" if "M \<noteq> {}"
      using mono_Max_commute [of "\<lambda>n. start + n" M] that finite_mixes [of pat data start]
      by (simp add: mono_def M_def)
    then show ?thesis
      using match_places_cases [of "[start]" data ae start "places pat" False]
      unfolding m M_def [symmetric]
      by (cases "M = {}") (simp_all add: reach_mixes M_def [symmetric])
  qed
qed

lemma match_at_end: "match_at pat data start True \<noteq> Partial"
  by (auto simp: match_at_def match_places_at_end split: option.splits)

lemma match_at_stable:
  assumes "match_at pat data start False \<noteq> Partial" and "start < length data"
  shows "match_at pat (data @ x) start ae = match_at pat data start False"
  using assms match_places_stable [of data start "places pat" "[start]" False x ae]
  by (auto simp: match_at_def get_def nth_append)

section \<open>The patterns of a value are sound\<close>

lemma set_fold_add_form: "set (fold add_form xs forms) = set forms \<union> set xs"
  by (induction xs arbitrary: forms) (auto simp: add_form_def)

lemma length_percent [simp]: "length (percent bytes upper) = 3 * length bytes"
  by (induction bytes) (simp_all add: percent_def)

lemma json_code_point_long: "6 \<le> length (json_code_point code upper)"
proof -
  have "6 \<le> length (json_u n upper)" for n by (auto simp: json_u_def Let_def)
  from this [of code] this [of "0xD800 + (code - 0x10000) div 1024"] show ?thesis
    by (auto simp: json_code_point_def Let_def intro: trans_le_add1)
qed

lemma html_numeric_long: "f \<in> set (html_numeric code) \<Longrightarrow> 4 \<le> length f"
proof -
  have "show_hex upper n \<noteq> []" for upper n by (subst show_hex.simps) simp
  then have "1 \<le> length (show_hex upper n)" "1 \<le> length (show_nat n)" for upper n
    by (simp_all add: Suc_le_eq)
  then show "f \<in> set (html_numeric code) \<Longrightarrow> 4 \<le> length f"
    by (auto simp: html_numeric_def Let_def trans_le_add2)
qed

lemma short_forms_long:
  "json_short b = Some f \<Longrightarrow> 1 \<le> length f" "html_named b = Some f \<Longrightarrow> 1 \<le> length f"
  by (auto simp: json_short_def html_named_def split: if_splits)

definition plain_character :: "string \<Rightarrow> nat option \<Rightarrow> bool" where
  "plain_character raw code \<longleftrightarrow> raw \<noteq> [] \<and> length raw \<le> 4
     \<and> (case code of None \<Rightarrow> True | Some c \<Rightarrow> c < 128 \<longrightarrow> length raw = 1)"

lemma forms_of_long:
  assumes "plain_character raw code" and "f \<in> set (forms_of raw code)"
  shows "length raw \<le> length f"
proof -
  have "length raw \<le> length f" if code: "code = Some c" "f \<in> set (code_forms c)" for c
  proof -
    consider "c < 128" "1 \<le> length f" | "6 \<le> length f" | "4 \<le> length f"
      using code(2) short_forms_long [of "char_of c" f] html_numeric_long [of f c]
        json_code_point_long [of c False] json_code_point_long [of c True]
      by (fastforce simp: code_forms_def map_filter_simps split: if_splits option.splits)
    then show ?thesis using assms(1) code(1) by cases (auto simp: plain_character_def)
  qed
  then show ?thesis
    using assms(2)
    by (auto simp: forms_of_def set_fold_add_form simp del: fold_simps fold.simps
        split: if_splits option.splits)
qed

lemma forms_of_raw: "raw \<in> set (forms_of raw code)"
  by (simp add: forms_of_def set_fold_add_form del: fold.simps fold_simps)

lemma utf8_char_plain:
  assumes "utf8_char c"
  shows "plain_character c (Some (code_point c))"
proof -
  obtain a as where c: "c = a # as" using assms by (cases c) (auto simp: utf8_char_def)
  consider "as = []" | b where "as = [b]" | b d where "as = [b, d]" | b d e where "as = [b, d, e]"
    using assms c by (auto simp: utf8_char_def split: list.splits)
  then show ?thesis
    using assms c by cases (auto simp: utf8_char_def plain_character_def code_point_def tail_byte_def)
qed

lemma characters_plain:
  "(raw, code) \<in> set (characters value) \<Longrightarrow> plain_character raw code"
  using utf8_char_plain
  by (auto simp: characters_def valid_utf8_def list_all_iff plain_character_def [of "[_]"]
    split: if_splits)

lemma characters_value: "concat (map fst (characters value)) = value"
  by (simp add: characters_def comp_def)

lemma mix_long:
  assumes "is_mix (map (\<lambda>(raw, code). forms_of raw code) cs) s"
    and "\<And>raw code. (raw, code) \<in> set cs \<Longrightarrow> plain_character raw code"
  shows "length (concat (map fst cs)) \<le> length s"
  using assms
proof (induction cs arbitrary: s)
  case (Cons c cs)
  obtain raw code where c: "c = (raw, code)" by fastforce
  with Cons.prems(1) obtain f t where "f \<in> set (forms_of raw code)" "s = f @ t"
    "is_mix (map (\<lambda>(raw, code). forms_of raw code) cs) t" by (auto simp: is_mix_Cons)
  then show ?case
    using Cons.IH [of t] Cons.prems(2) forms_of_long [of raw code f] c by fastforce
qed simp

lemma escaped_sound:
  assumes "escaped v ph = Some pat"
  shows "sound_pattern pat \<and> pat_placeholder pat = ph \<and> length ph = length v \<and> v \<noteq> []"
proof -
  from assms have v: "v \<noteq> []" "length v = length ph"
    and pat: "places pat = map (\<lambda>(raw, code). forms_of raw code) (characters v)"
      "pat_placeholder pat = ph"
    by (auto simp: escaped_def Let_def split: if_splits)
  have "characters v \<noteq> []" using characters_value [of v] v(1) by auto
  moreover have "forms_of raw code \<noteq> [] \<and> [] \<notin> set (forms_of raw code)"
    if "(raw, code) \<in> set (characters v)" for raw code
    using characters_plain [OF that] forms_of_long [of raw code "[]"] forms_of_raw [of raw code]
    by (auto simp: plain_character_def)
  moreover have "length ph \<le> length s" if "is_mix (places pat) s" for s
    using mix_long [of "characters v" s] characters_plain that characters_value [of v] v(2)
    by (simp add: pat(1))
  ultimately show ?thesis using v pat by (auto simp: sound_pattern_def)
qed

lemma strip_places_mix:
  assumes "strip_places ps s" and "[] \<notin> set ps"
  shows "is_mix ps s"
  using assms
proof (induction ps s rule: strip_places.induct)
  case (2 forms others s)
  then obtain t where "strip_prefix s (hd forms) = Some t" "strip_places others t"
    by (auto split: option.splits)
  with 2 show ?case by (auto simp: is_mix_Cons strip_prefix_Some intro!: bexI [of _ "hd forms"])
qed simp

section \<open>The decision at an offset\<close>

text \<open>A form of one of the values: the value itself, or a mix of the forms of its characters.\<close>

definition form_of :: "string \<Rightarrow> string \<Rightarrow> string \<Rightarrow> bool" where
  "form_of v ph s \<longleftrightarrow> s = v
     \<or> (case escaped v ph of None \<Rightarrow> False | Some pat \<Rightarrow> is_mix (places pat) s)"

definition masked_form :: "string \<Rightarrow> nat \<Rightarrow> string" where
  "masked_form ph n = ph @ replicate (n - length ph) (last ph)"

text \<open>Each value is not empty and its placeholder has its length.\<close>

definition proper_pairs :: "(string \<times> string) list \<Rightarrow> bool" where
  "proper_pairs ps \<longleftrightarrow> list_all (\<lambda>(v, ph). v \<noteq> [] \<and> length v = length ph) ps"

definition form_at :: "(string \<times> string) list \<Rightarrow> string \<Rightarrow> bool" where
  "form_at ps rest \<longleftrightarrow> (\<exists>(v, ph)\<in>set ps. \<exists>s. form_of v ph s \<and> starts_with rest s)"

lemma fold_better:
  "fold (better_pattern data q ae) pats (best, part) = (best', part') \<Longrightarrow>
     (part' \<longleftrightarrow> part \<or> (\<exists>pat\<in>set pats. match_at pat data q ae = Partial))
     \<and> (best' = best \<or> (\<exists>pat\<in>set pats. \<exists>n. match_at pat data q ae = Full n \<and> best' = Some (n, shown pat n)))
     \<and> (best' = None \<longrightarrow> best = None \<and> (\<forall>pat\<in>set pats. \<forall>n. match_at pat data q ae \<noteq> Full n))"
proof (induction pats arbitrary: best part)
  case (Cons pat pats)
  obtain b p where step: "better_pattern data q ae pat (best, part) = (b, p)" by fastforce
  then have "p \<longleftrightarrow> part \<or> match_at pat data q ae = Partial"
    and "b = best \<or> (\<exists>n. match_at pat data q ae = Full n \<and> b = Some (n, shown pat n))"
    and "b = None \<longrightarrow> best = None \<and> (\<forall>n. match_at pat data q ae \<noteq> Full n)"
    by (auto simp: better_pattern_def split: match_step.splits if_splits option.splits prod.splits)
  then show ?case using Cons.IH [of b p] Cons.prems step by auto
qed simp

lemma longest_pair_Some:
  assumes "longest_pair ps rest = Some p"
  shows "p \<in> set ps \<and> starts_with rest (pair_from p)"
proof -
  have step: "later_longest q best = best \<or> later_longest q best = Some q" for q best
    by (auto simp: later_longest_def split: option.splits)
  have "fold later_longest qs best = Some p \<Longrightarrow> best = Some p \<or> p \<in> set qs" for qs best
  proof (induction qs arbitrary: best)
    case (Cons q qs)
    from Cons.IH [of "later_longest q best"] Cons.prems step [of q best] show ?case
      by (cases "later_longest q best = best") auto
  qed simp
  from this [OF assms [unfolded longest_pair_def]] show ?thesis by auto
qed

lemma longest_pair_None:
  assumes "longest_pair ps rest = None" and "p \<in> set ps"
  shows "\<not> starts_with rest (pair_from p)"
proof -
  have "fold later_longest qs (Some b) \<noteq> None" for qs b
    by (induction qs arbitrary: b) (auto simp: later_longest_def)
  then have "fold later_longest qs best = None \<Longrightarrow> qs = []" for qs best
    by (cases qs) (auto simp: later_longest_def simp del: not_None_eq split: option.splits if_splits)
  from this [OF assms(1) [unfolded longest_pair_def]] show ?thesis
    using assms(2) by (auto simp: filter_empty_conv)
qed

lemma shown_masked: "ph \<noteq> [] \<Longrightarrow> pat_placeholder pat = ph \<Longrightarrow> shown pat n = masked_form ph n"
  by (simp add: shown_def masked_form_def Let_def)

lemma proxy_pairs:
  "p \<in> set (pairs (proxy_replacer ps)) \<Longrightarrow> (pair_from p, pair_to p) \<in> set ps"
  by (auto simp: proxy_replacer_def new_replacer_def)

lemma set_map_filter: "set (List.map_filter f xs) = {y. \<exists>x\<in>set xs. f x = Some y}"
  by (induction xs) (auto simp: map_filter_simps split: option.splits)

lemma proxy_patterns:
  "pat \<in> set (patterns (proxy_replacer ps)) \<longleftrightarrow> (\<exists>(v, ph)\<in>set ps. escaped v ph = Some pat)"
  by (force simp: proxy_replacer_def new_replacer_def set_map_filter)

lemma pattern_sound:
  assumes "pat \<in> set (patterns (proxy_replacer ps))"
  shows "sound_pattern pat"
  using assms escaped_sound by (auto simp: proxy_patterns)

lemma form_ne:
  assumes "proper_pairs ps" and "(v, ph) \<in> set ps" and "form_of v ph s"
  shows "s \<noteq> []"
proof (cases "escaped v ph")
  case None
  then show ?thesis using assms by (auto simp: form_of_def proper_pairs_def list_all_iff)
next
  case (Some pat)
  then show ?thesis
    using assms mix_first [of pat s] escaped_sound [OF Some]
    by (auto simp: form_of_def proper_pairs_def list_all_iff)
qed

lemma decide_unfold:
  "decide_at (proxy_replacer ps) ae data q =
     fold (better_pattern data q ae) (patterns (proxy_replacer ps))
       (map_option (\<lambda>p. (length (pair_from p), pair_to p))
          (longest_pair (pairs (proxy_replacer ps)) (drop q data)),
        \<not> ae \<and> list_ex (\<lambda>p. length data - q < length (pair_from p)
          \<and> starts_with (pair_from p) (drop q data)) (pairs (proxy_replacer ps)))"
  by (simp add: decide_at_def Let_def)

lemma decide_cases:
  assumes "decide_at (proxy_replacer ps) ae data q = (best, part)"
  shows "part \<longleftrightarrow> (\<not> ae \<and> list_ex (\<lambda>p. length data - q < length (pair_from p)
            \<and> starts_with (pair_from p) (drop q data)) (pairs (proxy_replacer ps)))
          \<or> (\<exists>pat\<in>set (patterns (proxy_replacer ps)). match_at pat data q ae = Partial)"
    and "best = Some (n, new) \<Longrightarrow>
          (\<exists>p. longest_pair (pairs (proxy_replacer ps)) (drop q data) = Some p
            \<and> n = length (pair_from p) \<and> new = pair_to p)
          \<or> (\<exists>pat\<in>set (patterns (proxy_replacer ps)). match_at pat data q ae = Full n \<and> new = shown pat n)"
    and "best = None \<Longrightarrow> longest_pair (pairs (proxy_replacer ps)) (drop q data) = None"
    and "best = None \<Longrightarrow> \<forall>pat\<in>set (patterns (proxy_replacer ps)). \<forall>n. match_at pat data q ae \<noteq> Full n"
proof -
  note steps = fold_better [OF assms [unfolded decide_unfold]]
  show "part \<longleftrightarrow> (\<not> ae \<and> list_ex (\<lambda>p. length data - q < length (pair_from p)
            \<and> starts_with (pair_from p) (drop q data)) (pairs (proxy_replacer ps)))
          \<or> (\<exists>pat\<in>set (patterns (proxy_replacer ps)). match_at pat data q ae = Partial)"
    using steps by (rule conjunct1)
  show "best = Some (n, new) \<Longrightarrow>
          (\<exists>p. longest_pair (pairs (proxy_replacer ps)) (drop q data) = Some p
            \<and> n = length (pair_from p) \<and> new = pair_to p)
          \<or> (\<exists>pat\<in>set (patterns (proxy_replacer ps)). match_at pat data q ae = Full n \<and> new = shown pat n)"
    using conjunct1 [OF conjunct2 [OF steps]]
    by (cases "longest_pair (pairs (proxy_replacer ps)) (drop q data)") auto
  show "best = None \<Longrightarrow> longest_pair (pairs (proxy_replacer ps)) (drop q data) = None"
    using conjunct2 [OF conjunct2 [OF steps]] by simp
  show "best = None \<Longrightarrow> \<forall>pat\<in>set (patterns (proxy_replacer ps)). \<forall>n. match_at pat data q ae \<noteq> Full n"
    using conjunct2 [OF conjunct2 [OF steps]] by simp
qed

lemma decide_fits:
  assumes "proper_pairs ps" and "decide_at (proxy_replacer ps) ae data q = (Some (n, new), part)"
  shows "\<exists>(v, ph)\<in>set ps. \<exists>s. form_of v ph s \<and> starts_with (drop q data) s \<and> s \<noteq> []
    \<and> n = length s \<and> new = masked_form ph n \<and> length new = n"
proof -
  let ?r = "proxy_replacer ps"
  consider (pair) p where "longest_pair (pairs ?r) (drop q data) = Some p"
      "n = length (pair_from p)" "new = pair_to p"
    | (pat) pat where "pat \<in> set (patterns ?r)" "match_at pat data q ae = Full n" "new = shown pat n"
    using decide_cases(2) [OF assms(2) refl] by blast
  then show ?thesis
  proof cases
    case pair
    then have p: "p \<in> set (pairs ?r)" "starts_with (drop q data) (pair_from p)"
      using longest_pair_Some by blast+
    have "(pair_from p, pair_to p) \<in> set ps" using proxy_pairs p(1) .
    moreover from this have "pair_from p \<noteq> []" "length (pair_from p) = length (pair_to p)"
      using assms(1) by (auto simp: proper_pairs_def list_all_iff)
    ultimately show ?thesis
      using pair p(2)
      by (intro bexI [of _ "(pair_from p, pair_to p)"]) (auto simp: form_of_def masked_form_def)
  next
    case pat
    then obtain v ph where v: "(v, ph) \<in> set ps" "escaped v ph = Some pat"
      by (auto simp: proxy_patterns)
    note sound = escaped_sound [OF v(2)]
    then have "Max (mixes_at pat data q) = n" "mixes_at pat data q \<noteq> {}"
      using match_at_cases [of pat data q ae] pat(2) by auto
    then have "n \<in> mixes_at pat data q" using Max_in [OF finite_mixes] by metis
    then obtain s where s: "is_mix (places pat) s" "starts_with (drop q data) s" "n = length s"
      by (auto simp: mixes_at_def)
    have "length ph \<le> n" using sound s by (auto simp: sound_pattern_def)
    moreover have "ph \<noteq> []" using sound by auto
    ultimately show ?thesis
      using v s sound pat(3)
      by (intro bexI [of _ "(v, ph)"]) (auto simp: form_of_def shown_masked masked_form_def)
  qed
qed

lemma decide_finds:
  assumes "proper_pairs ps" and "decide_at (proxy_replacer ps) ae data q = (None, False)"
  shows "\<not> form_at ps (drop q data)"
proof
  assume "form_at ps (drop q data)"
  then obtain v ph s where v: "(v, ph) \<in> set ps" "form_of v ph s" "starts_with (drop q data) s"
    by (auto simp: form_at_def)
  let ?r = "proxy_replacer ps"
  have none: "longest_pair (pairs ?r) (drop q data) = None"
    using decide_cases(3) [OF assms(2) refl] .
  have quiet: "match_at pat data q ae = Miss" if "pat \<in> set (patterns ?r)" for pat
    using decide_cases(1) [OF assms(2)] decide_cases(4) [OF assms(2) refl] that
    by (cases "match_at pat data q ae") auto
  have nomix: "\<not> is_mix (places pat) s" if "pat \<in> set (patterns ?r)" for pat
    using quiet [OF that] match_at_cases [OF pattern_sound [OF that], of data q ae] v(3)
    by (auto simp: mixes_at_def)
  show False
  proof (cases "\<exists>pat. escaped v ph = Some pat \<and> is_mix (places pat) s")
    case True
    then show False using nomix v(1) by (auto simp: proxy_patterns)
  next
    case False
    then have "s = v" using v(2) by (auto simp: form_of_def split: option.splits)
    let ?p = "\<lparr>pair_from = v, pair_to = ph\<rparr>"
    have "v \<noteq> []" using assms(1) v(1) by (auto simp: proper_pairs_def list_all_iff)
    have "?p \<notin> set (pairs ?r)" using longest_pair_None [OF none] v(3) \<open>s = v\<close> by fastforce
    then have "\<exists>pat\<in>set (patterns ?r). covers_pair pat ?p"
      using v(1) \<open>v \<noteq> []\<close> by (force simp: proxy_replacer_def new_replacer_def list_ex_iff)
    then obtain pat where pat: "pat \<in> set (patterns ?r)" "strip_places (places pat) v"
      by (auto simp: covers_pair_def)
    have "[] \<notin> set (places pat)" using pattern_sound [OF pat(1)] by (auto simp: sound_pattern_def)
    from strip_places_mix [OF pat(2) this] show False using nomix [OF pat(1)] \<open>s = v\<close> by simp
  qed
qed

lemma decide_at_end: "decide_at (proxy_replacer ps) True data q = (best, part) \<Longrightarrow> \<not> part"
  using decide_cases(1) [of ps True data q best part] match_at_end by simp

lemma form_at_mono: "form_at ps rest \<Longrightarrow> form_at ps (rest @ x)"
  unfolding form_at_def by (auto simp: starts_with_iff) blast

lemma starts_with_stable:
  assumes "\<not> (length rest < length f \<and> starts_with f rest)"
  shows "starts_with (rest @ x) f = starts_with rest f"
proof (cases "length f \<le> length rest")
  case True
  then show ?thesis by (rule starts_with_front)
next
  case False
  with assms have "\<not> starts_with f rest" by simp
  moreover have "starts_with f rest" if "starts_with (rest @ x) f"
  proof -
    have "f = rest @ take (length f - length rest) x"
      using that False by (auto simp: starts_with_def)
    then show ?thesis by (metis starts_with_append)
  qed
  ultimately show ?thesis using False starts_with_length [of rest f] by auto
qed

lemma decide_stable:
  assumes "decide_at (proxy_replacer ps) False data q = (best, False)" and "q < length data"
  shows "decide_at (proxy_replacer ps) ae (data @ x) q = (best, False)"
proof -
  let ?r = "proxy_replacer ps" and ?rest = "drop q data"
  have quiet: "\<not> (length data - q < length (pair_from p) \<and> starts_with (pair_from p) ?rest)"
    if "p \<in> set (pairs ?r)" for p
    using decide_cases(1) [OF assms(1)] that by (auto simp: list_ex_iff)
  have full: "match_at pat data q False \<noteq> Partial" if "pat \<in> set (patterns ?r)" for pat
    using decide_cases(1) [OF assms(1)] that by auto
  have rest: "drop q (data @ x) = ?rest @ x" using assms(2) by simp
  have "filter (\<lambda>p. starts_with (?rest @ x) (pair_from p)) (rev (pairs ?r)) =
      filter (\<lambda>p. starts_with ?rest (pair_from p)) (rev (pairs ?r))"
    using quiet starts_with_stable [of ?rest _ x] by (intro filter_cong) auto
  then have pair: "longest_pair (pairs ?r) (?rest @ x) = longest_pair (pairs ?r) ?rest"
    by (simp add: longest_pair_def)
  have "\<not> list_ex (\<lambda>p. length (data @ x) - q < length (pair_from p)
      \<and> starts_with (pair_from p) (?rest @ x)) (pairs ?r)"
    using quiet by (fastforce simp: list_ex_iff starts_with_iff)
  moreover have "\<not> list_ex (\<lambda>p. length data - q < length (pair_from p)
      \<and> starts_with (pair_from p) ?rest) (pairs ?r)"
    using quiet by (auto simp: list_ex_iff)
  moreover have "better_pattern (data @ x) q ae pat = better_pattern data q False pat"
    if "pat \<in> set (patterns ?r)" for pat
    using match_at_stable [OF full [OF that] assms(2)] by (simp add: better_pattern_def fun_eq_iff)
  ultimately show ?thesis
    using assms(1) unfolding decide_unfold rest pair
    by (simp cong: fold_cong)
qed

section \<open>A whole text\<close>

text \<open>A text as the parts that stay and the parts that were masked.\<close>

datatype seg = Kept char | Masked string string

fun seg_in :: "seg \<Rightarrow> string" where
  "seg_in (Kept c) = [c]"
| "seg_in (Masked s new) = s"

fun seg_out :: "seg \<Rightarrow> string" where
  "seg_out (Kept c) = [c]"
| "seg_out (Masked s new) = new"

abbreviation before_mask :: "seg list \<Rightarrow> string" where
  "before_mask segs \<equiv> concat (map seg_in segs)"

abbreviation after_mask :: "seg list \<Rightarrow> string" where
  "after_mask segs \<equiv> concat (map seg_out segs)"

text \<open>
  No form of a value starts at a byte that stays, and a masked part is a form of a value whose
  place its placeholder takes.
\<close>

fun well_masked :: "(string \<times> string) list \<Rightarrow> seg list \<Rightarrow> bool" where
  "well_masked ps [] = True"
| "well_masked ps (Kept c # rest) = (\<not> form_at ps (c # before_mask rest) \<and> well_masked ps rest)"
| "well_masked ps (Masked s new # rest) =
     ((\<exists>(v, ph)\<in>set ps. form_of v ph s \<and> new = masked_form ph (length s) \<and> length new = length s)
      \<and> well_masked ps rest)"

lemma replace_from_segs:
  assumes "proper_pairs ps" and "q \<le> length data"
    and "replace_from (proxy_replacer ps) True q data found = (out, f)"
  shows "\<exists>segs. before_mask segs = drop q data \<and> out = take q data @ after_mask segs
    \<and> well_masked ps segs"
  using assms(2,3)
proof (induction "proxy_replacer ps" True q data found arbitrary: out f rule: replace_from.induct)
  case (1 q data found)
  let ?r = "proxy_replacer ps"
  show ?case
  proof (cases "length data \<le> q")
    case True
    with 1 show ?thesis
      by (subst (asm) (3) replace_from.simps) (auto intro: exI [of _ "[]"])
  next
    case False
    obtain best part where d: "decide_at ?r True data q = (best, part)" by fastforce
    with decide_at_end have part: "part = False" by blast
    have drop: "drop q data = data ! q # drop (Suc q) data"
      using False by (simp add: Cons_nth_drop_Suc)
    show ?thesis
    proof (cases best)
      case None
      have "replace_from ?r True (q + 1) data found = (out, f)"
        using 1(4) False d part None by (subst (asm) replace_from.simps) simp
      from 1(1) [OF False d [symmetric, unfolded None part] refl refl _ this] False
      obtain segs where segs: "before_mask segs = drop (Suc q) data"
          "out = take (Suc q) data @ after_mask segs" "well_masked ps segs" by auto
      moreover have "\<not> form_at ps (drop q data)"
        using decide_finds [OF assms(1)] d None part by blast
      ultimately show ?thesis
        using False drop
        by (intro exI [of _ "Kept (data ! q) # segs"]) (simp add: take_Suc_conv_app_nth)
    next
      case (Some b)
      obtain n new where b: "b = (n, new)" by fastforce
      from decide_fits [OF assms(1), of True data q n new part] d Some b
      obtain v ph s where s: "(v, ph) \<in> set ps" "form_of v ph s" "starts_with (drop q data) s"
          "s \<noteq> []" "n = length s" "new = masked_form ph n" "length new = n" by auto
      have fits: "q + n \<le> length data" "n \<noteq> 0"
        using starts_with_length [OF s(3)] False s(4,5) by auto
      let ?data = "take q data @ new @ drop (q + n) data"
      have "replace_from ?r True (q + n) ?data True = (out, f)"
        using 1(4) False d part Some b s(7) fits by (subst (asm) replace_from.simps) simp
      from 1(2) [OF False d [symmetric, unfolded Some b part] refl refl refl _ _ this] fits s(7) False
      obtain segs where segs: "before_mask segs = drop (q + n) data"
          "out = take q data @ new @ after_mask segs" "well_masked ps segs" by auto
      have "drop q data = s @ drop (q + n) data"
        using s(3,5) by (auto simp: starts_with_iff) (metis add.commute append_eq_conv_conj drop_drop)
      then show ?thesis
        using segs s by (intro exI [of _ "Masked s new # segs"]) auto
    qed
  qed
qed

section \<open>A text in pieces\<close>

lemma replace_from_length:
  "q \<le> length data \<Longrightarrow> length (fst (replace_from r ae q data found)) = length data"
proof (induction r ae q data found rule: replace_from.induct)
  case (1 r ae q data found)
  then show ?case
    by (subst replace_from.simps) (auto split: prod.splits option.splits bool.splits)
qed

lemma length_replace [simp]: "length (fst (replace r ae data)) = length data"
  by (simp add: replace_def replace_from_length)

lemma replace_from_found: "snd (replace_from r ae q data True)"
proof (induction r ae q data "True" rule: replace_from.induct)
  case (1 r ae q data)
  then show ?case
    by (subst replace_from.simps) (auto split: prod.splits option.splits bool.splits)
qed

text \<open>Without a match the text stays, up to an offset at which the search waits for more data.\<close>

lemma replace_from_quiet:
  assumes "replace_from r ae q data found = (out, False)" and "q \<le> length data"
    and "r = proxy_replacer ps" and "proper_pairs ps"
  shows "out = data \<and> (\<exists>k\<ge>q. k \<le> length data
    \<and> (\<forall>i. q \<le> i \<and> i < k \<longrightarrow> decide_at r ae data i = (None, False))
    \<and> (k < length data \<longrightarrow> snd (decide_at r ae data k)))"
  using assms
proof (induction r ae q data found rule: replace_from.induct)
  case (1 r ae q data found)
  show ?case
  proof (cases "length data \<le> q")
    case True
    with 1(3,4) show ?thesis
      by (subst (asm) replace_from.simps) (auto intro: exI [of _ q])
  next
    case False
    obtain best part where d: "decide_at r ae data q = (best, part)" by fastforce
    consider (wait) "part" | (none) "best = None" "\<not> part" | (some) n new where "best = Some (n, new)" "\<not> part"
      by (cases best) auto
    then show ?thesis
    proof cases
      case wait
      with 1(3) d False show ?thesis
        by (subst (asm) replace_from.simps) (auto intro!: exI [of _ q] split: option.splits)
    next
      case none
      have step: "replace_from r ae (q + 1) data found = (out, False)"
        using 1(3) False d none by (subst (asm) replace_from.simps) simp
      from 1(1) [OF False d [symmetric, unfolded none(1)] refl _ step] none False 1(5,6)
      obtain k where k: "out = data" "q + 1 \<le> k" "k \<le> length data"
        "\<forall>i. q + 1 \<le> i \<and> i < k \<longrightarrow> decide_at r ae data i = (None, False)"
        "k < length data \<longrightarrow> snd (decide_at r ae data k)" by auto
      moreover have "decide_at r ae data i = (None, False)" if "q \<le> i" "i < k" for i
        using k(4) d none that by (cases "i = q") auto
      ultimately show ?thesis by (intro conjI exI [of _ k]) auto
    next
      case some
      from decide_fits [OF 1(6), of ae data q n new part] d some 1(5)
      have "0 < n" "length new = n" "q + n \<le> length data"
        using False by (auto dest!: starts_with_length)
      then have "replace_from r ae q data found =
          replace_from r ae (q + n) (take q data @ new @ drop (q + n) data) True"
        using False d some by (subst replace_from.simps) simp
      then show ?thesis
        using 1(3) replace_from_found [of r ae "q + n" "take q data @ new @ drop (q + n) data"]
        by (metis snd_conv)
    qed
  qed
qed

lemma replace_from_finds:
  assumes "snd (replace_from r ae q data False)" and "q \<le> length data"
    and "r = proxy_replacer ps" and "proper_pairs ps"
  shows "\<exists>i<length data. form_at ps (drop i data)"
  using assms
proof (induction r ae q data False rule: replace_from.induct)
  case (1 r ae q data)
  have q: "\<not> length data \<le> q"
  proof
    assume "length data \<le> q"
    with 1(3) show False by (subst (asm) replace_from.simps) simp
  qed
  obtain best part where d: "decide_at r ae data q = (best, part)" by fastforce
  have part: "\<not> part"
  proof
    assume part
    with 1(3) q d show False
      by (subst (asm) replace_from.simps) (auto split: option.splits)
  qed
  show ?case
  proof (cases best)
    case None
    have "snd (replace_from r ae (q + 1) data False)"
      using 1(3) q d None part by (subst (asm) replace_from.simps) simp
    then show ?thesis
      using 1(1) [OF q d [symmetric, unfolded None] refl] part q 1(5,6) by auto
  next
    case (Some b)
    obtain n new where "b = (n, new)" by fastforce
    with decide_fits [OF 1(6), of ae data q n new part] d Some 1(5)
    have "form_at ps (drop q data)" by (auto simp: form_at_def)
    then show ?thesis using q by (meson not_le)
  qed
qed

lemma replace_quiet:
  assumes "proper_pairs ps" and "replace (proxy_replacer ps) ae data = (out, False)"
  shows "out = data \<and> (\<exists>k\<le>length data.
    (\<forall>i<k. decide_at (proxy_replacer ps) ae data i = (None, False))
    \<and> (k < length data \<longrightarrow> snd (decide_at (proxy_replacer ps) ae data k)))"
  using replace_from_quiet [OF assms(2) [unfolded replace_def] _ refl assms(1)] by auto

lemma replace_end_quiet:
  assumes "proper_pairs ps" and "replace (proxy_replacer ps) True data = (out, False)"
  shows "out = data \<and> (\<forall>i<length data. \<not> form_at ps (drop i data))"
proof -
  from replace_quiet [OF assms] obtain k where k: "out = data" "k \<le> length data"
    "\<forall>i<k. decide_at (proxy_replacer ps) True data i = (None, False)"
    "k < length data \<longrightarrow> snd (decide_at (proxy_replacer ps) True data k)" by blast
  have "k = length data"
    using k(2,4) decide_at_end [of ps data k] by (metis le_neq_implies_less prod.collapse)
  then show ?thesis using k decide_finds [OF assms(1)] by blast
qed

lemma find_downto:
  assumes "j \<in> set [a..<b]" and "P j"
  shows "\<exists>k\<ge>j. List.find P (rev [a..<b]) = Some k"
proof -
  have "\<exists>k\<ge>j. List.find P (rev [a..<b]) = Some k" if "a \<le> j" "j < b" for b
    using that
  proof (induction b)
    case (Suc b)
    then show ?case using assms(2) by (cases "P b"; cases "j = b") auto
  qed simp
  then show ?thesis using assms(1) by simp
qed

lemma pair_open_ge:
  assumes "k < length data" and "length data - k < length (pair_from p)"
    and "starts_with (pair_from p) (drop k data)"
  shows "length data - k \<le> pair_open data p"
proof -
  have "drop (length data - (length data - k)) data = take (length data - k) (pair_from p)"
    using assms by (simp add: starts_with_def)
  moreover have "length data - k \<in> set [1..<min (length (pair_from p)) (length data + 1)]"
    using assms(1,2) by auto
  ultimately obtain m where "length data - k \<le> m"
    "List.find (\<lambda>k. drop (length data - k) data = take k (pair_from p))
       (rev [1..<min (length (pair_from p)) (length data + 1)]) = Some m"
    using find_downto [of "length data - k" 1 _ "\<lambda>k. drop (length data - k) data = take k (pair_from p)"]
    by blast
  then show ?thesis by (simp add: pair_open_def)
qed

lemma match_places_reach:
  assumes "match_places data False start ps os part = Partial" and "\<forall>q\<in>set os. q \<le> b"
  shows "part \<or> length data < b + sum_list (map (\<lambda>forms. fold max (map length forms) 0) ps)"
  using assms
proof (induction ps arbitrary: os part b)
  case Nil
  then show ?case by (auto split: if_splits)
next
  case (Cons forms ps)
  let ?m = "fold max (map length forms) 0"
  have longest: "length f \<le> ?m" if "f \<in> set forms" for f
    using that by (auto simp: fold_max)
  obtain ends part' where t: "try_place data forms os part = (ends, part')" by fastforce
  have here: "part' \<Longrightarrow> part \<or> length data < b + ?m"
    using try_place_part [of data forms os part] t Cons.prems(2) longest by fastforce
  show ?case
  proof (cases "ends = []")
    case True
    with Cons.prems(1) t have part' by (auto split: if_splits)
    with here show ?thesis by auto
  next
    case False
    have "\<forall>q\<in>set ends. q \<le> b + ?m"
      using try_place_ends [of data forms os part] t Cons.prems(2) longest
      by (fastforce intro: add_mono)
    with Cons.IH [of ends part' "b + ?m"] Cons.prems(1) t False here show ?thesis by auto
  qed
qed

lemma pattern_open_ge:
  assumes "k < length data" and "match_at pat data k False = Partial"
    and "max_len pat = sum_list (map (\<lambda>forms. fold max (map length forms) 0) (places pat))"
  shows "length data - k \<le> pattern_open data pat"
proof -
  have "match_places data False k (places pat) [k] False = Partial"
    using assms(2) by (auto simp: match_at_def split: option.splits if_splits)
  from match_places_reach [OF this, of k] have "length data - max_len pat \<le> k"
    using assms(3) by auto
  then have k: "k \<in> set [length data - max_len pat..<length data]" using assms(1) by simp
  have "List.find (\<lambda>start. match_at pat data start False = Partial)
      [length data - max_len pat..<length data] \<noteq> None"
    using k assms(2) by (auto simp: find_None_iff)
  then obtain m where m: "List.find (\<lambda>start. match_at pat data start False = Partial)
      [length data - max_len pat..<length data] = Some m" by auto
  have "m \<le> k"
  proof (rule ccontr)
    assume "\<not> m \<le> k"
    obtain i where i: "i < length [length data - max_len pat..<length data]"
      "m = [length data - max_len pat..<length data] ! i"
      "\<forall>j<i. match_at pat data ([length data - max_len pat..<length data] ! j) False \<noteq> Partial"
      using m by (auto simp: find_Some_iff)
    have "k - (length data - max_len pat) < i" using i \<open>\<not> m \<le> k\<close> k by auto
    with i(1,3) have "match_at pat data (length data - max_len pat + (k - (length data - max_len pat))) False \<noteq> Partial"
      by (metis add.commute length_upt less_diff_conv nth_upt order.strict_trans)
    then show False using assms(2) k by simp
  qed
  with m show ?thesis by (simp add: pattern_open_def)
qed

lemma open_end_ge:
  assumes "k < length data" and "snd (decide_at (proxy_replacer ps) False data k)"
  shows "length data - k \<le> open_end (proxy_replacer ps) data"
proof -
  let ?r = "proxy_replacer ps"
  obtain best where "decide_at ?r False data k = (best, True)"
    using assms(2) by (metis prod.collapse)
  from decide_cases(1) [OF this]
  consider (pair) p where "p \<in> set (pairs ?r)" "length data - k < length (pair_from p)"
      "starts_with (pair_from p) (drop k data)"
    | (pat) pat where "pat \<in> set (patterns ?r)" "match_at pat data k False = Partial"
    by (auto simp: list_ex_iff)
  then have "\<exists>m\<in>set (map (pair_open data) (pairs ?r) @ map (pattern_open data) (patterns ?r)).
      length data - k \<le> m"
  proof cases
    case pair
    then show ?thesis using pair_open_ge [OF assms(1)] by auto
  next
    case pat
    from pat(1) obtain v ph where "escaped v ph = Some pat" by (auto simp: proxy_patterns)
    then have "max_len pat = sum_list (map (\<lambda>forms. fold max (map length forms) 0) (places pat))"
      by (auto simp: escaped_def Let_def split: if_splits)
    then show ?thesis using pattern_open_ge [OF assms(1) pat(2)] pat(1) by auto
  qed
  then show ?thesis unfolding open_end_def fold_max by (meson Max_ge finite_set le_trans list.set_intros(2))
qed

text \<open>A body that comes in pieces, and its end.\<close>

fun mask_pieces :: "replacer \<Rightarrow> string list \<Rightarrow> string \<times> bool" where
  "mask_pieces r [] = (let (out, r') = finish_replacer r in (out, replaced r'))"
| "mask_pieces r (piece # rest) =
     (let (out, r') = feed_replacer piece r; (others, found) = mask_pieces r' rest
      in (out @ others, found))"

text \<open>\<open>d\<close> went out, \<open>p\<close> is held back, and no form of a value starts in \<open>d\<close>, whatever follows.\<close>

definition no_form_before :: "(string \<times> string) list \<Rightarrow> nat \<Rightarrow> string \<Rightarrow> bool" where
  "no_form_before ps n h \<longleftrightarrow> (\<forall>i<n. \<forall>x. \<not> form_at ps (drop i (h @ x)))"

lemma decide_at_parts [simp]: "decide_at (r\<lparr>pending := p, replaced := b\<rparr>) = decide_at r"
  by (simp add: decide_at_def fun_eq_iff)

lemma replace_from_parts:
  "replace_from (r\<lparr>pending := p, replaced := b\<rparr>) ae q data found = replace_from r ae q data found"
proof (induction r ae q data found rule: replace_from.induct)
  case (1 r ae q data found)
  then show ?case
    by (subst (1 2) replace_from.simps) (auto split: prod.splits option.splits bool.splits)
qed

lemma replacer_parts [simp]:
  "replace (r\<lparr>pending := p, replaced := b\<rparr>) = replace r"
  "open_end (r\<lparr>pending := p, replaced := b\<rparr>) = open_end r"
  by (simp_all add: replace_def replace_from_parts open_end_def fun_eq_iff)

abbreviation running :: "(string \<times> string) list \<Rightarrow> string \<Rightarrow> replacer" where
  "running ps p \<equiv> (proxy_replacer ps)\<lparr>pending := p, replaced := False\<rparr>"

lemma feed_quiet:
  assumes "proper_pairs ps" and "feed_replacer piece (running ps p) = (out, r')"
    and "\<not> replaced r'"
  shows "\<exists>p'. r' = running ps p' \<and> out @ p' = p @ piece \<and> no_form_before ps (length out) (p @ piece)"
proof -
  let ?r = "proxy_replacer ps" and ?w = "p @ piece"
  let ?split = "length ?w - open_end ?r ?w"
  obtain window found where w: "replace ?r False ?w = (window, found)" by fastforce
  with assms(2,3) have found: "found = False" by (auto simp: feed_replacer_def Let_def)
  from replace_quiet [OF assms(1) w [unfolded found]] obtain k where k: "window = ?w"
    "k \<le> length ?w" "\<forall>i<k. decide_at ?r False ?w i = (None, False)"
    "k < length ?w \<longrightarrow> snd (decide_at ?r False ?w k)" by blast
  have out: "out = take ?split ?w" "r' = running ps (drop ?split ?w)"
    using assms(2) w found k(1) by (auto simp: feed_replacer_def Let_def)
  have "?split \<le> k"
    using k(2,4) open_end_ge [of k ?w ps] by (cases "k < length ?w") auto
  then have "\<not> form_at ps (drop i (?w @ x))" if "i < ?split" for i x
    using decide_stable [of ps ?w i None True x] k(2,3) that decide_finds [OF assms(1)]
    by (metis (no_types, lifting) order.strict_trans2)
  then have "no_form_before ps (length out) ?w"
    using out(1) by (simp add: no_form_before_def del: append_assoc)
  moreover have "out @ drop ?split ?w = ?w" unfolding out(1) by (rule append_take_drop_id)
  ultimately show ?thesis using out(2) by blast
qed

lemma feed_keeps_replaced: "replaced r \<Longrightarrow> feed_replacer piece r = (out, r') \<Longrightarrow> replaced r'"
  by (auto simp: feed_replacer_def Let_def split: prod.splits)

lemma mask_replaced: "replaced r \<Longrightarrow> snd (mask_pieces r pieces)"
proof (induction pieces arbitrary: r)
  case (Cons piece rest)
  obtain out r' where "feed_replacer piece r = (out, r')" by fastforce
  with Cons.IH [of r'] feed_keeps_replaced [OF Cons.prems] show ?case
    by (auto split: prod.splits)
qed (auto simp: finish_replacer_def Let_def split: prod.splits)

lemma mask_quiet:
  assumes "proper_pairs ps" and "mask_pieces (running ps p) pieces = (out, False)"
  shows "out = p @ concat pieces \<and> (\<forall>i. \<not> form_at ps (drop i (p @ concat pieces)))"
  using assms(2)
proof (induction pieces arbitrary: p out)
  case Nil
  then obtain f where "replace (proxy_replacer ps) True p = (out, f)" "f = False"
    by (auto simp: finish_replacer_def Let_def split: prod.splits)
  with replace_end_quiet [OF assms(1)] have end_quiet:
    "out = p" "\<forall>i<length p. \<not> form_at ps (drop i p)" by blast+
  have "\<not> form_at ps []"
    using form_ne [OF assms(1)] starts_with_length [of "[]"] by (fastforce simp: form_at_def)
  then have "\<not> form_at ps (drop i p)" for i
    using end_quiet(2) by (cases "i < length p") auto
  then show ?case using end_quiet(1) by simp
next
  case (Cons piece rest)
  obtain o1 r' others where f: "feed_replacer piece (running ps p) = (o1, r')"
    "mask_pieces r' rest = (others, False)" "out = o1 @ others"
    using Cons.prems by (auto split: prod.splits)
  have "\<not> replaced r'" using mask_replaced [of r' rest] f(2) by auto
  from feed_quiet [OF assms(1) f(1) this] obtain p' where p': "r' = running ps p'"
    "o1 @ p' = p @ piece" "no_form_before ps (length o1) (p @ piece)" by blast
  from Cons.IH [OF f(2) [unfolded p'(1)]] have ih: "others = p' @ concat rest"
    "\<forall>i. \<not> form_at ps (drop i (p' @ concat rest))" by blast+
  have h: "p @ concat (piece # rest) = o1 @ p' @ concat rest"
    using p'(2) by (metis append.assoc concat.simps(2))
  have "\<not> form_at ps (drop i (p @ concat (piece # rest)))" for i
  proof (cases "i < length o1")
    case True
    then show ?thesis using p'(3) by (simp add: no_form_before_def)
  next
    case False
    then have "drop i (p @ concat (piece # rest)) = drop (i - length o1) (p' @ concat rest)"
      unfolding h by simp
    then show ?thesis using ih(2) by metis
  qed
  then show ?case using ih(1) f(3) h by simp
qed

lemma mask_finds:
  assumes "proper_pairs ps" and "mask_pieces (running ps p) pieces = (out, True)"
  shows "\<exists>i. form_at ps (drop i (p @ concat pieces))"
  using assms(2)
proof (induction pieces arbitrary: p out)
  case Nil
  then have "snd (replace_from (proxy_replacer ps) True 0 p False)"
    by (auto simp: finish_replacer_def Let_def replace_def split: prod.splits)
  from replace_from_finds [OF this _ refl assms(1)] show ?case by auto
next
  case (Cons piece rest)
  obtain o1 r' others where f: "feed_replacer piece (running ps p) = (o1, r')"
    "mask_pieces r' rest = (others, True)"
    using Cons.prems by (auto split: prod.splits)
  show ?case
  proof (cases "replaced r'")
    case True
    with f(1) have "snd (replace_from (proxy_replacer ps) False 0 (p @ piece) False)"
      by (auto simp: feed_replacer_def Let_def replace_def split: prod.splits)
    from replace_from_finds [OF this _ refl assms(1)] obtain i where
      i: "i < length (p @ piece)" "form_at ps (drop i (p @ piece))" by auto
    from form_at_mono [OF i(2), of "concat rest"] i(1) have
      "form_at ps (drop i (p @ concat (piece # rest)))" by simp
    then show ?thesis by blast
  next
    case False
    from feed_quiet [OF assms(1) f(1) False] obtain p' where p': "r' = running ps p'"
      "o1 @ p' = p @ piece" by blast
    from Cons.IH [OF f(2) [unfolded p'(1)]] obtain i where
      "form_at ps (drop i (p' @ concat rest))" by blast
    moreover have "p @ concat (piece # rest) = o1 @ p' @ concat rest"
      using p'(2) by (metis append.assoc concat.simps(2))
    ultimately have "form_at ps (drop (length o1 + i) (p @ concat (piece # rest)))"
      unfolding \<open>p @ concat (piece # rest) = o1 @ p' @ concat rest\<close> by simp
    then show ?thesis by blast
  qed
qed

lemma feed_length:
  assumes "feed_replacer piece r = (out, r')"
  shows "length out + length (pending r') = length (pending r) + length piece"
proof -
  obtain w f where w: "replace r False (pending r @ piece) = (w, f)" by fastforce
  then have "length w = length (pending r) + length piece"
    using length_replace [of r False "pending r @ piece"] by simp
  then show ?thesis using assms w by (auto simp: feed_replacer_def Let_def)
qed

lemma mask_length: "length (fst (mask_pieces r pieces)) = length (pending r) + length (concat pieces)"
proof (induction pieces arbitrary: r)
  case Nil
  obtain w f where w: "replace r True (pending r) = (w, f)" by fastforce
  then have "length w = length (pending r)"
    using length_replace [of r True "pending r"] by simp
  then show ?case using w by (simp add: finish_replacer_def)
next
  case (Cons piece rest)
  obtain out r' where f: "feed_replacer piece r = (out, r')" by fastforce
  with Cons.IH [of r'] feed_length [OF f] show ?case by (auto split: prod.splits)
qed

section \<open>The copy of a response body\<close>

lemma put_answer_Inr:
  "put_answer data st = (Inr u, st') \<Longrightarrow>
     sent (program st') = sent (program st) @ data \<and> service st' = service st \<and> mask st' = mask st"
  by (auto simp: put_answer_def write_all_def split: prod.splits list.splits option.splits bool.splits)

lemma fed_step:
  "fed p st = (out, st1) \<Longrightarrow>
     service st1 = service st \<and> program st1 = program st \<and> feed_replacer p (mask st) = (out, mask st1)"
  by (auto simp: fed_def Let_def split: prod.splits)

text \<open>The body that went through the mask in pieces.\<close>

definition masked_through :: "answer \<Rightarrow> string list \<Rightarrow> answer \<Rightarrow> bool" where
  "masked_through st ps st' \<longleftrightarrow>
     bytes_left (service st) = concat ps @ bytes_left (service st')
     \<and> sent (program st') = sent (program st) @ fst (mask_pieces (mask st) ps)
     \<and> replaced (mask st') = snd (mask_pieces (mask st) ps)"

lemma put_rest_masks:
  "put_rest st = (Inr u, st') \<Longrightarrow> masked_through st [] st'"
  by (auto simp: put_rest_def finished_def masked_through_def Let_def
      dest!: put_answer_Inr split: prod.splits)

lemma piece_masks:
  assumes "bytes_left (service st) = p @ bytes_left (service st1)" and "program st1 = program st"
    and "mask st1 = mask st" and "fed p st1 = (out, st2)" and "put_answer out st2 = (Inr u, st3)"
    and "masked_through st3 ps st'"
  shows "masked_through st (p # ps) st'"
  using assms(1-3,6) fed_step [OF assms(4)] put_answer_Inr [OF assms(5)]
  by (simp add: masked_through_def split: prod.splits)

lemma answer_length_masks:
  "answer_length n st = (Inr u, st') \<Longrightarrow> \<exists>ps. length (concat ps) = n \<and> masked_through st ps st'"
proof (induction n st arbitrary: st' rule: answer_length.induct)
  case (1 n st)
  show ?case
  proof (cases "n = 0")
    case True
    with 1(2) put_rest_masks show ?thesis
      by (subst (asm) answer_length.simps) (fastforce intro: exI [of _ "[]"])
  next
    case False
    with 1(2) obtain p st1 out st2 v st3 where s: "pull_answer n st = (Inr p, st1)" "p \<noteq> []"
        "fed p st1 = (out, st2)" "put_answer out st2 = (Inr v, st3)"
        "answer_length (n - length p) st3 = (Inr u, st')"
      by (subst (asm) answer_length.simps) (auto simp: and_do_eq_Inr split: if_splits prod.splits)
    from 1(1) [OF False s(1,2) s(3) [symmetric] refl s(4,5)] obtain ps where
      ps: "length (concat ps) = n - length p" "masked_through st3 ps st'" by blast
    with piece_masks [OF _ _ _ s(3,4) ps(2), of st] pull_answer_Inr [OF s(1)] show ?thesis
      by (intro exI [of _ "p # ps"]) auto
  qed
qed

lemma answer_to_close_masks:
  "answer_to_close st = (Inr u, st') \<Longrightarrow> \<exists>ps. masked_through st ps st'"
proof (induction st arbitrary: st' rule: answer_to_close.induct)
  case (1 st)
  from 1(2) obtain p st1 where p: "pull_answer READ_CHUNK st = (Inr p, st1)"
    and rest: "(if p = [] then put_rest st1
      else (let (out, st') = fed p st1
        in and_do (put_answer out st') (\<lambda>_ st. and_do (flush st) (\<lambda>_ st. answer_to_close st))))
      = (Inr u, st')"
    by (subst (asm) answer_to_close.simps) (auto simp: and_do_eq_Inr)
  note pulled = pull_answer_Inr [OF p]
  show ?case
  proof (cases "p = []")
    case True
    with rest put_rest_masks [of st1 u st'] pulled have "masked_through st [] st'"
      by (simp add: masked_through_def)
    then show ?thesis ..
  next
    case False
    with rest obtain out st2 v st3 w st4 where s: "fed p st1 = (out, st2)"
        "put_answer out st2 = (Inr v, st3)" "flush st3 = (Inr w, st4)"
        "answer_to_close st4 = (Inr u, st')"
      by (auto simp: and_do_eq_Inr split: prod.splits)
    from 1(1) [OF p False s(1) [symmetric] refl s(2,3,4)] obtain ps where
      "masked_through st4 ps st'" by blast
    then have "masked_through st3 ps st'"
      using put_answer_Inr [of "[]" st3 w st4] s(3) by (simp add: masked_through_def flush_def)
    from piece_masks [OF _ _ _ s(1,2) this, of st] pulled show ?thesis by blast
  qed
qed

lemma proxy_replacer_running: "proxy_replacer ps = running ps []"
  by (simp add: proxy_replacer_def new_replacer_def)

end
