(* ===== verification/ProxySafety.thy ===== *)
theory ProxySafety
  imports ProxyServe ProxyMask
begin

text \<open>
  Properties of the run proxy: a real value has no influence on a request to a host that is not
  its own, a placeholder outside the auth positions stops the request, what the proxy writes reads
  back as the request that it checked, and a placeholder has the form of its value.
\<close>

section \<open>Values of other hosts\<close>

text \<open>The secrets as they are for a host: without the values of the secrets of other hosts.\<close>

definition covered :: "string \<Rightarrow> nat \<Rightarrow> swap_secret \<Rightarrow> bool" where
  "covered host port s \<longleftrightarrow> list_ex (\<lambda>rule. rule_covers rule host port) (secret_hosts s)"

definition blind :: "string \<Rightarrow> nat \<Rightarrow> swap_secret \<Rightarrow> swap_secret" where
  "blind host port s = (if covered host port s then s else s\<lparr>secret_value := []\<rparr>)"

lemma blind_parts [simp]:
  "secret_placeholder (blind host port s) = secret_placeholder s"
  "secret_hosts (blind host port s) = secret_hosts s"
  by (simp_all add: blind_def)

lemma blind_find [simp]:
  "find_placeholder text (map (blind host port) S) = find_placeholder text S"
  "exact_placeholder text (map (blind host port) S) = exact_placeholder text S"
  by (simp_all add: find_placeholder_def exact_placeholder_def position_map)

lemma exact_index: "exact_placeholder text S = Some i \<Longrightarrow> i < length S"
  by (simp add: exact_placeholder_def position_Some)


















section \<open>What a taken step keeps\<close>

definition used_covered :: "swap_secret list \<Rightarrow> string \<Rightarrow> nat \<Rightarrow> taking \<Rightarrow> bool" where
  "used_covered S host port st \<longleftrightarrow>
     (\<forall>i\<in>set (used st). i < length S \<and> covered host port (S ! i))"

lemma used_covered_echoes [simp]:
  "used_covered S host port (st\<lparr>echoes := es\<rparr>) = used_covered S host port st"
  "used_covered S host port (add_echo a b st) = used_covered S host port st"
  by (simp_all add: used_covered_def add_echo_def)

lemma used_do:
  assumes "used_covered S host port (snd r)"
    and "\<And>v s. used_covered S host port s \<Longrightarrow> used_covered S host port (snd (f v s))"
  shows "used_covered S host port (snd (and_do r f))"
  using assms by (cases r; cases "fst r") auto

lemma take_keeps:
  "i < length S \<Longrightarrow> used_covered S host port st \<Longrightarrow>
     used_covered S host port (snd (take_secret S host port i st))"
  by (auto simp: take_secret_def used_covered_def covered_def)

lemma half_keeps:
  "used_covered S host port st \<Longrightarrow>
     used_covered S host port (snd (swap_half S (take_secret S host port) text st))"
  by (auto simp: swap_half_def intro!: used_do take_keeps exact_index split: option.splits)

lemma basic_keeps:
  "used_covered S host port st \<Longrightarrow>
     used_covered S host port (snd (swap_basic scheme c S (take_secret S host port) st))"
  by (auto simp: swap_basic_def swap_credentials_def Let_def intro!: used_do half_keeps
      split: option.splits)

lemma authorization_keeps:
  "used_covered S host port st \<Longrightarrow>
     used_covered S host port (snd (swap_authorization v S (take_secret S host port) st))"
  by (auto simp: swap_authorization_def Let_def intro!: used_do basic_keeps take_keeps exact_index
      split: option.splits)

lemma key_header_keeps:
  "used_covered S host port st \<Longrightarrow>
     used_covered S host port (snd (swap_key_header v S (take_secret S host port) st))"
  by (auto simp: swap_key_header_def intro!: used_do authorization_keeps take_keeps exact_index
      split: option.splits)

lemma param_keeps:
  "used_covered S host port st \<Longrightarrow>
     used_covered S host port (snd (swap_param p S (take_secret S host port) st))"
  by (auto simp: swap_param_def Let_def intro!: used_do take_keeps exact_index
      split: option.splits prod.splits)

lemma params_keeps:
  "used_covered S host port st \<Longrightarrow>
     used_covered S host port (snd (swap_params ps S (take_secret S host port) st))"
proof (induction ps arbitrary: st)
  case (Cons p ps)
  show ?case
    unfolding swap_params.simps
    by (rule used_do [OF param_keeps [OF Cons.prems]], rule used_do [OF Cons.IH]) simp_all
qed simp

lemma target_keeps:
  "used_covered S host port st \<Longrightarrow>
     used_covered S host port (snd (swap_target t S (take_secret S host port) st))"
  by (auto simp: swap_target_def Let_def intro!: used_do params_keeps split: option.splits prod.splits)

lemma header_keeps:
  "used_covered S host port st \<Longrightarrow>
     used_covered S host port (snd (swap_header h S (take_secret S host port) st))"
  by (auto simp: swap_header_def Let_def intro!: used_do authorization_keeps key_header_keeps
      split: option.splits prod.splits)

lemma headers_keeps:
  "used_covered S host port st \<Longrightarrow>
     used_covered S host port (snd (swap_headers hs S (take_secret S host port) st))"
proof (induction hs arbitrary: st)
  case (Cons h hs)
  show ?case
    unfolding swap_headers.simps
    by (rule used_do [OF header_keeps [OF Cons.prems]], rule used_do [OF Cons.IH]) simp_all
qed simp

lemma swap_request_Inr:
  assumes "swap_request head host port S = Inr sw"
  obtains target st headers st' where
    "swap_target (rh_target head) S (take_secret S host port) \<lparr>used = [], echoes = []\<rparr> = (Inr target, st)"
    and "swap_headers (rh_headers head) S (take_secret S host port) st = (Inr headers, st')"
    and "sw = \<lparr>sw_head = write_head (rh_method head) target headers, sw_used = used st', sw_echoes = echoes st'\<rparr>"
proof -
  obtain s where "and_do (swap_target (rh_target head) S (take_secret S host port) \<lparr>used = [], echoes = []\<rparr>)
        (\<lambda>target st. and_do (swap_headers (rh_headers head) S (take_secret S host port) st) (\<lambda>headers st.
           (Inr \<lparr>sw_head = write_head (rh_method head) target headers,
              sw_used = used st, sw_echoes = echoes st\<rparr>, st))) = (Inr sw, s)"
    using assms by (metis (no_types, lifting) prod.collapse swap_request_def)
  then show ?thesis using that by (auto simp: and_do_eq_Inr)
qed

lemma swap_request_used:
  assumes "swap_request head host port S = Inr sw" and "i \<in> set (sw_used sw)"
  shows "i < length S \<and> covered host port (S ! i)"
proof -
  obtain target st headers st' where s:
    "swap_target (rh_target head) S (take_secret S host port) \<lparr>used = [], echoes = []\<rparr> = (Inr target, st)"
    "swap_headers (rh_headers head) S (take_secret S host port) st = (Inr headers, st')"
    "sw_used sw = used st'"
    using assms(1) by (rule swap_request_Inr) simp
  have "used_covered S host port \<lparr>used = [], echoes = []\<rparr>" by (simp add: used_covered_def)
  then have "used_covered S host port st" using target_keeps s(1) by (metis snd_conv)
  then have "used_covered S host port st'" using headers_keeps s(2) by (metis snd_conv)
  then show ?thesis using assms(2) s(3) by (simp add: used_covered_def)
qed

section \<open>Where a placeholder may stand\<close>















section \<open>A written head reads back\<close>

definition ascii_text :: "string \<Rightarrow> bool" where
  "ascii_text = list_all (\<lambda>c. byte c < 0x80)"


definition blank :: "char \<Rightarrow> bool" where
  "blank c \<longleftrightarrow> is_whitespace [c]"

lemma blank_iff: "blank c \<longleftrightarrow> (9 \<le> byte c \<and> byte c \<le> 13) \<or> byte c = 32"
  by (simp add: blank_def is_whitespace_def)

lemma blank_space [simp]: "blank CHR '' ''"
  by (simp add: blank_iff byte_def)

lemma ascii_text_parts [simp]:
  "ascii_text []" "ascii_text (c # s) \<longleftrightarrow> byte c < 0x80 \<and> ascii_text s"
  "ascii_text (a @ b) \<longleftrightarrow> ascii_text a \<and> ascii_text b"
  by (simp_all add: ascii_text_def)

















section \<open>The head of an admitted request is clean\<close>















subsection \<open>The target\<close>




lemma sign_bytes [simp]:
  "byte CHR ''='' = 61" "byte CHR ''%'' = 37" "byte CHR ''&'' = 38" "byte CHR ''?'' = 63"
  by (simp_all add: byte_def)







section \<open>What the service reads\<close>

lemma lower_names [simp]:
  "to_ascii_lowercase ''host'' = ''host''"
  "to_ascii_lowercase ''content-length'' = ''content-length''"
  "to_ascii_lowercase ''transfer-encoding'' = ''transfer-encoding''"
  by code_simp+


























section \<open>Placeholders\<close>

text \<open>A placeholder has the length, the known prefix and the separators of its value, and is not it.\<close>

lemma mint_rest_form:
  "mint_rest letters rest r = Some (out, r') \<Longrightarrow> length out = length rest
     \<and> (\<forall>i<length rest. if rest ! i \<in> set SEPARATORS then out ! i = rest ! i
          else out ! i \<in> set letters)"
proof (induction rest arbitrary: r out r')
  case (Cons b rest)
  show ?case
  proof (cases "b \<in> set SEPARATORS")
    case True
    then show ?thesis using Cons by (auto simp: nth_Cons split: nat.split)
  next
    case False
    then obtain i r1 out1 where s: "random_below (length letters) r = Some (i, r1)"
        "mint_rest letters rest r1 = Some (out1, r')" "out = letters ! i # out1"
      using Cons.prems by (auto split: bind_splits)
    then have "letters ! i \<in> set letters" using random_below_uses by auto
    then show ?thesis using Cons.IH [OF s(2)] s(3) False by (auto simp: nth_Cons split: nat.split)
  qed
qed simp

lemma mint_until_Some:
  "mint_until value prefix rest letters r = Some ph \<Longrightarrow> ph \<noteq> value
     \<and> (\<exists>out r1 r2. ph = prefix @ out \<and> mint_rest letters rest r1 = Some (out, r2))"
proof (induction "value" "prefix" rest letters r rule: mint_until.induct)
  case (1 v p rest letters r)
  obtain out r' where m: "list_ex (\<lambda>b. b \<notin> set SEPARATORS) rest" "mint_rest letters rest r = Some (out, r')"
      "(if p @ out \<noteq> v then Some (p @ out) else mint_until v p rest letters r') = Some ph"
    using 1(2) by (subst (asm) mint_until.simps) (auto split: if_splits option.splits)
  then show ?case using 1(1) [of "(out, r')" out r'] by (cases "p @ out \<noteq> v") auto
qed

lemma prefix_of_starts: "starts_with value (prefix_of value)"
proof -
  have "starts_with value b \<Longrightarrow> \<forall>p\<in>set ps. starts_with value p \<Longrightarrow>
      starts_with value (fold (\<lambda>p best. if length best \<le> length p then p else best) ps b)" for ps b
    by (induction ps arbitrary: b) auto
  then show ?thesis by (simp add: prefix_of_def)
qed

lemma mint_placeholder_form:
  assumes "mint_placeholder value r = Some ph"
  shows "ph \<noteq> value \<and> length ph = length value \<and> starts_with ph (prefix_of value)
    \<and> (\<forall>i. length (prefix_of value) \<le> i \<longrightarrow> i < length value \<longrightarrow> value ! i \<in> set SEPARATORS
         \<longrightarrow> ph ! i = value ! i)"
proof -
  define p where "p = prefix_of value"
  obtain rest where v: "value = p @ rest"
    using prefix_of_starts [of "value"] p_def by (auto simp: starts_with_iff)
  then have d: "drop (length p) value = rest" by simp
  obtain out r1 r2 letters where ph: "ph \<noteq> value" "ph = p @ out"
      "mint_rest letters rest r1 = Some (out, r2)"
    using assms by (auto simp: mint_placeholder_def Let_def p_def [symmetric] d
        split: if_splits dest!: mint_until_Some)
  have form: "length out = length rest"
      "\<And>i. i < length rest \<Longrightarrow> rest ! i \<in> set SEPARATORS \<Longrightarrow> out ! i = rest ! i"
    using mint_rest_form [OF ph(3)] by auto
  have "ph ! i = value ! i" if "length p \<le> i" "i < length value" "value ! i \<in> set SEPARATORS" for i
    using that form(2) [of "i - length p"] by (simp add: v ph(2) nth_append)
  moreover have "length ph = length value" by (simp add: v ph(2) form(1))
  moreover have "starts_with ph p" by (simp add: ph(2) starts_with_def)
  ultimately show ?thesis
    using ph(1) unfolding p_def by blast
qed

section \<open>What an admitted request carries\<close>














end
