(* ===== verification/Spec2Isabelle.thy ===== *)
theory Spec2Isabelle
  imports Memory QueueSafety Bouncer Patterns Otp DecisionLog SyncSafety MembershipSafety
    SqlSafety ShellSafety PackSafety ProxySafety
begin

text \<open>
  A model of the decision core of Apassy, a password manager whose agents run commands with
  credentials they never see (the Rust crate under src/src). An agent asks the broker to run
  a command with some items of the vault. The broker reads the facts of the items from the
  vault, applies the hard rules, the remembered answers and patterns of the owner, and the
  bouncer (a local or cloud decision model); it starts the run, or puts a question into the
  approval queue, where a desktop or a paired phone of the owner answers it with a proof. The
  end of every request goes into the decision log, from which the patterns are learned. The
  vault itself is synced between the Macs of the owner by merging whole copies.

  \<^bold>\<open>Theories and code.\<close> Names of definitions are those of the source; a Rust enum is a
  datatype, a struct is a record, \<open>Result\<close> is a sum with the error on the left, a panic or a
  loop that need not end is \<open>None\<close> of an option.
  \<^item> \<open>Prelude\<close>: results, the text operations of the Rust library on UTF-8 bytes, sorting.
  \<^item> \<open>Vault\<close> (vault/mod.rs, vault/agents.rs, vault/history.rs): the tables that decide what an
    agent may use, as maps and row lists, the checks that every operation starts with, and
    the item history. SQLite transactions commit or leave the state as it was.
  \<^item> \<open>Policy\<close> (vault/policy.rs, vault/agents.rs): declarations, the source of each value,
    \<open>judged\<close>, the environment that the owner sets, "always ask".
  \<^item> \<open>Exceptions\<close> (vault/exceptions.rs): never, always ask and only, per agent and item, and
    the view that the broker reads once per agent.
  \<^item> \<open>Answers\<close> (vault/answers.rs, broker/action_kind.rs): remembered owner answers.
  \<^item> \<open>Route\<close> and \<open>Memory\<close> (broker/run.rs): the facts of each item, the order of the decision,
    which answers a question can take, and what a stored answer does to the next run.
  \<^item> \<open>Bouncer\<close> (broker/bouncer.rs, broker/http.rs): the questions for the model, the pinned
    answer, thresholds, and the policy over probabilities with the rounding of \<open>f64\<close>.
  \<^item> \<open>Approvals\<close> and \<open>QueueSafety\<close> (broker/approvals.rs, broker/approvals/owner_auth.rs): the
    queue as a record, one function per public operation, and the waiting call cut where it
    releases the lock, so that a step relation covers every interleaving.
  \<^item> \<open>Patterns\<close> (broker/patterns.rs): the lexer of a shell script and the generalization of a
    command. \<open>PatternTable\<close> (vault/learning.rs): the rows of the remembered patterns.
  \<^item> \<open>DecisionLog\<close> (vault/learning.rs, broker/learning.rs): masking, the rows of decisions,
    pruning, counts, calibration, and the glue between a request and its entry.
  \<^item> \<open>SqlReads\<close>, \<open>SqlSafety\<close> (broker/shell_risk.rs): the readers of SQL and database shell
    text, and reads of personal data. \<open>ShellParse\<close>, \<open>ShellSafety\<close> (broker/shell_risk.rs,
    desktop/ui/decisions.rs): the shell lexer, the program after wrappers, and the commands
    inside a command, against the text that a question shows.
  \<^item> \<open>ShellText\<close>, \<open>ShellHosts\<close>, \<open>ShellRules\<close> (broker/shell_risk.rs, vault/providers.rs): the
    checks on single texts and requests, the destination hosts of a command, and the analysis
    of a command, segment by segment and pipeline by pipeline. \<open>Packs\<close>, \<open>PackRules\<close>,
    \<open>PackSafety\<close> (broker/packs.rs): the matchers of the rule packs, their validation, the rule
    set that built-in and local packs make, and what both give together.
  \<^item> \<open>Otp\<close> (otp.rs, vault/access.rs): the settings and codes of one-time passwords.
  \<^item> \<open>SyncClock\<close>, \<open>LegacyNames\<close>, \<open>SyncMerge\<close>, \<open>SyncSafety\<close> (vault/merge.rs, and the planned
    names of vault/passkey.rs): clocks, records, conflict copies, tombstones, the rows where
    the later wins, and the merge of one copy of the vault into another.
  \<^item> \<open>Base64\<close> (native/base64.rs): both codecs. \<open>Limbs\<close>, \<open>PointKeys\<close>, \<open>LinkNames\<close>
    (questions/device_link.rs): arithmetic on 256-bit numbers as four words with carries, the
    compression of a point and its square root, and device names that carry an answer key.
  \<^item> \<open>Devices\<close> (vault/trusted_device.rs, vault/relay_device.rs, vault/questions.rs): trusted
    devices, the question key, the keys of this Mac in relay teams and the identity of relay
    sync. \<open>Membership\<close> and \<open>MembershipSafety\<close> (relay/membership.rs): turning the questions on
    and off and moving them, as sequences of transactions of which each can fail. \<open>Handoff\<close>
    (vault/connect.rs, vault/merge.rs): the writers that take device rows of another device.
  \<^item> The run proxy (broker/proxy), which puts real values into the requests of a run:
    \<open>ProxyHttp\<close>, \<open>ProxyBody\<close> (http1.rs): heads, framing and request bodies. \<open>ProxyEcho\<close>,
    \<open>ProxyMask\<close> (echo.rs, http1.rs): the escaped forms of a value and the mask of an answer that
    comes in pieces. \<open>ProxySwap\<close> (swap.rs, mod.rs): host rules, placeholders, and the swap of a
    request head. \<open>ProxyServe\<close>, \<open>ProxySafety\<close> (engine.rs, public_addr.rs, ws.rs): the decisions on
    a connection and on each request of it.

  \<^bold>\<open>Interfaces.\<close> A locale states what one part relies on of another, and is interpreted on
  the definitions of the part that provides it: the stored names of the enums (\<open>stored_name\<close>),
  the tables that a row is written to under its key (\<open>upsert_table\<close>), and the join of clocks
  (\<open>join_view\<close>), whose laws give that copies agree whatever the order of the updates, and the
  invariants of a vault in the relay (\<open>relay_invariant\<close>), which every action made of its
  operations keeps, also a failed one, and the steps that only add to a rule set
  (\<open>rule_growth\<close>), after any number of which the analysis is stricter.

  \<^bold>\<open>What the lemmas show.\<close> The route of a run is equivalent to a policy stated on the facts,
  and the bouncer step to a policy stated on the answer; the queue keeps an invariant over
  every interleaving, from which an approval is taken once, is for the run exactly as it
  waits, and is void after a lock; answers, exceptions and log rows read back; a pattern
  covers only inert arguments, has earned its approvals, and a denied one stays blocked; a
  code is fresh and well formed; two copies that merge each other agree, forget no version
  and keep the loser of a conflict; the renaming of reserved names ends; the limbs refine
  the square root modulo the prime, keys and names read back, the key of a removed device
  stays out of every step that respects it, one membership carries relay sync, and a failure
  leaves the memberships; comments change no reading of SQL, a read of the schema destroys
  nothing, the commands of a line read back word for word; local rule packs only make the analysis stricter and stay with
  their programs, and a directory that does not load sends every run to the owner; a request
  that the proxy admits carries no value of another host, and the service reads it as the proxy
  checked it; the mask of an answer keeps the length, and reports a replacement exactly when a
  form of a value stands in the answer, however the answer is cut.

  \<^bold>\<open>Bounds and fuel.\<close> No definition takes fuel (the budget of \<open>parse_command\<close> is the
  code's own). Loops are structural or have a measure; the
  search for a free field name is a \<open>partial_function\<close>, and \<open>legacy_renames_end\<close> shows that
  it returns after at most one number more than the taken names. Integers that can reach
  their width are words or are checked against it (\<open>i64\<close> identifiers, \<open>u64\<close> counters, the
  31 bits of an HOTP number); a time is a number of seconds or milliseconds and an argument.

  \<^bold>\<open>Parameters.\<close> HMAC and SHA-256, JSON text, the files of the local packs, the Unicode letters outside ASCII, the clock,
  random tokens, an answer of the relay and one attempt to reach the decision model are
  arguments. A theorem that
  needs a law of one of them names it as a hypothesis and has a witness with a concrete
  function.

  \<^bold>\<open>Not modelled.\<close> The user interfaces (desktop, phone, command line), the network (TLS,
  relay, tailnet), files, processes and the SQLite engine are input and output around the
  model. The contents of the built-in packs are data, an argument of the model. The templates of
  providers, imports, leases, short-lived keys, passkeys, pairing, the shadow mode and the
  replay of candidate models are program logic that is not modelled. Of the merge,
  attaching and checking the file, the triggers, and the tables that only the own device has are left out; of the run proxy, sockets, TLS, the
  certificates and the frames of a WebSocket.
\<close>

end
